(* ===== verification/Prelude.thy ===== *)
theory Prelude
  imports Complex_Main "HOL-Library.Word" "HOL-Library.Monad_Syntax"
begin

text \<open>
  The vocabulary the components share: the fixed-width integer types of the C code, the
  collections of rewrite rules the component proofs use, and generic facts about option
  computations, lists and words. Nothing here models code.
\<close>

unbundle bit_operations_syntax

type_synonym u8 = "8 word"
type_synonym u16 = "16 word"
type_synonym u32 = "32 word"
type_synonym s32 = "32 word"
type_synonym u64 = "64 word"

named_theorems consts_simps \<open>values of the constants of the code's header files\<close>
named_theorems hw_simps \<open>unfolding of the hardware access functions\<close>
named_theorems frame_simps \<open>fields that an operation leaves alone\<close>

section \<open>Option computations\<close>

lemma bind_Some_iff:
  "(Option.bind m f = Some y) \<longleftrightarrow> (\<exists>x. m = Some x \<and> f x = Some y)"
  by (cases m) auto

lemma bind_pair_Some_iff:
  "(Option.bind m (\<lambda>(a, b). f a b) = Some y) \<longleftrightarrow> (\<exists>a b. m = Some (a, b) \<and> f a b = Some y)"
  by (cases m) auto

section \<open>Lists read and written by index\<close>

text \<open>
  C indexes arrays without a check. A read outside the object is undefined behaviour,
  so a checked read returns an option.
\<close>

definition rd :: "'a list \<Rightarrow> nat \<Rightarrow> 'a option" where
  "rd xs i = (if i < length xs then Some (xs ! i) else None)"

lemma rd_Some [simp]: "i < length xs \<Longrightarrow> rd xs i = Some (xs ! i)"
  by (simp add: rd_def)

lemma rd_None [simp]: "length xs \<le> i \<Longrightarrow> rd xs i = None"
  by (simp add: rd_def)

lemma rd_eq_Some_iff: "rd xs i = Some x \<longleftrightarrow> i < length xs \<and> x = xs ! i"
  by (auto simp: rd_def)

definition rd_slice :: "'a list \<Rightarrow> nat \<Rightarrow> nat \<Rightarrow> 'a list option" where
  "rd_slice xs off n = (if off + n \<le> length xs then Some (take n (drop off xs)) else None)"

lemma rd_slice_Some [simp]: "off + n \<le> length xs \<Longrightarrow> rd_slice xs off n = Some (take n (drop off xs))"
  by (simp add: rd_slice_def)

lemma rd_slice_eq_Some_iff:
  "rd_slice xs off n = Some ys \<longleftrightarrow> off + n \<le> length xs \<and> ys = take n (drop off xs)"
  by (auto simp: rd_slice_def)

lemma length_rd_slice: "rd_slice xs off n = Some ys \<Longrightarrow> length ys = n"
  by (auto simp: rd_slice_eq_Some_iff)

text \<open>Copying a block into a buffer at an offset, as \<open>memcpy\<close> does inside an object.\<close>

definition put_at :: "nat \<Rightarrow> 'a list \<Rightarrow> 'a list \<Rightarrow> 'a list" where
  "put_at off bs buf = take off buf @ bs @ drop (off + length bs) buf"

lemma length_put_at [simp]:
  "off + length bs \<le> length buf \<Longrightarrow> length (put_at off bs buf) = length buf"
  by (simp add: put_at_def)

lemma nth_put_at:
  assumes "off + length bs \<le> length buf"
  shows "put_at off bs buf ! i =
    (if off \<le> i \<and> i < off + length bs then bs ! (i - off) else buf ! i)"
proof -
  consider "i < off" | "off \<le> i \<and> i < off + length bs" | "off + length bs \<le> i"
    by linarith
  then show ?thesis
    using assms by cases (auto simp: put_at_def nth_append nth_drop)
qed

section \<open>Words\<close>

text \<open>\<open>unat\<close> is the reading of a word used throughout, also below \<open>real\<close> and \<open>int\<close>.\<close>

lemma word_of_nat_unat [simp]: "(word_of_nat (unat w) :: 'a::len word) = w"
  by simp

declare of_nat_unat [simp del]

lemma word_diff_less_iff_unat:
  "unat (a - b :: 'a::len word) = (if unat b \<le> unat a then unat a - unat b
     else 2 ^ LENGTH('a) + unat a - unat b)"
  by (auto simp: unat_sub_if' not_le)

lemma u8_less_256 [simp]: "unat (b :: u8) < 256"
  using unsigned_less [of b, where 'a=nat] by simp

lemma u16_less_65536 [simp]: "unat (b :: u16) < 65536"
  using unsigned_less [of b, where 'a=nat] by simp

lemma u32_less_2p32: "unat (b :: u32) < 4294967296"
  using unsigned_less [of b, where 'a=nat] by simp

lemma word_xor_eq_0D: "(a :: 'a::len word) XOR b = 0 \<Longrightarrow> a = b"
proof -
  assume "a XOR b = 0"
  then have "\<not> bit (a XOR b) n" for n by simp
  then show "a = b" by (intro bit_eqI) (simp add: bit_xor_iff)
qed

lemma u32_of_nat_inj:
  assumes "(of_nat a :: u32) = of_nat b" "a < 2 ^ 32" "b < 2 ^ 32"
  shows "a = b"
proof -
  have "unat (of_nat a :: u32) = unat (of_nat b :: u32)" using assms(1) by simp
  then show ?thesis using assms(2,3) by (simp add: unat_of_nat take_bit_nat_eq_self)
qed

lemma unat_of_nat_u32: "n < 4294967296 \<Longrightarrow> unat (of_nat n :: u32) = n"
  by (simp add: unat_of_nat take_bit_nat_eq_self)

end
