(* ===== verification/Float32.thy ===== *)
theory Float32
  imports Prelude
begin

text \<open>
  The \<open>float32\<close> of the C code: IEEE-754 binary32 with rounding to nearest, ties to even,
  gradual underflow and overflow to infinity, as C's Annex F prescribes for \<open>float\<close>.
  A finite value is the real number it denotes (zero carries its sign), every operation
  computes exactly and rounds once. A conversion of a float to an integer type that cannot
  hold its truncation is undefined behaviour in C and is \<open>None\<close> here.
\<close>

section \<open>The binary exponent of a positive real\<close>

function ilog2 :: "real \<Rightarrow> int" where
  "ilog2 r = (if r \<le> 0 then 0 else if 2 \<le> r then ilog2 (r / 2) + 1
     else if r < 1 then ilog2 (2 * r) - 1 else 0)"
  by pat_completeness auto
termination
proof (relation "measure (\<lambda>r. if 1 \<le> r then nat \<lfloor>log 2 r\<rfloor> else nat \<lceil>- log 2 r\<rceil> + 1)")
  fix r :: real
  assume a: "\<not> r \<le> 0" "2 \<le> r"
  then have "log 2 r \<ge> 1" by (simp add: le_log_iff)
  moreover have "log 2 (r / 2) = log 2 r - 1" using a by (simp add: log_divide)
  ultimately show "(r / 2, r) \<in> measure (\<lambda>r. if 1 \<le> r then nat \<lfloor>log 2 r\<rfloor> else nat \<lceil>- log 2 r\<rceil> + 1)"
    using a by simp
next
  fix r :: real
  assume a: "\<not> r \<le> 0" "\<not> 2 \<le> r" "r < 1"
  then have l: "log 2 r < 0" by simp
  have e: "log 2 (2 * r) = log 2 r + 1" using a by (simp add: log_mult)
  show "(2 * r, r) \<in> measure (\<lambda>r. if 1 \<le> r then nat \<lfloor>log 2 r\<rfloor> else nat \<lceil>- log 2 r\<rceil> + 1)"
  proof (cases "1 \<le> 2 * r")
    case True
    with a e l have "\<lfloor>log 2 (2 * r)\<rfloor> \<le> 0" by linarith
    with True a show ?thesis by simp
  next
    case False
    with a have "log 2 (2 * r) < 0" by simp
    with False a e l show ?thesis by simp
  qed
qed simp

declare ilog2.simps [simp del]

lemma ilog2_bounds:
  "0 < r \<Longrightarrow> 2 powi ilog2 r \<le> r \<and> r < 2 powi (ilog2 r + 1)"
proof (induction r rule: ilog2.induct)
  case (1 r)
  consider "2 \<le> r" | "r < 1" | "1 \<le> r" "r < 2" by linarith
  then show ?case
  proof cases
    case 1
    with "1.IH"(1) have "2 powi ilog2 (r / 2) \<le> r / 2 \<and> r / 2 < 2 powi (ilog2 (r / 2) + 1)"
      by simp
    moreover have "ilog2 r = ilog2 (r / 2) + 1" using 1 by (subst ilog2.simps) simp
    ultimately show ?thesis by (simp add: power_int_add)
  next
    case 2
    with "1.IH"(2) "1.prems" have "2 powi ilog2 (2 * r) \<le> 2 * r \<and> 2 * r < 2 powi (ilog2 (2 * r) + 1)"
      by simp
    moreover have "ilog2 r = ilog2 (2 * r) - 1" using 2 "1.prems" by (subst ilog2.simps) simp
    ultimately show ?thesis by (simp add: power_int_add power_int_diff)
  next
    case 3
    then have "ilog2 r = 0" by (subst ilog2.simps) simp
    with 3 show ?thesis by simp
  qed
qed

lemma two_powi_le_iff: "(2::real) powi a \<le> 2 powi b \<longleftrightarrow> a \<le> b"
proof
  show "a \<le> b \<Longrightarrow> (2::real) powi a \<le> 2 powi b" by (rule power_int_increasing) simp_all
  show "(2::real) powi a \<le> 2 powi b \<Longrightarrow> a \<le> b"
  proof (rule ccontr)
    assume "(2::real) powi a \<le> 2 powi b" "\<not> a \<le> b"
    moreover from this have "(2::real) powi b < 2 powi a"
      by (intro power_int_strict_increasing) simp_all
    ultimately show False by simp
  qed
qed

lemma two_powi_less_iff: "(2::real) powi a < 2 powi b \<longleftrightarrow> a < b"
  using two_powi_le_iff [of b a] by (auto simp: not_le [symmetric])

lemma ilog2_mono: "0 < x \<Longrightarrow> x \<le> y \<Longrightarrow> ilog2 x \<le> ilog2 y"
proof -
  assume "0 < x" "x \<le> y"
  then have "2 powi ilog2 x \<le> x" "y < 2 powi (ilog2 y + 1)"
    using ilog2_bounds [of x] ilog2_bounds [of y] by auto
  with \<open>x \<le> y\<close> have "(2::real) powi ilog2 x < 2 powi (ilog2 y + 1)" by linarith
  then show ?thesis by (simp add: two_powi_less_iff)
qed


lemma ilog2_eqI: "2 powi k \<le> r \<Longrightarrow> r < 2 powi (k + 1) \<Longrightarrow> ilog2 r = k"
proof -
  assume a: "2 powi k \<le> r" "r < 2 powi (k + 1)"
  have "0 < (2::real) powi k" by simp
  with a(1) have "0 < r" by linarith
  then have b: "2 powi ilog2 r \<le> r" "r < 2 powi (ilog2 r + 1)" using ilog2_bounds by auto
  from a b have "(2::real) powi k < 2 powi (ilog2 r + 1)" "(2::real) powi ilog2 r < 2 powi (k + 1)"
    by linarith+
  then show ?thesis by (simp add: two_powi_less_iff)
qed

section \<open>Rounding to an integer, ties to even\<close>

definition rhe :: "real \<Rightarrow> int" where
  "rhe x = (let f = \<lfloor>x\<rfloor>; d = x - of_int f in
     if d < 1 / 2 then f else if 1 / 2 < d then f + 1 else if even f then f else f + 1)"

lemma rhe_of_int [simp]: "rhe (of_int k) = k"
  by (simp add: rhe_def)

lemma rhe_close: "\<bar>of_int (rhe x) - x\<bar> \<le> 1 / 2"
  unfolding rhe_def Let_def by (auto; linarith)

lemma rhe_mono: "x \<le> y \<Longrightarrow> rhe x \<le> rhe y"
proof -
  assume xy: "x \<le> y"
  then have f: "\<lfloor>x\<rfloor> \<le> \<lfloor>y\<rfloor>" by (rule floor_mono)
  show ?thesis
  proof (cases "\<lfloor>x\<rfloor> = \<lfloor>y\<rfloor>")
    case True
    with xy show ?thesis by (auto simp: rhe_def Let_def)
  next
    case False
    have "rhe x \<le> \<lfloor>x\<rfloor> + 1" "\<lfloor>y\<rfloor> \<le> rhe y" by (auto simp: rhe_def Let_def)
    with False f show ?thesis by linarith
  qed
qed

lemma rhe_minus: "rhe (- x) = - rhe x"
proof (cases "x = of_int \<lfloor>x\<rfloor>")
  case True
  then have "- x = of_int (- \<lfloor>x\<rfloor>)" by simp
  then show ?thesis using True by (metis rhe_of_int)
next
  case False
  then have "of_int \<lfloor>x\<rfloor> < x" by linarith
  then have "\<lfloor>- x\<rfloor> = - \<lfloor>x\<rfloor> - 1"
    by (intro floor_unique) (auto simp: le_less, linarith)
  then show ?thesis
    by (auto simp: rhe_def Let_def)
qed

section \<open>Rounding to the binary32 grid\<close>

text \<open>
  \<open>representable q\<close>: \<open>q\<close> is a multiple of a power of two not below \<open>2\<^sup>-\<^sup>1\<^sup>4\<^sup>9\<close> with a
  significand of at most 24 bits. The largest exponent is not bounded here; overflow is
  decided after rounding, as the standard has it.
\<close>

definition representable :: "real \<Rightarrow> bool" where
  "representable q \<longleftrightarrow> (\<exists>m e. q = of_int m * 2 powi e \<and> \<bar>m\<bar> \<le> 2 ^ 24 \<and> -149 \<le> e)"

definition qexp :: "real \<Rightarrow> int" where
  "qexp r = max (ilog2 \<bar>r\<bar> - 23) (- 149)"

definition rnd32 :: "real \<Rightarrow> real" where
  "rnd32 r = (if r = 0 then 0 else of_int (rhe (r / 2 powi qexp r)) * 2 powi qexp r)"

lemma rnd32_0 [simp]: "rnd32 0 = 0"
  by (simp add: rnd32_def)

lemma qexp_minus [simp]: "qexp (- r) = qexp r"
  by (simp add: qexp_def)

lemma rnd32_minus: "rnd32 (- r) = - rnd32 r"
  by (simp add: rnd32_def rhe_minus)

lemma scaled_less: "\<bar>r\<bar> / 2 powi qexp r < 2 ^ 24" if "r \<noteq> 0"
proof -
  have "\<bar>r\<bar> < 2 powi (ilog2 \<bar>r\<bar> + 1)" using that ilog2_bounds [of "\<bar>r\<bar>"] by simp
  also have "\<dots> \<le> 2 powi (qexp r + 24)" by (simp add: two_powi_le_iff qexp_def)
  also have "\<dots> = 2 ^ 24 * 2 powi qexp r" by (simp add: power_int_add)
  finally show ?thesis by (simp add: divide_less_eq)
qed

lemma rhe_abs_le: "\<bar>x\<bar> \<le> of_int k \<Longrightarrow> \<bar>rhe x\<bar> \<le> k"
  using rhe_mono [of x "of_int k"] rhe_mono [of "- of_int k" x] rhe_minus [of "of_int k"]
  by (simp add: abs_le_iff)

lemma representable_rnd32: "representable (rnd32 r)"
proof (cases "r = 0")
  case True
  then show ?thesis by (auto simp: representable_def intro!: exI [of _ 0])
next
  case False
  have "\<bar>r / 2 powi qexp r\<bar> \<le> of_int (2 ^ 24)" using scaled_less [OF False] by (simp add: abs_divide)
  then have "\<bar>rhe (r / 2 powi qexp r)\<bar> \<le> 2 ^ 24" by (rule rhe_abs_le)
  moreover have "- 149 \<le> qexp r" by (simp add: qexp_def)
  ultimately show ?thesis using False unfolding representable_def rnd32_def by auto
qed

lemma representable_minus: "representable q \<Longrightarrow> representable (- q)"
proof -
  assume "representable q"
  then obtain m e where "q = of_int m * 2 powi e" "\<bar>m\<bar> \<le> 2 ^ 24" "-149 \<le> e"
    by (auto simp: representable_def)
  then have "- q = of_int (- m) * 2 powi e \<and> \<bar>- m\<bar> \<le> 2 ^ 24 \<and> -149 \<le> e" by simp
  then show ?thesis unfolding representable_def by blast
qed

lemma representable_0 [simp]: "representable 0"
  using representable_rnd32 [of 0] by simp

lemma rnd32_integral:
  assumes "q \<noteq> 0" "q = of_int k * 2 powi qexp q"
  shows "rnd32 q = q"
proof -
  have "q / 2 powi qexp q = of_int k" using assms(2) by (metis nonzero_mult_div_cancel_right power_int_not_zero zero_neq_numeral)
  then show ?thesis using assms by (simp add: rnd32_def)
qed


lemma rnd32_representable:
  assumes "representable q"
  shows "rnd32 q = q"
proof (cases "q = 0")
  case False
  from assms obtain m e where q: "q = of_int m * 2 powi e" and m: "\<bar>m\<bar> \<le> 2 ^ 24" and e: "-149 \<le> e"
    by (auto simp: representable_def)
  show ?thesis
  proof (cases "qexp q \<le> e")
    case True
    then have "(2::real) ^ nat (e - qexp q) = 2 powi (e - qexp q)" by (simp add: power_int_def)
    then have "(2::real) powi e = of_int (2 ^ nat (e - qexp q)) * 2 powi qexp q"
      by (simp add: power_int_diff)
    then have "q = of_int (m * 2 ^ nat (e - qexp q)) * 2 powi qexp q"
      using q by simp
    with False show ?thesis by (rule rnd32_integral)
  next
    case False': False
    with e have L: "qexp q = ilog2 \<bar>q\<bar> - 23" by (auto simp: qexp_def)
    have "2 powi ilog2 \<bar>q\<bar> \<le> \<bar>q\<bar>" using \<open>q \<noteq> 0\<close> ilog2_bounds [of "\<bar>q\<bar>"] by simp
    also have "\<bar>q\<bar> = of_int \<bar>m\<bar> * 2 powi e" using q by (simp add: abs_mult)
    also have "\<dots> \<le> of_int (2 ^ 24) * 2 powi e" using m by (intro mult_right_mono) (simp_all only: of_int_le_iff, simp)
    also have "\<dots> = 2 powi (e + 24)" by (simp add: power_int_add)
    finally have "ilog2 \<bar>q\<bar> \<le> e + 24" by (simp add: two_powi_le_iff)
    with False' L have qe: "qexp q = e + 1" and "ilog2 \<bar>q\<bar> = e + 24" by auto
    then have "(2::real) powi (e + 24) \<le> of_int \<bar>m\<bar> * 2 powi e"
      using \<open>2 powi ilog2 \<bar>q\<bar> \<le> \<bar>q\<bar>\<close> q by (simp add: abs_mult)
    then have "(2::real) ^ 24 \<le> of_int \<bar>m\<bar>" by (simp add: power_int_add)
    then have "2 ^ 24 \<le> \<bar>m\<bar>" by (metis of_int_le_iff of_int_numeral of_int_power)
    with m have "\<bar>m\<bar> = 2 ^ 24" by simp
    then have "m = 2 ^ 24 \<or> m = - (2 ^ 24)" by linarith
    then have "even m" by auto
    then obtain k where "m = 2 * k" by (rule evenE)
    then have "q = of_int k * 2 powi qexp q" using q qe by (simp add: power_int_add)
    with False show ?thesis by (rule rnd32_integral)
  qed
qed simp

lemma rnd32_nonneg: "0 \<le> x \<Longrightarrow> 0 \<le> rnd32 x"
  using rhe_mono [of 0 "x / 2 powi qexp x"] by (simp add: rnd32_def rhe_def)

lemma rnd32_mono_pos:
  assumes "0 < x" "x \<le> y"
  shows "rnd32 x \<le> rnd32 y"
proof -
  have le: "qexp x \<le> qexp y" using ilog2_mono [OF assms] assms by (simp add: qexp_def)
  show ?thesis
  proof (cases "qexp x = qexp y")
    case True
    have "x / 2 powi qexp x \<le> y / 2 powi qexp y" using True assms by (simp add: divide_right_mono)
    then have "rhe (x / 2 powi qexp x) \<le> rhe (y / 2 powi qexp y)" by (rule rhe_mono)
    with True assms show ?thesis by (simp add: rnd32_def mult_right_mono)
  next
    case False
    with le have lt: "qexp x < qexp y" by simp
    then have ey: "qexp y = ilog2 y - 23" using assms by (auto simp: qexp_def)
    have "\<bar>x / 2 powi qexp x\<bar> \<le> of_int (2 ^ 24)"
      using scaled_less [of x] assms by (simp add: abs_divide)
    then have "\<bar>rhe (x / 2 powi qexp x)\<bar> \<le> 2 ^ 24" by (rule rhe_abs_le)
    then have "of_int (rhe (x / 2 powi qexp x)) \<le> (2::real) ^ 24" by (simp add: of_int_le_iff abs_le_iff)
    then have "rnd32 x \<le> 2 ^ 24 * 2 powi qexp x" using assms by (simp add: rnd32_def mult_right_mono)
    also have "\<dots> = 2 powi (qexp x + 24)" by (simp add: power_int_add)
    also have "\<dots> \<le> 2 powi ilog2 y" using lt ey by (simp add: two_powi_le_iff)
    also have "\<dots> = of_int (2 ^ 23) * 2 powi qexp y" using ey by (simp add: power_int_diff)
    also have "\<dots> \<le> of_int (rhe (y / 2 powi qexp y)) * 2 powi qexp y"
    proof (intro mult_right_mono)
      have "2 powi ilog2 y \<le> y" using ilog2_bounds [of y] assms by simp
      then have "of_int (2 ^ 23) \<le> y / 2 powi qexp y" using ey by (simp add: power_int_diff pos_le_divide_eq)
      then have "rhe (of_int (2 ^ 23)) \<le> rhe (y / 2 powi qexp y)" by (rule rhe_mono)
      then have "2 ^ 23 \<le> rhe (y / 2 powi qexp y)" by (simp only: rhe_of_int)
      then show "of_int (2 ^ 23) \<le> (of_int (rhe (y / 2 powi qexp y)) :: real)" by (simp only: of_int_le_iff)
    qed simp
    also have "\<dots> = rnd32 y" using assms by (simp add: rnd32_def)
    finally show ?thesis .
  qed
qed

lemma rnd32_mono: "x \<le> y \<Longrightarrow> rnd32 x \<le> rnd32 y"
proof -
  assume xy: "x \<le> y"
  consider "0 < x" | "x \<le> 0" "0 \<le> y" | "y < 0" using xy by linarith
  then show ?thesis
  proof cases
    case 1
    with xy show ?thesis by (intro rnd32_mono_pos)
  next
    case 2
    with rnd32_nonneg [of y] rnd32_nonneg [of "- x"] show ?thesis by (simp add: rnd32_minus)
  next
    case 3
    with xy rnd32_mono_pos [of "- y" "- x"] show ?thesis by (simp add: rnd32_minus)
  qed
qed

lemma rnd32_error: "\<bar>rnd32 x - x\<bar> \<le> max (\<bar>x\<bar> / 2 ^ 24) (1 / 2 ^ 150)"
proof (cases "x = 0")
  case False
  let ?u = "(2::real) powi qexp x"
  have "rnd32 x - x = (of_int (rhe (x / ?u)) - x / ?u) * ?u"
    using False by (simp add: rnd32_def left_diff_distrib)
  then have "\<bar>rnd32 x - x\<bar> = \<bar>of_int (rhe (x / ?u)) - x / ?u\<bar> * ?u" by (simp add: abs_mult)
  also have "\<dots> \<le> 1 / 2 * ?u" by (intro mult_right_mono rhe_close) simp
  also have "\<dots> \<le> max (\<bar>x\<bar> / 2 ^ 24) (1 / 2 ^ 150)"
  proof (cases "ilog2 \<bar>x\<bar> - 23 \<le> - 149")
    case True
    then have "?u = 2 powi (- 149)" by (simp add: qexp_def)
    then have "1 / 2 * ?u = 1 / 2 ^ 150" by (simp add: power_int_minus field_simps)
    then show ?thesis by simp
  next
    case False': False
    then have "?u = 2 powi ilog2 \<bar>x\<bar> / 2 ^ 23" by (simp add: qexp_def power_int_diff)
    moreover have "2 powi ilog2 \<bar>x\<bar> \<le> \<bar>x\<bar>" using ilog2_bounds [of "\<bar>x\<bar>"] False by simp
    ultimately have "1 / 2 * ?u \<le> \<bar>x\<bar> / 2 ^ 24" by (simp add: field_simps)
    then show ?thesis by simp
  qed
  finally show ?thesis .
qed simp


lemma rnd32_error_le: "\<bar>x\<bar> \<le> b \<Longrightarrow> 1 / 2 ^ 126 \<le> b \<Longrightarrow> \<bar>rnd32 x - x\<bar> \<le> b / 2 ^ 24"
proof -
  assume b: "\<bar>x\<bar> \<le> b" "1 / 2 ^ 126 \<le> b"
  have "\<bar>x\<bar> / 2 ^ 24 \<le> b / 2 ^ 24" using b(1) by simp
  moreover have "1 / 2 ^ 150 \<le> b / 2 ^ 24" using b(2) by simp
  ultimately show ?thesis using rnd32_error [of x] by linarith
qed

section \<open>What the operations need of a rounding\<close>

text \<open>
  The bounds on computed values only use that rounding is monotone, lands on a grid, and
  leaves the grid alone. They are proved here from those laws and instantiated with
  \<open>rnd32\<close> below.
\<close>

locale rounding =
  fixes rnd :: "real \<Rightarrow> real" and grid :: "real \<Rightarrow> bool"
  assumes rnd_mono: "x \<le> y \<Longrightarrow> rnd x \<le> rnd y"
    and rnd_grid: "grid (rnd x)"
    and rnd_id: "grid q \<Longrightarrow> rnd q = q"
    and grid_minus: "grid q \<Longrightarrow> grid (- q)"
begin

lemma rnd_le: "grid q \<Longrightarrow> x \<le> q \<Longrightarrow> rnd x \<le> q"
  using rnd_mono [of x q] rnd_id by simp

lemma rnd_ge: "grid q \<Longrightarrow> q \<le> x \<Longrightarrow> q \<le> rnd x"
  using rnd_mono [of q x] rnd_id by simp

lemma rnd_abs_le: "grid q \<Longrightarrow> \<bar>x\<bar> \<le> q \<Longrightarrow> \<bar>rnd x\<bar> \<le> q"
  using rnd_le [of q x] rnd_ge [OF grid_minus, of q x] by (auto simp: abs_le_iff)

lemma rnd_between: "grid lo \<Longrightarrow> grid hi \<Longrightarrow> lo \<le> x \<Longrightarrow> x \<le> hi \<Longrightarrow> lo \<le> rnd x \<and> rnd x \<le> hi"
  using rnd_le rnd_ge by blast

lemma rnd_idem [simp]: "rnd (rnd x) = rnd x"
  using rnd_id rnd_grid by blast

end

interpretation r32: rounding rnd32 representable
  by unfold_locales (auto intro: rnd32_mono representable_rnd32 rnd32_representable representable_minus)

section \<open>Values and operations\<close>

text \<open>\<open>Fin q\<close> is a finite value (\<open>Fin 0\<close> is positive zero), \<open>NZero\<close> is negative zero,
  \<open>Inf True\<close> is minus infinity. One \<open>NaN\<close> stands for all of them.\<close>

datatype f32 = NaN | Inf bool | NZero | Fin real

fun fval :: "f32 \<Rightarrow> real" where
  "fval (Fin q) = q"
| "fval _ = 0"

fun is_fin :: "f32 \<Rightarrow> bool" where
  "is_fin (Fin q) = True"
| "is_fin NZero = True"
| "is_fin _ = False"

fun is_neg :: "f32 \<Rightarrow> bool" where
  "is_neg (Fin q) = (q < 0)"
| "is_neg NZero = True"
| "is_neg (Inf s) = s"
| "is_neg NaN = False"

text \<open>Rounding an exact result; \<open>neg\<close> is the sign an exact zero takes.\<close>

definition mk32 :: "bool \<Rightarrow> real \<Rightarrow> f32" where
  "mk32 neg r = (let q = rnd32 r in
     if q = 0 then (if r < 0 \<or> r = 0 \<and> neg then NZero else Fin 0)
     else if 2 ^ 128 \<le> q then Inf False else if q \<le> - (2 ^ 128) then Inf True else Fin q)"

definition flit :: "real \<Rightarrow> f32" where
  "flit r = mk32 False r"

fun fneg :: "f32 \<Rightarrow> f32" where
  "fneg NaN = NaN"
| "fneg (Inf s) = Inf (\<not> s)"
| "fneg NZero = Fin 0"
| "fneg (Fin q) = (if q = 0 then NZero else Fin (- q))"

definition fadd :: "f32 \<Rightarrow> f32 \<Rightarrow> f32" where
  "fadd a b =
    (case (a, b) of (NaN, _) \<Rightarrow> NaN | (_, NaN) \<Rightarrow> NaN
     | (Inf s, Inf t) \<Rightarrow> if s = t then Inf s else NaN
     | (Inf s, _) \<Rightarrow> Inf s | (_, Inf t) \<Rightarrow> Inf t
     | _ \<Rightarrow> mk32 (a = NZero \<and> b = NZero) (fval a + fval b))"

definition fsub :: "f32 \<Rightarrow> f32 \<Rightarrow> f32" where
  "fsub a b = fadd a (fneg b)"

definition fmul :: "f32 \<Rightarrow> f32 \<Rightarrow> f32" where
  "fmul a b = (let s = (is_neg a \<noteq> is_neg b) in
     case (a, b) of (NaN, _) \<Rightarrow> NaN | (_, NaN) \<Rightarrow> NaN
     | (Inf _, _) \<Rightarrow> if is_fin b \<and> fval b = 0 then NaN else Inf s
     | (_, Inf _) \<Rightarrow> if fval a = 0 then NaN else Inf s
     | _ \<Rightarrow> mk32 s (fval a * fval b))"

definition fdiv :: "f32 \<Rightarrow> f32 \<Rightarrow> f32" where
  "fdiv a b = (let s = (is_neg a \<noteq> is_neg b) in
     case (a, b) of (NaN, _) \<Rightarrow> NaN | (_, NaN) \<Rightarrow> NaN
     | (Inf _, Inf _) \<Rightarrow> NaN
     | (Inf _, _) \<Rightarrow> Inf s
     | (_, Inf _) \<Rightarrow> if s then NZero else Fin 0
     | _ \<Rightarrow> if fval b = 0 then (if fval a = 0 then NaN else Inf s)
           else mk32 s (fval a / fval b))"

text \<open>The ordered comparisons of C: false as soon as an operand is NaN.\<close>

definition flt :: "f32 \<Rightarrow> f32 \<Rightarrow> bool" where
  "flt a b =
    (case (a, b) of (NaN, _) \<Rightarrow> False | (_, NaN) \<Rightarrow> False
     | (Inf s, Inf t) \<Rightarrow> s \<and> \<not> t
     | (Inf s, _) \<Rightarrow> s | (_, Inf t) \<Rightarrow> \<not> t
     | _ \<Rightarrow> fval a < fval b)"

definition feq :: "f32 \<Rightarrow> f32 \<Rightarrow> bool" where
  "feq a b =
    (case (a, b) of (NaN, _) \<Rightarrow> False | (_, NaN) \<Rightarrow> False
     | (Inf s, Inf t) \<Rightarrow> s = t
     | (Inf s, _) \<Rightarrow> False | (_, Inf t) \<Rightarrow> False
     | _ \<Rightarrow> fval a = fval b)"

definition fle :: "f32 \<Rightarrow> f32 \<Rightarrow> bool" where
  "fle a b \<longleftrightarrow> flt a b \<or> feq a b"

section \<open>Conversions\<close>

definition u32_to_f32 :: "u32 \<Rightarrow> f32" where
  "u32_to_f32 w = mk32 False (real (unat w))"

definition int_to_f32 :: "int \<Rightarrow> f32" where
  "int_to_f32 k = mk32 False (of_int k)"

definition trunc :: "real \<Rightarrow> int" where
  "trunc r = (if 0 \<le> r then \<lfloor>r\<rfloor> else \<lceil>r\<rceil>)"

definition f32_to_u32 :: "f32 \<Rightarrow> u32 option" where
  "f32_to_u32 a = (if is_fin a \<and> 0 \<le> trunc (fval a) \<and> trunc (fval a) < 2 ^ 32
     then Some (word_of_int (trunc (fval a))) else None)"

definition f32_to_int :: "f32 \<Rightarrow> int option" where
  "f32_to_int a = (if is_fin a \<and> - (2 ^ 31) \<le> trunc (fval a) \<and> trunc (fval a) < 2 ^ 31
     then Some (trunc (fval a)) else None)"

text \<open>The value a 32-bit memory image denotes when it is read as a \<open>float\<close>.\<close>

definition f32_of_bits :: "u32 \<Rightarrow> f32" where
  "f32_of_bits w =
    (let s = bit w 31; e = unat (drop_bit 23 w AND 0xFF); m = unat (w AND 0x7FFFFF);
         q = (if e = 0 then real m / 2 ^ 149 else real (2 ^ 23 + m) * 2 ^ e / 2 ^ 150)
     in if e = 255 then (if m = 0 then Inf s else NaN)
        else if q = 0 then (if s then NZero else Fin 0)
        else Fin (if s then - q else q))"


section \<open>Facts about finite operands\<close>

lemma fval_fneg [simp]: "fval (fneg a) = - fval a"
  by (cases a) auto

lemma is_fin_fneg [simp]: "is_fin (fneg a) = is_fin a"
  by (cases a) auto

lemma fadd_fin: "is_fin a \<Longrightarrow> is_fin b \<Longrightarrow> fadd a b = mk32 (a = NZero \<and> b = NZero) (fval a + fval b)"
  by (cases a; cases b) (auto simp: fadd_def)

lemma fsub_fin: "is_fin a \<Longrightarrow> is_fin b \<Longrightarrow> fsub a b = mk32 (a = NZero \<and> fneg b = NZero) (fval a - fval b)"
  by (simp add: fsub_def fadd_fin)

lemma fmul_fin: "is_fin a \<Longrightarrow> is_fin b \<Longrightarrow> fmul a b = mk32 (is_neg a \<noteq> is_neg b) (fval a * fval b)"
  by (cases a; cases b) (auto simp: fmul_def)

lemma fdiv_fin: "is_fin a \<Longrightarrow> is_fin b \<Longrightarrow> fval b \<noteq> 0 \<Longrightarrow> fdiv a b = mk32 (is_neg a \<noteq> is_neg b) (fval a / fval b)"
  by (cases a; cases b) (auto simp: fdiv_def)

lemma flt_fin: "is_fin a \<Longrightarrow> is_fin b \<Longrightarrow> flt a b \<longleftrightarrow> fval a < fval b"
  by (cases a; cases b) (auto simp: flt_def)

lemma feq_fin: "is_fin a \<Longrightarrow> is_fin b \<Longrightarrow> feq a b \<longleftrightarrow> fval a = fval b"
  by (cases a; cases b) (auto simp: feq_def)

lemma fle_fin: "is_fin a \<Longrightarrow> is_fin b \<Longrightarrow> fle a b \<longleftrightarrow> fval a \<le> fval b"
  by (auto simp: fle_def flt_fin feq_fin)

lemma flt_NaN [simp]: "\<not> flt NaN a" "\<not> flt a NaN"
  by (cases a; simp add: flt_def)+

lemma fle_NaN [simp]: "\<not> fle NaN a" "\<not> fle a NaN"
  by (cases a; simp add: fle_def flt_def feq_def)+

lemma feq_self_iff: "feq a a \<longleftrightarrow> a \<noteq> NaN"
  by (cases a) (auto simp: feq_def)

lemma mk32_fin:
  assumes "\<bar>rnd32 r\<bar> < 2 ^ 128"
  shows "is_fin (mk32 s r)" "fval (mk32 s r) = rnd32 r"
  using assms by (auto simp: mk32_def Let_def abs_less_iff)

lemma mk32_bounded:
  assumes "\<bar>r\<bar> \<le> b" "representable b" "b < 2 ^ 128"
  shows "is_fin (mk32 s r)" "fval (mk32 s r) = rnd32 r" "\<bar>fval (mk32 s r)\<bar> \<le> b"
proof -
  have b: "\<bar>rnd32 r\<bar> \<le> b" using assms by (intro r32.rnd_abs_le)
  with assms have "\<bar>rnd32 r\<bar> < 2 ^ 128" by simp
  then show "is_fin (mk32 s r)" "fval (mk32 s r) = rnd32 r" by (rule mk32_fin)+
  with b show "\<bar>fval (mk32 s r)\<bar> \<le> b" by simp
qed

lemma representable_int: "\<bar>k\<bar> \<le> 2 ^ 24 \<Longrightarrow> representable (of_int k)"
  unfolding representable_def by (rule exI [of _ k], rule exI [of _ 0]) simp

lemma representable_frac:
  assumes "\<bar>k\<bar> \<le> 2 ^ 24" "n \<le> 149"
  shows "representable (of_int k / 2 ^ n)"
proof -
  have "of_int k / 2 ^ n = of_int k * (2::real) powi (- int n)" by (simp add: power_int_minus field_simps)
  then show ?thesis using assms unfolding representable_def
    by (intro exI [of _ k] exI [of _ "- int n"]) simp
qed

lemma representable_numeral [simp]:
  "(numeral n :: nat) \<le> 2 ^ 24 \<Longrightarrow> representable (numeral n)"
  using representable_int [of "numeral n"] by (simp flip: of_nat_le_iff)

lemma representable_1 [simp]: "representable 1"
  using representable_int [of 1] by simp

lemma flit_representable: "representable q \<Longrightarrow> \<bar>q\<bar> < 2 ^ 128 \<Longrightarrow> flit q = Fin q"
  by (auto simp: flit_def mk32_def rnd32_representable Let_def abs_less_iff)

lemma u32_to_f32_fin: "is_fin (u32_to_f32 w)" "fval (u32_to_f32 w) = rnd32 (real (unat w))"
  "0 \<le> fval (u32_to_f32 w)"
proof -
  have r: "representable (2 ^ 32)" unfolding representable_def
    by (rule exI [of _ 1], rule exI [of _ 32]) simp
  have "real (unat w) \<le> real (2 ^ 32)"
    using u32_less_2p32 [of w] unfolding of_nat_le_iff by simp
  then have b: "\<bar>real (unat w)\<bar> \<le> 2 ^ 32" by (simp del: of_nat_unat)
  show "is_fin (u32_to_f32 w)" and v: "fval (u32_to_f32 w) = rnd32 (real (unat w))"
    unfolding u32_to_f32_def using mk32_bounded [OF b r] by simp_all
  show "0 \<le> fval (u32_to_f32 w)" by (simp add: v rnd32_nonneg)
qed

lemma u32_to_f32_exact: "unat w \<le> 2 ^ 24 \<Longrightarrow> fval (u32_to_f32 w) = real (unat w)"
proof -
  assume "unat w \<le> 2 ^ 24"
  then have "\<bar>int (unat w)\<bar> \<le> 2 ^ 24" by (simp del: of_nat_unat)
  then have "representable (real (unat w))"
    using representable_int [of "int (unat w)"] by (simp only: of_int_of_nat_eq)
  then show ?thesis using u32_to_f32_fin(2) [of w] by (simp only: rnd32_representable)
qed

lemma f32_to_u32_in_range:
  assumes "is_fin a" "0 \<le> fval a" "fval a < 2 ^ 32"
  shows "f32_to_u32 a = Some (word_of_int \<lfloor>fval a\<rfloor>)"
  using assms by (simp add: f32_to_u32_def trunc_def floor_less_iff)

lemma f32_to_u32_NaN [simp]: "f32_to_u32 NaN = None"
  by (simp add: f32_to_u32_def)

lemma unat_word_of_floor:
  "0 \<le> x \<Longrightarrow> x < 2 ^ 32 \<Longrightarrow> unat (word_of_int \<lfloor>x\<rfloor> :: u32) = nat \<lfloor>x\<rfloor>"
  by (simp add: unat_eq_nat_uint uint_word_of_int_eq take_bit_int_eq_self floor_less_iff)

lemma u32_to_f32_small:
  assumes "unat w \<le> 2 ^ 24"
  shows "u32_to_f32 w = Fin (real (unat w))"
proof -
  have "\<bar>int (unat w)\<bar> \<le> 2 ^ 24" using assms by simp
  from representable_int [OF this] have "rnd32 (real (unat w)) = real (unat w)"
    by (simp add: rnd32_representable)
  moreover have "real (unat w) \<le> real (2 ^ 24)" using assms unfolding of_nat_le_iff .
  ultimately show ?thesis by (auto simp: u32_to_f32_def mk32_def Let_def)
qed

lemma f32_to_u32_Fin_nat: "n < 2 ^ 32 \<Longrightarrow> f32_to_u32 (Fin (real n)) = Some (of_nat n)"
proof -
  assume "n < 2 ^ 32"
  then have "real n < real (2 ^ 32)" unfolding of_nat_less_iff .
  then show ?thesis by (simp add: f32_to_u32_in_range)
qed

section \<open>Values that are binary32 values\<close>

definition wf32 :: "f32 \<Rightarrow> bool" where
  "wf32 a \<longleftrightarrow> representable (fval a)"

lemma wf32_mk32 [simp]: "wf32 (mk32 s r)"
  using representable_rnd32 [of r] by (auto simp: wf32_def mk32_def Let_def)

lemma wf32_fneg [simp]: "wf32 (fneg a) = wf32 a"
  using representable_minus [of "fval a"] representable_minus [of "- fval a"] by (auto simp: wf32_def)

lemma wf32_simps [simp]: "wf32 NaN" "wf32 NZero" "wf32 (Inf s)"
  by (simp_all add: wf32_def)

lemma wf32_flit [simp]: "wf32 (flit r)"
  by (simp add: flit_def)

lemma wf32_fadd [simp]: "wf32 (fadd a b)"
  by (cases a; cases b) (auto simp: fadd_def)

lemma wf32_fsub [simp]: "wf32 (fsub a b)"
  by (simp add: fsub_def)

lemma wf32_fmul [simp]: "wf32 (fmul a b)"
  by (cases a; cases b) (auto simp: fmul_def Let_def)

lemma wf32_f32_of_bits [simp]: "wf32 (f32_of_bits w)"
proof -
  define e m where "e = unat (drop_bit 23 w AND 0xFF)" and "m = unat (w AND 0x7FFFFF)"
  have "w AND 0x7FFFFF \<le> 0x7FFFFF" by (rule word_and_le1)
  then have m: "m \<le> 0x7FFFFF" unfolding m_def word_le_nat_alt by simp
  have sub: "representable (real m / 2 ^ 149)"
    using representable_frac [of "int m" 149] m by simp
  have nrm: "representable (real (2 ^ 23 + m) * 2 ^ e / 2 ^ 150)" if "e \<noteq> 0"
  proof -
    have "real (2 ^ 23 + m) * 2 ^ e / 2 ^ 150 = of_int (int (2 ^ 23 + m)) * 2 powi (int e - 150)"
      by (simp add: power_int_diff)
    moreover have "\<bar>int (2 ^ 23 + m)\<bar> \<le> 2 ^ 24" "-149 \<le> int e - 150" using m that by auto
    ultimately show ?thesis unfolding representable_def by blast
  qed
  from sub nrm show ?thesis
    by (auto simp: f32_of_bits_def wf32_def Let_def e_def [symmetric] m_def [symmetric]
        dest: representable_minus simp flip: minus_divide_left)
qed

named_theorems f32_eval \<open>evaluation of the operations at numerals\<close>

lemmas [f32_eval] = mk32_def rnd32_def qexp_def ilog2.simps rhe_def power_int_def power_one_over
  Let_def



end
