(* ===== verification/Hw.thy ===== *)
theory Hw
  imports Float32
begin

text \<open>
  The boundary to the TC375 and Infineon's low-level drivers, which are not part of the
  repository. The code reaches it through a few calls (\<open>IfxPort_*\<close>, \<open>IfxStm_*\<close>,
  \<open>IfxGeth_*\<close>); each of them becomes an event on a trace, newest first. What the code
  reads back (a pin level, the timer, the head of the receive ring) is a parameter: a
  function of everything the code has done so far. A theorem about all environments
  therefore covers every behaviour of the sensors, the bus and the clock.
\<close>

type_synonym pin = "nat \<times> nat"   \<comment> \<open>port number, pin number\<close>

datatype pin_mode = OutPushPull | InNoPull | InPullUp | InPullDown

text \<open>What the code configures of the Ethernet module before it starts it.\<close>

record geth_config =
  phy_rmii :: bool
  rmii_pins :: "string list"
  line_mbps :: nat
  full_duplex :: bool
  mac_address :: "u8 list"
  tx_buffer_size :: u32
  rx_buffer_size :: u32

datatype hw_event =
    ReadClock
  | ReadPin pin
  | SetMode pin pin_mode
  | SetPin pin bool
  | WaitTicks u32
  | EthInit geth_config
  | EthStart
  | EthWaitTx
  | EthPollRx
  | EthFreeRx
  | EthSend "u8 list" u16
  | EthClearTx
  | EthPollTx
  | WaitStm0 u32      \<comment> \<open>a wait on another timer than the one that is read; they share a clock\<close>

type_synonym trace = "hw_event list"

text \<open>The head of the receive ring: its descriptor (two of the words) and its DMA buffer,
  either of which the driver may report as a null pointer.\<close>

record rx_descr =
  RDES1 :: u32
  RDES3 :: u32

record rx_frame =
  rxDescr :: "rx_descr option"
  rxBuffer :: "u8 list option"

record hw =
  stm_time :: "trace \<Rightarrow> nat"             \<comment> \<open>the ticks the timer has counted since reset\<close>
  pin_in :: "trace \<Rightarrow> pin \<Rightarrow> bool"        \<comment> \<open>IfxPort_getPinState\<close>
  ticks_of_us :: "u32 \<Rightarrow> s32"            \<comment> \<open>IfxStm_getTicksFromMicroseconds\<close>
  ticks_of_ms :: "u32 \<Rightarrow> s32"            \<comment> \<open>IfxStm_getTicksFromMilliseconds\<close>
  stm_freq :: f32                     \<comment> \<open>IfxStm_getFrequency\<close>
  rx_head :: "trace \<Rightarrow> rx_frame option"   \<comment> \<open>head of the receive ring, if any\<close>
  tx_flag :: "trace \<Rightarrow> bool"             \<comment> \<open>transmit interrupt flag\<close>
  tx_free :: "trace \<Rightarrow> bool"             \<comment> \<open>whether IfxGeth_Eth_waitTransmitBuffer ever returns\<close>
  max_rx_descr :: u32                 \<comment> \<open>IFXGETH_MAX_RX_DESCRIPTORS\<close>

text \<open>The code reads the lower 32 bits of the timer, which wrap around.\<close>

definition clock :: "hw \<Rightarrow> trace \<Rightarrow> u32" where   \<comment> \<open>IfxStm_getLower\<close>
  "clock E w = of_nat (stm_time E w)"

definition stm_now :: "hw \<Rightarrow> trace \<Rightarrow> u32 \<times> trace" where
  "stm_now E w = (clock E w, ReadClock # w)"

definition pin_read :: "hw \<Rightarrow> pin \<Rightarrow> trace \<Rightarrow> bool \<times> trace" where
  "pin_read E p w = (pin_in E w p, ReadPin p # w)"

text \<open>
  What the code relies on the system timer for: it is free-running. A wait of n ticks takes
  n, a read of the timer, a pin or the transmit flag takes at least one, and nothing takes
  more than \<open>g\<close> ticks beyond that (interrupts included). The ticks are counted exactly, not modulo the 32 bits that the code reads.
\<close>

fun ticks_lo :: "hw_event \<Rightarrow> nat" where
  "ticks_lo (WaitTicks n) = unat n"
| "ticks_lo (WaitStm0 n) = unat n"
| "ticks_lo ReadClock = 1"
| "ticks_lo (ReadPin p) = 1"
| "ticks_lo EthPollTx = 1"
| "ticks_lo _ = 0"

definition took :: "hw \<Rightarrow> trace \<Rightarrow> trace \<Rightarrow> nat \<Rightarrow> bool" where
  "took E w w' n \<longleftrightarrow> stm_time E w' = stm_time E w + n"

lemma tookD: "took E w w' n \<Longrightarrow> clock E w' = clock E w + of_nat n"
  by (simp add: took_def clock_def)

definition live_clock :: "hw \<Rightarrow> nat \<Rightarrow> bool" where
  "live_clock E g \<longleftrightarrow> (\<forall>w e. \<exists>d. ticks_lo e \<le> d \<and> d \<le> ticks_lo e + g \<and> took E w (e # w) d)"

lemma live_clockD:
  assumes "live_clock E g"
  obtains d where "ticks_lo e \<le> d" "d \<le> ticks_lo e + g" "took E w (e # w) d"
  using assms unfolding live_clock_def by blast

lemma took_refl [simp]: "took E w w 0"
  by (simp add: took_def)

lemma took_trans: "took E w w1 m \<Longrightarrow> took E w1 w2 n \<Longrightarrow> took E w w2 (m + n)"
  by (simp add: took_def)

text \<open>The last value driven on a pin, and whether it is driven at all.\<close>

fun pin_level :: "pin \<Rightarrow> trace \<Rightarrow> bool option" where
  "pin_level p [] = None"
| "pin_level p (SetPin q v # w) = (if q = p then Some v else pin_level p w)"
| "pin_level p (e # w) = pin_level p w"

fun pin_mode_of :: "pin \<Rightarrow> trace \<Rightarrow> pin_mode option" where
  "pin_mode_of p [] = None"
| "pin_mode_of p (SetMode q m # w) = (if q = p then Some m else pin_mode_of p w)"
| "pin_mode_of p (e # w) = pin_mode_of p w"

text \<open>
  A concrete environment for examples: a 100 MHz timer that counts a tick per access and the
  ticks of every wait, the driver's conversions at that frequency, and pins that answer as
  given.
\<close>

fun demo_ticks :: "trace \<Rightarrow> nat" where
  "demo_ticks [] = 0"
| "demo_ticks (e # w) = max 1 (ticks_lo e) + demo_ticks w"

definition demo_hw :: "(trace \<Rightarrow> pin \<Rightarrow> bool) \<Rightarrow> hw" where
  "demo_hw pins = \<lparr>stm_time = demo_ticks, pin_in = pins,
     ticks_of_us = (\<lambda>us. 100 * us), ticks_of_ms = (\<lambda>ms. 100000 * ms),
     stm_freq = Fin 100000000, rx_head = (\<lambda>_. None), tx_flag = (\<lambda>_. True), tx_free = (\<lambda>_. True), max_rx_descr = 8\<rparr>"

lemma demo_clock: "clock (demo_hw pins) w = of_nat (demo_ticks w)"
  by (simp add: clock_def demo_hw_def)

lemma demo_live_clock: "1 \<le> g \<Longrightarrow> live_clock (demo_hw pins) g"
  unfolding live_clock_def took_def demo_hw_def
  by (auto intro!: exI [of _ "max 1 (ticks_lo _)"])

end
