(* ===== verification/FrontSteering.thy ===== *)
theory FrontSteering
  imports Hw
begin

text \<open>
  FRONT/FrontSteeringNode.c: the receiver of HPSC steering commands. It validates a
  packet, keeps the accepted target, moves the applied angle towards the target with a
  bounded rate, falls back to the centre when commands stop, and drives the servo with
  software pulses. \<open>None\<close> is a read outside a buffer or an undefined conversion.
\<close>

section \<open>Constants (FrontSteeringNode.h, FrontSteeringNode.c)\<close>

definition FRONT_STEERING_UDP_PORT :: u16 where "FRONT_STEERING_UDP_PORT = 5100"
definition FRONT_STEERING_WATCHDOG_MS :: u32 where "FRONT_STEERING_WATCHDOG_MS = 200"
definition FRONT_STEERING_MAX_ABS_RAD :: f32 where "FRONT_STEERING_MAX_ABS_RAD = flit (50 / 100)"
definition FRONT_STEERING_DEFAULT_MAX_RATE_RAD_S :: f32 where
  "FRONT_STEERING_DEFAULT_MAX_RATE_RAD_S = flit 1"
definition FRONT_STEERING_SERVO_LEFT_PULSE_US :: u32 where "FRONT_STEERING_SERVO_LEFT_PULSE_US = 1150"
definition FRONT_STEERING_SERVO_CENTER_PULSE_US :: u32 where "FRONT_STEERING_SERVO_CENTER_PULSE_US = 1650"
definition FRONT_STEERING_SERVO_RIGHT_PULSE_US :: u32 where "FRONT_STEERING_SERVO_RIGHT_PULSE_US = 2000"
definition FRONT_STEERING_SERVO_MIN_PULSE_US :: u32 where
  "FRONT_STEERING_SERVO_MIN_PULSE_US = FRONT_STEERING_SERVO_LEFT_PULSE_US"
definition FRONT_STEERING_SERVO_MAX_PULSE_US :: u32 where
  "FRONT_STEERING_SERVO_MAX_PULSE_US = FRONT_STEERING_SERVO_RIGHT_PULSE_US"
definition FRONT_STEERING_SERVO_PERIOD_US :: u32 where "FRONT_STEERING_SERVO_PERIOD_US = 20000"
definition FRONT_STEERING_BOOT_CENTER_MS :: u32 where "FRONT_STEERING_BOOT_CENTER_MS = 500"
definition HPSC_PACKET_SIZE :: u16 where "HPSC_PACKET_SIZE = 40"
definition HPSC_HEADER_SIZE :: u8 where "HPSC_HEADER_SIZE = 32"
definition HPSC_VERSION :: u8 where "HPSC_VERSION = 1"
definition HPSC_CONTROL_DISABLED :: u8 where "HPSC_CONTROL_DISABLED = 0"
definition HPSC_CONTROL_STEERING_ANGLE :: u8 where "HPSC_CONTROL_STEERING_ANGLE = 1"
definition HPSC_FLAG_STEERING_VALID :: u8 where "HPSC_FLAG_STEERING_VALID = 1"
definition HPSC_FLAG_EMERGENCY_CENTER :: u8 where "HPSC_FLAG_EMERGENCY_CENTER = 2"
definition HPSC_FLAG_UPSTREAM_VALID :: u8 where "HPSC_FLAG_UPSTREAM_VALID = 4"
definition IPV4_PROTOCOL_UDP :: u8 where "IPV4_PROTOCOL_UDP = 17"
definition ETHERTYPE_IPV4 :: u16 where "ETHERTYPE_IPV4 = 0x0800"
definition FRONT_STEERING_SERVO_PIN :: pin where "FRONT_STEERING_SERVO_PIN = (2, 3)"

lemmas front_consts [consts_simps] =
  FRONT_STEERING_UDP_PORT_def FRONT_STEERING_WATCHDOG_MS_def
  FRONT_STEERING_SERVO_LEFT_PULSE_US_def FRONT_STEERING_SERVO_CENTER_PULSE_US_def
  FRONT_STEERING_SERVO_RIGHT_PULSE_US_def FRONT_STEERING_SERVO_MIN_PULSE_US_def
  FRONT_STEERING_SERVO_MAX_PULSE_US_def FRONT_STEERING_SERVO_PERIOD_US_def
  FRONT_STEERING_BOOT_CENTER_MS_def HPSC_PACKET_SIZE_def HPSC_HEADER_SIZE_def
  HPSC_VERSION_def HPSC_CONTROL_DISABLED_def HPSC_CONTROL_STEERING_ANGLE_def
  HPSC_FLAG_STEERING_VALID_def HPSC_FLAG_EMERGENCY_CENTER_def HPSC_FLAG_UPSTREAM_VALID_def
  IPV4_PROTOCOL_UDP_def ETHERTYPE_IPV4_def

section \<open>State\<close>

record FrontSteeringNode_State =
  initialized :: bool
  linkValid :: bool
  commandValid :: bool
  emergencyCenter :: bool
  targetAngleRad :: f32
  appliedAngleRad :: f32
  maxRateRadS :: f32
  lastSequence :: u32
  lastPacketMs :: u32
  lastApplyMs :: u32
  acceptedPackets :: u32
  rejectedPackets :: u32

record FrontSteeringNode_Status =
  s_linkValid :: bool
  s_commandValid :: bool
  s_emergencyCenter :: bool
  s_targetAngleRad :: f32
  s_appliedAngleRad :: f32
  s_lastSequence :: u32
  s_acceptedPackets :: u32
  s_rejectedPackets :: u32
  s_lastPacketAgeMs :: u32

section \<open>Readers and arithmetic helpers\<close>

text \<open>A pointer into a buffer is the rest of the buffer from there on.\<close>

fun readU16Le :: "u8 list \<Rightarrow> u16 option" where
  "readU16Le (b0 # b1 # _) = Some (push_bit 8 (ucast b1) OR ucast b0)"
| "readU16Le _ = None"

fun readU16Be :: "u8 list \<Rightarrow> u16 option" where
  "readU16Be (b0 # b1 # _) = Some (push_bit 8 (ucast b0) OR ucast b1)"
| "readU16Be _ = None"

fun readU32Le :: "u8 list \<Rightarrow> u32 option" where
  "readU32Le (b0 # b1 # b2 # b3 # _) =
     Some (ucast b0 OR push_bit 8 (ucast b1) OR push_bit 16 (ucast b2) OR push_bit 24 (ucast b3))"
| "readU32Le _ = None"

definition readFloat32Le :: "u8 list \<Rightarrow> f32 option" where
  "readFloat32Le bytes = map_option f32_of_bits (readU32Le bytes)"

definition isFiniteFloat :: "f32 \<Rightarrow> bool" where
  "isFiniteFloat value \<longleftrightarrow> feq value value \<and> flt value (flit (3402823466 * 10 ^ 29)) \<and>
     flt (fneg (flit (3402823466 * 10 ^ 29))) value"

definition absFloat :: "f32 \<Rightarrow> f32" where
  "absFloat value = (if flt value (flit 0) then fneg value else value)"

definition clampFloat :: "f32 \<Rightarrow> f32 \<Rightarrow> f32 \<Rightarrow> f32" where
  "clampFloat value minValue maxValue =
     (if flt value minValue then minValue else if flt maxValue value then maxValue else value)"

definition sequenceNewer :: "u32 \<Rightarrow> u32 \<Rightarrow> bool" where
  "sequenceNewer candidate reference =
     (let difference = candidate - reference in difference \<noteq> 0 \<and> difference < 0x80000000)"

definition crc_bit :: "u32 \<Rightarrow> u32" where
  "crc_bit crc = (if crc AND 1 \<noteq> 0 then drop_bit 1 crc XOR 0xEDB88320 else drop_bit 1 crc)"

definition crc_byte :: "u32 \<Rightarrow> u8 \<Rightarrow> u32" where
  "crc_byte crc b = (crc_bit ^^ 8) (crc XOR ucast b)"

definition crc32Ieee :: "u8 list \<Rightarrow> u16 \<Rightarrow> u32 option" where
  "crc32Ieee data len =
     map_option (\<lambda>bs. NOT (foldl crc_byte 0xFFFFFFFF bs)) (rd_slice data 0 (unat len))"

section \<open>Time and servo output\<close>

definition front_nowMs :: "hw \<Rightarrow> trace \<Rightarrow> (u32 \<times> trace) option" where
  "front_nowMs E w = (let (ticks, w) = stm_now E w in
     map_option (\<lambda>ms. (ms, w)) (f32_to_u32 (fdiv (fmul (u32_to_f32 ticks) (flit 1000)) (stm_freq E))))"

definition front_delayUs :: "hw \<Rightarrow> u32 \<Rightarrow> trace \<Rightarrow> trace" where
  "front_delayUs E delayUs w =
     (let ticks = ticks_of_us E delayUs; ticks = (if sint ticks \<le> 0 then 1 else ticks)
      in WaitTicks ticks # w)"

definition angleToPulseUs :: "f32 \<Rightarrow> u32 option" where
  "angleToPulseUs angleRad =
     (let normalized = clampFloat (fdiv angleRad FRONT_STEERING_MAX_ABS_RAD) (flit (- 1)) (flit 1) in
      if fle (flit 0) normalized then
        (let span = u32_to_f32 (FRONT_STEERING_SERVO_CENTER_PULSE_US - FRONT_STEERING_SERVO_LEFT_PULSE_US) in
         map_option (\<lambda>d. FRONT_STEERING_SERVO_CENTER_PULSE_US - d)
           (f32_to_u32 (fadd (fmul normalized span) (flit (1 / 2)))))
      else
        (let span = u32_to_f32 (FRONT_STEERING_SERVO_RIGHT_PULSE_US - FRONT_STEERING_SERVO_CENTER_PULSE_US) in
         map_option (\<lambda>d. FRONT_STEERING_SERVO_CENTER_PULSE_US + d)
           (f32_to_u32 (fadd (fmul (fneg normalized) span) (flit (1 / 2))))))"

definition sendServoPulseUs :: "hw \<Rightarrow> u32 \<Rightarrow> trace \<Rightarrow> trace option" where
  "sendServoPulseUs E pulseUs w = do {
     pulseUs \<leftarrow> f32_to_u32 (clampFloat (u32_to_f32 pulseUs)
       (u32_to_f32 FRONT_STEERING_SERVO_MIN_PULSE_US) (u32_to_f32 FRONT_STEERING_SERVO_MAX_PULSE_US));
     let w = SetPin FRONT_STEERING_SERVO_PIN True # w;
     let w = front_delayUs E pulseUs w;
     let w = SetPin FRONT_STEERING_SERVO_PIN False # w;
     Some (front_delayUs E (FRONT_STEERING_SERVO_PERIOD_US - pulseUs) w) }"

definition applyServoAngle :: "hw \<Rightarrow> f32 \<Rightarrow> trace \<Rightarrow> trace option" where
  "applyServoAngle E angleRad w = do {
     pulseUs \<leftarrow> angleToPulseUs angleRad;
     sendServoPulseUs E pulseUs w }"

definition initServoPwm :: "trace \<Rightarrow> trace" where
  "initServoPwm w = SetPin FRONT_STEERING_SERVO_PIN False # SetMode FRONT_STEERING_SERVO_PIN OutPushPull # w"

fun hold_pulses :: "hw \<Rightarrow> nat \<Rightarrow> FrontSteeringNode_State \<Rightarrow> trace \<Rightarrow> trace option" where
  "hold_pulses E 0 s w = Some w"
| "hold_pulses E (Suc n) s w = do { w \<leftarrow> applyServoAngle E (appliedAngleRad s) w; hold_pulses E n s w }"

definition FrontSteeringNode_holdCurrentForMs ::
    "hw \<Rightarrow> u32 \<Rightarrow> FrontSteeringNode_State \<Rightarrow> trace \<Rightarrow> trace option" where
  "FrontSteeringNode_holdCurrentForMs E holdMs s w =
     (let pulseCount = (holdMs * 1000 + FRONT_STEERING_SERVO_PERIOD_US - 1) div FRONT_STEERING_SERVO_PERIOD_US;
          pulseCount = (if pulseCount = 0 then 1 else pulseCount)
      in hold_pulses E (unat pulseCount) s w)"

section \<open>Receiving commands\<close>

definition rejectPacket :: "FrontSteeringNode_State \<Rightarrow> FrontSteeringNode_State" where
  "rejectPacket s = s\<lparr>rejectedPackets := rejectedPackets s + 1\<rparr>"

definition acceptTarget ::
    "u32 \<Rightarrow> f32 \<Rightarrow> f32 \<Rightarrow> bool \<Rightarrow> bool \<Rightarrow> u32 \<Rightarrow> FrontSteeringNode_State \<Rightarrow> FrontSteeringNode_State" where
  "acceptTarget sequence angleRad rate cmdValid emergency nowMs s =
     (let s = s\<lparr>initialized := True, lastSequence := sequence, lastPacketMs := nowMs,
                maxRateRadS := clampFloat rate (flit (5 / 100)) (flit 10),
                emergencyCenter := emergency, commandValid := cmdValid \<and> \<not> emergency, linkValid := True\<rparr>
      in s\<lparr>targetAngleRad := (if commandValid s
             then clampFloat angleRad (fneg FRONT_STEERING_MAX_ABS_RAD) FRONT_STEERING_MAX_ABS_RAD else flit 0),
           acceptedPackets := acceptedPackets s + 1\<rparr>)"

text \<open>The fields of a packet, read in the order of the code.\<close>

record hpsc_fields =
  version :: u8
  controlMode :: u8
  flags :: u8
  headerSize :: u8
  seqNo :: u32
  angle :: f32
  maxRate :: f32
  reserved16 :: u16
  reserved32 :: u32
  receivedCrc :: u32
  calculatedCrc :: u32

definition hpsc_parse :: "u8 list \<Rightarrow> hpsc_fields option" where
  "hpsc_parse payload = do {
     v \<leftarrow> rd payload 4; m \<leftarrow> rd payload 5; f \<leftarrow> rd payload 6; h \<leftarrow> rd payload 7;
     q \<leftarrow> readU32Le (drop 8 payload);
     a \<leftarrow> readFloat32Le (drop 20 payload);
     r \<leftarrow> readFloat32Le (drop 24 payload);
     r16 \<leftarrow> readU16Le (drop 30 payload);
     r32 \<leftarrow> readU32Le (drop 32 payload);
     rc \<leftarrow> readU32Le (drop 36 payload);
     cc \<leftarrow> crc32Ieee payload 36;
     Some \<lparr>version = v, controlMode = m, flags = f, headerSize = h, seqNo = q, angle = a, maxRate = r,
       reserved16 = r16, reserved32 = r32, receivedCrc = rc, calculatedCrc = cc\<rparr> }"

definition hpsc_wellformed :: "hpsc_fields \<Rightarrow> bool" where
  "hpsc_wellformed p \<longleftrightarrow> \<not> (version p \<noteq> HPSC_VERSION \<or> headerSize p \<noteq> HPSC_HEADER_SIZE \<or>
     reserved16 p \<noteq> 0 \<or> reserved32 p \<noteq> 0 \<or> receivedCrc p \<noteq> calculatedCrc p)"

definition hpsc_command_valid :: "hpsc_fields \<Rightarrow> bool" where
  "hpsc_command_valid p \<longleftrightarrow>
     flags p AND HPSC_FLAG_STEERING_VALID \<noteq> 0 \<and> flags p AND HPSC_FLAG_UPSTREAM_VALID \<noteq> 0 \<and>
     controlMode p = HPSC_CONTROL_STEERING_ANGLE \<and>
     isFiniteFloat (angle p) \<and> isFiniteFloat (maxRate p) \<and>
     fle (absFloat (angle p)) FRONT_STEERING_MAX_ABS_RAD \<and> flt (flit 0) (maxRate p)"

definition has_magic :: "u8 list \<Rightarrow> bool option" where
  "has_magic payload = do {
     b0 \<leftarrow> rd payload 0; if b0 \<noteq> 0x48 then Some False else do {
     b1 \<leftarrow> rd payload 1; if b1 \<noteq> 0x50 then Some False else do {
     b2 \<leftarrow> rd payload 2; if b2 \<noteq> 0x53 then Some False else do {
     b3 \<leftarrow> rd payload 3; Some (b3 = 0x43) }}}}"

text \<open>What becomes of a packet once its fields are read.\<close>

definition hpsc_process ::
    "hpsc_fields \<Rightarrow> u32 \<Rightarrow> FrontSteeringNode_State \<Rightarrow> bool \<times> FrontSteeringNode_State" where
  "hpsc_process p nowMs s =
     (if \<not> hpsc_wellformed p then (False, rejectPacket s)
      else if initialized s \<and> \<not> sequenceNewer (seqNo p) (lastSequence s) then (False, s)
      else if flags p AND HPSC_FLAG_EMERGENCY_CENTER \<noteq> 0 then
        (True, acceptTarget (seqNo p) (flit 0) FRONT_STEERING_DEFAULT_MAX_RATE_RAD_S False True nowMs s)
      else if \<not> hpsc_command_valid p then
        (if controlMode p = HPSC_CONTROL_DISABLED then
           (True, acceptTarget (seqNo p) (flit 0) FRONT_STEERING_DEFAULT_MAX_RATE_RAD_S False False nowMs s)
         else (False, rejectPacket s))
      else (True, acceptTarget (seqNo p) (angle p) (maxRate p) True False nowMs s))"

definition FrontSteeringNode_acceptHpscPacket ::
    "u8 list option \<Rightarrow> u16 \<Rightarrow> u32 \<Rightarrow> FrontSteeringNode_State \<Rightarrow> (bool \<times> FrontSteeringNode_State) option" where
  "FrontSteeringNode_acceptHpscPacket payload_ptr len nowMs s =
     (case payload_ptr of None \<Rightarrow> Some (False, rejectPacket s) | Some payload \<Rightarrow>
      if len \<noteq> HPSC_PACKET_SIZE then Some (False, rejectPacket s) else do {
      magic \<leftarrow> has_magic payload;
      if \<not> magic then Some (False, rejectPacket s) else do {
      p \<leftarrow> hpsc_parse payload;
      Some (hpsc_process p nowMs s) }})"

text \<open>The three places the receiver looks for a packet in an Ethernet frame: behind the
  UDP header of an Ethernet frame, behind the UDP header of a bare IP packet, and at any
  offset. Each may already have changed the state when it fails.\<close>

definition hpscFromEthernet ::
    "u8 list \<Rightarrow> u16 \<Rightarrow> u32 \<Rightarrow> FrontSteeringNode_State \<Rightarrow> (bool \<times> FrontSteeringNode_State) option" where
  "hpscFromEthernet frame len nowMs s = do {
     etherType \<leftarrow> readU16Be (drop 12 frame);
     if etherType \<noteq> ETHERTYPE_IPV4 then Some (False, s) else do {
     let ip = drop 14 frame;
     b0 \<leftarrow> rd ip 0;
     let ihlBytes = unat (b0 AND 0x0F) * 4;
     if \<not> (drop_bit 4 b0 = 4 \<and> 20 \<le> ihlBytes) then Some (False, s) else do {
     b9 \<leftarrow> rd ip 9;
     if b9 \<noteq> IPV4_PROTOCOL_UDP then Some (False, s) else do {
     totalLength \<leftarrow> readU16Be (drop 2 ip);
     if \<not> (ihlBytes + 8 + 40 \<le> unat totalLength \<and> 14 + unat totalLength \<le> unat len) then Some (False, s) else do {
     let udp = drop ihlBytes ip;
     dstPort \<leftarrow> readU16Be (drop 2 udp);
     udpLength \<leftarrow> readU16Be (drop 4 udp);
     if dstPort = FRONT_STEERING_UDP_PORT \<and> 8 + 40 \<le> unat udpLength
     then FrontSteeringNode_acceptHpscPacket (Some (drop 8 udp)) HPSC_PACKET_SIZE nowMs s
     else Some (False, s) }}}}}"

definition hpscFromIp ::
    "u8 list \<Rightarrow> u16 \<Rightarrow> u32 \<Rightarrow> FrontSteeringNode_State \<Rightarrow> (bool \<times> FrontSteeringNode_State) option" where
  "hpscFromIp frame len nowMs s =
     (if unat len < 20 + 8 + 40 then Some (False, s) else do {
     b0 \<leftarrow> rd frame 0;
     if drop_bit 4 b0 \<noteq> 4 then Some (False, s) else do {
     b9 \<leftarrow> rd frame 9;
     if b9 \<noteq> IPV4_PROTOCOL_UDP then Some (False, s) else do {
     let ihlBytes = unat (b0 AND 0x0F) * 4;
     if ihlBytes < 20 then Some (False, s) else do {
     let udp = drop ihlBytes frame;
     dstPort \<leftarrow> readU16Be (drop 2 udp);
     udpLength \<leftarrow> readU16Be (drop 4 udp);
     if dstPort = FRONT_STEERING_UDP_PORT \<and> 8 + 40 \<le> unat udpLength
     then FrontSteeringNode_acceptHpscPacket (Some (drop 8 udp)) HPSC_PACKET_SIZE nowMs s
     else Some (False, s) }}}})"

fun hpscScan ::
    "u8 list \<Rightarrow> nat list \<Rightarrow> u32 \<Rightarrow> FrontSteeringNode_State \<Rightarrow> (bool \<times> FrontSteeringNode_State) option" where
  "hpscScan frame [] nowMs s = Some (False, s)"
| "hpscScan frame (offset # offsets) nowMs s = do {
     magic \<leftarrow> has_magic (drop offset frame);
     if \<not> magic then hpscScan frame offsets nowMs s else do {
     (ok, s) \<leftarrow> FrontSteeringNode_acceptHpscPacket (Some (drop offset frame)) HPSC_PACKET_SIZE nowMs s;
     if ok then Some (True, s) else hpscScan frame offsets nowMs s }}"

definition FrontSteeringNode_acceptEthernetFrame ::
    "u8 list option \<Rightarrow> u16 \<Rightarrow> u32 \<Rightarrow> FrontSteeringNode_State \<Rightarrow> (bool \<times> FrontSteeringNode_State) option" where
  "FrontSteeringNode_acceptEthernetFrame frame_ptr len nowMs s =
     (case frame_ptr of None \<Rightarrow> Some (False, s) | Some frame \<Rightarrow>
      if len < HPSC_PACKET_SIZE then Some (False, s) else do {
      (ok, s) \<leftarrow> (if 14 + 20 + 8 + 40 \<le> unat len then hpscFromEthernet frame len nowMs s else Some (False, s));
      if ok then Some (True, s) else do {
      (ok, s) \<leftarrow> (if 14 + 20 + 8 + 40 \<le> unat len then hpscFromIp frame len nowMs s else Some (False, s));
      if ok then Some (True, s) else hpscScan frame [0 ..< unat (len - HPSC_PACKET_SIZE) + 1] nowMs s }})"

section \<open>The periodic step\<close>

definition FrontSteeringNode_init :: "hw \<Rightarrow> trace \<Rightarrow> (FrontSteeringNode_State \<times> trace) option" where
  "FrontSteeringNode_init E w = do {
     let s = \<lparr>initialized = False, linkValid = False, commandValid = False, emergencyCenter = False,
       targetAngleRad = Fin 0, appliedAngleRad = Fin 0, maxRateRadS = Fin 0, lastSequence = 0,
       lastPacketMs = 0, lastApplyMs = 0, acceptedPackets = 0, rejectedPackets = 0\<rparr>;
     let s = s\<lparr>maxRateRadS := FRONT_STEERING_DEFAULT_MAX_RATE_RAD_S\<rparr>;
     (nowMs, w) \<leftarrow> front_nowMs E w;
     let s = s\<lparr>lastApplyMs := nowMs\<rparr>;
     let w = initServoPwm w;
     let s = s\<lparr>appliedAngleRad := flit 0\<rparr>;
     w \<leftarrow> FrontSteeringNode_holdCurrentForMs E FRONT_STEERING_BOOT_CENTER_MS s w;
     Some (s, w) }"

text \<open>What a step does to the state, given the time it read.\<close>

definition watchdog :: "u32 \<Rightarrow> FrontSteeringNode_State \<Rightarrow> FrontSteeringNode_State" where
  "watchdog nowMs s =
     (let ageMs = nowMs - lastPacketMs s in
      if \<not> initialized s \<or> FRONT_STEERING_WATCHDOG_MS < ageMs
      then s\<lparr>linkValid := False, commandValid := False, emergencyCenter := True, targetAngleRad := flit 0\<rparr>
      else s)"

definition max_step :: "u32 \<Rightarrow> FrontSteeringNode_State \<Rightarrow> f32" where
  "max_step nowMs s =
     (let dtMs = nowMs - lastApplyMs s;
          maxStep = fmul (maxRateRadS s) (fdiv (u32_to_f32 dtMs) (flit 1000))
      in if flt maxStep (flit (1 / 1000)) then flit (1 / 1000) else maxStep)"

definition slew :: "f32 \<Rightarrow> FrontSteeringNode_State \<Rightarrow> FrontSteeringNode_State" where
  "slew maxStep s =
     (let error = fsub (targetAngleRad s) (appliedAngleRad s);
          error = (if flt maxStep error then maxStep
                   else if flt error (fneg maxStep) then fneg maxStep else error)
      in s\<lparr>appliedAngleRad := clampFloat (fadd (appliedAngleRad s) error)
             (fneg FRONT_STEERING_MAX_ABS_RAD) FRONT_STEERING_MAX_ABS_RAD\<rparr>)"

definition steer_step :: "u32 \<Rightarrow> FrontSteeringNode_State \<Rightarrow> FrontSteeringNode_State" where
  "steer_step nowMs s =
     (let s = watchdog nowMs s; maxStep = max_step nowMs s
      in slew maxStep (s\<lparr>lastApplyMs := nowMs\<rparr>))"

definition FrontSteeringNode_runOnce ::
    "hw \<Rightarrow> FrontSteeringNode_State \<Rightarrow> trace \<Rightarrow> (FrontSteeringNode_State \<times> trace) option" where
  "FrontSteeringNode_runOnce E s w = do {
     (nowMs, w) \<leftarrow> front_nowMs E w;
     let s = steer_step nowMs s;
     w \<leftarrow> applyServoAngle E (appliedAngleRad s) w;
     Some (s, w) }"

definition FrontSteeringNode_getStatus ::
    "hw \<Rightarrow> FrontSteeringNode_State \<Rightarrow> trace \<Rightarrow> (FrontSteeringNode_Status \<times> trace) option" where
  "FrontSteeringNode_getStatus E s w = do {
     (nowMs, w) \<leftarrow> front_nowMs E w;
     Some (\<lparr>s_linkValid = linkValid s, s_commandValid = commandValid s, s_emergencyCenter = emergencyCenter s,
       s_targetAngleRad = targetAngleRad s, s_appliedAngleRad = appliedAngleRad s,
       s_lastSequence = lastSequence s, s_acceptedPackets = acceptedPackets s,
       s_rejectedPackets = rejectedPackets s,
       s_lastPacketAgeMs = (if initialized s then nowMs - lastPacketMs s else 0xFFFFFFFF)\<rparr>, w) }"

end
