(* ===== verification/FrontCrc.thy ===== *)
theory FrontCrc
  imports FrontSteering
begin

text \<open>
  The bitwise CRC-32 of the steering receiver (\<open>crc32Ieee\<close>): one clock of the register is a
  linear injective map, a byte is eight clocks after an exclusive or, and so two messages
  that differ only within four consecutive bytes never have the same checksum.
\<close>

section \<open>One clock of the register\<close>

lemma crc_bit_0 [simp]: "crc_bit 0 = 0"
  by (simp add: crc_bit_def)

lemma crc_bit_alt: "crc_bit c = drop_bit 1 c XOR (if bit c 0 then 0xEDB88320 else 0)"
  by (simp add: crc_bit_def and_one_eq odd_iff_mod_2_eq_one bit_0)

lemma crc_bit_xor: "crc_bit (a XOR b) = crc_bit a XOR crc_bit b"
  by (simp add: crc_bit_alt drop_bit_xor bit_xor_iff ac_simps)

lemma crc_bit_inj0: "crc_bit c = 0 \<Longrightarrow> c = 0"
proof -
  assume z: "crc_bit c = 0"
  have "bit (crc_bit c) 31 = bit c 0"
    by (auto simp: crc_bit_alt bit_xor_iff bit_drop_bit_eq dest: bit_imp_le_length)
  with z have b0: "\<not> bit c 0" by simp
  with z have "drop_bit 1 c = 0" by (simp add: crc_bit_alt)
  then have "\<not> bit (drop_bit 1 c) n" for n by simp
  then have "\<not> bit c (Suc n)" for n by (simp add: bit_drop_bit_eq)
  with b0 have "\<not> bit c n" for n by (cases n) auto
  then show "c = 0" by (intro bit_eqI) simp
qed

section \<open>Feeding bytes\<close>

text \<open>\<open>crc_run n\<close> clocks the register \<open>n\<close> bits with no input; it is linear and injective.\<close>

definition crc_run :: "nat \<Rightarrow> u32 \<Rightarrow> u32" where
  "crc_run n c = (crc_bit ^^ n) c"

lemma crc_run_0 [simp]: "crc_run n 0 = 0"
  by (induction n) (simp_all add: crc_run_def)

lemma crc_run_zero [simp]: "crc_run 0 c = c"
  by (simp add: crc_run_def)

lemma crc_run_xor: "crc_run n (a XOR b) = crc_run n a XOR crc_run n b"
  by (induction n) (simp_all add: crc_run_def crc_bit_xor)

lemma crc_run_inj0: "crc_run n c = 0 \<Longrightarrow> c = 0"
  by (induction n) (auto simp: crc_run_def dest: crc_bit_inj0)

lemma crc_run_add: "crc_run m (crc_run n c) = crc_run (m + n) c"
  by (simp add: crc_run_def funpow_add)

lemma bit_shl1: "bit (push_bit 1 (y :: u32)) m \<longleftrightarrow> 1 \<le> m \<and> m < 32 \<and> bit y (m - 1)"
  unfolding bit_push_bit_iff by (auto dest: bit_imp_le_length)

lemma crc_bit_push:
  assumes "\<not> bit y 31"
  shows "crc_bit (push_bit 1 y) = y"
proof (rule bit_word_eqI)
  fix m assume "m < LENGTH(32)"
  define z where "z = push_bit 1 y"
  have z: "bit z k \<longleftrightarrow> 1 \<le> k \<and> k < 32 \<and> bit y (k - 1)" for k
    unfolding z_def by (rule bit_shl1)
  have "crc_bit z = drop_bit 1 z" using z [of 0] by (simp add: crc_bit_alt)
  then show "bit (crc_bit (push_bit 1 y)) m = bit y m"
    unfolding z_def [symmetric] using assms \<open>m < LENGTH(32)\<close> z [of "1 + m"]
    by (cases "m = 31") (auto simp: bit_drop_bit_eq)
qed

lemma crc_run_push:
  assumes "n \<le> 31" "\<And>i. 32 \<le> n + i \<Longrightarrow> \<not> bit y i"
  shows "crc_run n (push_bit n y) = y"
  using assms
proof (induction n arbitrary: y)
  case 0
  then show ?case by (simp add: crc_run_def)
next
  case (Suc n)
  have "crc_run (Suc n) (push_bit (Suc n) y) = crc_bit (crc_run n (push_bit n (push_bit 1 y)))"
    by (simp only: crc_run_def push_bit_push_bit funpow.simps comp_apply) simp
  also have "\<dots> = crc_bit (push_bit 1 y)"
  proof (subst Suc.IH)
    fix i assume i: "32 \<le> n + i"
    show "\<not> bit (push_bit 1 y) i"
      unfolding bit_shl1 using Suc.prems(1) Suc.prems(2) [of "i - 1"] i by auto
  qed (use Suc.prems in auto)
  also have "\<dots> = y" using Suc.prems by (intro crc_bit_push) simp
  finally show ?case .
qed

lemma crc_byte_run: "crc_byte c b = crc_run 8 (c XOR ucast b)"
  by (simp add: crc_byte_def crc_run_def)

lemma foldl_crc_xor:
  "length xs = length ys \<Longrightarrow>
   foldl crc_byte (c XOR d) (map2 (XOR) xs ys) = foldl crc_byte c xs XOR foldl crc_byte d ys"
proof (induction xs ys arbitrary: c d rule: list_induct2)
  case (Cons x xs y ys)
  have "crc_byte (c XOR d) (x XOR y) = crc_byte c x XOR crc_byte d y"
    by (simp add: crc_byte_run unsigned_xor_eq crc_run_xor [symmetric] ac_simps)
  with Cons.IH show ?case by simp
qed simp

lemma map2_xor_self: "map2 (XOR) xs xs = replicate (length xs) (0 :: u8)"
  by (induction xs) auto

lemma foldl_crc_zeros: "foldl crc_byte c (replicate n 0) = crc_run (8 * n) c"
  by (induction n arbitrary: c) (simp_all add: crc_byte_run crc_run_add add.commute crc_run_zero)

lemma foldl_crc_same: "foldl crc_byte c xs XOR foldl crc_byte d xs = crc_run (8 * length xs) (c XOR d)"
  using foldl_crc_xor [of xs xs c d] by (simp add: map2_xor_self foldl_crc_zeros)

fun crc_pack :: "u8 list \<Rightarrow> u32" where
  "crc_pack [] = 0"
| "crc_pack (b # bs) = ucast b XOR push_bit 8 (crc_pack bs)"


lemma crc_pack_bits: "length bs \<le> 4 \<Longrightarrow> 8 * length bs \<le> i \<Longrightarrow> \<not> bit (crc_pack bs) i"
  by (induction bs arbitrary: i) (auto simp: bit_xor_iff bit_push_bit_iff bit_unsigned_iff dest: bit_imp_le_length)

lemma foldl_crc_pack:
  "length bs \<le> 4 \<Longrightarrow> foldl crc_byte c bs = crc_run (8 * length bs) (c XOR crc_pack bs)"
proof (induction bs arbitrary: c)
  case Nil
  then show ?case by (simp add: crc_run_def)
next
  case (Cons b bs)
  have p: "crc_run 8 (push_bit 8 (crc_pack bs)) = crc_pack bs"
    using Cons.prems by (intro crc_run_push crc_pack_bits) auto
  have "foldl crc_byte c (b # bs) = crc_run (8 * length bs) (crc_run 8 (c XOR ucast b) XOR crc_pack bs)"
    using Cons.IH [of "crc_byte c b"] Cons.prems by (simp add: crc_byte_run [of c b])
  also have "crc_run 8 (c XOR ucast b) XOR crc_pack bs = crc_run 8 (c XOR crc_pack (b # bs))"
    using p by (simp add: crc_run_xor ac_simps)
  finally show ?case by (simp add: crc_run_add add.commute)
qed

lemma crc_pack_inj0: "length bs \<le> 4 \<Longrightarrow> crc_pack bs = 0 \<Longrightarrow> b \<in> set bs \<Longrightarrow> b = 0"
proof (induction bs)
  case (Cons a bs)
  have bits: "bit (crc_pack (a # bs)) i = (if i < 8 then bit a i else bit (crc_pack bs) (i - 8) \<and> i < 32)" for i
    by (auto simp: bit_xor_iff bit_push_bit_iff bit_unsigned_iff dest: bit_imp_le_length)
  have "\<not> bit a i" for i
    using bits [of i] Cons.prems(2) by (cases "i < 8") (auto dest: bit_imp_le_length)
  then have a: "a = 0" by (intro bit_eqI) simp
  have "\<not> bit (crc_pack bs) i" for i
    using bits [of "i + 8"] Cons.prems crc_pack_bits [of bs i] by (cases "i < 24") auto
  then have "crc_pack bs = 0" by (intro bit_eqI) simp
  with Cons a show ?case by auto
qed simp

lemma crc_pack_xor: "length ds = length es \<Longrightarrow> crc_pack (map2 (XOR) ds es) = crc_pack ds XOR crc_pack es"
proof (induction ds es rule: list_induct2)
  case (Cons x xs y ys)
  then show ?case by (simp add: unsigned_xor_eq push_bit_xor ac_simps)
qed simp

lemma crc_burst:
  assumes "length ds = length es" "length ds \<le> 4" "foldl crc_byte c ds = foldl crc_byte c es"
  shows "ds = es"
proof -
  have "crc_run (8 * length ds) (c XOR crc_pack ds) XOR crc_run (8 * length ds) (c XOR crc_pack es) = 0"
    using assms by (simp add: foldl_crc_pack)
  then have "crc_run (8 * length ds) (crc_pack ds XOR crc_pack es) = 0"
    by (simp add: crc_run_xor [symmetric] ac_simps)
  then have "crc_pack ds XOR crc_pack es = 0" by (rule crc_run_inj0)
  then have "b = 0" if "b \<in> set (map2 (XOR) ds es)" for b
    using crc_pack_inj0 [of "map2 (XOR) ds es" b] assms(2) that crc_pack_xor [OF assms(1)] by simp
  then have "ds ! i XOR es ! i = 0" if "i < length ds" for i
    using assms(1) that by (auto simp: set_zip)
  then show ?thesis using assms(1) by (intro nth_equalityI) (auto intro: word_xor_eq_0D)
qed

lemma crc_detects_burst:
  assumes "length ds = length es" "length ds \<le> 4" "ds \<noteq> es"
  shows "foldl crc_byte c (xs @ ds @ ys) \<noteq> foldl crc_byte c (xs @ es @ ys)"
proof
  assume "foldl crc_byte c (xs @ ds @ ys) = foldl crc_byte c (xs @ es @ ys)"
  then have "crc_run (8 * length ys) (foldl crc_byte (foldl crc_byte c xs) ds XOR
      foldl crc_byte (foldl crc_byte c xs) es) = 0"
    unfolding foldl_crc_same [symmetric] by simp
  then have "foldl crc_byte (foldl crc_byte c xs) ds = foldl crc_byte (foldl crc_byte c xs) es"
    by (auto dest!: crc_run_inj0 word_xor_eq_0D)
  with crc_burst assms show False by blast
qed

end
