(* ===== verification/FrontSteering_Facts.thy ===== *)
theory FrontSteering_Facts
  imports FrontSteering
begin

text \<open>
  What the steering node's definitions compute: the exact values of its constants, the
  state invariant, the real-valued reading of one slew step, and the pulse width as a
  function of the angle. The properties of the component rest on these facts.
\<close>

section \<open>Values of the floating-point constants\<close>

lemma MAX_ABS_RAD_val: "FRONT_STEERING_MAX_ABS_RAD = Fin (1 / 2)"
  by (simp add: FRONT_STEERING_MAX_ABS_RAD_def flit_def f32_eval)

lemma flit_0 [simp]: "flit 0 = Fin 0"
  by (simp add: flit_representable)

lemma flit_1 [simp]: "flit 1 = Fin 1"
  by (simp add: flit_representable)

lemma DEFAULT_RATE_val: "FRONT_STEERING_DEFAULT_MAX_RATE_RAD_S = Fin 1"
  by (simp add: FRONT_STEERING_DEFAULT_MAX_RATE_RAD_S_def)

lemma flit_min_rate: "flit (5 / 100) = Fin (13421773 / 268435456)"
  by (simp add: flit_def f32_eval)

lemma flit_max_rate: "flit 10 = Fin 10"
  by (simp add: flit_representable)

lemma flit_min_step: "flit (1 / 1000) = Fin (8589935 / 8589934592)"
  by (simp add: flit_def f32_eval)

lemma flit_1000: "flit 1000 = Fin 1000"
  by (simp add: flit_representable)

lemmas steer_vals = MAX_ABS_RAD_val DEFAULT_RATE_val flit_min_rate flit_max_rate flit_min_step flit_1000

section \<open>Clamping\<close>

lemma clampFloat_bounds:
  assumes "is_fin lo" "is_fin hi" "fval lo \<le> fval hi" "v \<noteq> NaN"
  shows "is_fin (clampFloat v lo hi)" "fval lo \<le> fval (clampFloat v lo hi)"
    "fval (clampFloat v lo hi) \<le> fval hi"
proof -
  have "is_fin v \<or> v = Inf True \<or> v = Inf False" using assms(4) by (cases v) auto
  then have "is_fin (clampFloat v lo hi) \<and> fval lo \<le> fval (clampFloat v lo hi) \<and>
      fval (clampFloat v lo hi) \<le> fval hi"
  proof (elim disjE)
    assume "is_fin v"
    with assms show ?thesis by (auto simp: clampFloat_def flt_fin not_less)
  next
    assume "v = Inf True"
    with assms have "flt v lo" by (cases lo) (auto simp: flt_def)
    with assms show ?thesis by (auto simp: clampFloat_def)
  next
    assume "v = Inf False"
    with assms have "\<not> flt v lo" "flt hi v" by (cases lo; cases hi; auto simp: flt_def)+
    with assms show ?thesis by (auto simp: clampFloat_def)
  qed
  then show "is_fin (clampFloat v lo hi)" "fval lo \<le> fval (clampFloat v lo hi)"
    "fval (clampFloat v lo hi) \<le> fval hi" by auto
qed

lemma clampFloat_fin_val:
  assumes "is_fin lo" "is_fin hi" "fval lo \<le> fval hi" "is_fin v"
  shows "fval (clampFloat v lo hi) = max (fval lo) (min (fval hi) (fval v))"
  using assms by (auto simp: clampFloat_def flt_fin)

lemma clampFloat_wf: "wf32 v \<Longrightarrow> wf32 lo \<Longrightarrow> wf32 hi \<Longrightarrow> wf32 (clampFloat v lo hi)"
  by (simp add: clampFloat_def)

section \<open>The state invariant\<close>

definition angle_ok :: "f32 \<Rightarrow> bool" where
  "angle_ok a \<longleftrightarrow> is_fin a \<and> wf32 a \<and> \<bar>fval a\<bar> \<le> 1 / 2"

definition rate_ok :: "f32 \<Rightarrow> bool" where
  "rate_ok r \<longleftrightarrow> is_fin r \<and> wf32 r \<and> 13421773 / 268435456 \<le> fval r \<and> fval r \<le> 10"

definition steer_inv :: "FrontSteeringNode_State \<Rightarrow> bool" where
  "steer_inv s \<longleftrightarrow> angle_ok (targetAngleRad s) \<and> angle_ok (appliedAngleRad s) \<and> rate_ok (maxRateRadS s) \<and>
     (commandValid s \<longrightarrow> linkValid s \<and> initialized s \<and> \<not> emergencyCenter s) \<and>
     (\<not> commandValid s \<longrightarrow> targetAngleRad s = Fin 0)"

lemma wf_half [simp]: "wf32 (Fin (1 / 2))" "wf32 (Fin (- (1 / 2)))"
  using representable_frac [of 1 1] representable_frac [of "-1" 1] by (simp_all add: wf32_def)

lemma angle_ok_clamp:
  "v \<noteq> NaN \<Longrightarrow> wf32 v \<Longrightarrow> angle_ok (clampFloat v (fneg FRONT_STEERING_MAX_ABS_RAD) FRONT_STEERING_MAX_ABS_RAD)"
  using clampFloat_bounds [of "Fin (- (1 / 2))" "Fin (1 / 2)" v]
    clampFloat_wf [of v "Fin (- (1 / 2))" "Fin (1 / 2)"]
  by (auto simp: angle_ok_def MAX_ABS_RAD_val abs_le_iff)

lemma wf_rate_bounds [simp]: "wf32 (Fin (13421773 / 268435456))" "wf32 (Fin 10)"
  using wf32_flit [of "5 / 100"] wf32_flit [of 10] by (simp_all only: flit_min_rate flit_max_rate)

lemma rate_ok_clamp: "v \<noteq> NaN \<Longrightarrow> wf32 v \<Longrightarrow> rate_ok (clampFloat v (flit (5 / 100)) (flit 10))"
  using clampFloat_bounds [of "Fin (13421773 / 268435456)" "Fin 10" v]
    clampFloat_wf [of v "Fin (13421773 / 268435456)" "Fin 10"]
  unfolding rate_ok_def flit_min_rate flit_max_rate by simp

lemma angle_ok_0 [simp]: "angle_ok (Fin 0)"
  by (simp add: angle_ok_def wf32_def)

lemma rate_ok_default [simp]: "rate_ok FRONT_STEERING_DEFAULT_MAX_RATE_RAD_S"
  by (simp add: rate_ok_def DEFAULT_RATE_val wf32_def)

section \<open>The step size\<close>

lemma dt_seconds:
  "is_fin (fdiv (u32_to_f32 dt) (flit 1000))" "0 \<le> fval (fdiv (u32_to_f32 dt) (flit 1000))"
  "fval (fdiv (u32_to_f32 dt) (flit 1000)) \<le> 2 ^ 23"
proof -
  have rp: "representable (2 ^ 32)" "representable (2 ^ 23)" unfolding representable_def
    by (rule exI [of _ 1], rule exI [of _ 32], simp) (rule exI [of _ 1], rule exI [of _ 23], simp)
  have "real (unat dt) \<le> real (2 ^ 32)"
    using u32_less_2p32 [of dt] unfolding of_nat_le_iff by simp
  then have le: "fval (u32_to_f32 dt) \<le> 2 ^ 32"
    unfolding u32_to_f32_fin(2) using rp by (intro r32.rnd_le) simp_all
  have e: "fdiv (u32_to_f32 dt) (flit 1000) =
      mk32 (is_neg (u32_to_f32 dt) \<noteq> False) (fval (u32_to_f32 dt) / 1000)"
    by (simp add: flit_1000 fdiv_fin u32_to_f32_fin)
  have "\<bar>fval (u32_to_f32 dt) / 1000\<bar> \<le> 2 ^ 23" using le u32_to_f32_fin(3) [of dt] by simp
  note b = mk32_bounded [OF this rp(2)]
  show "is_fin (fdiv (u32_to_f32 dt) (flit 1000))" unfolding e by (rule b) simp
  show "0 \<le> fval (fdiv (u32_to_f32 dt) (flit 1000))"
    unfolding e by (subst b(2)) (auto intro!: rnd32_nonneg divide_nonneg_nonneg u32_to_f32_fin(3))
  show "fval (fdiv (u32_to_f32 dt) (flit 1000)) \<le> 2 ^ 23"
    unfolding e using b(3) by (simp add: abs_le_iff)
qed

definition step_ok :: "f32 \<Rightarrow> bool" where
  "step_ok m \<longleftrightarrow> is_fin m \<and> wf32 m \<and> 8589935 / 8589934592 \<le> fval m"

lemma step_ok_max_step:
  assumes "rate_ok (maxRateRadS s)"
  shows "step_ok (max_step nowMs s)"
proof -
  define d where "d = fdiv (u32_to_f32 (nowMs - lastApplyMs s)) (flit 1000)"
  note d = dt_seconds [of "nowMs - lastApplyMs s", folded d_def]
  from assms have r: "is_fin (maxRateRadS s)" "0 \<le> fval (maxRateRadS s)" "fval (maxRateRadS s) \<le> 10"
    by (auto simp: rate_ok_def)
  have rp: "representable (2 ^ 27)" unfolding representable_def
    by (rule exI [of _ 1], rule exI [of _ 27], simp)
  have "fval (maxRateRadS s) * fval d \<le> 10 * 2 ^ 23" using r d by (intro mult_mono) auto
  then have "\<bar>fval (maxRateRadS s) * fval d\<bar> \<le> 2 ^ 27" using r d by simp
  then have "is_fin (fmul (maxRateRadS s) d)"
    using r d rp by (subst fmul_fin) (auto intro!: mk32_bounded(1) [of _ "2 ^ 27"])
  moreover have "wf32 (Fin (8589935 / 8589934592))"
    using wf32_flit [of "1 / 1000"] by (simp only: flit_min_step)
  ultimately show ?thesis
    unfolding step_ok_def max_step_def Let_def d_def [symmetric] flit_min_step
    by (auto simp: flt_fin not_less)
qed

section \<open>One slew step\<close>

lemma slew_fields [simp]:
  "targetAngleRad (slew m s) = targetAngleRad s" "maxRateRadS (slew m s) = maxRateRadS s"
  "commandValid (slew m s) = commandValid s" "linkValid (slew m s) = linkValid s"
  "emergencyCenter (slew m s) = emergencyCenter s" "initialized (slew m s) = initialized s"
  "lastSequence (slew m s) = lastSequence s" "lastPacketMs (slew m s) = lastPacketMs s"
  "acceptedPackets (slew m s) = acceptedPackets s" "rejectedPackets (slew m s) = rejectedPackets s"
  "lastApplyMs (slew m s) = lastApplyMs s"
  by (simp_all add: slew_def Let_def)

text \<open>The real-valued step: the rounded difference, limited to the step, added and limited
  to the mechanical range.\<close>

definition real_slew :: "real \<Rightarrow> real \<Rightarrow> real \<Rightarrow> real" where
  "real_slew m t a = max (- (1 / 2)) (min (1 / 2) (rnd32 (a + max (- m) (min m (rnd32 (t - a))))))"

lemma slew_val:
  assumes "angle_ok (targetAngleRad s)" "angle_ok (appliedAngleRad s)" "step_ok m"
  shows "angle_ok (appliedAngleRad (slew m s))"
    "fval (appliedAngleRad (slew m s)) = real_slew (fval m) (fval (targetAngleRad s)) (fval (appliedAngleRad s))"
proof -
  let ?t = "targetAngleRad s" and ?a = "appliedAngleRad s"
  define e0 where "e0 = fsub ?t ?a"
  define e where "e = (if flt m e0 then m else if flt e0 (fneg m) then fneg m else e0)"
  define x where "x = fadd ?a e"
  from assms have f: "is_fin ?t" "is_fin ?a" "is_fin m" "\<bar>fval ?t\<bar> \<le> 1 / 2" "\<bar>fval ?a\<bar> \<le> 1 / 2" "0 < fval m"
    by (auto simp: angle_ok_def step_ok_def)
  have "\<bar>fval ?t - fval ?a\<bar> \<le> 1" using f(4,5) by linarith
  note b0 = mk32_bounded [OF this representable_1]
  have e0: "is_fin e0" "fval e0 = rnd32 (fval ?t - fval ?a)" "\<bar>fval e0\<bar> \<le> 1"
    unfolding e0_def fsub_fin [OF f(1,2)] by (rule b0; simp)+
  have e: "is_fin e" "fval e = max (- fval m) (min (fval m) (fval e0))"
    using e0 f by (auto simp: e_def flt_fin)
  have "\<bar>fval e\<bar> \<le> 1" using e(2) e0(3) f(6) by linarith
  then have "\<bar>fval ?a + fval e\<bar> \<le> 2" using f(5) by linarith
  note bx = mk32_bounded [OF this representable_numeral]
  have x: "is_fin x" "fval x = rnd32 (fval ?a + fval e)"
    unfolding x_def fadd_fin [OF f(2) e(1)] by (rule bx; simp)+
  have app: "appliedAngleRad (slew m s) =
      clampFloat x (fneg FRONT_STEERING_MAX_ABS_RAD) FRONT_STEERING_MAX_ABS_RAD"
    by (simp add: slew_def Let_def e0_def e_def x_def)
  have "x \<noteq> NaN" using x(1) by auto
  then show "angle_ok (appliedAngleRad (slew m s))"
    unfolding app by (rule angle_ok_clamp) (simp add: x_def)
  show "fval (appliedAngleRad (slew m s)) = real_slew (fval m) (fval ?t) (fval ?a)"
    unfolding app real_slew_def using x e(2) e0(2)
    by (subst clampFloat_fin_val) (auto simp: MAX_ABS_RAD_val)
qed

lemma real_slew_bound: "\<bar>real_slew m t a\<bar> \<le> 1 / 2"
  by (simp add: real_slew_def abs_le_iff)

lemma real_slew_rate:
  assumes "\<bar>a\<bar> \<le> 1 / 2" "\<bar>t\<bar> \<le> 1 / 2" "0 \<le> m"
  shows "\<bar>real_slew m t a - a\<bar> \<le> m + 1 / 2 ^ 23"
proof -
  have d: "\<bar>rnd32 (t - a)\<bar> \<le> 1" using assms by (intro r32.rnd_abs_le) auto
  define e where "e = max (- m) (min m (rnd32 (t - a)))"
  have e: "\<bar>e\<bar> \<le> m" "\<bar>e\<bar> \<le> 1" using d assms(3) by (auto simp: e_def)
  have "\<bar>a + e\<bar> \<le> 2" using assms(1) e(2) by linarith
  then have "\<bar>rnd32 (a + e) - (a + e)\<bar> \<le> 2 / 2 ^ 24" by (rule rnd32_error_le) simp
  also have "(2::real) / 2 ^ 24 = 1 / 2 ^ 23" by simp
  finally have "\<bar>rnd32 (a + e) - a\<bar> \<le> m + 1 / 2 ^ 23" using e(1) by linarith
  then show ?thesis using assms(1) by (auto simp: real_slew_def e_def [symmetric] abs_le_iff)
qed

text \<open>With the target at the centre the applied angle reaches it, by at least
  \<open>999 / 1000000\<close> of a radian per step.\<close>

lemma real_slew_centre_pos:
  assumes "0 \<le> a" "a \<le> 1 / 2" "representable a" "8589935 / 8589934592 \<le> m"
  shows "0 \<le> real_slew m 0 a" "real_slew m 0 a \<le> max 0 (a - 999 / 1000000)"
proof -
  have d: "rnd32 (0 - a) = - a" using assms(3) by (simp add: rnd32_minus rnd32_representable)
  have e: "max (- m) (min m (rnd32 (0 - a))) = - min m a"
    unfolding d using assms by (auto simp: max_def min_def)
  have nn: "0 \<le> rnd32 (a - min m a)" by (rule rnd32_nonneg) simp
  have le: "rnd32 (a - min m a) \<le> max 0 (a - 999 / 1000000)"
  proof (cases "a \<le> m")
    case False
    have "\<bar>a - m\<bar> \<le> 1 / 2" using assms False by linarith
    then have "\<bar>rnd32 (a - m) - (a - m)\<bar> \<le> (1 / 2) / 2 ^ 24" by (rule rnd32_error_le) simp
    also have "(1 / 2) / 2 ^ 24 = 1 / (2::real) ^ 25" by simp
    finally have "rnd32 (a - m) \<le> a - m + 1 / 2 ^ 25" by linarith
    also have "\<dots> \<le> a - 999 / 1000000" using assms(4) by simp
    finally show ?thesis using False by (simp add: min_def)
  qed (simp add: min_def)
  have half: "rnd32 (a - min m a) \<le> 1 / 2" using le assms(2) by auto
  have "real_slew m 0 a = rnd32 (a - min m a)"
    unfolding real_slew_def e using nn half by (simp add: max_def min_def)
  with nn le show "0 \<le> real_slew m 0 a" "real_slew m 0 a \<le> max 0 (a - 999 / 1000000)" by simp_all
qed

lemma real_slew_odd:
  assumes "0 \<le> m"
  shows "real_slew m 0 (- a) = - real_slew m 0 a"
proof -
  have "max (- m) (min m (rnd32 (0 - - a))) = - max (- m) (min m (rnd32 (0 - a)))"
    using assms rnd32_minus [of "0 - a"] by (auto simp: max_def min_def)
  then have "rnd32 (- a + max (- m) (min m (rnd32 (0 - - a)))) = - rnd32 (a + max (- m) (min m (rnd32 (0 - a))))"
    using rnd32_minus [of "a + max (- m) (min m (rnd32 (0 - a)))"] by simp
  then show ?thesis unfolding real_slew_def by (auto simp: max_def min_def)
qed

lemma real_slew_centre:
  assumes "\<bar>a\<bar> \<le> 1 / 2" "representable a" "8589935 / 8589934592 \<le> m"
  shows "\<bar>real_slew m 0 a\<bar> \<le> max 0 (\<bar>a\<bar> - 999 / 1000000)"
proof (cases "0 \<le> a")
  case True
  with assms real_slew_centre_pos [of a m] show ?thesis by auto
next
  case False
  with assms real_slew_centre_pos [of "- a" m] representable_minus [of a] real_slew_odd [of m a]
  show ?thesis by auto
qed

section \<open>The invariant under every operation\<close>

lemma steer_inv_reject [simp]: "steer_inv (rejectPacket s) = steer_inv s"
  by (simp add: steer_inv_def rejectPacket_def)

lemma steer_inv_acceptTarget:
  assumes "steer_inv s" "a \<noteq> NaN" "wf32 a" "r \<noteq> NaN" "wf32 r"
  shows "steer_inv (acceptTarget q a r v e now s)"
  using assms angle_ok_clamp [of a] rate_ok_clamp [of r]
  by (auto simp: steer_inv_def acceptTarget_def Let_def)

lemma isFinite_not_NaN: "isFiniteFloat a \<Longrightarrow> a \<noteq> NaN"
  by (auto simp: isFiniteFloat_def feq_self_iff)

lemma hpsc_parse_wf: "hpsc_parse payload = Some p \<Longrightarrow> wf32 (angle p) \<and> wf32 (maxRate p)"
  by (auto simp: hpsc_parse_def bind_Some_iff readFloat32Le_def)

lemma steer_inv_process:
  assumes "steer_inv s" "wf32 (angle p)" "wf32 (maxRate p)"
  shows "steer_inv (snd (hpsc_process p now s))"
proof -
  have centre: "steer_inv (acceptTarget q (flit 0) FRONT_STEERING_DEFAULT_MAX_RATE_RAD_S v e now s)" for q v e
    by (intro steer_inv_acceptTarget) (use assms in \<open>auto simp: DEFAULT_RATE_val wf32_def\<close>)
  have "steer_inv (acceptTarget q (angle p) (maxRate p) v e now s)" if "hpsc_command_valid p" for q v e
    using that assms by (intro steer_inv_acceptTarget)
      (auto simp: hpsc_command_valid_def dest!: isFinite_not_NaN)
  with centre assms(1) show ?thesis by (simp add: hpsc_process_def)
qed

lemma acceptHpsc_cases:
  assumes "FrontSteeringNode_acceptHpscPacket payload len now s = Some (b, s')"
  obtains "\<not> b" "s' = rejectPacket s"
  | bs p where "payload = Some bs" "has_magic bs = Some True" "hpsc_parse bs = Some p"
      "(b, s') = hpsc_process p now s"
  using assms
  by (auto simp: FrontSteeringNode_acceptHpscPacket_def bind_Some_iff split: option.splits if_splits)

lemma steer_inv_acceptHpsc:
  assumes "steer_inv s" "FrontSteeringNode_acceptHpscPacket payload len now s = Some (b, s')"
  shows "steer_inv s'"
  using assms(2)
proof (cases rule: acceptHpsc_cases)
  case (2 bs p)
  with steer_inv_process [OF assms(1), of p now] hpsc_parse_wf [of bs p] show ?thesis
    by (metis snd_conv)
qed (use assms in simp)

lemma watchdog_fields [simp]:
  "appliedAngleRad (watchdog now s) = appliedAngleRad s" "maxRateRadS (watchdog now s) = maxRateRadS s"
  "initialized (watchdog now s) = initialized s" "lastApplyMs (watchdog now s) = lastApplyMs s"
  "lastSequence (watchdog now s) = lastSequence s" "lastPacketMs (watchdog now s) = lastPacketMs s"
  "acceptedPackets (watchdog now s) = acceptedPackets s" "rejectedPackets (watchdog now s) = rejectedPackets s"
  by (simp_all add: watchdog_def Let_def)

lemma steer_inv_watchdog: "steer_inv s \<Longrightarrow> steer_inv (watchdog now s)"
  by (cases "\<not> initialized s \<or> FRONT_STEERING_WATCHDOG_MS < now - lastPacketMs s")
    (simp_all add: steer_inv_def watchdog_def Let_def)

lemma steer_inv_slew:
  assumes "steer_inv s" "step_ok m"
  shows "steer_inv (slew m s)"
  using assms slew_val(1) [of s m] by (simp add: steer_inv_def)

lemma steer_inv_lastApply [simp]: "steer_inv (s\<lparr>lastApplyMs := t\<rparr>) = steer_inv s"
  by (simp add: steer_inv_def)

lemma steer_inv_rate: "steer_inv s \<Longrightarrow> rate_ok (maxRateRadS s)"
  by (simp add: steer_inv_def)

lemma steer_inv_step: "steer_inv s \<Longrightarrow> steer_inv (steer_step now s)"
  unfolding steer_step_def Let_def
  by (intro steer_inv_slew step_ok_max_step) (simp_all add: steer_inv_watchdog steer_inv_rate)

section \<open>The pulse width\<close>

definition norm_of :: "f32 \<Rightarrow> f32" where
  "norm_of a = clampFloat (fdiv a FRONT_STEERING_MAX_ABS_RAD) (flit (- 1)) (flit 1)"

definition span_pulse :: "real \<Rightarrow> real \<Rightarrow> real" where
  "span_pulse n sp = rnd32 (rnd32 (n * sp) + 1 / 2)"

lemma span_pulse_mono: "n \<le> n' \<Longrightarrow> 0 \<le> sp \<Longrightarrow> span_pulse n sp \<le> span_pulse n' sp"
  unfolding span_pulse_def by (intro rnd32_mono add_right_mono mult_right_mono)

lemma span_pulse_bounds:
  assumes "0 \<le> n" "n \<le> 1" "sp = real k" "k \<le> 1000"
  shows "0 \<le> span_pulse n sp" "span_pulse n sp \<le> real k + 1 / 2"
proof -
  have r: "representable (real k)" "representable (real k + 1 / 2)"
    using representable_int [of "int k"] representable_frac [of "2 * int k + 1" 1] assms(4)
    by (simp_all add: field_simps)
  have "n * sp \<le> real k" using assms mult_left_le_one_le [of "real k" n] by (simp add: mult.commute)
  with r(1) have "rnd32 (n * sp) \<le> real k" by (intro r32.rnd_le)
  then show "span_pulse n sp \<le> real k + 1 / 2"
    unfolding span_pulse_def by (intro r32.rnd_le r) simp
  show "0 \<le> span_pulse n sp"
    unfolding span_pulse_def using assms by (intro rnd32_nonneg add_nonneg_nonneg) (simp_all add: rnd32_nonneg)
qed

lemma norm_of_props:
  assumes "a \<noteq> NaN"
  shows "is_fin (norm_of a)" "- 1 \<le> fval (norm_of a)" "fval (norm_of a) \<le> 1"
proof -
  have m1: "flit (- 1) = Fin (- 1)"
    using representable_int [of "- 1"] by (intro flit_representable) simp_all
  have "fdiv a FRONT_STEERING_MAX_ABS_RAD \<noteq> NaN"
    using assms by (cases a) (auto simp: fdiv_def MAX_ABS_RAD_val mk32_def Let_def)
  then show "is_fin (norm_of a)" "- 1 \<le> fval (norm_of a)" "fval (norm_of a) \<le> 1"
    using clampFloat_bounds [of "Fin (- 1)" "Fin 1" "fdiv a FRONT_STEERING_MAX_ABS_RAD"]
    by (simp_all add: norm_of_def m1)
qed

lemma span_conv:
  assumes "is_fin n" "0 \<le> fval n" "fval n \<le> 1" "unat w = k" "k \<le> 1000"
  shows "f32_to_u32 (fadd (fmul n (u32_to_f32 w)) (flit (1 / 2))) =
    Some (word_of_int \<lfloor>span_pulse (fval n) (real k)\<rfloor>)"
proof -
  have h: "flit (1 / 2) = Fin (1 / 2)" using wf_half(1) by (intro flit_representable) (simp_all add: wf32_def)
  have w: "u32_to_f32 w = Fin (real k)" using assms by (simp add: u32_to_f32_small)
  have "\<bar>fval n * real k\<bar> \<le> 1000"
    using assms mult_left_le_one_le [of "real k" "fval n"] by (simp add: mult.commute)
  note b1 = mk32_bounded [OF this representable_numeral]
  have m: "is_fin (fmul n (Fin (real k)))" "fval (fmul n (Fin (real k))) = rnd32 (fval n * real k)"
    using assms(1) by (subst fmul_fin; simp add: b1)+
  have "\<bar>rnd32 (fval n * real k)\<bar> \<le> 1000"
    using \<open>\<bar>fval n * real k\<bar> \<le> 1000\<close> by (intro r32.rnd_abs_le) simp_all
  then have "\<bar>rnd32 (fval n * real k) + 1 / 2\<bar> \<le> 1001" by linarith
  note b2 = mk32_bounded [OF this representable_numeral]
  have a: "is_fin (fadd (fmul n (Fin (real k))) (Fin (1 / 2)))"
     "fval (fadd (fmul n (Fin (real k))) (Fin (1 / 2))) = span_pulse (fval n) (real k)"
    using m by (subst fadd_fin; simp add: b2 span_pulse_def)+
  from span_pulse_bounds [OF assms(2,3) refl assms(5)] have "span_pulse (fval n) (real k) < 2 ^ 32"
    using assms(5) by (simp add: order_le_less_trans [of _ "real k + 1 / 2"])
  then show ?thesis unfolding w h using a span_pulse_bounds [OF assms(2,3) refl assms(5)]
    by (subst f32_to_u32_in_range) simp_all
qed

definition pulse_of :: "real \<Rightarrow> nat" where
  "pulse_of n = (if 0 \<le> n then 1650 - nat \<lfloor>span_pulse n 500\<rfloor> else 1650 + nat \<lfloor>span_pulse (- n) 350\<rfloor>)"

lemma pulse_of_bounds:
  assumes "- 1 \<le> n" "n \<le> 1"
  shows "1150 \<le> pulse_of n" "pulse_of n \<le> 2000"
    "0 \<le> n \<Longrightarrow> pulse_of n \<le> 1650" "n < 0 \<Longrightarrow> 1650 \<le> pulse_of n"
proof -
  have "nat \<lfloor>span_pulse n 500\<rfloor> \<le> 500" if "0 \<le> n"
    using span_pulse_bounds(2) [of n 500 500] that assms by (simp add: nat_le_iff floor_le_iff)
  moreover have "nat \<lfloor>span_pulse (- n) 350\<rfloor> \<le> 350" if "n < 0"
    using span_pulse_bounds(2) [of "- n" 350 350] that assms by (simp add: nat_le_iff floor_le_iff)
  ultimately show "1150 \<le> pulse_of n" "pulse_of n \<le> 2000"
    "0 \<le> n \<Longrightarrow> pulse_of n \<le> 1650" "n < 0 \<Longrightarrow> 1650 \<le> pulse_of n"
    by (auto simp: pulse_of_def not_le)
qed

lemma pulse_of_antimono:
  assumes "- 1 \<le> n" "n \<le> n'" "n' \<le> 1"
  shows "pulse_of n' \<le> pulse_of n"
proof -
  consider "0 \<le> n" | "n < 0" "0 \<le> n'" | "n' < 0" using assms by linarith
  then show ?thesis
  proof cases
    case 1
    have "nat \<lfloor>span_pulse n 500\<rfloor> \<le> nat \<lfloor>span_pulse n' 500\<rfloor>"
      using span_pulse_mono [OF assms(2), of 500] by (intro nat_mono floor_mono) simp
    with 1 assms show ?thesis by (simp add: pulse_of_def)
  next
    case 2
    with pulse_of_bounds(3) [of n'] pulse_of_bounds(4) [of n] assms show ?thesis by simp
  next
    case 3
    have "nat \<lfloor>span_pulse (- n') 350\<rfloor> \<le> nat \<lfloor>span_pulse (- n) 350\<rfloor>"
      using span_pulse_mono [of "- n'" "- n" 350] assms by (intro nat_mono floor_mono) simp
    with 3 assms show ?thesis by (simp add: pulse_of_def)
  qed
qed

lemma angleToPulseUs_norm:
  "angleToPulseUs a = (if fle (Fin 0) (norm_of a)
     then map_option (\<lambda>d. 1650 - d) (f32_to_u32 (fadd (fmul (norm_of a) (u32_to_f32 500)) (flit (1 / 2))))
     else map_option (\<lambda>d. 1650 + d) (f32_to_u32 (fadd (fmul (fneg (norm_of a)) (u32_to_f32 350)) (flit (1 / 2)))))"
  by (simp add: angleToPulseUs_def norm_of_def consts_simps Let_def)

lemma angleToPulseUs_val:
  assumes "a \<noteq> NaN"
  shows "angleToPulseUs a = Some (of_nat (pulse_of (fval (norm_of a))))"
proof -
  note n = norm_of_props [OF assms]
  define v where "v = fval (norm_of a)"
  show ?thesis
  proof (cases "0 \<le> v")
    case True
    have "f32_to_u32 (fadd (fmul (norm_of a) (u32_to_f32 500)) (flit (1 / 2))) =
        Some (word_of_int \<lfloor>span_pulse v (real 500)\<rfloor>)"
      unfolding v_def by (rule span_conv) (use n True in \<open>simp_all add: v_def\<close>)
    moreover have "(word_of_int \<lfloor>span_pulse v 500\<rfloor> :: u32) = of_nat (nat \<lfloor>span_pulse v 500\<rfloor>)" "nat \<lfloor>span_pulse v 500\<rfloor> \<le> 500"
      using span_pulse_bounds [of v 500 500] n True by (simp_all add: v_def nat_le_iff floor_le_iff)
    ultimately show ?thesis using True n
      by (simp add: angleToPulseUs_norm fle_fin v_def [symmetric]
          pulse_of_def of_nat_diff)
  next
    case False
    have "f32_to_u32 (fadd (fmul (fneg (norm_of a)) (u32_to_f32 350)) (flit (1 / 2))) =
        Some (word_of_int \<lfloor>span_pulse (fval (fneg (norm_of a))) (real 350)\<rfloor>)"
      by (rule span_conv) (use n False in \<open>simp_all add: v_def\<close>)
    moreover have "(word_of_int \<lfloor>span_pulse (- v) 350\<rfloor> :: u32) = of_nat (nat \<lfloor>span_pulse (- v) 350\<rfloor>)"
      using span_pulse_bounds [of "- v" 350 350] n False by (simp add: v_def)
    ultimately show ?thesis using False n
      by (simp add: angleToPulseUs_norm fle_fin v_def [symmetric]
          pulse_of_def)
  qed
qed

end
