(* ===== verification/FrontPacket_Facts.thy ===== *)
theory FrontPacket_Facts
  imports FrontCrc FrontSteering_Facts
begin

text \<open>
  Reading HPSC packets: which reads stay inside the buffer, what a packet that is accepted
  or refused leaves behind, and where in an Ethernet frame the receiver looks.
\<close>

section \<open>Reads inside the packet\<close>

lemma readU16Le_drop: "n + 2 \<le> length bs \<Longrightarrow> \<exists>v. readU16Le (drop n bs) = Some v"
  by (cases "drop n bs" rule: readU16Le.cases) (auto dest!: arg_cong [where f = length])

lemma readU16Be_drop: "n + 2 \<le> length bs \<Longrightarrow> \<exists>v. readU16Be (drop n bs) = Some v"
  by (cases "drop n bs" rule: readU16Be.cases) (auto dest!: arg_cong [where f = length])

lemma readU32Le_drop: "n + 4 \<le> length bs \<Longrightarrow> \<exists>v. readU32Le (drop n bs) = Some v"
  by (cases "drop n bs" rule: readU32Le.cases) (auto dest!: arg_cong [where f = length])

lemma readFloat32Le_drop: "n + 4 \<le> length bs \<Longrightarrow> \<exists>v. readFloat32Le (drop n bs) = Some v"
  using readU32Le_drop by (auto simp: readFloat32Le_def)

lemma crc32Ieee_36: "36 \<le> length bs \<Longrightarrow> crc32Ieee bs 36 = Some (NOT (foldl crc_byte 0xFFFFFFFF (take 36 bs)))"
  by (simp add: crc32Ieee_def)

lemma hpsc_parse_len:
  assumes "40 \<le> length bs"
  obtains p where "hpsc_parse bs = Some p"
    "calculatedCrc p = NOT (foldl crc_byte 0xFFFFFFFF (take 36 bs))"
    "readU32Le (drop 36 bs) = Some (receivedCrc p)"
proof -
  from assms obtain q a r r16 r32 rc where
    "readU32Le (drop 8 bs) = Some q" "readFloat32Le (drop 20 bs) = Some a"
    "readFloat32Le (drop 24 bs) = Some r" "readU16Le (drop 30 bs) = Some r16"
    "readU32Le (drop 32 bs) = Some r32" "readU32Le (drop 36 bs) = Some rc"
    using readU32Le_drop [of 8 bs] readFloat32Le_drop [of 20 bs] readFloat32Le_drop [of 24 bs]
      readU16Le_drop [of 30 bs] readU32Le_drop [of 32 bs] readU32Le_drop [of 36 bs] by fastforce
  then show thesis
    using assms by (intro that [of "\<lparr>version = bs ! 4, controlMode = bs ! 5, flags = bs ! 6, headerSize = bs ! 7,
      seqNo = q, angle = a, maxRate = r, reserved16 = r16, reserved32 = r32, receivedCrc = rc,
      calculatedCrc = NOT (foldl crc_byte 0xFFFFFFFF (take 36 bs))\<rparr>"])
      (simp_all add: hpsc_parse_def crc32Ieee_36)
qed

lemma has_magic_iff:
  "4 \<le> length bs \<Longrightarrow> has_magic bs = Some (take 4 bs = [0x48, 0x50, 0x53, 0x43])"
  by (cases bs rule: readU32Le.cases) (auto simp: has_magic_def)

lemma has_magic_len: "4 \<le> length bs \<Longrightarrow> \<exists>m. has_magic bs = Some m"
  by (simp add: has_magic_iff)

lemma acceptHpsc_total:
  assumes "40 \<le> length bs"
  shows "\<exists>b s'. FrontSteeringNode_acceptHpscPacket (Some bs) len now s = Some (b, s')"
proof -
  obtain m where m: "has_magic bs = Some m" using has_magic_len [of bs] assms by auto
  obtain p where p: "hpsc_parse bs = Some p" using hpsc_parse_len [OF assms] by blast
  obtain b s' where "hpsc_process p now s = (b, s')" by (cases "hpsc_process p now s")
  with m p show ?thesis
    by (auto simp: FrontSteeringNode_acceptHpscPacket_def)
qed

section \<open>What a packet does to the state\<close>

text \<open>\<open>same_control s s'\<close>: at most the counter of rejected packets differs.\<close>

definition same_control :: "FrontSteeringNode_State \<Rightarrow> FrontSteeringNode_State \<Rightarrow> bool" where
  "same_control s s' \<longleftrightarrow> s' = s\<lparr>rejectedPackets := rejectedPackets s'\<rparr>"

lemma same_control_refl [simp]: "same_control s s"
  by (simp add: same_control_def)

lemma same_control_reject [simp]: "same_control s (rejectPacket s)"
  by (simp add: same_control_def rejectPacket_def)

lemma same_control_trans: "same_control s t \<Longrightarrow> same_control t u \<Longrightarrow> same_control s u"
  by (cases s; cases t; cases u) (auto simp: same_control_def)

definition hpsc_acceptable :: "hpsc_fields \<Rightarrow> FrontSteeringNode_State \<Rightarrow> bool" where
  "hpsc_acceptable p s \<longleftrightarrow> hpsc_wellformed p \<and>
     (initialized s \<longrightarrow> sequenceNewer (seqNo p) (lastSequence s)) \<and>
     (flags p AND HPSC_FLAG_EMERGENCY_CENTER \<noteq> 0 \<or> controlMode p = HPSC_CONTROL_DISABLED \<or> hpsc_command_valid p)"

lemma hpsc_command_valid_mode: "hpsc_command_valid p \<Longrightarrow> controlMode p \<noteq> HPSC_CONTROL_DISABLED"
  by (simp add: hpsc_command_valid_def consts_simps)

lemma hpsc_process_iff: "fst (hpsc_process p now s) = hpsc_acceptable p s"
  by (auto simp: hpsc_process_def hpsc_acceptable_def)

lemma hpsc_process_refused: "\<not> hpsc_acceptable p s \<Longrightarrow> same_control s (snd (hpsc_process p now s))"
  by (auto simp: hpsc_process_def hpsc_acceptable_def)

lemma hpsc_process_accepted:
  fixes now
  assumes "hpsc_acceptable p s"
  defines "s' \<equiv> snd (hpsc_process p now s)"
  shows "initialized s'" "linkValid s'" "lastSequence s' = seqNo p" "lastPacketMs s' = now"
    "acceptedPackets s' = acceptedPackets s + 1" "rejectedPackets s' = rejectedPackets s"
    "appliedAngleRad s' = appliedAngleRad s" "lastApplyMs s' = lastApplyMs s"
    "commandValid s' \<longleftrightarrow> hpsc_command_valid p \<and> flags p AND HPSC_FLAG_EMERGENCY_CENTER = 0"
    "emergencyCenter s' \<longleftrightarrow> flags p AND HPSC_FLAG_EMERGENCY_CENTER \<noteq> 0"
    "\<not> commandValid s' \<Longrightarrow> targetAngleRad s' = Fin 0"
    "commandValid s' \<Longrightarrow> targetAngleRad s' = angle p"
proof -
  show "initialized s'" "linkValid s'" "lastSequence s' = seqNo p" "lastPacketMs s' = now"
    "acceptedPackets s' = acceptedPackets s + 1" "rejectedPackets s' = rejectedPackets s"
    "appliedAngleRad s' = appliedAngleRad s" "lastApplyMs s' = lastApplyMs s"
    "commandValid s' \<longleftrightarrow> hpsc_command_valid p \<and> flags p AND HPSC_FLAG_EMERGENCY_CENTER = 0"
    "emergencyCenter s' \<longleftrightarrow> flags p AND HPSC_FLAG_EMERGENCY_CENTER \<noteq> 0"
    "\<not> commandValid s' \<Longrightarrow> targetAngleRad s' = Fin 0"
    using assms(1) by (auto simp: s'_def hpsc_process_def hpsc_acceptable_def acceptTarget_def Let_def
        hpsc_command_valid_mode)
  assume v: "commandValid s'"
  then have cv: "hpsc_command_valid p" "flags p AND HPSC_FLAG_EMERGENCY_CENTER = 0"
    using assms(1) by (auto simp: s'_def hpsc_process_def hpsc_acceptable_def acceptTarget_def Let_def
        split: if_splits)
  have in_range: "is_fin a \<Longrightarrow> fle (absFloat a) (Fin (1 / 2)) \<Longrightarrow> clampFloat a (Fin (- (1 / 2))) (Fin (1 / 2)) = a" for a
    by (auto simp: clampFloat_def absFloat_def flt_fin fle_fin split: if_splits)
  have "is_fin (angle p)"
    using cv by (cases "angle p") (auto simp: hpsc_command_valid_def isFiniteFloat_def flt_def
        split: f32.splits bool.splits)
  with in_range [of "angle p"] cv assms(1) show "targetAngleRad s' = angle p"
    by (auto simp: s'_def hpsc_process_def hpsc_acceptable_def acceptTarget_def Let_def MAX_ABS_RAD_val
        hpsc_command_valid_def)
qed

lemma acceptHpsc_True:
  "FrontSteeringNode_acceptHpscPacket (Some bs) len now s = Some (True, s') \<longleftrightarrow>
    (len = 40 \<and> has_magic bs = Some True \<and> (\<exists>p. hpsc_parse bs = Some p \<and> hpsc_acceptable p s \<and>
      s' = snd (hpsc_process p now s)))"
proof -
  have "hpsc_process p now s = (True, s') \<longleftrightarrow> hpsc_acceptable p s \<and> s' = snd (hpsc_process p now s)" for p
    using hpsc_process_iff [of p now s] by (cases "hpsc_process p now s") auto
  then show ?thesis
    by (auto simp: FrontSteeringNode_acceptHpscPacket_def bind_Some_iff HPSC_PACKET_SIZE_def)
qed

lemma acceptHpsc_False:
  assumes "FrontSteeringNode_acceptHpscPacket ptr len now s = Some (False, s')"
  shows "same_control s s'"
  using assms
proof (cases rule: acceptHpsc_cases)
  case (2 bs p)
  then have "\<not> hpsc_acceptable p s" using hpsc_process_iff [of p now s] by (metis fst_conv)
  with 2 hpsc_process_refused [of p s now] show ?thesis by (metis snd_conv)
qed simp

section \<open>Packets inside a frame\<close>

definition packet_at :: "u8 list \<Rightarrow> nat \<Rightarrow> hpsc_fields \<Rightarrow> bool" where
  "packet_at frame off p \<longleftrightarrow> off + 40 \<le> length frame \<and>
     has_magic (drop off frame) = Some True \<and> hpsc_parse (drop off frame) = Some p"

lemma readU32Le_Some_len: "readU32Le bs = Some v \<Longrightarrow> 4 \<le> length bs"
  by (cases bs rule: readU32Le.cases) auto

lemma hpsc_parse_Some_len: "hpsc_parse bs = Some p \<Longrightarrow> 40 \<le> length bs"
  by (auto simp: hpsc_parse_def bind_Some_iff dest!: readU32Le_Some_len)

text \<open>\<open>delivers frame off now s s'\<close>: the packet at \<open>off\<close> was accepted, in a state that
  differs from \<open>s\<close> in no more than the count of rejected packets.\<close>

definition delivers :: "u8 list \<Rightarrow> nat \<Rightarrow> u32 \<Rightarrow> FrontSteeringNode_State \<Rightarrow> FrontSteeringNode_State \<Rightarrow> bool" where
  "delivers frame off now s s' \<longleftrightarrow> (\<exists>p s0. same_control s s0 \<and> packet_at frame off p \<and>
     hpsc_acceptable p s0 \<and> s' = snd (hpsc_process p now s0))"

lemma delivers_trans: "same_control s t \<Longrightarrow> delivers frame off now t s' \<Longrightarrow> delivers frame off now s s'"
  unfolding delivers_def using same_control_trans by blast

lemma accept_delivers:
  assumes "FrontSteeringNode_acceptHpscPacket (Some (drop off frame)) len now s = Some (True, s')"
  shows "delivers frame off now s s'"
proof -
  from assms obtain p where p: "has_magic (drop off frame) = Some True" "hpsc_parse (drop off frame) = Some p"
    "hpsc_acceptable p s" "s' = snd (hpsc_process p now s)"
    unfolding acceptHpsc_True by blast
  from hpsc_parse_Some_len [OF p(2)] have "off + 40 \<le> length frame" by simp
  with p show ?thesis unfolding delivers_def packet_at_def using same_control_refl by blast
qed

lemma acceptable_same_control: "same_control s t \<Longrightarrow> hpsc_acceptable p s = hpsc_acceptable p t"
  unfolding same_control_def hpsc_acceptable_def
  by (metis FrontSteeringNode_State.select_convs(1,8) FrontSteeringNode_State.surjective
      FrontSteeringNode_State.update_convs(12))

lemma hpscFromEthernet_True:
  assumes "hpscFromEthernet frame len now s = Some (True, s')"
  shows "\<exists>off. off + 40 \<le> unat len \<and> delivers frame off now s s'"
proof -
  from assms obtain b0 tot where h:
    "20 \<le> unat (b0 AND 0x0F :: u8) * 4" "unat (b0 AND 0x0F) * 4 + 8 + 40 \<le> unat (tot :: u16)"
    "14 + unat tot \<le> unat len"
    "FrontSteeringNode_acceptHpscPacket (Some (drop (unat (b0 AND 0x0F) * 4 + 22) frame)) 40 now s = Some (True, s')"
    by (auto simp: hpscFromEthernet_def bind_Some_iff HPSC_PACKET_SIZE_def add.commute Let_def split: if_splits)
  from h(1-3) have "unat (b0 AND 0x0F) * 4 + 22 + 40 \<le> unat len" by simp
  with accept_delivers [OF h(4)] show ?thesis by blast
qed

lemma hpscFromEthernet_False:
  "hpscFromEthernet frame len now s = Some (False, s') \<Longrightarrow> same_control s s'"
  by (auto simp: hpscFromEthernet_def bind_Some_iff Let_def dest: acceptHpsc_False split: if_splits)

lemma hpscFromIp_True:
  assumes "hpscFromIp frame len now s = Some (True, s')"
  shows "\<exists>off. off = unat (frame ! 0 AND 0x0F) * 4 + 8 \<and> drop_bit 4 (frame ! 0) = 4 \<and>
    delivers frame off now s s'"
proof -
  from assms have "drop_bit 4 (frame ! 0) = 4"
    "FrontSteeringNode_acceptHpscPacket (Some (drop (unat (frame ! 0 AND 0x0F) * 4 + 8) frame)) 40 now s = Some (True, s')"
    by (auto simp: hpscFromIp_def bind_Some_iff rd_eq_Some_iff HPSC_PACKET_SIZE_def add.commute Let_def split: if_splits)
  then show ?thesis using accept_delivers by blast
qed

lemma hpscFromIp_False:
  "hpscFromIp frame len now s = Some (False, s') \<Longrightarrow> same_control s s'"
  by (auto simp: hpscFromIp_def bind_Some_iff Let_def dest: acceptHpsc_False split: if_splits)

lemma hpscScan_Cons:
  assumes "hpscScan frame (off # offs) now s = Some (b, s')"
  obtains "b" "delivers frame off now s s'"
  | t where "same_control s t" "hpscScan frame offs now t = Some (b, s')"
proof -
  from assms obtain m where m: "has_magic (drop off frame) = Some m" by (auto simp: bind_Some_iff)
  show thesis
  proof (cases m)
    case False
    with assms m that(2) [of s] show thesis by simp
  next
    case True
    with assms m obtain ok t where a:
      "FrontSteeringNode_acceptHpscPacket (Some (drop off frame)) HPSC_PACKET_SIZE now s = Some (ok, t)"
      and r: "(if ok then Some (True, t) else hpscScan frame offs now t) = Some (b, s')"
      by (auto simp: bind_Some_iff split: if_splits)
    show thesis
    proof (cases ok)
      case True
      with a r accept_delivers that(1) show thesis by auto
    next
      case False
      with a r acceptHpsc_False that(2) show thesis by fastforce
    qed
  qed
qed

lemma hpscScan_True:
  "hpscScan frame offs now s = Some (True, s') \<Longrightarrow> \<exists>off \<in> set offs. delivers frame off now s s'"
proof (induction offs arbitrary: s)
  case (Cons off offs)
  from Cons.prems show ?case
  proof (cases rule: hpscScan_Cons)
    case (2 t)
    with Cons.IH [of t] show ?thesis using delivers_trans by fastforce
  qed simp
qed simp

lemma hpscScan_False:
  "hpscScan frame offs now s = Some (False, s') \<Longrightarrow> same_control s s'"
proof (induction offs arbitrary: s)
  case (Cons off offs)
  from Cons.prems show ?case
  proof (cases rule: hpscScan_Cons)
    case (2 t)
    with Cons.IH [of t] show ?thesis using same_control_trans by blast
  qed simp
qed simp

section \<open>Every read of the frame functions\<close>

lemma hpscScan_total:
  "(\<And>off. off \<in> set offs \<Longrightarrow> off + 40 \<le> length frame) \<Longrightarrow> \<exists>b s'. hpscScan frame offs now s = Some (b, s')"
proof (induction offs arbitrary: s)
  case (Cons off offs)
  then have l: "40 \<le> length (drop off frame)" by fastforce
  then obtain m where m: "has_magic (drop off frame) = Some m" using has_magic_len by fastforce
  obtain b t where a: "FrontSteeringNode_acceptHpscPacket (Some (drop off frame)) HPSC_PACKET_SIZE now s = Some (b, t)"
    using acceptHpsc_total [OF l] by blast
  from Cons have "\<exists>b s'. hpscScan frame offs now t = Some (b, s')" by simp
  then obtain b' s' where "hpscScan frame offs now t = Some (b', s')" by blast
  moreover have "\<exists>b' s'. hpscScan frame offs now s = Some (b', s')" using Cons by simp
  then obtain b1 s1 where "hpscScan frame offs now s = Some (b1, s1)" by blast
  ultimately have "hpscScan frame (off # offs) now s =
      Some (if m then if b then (True, t) else (b', s') else (b1, s1))" using m a by simp
  then show ?case by (metis surj_pair)
qed (simp, blast)

lemma ihl_le: "unat (b AND 0x0F :: u8) * 4 \<le> 60"
proof -
  have "b AND 0x0F \<le> 0x0F" by (rule word_and_le1)
  then show ?thesis unfolding word_le_nat_alt by simp
qed

lemma hpscFromEthernet_total:
  assumes "82 \<le> unat len" "unat len \<le> length frame"
  shows "\<exists>b s'. hpscFromEthernet frame len now s = Some (b, s')"
proof -
  let ?b0 = "frame ! 14" let ?ihl = "unat (?b0 AND 0x0F) * 4"
  obtain et where et: "readU16Be (drop 12 frame) = Some et" using readU16Be_drop [of 12 frame] assms by auto
  obtain tot where tot: "readU16Be (drop 16 frame) = Some tot" using readU16Be_drop [of 16 frame] assms by auto
  obtain dp where dp: "readU16Be (drop (?ihl + 16) frame) = Some dp"
    using readU16Be_drop [of "?ihl + 16" frame] ihl_le [of ?b0] assms by auto
  obtain ul where ul: "readU16Be (drop (?ihl + 18) frame) = Some ul"
    using readU16Be_drop [of "?ihl + 18" frame] ihl_le [of ?b0] assms by auto
  have acc: "\<exists>b s'. FrontSteeringNode_acceptHpscPacket (Some (drop (?ihl + 22) frame)) HPSC_PACKET_SIZE now s = Some (b, s')"
    if "?ihl + 48 \<le> unat tot" "14 + unat tot \<le> unat len"
    using that assms by (intro acceptHpsc_total) simp
  show ?thesis
    using assms et tot dp ul acc
    by (auto simp: hpscFromEthernet_def Let_def add.commute)
qed

lemma hpscFromIp_total:
  assumes "108 \<le> length frame"
  shows "\<exists>b s'. hpscFromIp frame len now s = Some (b, s')"
proof -
  let ?b0 = "frame ! 0" let ?ihl = "unat (?b0 AND 0x0F) * 4"
  obtain dp where dp: "readU16Be (drop (?ihl + 2) frame) = Some dp"
    using readU16Be_drop [of "?ihl + 2" frame] ihl_le [of ?b0] assms by auto
  obtain ul where ul: "readU16Be (drop (?ihl + 4) frame) = Some ul"
    using readU16Be_drop [of "?ihl + 4" frame] ihl_le [of ?b0] assms by auto
  have acc: "\<exists>b s'. FrontSteeringNode_acceptHpscPacket (Some (drop (?ihl + 8) frame)) HPSC_PACKET_SIZE now s = Some (b, s')"
    using ihl_le [of ?b0] assms by (intro acceptHpsc_total) simp
  have "0 < length frame" "9 < length frame" using assms by linarith+
  then have "rd frame 0 = Some ?b0" "rd frame 9 = Some (frame ! 9)" by (auto simp: rd_def)
  with dp ul acc show ?thesis
    by (auto simp: hpscFromIp_def Let_def add.commute simp del: rd_Some)
qed

end
