(* ===== verification/FrontSteering_Reach.thy ===== *)
theory FrontSteering_Reach
  imports FrontPacket_Facts
begin

text \<open>
  The states the steering node reaches, the readings of its millisecond clock, one period
  of servo output, and a concrete command with its CRC for the examples.
\<close>

section \<open>Every reachable state\<close>

text \<open>The node is initialised once; afterwards frames arrive, single packets are handed
  over and periods run, in any order and with any clock readings.\<close>

inductive steer_reach :: "hw \<Rightarrow> FrontSteeringNode_State \<Rightarrow> bool" for E where
  init: "FrontSteeringNode_init E w = Some (s, w') \<Longrightarrow> steer_reach E s"
| packet: "steer_reach E s \<Longrightarrow> FrontSteeringNode_acceptHpscPacket p len now s = Some (b, s') \<Longrightarrow> steer_reach E s'"
| frame: "steer_reach E s \<Longrightarrow> FrontSteeringNode_acceptEthernetFrame p len now s = Some (b, s') \<Longrightarrow> steer_reach E s'"
| run: "steer_reach E s \<Longrightarrow> FrontSteeringNode_runOnce E s w = Some (s', w') \<Longrightarrow> steer_reach E s'"

lemma steer_inv_same_control: "same_control s s' \<Longrightarrow> steer_inv s \<Longrightarrow> steer_inv s'"
  unfolding same_control_def steer_inv_def
  by (metis FrontSteeringNode_State.ext_inject FrontSteeringNode_State.surjective FrontSteeringNode_State.update_convs(12))

lemma steer_inv_delivers: "delivers frame off now s s' \<Longrightarrow> steer_inv s \<Longrightarrow> steer_inv s'"
  unfolding delivers_def packet_at_def
  by (meson hpsc_parse_wf steer_inv_process steer_inv_same_control)

lemma acceptFrame_cases:
  assumes "FrontSteeringNode_acceptEthernetFrame (Some frame) len now s = Some (b, s')"
  obtains "\<not> b" "same_control s s'"
  | off where "b" "delivers frame off now s s'"
      "off + 40 \<le> unat len \<or> (68 \<le> unat len \<and> drop_bit 4 (frame ! 0) = 4 \<and> off = unat (frame ! 0 AND 0x0F) * 4 + 8)"
proof (cases "len < HPSC_PACKET_SIZE")
  case True
  with assms that(1) show thesis by (auto simp: FrontSteeringNode_acceptEthernetFrame_def)
next
  case False
  then have len: "40 \<le> unat len" by (simp add: HPSC_PACKET_SIZE_def word_less_nat_alt)
  then have sub: "unat (len - HPSC_PACKET_SIZE) = unat len - 40"
    by (simp add: HPSC_PACKET_SIZE_def unat_sub word_le_nat_alt)
  from assms False obtain ok1 s1 ok2 s2 where e:
    "(if 82 \<le> unat len then hpscFromEthernet frame len now s else Some (False, s)) = Some (ok1, s1)"
    and i: "\<not> ok1 \<Longrightarrow> (if 82 \<le> unat len then hpscFromIp frame len now s1 else Some (False, s1)) = Some (ok2, s2)"
    and r: "if ok1 then b \<and> s' = s1 else if ok2 then b \<and> s' = s2
      else hpscScan frame [0 ..< unat (len - HPSC_PACKET_SIZE) + 1] now s2 = Some (b, s')"
    by (fastforce simp: FrontSteeringNode_acceptEthernetFrame_def bind_Some_iff split: if_splits prod.splits)
  show thesis
  proof (cases ok1)
    case True
    with e r obtain off where "off + 40 \<le> unat len" "delivers frame off now s s'" and b
      by (auto split: if_splits dest!: hpscFromEthernet_True)
    with that(2) show thesis by blast
  next
    case no1: False
    with e have sc1: "same_control s s1" by (auto split: if_splits dest: hpscFromEthernet_False)
    note i = i [OF no1]
    show thesis
    proof (cases ok2)
      case True
      with i no1 r obtain off where "off = unat (frame ! 0 AND 0x0F) * 4 + 8" "drop_bit 4 (frame ! 0) = 4"
        "delivers frame off now s1 s'" "68 \<le> unat len" and b
        by (auto split: if_splits dest!: hpscFromIp_True)
      with that(2) delivers_trans [OF sc1] show thesis by blast
    next
      case no2: False
      with i have "same_control s1 s2" by (auto split: if_splits dest: hpscFromIp_False)
      with sc1 have sc2: "same_control s s2" by (rule same_control_trans)
      from no1 no2 r have sc: "hpscScan frame [0 ..< unat len - 40 + 1] now s2 = Some (b, s')"
        using sub by simp
      show thesis
      proof (cases b)
        case True
        with sc have "hpscScan frame [0 ..< unat len - 40 + 1] now s2 = Some (True, s')" by simp
        from hpscScan_True [OF this] obtain off where "off < unat len - 40 + 1" "delivers frame off now s2 s'"
          by (metis atLeastLessThan_iff set_upt)
        then have "off \<le> unat len - 40" "delivers frame off now s2 s'" by simp_all
        with that(2) delivers_trans [OF sc2] True len show thesis by (metis add.commute le_diff_conv2)
      next
        case False
        with sc have "hpscScan frame [0 ..< unat len - 40 + 1] now s2 = Some (False, s')" by simp
        from same_control_trans [OF sc2 hpscScan_False [OF this]] that(1) False show thesis by blast
      qed
    qed
  qed
qed

lemma steer_inv_frame:
  assumes "FrontSteeringNode_acceptEthernetFrame ptr len now s = Some (b, s')" "steer_inv s"
  shows "steer_inv s'"
proof (cases ptr)
  case None
  with assms show ?thesis by (simp add: FrontSteeringNode_acceptEthernetFrame_def)
next
  case (Some frame)
  with assms(1) have "FrontSteeringNode_acceptEthernetFrame (Some frame) len now s = Some (b, s')" by simp
  then show ?thesis using assms(2)
    by (cases rule: acceptFrame_cases) (auto intro: steer_inv_same_control steer_inv_delivers)
qed

lemma init_Some:
  assumes "FrontSteeringNode_init E w = Some (s, w')"
  obtains ms where "s = \<lparr>initialized = False, linkValid = False, commandValid = False, emergencyCenter = False,
       targetAngleRad = Fin 0, appliedAngleRad = Fin 0, maxRateRadS = Fin 1, lastSequence = 0,
       lastPacketMs = 0, lastApplyMs = ms, acceptedPackets = 0, rejectedPackets = 0\<rparr>"
  using assms by (auto simp: FrontSteeringNode_init_def bind_Some_iff DEFAULT_RATE_val Let_def)

lemma steer_inv_init: "FrontSteeringNode_init E w = Some (s, w') \<Longrightarrow> steer_inv s"
  using rate_ok_default by (elim init_Some) (simp add: steer_inv_def DEFAULT_RATE_val)

lemma steer_inv_run: "FrontSteeringNode_runOnce E s w = Some (s', w') \<Longrightarrow> steer_inv s \<Longrightarrow> steer_inv s'"
  by (auto simp: FrontSteeringNode_runOnce_def bind_Some_iff steer_inv_step Let_def)

lemma steer_reach_inv: "steer_reach E s \<Longrightarrow> steer_inv s"
  by (induction rule: steer_reach.induct)
    (blast intro: steer_inv_init steer_inv_acceptHpsc steer_inv_frame steer_inv_run)+

section \<open>The millisecond clock\<close>

definition ms_of :: "real \<Rightarrow> u32 \<Rightarrow> nat" where
  "ms_of f t = nat \<lfloor>rnd32 (rnd32 (rnd32 (real (unat t)) * 1000) / f)\<rfloor>"

lemma ticks_ms_bounds:
  "0 \<le> rnd32 (rnd32 (real (unat (t :: u32))) * 1000)" "rnd32 (rnd32 (real (unat t)) * 1000) \<le> 4294967296000"
proof -
  have r: "representable (2 ^ 32)" "representable 4294967296000" unfolding representable_def
    by (rule exI [of _ 1], rule exI [of _ 32], simp) (rule exI [of _ 125], rule exI [of _ 35], simp)
  have "real (unat t) \<le> real (2 ^ 32)"
    using u32_less_2p32 [of t] unfolding of_nat_le_iff by simp
  then have "rnd32 (real (unat t)) \<le> 2 ^ 32" using r by (intro r32.rnd_le) simp_all
  with r show "rnd32 (rnd32 (real (unat t)) * 1000) \<le> 4294967296000" by (intro r32.rnd_le) simp_all
  show "0 \<le> rnd32 (rnd32 (real (unat t)) * 1000)" by (simp add: rnd32_nonneg)
qed

lemma nowMs_val:
  assumes "stm_freq E = Fin f" "1000000 \<le> f"
  shows "front_nowMs E w = Some (of_nat (ms_of f (clock E w)), ReadClock # w)" "ms_of f t < 2 ^ 32"
proof -
  define a where "a t = rnd32 (rnd32 (real (unat (t :: u32))) * 1000)" for t
  have r: "representable (2 ^ 43)" "representable (2 ^ 23)" unfolding representable_def
    by (rule exI [of _ 1], rule exI [of _ 43], simp) (rule exI [of _ 1], rule exI [of _ 23], simp)
  have a: "0 \<le> a t" "a t \<le> 4294967296000" for t using ticks_ms_bounds unfolding a_def by blast+
  then have q: "0 \<le> a t / f" "a t / f \<le> 2 ^ 23" for t
  proof -
    have "a t \<le> 8388608 * f" using a(2) [of t] assms(2) by linarith
    then show "0 \<le> a t / f" "a t / f \<le> 2 ^ 23" using a(1) [of t] assms(2) by (auto simp: divide_le_eq)
  qed
  have q': "0 \<le> rnd32 (a t / f)" "rnd32 (a t / f) \<le> 2 ^ 23" for t
    using q [of t] r by (auto intro: r32.rnd_le simp: rnd32_nonneg)
  show "ms_of f t < 2 ^ 32"
    using q' [of t] by (simp add: ms_of_def a_def [symmetric] floor_less_iff nat_less_iff)
  let ?t = "clock E w"
  define x where "x = fmul (u32_to_f32 ?t) (flit 1000)"
  have xe: "x = mk32 (is_neg (u32_to_f32 ?t) \<noteq> is_neg (Fin 1000)) (rnd32 (real (unat ?t)) * 1000)"
    unfolding x_def flit_1000 by (simp add: fmul_fin u32_to_f32_fin)
  have "\<bar>rnd32 (rnd32 (real (unat ?t)) * 1000)\<bar> < 2 ^ 128" using a [of ?t] by (simp add: a_def abs_less_iff)
  note x = mk32_fin [OF this, of "is_neg (u32_to_f32 ?t) \<noteq> is_neg (Fin 1000)", folded xe]
  define y where "y = fdiv x (Fin f)"
  have ye: "y = mk32 (is_neg x \<noteq> is_neg (Fin f)) (a ?t / f)"
    unfolding y_def using x assms(2) by (simp add: fdiv_fin a_def)
  have "\<bar>rnd32 (a ?t / f)\<bar> < 2 ^ 128" using q' [of ?t] by (simp add: abs_less_iff)
  note y = mk32_fin [OF this, of "is_neg x \<noteq> is_neg (Fin f)", folded ye]
  have "f32_to_u32 y = Some (word_of_int \<lfloor>rnd32 (a ?t / f)\<rfloor>)"
    using y q' [of ?t] by (subst f32_to_u32_in_range) simp_all
  also have "(word_of_int \<lfloor>rnd32 (a ?t / f)\<rfloor> :: u32) = of_nat (ms_of f ?t)"
    using q' [of ?t] by (simp add: ms_of_def a_def)
  finally show "front_nowMs E w = Some (of_nat (ms_of f ?t), ReadClock # w)"
    by (simp add: front_nowMs_def stm_now_def assms(1) x_def y_def)
qed

lemma ms_of_100MHz: "ms_of 100000000 t \<le> 42950"
proof -
  have "rnd32 (rnd32 (rnd32 (real (unat t)) * 1000) / 100000000) \<le> 42950"
    using ticks_ms_bounds [of t] by (intro r32.rnd_le) simp_all
  then show ?thesis by (simp add: ms_of_def nat_le_iff floor_le_iff)
qed

section \<open>One period of servo output\<close>

lemma sendServoPulse_val:
  assumes "1150 \<le> n" "n \<le> 2000"
  shows "sendServoPulseUs E (of_nat n) w = Some (front_delayUs E (of_nat (20000 - n))
    (SetPin (2, 3) False # front_delayUs E (of_nat n) (SetPin (2, 3) True # w)))"
proof -
  have u: "unat (of_nat n :: u32) = n" using assms by (simp add: unat_of_nat take_bit_nat_eq_self)
  have "clampFloat (u32_to_f32 (of_nat n)) (u32_to_f32 1150) (u32_to_f32 2000) = Fin (real n)"
    using assms by (simp add: u32_to_f32_small u clampFloat_def flt_fin)
  moreover have "(20000 :: u32) - of_nat n = of_nat (20000 - n)" using assms by (simp add: of_nat_diff)
  ultimately show ?thesis
    using assms by (simp add: sendServoPulseUs_def consts_simps f32_to_u32_Fin_nat FRONT_STEERING_SERVO_PIN_def)
qed

definition servo_period :: "hw \<Rightarrow> nat \<Rightarrow> trace \<Rightarrow> trace" where
  "servo_period E n w = front_delayUs E (of_nat (20000 - n))
    (SetPin (2, 3) False # front_delayUs E (of_nat n) (SetPin (2, 3) True # w))"

lemma applyServoAngle_val:
  assumes "a \<noteq> NaN"
  shows "applyServoAngle E a w = Some (servo_period E (pulse_of (fval (norm_of a))) w)"
  using norm_of_props [OF assms] pulse_of_bounds [of "fval (norm_of a)"]
  by (simp add: applyServoAngle_def angleToPulseUs_val assms sendServoPulse_val servo_period_def)

lemma flit_m1: "flit (- 1) = Fin (- 1)"
  using representable_int [of "- 1"] by (intro flit_representable) simp_all

lemma norm_of_0: "norm_of (Fin 0) = Fin 0"
  by (simp add: norm_of_def fdiv_def MAX_ABS_RAD_val mk32_def clampFloat_def flt_def flit_m1)
lemma pulse_of_0: "pulse_of 0 = 1650"
  proof -
  have "rnd32 (1 / 2) = 1 / 2" using wf_half(1) by (simp add: wf32_def rnd32_representable)
  then show ?thesis by (simp add: pulse_of_def span_pulse_def)
qed

lemma norm_of_mono:
  assumes "is_fin a" "is_fin b" "fval a \<le> fval b" "\<bar>fval a\<bar> \<le> 1000" "\<bar>fval b\<bar> \<le> 1000"
  shows "fval (norm_of a) \<le> fval (norm_of b)"
proof -
  have n: "fval (norm_of x) = max (- 1) (min 1 (rnd32 (fval x * 2)))" if "is_fin x" "\<bar>fval x\<bar> \<le> 1000" for x
  proof -
    have "fdiv x (Fin (1 / 2)) = mk32 (is_neg x \<noteq> is_neg (Fin (1 / 2))) (fval x * 2)"
      using that by (subst fdiv_fin) simp_all
    moreover have "\<bar>fval x * 2\<bar> \<le> 2000" using that by simp
    note mk32_bounded [OF this representable_numeral]
    ultimately show ?thesis
      by (simp add: norm_of_def MAX_ABS_RAD_val flit_m1 clampFloat_fin_val)
  qed
  have "rnd32 (fval a * 2) \<le> rnd32 (fval b * 2)" using assms(3) by (intro rnd32_mono) simp
  with n [of a] n [of b] assms show ?thesis by auto
qed


lemma hold_pulses_val:
  "appliedAngleRad s \<noteq> NaN \<Longrightarrow>
    hold_pulses E n s w = Some ((servo_period E (pulse_of (fval (norm_of (appliedAngleRad s)))) ^^ n) w)"
  by (induction n arbitrary: w) (simp_all add: applyServoAngle_val funpow_swap1)

lemma init_val:
  assumes "stm_freq E = Fin f" "1000000 \<le> f"
  shows "FrontSteeringNode_init E w = Some (\<lparr>initialized = False, linkValid = False, commandValid = False, emergencyCenter = False,
       targetAngleRad = Fin 0, appliedAngleRad = Fin 0, maxRateRadS = Fin 1, lastSequence = 0,
       lastPacketMs = 0, lastApplyMs = of_nat (ms_of f (clock E w)), acceptedPackets = 0, rejectedPackets = 0\<rparr>,
     (servo_period E 1650 ^^ 25) (SetPin (2, 3) False # SetMode (2, 3) OutPushPull # ReadClock # w))"
  unfolding FrontSteeringNode_init_def FrontSteeringNode_holdCurrentForMs_def
  by (simp add: nowMs_val assms Let_def hold_pulses_val norm_of_0 pulse_of_0 DEFAULT_RATE_val
    consts_simps initServoPwm_def FRONT_STEERING_SERVO_PIN_def)

section \<open>A concrete command\<close>

text \<open>Sequence number 7, a quarter of a radian, one radian per second; the last four
  bytes are the CRC.\<close>

definition demo_hpsc :: "u8 list" where
  "demo_hpsc = [72, 80, 83, 67, 1, 1, 5, 32, 7, 0, 0, 0, 0, 0, 0, 0, 0, 0, 0, 0, 0, 0, 128, 62,
     0, 0, 128, 63, 0, 0, 0, 0, 0, 0, 0, 0, 49, 143, 244, 95]"

definition demo_fields :: hpsc_fields where
  "demo_fields = \<lparr>version = 1, controlMode = 1, flags = 5, headerSize = 32, seqNo = 7,
     angle = Fin (1 / 4), maxRate = Fin 1, reserved16 = 0, reserved32 = 0,
     receivedCrc = 1609862961, calculatedCrc = 1609862961\<rparr>"

lemma crc_byte_unroll: "crc_byte c b =
    crc_bit (crc_bit (crc_bit (crc_bit (crc_bit (crc_bit (crc_bit (crc_bit (c XOR ucast b))))))))"
  by (simp add: crc_byte_def eval_nat_numeral)

lemma demo_crc: "crc32Ieee demo_hpsc 36 = Some 1609862961"
  by (simp add: demo_hpsc_def crc32Ieee_def rd_slice_def crc_byte_unroll crc_bit_def)

lemma demo_floats: "f32_of_bits 0x3E800000 = Fin (1 / 4)" "f32_of_bits 0x3F800000 = Fin 1"
  by (simp_all add: f32_of_bits_def)

lemma demo_parse: "hpsc_parse demo_hpsc = Some demo_fields"
  unfolding hpsc_parse_def demo_crc
  by (simp add: demo_hpsc_def demo_fields_def readFloat32Le_def demo_floats)

lemma demo_len [simp]: "length demo_hpsc = 40"
  by (simp add: demo_hpsc_def)

lemma demo_magic: "has_magic demo_hpsc = Some True"
  by (simp add: demo_hpsc_def has_magic_def)

definition demo_front :: FrontSteeringNode_State where
  "demo_front = \<lparr>initialized = False, linkValid = False, commandValid = False, emergencyCenter = False,
       targetAngleRad = Fin 0, appliedAngleRad = Fin 0, maxRateRadS = Fin 1, lastSequence = 0,
       lastPacketMs = 0, lastApplyMs = 0, acceptedPackets = 0, rejectedPackets = 0\<rparr>"

lemma demo_front_reach: "steer_reach (demo_hw pins) demo_front"
proof -
  have f: "stm_freq (demo_hw pins) = Fin 100000000" "ms_of 100000000 0 = 0"
    by (simp_all add: demo_hw_def ms_of_def)
  show ?thesis
    by (rule steer_reach.init, subst init_val [OF f(1), of "[]"])
      (simp_all add: demo_front_def demo_clock ms_of_def)
qed

lemma demo_acceptable: "hpsc_acceptable demo_fields demo_front"
  by (simp add: hpsc_acceptable_def hpsc_wellformed_def hpsc_command_valid_def demo_fields_def demo_front_def
    consts_simps MAX_ABS_RAD_val isFiniteFloat_def absFloat_def flt_fin fle_fin feq_fin flit_def f32_eval)

definition demo_driving :: FrontSteeringNode_State where
  "demo_driving = \<lparr>initialized = True, linkValid = True, commandValid = True, emergencyCenter = False,
       targetAngleRad = Fin (1 / 4), appliedAngleRad = Fin 0, maxRateRadS = Fin 1, lastSequence = 7,
       lastPacketMs = 10, lastApplyMs = 0, acceptedPackets = 1, rejectedPackets = 0\<rparr>"

lemma demo_process: "hpsc_process demo_fields 10 demo_front = (True, demo_driving)"
  using demo_acceptable flit_min_rate
  by (auto simp add: hpsc_process_def hpsc_acceptable_def demo_fields_def demo_front_def consts_simps
    demo_driving_def acceptTarget_def Let_def clampFloat_def MAX_ABS_RAD_val flit_min_rate flit_max_rate flt_fin)

lemma demo_accept: "FrontSteeringNode_acceptHpscPacket (Some demo_hpsc) 40 10 demo_front = Some (True, demo_driving)"
  by (simp add: FrontSteeringNode_acceptHpscPacket_def demo_magic demo_parse demo_process HPSC_PACKET_SIZE_def)

lemma demo_driving_reach: "steer_reach (demo_hw pins) demo_driving"
  by (rule steer_reach.packet [OF demo_front_reach demo_accept])

end
