(* ===== verification/FrontSteering_Props.thy ===== *)
theory FrontSteering_Props
  imports FrontSteering_Reach
begin

text \<open>
  The properties of the steering node: what holds in every state it reaches, what one
  period does, what the servo receives, and which packets are obeyed.
\<close>

section \<open>State and output\<close>

text \<open>
  C4: In every state the node can reach, by any sequence of frames, packets and periods and
  with any clock, the target and the applied angle are finite and inside the mechanical
  range of half a radian, the rate lies between its two limits, and a command counts as
  valid only while the link is up and no emergency is pending.
\<close>
theorem steering_invariant:
  assumes "steer_reach E s"
  shows "is_fin (targetAngleRad s) \<and> \<bar>fval (targetAngleRad s)\<bar> \<le> 1 / 2 \<and>
    is_fin (appliedAngleRad s) \<and> \<bar>fval (appliedAngleRad s)\<bar> \<le> 1 / 2 \<and>
    is_fin (maxRateRadS s) \<and> 13421773 / 268435456 \<le> fval (maxRateRadS s) \<and> fval (maxRateRadS s) \<le> 10 \<and>
    (commandValid s \<longrightarrow> linkValid s \<and> initialized s \<and> \<not> emergencyCenter s) \<and>
    (\<not> commandValid s \<longrightarrow> targetAngleRad s = Fin 0)"
  using steer_reach_inv [OF assms] by (simp add: steer_inv_def angle_ok_def rate_ok_def)

theorem steering_invariant_witness:
  "is_fin (targetAngleRad demo_driving) \<and> \<bar>fval (targetAngleRad demo_driving)\<bar> \<le> 1 / 2 \<and> commandValid demo_driving"
  using steering_invariant [OF demo_driving_reach [of "\<lambda>_ _. True"]] by (simp add: demo_driving_def)

lemma runOnce_val:
  fixes w
  assumes "steer_inv s" "stm_freq E = Fin f" "1000000 \<le> f"
  defines "now \<equiv> of_nat (ms_of f (clock E w))"
  defines "n \<equiv> pulse_of (fval (norm_of (appliedAngleRad (steer_step now s))))"
  shows "FrontSteeringNode_runOnce E s w = Some (steer_step now s, servo_period E n (ReadClock # w))"
    "angleToPulseUs (appliedAngleRad (steer_step now s)) = Some (of_nat n)" "1150 \<le> n" "n \<le> 2000"
proof -
  have "steer_inv (steer_step now s)" using assms(1) by (rule steer_inv_step)
  then have a: "appliedAngleRad (steer_step now s) \<noteq> NaN" by (auto simp: steer_inv_def angle_ok_def)
  show "FrontSteeringNode_runOnce E s w = Some (steer_step now s, servo_period E n (ReadClock # w))"
    using nowMs_val(1) [OF assms(2,3), of w] applyServoAngle_val [OF a, of E "ReadClock # w"]
    by (simp add: FrontSteeringNode_runOnce_def now_def n_def Let_def)
  show "angleToPulseUs (appliedAngleRad (steer_step now s)) = Some (of_nat n)"
    using angleToPulseUs_val [OF a] by (simp add: n_def)
  show "1150 \<le> n" "n \<le> 2000" using norm_of_props [OF a] pulse_of_bounds by (simp_all add: n_def)
qed

text \<open>
  A period never fails in a reachable state: whatever the timer says (its frequency is at
  least 1 MHz), the node updates its state and gives the servo one pulse, high for p and low
  for 20000 - p microseconds, where p is the pulse of the applied angle and lies between 1150
  and 2000 microseconds.
\<close>
theorem steering_period_total:
  assumes "steer_reach E s" "stm_freq E = Fin f" "1000000 \<le> f"
  shows "\<exists>nowMs p. FrontSteeringNode_runOnce E s w = Some (steer_step nowMs s,
      front_delayUs E (20000 - p) (SetPin FRONT_STEERING_SERVO_PIN False #
        front_delayUs E p (SetPin FRONT_STEERING_SERVO_PIN True # ReadClock # w))) \<and>
    angleToPulseUs (appliedAngleRad (steer_step nowMs s)) = Some p \<and> 1150 \<le> p \<and> p \<le> 2000"
proof -
  define now where "now = (of_nat (ms_of f (clock E w)) :: u32)"
  define n where "n = pulse_of (fval (norm_of (appliedAngleRad (steer_step now s))))"
  from runOnce_val [OF steer_reach_inv [OF assms(1)] assms(2,3), of w]
  have r: "FrontSteeringNode_runOnce E s w = Some (steer_step now s, servo_period E n (ReadClock # w))"
    and p: "angleToPulseUs (appliedAngleRad (steer_step now s)) = Some (of_nat n)" "1150 \<le> n" "n \<le> 2000"
    by (simp_all add: now_def n_def)
  have u: "unat (of_nat n :: u32) = n" using p by (simp add: unat_of_nat take_bit_nat_eq_self)
  have s: "(of_nat (20000 - n) :: u32) = 20000 - of_nat n" using p by (simp add: of_nat_diff)
  with r p show ?thesis
    by (intro exI [of _ now] exI [of _ "of_nat n"])
      (simp add: servo_period_def FRONT_STEERING_SERVO_PIN_def word_le_nat_alt u)
qed

theorem steering_period_total_witness:
  "\<exists>nowMs p. FrontSteeringNode_runOnce (demo_hw (\<lambda>_ _. True)) demo_driving [] = Some (steer_step nowMs demo_driving,
      front_delayUs (demo_hw (\<lambda>_ _. True)) (20000 - p) (SetPin FRONT_STEERING_SERVO_PIN False #
        front_delayUs (demo_hw (\<lambda>_ _. True)) p (SetPin FRONT_STEERING_SERVO_PIN True # ReadClock # []))) \<and>
    angleToPulseUs (appliedAngleRad (steer_step nowMs demo_driving)) = Some p \<and> 1150 \<le> p \<and> p \<le> 2000"
  by (rule steering_period_total [OF demo_driving_reach, of _ 100000000]) (simp_all add: demo_hw_def)

text \<open>
  The pulse is a decreasing function of the angle over the whole mechanical range, from
  2000 microseconds at the right stop to 1150 at the left one, and the conversion is defined
  on all of it.
\<close>
theorem steering_pulse_antitone:
  assumes "is_fin a" "is_fin b" "\<bar>fval a\<bar> \<le> 1 / 2" "\<bar>fval b\<bar> \<le> 1 / 2" "fval a \<le> fval b"
  shows "\<exists>p q. angleToPulseUs a = Some p \<and> angleToPulseUs b = Some q \<and> 1150 \<le> q \<and> q \<le> p \<and> p \<le> 2000"
proof -
  have nn: "a \<noteq> NaN" "b \<noteq> NaN" using assms by auto
  define m n where "m = pulse_of (fval (norm_of a))" and "n = pulse_of (fval (norm_of b))"
  have le: "n \<le> m" "1150 \<le> n" "m \<le> 2000"
    using norm_of_props [OF nn(1)] norm_of_props [OF nn(2)] norm_of_mono [of a b] assms
    by (simp_all add: m_def n_def pulse_of_bounds pulse_of_antimono)
  then have "unat (of_nat n :: u32) = n" "unat (of_nat m :: u32) = m"
    by (simp_all add: unat_of_nat take_bit_nat_eq_self)
  with le show ?thesis
    by (intro exI [of _ "of_nat m"] exI [of _ "of_nat n"])
      (simp add: angleToPulseUs_val nn m_def [symmetric] n_def [symmetric] word_le_nat_alt)
qed

theorem steering_pulse_antitone_witness:
  "\<exists>p q. angleToPulseUs (Fin (- (1 / 4))) = Some p \<and> angleToPulseUs (Fin (1 / 4)) = Some q \<and>
     1150 \<le> q \<and> q \<le> p \<and> p \<le> 2000"
  by (rule steering_pulse_antitone) simp_all

text \<open>
  C6: The watchdog. In a period that reads the time \<open>nowMs\<close>, a node that has never had a command, or whose last one
  is more than 200 ms old by the wrapping clock, declares the link down, drops the command, raises the
  emergency flag and aims for the centre; otherwise it keeps the command it has.
\<close>
theorem steering_watchdog:
  assumes "FrontSteeringNode_runOnce E s w = Some (s', w')" "front_nowMs E w = Some (nowMs, w1)"
  shows "if \<not> initialized s \<or> 200 < nowMs - lastPacketMs s
    then \<not> linkValid s' \<and> \<not> commandValid s' \<and> emergencyCenter s' \<and> targetAngleRad s' = Fin 0
    else linkValid s' = linkValid s \<and> commandValid s' = commandValid s \<and>
      emergencyCenter s' = emergencyCenter s \<and> targetAngleRad s' = targetAngleRad s"
  using assms
  by (auto simp: FrontSteeringNode_runOnce_def steer_step_def watchdog_def Let_def FRONT_STEERING_WATCHDOG_MS_def bind_Some_iff)

theorem steering_watchdog_witness:
  "\<exists>s' w'. FrontSteeringNode_runOnce (demo_hw (\<lambda>_ _. True)) demo_front [] = Some (s', w') \<and>
     emergencyCenter s' \<and> \<not> linkValid s'"
proof -
  let ?E = "demo_hw (\<lambda>_ _. True)"
  have f: "stm_freq ?E = Fin 100000000" "(1000000 :: real) \<le> 100000000" by (simp_all add: demo_hw_def)
  note r = runOnce_val(1) [OF steer_reach_inv [OF demo_front_reach] f, of "[]"]
  from steering_watchdog [OF r nowMs_val(1) [OF f]] r show ?thesis by (auto simp: demo_front_def)
qed

section \<open>Rate and convergence\<close>

lemma rnd32_up: "0 \<le> x \<Longrightarrow> rnd32 x \<le> x + x / 2 ^ 24 + 1 / 2 ^ 150"
proof -
  assume "0 \<le> x"
  then have "max (\<bar>x\<bar> / 2 ^ 24) (1 / 2 ^ 150) \<le> x / 2 ^ 24 + 1 / 2 ^ 150" by simp
  with rnd32_error [of x] show ?thesis by linarith
qed

lemma rounding_slack:
  fixes X Y :: real
  assumes "Y \<le> X * (1 + 5 / 2 ^ 25) + 30 / 2 ^ 150" "0 \<le> X"
  shows "Y + Y / 2 ^ 24 + 1 / 2 ^ 150 \<le> X * (1 + 1 / 2 ^ 22) + 1 / 2 ^ 100"
  using assms by (simp add: field_simps)

lemma max_step_le:
  assumes "rate_ok (maxRateRadS s)"
  shows "fval (max_step now s) \<le>
    max (1 / 1000) (fval (maxRateRadS s) * real (unat (now - lastApplyMs s)) / 1000) * (1 + 1 / 2 ^ 22) + 1 / 2 ^ 100"
proof -
  define n where "n = real (unat (now - lastApplyMs s))"
  define r where "r = fval (maxRateRadS s)"
  define d where "d = fdiv (u32_to_f32 (now - lastApplyMs s)) (flit 1000)"
  note d = dt_seconds [of "now - lastApplyMs s", folded d_def]
  from assms have r: "is_fin (maxRateRadS s)" "0 \<le> r" "r \<le> 10" by (auto simp: rate_ok_def r_def)
  have n0: "0 \<le> n" by (simp add: n_def)
  have dv: "fval d = rnd32 (rnd32 n / 1000)"
  proof -
    have e: "d = mk32 (is_neg (u32_to_f32 (now - lastApplyMs s)) \<noteq> False) (rnd32 n / 1000)"
      by (simp add: d_def flit_1000 fdiv_fin u32_to_f32_fin n_def)
    have "n < 4294967296" using u32_less_2p32 [of "now - lastApplyMs s"] by (simp add: n_def flip: of_nat_less_iff)
    then have "rnd32 n \<le> n + n / 2 ^ 24 + 1 / 2 ^ 150" "0 \<le> rnd32 n" using rnd32_up n0 rnd32_nonneg by simp_all
    then have "\<bar>rnd32 n / 1000\<bar> \<le> 10000000" using \<open>n < 4294967296\<close> by (simp add: abs_le_iff)
    note mk32_bounded [OF this representable_numeral, of "is_neg (u32_to_f32 (now - lastApplyMs s)) \<noteq> False", folded e]
    then show ?thesis by simp
  qed
  have mf: "fval (fmul (maxRateRadS s) d) = rnd32 (r * fval d)"
  proof -
    have rp: "representable (2 ^ 27)" unfolding representable_def
      by (rule exI [of _ 1], rule exI [of _ 27], simp)
    have "r * fval d \<le> 10 * 2 ^ 23" using r d by (intro mult_mono) auto
    then have "\<bar>r * fval d\<bar> \<le> 2 ^ 27" using r d by simp
    note mk32_bounded [OF this rp]
    then show ?thesis using r d by (simp add: fmul_fin r_def)
  qed
  have r0: "0 \<le> rnd32 n" using n0 by (simp add: rnd32_nonneg)
  have "fval d \<le> rnd32 n / 1000 + (rnd32 n / 1000) / 2 ^ 24 + 1 / 2 ^ 150"
    unfolding dv using rnd32_up [of "rnd32 n / 1000"] r0 by simp
  also have "\<dots> \<le> n / 1000 * (1 + 5 / 2 ^ 25) + 3 / 2 ^ 150"
    using rnd32_up [OF n0] n0 r0 by simp
  finally have "r * fval d \<le> r * (n / 1000 * (1 + 5 / 2 ^ 25) + 3 / 2 ^ 150)" using r by (intro mult_left_mono)
  also have "\<dots> \<le> (r * n / 1000) * (1 + 5 / 2 ^ 25) + 30 / 2 ^ 150"
    using r by (simp add: algebra_simps)
  finally have rd: "r * fval d \<le> (r * n / 1000) * (1 + 5 / 2 ^ 25) + 30 / 2 ^ 150" .
  have pos: "0 \<le> r * fval d" "0 \<le> r * n / 1000" using r d n0 by simp_all
  have "rnd32 (r * fval d) \<le> r * n / 1000 * (1 + 1 / 2 ^ 22) + 1 / 2 ^ 100"
    using rnd32_up [OF pos(1)] rounding_slack [OF rd pos(2)] by linarith
  then have "fval (fmul (maxRateRadS s) d) \<le> max (1 / 1000) (r * n / 1000) * (1 + 1 / 2 ^ 22) + 1 / 2 ^ 100"
    unfolding mf by (rule order_trans) (auto simp: max_def field_simps)
  moreover define k where "k = max (1 / 1000) (r * n / 1000)"
  have "1 / 1000 \<le> k" by (simp add: k_def)
  then have "8589935 / 8589934592 \<le> k * (1 + 1 / 2 ^ 22) + 1 / 2 ^ 100" by simp
  ultimately show ?thesis
    unfolding max_step_def Let_def d_def [symmetric] flit_min_step r_def [symmetric] n_def [symmetric] k_def [symmetric]
    by simp
qed

text \<open>
  C23: The rate limit. One period moves the applied angle by at most rate times elapsed time, or one
  milliradian where that is more, up to float rounding (a relative error of 2^-22 and an
  absolute error below 2^-22).
\<close>
theorem steering_rate_limit:
  assumes "steer_reach E s"
  shows "\<bar>fval (appliedAngleRad (steer_step nowMs s)) - fval (appliedAngleRad s)\<bar> \<le>
    max (1 / 1000) (fval (maxRateRadS s) * real (unat (nowMs - lastApplyMs s)) / 1000) * (1 + 1 / 2 ^ 22) + 1 / 2 ^ 22"
proof -
  define t where "t = (watchdog nowMs s)\<lparr>lastApplyMs := nowMs\<rparr>"
  define m where "m = max_step nowMs (watchdog nowMs s)"
  note inv = steer_reach_inv [OF assms]
  have t: "angle_ok (targetAngleRad t)" "angle_ok (appliedAngleRad t)" "appliedAngleRad t = appliedAngleRad s"
    using steer_inv_watchdog [OF inv, of nowMs] by (simp_all add: steer_inv_def t_def)
  have m: "m = max_step nowMs s" by (simp add: m_def max_step_def)
  have ok: "step_ok m" unfolding m by (rule step_ok_max_step [OF steer_inv_rate [OF inv]])
  have "fval (appliedAngleRad (steer_step nowMs s)) =
      real_slew (fval m) (fval (targetAngleRad t)) (fval (appliedAngleRad s))"
    using slew_val(2) [OF t(1,2) ok] t(3) by (simp add: steer_step_def Let_def m_def t_def)
  then have "\<bar>fval (appliedAngleRad (steer_step nowMs s)) - fval (appliedAngleRad s)\<bar> \<le> fval m + 1 / 2 ^ 23"
    using real_slew_rate [of "fval (appliedAngleRad s)" "fval (targetAngleRad t)" "fval m"] t ok
    by (auto simp: angle_ok_def step_ok_def)
  then show ?thesis using max_step_le [OF steer_inv_rate [OF inv], of nowMs] unfolding m by simp
qed

theorem steering_rate_limit_witness:
  "\<bar>fval (appliedAngleRad (steer_step 20 demo_driving)) - 0\<bar> \<le> (1 / 50) * (1 + 1 / 2 ^ 22) + 1 / 2 ^ 22"
  using steering_rate_limit [OF demo_driving_reach [of "\<lambda>_ _. True"], of 20] by (simp add: demo_driving_def)

lemma steps_to_centre:
  assumes "steer_inv s" "\<not> commandValid s"
  shows "let s' = foldl (\<lambda>s t. steer_step t s) s ts in
    steer_inv s' \<and> \<not> commandValid s' \<and>
    \<bar>fval (appliedAngleRad s')\<bar> \<le> max 0 (1 / 2 - 999 / 1000000 * real (length ts))"
proof (induction ts rule: rev_induct)
  case Nil
  with assms show ?case by (auto simp: steer_inv_def angle_ok_def Let_def)
next
  case (snoc now ts)
  define s1 where "s1 = foldl (\<lambda>s t. steer_step t s) s ts"
  from snoc have i: "steer_inv s1" "\<not> commandValid s1"
    "\<bar>fval (appliedAngleRad s1)\<bar> \<le> max 0 (1 / 2 - 999 / 1000000 * real (length ts))"
    by (simp_all add: s1_def Let_def)
  define t where "t = (watchdog now s1)\<lparr>lastApplyMs := now\<rparr>"
  define m where "m = max_step now (watchdog now s1)"
  have cv: "\<not> commandValid t" using i(2) by (simp add: t_def watchdog_def Let_def)
  have it: "steer_inv t" using steer_inv_watchdog [OF i(1), of now] by (simp add: t_def)
  with cv have t: "targetAngleRad t = Fin 0" "angle_ok (appliedAngleRad t)" "appliedAngleRad t = appliedAngleRad s1"
    by (simp_all add: steer_inv_def t_def)
  have ok: "step_ok m" unfolding m_def
    by (rule step_ok_max_step [OF steer_inv_rate [OF steer_inv_watchdog [OF i(1)]]])
  have e: "steer_step now s1 = slew m t" by (simp add: steer_step_def Let_def m_def t_def)
  have "fval (appliedAngleRad (slew m t)) = real_slew (fval m) 0 (fval (appliedAngleRad s1))"
    using slew_val(2) [of t m] t ok by simp
  moreover have "representable (fval (appliedAngleRad s1))" "\<bar>fval (appliedAngleRad s1)\<bar> \<le> 1 / 2"
    using t(2) unfolding t(3) by (cases "appliedAngleRad s1"; auto simp: angle_ok_def wf32_def)+
  ultimately have "\<bar>fval (appliedAngleRad (slew m t))\<bar> \<le> max 0 (\<bar>fval (appliedAngleRad s1)\<bar> - 999 / 1000000)"
    using real_slew_centre ok by (simp add: step_ok_def)
  moreover have "999 / 1000000 * real (Suc (length ts)) = 999 / 1000000 * real (length ts) + 999 / 1000000" by simp
  ultimately have "\<bar>fval (appliedAngleRad (slew m t))\<bar> \<le> max 0 (1 / 2 - 999 / 1000000 * real (Suc (length ts)))"
    using i(3) by linarith
  moreover have "steer_inv (slew m t)" "\<not> commandValid (slew m t)"
    using steer_inv_slew [OF it ok] cv by simp_all
  ultimately show ?case by (simp add: Let_def s1_def [symmetric] e)
qed

text \<open>
  C18: Fail-safe liveness. Once a node has no valid command, 501 periods without a new packet bring
  the wheels exactly to the centre, whatever the clock says in them, from any angle.
\<close>
theorem steering_returns_to_centre:
  assumes "steer_reach E s" "\<not> commandValid s" "501 \<le> length ts"
  shows "fval (appliedAngleRad (foldl (\<lambda>s nowMs. steer_step nowMs s) s ts)) = 0"
proof -
  have "\<bar>fval (appliedAngleRad (foldl (\<lambda>s nowMs. steer_step nowMs s) s ts))\<bar> \<le>
      max 0 (1 / 2 - 999 / 1000000 * real (length ts))"
    using steps_to_centre [OF steer_reach_inv [OF assms(1)] assms(2), of ts] by (simp add: Let_def)
  moreover have "(501 :: real) \<le> real (length ts)" using assms(3) by linarith
  ultimately show ?thesis by (simp add: max_def split: if_splits)
qed

theorem steering_returns_to_centre_witness:
  "fval (appliedAngleRad (foldl (\<lambda>s nowMs. steer_step nowMs s) demo_front (replicate 501 20))) = 0"
  by (rule steering_returns_to_centre [OF demo_front_reach]) (simp_all add: demo_front_def)

section \<open>Which commands are obeyed\<close>





text \<open>
  C20: Replay. Once a packet has been obeyed, the same bytes are refused, with the state untouched,
  for as long as the last obeyed sequence number is less than 2^31 ahead of the packet's.
\<close>
theorem hpsc_replay_refused:
  assumes "FrontSteeringNode_acceptHpscPacket (Some bs) len nowMs s = Some (True, s1)"
    and "initialized s2" "unat (lastSequence s2 - lastSequence s1) \<le> 2147483648"
  shows "FrontSteeringNode_acceptHpscPacket (Some bs) len nowMs2 s2 = Some (False, s2)"
proof -
  from assms(1) obtain p where p: "len = 40" "has_magic bs = Some True" "hpsc_parse bs = Some p"
    "hpsc_acceptable p s" "s1 = snd (hpsc_process p nowMs s)" unfolding acceptHpsc_True by blast
  have q: "lastSequence s1 = seqNo p" using hpsc_process_accepted(3) [OF p(4)] p(5) by simp
  define d where "d = lastSequence s2 - seqNo p"
  have "seqNo p - lastSequence s2 = - d" by (simp add: d_def)
  moreover have "d = 0 \<or> 2147483648 \<le> unat (- d)"
    using assms(3) q unat_sub_if' [of 0 d] by (auto simp: d_def [symmetric] unat_eq_0)
  ultimately have "\<not> sequenceNewer (seqNo p) (lastSequence s2)"
    by (auto simp: sequenceNewer_def Let_def word_less_nat_alt)
  with p assms(2) show ?thesis
    by (simp add: FrontSteeringNode_acceptHpscPacket_def HPSC_PACKET_SIZE_def hpsc_process_def hpsc_acceptable_def)
qed

theorem hpsc_replay_refused_witness:
  "FrontSteeringNode_acceptHpscPacket (Some demo_hpsc) 40 11 demo_driving = Some (False, demo_driving)"
  by (rule hpsc_replay_refused [OF demo_accept]) (simp_all add: demo_driving_def)



section \<open>Frames\<close>

text \<open>
  C25: Soundness of the frame search. A frame is reported as a command only if some place in it holds a complete
  packet with the magic word that the acceptance rule obeys; the new state is what that packet
  alone produces, up to the count of refusals. The packet ends within the received length,
  except where the frame starts like a bare IP packet and the IP header length places it.
\<close>
theorem frame_soundness:
  assumes "FrontSteeringNode_acceptEthernetFrame (Some frame) len nowMs s = Some (True, s')"
  shows "\<exists>off p s0. off + 40 \<le> length frame \<and> has_magic (drop off frame) = Some True \<and>
      hpsc_parse (drop off frame) = Some p \<and> hpsc_acceptable p s \<and>
      s0 = s\<lparr>rejectedPackets := rejectedPackets s0\<rparr> \<and> s' = snd (hpsc_process p nowMs s0) \<and>
      (off + 40 \<le> unat len \<or> (drop_bit 4 (frame ! 0) = 4 \<and> off = unat (frame ! 0 AND 0x0F) * 4 + 8))"
  using assms
proof (cases rule: acceptFrame_cases)
  case (2 off)
  then show ?thesis unfolding delivers_def packet_at_def same_control_def [symmetric]
    using acceptable_same_control by blast
qed simp

definition demo_frame :: "u8 list" where
  "demo_frame = [2, 0, 0, 0, 0, 1, 2, 0, 0, 0, 0, 2, 8, 0, 69, 0, 0, 68, 0, 0, 0, 0, 64, 17, 0, 0, 192, 168, 1, 10,
     192, 168, 1, 20, 15, 160, 19, 236, 0, 48, 0, 0] @ demo_hpsc"

lemma demo_frame_accept:
  "FrontSteeringNode_acceptEthernetFrame (Some demo_frame) 82 10 demo_front = Some (True, demo_driving)"
  using demo_accept
  by (simp add: FrontSteeringNode_acceptEthernetFrame_def hpscFromEthernet_def demo_frame_def consts_simps)

theorem frame_soundness_witness:
  "\<exists>off p s0. off + 40 \<le> length demo_frame \<and> has_magic (drop off demo_frame) = Some True \<and>
      hpsc_parse (drop off demo_frame) = Some p \<and> hpsc_acceptable p demo_front \<and>
      s0 = demo_front\<lparr>rejectedPackets := rejectedPackets s0\<rparr> \<and> demo_driving = snd (hpsc_process p 10 s0) \<and>
      (off + 40 \<le> unat (82 :: u16) \<or> (drop_bit 4 (demo_frame ! 0) = 4 \<and> off = unat (demo_frame ! 0 AND 0x0F) * 4 + 8))"
  by (rule frame_soundness [OF demo_frame_accept])

text \<open>
  C26: Completeness for UDP. An Ethernet frame that carries, in a UDP datagram to port 5100 behind a plain IPv4 header, a packet the
  acceptance rule obeys, is obeyed, and nothing else in the frame plays a part.
\<close>
theorem frame_completeness:
  assumes "82 \<le> unat len" "unat len \<le> length frame"
    and "readU16Be (drop 12 frame) = Some 0x0800" "frame ! 14 = 0x45" "frame ! 23 = 17"
    and "readU16Be (drop 16 frame) = Some tot" "68 \<le> unat tot" "14 + unat tot \<le> unat len"
    and "readU16Be (drop 36 frame) = Some 5100" "readU16Be (drop 38 frame) = Some ul" "48 \<le> unat ul"
    and "has_magic (drop 42 frame) = Some True" "hpsc_parse (drop 42 frame) = Some p" "hpsc_acceptable p s"
  shows "FrontSteeringNode_acceptEthernetFrame (Some frame) len nowMs s = Some (True, snd (hpsc_process p nowMs s))"
proof -
  have "FrontSteeringNode_acceptHpscPacket (Some (drop 42 frame)) 40 nowMs s = Some (True, snd (hpsc_process p nowMs s))"
    using assms(12-14) by (simp add: acceptHpsc_True)
  then have "hpscFromEthernet frame len nowMs s = Some (True, snd (hpsc_process p nowMs s))"
    using assms by (simp add: hpscFromEthernet_def consts_simps)
  then show ?thesis
    using assms(1) by (simp add: FrontSteeringNode_acceptEthernetFrame_def HPSC_PACKET_SIZE_def word_less_nat_alt)
qed

theorem frame_completeness_witness:
  "FrontSteeringNode_acceptEthernetFrame (Some demo_frame) 82 10 demo_front = Some (True, snd (hpsc_process demo_fields 10 demo_front))"
proof -
  have "drop 42 demo_frame = demo_hpsc" by (simp add: demo_frame_def)
  then show ?thesis
    by (intro frame_completeness [where tot = 68 and ul = 48])
      (simp_all add: demo_magic demo_parse demo_acceptable, simp_all add: demo_frame_def)
qed

text \<open>
  C24: Memory safety of the frame search. If the buffer behind the frame is at least 108 bytes long and holds the
  received length, no read leaves it, whatever the bytes are: the search always returns.
\<close>
theorem frame_reads_in_bounds:
  assumes "108 \<le> length frame" "unat len \<le> length frame"
  shows "\<exists>ok s'. FrontSteeringNode_acceptEthernetFrame (Some frame) len nowMs s = Some (ok, s')"
proof (cases "len < HPSC_PACKET_SIZE")
  case False
  then have len: "40 \<le> unat len" by (simp add: HPSC_PACKET_SIZE_def word_less_nat_alt)
  then have sub: "unat (len - HPSC_PACKET_SIZE) = unat len - 40"
    by (simp add: HPSC_PACKET_SIZE_def unat_sub word_le_nat_alt)
  obtain ok1 s1 where 1: "(if 82 \<le> unat len then hpscFromEthernet frame len nowMs s else Some (False, s)) = Some (ok1, s1)"
    using hpscFromEthernet_total [OF _ assms(2), of nowMs s] by (cases "82 \<le> unat len") auto
  obtain ok2 s2 where 2: "(if 82 \<le> unat len then hpscFromIp frame len nowMs s1 else Some (False, s1)) = Some (ok2, s2)"
    using hpscFromIp_total [OF assms(1), of len nowMs s1] by (cases "82 \<le> unat len") auto
  obtain ok3 s3 where 3: "hpscScan frame [0 ..< unat (len - HPSC_PACKET_SIZE) + 1] nowMs s2 = Some (ok3, s3)"
    using hpscScan_total [of "[0 ..< unat len - 40 + 1]" frame nowMs s2] len assms(2) unfolding sub by fastforce
  from 1 2 3 False have "FrontSteeringNode_acceptEthernetFrame (Some frame) len nowMs s =
      Some (if ok1 then (True, s1) else if ok2 then (True, s2) else (ok3, s3))"
    by (simp add: FrontSteeringNode_acceptEthernetFrame_def)
  then show ?thesis by (metis surj_pair)
qed (auto simp: FrontSteeringNode_acceptEthernetFrame_def intro: exI [of _ False])

theorem frame_reads_in_bounds_witness:
  "\<exists>ok s'. FrontSteeringNode_acceptEthernetFrame (Some (replicate 108 0)) 82 10 demo_front = Some (ok, s')"
  by (rule frame_reads_in_bounds) simp_all

definition overread_frame :: "u8 list" where
  "overread_frame = [79, 0, 0, 0, 0, 0, 0, 0, 0, 17, 0, 0, 0, 0, 0, 0, 0, 0, 0, 0, 0, 0, 0, 0, 0, 0, 0, 0, 0, 0, 0, 0, 0, 0, 0, 0, 0, 0, 0, 0, 0, 0, 0, 0, 0, 0, 0, 0, 0, 0, 0, 0, 0, 0, 0, 0, 0, 0, 0, 0, 0, 0, 19, 236, 0, 48, 0, 0, 72, 80, 83, 67, 0, 0, 0, 0, 0, 0, 0, 0, 0, 0]"

text \<open>
  C33: The bound is needed. A received frame of 82 bytes in a buffer of exactly that size makes the
  search read past its end: the bytes of a bare IP packet with a 60-byte header are not checked
  against the received length.
\<close>
theorem frame_overread:
  "length overread_frame = 82 \<and> FrontSteeringNode_acceptEthernetFrame (Some overread_frame) 82 nowMs s = None"
proof -
  have "hpscFromEthernet overread_frame 82 nowMs s = Some (False, s)"
    by (simp add: hpscFromEthernet_def overread_frame_def consts_simps)
  moreover have "hpsc_parse (drop 68 overread_frame) = None"
    by (simp add: hpsc_parse_def overread_frame_def)
  then have "hpscFromIp overread_frame 82 nowMs s = None"
    by (simp add: hpscFromIp_def overread_frame_def consts_simps FrontSteeringNode_acceptHpscPacket_def has_magic_def)
  ultimately show ?thesis
    by (simp add: FrontSteeringNode_acceptEthernetFrame_def HPSC_PACKET_SIZE_def, simp add: overread_frame_def)
qed

section \<open>The wrap of the millisecond clock\<close>

text \<open>
  The millisecond time is computed from the 32-bit tick counter, so at 100 MHz it never exceeds 42950
  and jumps back to 0 with the counter. A node that obeyed a packet at 42949 ms and runs a
  millisecond later, after the jump, takes the packet for older than the watchdog limit: it
  drops the valid command.
\<close>
theorem clock_wrap_trips_watchdog:
  assumes "stm_freq E = Fin 100000000"
    and "front_nowMs E w = Some (nowMs, w')" "lastPacketMs s = 42949"
  shows "unat nowMs \<le> 42950 \<and> \<not> commandValid (steer_step 0 s) \<and> emergencyCenter (steer_step 0 s)"
proof -
  have "ms_of 100000000 (clock E w) \<le> 42950" by (rule ms_of_100MHz)
  then have "unat nowMs \<le> 42950"
    using nowMs_val(1) [OF assms(1), of w] assms(2) by (auto simp: unat_of_nat take_bit_nat_eq_self)
  then show ?thesis using assms(3)
    by (simp add: steer_step_def watchdog_def Let_def FRONT_STEERING_WATCHDOG_MS_def)
qed

theorem clock_wrap_trips_watchdog_witness:
  "commandValid (demo_driving\<lparr>lastPacketMs := 42949\<rparr>) \<and>
    \<not> commandValid (steer_step 0 (demo_driving\<lparr>lastPacketMs := 42949\<rparr>))"
proof -
  have f: "stm_freq (demo_hw (\<lambda>_ _. True)) = Fin 100000000" by (simp add: demo_hw_def)
  show ?thesis
    using clock_wrap_trips_watchdog [OF f nowMs_val(1) [OF f, of "[]"], of "demo_driving\<lparr>lastPacketMs := 42949\<rparr>"]
    by (simp add: demo_driving_def)
qed

end
