(* ===== verification/Exec.thy ===== *)
theory Exec
  imports Hw
begin

text \<open>
  Running code against the hardware: a bound on the time a computation takes together with
  what it may do to the pins, and the loop that polls a condition until a deadline. Every
  polling loop of the code is a \<open>poll_loop\<close> of one of its rounds; the locale
  \<open>deadline_loop\<close> states what a round must guarantee for the loop to end, and is
  interpreted for each of them.
\<close>

section \<open>An environment whose timer keeps its promises\<close>

text \<open>Conversions of at most 200 ticks per microsecond, and at most 10000 ticks lost per access.\<close>

definition sane_hw :: "hw \<Rightarrow> bool" where
  "sane_hw E \<longleftrightarrow> live_clock E 10000 \<and>
     (\<forall>us. unat us \<le> 20000 \<longrightarrow> sint (ticks_of_us E us) \<le> 200 * int (unat us)) \<and>
     (\<forall>ms. unat ms \<le> 1000 \<longrightarrow> sint (ticks_of_ms E ms) \<le> 200000 * int (unat ms))"

lemma sane_clock:
  assumes "sane_hw E"
  obtains d where "ticks_lo e \<le> d" "d \<le> ticks_lo e + 10000" "took E w (e # w) d"
  using assms live_clockD [of E 10000 e w] unfolding sane_hw_def by blast

section \<open>Computations that end in time\<close>

text \<open>\<open>since E P w0 n w\<close>: from \<open>w0\<close> to \<open>w\<close> only allowed events happened, in at most n ticks.\<close>

definition since :: "hw \<Rightarrow> (hw_event \<Rightarrow> bool) \<Rightarrow> trace \<Rightarrow> nat \<Rightarrow> trace \<Rightarrow> bool" where
  "since E P w0 n w \<longleftrightarrow> (\<exists>es m. w = es @ w0 \<and> list_all P es \<and> took E w0 w m \<and> m \<le> n)"

definition runs :: "hw \<Rightarrow> (hw_event \<Rightarrow> bool) \<Rightarrow> nat \<Rightarrow> ('a \<times> trace) option \<Rightarrow> trace \<Rightarrow> bool" where
  "runs E P B c w0 \<longleftrightarrow> (\<exists>x w. c = Some (x, w) \<and> since E P w0 B w)"

lemma since_refl: "since E P w 0 w"
  unfolding since_def by (intro exI [of _ "[]"] exI [of _ 0]) simp

lemma since_trans: "since E P w0 m w1 \<Longrightarrow> since E P w1 n w2 \<Longrightarrow> since E P w0 (m + n) w2"
proof -
  assume "since E P w0 m w1" "since E P w1 n w2"
  then obtain es i es' j where "w1 = es @ w0" "list_all P es" "took E w0 w1 i" "i \<le> m"
    "w2 = es' @ w1" "list_all P es'" "took E w1 w2 j" "j \<le> n" unfolding since_def by blast
  then show ?thesis unfolding since_def using took_trans [of E w0 w1 i w2 j]
    by (intro exI [of _ "es' @ es"] exI [of _ "i + j"]) simp
qed

lemma since_weaken: "since E P w0 m w \<Longrightarrow> m \<le> n \<Longrightarrow> since E P w0 n w"
  unfolding since_def using order_trans by blast

lemma since_event:
  assumes "since E P w0 n w" "sane_hw E" "P e" "ticks_lo e \<le> t"
  shows "since E P w0 (n + (t + 10000)) (e # w)"
proof -
  obtain d where "d \<le> ticks_lo e + 10000" "took E w (e # w) d" using sane_clock [OF assms(2)] by blast
  then have "since E P w (t + 10000) (e # w)"
    unfolding since_def using assms(3,4) by (intro exI [of _ "[e]"] exI [of _ d]) simp
  with assms(1) show ?thesis by (rule since_trans)
qed

lemma runsE:
  assumes "runs E P B c w"
  obtains x es n where "c = Some (x, es @ w)" "list_all P es" "took E w (es @ w) n" "n \<le> B"
  using assms unfolding runs_def since_def by blast

lemma runsI: "list_all P es \<Longrightarrow> took E w (es @ w) n \<Longrightarrow> n \<le> B \<Longrightarrow> runs E P B (Some (x, es @ w)) w"
  unfolding runs_def since_def by blast

lemma runs_weaken: "runs E P B c w \<Longrightarrow> B \<le> B' \<Longrightarrow> runs E P B' c w"
  unfolding runs_def using since_weaken by blast

lemma runs_from: "runs E P B c w \<Longrightarrow> since E P w0 n w \<Longrightarrow> runs E P (n + B) c w0"
  unfolding runs_def using since_trans by blast

lemma runs_Some: "since E P w0 n w \<Longrightarrow> runs E P n (Some (x, w)) w0"
  unfolding runs_def by blast

lemma runs_bind:
  assumes "runs E P B1 c w0"
    and "\<And>x w. since E P w0 B1 w \<Longrightarrow> runs E P B2 (f x w) w0"
  shows "runs E P B2 (Option.bind c (\<lambda>(x, w). f x w)) w0"
  using assms unfolding runs_def by fastforce

lemma runs_if:
  "runs E P B1 a w \<Longrightarrow> runs E P B2 b w \<Longrightarrow> runs E P (max B1 B2) (if c then a else b) w"
  by (auto intro: runs_weaken)

lemma runs_option:
  "runs E P B1 a w \<Longrightarrow> (\<And>v. runs E P B2 (f v) w) \<Longrightarrow> runs E P (max B1 B2) (case x of None \<Rightarrow> a | Some v \<Rightarrow> f v) w"
  by (cases x) (auto intro: runs_weaken [OF _ max.cobounded1] runs_weaken [OF _ max.cobounded2])

lemma runs_time: "runs E P B c w \<Longrightarrow> \<exists>x w' n. c = Some (x, w') \<and> took E w w' n \<and> n \<le> B"
  by (auto elim!: runsE)

lemma runs_events: "runs E P B (Some (x, w')) w \<Longrightarrow> \<exists>es. w' = es @ w \<and> list_all P es"
  by (auto elim!: runsE)

section \<open>What a computation may return\<close>

definition post :: "('a \<Rightarrow> trace \<Rightarrow> bool) \<Rightarrow> ('a \<times> trace) option \<Rightarrow> bool" where
  "post Q c \<longleftrightarrow> (\<forall>x w. c = Some (x, w) \<longrightarrow> Q x w)"

lemma postD: "post Q c \<Longrightarrow> c = Some (x, w) \<Longrightarrow> Q x w"
  by (simp add: post_def)

lemma post_Some: "(\<And>x w. p = (x, w) \<Longrightarrow> Q x w) \<Longrightarrow> post Q (Some p)"
  by (cases p) (simp add: post_def)

lemma post_bind: "(\<And>x w. c = Some (x, w) \<Longrightarrow> post Q (f x w)) \<Longrightarrow> post Q (Option.bind c (\<lambda>(x, w). f x w))"
  by (cases c) (auto simp: post_def)

lemma post_bind_pure: "(\<And>x. c = Some x \<Longrightarrow> post Q (f x)) \<Longrightarrow> post Q (Option.bind c f)"
  by (cases c) (auto simp: post_def)

lemma post_if: "(c \<Longrightarrow> post Q a) \<Longrightarrow> (\<not> c \<Longrightarrow> post Q b) \<Longrightarrow> post Q (if c then a else b)"
  by simp

lemma post_option:
  "(x = None \<Longrightarrow> post Q a) \<Longrightarrow> (\<And>v. x = Some v \<Longrightarrow> post Q (f v)) \<Longrightarrow> post Q (case x of None \<Rightarrow> a | Some v \<Rightarrow> f v)"
  by (cases x) simp_all

lemma post_prod2: "(\<And>a b. v = (a, b) \<Longrightarrow> post Q (g a b u)) \<Longrightarrow> post Q ((case v of (a, b) \<Rightarrow> g a b) u)"
  by (cases v) simp

lemmas post_intros = post_bind post_if post_option post_prod2 post_Some

section \<open>Polling\<close>

text \<open>One round either leaves the loop with a result or goes round again; ticks pass on the trace.\<close>

partial_function (option) poll_loop ::
    "('w \<Rightarrow> ('r option \<times> 'w) option) \<Rightarrow> 'w \<Rightarrow> ('r \<times> 'w) option" where
  "poll_loop iter w =
     (case iter w of None \<Rightarrow> None
      | Some (r, w') \<Rightarrow> (case r of Some x \<Rightarrow> Some (x, w') | None \<Rightarrow> poll_loop iter w'))"

locale deadline_loop =
  fixes iter :: "'p \<Rightarrow> trace \<Rightarrow> ('r option \<times> trace) option"
    and env :: "'p \<Rightarrow> hw"
    and start :: "'p \<Rightarrow> u32"
    and limit :: "'p \<Rightarrow> u32"
    and allowed :: "'p \<Rightarrow> hw_event \<Rightarrow> bool"
    and body :: nat
    and ok :: "'p \<Rightarrow> bool"
  assumes room: "ok p \<Longrightarrow> unat (limit p) + 10001 + body < 2 ^ 32"
    and round: "ok p \<Longrightarrow> \<exists>r es n. iter p w = Some (r, es @ w) \<and> list_all (allowed p) es \<and>
      took (env p) w (es @ w) n \<and> n \<le> body \<and>
      (r = None \<longrightarrow> 1 \<le> n \<and> (\<exists>e \<le> unat (limit p) + 10001.
        clock (env p) (es @ w) = start p + of_nat e))"
begin

lemma total:
  assumes "ok p" "clock (env p) w = start p + of_nat e" "e \<le> unat (limit p) + 10001"
  shows "runs (env p) (allowed p) (unat (limit p) + 10001 + body - e) (poll_loop (iter p) w) w"
  using assms(2,3)
proof (induction "unat (limit p) + 10001 - e" arbitrary: e w rule: less_induct)
  case less
  let ?L = "unat (limit p) + 10001"
  obtain r es n where r: "iter p w = Some (r, es @ w)" "list_all (allowed p) es" "took (env p) w (es @ w) n" "n \<le> body"
    and n: "r = None \<longrightarrow> 1 \<le> n \<and> (\<exists>e \<le> ?L. clock (env p) (es @ w) = start p + of_nat e)"
    using round [OF assms(1), of w] by blast
  show ?case
  proof (cases r)
    case (Some x)
    then have "poll_loop (iter p) w = Some (x, es @ w)"
      using r(1) by (subst poll_loop.simps) simp
    moreover have "n \<le> ?L + body - e" using r(4) less.prems(2) by simp
    ultimately show ?thesis using runsI [OF r(2,3)] by simp
  next
    case None
    with n obtain e' where e': "1 \<le> n" "e' \<le> ?L" "clock (env p) (es @ w) = start p + of_nat e'" by auto
    have "(of_nat e' :: u32) = of_nat (e + n)"
      using e'(3) tookD [OF r(3)] less.prems(1) by simp
    moreover have "e + n < 2 ^ 32" "e' < 2 ^ 32" using less.prems(2) r(4) room [OF assms(1)] e'(2) by simp_all
    ultimately have ee: "e' = e + n"
      by (metis u32_of_nat_inj)
    have "runs (env p) (allowed p) (?L + body - e') (poll_loop (iter p) (es @ w)) (es @ w)"
      by (rule less.hyps) (use e' ee in auto)
    then obtain x es' n' where s: "poll_loop (iter p) (es @ w) = Some (x, es' @ es @ w)" "list_all (allowed p) es'"
      "took (env p) (es @ w) (es' @ es @ w) n'" "n' \<le> ?L + body - e'" by (rule runsE)
    have p: "poll_loop (iter p) w = Some (x, (es' @ es) @ w)"
      using None r(1) s(1) by (subst poll_loop.simps) simp
    show ?thesis unfolding p
      by (rule runsI [of _ _ _ _ "n + n'"]) (use r s e' ee took_trans [OF r(3) s(3)] in auto)
  qed
qed

lemma total0:
  assumes "ok p" "took (env p) w0 w n" "clock (env p) w0 = start p" "n \<le> unat (limit p) + 10001"
  shows "runs (env p) (allowed p) (unat (limit p) + 10001 + body) (poll_loop (iter p) w) w"
  by (rule runs_weaken [OF total [OF assms(1)]]) (use assms tookD [OF assms(2)] in auto)

end

end
