(* ===== verification/FrontSensors.thy ===== *)
theory FrontSensors
  imports Exec
begin

text \<open>
  FRONT/AebSensorNode.c, first part: time, the two ultrasonic sensors. The node's settings
  are the constants of FRONT/AebSensorNode.h.
\<close>

section \<open>Settings (AebSensorNode.h)\<close>

definition AEB_NODE_LOOP_PERIOD_MS :: u32 where "AEB_NODE_LOOP_PERIOD_MS = 40"
definition AEB_ULTRA_MIN_CM_X10 :: u32 where "AEB_ULTRA_MIN_CM_X10 = 20"
definition AEB_ULTRA_MAX_CM_X10 :: u32 where "AEB_ULTRA_MAX_CM_X10 = 5000"
definition AEB_ULTRA_ECHO_TIMEOUT_US :: u32 where "AEB_ULTRA_ECHO_TIMEOUT_US = 15000"
definition AEB_ULTRA_STALE_MS :: u32 where "AEB_ULTRA_STALE_MS = 500"
definition AEB_ULTRA_CROSSTALK_DELAY_US :: u32 where "AEB_ULTRA_CROSSTALK_DELAY_US = 5000"
definition AEB_ULTRA_LEFT_TRIG :: pin where "AEB_ULTRA_LEFT_TRIG = (2, 7)"
definition AEB_ULTRA_LEFT_ECHO :: pin where "AEB_ULTRA_LEFT_ECHO = (10, 5)"
definition AEB_ULTRA_RIGHT_TRIG :: pin where "AEB_ULTRA_RIGHT_TRIG = (2, 1)"
definition AEB_ULTRA_RIGHT_ECHO :: pin where "AEB_ULTRA_RIGHT_ECHO = (10, 4)"
definition AEB_TOF_XSHUT :: pin where "AEB_TOF_XSHUT = (2, 6)"
definition AEB_TOF_XSHUT_RESET_LOW_MS :: u32 where "AEB_TOF_XSHUT_RESET_LOW_MS = 10"
definition AEB_TOF_BOOT_WAIT_MS :: u32 where "AEB_TOF_BOOT_WAIT_MS = 100"
definition AEB_TOF_INIT_DELAY_FRAMES :: u32 where "AEB_TOF_INIT_DELAY_FRAMES = 10"
definition AEB_TOF_RETRY_INTERVAL_MS :: u32 where "AEB_TOF_RETRY_INTERVAL_MS = 1000"
definition AEB_TOF_SDA :: pin where "AEB_TOF_SDA = (2, 4)"
definition AEB_TOF_SCL :: pin where "AEB_TOF_SCL = (2, 5)"
definition AEB_TOF_I2C_HALF_PERIOD_US :: u32 where "AEB_TOF_I2C_HALF_PERIOD_US = 10"
definition AEB_TOF_I2C_SCL_TIMEOUT_US :: u32 where "AEB_TOF_I2C_SCL_TIMEOUT_US = 1000"
definition AEB_TOF_I2C_ADDRESS_7BIT :: u8 where "AEB_TOF_I2C_ADDRESS_7BIT = 0x29"
definition AEB_TOF_MIN_CM_X10 :: u32 where "AEB_TOF_MIN_CM_X10 = 30"
definition AEB_TOF_MAX_CM_X10 :: u32 where "AEB_TOF_MAX_CM_X10 = 4000"
definition AEB_TOF_STALE_MS :: u32 where "AEB_TOF_STALE_MS = 400"
definition AEB_TOF_MEASURE_TIMEOUT_MS :: u32 where "AEB_TOF_MEASURE_TIMEOUT_MS = 100"
definition AEB_TOF_DISTANCE_SCALE :: f32 where "AEB_TOF_DISTANCE_SCALE = flit (1 / 2)"

definition AEB_ULTRA_DIAG_OK :: u16 where "AEB_ULTRA_DIAG_OK = 0x0000"
definition AEB_ULTRA_DIAG_NO_ECHO_RISE :: u16 where "AEB_ULTRA_DIAG_NO_ECHO_RISE = 0xF001"
definition AEB_ULTRA_DIAG_NO_ECHO_FALL :: u16 where "AEB_ULTRA_DIAG_NO_ECHO_FALL = 0xF002"
definition AEB_ULTRA_DIAG_RANGE_OUT_OF_LIMIT :: u16 where "AEB_ULTRA_DIAG_RANGE_OUT_OF_LIMIT = 0xF003"

lemmas sensor_consts [consts_simps] =
  AEB_NODE_LOOP_PERIOD_MS_def AEB_ULTRA_MIN_CM_X10_def AEB_ULTRA_MAX_CM_X10_def AEB_ULTRA_ECHO_TIMEOUT_US_def
  AEB_ULTRA_STALE_MS_def AEB_ULTRA_CROSSTALK_DELAY_US_def AEB_TOF_XSHUT_RESET_LOW_MS_def
  AEB_TOF_BOOT_WAIT_MS_def AEB_TOF_INIT_DELAY_FRAMES_def AEB_TOF_RETRY_INTERVAL_MS_def
  AEB_TOF_I2C_HALF_PERIOD_US_def AEB_TOF_I2C_SCL_TIMEOUT_US_def AEB_TOF_I2C_ADDRESS_7BIT_def
  AEB_TOF_MIN_CM_X10_def AEB_TOF_MAX_CM_X10_def AEB_TOF_STALE_MS_def AEB_TOF_MEASURE_TIMEOUT_MS_def
  AEB_ULTRA_DIAG_OK_def AEB_ULTRA_DIAG_NO_ECHO_RISE_def AEB_ULTRA_DIAG_NO_ECHO_FALL_def
  AEB_ULTRA_DIAG_RANGE_OUT_OF_LIMIT_def

lemmas sensor_pins =
  AEB_ULTRA_LEFT_TRIG_def AEB_ULTRA_LEFT_ECHO_def AEB_ULTRA_RIGHT_TRIG_def AEB_ULTRA_RIGHT_ECHO_def
  AEB_TOF_XSHUT_def AEB_TOF_SDA_def AEB_TOF_SCL_def

section \<open>Time\<close>

definition aeb_nowTicks :: "hw \<Rightarrow> trace \<Rightarrow> u32 \<times> trace" where
  "aeb_nowTicks E w = stm_now E w"

definition aeb_ticksFromUs :: "hw \<Rightarrow> u32 \<Rightarrow> u32" where
  "aeb_ticksFromUs E us = (let ticks = ticks_of_us E us in if sint ticks \<le> 0 then 1 else ticks)"

definition aeb_ticksFromMs :: "hw \<Rightarrow> u32 \<Rightarrow> u32" where
  "aeb_ticksFromMs E ms = (let ticks = ticks_of_ms E ms in if sint ticks \<le> 0 then 1 else ticks)"

definition aeb_ticksToUs :: "hw \<Rightarrow> u32 \<Rightarrow> u32 option" where
  "aeb_ticksToUs E ticks = f32_to_u32 (fdiv (fmul (u32_to_f32 ticks) (flit 1000000)) (stm_freq E))"

definition aeb_ticksToMs :: "hw \<Rightarrow> u32 \<Rightarrow> u32 option" where
  "aeb_ticksToMs E ticks = f32_to_u32 (fdiv (fmul (u32_to_f32 ticks) (flit 1000)) (stm_freq E))"

definition aeb_delayUs :: "hw \<Rightarrow> u32 \<Rightarrow> trace \<Rightarrow> trace" where
  "aeb_delayUs E us w = WaitTicks (aeb_ticksFromUs E us) # w"

definition aeb_delayMs :: "hw \<Rightarrow> u32 \<Rightarrow> trace \<Rightarrow> trace" where
  "aeb_delayMs E ms w = WaitTicks (aeb_ticksFromMs E ms) # w"

definition aeb_isFresh :: "hw \<Rightarrow> u32 \<Rightarrow> u32 \<Rightarrow> trace \<Rightarrow> bool \<times> trace" where
  "aeb_isFresh E lastValidTick staleMs w =
     (if lastValidTick = 0 then (False, w)
      else (let (now, w) = aeb_nowTicks E w in (now - lastValidTick \<le> aeb_ticksFromMs E staleMs, w)))"

section \<open>Median of up to three samples\<close>

definition swap_if_greater :: "u16 \<Rightarrow> u16 \<Rightarrow> u16 \<times> u16" where
  "swap_if_greater a b = (if b < a then (b, a) else (a, b))"

definition aeb_median3 :: "u16 list \<Rightarrow> u8 \<Rightarrow> u16 option" where
  "aeb_median3 samples count =
     (if count = 0 then Some 0
      else if count = 1 then rd samples 0
      else if count = 2 then do {
        s0 \<leftarrow> rd samples 0; s1 \<leftarrow> rd samples 1;
        Some (ucast ((ucast s0 + ucast s1 :: u32) div 2)) }
      else do {
        a \<leftarrow> rd samples 0; b \<leftarrow> rd samples 1; c \<leftarrow> rd samples 2;
        let (a, b) = swap_if_greater a b;
        let (b, c) = swap_if_greater b c;
        let (a, b) = swap_if_greater a b;
        Some b })"

section \<open>Waiting for a pin\<close>

text \<open>One round of the loop. The result is whether the level came and, when the caller asked
  for it, the elapsed ticks.\<close>

definition wait_pin_round ::
    "hw \<times> pin \<times> bool \<times> bool \<times> u32 \<times> u32 \<Rightarrow> trace \<Rightarrow> ((bool \<times> u32 option) option \<times> trace) option" where
  "wait_pin_round = (\<lambda>(E, p, state, want, start, timeoutTicks) w.
     let (level, w) = pin_read E p w in
     if level \<noteq> state then
       (let (now, w) = aeb_nowTicks E w; elapsed = now - start in
        if timeoutTicks \<le> elapsed then Some (Some (False, if want then Some elapsed else None), w)
        else Some (None, w))
     else if want then
       (let (now, w) = aeb_nowTicks E w in Some (Some (True, Some (now - start)), w))
     else Some (Some (True, None), w))"

definition aeb_waitPinState ::
    "hw \<Rightarrow> pin \<Rightarrow> bool \<Rightarrow> u32 \<Rightarrow> bool \<Rightarrow> trace \<Rightarrow> ((bool \<times> u32 option) \<times> trace) option" where
  "aeb_waitPinState E p state timeoutUs want w =
     (let (start, w) = aeb_nowTicks E w; timeoutTicks = aeb_ticksFromUs E timeoutUs
      in poll_loop (wait_pin_round (E, p, state, want, start, timeoutTicks)) w)"

section \<open>Ultrasonic sensors\<close>

record AebUltrasonicSensor =
  trigPin :: pin
  echoPin :: pin
  samples :: "u16 list"
  sampleCount :: u8
  sampleIndex :: u8
  filteredCmX10 :: u16
  lastValidTick :: u32
  lastRawCmX10 :: u16
  lastDiag :: u16

definition g_leftUltrasonic_0 :: AebUltrasonicSensor where
  "g_leftUltrasonic_0 = \<lparr>trigPin = AEB_ULTRA_LEFT_TRIG, echoPin = AEB_ULTRA_LEFT_ECHO, samples = [0, 0, 0],
     sampleCount = 0, sampleIndex = 0, filteredCmX10 = 0, lastValidTick = 0, lastRawCmX10 = 0, lastDiag = 0\<rparr>"

definition g_rightUltrasonic_0 :: AebUltrasonicSensor where
  "g_rightUltrasonic_0 = \<lparr>trigPin = AEB_ULTRA_RIGHT_TRIG, echoPin = AEB_ULTRA_RIGHT_ECHO, samples = [0, 0, 0],
     sampleCount = 0, sampleIndex = 0, filteredCmX10 = 0, lastValidTick = 0, lastRawCmX10 = 0, lastDiag = 0\<rparr>"

definition aeb_ultrasonicInit :: "AebUltrasonicSensor \<Rightarrow> trace \<Rightarrow> trace" where
  "aeb_ultrasonicInit sensor w =
     SetPin (trigPin sensor) False # SetMode (echoPin sensor) InNoPull # SetMode (trigPin sensor) OutPushPull # w"

text \<open>What becomes of an echo of \<open>pulseUs\<close> microseconds.\<close>

definition ultrasonic_range :: "u32 \<Rightarrow> AebUltrasonicSensor \<Rightarrow> u16 option \<times> AebUltrasonicSensor" where
  "ultrasonic_range pulseUs sensor =
     (let distanceCmX10 = (pulseUs * 1715 + 5000) div 10000;
          sensor = sensor\<lparr>lastRawCmX10 := (if 0xFFFF < distanceCmX10 then 0xFFFF else ucast distanceCmX10)\<rparr>
      in if distanceCmX10 < AEB_ULTRA_MIN_CM_X10 \<or> AEB_ULTRA_MAX_CM_X10 < distanceCmX10
         then (None, sensor\<lparr>lastDiag := AEB_ULTRA_DIAG_RANGE_OUT_OF_LIMIT\<rparr>)
         else (Some (ucast distanceCmX10), sensor))"

definition ultrasonic_trigger :: "hw \<Rightarrow> pin \<Rightarrow> trace \<Rightarrow> trace" where
  "ultrasonic_trigger E trig w =
     (let w = SetPin trig False # w;
          w = aeb_delayUs E 2 w;
          w = SetPin trig True # w;
          w = aeb_delayUs E 10 w
      in SetPin trig False # w)"

definition aeb_ultrasonicReadCmX10 ::
    "hw \<Rightarrow> AebUltrasonicSensor \<Rightarrow> trace \<Rightarrow> ((u16 option \<times> AebUltrasonicSensor) \<times> trace) option" where
  "aeb_ultrasonicReadCmX10 E sensor w = do {
     let sensor = sensor\<lparr>lastRawCmX10 := 0, lastDiag := AEB_ULTRA_DIAG_OK\<rparr>;
     let w = ultrasonic_trigger E (trigPin sensor) w;
     ((rose, _), w) \<leftarrow> aeb_waitPinState E (echoPin sensor) True AEB_ULTRA_ECHO_TIMEOUT_US False w;
     if \<not> rose then Some ((None, sensor\<lparr>lastDiag := AEB_ULTRA_DIAG_NO_ECHO_RISE\<rparr>), w) else do {
     let (pulseStart, w) = aeb_nowTicks E w;
     ((fell, _), w) \<leftarrow> aeb_waitPinState E (echoPin sensor) False AEB_ULTRA_ECHO_TIMEOUT_US False w;
     if \<not> fell then Some ((None, sensor\<lparr>lastDiag := AEB_ULTRA_DIAG_NO_ECHO_FALL\<rparr>), w) else do {
     let (now, w) = aeb_nowTicks E w;
     pulseUs \<leftarrow> aeb_ticksToUs E (now - pulseStart);
     Some (ultrasonic_range pulseUs sensor, w) }}}"

text \<open>Storing a valid sample; the index is read before it is advanced.\<close>

definition store_sample :: "u16 \<Rightarrow> AebUltrasonicSensor \<Rightarrow> AebUltrasonicSensor option" where
  "store_sample rawCmX10 sensor =
     (if unat (sampleIndex sensor) < length (samples sensor) then do {
        let sensor = sensor\<lparr>samples := (samples sensor)[unat (sampleIndex sensor) := rawCmX10]\<rparr>;
        let sensor = sensor\<lparr>sampleIndex := ucast ((ucast (sampleIndex sensor) + 1 :: u32) mod 3)\<rparr>;
        let sensor = (if sampleCount sensor < 3 then sensor\<lparr>sampleCount := sampleCount sensor + 1\<rparr> else sensor);
        m \<leftarrow> aeb_median3 (samples sensor) (sampleCount sensor);
        Some (sensor\<lparr>filteredCmX10 := m\<rparr>) }
      else None)"

definition aeb_ultrasonicUpdate ::
    "hw \<Rightarrow> AebUltrasonicSensor \<Rightarrow> trace \<Rightarrow> ((bool \<times> AebUltrasonicSensor) \<times> trace) option" where
  "aeb_ultrasonicUpdate E sensor w = do {
     ((raw, sensor), w) \<leftarrow> aeb_ultrasonicReadCmX10 E sensor w;
     (sensor, w) \<leftarrow> (case raw of None \<Rightarrow> Some (sensor, w) | Some rawCmX10 \<Rightarrow> do {
        sensor \<leftarrow> store_sample rawCmX10 sensor;
        let (now, w) = aeb_nowTicks E w;
        Some (sensor\<lparr>lastValidTick := now\<rparr>, w) });
     let (fresh, w) = aeb_isFresh E (lastValidTick sensor) AEB_ULTRA_STALE_MS w;
     Some ((fresh, sensor), w) }"

end
