(* ===== verification/FrontI2c.thy ===== *)
theory FrontI2c
  imports FrontSensors
begin

text \<open>
  FRONT/AebSensorNode.c, second part: the bit-banged I2C bus. Each function returns None
  only when a polling loop would never end; \<open>False\<close>, or None for the bytes read, is the
  code's own FALSE. Data of a transfer that fails is never used by the code and is dropped.
\<close>

section \<open>Lines\<close>

definition aeb_i2cReleaseSda :: "trace \<Rightarrow> trace" where
  "aeb_i2cReleaseSda w = SetMode AEB_TOF_SDA InPullUp # w"

definition aeb_i2cReleaseScl :: "trace \<Rightarrow> trace" where
  "aeb_i2cReleaseScl w = SetMode AEB_TOF_SCL InPullUp # w"

definition aeb_i2cDriveSdaLow :: "trace \<Rightarrow> trace" where
  "aeb_i2cDriveSdaLow w = SetMode AEB_TOF_SDA OutPushPull # SetPin AEB_TOF_SDA False # w"

definition aeb_i2cDriveSclLow :: "trace \<Rightarrow> trace" where
  "aeb_i2cDriveSclLow w = SetMode AEB_TOF_SCL OutPushPull # SetPin AEB_TOF_SCL False # w"

definition half_period :: "hw \<Rightarrow> trace \<Rightarrow> trace" where
  "half_period E w = aeb_delayUs E AEB_TOF_I2C_HALF_PERIOD_US w"

definition scl_round :: "hw \<times> u32 \<times> u32 \<Rightarrow> trace \<Rightarrow> (bool option \<times> trace) option" where
  "scl_round = (\<lambda>(E, start, timeoutTicks) w.
     let (level, w) = pin_read E AEB_TOF_SCL w in
     if \<not> level then
       (let (now, w) = aeb_nowTicks E w in
        if timeoutTicks < now - start then Some (Some False, w) else Some (None, w))
     else Some (Some True, w))"

definition aeb_i2cWaitSclHigh :: "hw \<Rightarrow> trace \<Rightarrow> (bool \<times> trace) option" where
  "aeb_i2cWaitSclHigh E w =
     (let (start, w) = aeb_nowTicks E w; timeoutTicks = aeb_ticksFromUs E AEB_TOF_I2C_SCL_TIMEOUT_US
      in poll_loop (scl_round (E, start, timeoutTicks)) w)"

section \<open>Bus conditions and bytes\<close>

fun bus_clocks :: "hw \<Rightarrow> nat \<Rightarrow> trace \<Rightarrow> (unit \<times> trace) option" where
  "bus_clocks E 0 w = Some ((), w)"
| "bus_clocks E (Suc n) w = do {
     let w = half_period E (aeb_i2cDriveSclLow w);
     (_, w) \<leftarrow> aeb_i2cWaitSclHigh E (aeb_i2cReleaseScl w);
     bus_clocks E n (half_period E w) }"

definition aeb_i2cBusInit :: "hw \<Rightarrow> trace \<Rightarrow> (unit \<times> trace) option" where
  "aeb_i2cBusInit E w =
     bus_clocks E 9 (half_period E (aeb_i2cReleaseScl (aeb_i2cReleaseSda w)))"

definition aeb_i2cStart :: "hw \<Rightarrow> trace \<Rightarrow> (bool \<times> trace) option" where
  "aeb_i2cStart E w = do {
     (high, w) \<leftarrow> aeb_i2cWaitSclHigh E (aeb_i2cReleaseScl (aeb_i2cReleaseSda w));
     if \<not> high then Some (False, w)
     else Some (True, aeb_i2cDriveSclLow (half_period E (aeb_i2cDriveSdaLow (half_period E w)))) }"

definition aeb_i2cStop :: "hw \<Rightarrow> trace \<Rightarrow> (bool \<times> trace) option" where
  "aeb_i2cStop E w = do {
     (high, w) \<leftarrow> aeb_i2cWaitSclHigh E (aeb_i2cReleaseScl (half_period E (aeb_i2cDriveSdaLow w)));
     if \<not> high then Some (False, w)
     else Some (True, half_period E (aeb_i2cReleaseSda (half_period E w))) }"

text \<open>The bits of a byte, most significant first, as the loop counts them.\<close>

definition bit_order :: "nat list" where
  "bit_order = [7, 6, 5, 4, 3, 2, 1, 0]"

fun write_bits :: "hw \<Rightarrow> u8 \<Rightarrow> nat list \<Rightarrow> trace \<Rightarrow> (bool \<times> trace) option" where
  "write_bits E b [] w = Some (True, w)"
| "write_bits E b (n # ns) w = do {
     let w = (if b AND push_bit n 1 \<noteq> 0 then aeb_i2cReleaseSda w else aeb_i2cDriveSdaLow w);
     (high, w) \<leftarrow> aeb_i2cWaitSclHigh E (aeb_i2cReleaseScl (half_period E w));
     if \<not> high then Some (False, w)
     else write_bits E b ns (aeb_i2cDriveSclLow (half_period E w)) }"

definition aeb_i2cWriteByte :: "hw \<Rightarrow> u8 \<Rightarrow> trace \<Rightarrow> (bool \<times> trace) option" where
  "aeb_i2cWriteByte E b w = do {
     (ok, w) \<leftarrow> write_bits E b bit_order w;
     if \<not> ok then Some (False, w) else do {
     (high, w) \<leftarrow> aeb_i2cWaitSclHigh E (aeb_i2cReleaseScl (half_period E (aeb_i2cReleaseSda w)));
     if \<not> high then Some (False, w) else do {
     let (level, w) = pin_read E AEB_TOF_SDA (half_period E w);
     let ack = (\<not> level);
     Some (ack, aeb_i2cDriveSclLow w) }}}"

fun read_bits :: "hw \<Rightarrow> u8 \<Rightarrow> nat list \<Rightarrow> trace \<Rightarrow> (u8 option \<times> trace) option" where
  "read_bits E b [] w = Some (Some b, w)"
| "read_bits E b (n # ns) w = do {
     (high, w) \<leftarrow> aeb_i2cWaitSclHigh E (aeb_i2cReleaseScl (half_period E w));
     if \<not> high then Some (None, w) else do {
     let (level, w) = pin_read E AEB_TOF_SDA w;
     read_bits E (if level then b OR push_bit n 1 else b) ns (aeb_i2cDriveSclLow (half_period E w)) }}"

definition aeb_i2cReadByte :: "hw \<Rightarrow> bool \<Rightarrow> trace \<Rightarrow> (u8 \<times> trace) option" where
  "aeb_i2cReadByte E ack w = do {
     (byte, w) \<leftarrow> read_bits E 0 bit_order (aeb_i2cReleaseSda w);
     case byte of None \<Rightarrow> Some (0xFF, w) | Some b \<Rightarrow> do {
     let w = (if ack then aeb_i2cDriveSdaLow w else aeb_i2cReleaseSda w);
     (_, w) \<leftarrow> aeb_i2cWaitSclHigh E (aeb_i2cReleaseScl (half_period E w));
     Some (b, aeb_i2cReleaseSda (aeb_i2cDriveSclLow (half_period E w))) }}"

section \<open>Transfers\<close>

fun write_bytes :: "hw \<Rightarrow> u8 list \<Rightarrow> trace \<Rightarrow> (bool \<times> trace) option" where
  "write_bytes E [] w = Some (True, w)"
| "write_bytes E (b # bs) w = do {
     (ok, w) \<leftarrow> aeb_i2cWriteByte E b w;
     if ok then write_bytes E bs w else Some (False, w) }"

fun read_bytes :: "hw \<Rightarrow> nat \<Rightarrow> trace \<Rightarrow> (u8 list \<times> trace) option" where
  "read_bytes E 0 w = Some ([], w)"
| "read_bytes E (Suc n) w = do {
     (b, w) \<leftarrow> aeb_i2cReadByte E (0 < n) w;
     (bs, w) \<leftarrow> read_bytes E n w;
     Some (b # bs, w) }"

definition stop_failed :: "hw \<Rightarrow> trace \<Rightarrow> (bool \<times> trace) option" where
  "stop_failed E w = do { (_, w) \<leftarrow> aeb_i2cStop E w; Some (False, w) }"

definition i2c_address :: u8 where
  "i2c_address = push_bit 1 AEB_TOF_I2C_ADDRESS_7BIT"

definition aeb_i2cWrite :: "hw \<Rightarrow> u8 list \<Rightarrow> trace \<Rightarrow> (bool \<times> trace) option" where
  "aeb_i2cWrite E data w = do {
     (ok, w) \<leftarrow> aeb_i2cStart E w;
     if \<not> ok then stop_failed E w else do {
     (ok, w) \<leftarrow> aeb_i2cWriteByte E i2c_address w;
     if \<not> ok then stop_failed E w else do {
     (ok, w) \<leftarrow> write_bytes E data w;
     if \<not> ok then stop_failed E w else aeb_i2cStop E w }}}"

definition aeb_i2cWriteToRegister :: "hw \<Rightarrow> u8 \<Rightarrow> u8 list \<Rightarrow> trace \<Rightarrow> (bool \<times> trace) option" where
  "aeb_i2cWriteToRegister E reg data w = do {
     (ok, w) \<leftarrow> aeb_i2cStart E w;
     if \<not> ok then stop_failed E w else do {
     (ok, w) \<leftarrow> write_bytes E [i2c_address, reg] w;
     if \<not> ok then stop_failed E w else do {
     (ok, w) \<leftarrow> write_bytes E data w;
     if \<not> ok then stop_failed E w else aeb_i2cStop E w }}}"

definition read_failed :: "hw \<Rightarrow> trace \<Rightarrow> (u8 list option \<times> trace) option" where
  "read_failed E w = do { (_, w) \<leftarrow> aeb_i2cStop E w; Some (None, w) }"

definition aeb_i2cReadFromRegister :: "hw \<Rightarrow> u8 \<Rightarrow> nat \<Rightarrow> trace \<Rightarrow> (u8 list option \<times> trace) option" where
  "aeb_i2cReadFromRegister E reg n w = do {
     (ok, w) \<leftarrow> aeb_i2cStart E w;
     if \<not> ok then read_failed E w else do {
     (ok, w) \<leftarrow> write_bytes E [i2c_address, reg] w;
     if \<not> ok then read_failed E w else do {
     (ok, w) \<leftarrow> aeb_i2cStart E w;
     if \<not> ok then read_failed E w else do {
     (ok, w) \<leftarrow> aeb_i2cWriteByte E (i2c_address OR 1) w;
     if \<not> ok then read_failed E w else do {
     (bs, w) \<leftarrow> read_bytes E n w;
     (ok, w) \<leftarrow> aeb_i2cStop E w;
     Some (if ok then Some bs else None, w) }}}}}"

section \<open>Registers of the sensor\<close>

definition aeb_vl53l0xWrite8 :: "hw \<Rightarrow> u8 \<Rightarrow> u8 \<Rightarrow> trace \<Rightarrow> (bool \<times> trace) option" where
  "aeb_vl53l0xWrite8 E reg value w = aeb_i2cWrite E [reg, value] w"

definition aeb_vl53l0xRead8 :: "hw \<Rightarrow> u8 \<Rightarrow> trace \<Rightarrow> (u8 option \<times> trace) option" where
  "aeb_vl53l0xRead8 E reg w = do {
     (bs, w) \<leftarrow> aeb_i2cReadFromRegister E reg 1 w;
     Some (map_option (\<lambda>bs. bs ! 0) bs, w) }"

definition aeb_vl53l0xRead16 :: "hw \<Rightarrow> u8 \<Rightarrow> trace \<Rightarrow> (u16 option \<times> trace) option" where
  "aeb_vl53l0xRead16 E reg w = do {
     (bs, w) \<leftarrow> aeb_i2cReadFromRegister E reg 2 w;
     Some (map_option (\<lambda>bs. push_bit 8 (ucast (bs ! 0)) OR ucast (bs ! 1)) bs, w) }"

definition aeb_vl53l0xWrite16 :: "hw \<Rightarrow> u8 \<Rightarrow> u16 \<Rightarrow> trace \<Rightarrow> (bool \<times> trace) option" where
  "aeb_vl53l0xWrite16 E reg value w =
     aeb_i2cWriteToRegister E reg [ucast (drop_bit 8 value), ucast value] w"

definition aeb_vl53l0xReadMulti :: "hw \<Rightarrow> u8 \<Rightarrow> nat \<Rightarrow> trace \<Rightarrow> (u8 list option \<times> trace) option" where
  "aeb_vl53l0xReadMulti E reg n w = aeb_i2cReadFromRegister E reg n w"

definition aeb_vl53l0xWriteMulti :: "hw \<Rightarrow> u8 \<Rightarrow> u8 list \<Rightarrow> trace \<Rightarrow> (bool \<times> trace) option" where
  "aeb_vl53l0xWriteMulti E reg data w = aeb_i2cWriteToRegister E reg data w"

end
