(* ===== verification/FrontTof.thy ===== *)
theory FrontTof
  imports FrontI2c
begin

text \<open>
  FRONT/AebSensorNode.c, third part: the VL53L0X time-of-flight sensor behind the I2C bus
  -- reset, identification, initialisation, calibration, measurement -- and its diagnosis.
\<close>

section \<open>Diagnosis codes and registers\<close>

definition AEB_TOF_DIAG_NOT_TRIED :: u16 where "AEB_TOF_DIAG_NOT_TRIED = 0x00"
definition AEB_TOF_DIAG_MODEL_READ_FAIL :: u16 where "AEB_TOF_DIAG_MODEL_READ_FAIL = 0xA1"
definition AEB_TOF_DIAG_UNEXPECTED_MODEL :: u16 where "AEB_TOF_DIAG_UNEXPECTED_MODEL = 0xA2"
definition AEB_TOF_DIAG_INIT_FAIL :: u16 where "AEB_TOF_DIAG_INIT_FAIL = 0xA3"
definition AEB_TOF_DIAG_CALIBRATION_FAIL :: u16 where "AEB_TOF_DIAG_CALIBRATION_FAIL = 0xA4"
definition AEB_TOF_DIAG_VL53L0X_PRESENT :: u16 where "AEB_TOF_DIAG_VL53L0X_PRESENT = 0x03"
definition AEB_TOF_DIAG_MEASURE_START_FAIL :: u16 where "AEB_TOF_DIAG_MEASURE_START_FAIL = 0xB1"
definition AEB_TOF_DIAG_MEASURE_STATUS_FAIL :: u16 where "AEB_TOF_DIAG_MEASURE_STATUS_FAIL = 0xB2"
definition AEB_TOF_DIAG_MEASURE_TIMEOUT :: u16 where "AEB_TOF_DIAG_MEASURE_TIMEOUT = 0xB3"
definition AEB_TOF_DIAG_RANGE_READ_FAIL :: u16 where "AEB_TOF_DIAG_RANGE_READ_FAIL = 0xB4"
definition AEB_TOF_DIAG_RANGE_OUT_OF_LIMIT :: u16 where "AEB_TOF_DIAG_RANGE_OUT_OF_LIMIT = 0xB5"

definition VL53L0X_SYSRANGE_START :: u8 where "VL53L0X_SYSRANGE_START = 0x00"
definition VL53L0X_SYSTEM_SEQUENCE_CONFIG :: u8 where "VL53L0X_SYSTEM_SEQUENCE_CONFIG = 0x01"
definition VL53L0X_SYSTEM_INTERRUPT_CONFIG_GPIO :: u8 where "VL53L0X_SYSTEM_INTERRUPT_CONFIG_GPIO = 0x0A"
definition VL53L0X_SYSTEM_INTERRUPT_CLEAR :: u8 where "VL53L0X_SYSTEM_INTERRUPT_CLEAR = 0x0B"
definition VL53L0X_RESULT_INTERRUPT_STATUS :: u8 where "VL53L0X_RESULT_INTERRUPT_STATUS = 0x13"
definition VL53L0X_RESULT_RANGE_MM :: u8 where "VL53L0X_RESULT_RANGE_MM = 0x1E"
definition VL53L0X_MSRC_CONFIG_CONTROL :: u8 where "VL53L0X_MSRC_CONFIG_CONTROL = 0x60"
definition VL53L0X_GPIO_HV_MUX_ACTIVE_HIGH :: u8 where "VL53L0X_GPIO_HV_MUX_ACTIVE_HIGH = 0x84"
definition VL53L0X_VHV_CONFIG_PAD_SCL_SDA_EXTSUP :: u8 where "VL53L0X_VHV_CONFIG_PAD_SCL_SDA_EXTSUP = 0x89"
definition VL53L0X_GLOBAL_CONFIG_SPAD_ENABLES :: u8 where "VL53L0X_GLOBAL_CONFIG_SPAD_ENABLES = 0xB0"
definition VL53L0X_GLOBAL_CONFIG_REF_START :: u8 where "VL53L0X_GLOBAL_CONFIG_REF_START = 0xB6"

lemmas tof_diags [consts_simps] =
  AEB_TOF_DIAG_NOT_TRIED_def AEB_TOF_DIAG_MODEL_READ_FAIL_def AEB_TOF_DIAG_UNEXPECTED_MODEL_def
  AEB_TOF_DIAG_INIT_FAIL_def AEB_TOF_DIAG_CALIBRATION_FAIL_def AEB_TOF_DIAG_VL53L0X_PRESENT_def
  AEB_TOF_DIAG_MEASURE_START_FAIL_def AEB_TOF_DIAG_MEASURE_STATUS_FAIL_def AEB_TOF_DIAG_MEASURE_TIMEOUT_def
  AEB_TOF_DIAG_RANGE_READ_FAIL_def AEB_TOF_DIAG_RANGE_OUT_OF_LIMIT_def

definition g_vl53l0xDefaultTuning :: "(u8 \<times> u8) list" where
  "g_vl53l0xDefaultTuning = [
     (0xFF, 0x01), (0x00, 0x00), (0xFF, 0x00), (0x09, 0x00), (0x10, 0x00), (0x11, 0x00), (0x24, 0x01), (0x25, 0xFF),
     (0x75, 0x00), (0xFF, 0x01), (0x4E, 0x2C), (0x48, 0x00), (0x30, 0x20), (0xFF, 0x00), (0x30, 0x09), (0x54, 0x00),
     (0x31, 0x04), (0x32, 0x03), (0x40, 0x83), (0x46, 0x25), (0x60, 0x00), (0x27, 0x00), (0x50, 0x06), (0x51, 0x00),
     (0x52, 0x96), (0x56, 0x08), (0x57, 0x30), (0x61, 0x00), (0x62, 0x00), (0x64, 0x00), (0x65, 0x00), (0x66, 0xA0),
     (0xFF, 0x01), (0x22, 0x32), (0x47, 0x14), (0x49, 0xFF), (0x4A, 0x00), (0xFF, 0x00), (0x7A, 0x0A), (0x7B, 0x00),
     (0x78, 0x21), (0xFF, 0x01), (0x23, 0x34), (0x42, 0x00), (0x44, 0xFF), (0x45, 0x26), (0x46, 0x05), (0x40, 0x40),
     (0x0E, 0x06), (0x20, 0x1A), (0x43, 0x40), (0xFF, 0x00), (0x34, 0x03), (0x35, 0x44), (0xFF, 0x01), (0x31, 0x04),
     (0x4B, 0x09), (0x4C, 0x05), (0x4D, 0x04), (0xFF, 0x00), (0x44, 0x00), (0x45, 0x20), (0x47, 0x08), (0x48, 0x28),
     (0x67, 0x00), (0x70, 0x04), (0x71, 0x01), (0x72, 0xFE), (0x76, 0x00), (0x77, 0x00), (0xFF, 0x01), (0x0D, 0x01),
     (0xFF, 0x00), (0x80, 0x01), (0x01, 0xF8), (0xFF, 0x01), (0x8E, 0x01), (0x00, 0x01), (0xFF, 0x00), (0x80, 0x00)]"

section \<open>Sequences of register accesses\<close>

text \<open>\<open>a || b\<close> in a condition: \<open>b\<close> is reached only when \<open>a\<close> succeeded.\<close>

fun write_seq :: "hw \<Rightarrow> (u8 \<times> u8) list \<Rightarrow> trace \<Rightarrow> (bool \<times> trace) option" where
  "write_seq E [] w = Some (True, w)"
| "write_seq E ((reg, value) # rs) w = do {
     (ok, w) \<leftarrow> aeb_vl53l0xWrite8 E reg value w;
     if \<not> ok then Some (False, w) else write_seq E rs w }"

definition read_then ::
    "hw \<Rightarrow> u8 \<Rightarrow> (u8 \<Rightarrow> trace \<Rightarrow> (bool \<times> trace) option) \<Rightarrow> trace \<Rightarrow> (bool \<times> trace) option" where
  "read_then E reg f w = do {
     (value, w) \<leftarrow> aeb_vl53l0xRead8 E reg w;
     case value of None \<Rightarrow> Some (False, w) | Some v \<Rightarrow> f v w }"

definition and_then ::
    "(trace \<Rightarrow> (bool \<times> trace) option) \<Rightarrow> (trace \<Rightarrow> (bool \<times> trace) option) \<Rightarrow> trace \<Rightarrow> (bool \<times> trace) option" where
  "and_then a b w = do { (ok, w) \<leftarrow> a w; if \<not> ok then Some (False, w) else b w }"

definition aeb_tofResetByXshut :: "hw \<Rightarrow> trace \<Rightarrow> trace" where
  "aeb_tofResetByXshut E w =
     (let w = SetMode AEB_TOF_XSHUT OutPushPull # w;
          w = SetPin AEB_TOF_XSHUT False # w;
          w = aeb_delayMs E AEB_TOF_XSHUT_RESET_LOW_MS w;
          w = SetPin AEB_TOF_XSHUT True # w
      in aeb_delayMs E AEB_TOF_BOOT_WAIT_MS w)"

definition aeb_vl53l0xApplyDefaultTuning :: "hw \<Rightarrow> trace \<Rightarrow> (bool \<times> trace) option" where
  "aeb_vl53l0xApplyDefaultTuning E w = write_seq E g_vl53l0xDefaultTuning w"

section \<open>Waiting for the sensor\<close>

text \<open>The three do-while loops read a register until some of its bits are set or the time is
  up. The result is the last value read, or None when a read failed.\<close>

definition reg_round ::
    "hw \<times> u8 \<times> u8 \<times> u32 \<times> u32 \<Rightarrow> trace \<Rightarrow> (u8 option option \<times> trace) option" where
  "reg_round = (\<lambda>(E, reg, sel, startTick, timeoutTicks) w. do {
     (value, w) \<leftarrow> aeb_vl53l0xRead8 E reg w;
     case value of None \<Rightarrow> Some (Some None, w)
     | Some v \<Rightarrow> if v AND sel \<noteq> 0 then Some (Some (Some v), w)
         else (let (now, w) = aeb_nowTicks E w in
               if now - startTick < timeoutTicks then Some (None, w) else Some (Some (Some v), w)) })"

definition wait_register :: "hw \<Rightarrow> u8 \<Rightarrow> u8 \<Rightarrow> u32 \<Rightarrow> trace \<Rightarrow> (u8 option \<times> trace) option" where
  "wait_register E reg sel timeoutMs w =
     (let (startTick, w) = aeb_nowTicks E w; timeoutTicks = aeb_ticksFromMs E timeoutMs
      in poll_loop (reg_round (E, reg, sel, startTick, timeoutTicks)) w)"

section \<open>Reference SPADs\<close>

definition aeb_vl53l0xGetSpadInfo :: "hw \<Rightarrow> trace \<Rightarrow> ((u8 \<times> bool) option \<times> trace) option" where
  "aeb_vl53l0xGetSpadInfo E w = do {
     (ok, w) \<leftarrow> and_then (write_seq E [(0x80, 0x01), (0xFF, 0x01), (0x00, 0x00), (0xFF, 0x06)])
       (read_then E 0x83 (\<lambda>value. write_seq E [(0x83, value OR 0x04), (0xFF, 0x07), (0x81, 0x01),
          (0x80, 0x01), (0x94, 0x6B), (0x83, 0x00)])) w;
     if \<not> ok then Some (None, w) else do {
     (value, w) \<leftarrow> wait_register E 0x83 0xFF 100 w;
     case value of None \<Rightarrow> Some (None, w) | Some value \<Rightarrow>
     if value = 0 then Some (None, w) else do {
     (ok, w) \<leftarrow> aeb_vl53l0xWrite8 E 0x83 0x01 w;
     if \<not> ok then Some (None, w) else do {
     (value, w) \<leftarrow> aeb_vl53l0xRead8 E 0x92 w;
     case value of None \<Rightarrow> Some (None, w) | Some value \<Rightarrow> do {
     let count = value AND 0x7F;
     let typeIsAperture = (value AND 0x80 \<noteq> 0);
     (ok, w) \<leftarrow> and_then (write_seq E [(0x81, 0x00), (0xFF, 0x06)])
       (read_then E 0x83 (\<lambda>value. write_seq E [(0x83, value AND NOT 0x04), (0xFF, 0x01),
          (0x00, 0x01), (0xFF, 0x00), (0x80, 0x00)])) w;
     Some (if ok then Some (count, typeIsAperture) else None, w) }}}}}"

text \<open>The loop that keeps the first \<open>spadCount\<close> enabled SPADs from the first usable one on.\<close>

definition spad_step :: "u8 \<Rightarrow> u8 \<Rightarrow> nat \<Rightarrow> u8 list \<times> u8 \<Rightarrow> u8 list \<times> u8" where
  "spad_step firstSpadToEnable spadCount i = (\<lambda>(refSpadMap, enabledSpads).
     let byteIndex = i div 8; bitMask = (push_bit (i mod 8) 1 :: u8) in
     if i < unat firstSpadToEnable \<or> enabledSpads = spadCount
     then (refSpadMap[byteIndex := refSpadMap ! byteIndex AND NOT bitMask], enabledSpads)
     else if refSpadMap ! byteIndex AND bitMask \<noteq> 0 then (refSpadMap, enabledSpads + 1)
     else (refSpadMap, enabledSpads))"

definition select_spads :: "u8 \<Rightarrow> bool \<Rightarrow> u8 list \<Rightarrow> u8 list" where
  "select_spads spadCount spadTypeIsAperture refSpadMap =
     (let firstSpadToEnable = (if spadTypeIsAperture then 12 else 0)
      in fst (fold (spad_step firstSpadToEnable spadCount) [0 ..< 48] (refSpadMap, 0)))"

definition aeb_vl53l0xConfigureSpads :: "hw \<Rightarrow> trace \<Rightarrow> (bool \<times> trace) option" where
  "aeb_vl53l0xConfigureSpads E w = do {
     (info, w) \<leftarrow> aeb_vl53l0xGetSpadInfo E w;
     case info of None \<Rightarrow> Some (False, w) | Some (spadCount, spadTypeIsAperture) \<Rightarrow> do {
     (spads, w) \<leftarrow> aeb_vl53l0xReadMulti E VL53L0X_GLOBAL_CONFIG_SPAD_ENABLES 6 w;
     case spads of None \<Rightarrow> Some (False, w) | Some refSpadMap \<Rightarrow> do {
     (ok, w) \<leftarrow> write_seq E [(0xFF, 0x01), (0x4F, 0x00), (0x4E, 0x2C), (0xFF, 0x00),
        (VL53L0X_GLOBAL_CONFIG_REF_START, 0xB4)] w;
     if \<not> ok then Some (False, w)
     else aeb_vl53l0xWriteMulti E VL53L0X_GLOBAL_CONFIG_SPAD_ENABLES
       (select_spads spadCount spadTypeIsAperture refSpadMap) w }}}"

section \<open>Calibration and initialisation\<close>

definition aeb_vl53l0xPerformSingleRefCalibration :: "hw \<Rightarrow> u8 \<Rightarrow> trace \<Rightarrow> (bool \<times> trace) option" where
  "aeb_vl53l0xPerformSingleRefCalibration E vhvInitByte w = do {
     (ok, w) \<leftarrow> aeb_vl53l0xWrite8 E VL53L0X_SYSRANGE_START (0x01 OR vhvInitByte) w;
     if \<not> ok then Some (False, w) else do {
     (status, w) \<leftarrow> wait_register E VL53L0X_RESULT_INTERRUPT_STATUS 0x07 150 w;
     case status of None \<Rightarrow> Some (False, w) | Some status \<Rightarrow>
     if status AND 0x07 = 0 then Some (False, w)
     else write_seq E [(VL53L0X_SYSTEM_INTERRUPT_CLEAR, 0x01), (VL53L0X_SYSRANGE_START, 0x00)] w }}"

definition with_code :: "u16 \<Rightarrow> u16 \<Rightarrow> u16" where
  "with_code code diag = (diag AND 0xFF00) OR code"

text \<open>The result is whether it succeeded and the new diagnosis.\<close>

definition aeb_vl53l0xInitSensor :: "hw \<Rightarrow> u16 \<Rightarrow> trace \<Rightarrow> ((bool \<times> u16) \<times> trace) option" where
  "aeb_vl53l0xInitSensor E g_tofDiag w = do {
     (value, w) \<leftarrow> aeb_vl53l0xRead8 E VL53L0X_VHV_CONFIG_PAD_SCL_SDA_EXTSUP w;
     (_, w) \<leftarrow> (case value of None \<Rightarrow> Some (False, w)
       | Some value \<Rightarrow> aeb_vl53l0xWrite8 E VL53L0X_VHV_CONFIG_PAD_SCL_SDA_EXTSUP (value OR 0x01) w);
     (ok, w) \<leftarrow> and_then (write_seq E [(0x88, 0x00), (0x80, 0x01), (0xFF, 0x01), (0x00, 0x00)])
       (read_then E 0x91 (\<lambda>_. write_seq E [(0x00, 0x01), (0xFF, 0x00), (0x80, 0x00)])) w;
     if \<not> ok then Some ((False, g_tofDiag), w) else do {
     (ok, w) \<leftarrow> read_then E VL53L0X_MSRC_CONFIG_CONTROL
       (\<lambda>value. and_then (aeb_vl53l0xWrite8 E VL53L0X_MSRC_CONFIG_CONTROL (value OR 0x12))
         (and_then (aeb_vl53l0xWrite16 E 0x44 0x0020)
           (and_then (aeb_vl53l0xWrite8 E VL53L0X_SYSTEM_SEQUENCE_CONFIG 0xFF)
             (and_then (aeb_vl53l0xConfigureSpads E) (aeb_vl53l0xApplyDefaultTuning E))))) w;
     if \<not> ok then Some ((False, g_tofDiag), w) else do {
     (ok, w) \<leftarrow> and_then (aeb_vl53l0xWrite8 E VL53L0X_SYSTEM_INTERRUPT_CONFIG_GPIO 0x04)
       (read_then E VL53L0X_GPIO_HV_MUX_ACTIVE_HIGH
         (\<lambda>value. write_seq E [(VL53L0X_GPIO_HV_MUX_ACTIVE_HIGH, value AND NOT 0x10),
            (VL53L0X_SYSTEM_INTERRUPT_CLEAR, 0x01), (VL53L0X_SYSTEM_SEQUENCE_CONFIG, 0xE8)])) w;
     if \<not> ok then Some ((False, g_tofDiag), w) else do {
     (ok, w) \<leftarrow> and_then (aeb_vl53l0xWrite8 E VL53L0X_SYSTEM_SEQUENCE_CONFIG 0x01)
       (and_then (aeb_vl53l0xPerformSingleRefCalibration E 0x40)
         (and_then (aeb_vl53l0xWrite8 E VL53L0X_SYSTEM_SEQUENCE_CONFIG 0x02)
           (aeb_vl53l0xPerformSingleRefCalibration E 0x00))) w;
     if \<not> ok then Some ((False, with_code AEB_TOF_DIAG_CALIBRATION_FAIL g_tofDiag), w) else do {
     (ok, w) \<leftarrow> aeb_vl53l0xWrite8 E VL53L0X_SYSTEM_SEQUENCE_CONFIG 0xE8 w;
     Some ((ok, g_tofDiag), w) }}}}}"

section \<open>The sensor's state\<close>

record tof_state =
  g_tofPresent :: bool
  g_tofCmX10 :: u16
  g_tofLastValidTick :: u32
  g_tofNextInitTick :: u32
  g_tofInitAttempted :: bool
  g_tofDiag :: u16

fun tof_probe_attempts :: "hw \<Rightarrow> nat \<Rightarrow> tof_state \<Rightarrow> trace \<Rightarrow> ((bool \<times> tof_state) \<times> trace) option" where
  "tof_probe_attempts E 0 s w = Some ((False, s), w)"
| "tof_probe_attempts E (Suc n) s w = do {
     (r, w) \<leftarrow> aeb_vl53l0xRead8 E 0xC0 w;
     if r = Some 0xEE
     then Some ((True, s\<lparr>g_tofDiag := push_bit 8 0xEE OR AEB_TOF_DIAG_VL53L0X_PRESENT\<rparr>), w)
     else do {
       let s = (case r of None \<Rightarrow> s\<lparr>g_tofDiag := AEB_TOF_DIAG_MODEL_READ_FAIL\<rparr>
          | Some modelId \<Rightarrow> s\<lparr>g_tofDiag := push_bit 8 (ucast modelId) OR AEB_TOF_DIAG_UNEXPECTED_MODEL\<rparr>);
       tof_probe_attempts E n s (aeb_delayMs E 10 w) }}"

definition aeb_tofProbe :: "hw \<Rightarrow> tof_state \<Rightarrow> trace \<Rightarrow> ((bool \<times> tof_state) \<times> trace) option" where
  "aeb_tofProbe E s w = tof_probe_attempts E 5 s w"

definition aeb_tofInit :: "hw \<Rightarrow> tof_state \<Rightarrow> trace \<Rightarrow> (tof_state \<times> trace) option" where
  "aeb_tofInit E s w = do {
     (_, w) \<leftarrow> aeb_i2cBusInit E (aeb_tofResetByXshut E w);
     ((found, s), w) \<leftarrow> aeb_tofProbe E s w;
     if \<not> found then Some (s\<lparr>g_tofPresent := False\<rparr>, w) else do {
     ((ok, diag), w) \<leftarrow> aeb_vl53l0xInitSensor E (g_tofDiag s) w;
     let s = s\<lparr>g_tofDiag := diag\<rparr>;
     if \<not> ok then do {
       let s = (if g_tofDiag s AND 0x00FF \<noteq> AEB_TOF_DIAG_CALIBRATION_FAIL
                then s\<lparr>g_tofDiag := with_code AEB_TOF_DIAG_INIT_FAIL (g_tofDiag s)\<rparr> else s);
       Some (s\<lparr>g_tofPresent := False\<rparr>, w) }
     else Some (s\<lparr>g_tofDiag := with_code AEB_TOF_DIAG_VL53L0X_PRESENT (g_tofDiag s), g_tofPresent := True\<rparr>, w) }}"

text \<open>A finished measurement of \<open>rawMm\<close>, before the time is stamped: the new distance, if it is
  in range. The scale converts millimetres to tenths of a centimetre.\<close>

definition tof_range :: "u16 \<Rightarrow> u32 option" where
  "tof_range rawMm = f32_to_u32 (fadd (fmul (u32_to_f32 (ucast rawMm)) AEB_TOF_DISTANCE_SCALE) (flit (1 / 2)))"

definition tof_fresh :: "hw \<Rightarrow> u16 \<Rightarrow> tof_state \<Rightarrow> trace \<Rightarrow> (bool \<times> tof_state) \<times> trace" where
  "tof_fresh E code s w =
     (let s = s\<lparr>g_tofDiag := with_code code (g_tofDiag s)\<rparr>;
          (fresh, w) = aeb_isFresh E (g_tofLastValidTick s) AEB_TOF_STALE_MS w
      in ((fresh, s), w))"

definition aeb_tofUpdate :: "hw \<Rightarrow> tof_state \<Rightarrow> trace \<Rightarrow> ((bool \<times> tof_state) \<times> trace) option" where
  "aeb_tofUpdate E s w =
     (if \<not> g_tofPresent s then Some ((False, s), w) else do {
      (ok, w) \<leftarrow> aeb_vl53l0xWrite8 E VL53L0X_SYSRANGE_START 0x01 w;
      if \<not> ok then Some (tof_fresh E AEB_TOF_DIAG_MEASURE_START_FAIL s w) else do {
      (status, w) \<leftarrow> wait_register E VL53L0X_RESULT_INTERRUPT_STATUS 0x07 AEB_TOF_MEASURE_TIMEOUT_MS w;
      case status of None \<Rightarrow> Some (tof_fresh E AEB_TOF_DIAG_MEASURE_STATUS_FAIL s w) | Some status \<Rightarrow>
      if status AND 0x07 = 0 then Some (tof_fresh E AEB_TOF_DIAG_MEASURE_TIMEOUT s w) else do {
      (raw, w) \<leftarrow> aeb_vl53l0xRead16 E VL53L0X_RESULT_RANGE_MM w;
      case raw of None \<Rightarrow> Some (tof_fresh E AEB_TOF_DIAG_RANGE_READ_FAIL s w) | Some rawMm \<Rightarrow> do {
      (_, w) \<leftarrow> aeb_vl53l0xWrite8 E VL53L0X_SYSTEM_INTERRUPT_CLEAR 0x01 w;
      cmX10 \<leftarrow> tof_range rawMm;
      if AEB_TOF_MIN_CM_X10 \<le> cmX10 \<and> cmX10 \<le> AEB_TOF_MAX_CM_X10 then do {
        let (now, w) = aeb_nowTicks E w;
        Some (tof_fresh E AEB_TOF_DIAG_VL53L0X_PRESENT (s\<lparr>g_tofCmX10 := ucast cmX10, g_tofLastValidTick := now\<rparr>) w) }
      else Some (tof_fresh E AEB_TOF_DIAG_RANGE_OUT_OF_LIMIT s w) }}}})"

end
