(* ===== verification/FrontNode.thy ===== *)
theory FrontNode
  imports FrontTof FrontSteering
begin

text \<open>
  FRONT/AebSensorNode.c, last part: the AEB1 packet, the Ethernet side, and the sensor
  node's cycle; and FRONT/Cpu0_Main.c, the loop that runs both nodes.
\<close>

section \<open>Settings\<close>

definition AEB_VALID_ULTRA_LEFT :: u8 where "AEB_VALID_ULTRA_LEFT = push_bit 0 1"
definition AEB_VALID_ULTRA_RIGHT :: u8 where "AEB_VALID_ULTRA_RIGHT = push_bit 1 1"
definition AEB_VALID_TOF :: u8 where "AEB_VALID_TOF = push_bit 2 1"
definition AEB_VALID_STEERING_RX :: u8 where "AEB_VALID_STEERING_RX = push_bit 5 1"
definition AEB_VALID_STEERING_COMMAND :: u8 where "AEB_VALID_STEERING_COMMAND = push_bit 6 1"
definition AEB_VALID_STEERING_CENTER :: u8 where "AEB_VALID_STEERING_CENTER = push_bit 7 1"
definition AEB_ETH_TX_BUFFER_SIZE :: nat where "AEB_ETH_TX_BUFFER_SIZE = 256"
definition AEB_ETH_RX_BUFFER_SIZE :: nat where "AEB_ETH_RX_BUFFER_SIZE = 256"
definition AEB_ETH_MIN_FRAME_SIZE :: u16 where "AEB_ETH_MIN_FRAME_SIZE = 60"
definition AEB_ETH_HEADER_SIZE :: nat where "AEB_ETH_HEADER_SIZE = 14"
definition AEB_IPV4_HEADER_SIZE :: nat where "AEB_IPV4_HEADER_SIZE = 20"
definition AEB_UDP_HEADER_SIZE :: nat where "AEB_UDP_HEADER_SIZE = 8"
definition AEB_PAYLOAD_SIZE :: nat where "AEB_PAYLOAD_SIZE = 22"
definition AEB_ETH_SRC_PORT :: u16 where "AEB_ETH_SRC_PORT = 5011"
definition AEB_ETH_DST_PORT :: u16 where "AEB_ETH_DST_PORT = 5011"
definition g_srcMac :: "u8 list" where "g_srcMac = [0x02, 0x37, 0x50, 0xAE, 0xB0, 0x01]"
definition g_dstMac :: "u8 list" where "g_dstMac = [0xFF, 0xFF, 0xFF, 0xFF, 0xFF, 0xFF]"
definition g_srcIp :: "u8 list" where "g_srcIp = [192, 168, 10, 11]"
definition g_dstIp :: "u8 list" where "g_dstIp = [192, 168, 10, 1]"

lemmas node_consts [consts_simps] =
  AEB_VALID_ULTRA_LEFT_def AEB_VALID_ULTRA_RIGHT_def AEB_VALID_TOF_def AEB_VALID_STEERING_RX_def
  AEB_VALID_STEERING_COMMAND_def AEB_VALID_STEERING_CENTER_def AEB_ETH_TX_BUFFER_SIZE_def
  AEB_ETH_RX_BUFFER_SIZE_def AEB_ETH_MIN_FRAME_SIZE_def AEB_ETH_HEADER_SIZE_def AEB_IPV4_HEADER_SIZE_def
  AEB_UDP_HEADER_SIZE_def AEB_PAYLOAD_SIZE_def AEB_ETH_SRC_PORT_def AEB_ETH_DST_PORT_def

section \<open>Checksum and byte order\<close>

fun checksum_words :: "nat \<Rightarrow> u8 list \<Rightarrow> u32 \<Rightarrow> u32 option" where
  "checksum_words (Suc (Suc n)) (b0 # b1 # data) acc =
     checksum_words n data (acc + (push_bit 8 (ucast b0) OR ucast b1))"
| "checksum_words (Suc 0) (b0 # data) acc = Some (acc + push_bit 8 (ucast b0))"
| "checksum_words 0 data acc = Some acc"
| "checksum_words _ _ acc = None"

lemma fold_carry_decreases:
  "drop_bit 16 acc \<noteq> 0 \<Longrightarrow> unat ((acc AND 0xFFFF) + drop_bit 16 acc) < unat (acc :: u32)"
proof -
  assume h: "drop_bit 16 acc \<noteq> 0"
  have m: "acc AND 0xFFFF = take_bit 16 acc" by (simp add: take_bit_eq_mask mask_eq_exp_minus_1)
  have d: "unat (drop_bit 16 acc) = unat acc div 65536" by (simp add: drop_bit_eq_div unat_div_distrib)
  have t: "unat (take_bit 16 acc) = unat acc mod 65536" by (simp add: take_bit_eq_mod unat_mod_distrib)
  have p: "0 < unat acc div 65536" using h d by (metis gr_zeroI unat_eq_zero)
  have "unat acc div 65536 < 65536" using u32_less_2p32 [of acc] by (simp add: div_less_iff_less_mult)
  then have "unat ((acc AND 0xFFFF) + drop_bit 16 acc) = unat acc mod 65536 + unat acc div 65536"
    unfolding m by (subst unat_add_lem [THEN iffD1]) (auto simp: d t)
  moreover have "unat acc = unat acc div 65536 * 65536 + unat acc mod 65536" by (simp only: div_mult_mod_eq)
  ultimately show ?thesis using p by linarith
qed

function fold_carry :: "u32 \<Rightarrow> u32" where
  "fold_carry acc = (if drop_bit 16 acc \<noteq> 0 then fold_carry ((acc AND 0xFFFF) + drop_bit 16 acc) else acc)"
  by auto
termination by (relation "measure unat") (simp_all add: fold_carry_decreases)

declare fold_carry.simps [simp del]

definition aeb_checksum16 :: "u8 list \<Rightarrow> u16 \<Rightarrow> u16 option" where
  "aeb_checksum16 data len =
     map_option (\<lambda>acc. ucast (NOT (fold_carry acc))) (checksum_words (unat len) data 0)"

definition aeb_put16be :: "nat \<Rightarrow> u16 \<Rightarrow> u8 list \<Rightarrow> u8 list" where
  "aeb_put16be off value buffer = put_at off [ucast (drop_bit 8 value), ucast value] buffer"

definition aeb_put16le :: "nat \<Rightarrow> u16 \<Rightarrow> u8 list \<Rightarrow> u8 list" where
  "aeb_put16le off value buffer = put_at off [ucast value, ucast (drop_bit 8 value)] buffer"

definition aeb_put32le :: "nat \<Rightarrow> u32 \<Rightarrow> u8 list \<Rightarrow> u8 list" where
  "aeb_put32le off value buffer = put_at off
     [ucast value, ucast (drop_bit 8 value), ucast (drop_bit 16 value), ucast (drop_bit 24 value)] buffer"

section \<open>The packet\<close>

record AebSensorNode_Frame =
  f_sequence :: u32
  f_timestampMs :: u32
  f_tofFrontCmX10 :: u16
  f_ultrasonicLeftCmX10 :: u16
  f_ultrasonicRightCmX10 :: u16
  f_tofDiag :: u16
  f_validMask :: u8

definition ip_header :: "AebSensorNode_Frame \<Rightarrow> u8 list \<Rightarrow> u8 list option" where
  "ip_header frame txBuffer = do {
     let ip = AEB_ETH_HEADER_SIZE;
     let ipTotalLength = of_nat (AEB_IPV4_HEADER_SIZE + AEB_UDP_HEADER_SIZE + AEB_PAYLOAD_SIZE);
     let txBuffer = put_at ip [0x45, 0x00] txBuffer;
     let txBuffer = aeb_put16be (ip + 2) ipTotalLength txBuffer;
     let txBuffer = aeb_put16be (ip + 4) (ucast (f_sequence frame AND 0xFFFF)) txBuffer;
     let txBuffer = aeb_put16be (ip + 6) 0x0000 txBuffer;
     let txBuffer = put_at (ip + 8) [64, 17] txBuffer;
     let txBuffer = put_at (ip + 12) g_srcIp txBuffer;
     let txBuffer = put_at (ip + 16) g_dstIp txBuffer;
     checksum \<leftarrow> aeb_checksum16 (drop ip txBuffer) (of_nat AEB_IPV4_HEADER_SIZE);
     Some (aeb_put16be (ip + 10) checksum txBuffer) }"

definition udp_header :: "u8 list \<Rightarrow> u8 list" where
  "udp_header txBuffer =
     (let udp = AEB_ETH_HEADER_SIZE + AEB_IPV4_HEADER_SIZE;
          txBuffer = aeb_put16be udp AEB_ETH_SRC_PORT txBuffer;
          txBuffer = aeb_put16be (udp + 2) AEB_ETH_DST_PORT txBuffer;
          txBuffer = aeb_put16be (udp + 4) (of_nat (AEB_UDP_HEADER_SIZE + AEB_PAYLOAD_SIZE)) txBuffer
      in aeb_put16be (udp + 6) 0x0000 txBuffer)"

definition aeb1_payload :: "AebSensorNode_Frame \<Rightarrow> u8 list \<Rightarrow> u8 list" where
  "aeb1_payload frame txBuffer =
     (let payload = AEB_ETH_HEADER_SIZE + AEB_IPV4_HEADER_SIZE + AEB_UDP_HEADER_SIZE;
          txBuffer = put_at payload [0x41, 0x45, 0x42, 0x31, 1, f_validMask frame] txBuffer;
          txBuffer = aeb_put16le (payload + 6) (f_tofDiag frame) txBuffer;
          txBuffer = aeb_put32le (payload + 8) (f_sequence frame) txBuffer;
          txBuffer = aeb_put32le (payload + 12) (f_timestampMs frame) txBuffer;
          txBuffer = aeb_put16le (payload + 16) (f_tofFrontCmX10 frame) txBuffer;
          txBuffer = aeb_put16le (payload + 18) (f_ultrasonicLeftCmX10 frame) txBuffer
      in aeb_put16le (payload + 20) (f_ultrasonicRightCmX10 frame) txBuffer)"

text \<open>The buffer it fills is the driver's, \<open>AEB_ETH_TX_BUFFER_SIZE\<close> bytes of it.\<close>

definition aeb_buildPacket :: "AebSensorNode_Frame \<Rightarrow> (u8 list \<times> u16) option" where
  "aeb_buildPacket frame = do {
     let txBuffer = replicate AEB_ETH_TX_BUFFER_SIZE 0;
     let txBuffer = put_at 0 g_dstMac txBuffer;
     let txBuffer = put_at 6 g_srcMac txBuffer;
     let txBuffer = put_at 12 [0x08, 0x00] txBuffer;
     txBuffer \<leftarrow> ip_header frame txBuffer;
     let txBuffer = aeb1_payload frame (udp_header txBuffer);
     let frameLength = of_nat (AEB_ETH_HEADER_SIZE + (AEB_IPV4_HEADER_SIZE + AEB_UDP_HEADER_SIZE + AEB_PAYLOAD_SIZE));
     Some (txBuffer, if frameLength < AEB_ETH_MIN_FRAME_SIZE then AEB_ETH_MIN_FRAME_SIZE else frameLength) }"

section \<open>Ethernet\<close>

definition rmiiPins :: "string list" where
  "rmiiPins = [''CRSDVA_P11_11_IN'', ''REFCLKA_P11_12_IN'', ''RXD0A_P11_10_IN'', ''RXD1A_P11_9_IN'',
     ''MDIO_P21_3_INOUT'', ''TXD0_P11_3_OUT'', ''MDC_P21_2_OUT'', ''TXD1_P11_2_OUT'', ''TXEN_P11_6_OUT'']"

definition aeb_ethernetInit :: "trace \<Rightarrow> trace" where
  "aeb_ethernetInit w =
     (let config = \<lparr>phy_rmii = True, rmii_pins = rmiiPins, line_mbps = 100, full_duplex = True,
        mac_address = g_srcMac, tx_buffer_size = of_nat AEB_ETH_TX_BUFFER_SIZE,
        rx_buffer_size = of_nat AEB_ETH_RX_BUFFER_SIZE\<rparr>
      in EthStart # EthInit config # w)"

definition tx_round :: "hw \<times> u32 \<times> u32 \<Rightarrow> trace \<Rightarrow> (unit option \<times> trace) option" where
  "tx_round = (\<lambda>(E, waitStart, waitTicks) w.
     let flag = tx_flag E w; w = EthPollTx # w in
     if \<not> flag then
       (let (now, w) = aeb_nowTicks E w in
        if waitTicks < now - waitStart then Some (Some (), w) else Some (None, w))
     else Some (Some (), w))"

definition aeb_sendFrame :: "hw \<Rightarrow> AebSensorNode_Frame \<Rightarrow> trace \<Rightarrow> (unit \<times> trace) option" where
  "aeb_sendFrame E frame w = do {
     w \<leftarrow> (if tx_free E w then Some (EthWaitTx # w) else None);
     (txBuffer, packetLength) \<leftarrow> aeb_buildPacket frame;
     let w = EthSend txBuffer packetLength # EthClearTx # w;
     let (waitStart, w) = aeb_nowTicks E w;
     let waitTicks = aeb_ticksFromMs E 2;
     (_, w) \<leftarrow> poll_loop (tx_round (E, waitStart, waitTicks)) w;
     Some ((), EthClearTx # w) }"

definition aeb_getRxFrameSize :: "rx_descr option \<Rightarrow> u16" where
  "aeb_getRxFrameSize descriptor =
     (case descriptor of None \<Rightarrow> 0 | Some d \<Rightarrow>
      if RDES3 d AND push_bit 15 1 \<noteq> 0 \<or> RDES1 d AND push_bit 7 1 \<noteq> 0 \<or> RDES3 d AND push_bit 28 1 = 0
      then 0 else ucast ((RDES3 d AND 0x7FFF) - 4))"

text \<open>One frame of the receive ring, if it is one of a size a command can have.\<close>

definition handle_rx :: "rx_frame \<Rightarrow> u32 \<Rightarrow> FrontSteeringNode_State \<Rightarrow> FrontSteeringNode_State option" where
  "handle_rx fr nowMs s =
     (let rxLength = aeb_getRxFrameSize (rxDescr fr) in
      if rxBuffer fr \<noteq> None \<and> 40 \<le> rxLength \<and> unat rxLength \<le> AEB_ETH_RX_BUFFER_SIZE
      then map_option snd (FrontSteeringNode_acceptEthernetFrame (rxBuffer fr) rxLength nowMs s)
      else Some s)"

fun poll_frames :: "hw \<Rightarrow> nat \<Rightarrow> u32 \<Rightarrow> FrontSteeringNode_State \<Rightarrow> trace \<Rightarrow> (FrontSteeringNode_State \<times> trace) option" where
  "poll_frames E 0 nowMs s w = Some (s, w)"
| "poll_frames E (Suc n) nowMs s w =
     (case rx_head E w of None \<Rightarrow> Some (s, EthPollRx # w)
      | Some fr \<Rightarrow> do {
          s \<leftarrow> handle_rx fr nowMs s;
          poll_frames E n nowMs s (EthFreeRx # EthPollRx # w) })"

definition aeb_pollSteeringRx :: "hw \<Rightarrow> FrontSteeringNode_State \<Rightarrow> trace \<Rightarrow> (FrontSteeringNode_State \<times> trace) option" where
  "aeb_pollSteeringRx E s w = do {
     let (now, w) = aeb_nowTicks E w;
     nowMs \<leftarrow> aeb_ticksToMs E now;
     poll_frames E (max 1 (unat (max_rx_descr E))) nowMs s w }"

section \<open>The node\<close>

record front_state =
  steer :: FrontSteeringNode_State
  leftUltrasonic :: AebUltrasonicSensor
  rightUltrasonic :: AebUltrasonicSensor
  tof :: tof_state
  latestFrame :: AebSensorNode_Frame

definition empty_frame :: AebSensorNode_Frame where
  "empty_frame = \<lparr>f_sequence = 0, f_timestampMs = 0, f_tofFrontCmX10 = 0, f_ultrasonicLeftCmX10 = 0,
     f_ultrasonicRightCmX10 = 0, f_tofDiag = 0, f_validMask = 0\<rparr>"

definition AebSensorNode_init :: "hw \<Rightarrow> FrontSteeringNode_State \<Rightarrow> trace \<Rightarrow> front_state \<times> trace" where
  "AebSensorNode_init E s w =
     (let w = aeb_ultrasonicInit g_leftUltrasonic_0 w;
          w = aeb_ultrasonicInit g_rightUltrasonic_0 w;
          w = aeb_ethernetInit w;
          (now, w) = aeb_nowTicks E w;
          t = \<lparr>g_tofPresent = False, g_tofCmX10 = 0, g_tofLastValidTick = 0,
               g_tofNextInitTick = now + aeb_ticksFromMs E AEB_TOF_RETRY_INTERVAL_MS,
               g_tofInitAttempted = False, g_tofDiag = AEB_TOF_DIAG_NOT_TRIED\<rparr>
      in (\<lparr>steer = s, leftUltrasonic = g_leftUltrasonic_0, rightUltrasonic = g_rightUltrasonic_0,
           tof = t, latestFrame = empty_frame\<rparr>, w))"

definition valid_mask :: "bool \<Rightarrow> bool \<Rightarrow> bool \<Rightarrow> FrontSteeringNode_Status \<Rightarrow> u8" where
  "valid_mask tofValid leftValid rightValid st =
     (let m = 0;
          m = (if tofValid then m OR AEB_VALID_TOF else m);
          m = (if leftValid then m OR AEB_VALID_ULTRA_LEFT else m);
          m = (if rightValid then m OR AEB_VALID_ULTRA_RIGHT else m);
          m = (if s_linkValid st then m OR AEB_VALID_STEERING_RX else m);
          m = (if s_commandValid st then m OR AEB_VALID_STEERING_COMMAND else m)
      in if s_emergencyCenter st then m OR AEB_VALID_STEERING_CENTER else m)"

text \<open>The late initialisation of the time-of-flight sensor.\<close>

definition tof_retry :: "hw \<Rightarrow> u32 \<Rightarrow> tof_state \<Rightarrow> trace \<Rightarrow> (tof_state \<times> trace) option" where
  "tof_retry E sequence t w =
     (if \<not> g_tofPresent t \<and> AEB_TOF_INIT_DELAY_FRAMES \<le> sequence then
        (let (now, w) = aeb_nowTicks E w in
         if \<not> g_tofInitAttempted t \<or> now - g_tofNextInitTick t < 0x80000000
         then aeb_tofInit E (t\<lparr>g_tofInitAttempted := True,
                g_tofNextInitTick := now + aeb_ticksFromMs E AEB_TOF_RETRY_INTERVAL_MS\<rparr>) w
         else Some (t, w))
      else Some (t, w))"

definition measure_all :: "hw \<Rightarrow> front_state \<Rightarrow> trace \<Rightarrow> ((bool \<times> bool \<times> bool) \<times> front_state \<times> trace) option" where
  "measure_all E n w = do {
     ((leftValid, l), w) \<leftarrow> aeb_ultrasonicUpdate E (leftUltrasonic n) w;
     let w = aeb_delayUs E AEB_ULTRA_CROSSTALK_DELAY_US w;
     ((rightValid, r), w) \<leftarrow> aeb_ultrasonicUpdate E (rightUltrasonic n) w;
     ((tofValid, t), w) \<leftarrow> aeb_tofUpdate E (tof n) w;
     Some ((leftValid, rightValid, tofValid), n\<lparr>leftUltrasonic := l, rightUltrasonic := r, tof := t\<rparr>, w) }"

definition compose_frame ::
    "bool \<times> bool \<times> bool \<Rightarrow> u32 \<Rightarrow> FrontSteeringNode_Status \<Rightarrow> front_state \<Rightarrow> AebSensorNode_Frame" where
  "compose_frame = (\<lambda>(leftValid, rightValid, tofValid) timestamp st n.
     \<lparr>f_sequence = f_sequence (latestFrame n) + 1, f_timestampMs = timestamp,
      f_tofFrontCmX10 = g_tofCmX10 (tof n),
      f_ultrasonicLeftCmX10 = (if leftValid then filteredCmX10 (leftUltrasonic n) else lastDiag (leftUltrasonic n)),
      f_ultrasonicRightCmX10 = (if rightValid then filteredCmX10 (rightUltrasonic n) else lastDiag (rightUltrasonic n)),
      f_tofDiag = g_tofDiag (tof n),
      f_validMask = valid_mask tofValid leftValid rightValid st\<rparr>)"

definition AebSensorNode_runOnce :: "hw \<Rightarrow> front_state \<Rightarrow> trace \<Rightarrow> (front_state \<times> trace) option" where
  "AebSensorNode_runOnce E n w = do {
     (s, w) \<leftarrow> aeb_pollSteeringRx E (steer n) w;
     let n = n\<lparr>steer := s\<rparr>;
     (valid, n, w) \<leftarrow> measure_all E n w;
     let (now, w) = aeb_nowTicks E w;
     timestamp \<leftarrow> aeb_ticksToMs E now;
     (st, w) \<leftarrow> FrontSteeringNode_getStatus E (steer n) w;
     let n = n\<lparr>latestFrame := compose_frame valid timestamp st n\<rparr>;
     (_, w) \<leftarrow> aeb_sendFrame E (latestFrame n) w;
     (s, w) \<leftarrow> aeb_pollSteeringRx E (steer n) w;
     let n = n\<lparr>steer := s\<rparr>;
     (t, w) \<leftarrow> tof_retry E (f_sequence (latestFrame n)) (tof n) w;
     let n = n\<lparr>tof := t\<rparr>;
     w \<leftarrow> FrontSteeringNode_holdCurrentForMs E AEB_NODE_LOOP_PERIOD_MS (steer n) w;
     Some (n, w) }"

definition AebSensorNode_getLatestFrame :: "front_state \<Rightarrow> AebSensorNode_Frame" where
  "AebSensorNode_getLatestFrame n = latestFrame n"

section \<open>The main loop (Cpu0_Main.c)\<close>

definition front_boot :: "hw \<Rightarrow> trace \<Rightarrow> (front_state \<times> trace) option" where
  "front_boot E w = do {
     (s, w) \<leftarrow> FrontSteeringNode_init E w;
     Some (AebSensorNode_init E s w) }"

definition front_cycle :: "hw \<Rightarrow> front_state \<Rightarrow> trace \<Rightarrow> (front_state \<times> trace) option" where
  "front_cycle E n w = do {
     (s, w) \<leftarrow> FrontSteeringNode_runOnce E (steer n) w;
     let n = n\<lparr>steer := s\<rparr>;
     (n, w) \<leftarrow> AebSensorNode_runOnce E n w;
     (s, w) \<leftarrow> FrontSteeringNode_runOnce E (steer n) w;
     Some (n\<lparr>steer := s\<rparr>, w) }"

end
