(* ===== verification/FrontLoops.thy ===== *)
theory FrontLoops
  imports FrontNode
begin

text \<open>
  The four polling loops of the sensor node end: each is an instance of \<open>deadline_loop\<close>.
  From them, how long every I2C operation and every use of the sensors can take, and that
  none of them ever drives one of the two bus lines high.
\<close>

section \<open>Ticks\<close>

lemma unat_le_sint: "0 < sint (x :: u32) \<Longrightarrow> int (unat x) \<le> sint x"
  using uint_sint [of x] take_bit_int_less_eq_self_iff [of "LENGTH(32)" "sint x"] by (simp add: of_nat_unat)

lemma ticksFromUs_le: "sane_hw E \<Longrightarrow> unat us \<le> 20000 \<Longrightarrow> unat (aeb_ticksFromUs E us) \<le> max 1 (200 * unat us)"
proof -
  assume h: "sane_hw E" "unat us \<le> 20000"
  then have "sint (ticks_of_us E us) \<le> 200 * int (unat us)" unfolding sane_hw_def by blast
  with unat_le_sint [of "ticks_of_us E us"] show ?thesis by (auto simp: aeb_ticksFromUs_def Let_def)
qed

lemma ticksFromMs_le: "sane_hw E \<Longrightarrow> unat ms \<le> 1000 \<Longrightarrow> unat (aeb_ticksFromMs E ms) \<le> max 1 (200000 * unat ms)"
proof -
  assume h: "sane_hw E" "unat ms \<le> 1000"
  then have "sint (ticks_of_ms E ms) \<le> 200000 * int (unat ms)" unfolding sane_hw_def by blast
  with unat_le_sint [of "ticks_of_ms E ms"] show ?thesis by (auto simp: aeb_ticksFromMs_def Let_def)
qed

lemma ticksFrom_pos: "1 \<le> unat (aeb_ticksFromUs E us)" "1 \<le> unat (aeb_ticksFromMs E us)"
  by (auto simp: aeb_ticksFromUs_def aeb_ticksFromMs_def Let_def not_le Suc_le_eq unat_gt_0)

lemma read_clock_elapsed:
  assumes "sane_hw E" "unat (clock E w - start) \<le> t"
  shows "\<exists>e \<le> t + 10001. clock E (ReadClock # w) = start + of_nat e"
proof -
  obtain d where d: "d \<le> ticks_lo ReadClock + 10000" "took E w (ReadClock # w) d"
    using sane_clock [OF assms(1)] by blast
  then have "clock E (ReadClock # w) = start + of_nat (unat (clock E w - start) + d)"
    by (simp add: tookD)
  with d(1) assms(2) show ?thesis by (intro exI [of _ "unat (clock E w - start) + d"]) simp
qed

lemma two_reads:
  assumes "sane_hw E" "e = ReadPin p \<or> e = EthPollTx \<or> e = ReadClock"
  shows "\<exists>n. took E w (ReadClock # e # w) n \<and> 1 \<le> n \<and> n \<le> 20002"
    and "\<exists>n. took E w (e # w) n \<and> 1 \<le> n \<and> n \<le> 20002"
proof -
  obtain d where d: "ticks_lo e \<le> d" "d \<le> ticks_lo e + 10000" "took E w (e # w) d"
    using sane_clock [OF assms(1)] by blast
  obtain d' where d': "d' \<le> ticks_lo ReadClock + 10000" "took E (e # w) (ReadClock # e # w) d'"
    using sane_clock [OF assms(1)] by blast
  have "ticks_lo e = 1" using assms(2) by auto
  with d d' took_trans [OF d(3) d'(2)] show "\<exists>n. took E w (ReadClock # e # w) n \<and> 1 \<le> n \<and> n \<le> 20002"
    by (intro exI [of _ "d + d'"]) simp
  show "\<exists>n. took E w (e # w) n \<and> 1 \<le> n \<and> n \<le> 20002"
    using d \<open>ticks_lo e = 1\<close> by (intro exI [of _ d]) simp
qed

section \<open>Never high, nothing sent\<close>

text \<open>What the code does besides handing a frame to the Ethernet driver; it never drives a line of the bus high.\<close>

definition od :: "hw_event \<Rightarrow> bool" where
  "od e \<longleftrightarrow> e \<noteq> SetPin AEB_TOF_SDA True \<and> e \<noteq> SetPin AEB_TOF_SCL True \<and> \<not> (\<exists>bs len. e = EthSend bs len)"

lemma od_simps [simp]:
  "od ReadClock" "od (ReadPin p)" "od (SetMode p m)" "od (SetPin p False)" "od (WaitTicks n)"
  "od EthPollTx" "od EthClearTx" "od EthWaitTx" "od EthPollRx" "od EthFreeRx"
  "od (SetPin p v) \<longleftrightarrow> v \<longrightarrow> p \<noteq> AEB_TOF_SDA \<and> p \<noteq> AEB_TOF_SCL"
  by (auto simp: od_def)

section \<open>The loops\<close>

definition wait_ok :: "hw \<times> pin \<times> bool \<times> bool \<times> u32 \<times> u32 \<Rightarrow> bool" where
  "wait_ok = (\<lambda>(E, p, state, want, start, timeoutTicks). sane_hw E \<and> unat timeoutTicks \<le> 3000000)"

interpretation wait_loop: deadline_loop wait_pin_round "\<lambda>(E, p, state, want, start, limit). E"
  "\<lambda>(E, p, state, want, start, limit). start" "\<lambda>(E, p, state, want, start, limit). limit"
  "\<lambda>_. od" 30003 wait_ok
proof (unfold_locales, goal_cases)
  case (1 c)
  then show ?case by (auto simp: wait_ok_def split: prod.splits)
next
  case (2 c w)
  obtain E p state want start limit where c: "c = (E, p, state, want, start, limit)" by (cases c) auto
  with 2 have E: "sane_hw E" by (simp add: wait_ok_def)
  obtain n where n: "took E w (ReadClock # ReadPin p # w) n" "1 \<le> n" "n \<le> 20002"
    using two_reads(1) [OF E, of "ReadPin p" p w] by auto
  obtain n' where n': "took E w (ReadPin p # w) n'" "n' \<le> 20002"
    using two_reads(2) [OF E, of "ReadPin p" p w] by auto
  have e: "\<exists>e \<le> unat limit + 10001. clock E (ReadClock # ReadPin p # w) = start + of_nat e"
    if "clock E (ReadPin p # w) - start < limit"
    using read_clock_elapsed [OF E, of "ReadPin p # w" start "unat limit"] that by (auto simp: word_less_nat_alt)
  consider "pin_in E w p \<noteq> state" "limit \<le> clock E (ReadPin p # w) - start"
    | "pin_in E w p \<noteq> state" "clock E (ReadPin p # w) - start < limit"
    | "pin_in E w p = state" "want" | "pin_in E w p = state" "\<not> want" by fastforce
  then show ?case
  proof cases
    case 1
    then show ?thesis using n
      by (intro exI [of _ "Some (False, if want then Some (clock E (ReadPin p # w) - start) else None)"]
          exI [of _ "[ReadClock, ReadPin p]"] exI [of _ n])
        (simp add: c wait_pin_round_def pin_read_def aeb_nowTicks_def stm_now_def Let_def leD)
  next
    case 2
    then show ?thesis using n e
      by (intro exI [of _ None] exI [of _ "[ReadClock, ReadPin p]"] exI [of _ n])
        (simp add: c wait_pin_round_def pin_read_def aeb_nowTicks_def stm_now_def Let_def leD)
  next
    case 3
    then show ?thesis using n
      by (intro exI [of _ "Some (True, Some (clock E (ReadPin p # w) - start))"]
          exI [of _ "[ReadClock, ReadPin p]"] exI [of _ n])
        (simp add: c wait_pin_round_def pin_read_def aeb_nowTicks_def stm_now_def Let_def leD)
  next
    case 4
    then show ?thesis using n'
      by (intro exI [of _ "Some (True, None)"] exI [of _ "[ReadPin p]"] exI [of _ n'])
        (simp add: c wait_pin_round_def pin_read_def)
  qed
qed

definition scl_ok :: "hw \<times> u32 \<times> u32 \<Rightarrow> bool" where
  "scl_ok = (\<lambda>(E, start, timeoutTicks). sane_hw E \<and> unat timeoutTicks \<le> 400000)"

interpretation scl_loop: deadline_loop scl_round "\<lambda>(E, start, limit). E"
  "\<lambda>(E, start, limit). start" "\<lambda>(E, start, limit). limit" "\<lambda>_. od" 20002 scl_ok
proof (unfold_locales, goal_cases)
  case (1 c)
  then show ?case by (auto simp: scl_ok_def split: prod.splits)
next
  case (2 c w)
  obtain E start limit where c: "c = (E, start, limit)" by (cases c) auto
  with 2 have E: "sane_hw E" by (simp add: scl_ok_def)
  let ?r = "ReadPin AEB_TOF_SCL"
  obtain n where n: "took E w (ReadClock # ?r # w) n" "1 \<le> n" "n \<le> 20002"
    using two_reads(1) [OF E, of ?r AEB_TOF_SCL w] by auto
  obtain n' where n': "took E w (?r # w) n'" "n' \<le> 20002"
    using two_reads(2) [OF E, of ?r AEB_TOF_SCL w] by auto
  have e: "\<exists>e \<le> unat limit + 10001. clock E (ReadClock # ?r # w) = start + of_nat e"
    if "\<not> limit < clock E (?r # w) - start"
    using read_clock_elapsed [OF E, of "?r # w" start "unat limit"] that by (auto simp: word_less_nat_alt not_less)
  show ?case
  proof (cases "pin_in E w AEB_TOF_SCL")
    case True
    then show ?thesis using n'
      by (intro exI [of _ "Some True"] exI [of _ "[?r]"] exI [of _ n'])
        (simp add: c scl_round_def pin_read_def)
  next
    case False
    then show ?thesis using n e
      by (intro exI [of _ "if limit < clock E (?r # w) - start then Some False else None"]
          exI [of _ "[ReadClock, ?r]"] exI [of _ n])
        (simp add: c scl_round_def pin_read_def aeb_nowTicks_def stm_now_def Let_def)
  qed
qed

interpretation tx_loop: deadline_loop tx_round "\<lambda>(E, start, limit). E"
  "\<lambda>(E, start, limit). start" "\<lambda>(E, start, limit). limit" "\<lambda>_. od" 20002 scl_ok
proof (unfold_locales, goal_cases)
  case (1 c)
  then show ?case by (auto simp: scl_ok_def split: prod.splits)
next
  case (2 c w)
  obtain E start limit where c: "c = (E, start, limit)" by (cases c) auto
  with 2 have E: "sane_hw E" by (simp add: scl_ok_def)
  obtain n where n: "took E w (ReadClock # EthPollTx # w) n" "1 \<le> n" "n \<le> 20002"
    using two_reads(1) [OF E, of EthPollTx _ w] by auto
  obtain n' where n': "took E w (EthPollTx # w) n'" "n' \<le> 20002"
    using two_reads(2) [OF E, of EthPollTx _ w] by auto
  have e: "\<exists>e \<le> unat limit + 10001. clock E (ReadClock # EthPollTx # w) = start + of_nat e"
    if "\<not> limit < clock E (EthPollTx # w) - start"
    using read_clock_elapsed [OF E, of "EthPollTx # w" start "unat limit"] that by (auto simp: word_less_nat_alt not_less)
  show ?case
  proof (cases "tx_flag E w")
    case True
    then show ?thesis using n'
      by (intro exI [of _ "Some ()"] exI [of _ "[EthPollTx]"] exI [of _ n'])
        (simp add: c tx_round_def)
  next
    case False
    then show ?thesis using n e
      by (intro exI [of _ "if limit < clock E (EthPollTx # w) - start then Some () else None"]
          exI [of _ "[ReadClock, EthPollTx]"] exI [of _ n])
        (simp add: c tx_round_def aeb_nowTicks_def stm_now_def)
  qed
qed

end
