(* ===== verification/FrontRuns.thy ===== *)
theory FrontRuns
  imports FrontLoops
begin

text \<open>
  How long every bus operation and every use of the time-of-flight sensor can take, and that
  none of them ever drives one of the two bus lines high: the rules of \<open>runs\<close> applied
  along the code.
\<close>

section \<open>How long the bus operations take\<close>

text \<open>The rules that follow a computation forwards, adding up the time.\<close>

lemma since_od:
  assumes "since E od w0 n w" "sane_hw E"
  shows "since E od w0 (n + 10001) (ReadClock # w)" "since E od w0 (n + 10001) (ReadPin p # w)"
    "since E od w0 (n + 10000) (SetMode p m # w)" "since E od w0 (n + 10000) (SetPin p False # w)"
    "since E od w0 (n + 10000) (EthWaitTx # w)" "since E od w0 (n + 10000) (EthClearTx # w)"
    "since E od w0 (n + 10000) (EthPollRx # w)"
    "since E od w0 (n + 10000) (EthFreeRx # w)"
  using since_event [OF assms, of ReadClock 1] since_event [OF assms, of "ReadPin p" 1]
    since_event [OF assms, of "SetMode p m" 0] since_event [OF assms, of "SetPin p False" 0]
    since_event [OF assms, of EthWaitTx 0] since_event [OF assms, of EthClearTx 0]
    since_event [OF assms, of EthPollRx 0]
    since_event [OF assms, of EthFreeRx 0]
  by simp_all

lemma since_delayUs:
  assumes "since E od w0 n w" "sane_hw E" "unat us \<le> 20000"
  shows "since E od w0 (n + (max 1 (200 * unat us) + 10000)) (aeb_delayUs E us w)"
  unfolding aeb_delayUs_def using ticksFromUs_le [OF assms(2,3)]
  by (intro since_event [OF assms(1,2)]) auto

lemma since_delayMs:
  assumes "since E od w0 n w" "sane_hw E" "unat ms \<le> 1000"
  shows "since E od w0 (n + (max 1 (200000 * unat ms) + 10000)) (aeb_delayMs E ms w)"
  unfolding aeb_delayMs_def using ticksFromMs_le [OF assms(2,3)]
  by (intro since_event [OF assms(1,2)]) auto

lemma since_half_period:
  "since E od w0 n w \<Longrightarrow> sane_hw E \<Longrightarrow> since E od w0 (n + 12000) (half_period E w)"
  unfolding half_period_def using since_delayUs [of E w0 n w 10] by (simp add: AEB_TOF_I2C_HALF_PERIOD_US_def)

lemma since_lines:
  assumes "since E od w0 n w" "sane_hw E"
  shows "since E od w0 (n + 10000) (aeb_i2cReleaseSda w)" "since E od w0 (n + 10000) (aeb_i2cReleaseScl w)"
    "since E od w0 (n + 20000) (aeb_i2cDriveSdaLow w)" "since E od w0 (n + 20000) (aeb_i2cDriveSclLow w)"
  using since_od(3) [OF assms] since_od(3) [OF since_od(4) [OF assms] assms(2)]
  by (simp_all add: aeb_i2cReleaseSda_def aeb_i2cReleaseScl_def aeb_i2cDriveSdaLow_def aeb_i2cDriveSclLow_def add.assoc)

lemma since_if: "since E P w0 m a \<Longrightarrow> since E P w0 n b \<Longrightarrow> since E P w0 (max m n) (if c then a else b)"
  by (auto intro: since_weaken)

lemma runs_wait_scl:
  assumes "since E od w0 n w" "sane_hw E"
  shows "runs E od (n + 250000) (aeb_i2cWaitSclHigh E w) w0"
proof -
  let ?c = "(E, clock E w, aeb_ticksFromUs E AEB_TOF_I2C_SCL_TIMEOUT_US)"
  have lim: "unat (aeb_ticksFromUs E AEB_TOF_I2C_SCL_TIMEOUT_US) \<le> 200000"
    using ticksFromUs_le [OF assms(2), of 1000] by (simp add: AEB_TOF_I2C_SCL_TIMEOUT_US_def)
  obtain d where d: "d \<le> ticks_lo ReadClock + 10000" "took E w (ReadClock # w) d"
    using sane_clock [OF assms(2)] by blast
  have "runs E od (unat (aeb_ticksFromUs E AEB_TOF_I2C_SCL_TIMEOUT_US) + 10001 + 20002)
      (poll_loop (scl_round ?c) (ReadClock # w)) (ReadClock # w)"
    using scl_loop.total0 [of ?c w "ReadClock # w" d] assms(2) lim d by (simp add: scl_ok_def)
  then have "runs E od (n + 10001 + 230003) (poll_loop (scl_round ?c) (ReadClock # w)) w0"
    by (rule runs_from [OF runs_weaken]) (use lim since_od(1) [OF assms] in auto)
  then show ?thesis
    by (auto simp: aeb_i2cWaitSclHigh_def aeb_nowTicks_def stm_now_def intro: runs_weaken)
qed

lemmas bus_rules = runs_bind runs_if runs_option runs_Some since_od since_half_period since_lines since_if
  runs_wait_scl

lemma runs_bus_clocks:
  "since E od w0 n w \<Longrightarrow> sane_hw E \<Longrightarrow> runs E od (n + k * 320000) (bus_clocks E k w) w0"
proof (induction k arbitrary: n w)
  case 0
  then show ?case by (simp add: runs_Some)
next
  case (Suc k)
  have "runs E od (n + 320000 + k * 320000) (bus_clocks E (Suc k) w) w0"
    unfolding bus_clocks.simps Let_def
    by (rule runs_bind, (rule bus_rules Suc.prems)+, rule Suc.IH [OF since_weaken])
      ((assumption | rule bus_rules Suc.prems)+, simp_all add: Suc.prems)
  then show ?case by (simp add: add.assoc)
qed

lemma runs_start: "since E od w0 n w \<Longrightarrow> sane_hw E \<Longrightarrow> runs E od (n + 340000) (aeb_i2cStart E w) w0"
  unfolding aeb_i2cStart_def Let_def
  by (rule runs_weaken, (assumption | rule bus_rules)+) simp

lemma runs_stop: "since E od w0 n w \<Longrightarrow> sane_hw E \<Longrightarrow> runs E od (n + 340000) (aeb_i2cStop E w) w0"
  unfolding aeb_i2cStop_def Let_def
  by (rule runs_weaken, (assumption | rule bus_rules)+) simp

lemma runs_write_bits:
  "since E od w0 n w \<Longrightarrow> sane_hw E \<Longrightarrow> runs E od (n + length ns * 330000) (write_bits E b ns w) w0"
proof (induction ns arbitrary: n w)
  case Nil
  then show ?case by (simp add: runs_Some)
next
  case (Cons i ns)
  have "runs E od (n + 330000 + length ns * 330000) (write_bits E b (i # ns) w) w0"
    unfolding write_bits.simps Let_def
    by (rule runs_weaken, rule runs_bind, (assumption | rule bus_rules Cons.prems)+, rule Cons.IH)
      ((assumption | rule bus_rules Cons.prems)+, simp)
  then show ?case by (simp add: add.assoc)
qed

lemmas byte_rules = bus_rules runs_start runs_stop runs_write_bits

lemma runs_writeByte:
  assumes "since E od w0 n w" "sane_hw E"
  shows "runs E od (n + 3000000) (aeb_i2cWriteByte E b w) w0"
  unfolding aeb_i2cWriteByte_def Let_def pin_read_def prod.case
  by (rule runs_weaken, (assumption | rule byte_rules assms)+) (simp add: bit_order_def)

lemma runs_read_bits:
  "since E od w0 n w \<Longrightarrow> sane_hw E \<Longrightarrow> runs E od (n + length ns * 330000) (read_bits E b ns w) w0"
proof (induction ns arbitrary: n w b)
  case Nil
  then show ?case by (simp add: runs_Some)
next
  case (Cons i ns)
  have "runs E od (n + 330000 + length ns * 330000) (read_bits E b (i # ns) w) w0"
    unfolding read_bits.simps Let_def pin_read_def prod.case
    by (rule runs_weaken, rule runs_bind, (assumption | rule bus_rules Cons.prems)+, rule Cons.IH)
      ((assumption | rule bus_rules Cons.prems)+, simp)
  then show ?case by (simp add: add.assoc)
qed

lemma runs_readByte:
  assumes "since E od w0 n w" "sane_hw E"
  shows "runs E od (n + 3200000) (aeb_i2cReadByte E ack w) w0"
  unfolding aeb_i2cReadByte_def Let_def
  by (rule runs_weaken, rule runs_bind, (assumption | rule byte_rules runs_read_bits assms)+) (simp add: bit_order_def)

lemma runs_write_bytes:
  "since E od w0 n w \<Longrightarrow> sane_hw E \<Longrightarrow> runs E od (n + length bs * 3000000) (write_bytes E bs w) w0"
proof (induction bs arbitrary: n w)
  case Nil
  then show ?case by (simp add: runs_Some)
next
  case (Cons b bs)
  have "runs E od (n + 3000000 + length bs * 3000000) (write_bytes E (b # bs) w) w0"
    unfolding write_bytes.simps
    by (rule runs_weaken, rule runs_bind, rule runs_writeByte [OF Cons.prems], rule runs_if, rule Cons.IH)
      ((assumption | rule bus_rules Cons.prems)+, simp)
  then show ?case by (simp add: add.assoc)
qed

lemma runs_read_bytes:
  "since E od w0 n w \<Longrightarrow> sane_hw E \<Longrightarrow> runs E od (n + k * 3200000) (read_bytes E k w) w0"
proof (induction k arbitrary: n w)
  case 0
  then show ?case by (simp add: runs_Some)
next
  case (Suc k)
  have "runs E od (n + 3200000 + k * 3200000) (read_bytes E (Suc k) w) w0"
    unfolding read_bytes.simps
    by (rule runs_weaken, rule runs_bind, rule runs_readByte [OF Suc.prems], rule runs_bind, rule Suc.IH)
      ((assumption | rule bus_rules Suc.prems)+, simp)
  then show ?case by (simp add: add.assoc)
qed

lemmas transfer_rules = byte_rules runs_writeByte runs_write_bytes runs_read_bytes

lemma runs_i2cWrite:
  assumes "since E od w0 n w" "sane_hw E"
  shows "runs E od (n + 4360000 + length data * 3000000) (aeb_i2cWrite E data w) w0"
  unfolding aeb_i2cWrite_def stop_failed_def
  by (rule runs_weaken, (assumption | rule transfer_rules assms)+) simp

lemma runs_i2cWriteToRegister:
  assumes "since E od w0 n w" "sane_hw E"
  shows "runs E od (n + 7360000 + length data * 3000000) (aeb_i2cWriteToRegister E reg data w) w0"
  unfolding aeb_i2cWriteToRegister_def stop_failed_def
  by (rule runs_weaken, (assumption | rule transfer_rules assms)+) simp

lemma runs_i2cRead:
  assumes "since E od w0 n w" "sane_hw E"
  shows "runs E od (n + 10360000 + k * 3200000) (aeb_i2cReadFromRegister E reg k w) w0"
  unfolding aeb_i2cReadFromRegister_def read_failed_def
  by (rule runs_weaken, (assumption | rule transfer_rules assms)+) simp

lemma runs_registers:
  assumes "since E od w0 n w" "sane_hw E"
  shows "runs E od (n + 10500000) (aeb_vl53l0xWrite8 E reg v w) w0"
    "runs E od (n + 14000000) (aeb_vl53l0xRead8 E reg w) w0"
    "runs E od (n + 18000000) (aeb_vl53l0xRead16 E reg w) w0"
    "runs E od (n + 14000000) (aeb_vl53l0xWrite16 E reg v16 w) w0"
    "runs E od (n + 10360000 + k * 3200000) (aeb_vl53l0xReadMulti E reg k w) w0"
    "runs E od (n + 7360000 + length data * 3000000) (aeb_vl53l0xWriteMulti E reg data w) w0"
  unfolding aeb_vl53l0xWrite8_def aeb_vl53l0xRead8_def aeb_vl53l0xRead16_def aeb_vl53l0xWrite16_def
    aeb_vl53l0xReadMulti_def aeb_vl53l0xWriteMulti_def
  by (rule runs_weaken, (assumption | rule runs_bind runs_Some runs_i2cWrite runs_i2cRead runs_i2cWriteToRegister assms)+, simp)+

section \<open>Waiting for a register\<close>

definition reg_ok :: "hw \<times> u8 \<times> u8 \<times> u32 \<times> u32 \<Rightarrow> bool" where
  "reg_ok = (\<lambda>(E, reg, sel, start, limit). sane_hw E \<and> unat limit \<le> 30000000)"

interpretation reg_loop: deadline_loop reg_round "\<lambda>(E, reg, sel, start, limit). E"
  "\<lambda>(E, reg, sel, start, limit). start" "\<lambda>(E, reg, sel, start, limit). limit" "\<lambda>_. od" 14010001 reg_ok
proof (unfold_locales, goal_cases)
  case (1 c)
  then show ?case by (auto simp: reg_ok_def split: prod.splits)
next
  case (2 c w)
  obtain E reg sel start limit where c: "c = (E, reg, sel, start, limit)" by (cases c) auto
  with 2 have E: "sane_hw E" by (simp add: reg_ok_def)
  have "runs E od (0 + 14000000) (aeb_vl53l0xRead8 E reg w) w"
    by (rule runs_registers(2) [OF since_refl E])
  then obtain v es n where
    r: "aeb_vl53l0xRead8 E reg w = Some (v, es @ w)" "list_all od es" "took E w (es @ w) n" "n \<le> 14000000"
    by (auto elim!: runsE)
  obtain d where d: "ticks_lo ReadClock \<le> d" "d \<le> ticks_lo ReadClock + 10000" "took E (es @ w) (ReadClock # es @ w) d"
    using sane_clock [OF E] by blast
  note t = took_trans [OF r(3) d(3)]
  have e: "\<exists>e \<le> unat limit + 10001. clock E (ReadClock # es @ w) = start + of_nat e"
    if "clock E (es @ w) - start < limit"
    using read_clock_elapsed [OF E, of "es @ w" start "unat limit"] that by (auto simp: word_less_nat_alt)
  consider "v = None" | x where "v = Some x" "x AND sel \<noteq> 0"
    | x where "v = Some x" "x AND sel = 0" "\<not> clock E (es @ w) - start < limit"
    | x where "v = Some x" "x AND sel = 0" "clock E (es @ w) - start < limit" by (cases v) auto
  then show ?case
  proof cases
    case 1
    then show ?thesis using r
      by (intro exI [of _ "Some None"] exI [of _ es] exI [of _ n]) (simp add: c reg_round_def)
  next
    case (2 x)
    then show ?thesis using r
      by (intro exI [of _ "Some (Some x)"] exI [of _ es] exI [of _ n]) (simp add: c reg_round_def)
  next
    case (3 x)
    then show ?thesis using r d t
      by (intro exI [of _ "Some (Some x)"] exI [of _ "ReadClock # es"] exI [of _ "n + d"])
        (simp add: c reg_round_def aeb_nowTicks_def stm_now_def)
  next
    case (4 x)
    then show ?thesis using r d t e
      by (intro exI [of _ None] exI [of _ "ReadClock # es"] exI [of _ "n + d"])
        (simp add: c reg_round_def aeb_nowTicks_def stm_now_def)
  qed
qed

lemma runs_wait_register:
  assumes "since E od w0 n w" "sane_hw E" "unat ms \<le> 150"
  shows "runs E od (n + 45000000) (wait_register E reg sel ms w) w0"
proof -
  let ?c = "(E, reg, sel, clock E w, aeb_ticksFromMs E ms)"
  have "unat (aeb_ticksFromMs E ms) \<le> max 1 (200000 * unat ms)" by (rule ticksFromMs_le) (use assms in auto)
  then have lim: "unat (aeb_ticksFromMs E ms) \<le> 30000000" using assms(3) by linarith
  obtain d where d: "d \<le> ticks_lo ReadClock + 10000" "took E w (ReadClock # w) d"
    using sane_clock [OF assms(2)] by blast
  have "runs E od (unat (aeb_ticksFromMs E ms) + 10001 + 14010001) (poll_loop (reg_round ?c) (ReadClock # w)) (ReadClock # w)"
    using reg_loop.total0 [of ?c w "ReadClock # w" d] assms(2) lim d by (simp add: reg_ok_def)
  then have "runs E od (n + 10001 + 44020002) (poll_loop (reg_round ?c) (ReadClock # w)) w0"
    by (rule runs_from [OF runs_weaken]) (use lim since_od(1) [OF assms(1,2)] in auto)
  then show ?thesis
    by (auto simp: wait_register_def aeb_nowTicks_def stm_now_def intro: runs_weaken)
qed

section \<open>The time-of-flight sensor\<close>

lemma runs_write_seq:
  "since E od w0 n w \<Longrightarrow> sane_hw E \<Longrightarrow> runs E od (n + length rs * 10500000) (write_seq E rs w) w0"
proof (induction rs arbitrary: n w)
  case Nil
  then show ?case by (simp add: runs_Some)
next
  case (Cons r rs)
  obtain reg v where r: "r = (reg, v)" by (cases r)
  have "runs E od (n + 10500000 + length rs * 10500000) (write_seq E ((reg, v) # rs) w) w0"
    unfolding write_seq.simps
    by (rule runs_weaken, rule runs_bind, rule runs_registers [OF Cons.prems], rule runs_if, rule runs_Some, assumption)
      (rule Cons.IH, (assumption | rule Cons.prems)+, simp)
  then show ?case unfolding r by (simp add: ac_simps)
qed

lemma runs_seq_Nil: "since E od w0 n w \<Longrightarrow> runs E od n (write_seq E [] w) w0"
  by (simp add: runs_Some)

lemma runs_seq_Cons:
  assumes "since E od w0 n w" "sane_hw E" "\<And>w. since E od w0 (n + 10500000) w \<Longrightarrow> runs E od B (write_seq E rs w) w0"
  shows "runs E od (max (n + 10500000) B) (write_seq E ((reg, v) # rs) w) w0"
  unfolding write_seq.simps
  by (rule runs_bind, rule runs_registers [OF assms(1,2)]) (intro runs_if runs_Some assms(3))

lemma runs_read_then:
  assumes "since E od w0 n w" "sane_hw E" "\<And>v w. since E od w0 (n + 14000000) w \<Longrightarrow> runs E od B (f v w) w0"
  shows "runs E od (max (n + 14000000) B) (read_then E reg f w) w0"
  unfolding read_then_def by (rule runs_bind, rule runs_registers [OF assms(1,2)]) (intro runs_option runs_Some assms(3))

lemma runs_and_then:
  assumes "runs E od B1 (a w) w0" "\<And>w. since E od w0 B1 w \<Longrightarrow> runs E od B2 (b w) w0"
  shows "runs E od (max B1 B2) (and_then a b w) w0"
  unfolding and_then_def by (rule runs_bind, rule assms(1)) (intro runs_if runs_Some assms(2))

lemma since_reset: "since E od w0 n w \<Longrightarrow> sane_hw E \<Longrightarrow> since E od w0 (n + 23000000) (aeb_tofResetByXshut E w)"
proof -
  assume h: "since E od w0 n w" "sane_hw E"
  have "od (SetPin AEB_TOF_XSHUT True)" by (simp add: sensor_pins)
  then have "since E od w0 (n + (0 + 10000) + (0 + 10000) + (max 1 (200000 * unat (10::u32)) + 10000) + (0 + 10000) +
      (max 1 (200000 * unat (100::u32)) + 10000)) (aeb_tofResetByXshut E w)"
    unfolding aeb_tofResetByXshut_def Let_def AEB_TOF_XSHUT_RESET_LOW_MS_def AEB_TOF_BOOT_WAIT_MS_def
    by (intro since_delayMs since_event h) simp_all
  then show ?thesis by (rule since_weaken) simp
qed

lemma wait_times: "unat (100 :: u32) \<le> 150" "unat (150 :: u32) \<le> 150"
  by simp_all

lemmas tof_rules = runs_bind runs_if runs_option runs_Some runs_registers
  runs_wait_register [OF _ _ wait_times(1)] runs_wait_register [OF _ _ wait_times(2)]
  runs_seq_Nil runs_seq_Cons runs_read_then runs_and_then

lemma runs_spadInfo:
  assumes "since E od w0 n w" "sane_hw E"
  shows "runs E od (n + 400000000) (aeb_vl53l0xGetSpadInfo E w) w0"
  unfolding aeb_vl53l0xGetSpadInfo_def Let_def
  by (rule runs_weaken, (assumption | rule tof_rules assms)+) simp_all

lemma length_tuning: "length g_vl53l0xDefaultTuning = 80"
  by (simp add: g_vl53l0xDefaultTuning_def)

lemma runs_tuning:
  assumes "since E od w0 n w" "sane_hw E"
  shows "runs E od (n + 840000000) (aeb_vl53l0xApplyDefaultTuning E w) w0"
  unfolding aeb_vl53l0xApplyDefaultTuning_def
  by (rule runs_weaken, rule runs_write_seq, (rule assms)+) (simp add: length_tuning)

lemma length_spad_fold: "length (fst (fold (spad_step f c) is s)) = length (fst s)"
  by (induction "is" arbitrary: s) (auto simp: spad_step_def Let_def split: prod.splits if_splits)

lemma length_select_spads: "length (select_spads c t m) = length m"
  by (simp add: select_spads_def Let_def length_spad_fold)

lemma read_bytes_len: "read_bytes E k w = Some (bs, w') \<Longrightarrow> length bs = k"
  by (induction k arbitrary: w bs w') (auto simp: bind_Some_iff)

lemma readRegister_len: "aeb_i2cReadFromRegister E reg k w = Some (Some bs, w') \<Longrightarrow> length bs = k"
  by (auto simp: aeb_i2cReadFromRegister_def read_failed_def bind_Some_iff split: if_splits dest: read_bytes_len)

lemma runs_calibration:
  assumes "since E od w0 n w" "sane_hw E"
  shows "runs E od (n + 77000000) (aeb_vl53l0xPerformSingleRefCalibration E b w) w0"
  unfolding aeb_vl53l0xPerformSingleRefCalibration_def Let_def
  by (rule runs_weaken, (assumption | rule tof_rules assms)+) simp


text \<open>Between reading and writing back the map its length does not change.\<close>

lemma runs_readMulti:
  assumes "since E od w0 n w" "sane_hw E"
    and "\<And>bs w. since E od w0 (n + 10360000 + k * 3200000) w \<Longrightarrow> length bs = k \<Longrightarrow> runs E od B1 (f (Some bs) w) w0"
    and "\<And>w. since E od w0 (n + 10360000 + k * 3200000) w \<Longrightarrow> runs E od B2 (f None w) w0"
  shows "runs E od (max B1 B2) (Option.bind (aeb_vl53l0xReadMulti E reg k w) (\<lambda>(x, w). f x w)) w0"
proof -
  obtain x w1 where r: "aeb_vl53l0xReadMulti E reg k w = Some (x, w1)" "since E od w0 (n + 10360000 + k * 3200000) w1"
    using runs_registers(5) [OF assms(1,2)] unfolding runs_def by blast
  show ?thesis
  proof (cases x)
    case None
    with r runs_weaken [OF assms(4) [OF r(2)] max.cobounded2] show ?thesis by simp
  next
    case (Some bs)
    with r have "length bs = k" by (auto simp: aeb_vl53l0xReadMulti_def dest: readRegister_len)
    with r Some runs_weaken [OF assms(3) [OF r(2), of bs] max.cobounded1] show ?thesis by simp
  qed
qed

lemma runs_cases:
  "runs E P B (f v) w \<Longrightarrow> runs E P B (case Some v of None \<Rightarrow> a | Some x \<Rightarrow> f x) w"
  "runs E P B a w \<Longrightarrow> runs E P B (case None of None \<Rightarrow> a | Some x \<Rightarrow> f x) w"
  by simp_all

lemma runs_prod: "(\<And>a b. runs E P B (g a b) w) \<Longrightarrow> runs E P B (case v of (a, b) \<Rightarrow> g a b) w"
  by (cases v) simp

lemma runs_spads:
  assumes "since E od w0 n w" "sane_hw E"
  shows "runs E od (n + 520000000) (aeb_vl53l0xConfigureSpads E w) w0"
proof -
  have m: "runs E od (k + 32000000) (aeb_vl53l0xWriteMulti E reg (select_spads c t m) w) w0"
    if "since E od w0 k w" "length m = 6" for k reg c t m w
    by (rule runs_weaken, rule runs_registers [OF that(1) assms(2)]) (simp add: length_select_spads that(2))
  show ?thesis
    unfolding aeb_vl53l0xConfigureSpads_def Let_def
    by (rule runs_weaken, rule runs_bind, rule runs_spadInfo [OF assms], rule runs_option, rule runs_Some, assumption,
        rule runs_prod, rule runs_readMulti, assumption, rule assms, rule runs_cases)
      ((assumption | rule runs_cases tof_rules assms(2) m)+, simp)
qed

text \<open>For longer sequences: a failure ends early, so its bound is the bound of the rest.\<close>

lemma runs_seqs:
  assumes "since E od w0 n w" "sane_hw E"
  shows "runs E od (n + 10500000) (write_seq E [a] w) w0"
    "runs E od (n + 21000000) (write_seq E [a, b] w) w0"
    "runs E od (n + 31500000) (write_seq E [a, b, c] w) w0"
    "runs E od (n + 42000000) (write_seq E [a, b, c, d] w) w0"
    "runs E od (n + 52500000) (write_seq E [a, b, c, d, e] w) w0"
    "runs E od (n + 63000000) (write_seq E [a, b, c, d, e, f] w) w0"
    "runs E od (n + 73500000) (write_seq E [a, b, c, d, e, f, g] w) w0"
    "runs E od (n + 84000000) (write_seq E [a, b, c, d, e, f, g, h] w) w0"
  by (rule runs_weaken, rule runs_write_seq [OF assms], simp)+

lemma runs_if_seq:
  "runs E P B1 a w \<Longrightarrow> runs E P B2 b w \<Longrightarrow> B1 \<le> B2 \<Longrightarrow> runs E P B2 (if c then a else b) w"
  by (auto intro: runs_weaken)

lemma runs_option_seq:
  "runs E P B1 a w \<Longrightarrow> (\<And>v. runs E P B2 (f v) w) \<Longrightarrow> B1 \<le> B2 \<Longrightarrow> runs E P B2 (case x of None \<Rightarrow> a | Some v \<Rightarrow> f v) w"
  by (cases x) (auto intro: runs_weaken)

lemma runs_read_then_seq:
  assumes "since E od w0 n w" "sane_hw E" "\<And>v w. since E od w0 (n + 14000000) w \<Longrightarrow> runs E od B (f v w) w0"
    "n + 14000000 \<le> B"
  shows "runs E od B (read_then E reg f w) w0"
  unfolding read_then_def
  by (rule runs_bind, rule runs_registers [OF assms(1,2)], rule runs_option_seq, rule runs_Some, assumption)
    (rule assms(3), assumption, rule assms(4))

lemma runs_and_then_seq:
  assumes "runs E od B1 (a w) w0" "\<And>w. since E od w0 B1 w \<Longrightarrow> runs E od B2 (b w) w0" "B1 \<le> B2"
  shows "runs E od B2 (and_then a b w) w0"
  unfolding and_then_def
  by (rule runs_bind, rule assms(1), rule runs_if_seq, rule runs_Some, assumption) (rule assms(2), assumption, rule assms(3))

lemmas seq_rules = runs_bind runs_if_seq runs_option_seq runs_Some runs_registers runs_seqs
  runs_read_then_seq runs_and_then_seq order_refl trans_le_add1

lemma runs_within: "runs E P B c w \<Longrightarrow> B < Suc B' \<Longrightarrow> runs E P B' c w"
  by (auto intro: runs_weaken)

lemma runs_prod2: "(\<And>a b. runs E P B (g a b u) w) \<Longrightarrow> runs E P B ((case v of (a, b) \<Rightarrow> g a b) u) w"
  by (cases v) simp

lemma runs_initSensor:
  assumes "since E od w0 n w" "sane_hw E"
  shows "runs E od (n + 2500000000) (aeb_vl53l0xInitSensor E diag w) w0"
  unfolding aeb_vl53l0xInitSensor_def Let_def
  by (rule runs_within, (assumption | rule seq_rules runs_spads runs_tuning runs_calibration assms)+) simp

lemma runs_probe:
  "since E od w0 n w \<Longrightarrow> sane_hw E \<Longrightarrow> runs E od (n + k * 17000000) (tof_probe_attempts E k s w) w0"
proof (induction k arbitrary: n s w)
  case 0
  then show ?case by (simp add: runs_Some)
next
  case (Suc k)
  have d: "since E od w0 (n + 17000000) (aeb_delayMs E 10 w1)" if "since E od w0 (n + 14000000) w1" for w1
    by (rule since_weaken, rule since_delayMs [OF that Suc.prems(2)]) simp_all
  have "runs E od (n + 17000000 + k * 17000000) (tof_probe_attempts E (Suc k) s w) w0"
    unfolding tof_probe_attempts.simps Let_def
    by (rule runs_weaken, rule runs_bind, rule runs_registers [OF Suc.prems], rule runs_if, rule runs_Some, assumption,
        rule Suc.IH, rule d, assumption, rule Suc.prems(2)) simp
  then show ?case by (simp add: ac_simps)
qed

lemma runs_tofInit:
  assumes "since E od w0 n w" "sane_hw E"
  shows "runs E od (n + 2700000000) (aeb_tofInit E s w) w0"
  unfolding aeb_tofInit_def aeb_i2cBusInit_def aeb_tofProbe_def Let_def
  by (rule runs_weaken, rule runs_bind, rule runs_bus_clocks, rule since_half_period, rule since_lines, rule since_lines,
      rule since_reset [OF assms], rule assms, rule assms, rule assms, rule assms, rule runs_bind, rule runs_probe,
      assumption, rule assms, rule runs_prod2)
    ((assumption | rule runs_bind runs_if runs_Some runs_initSensor runs_prod2 assms)+, simp)

lemma since_fresh:
  assumes "since E od w0 n w" "sane_hw E"
  shows "runs E od (n + 10001) (Some (aeb_isFresh E t ms w)) w0"
  unfolding aeb_isFresh_def aeb_nowTicks_def stm_now_def Let_def prod.case
  by (auto intro!: runs_Some since_od(1) assms(2) since_weaken [OF assms(1)] assms(1))

lemma runs_fresh:
  assumes "since E od w0 n w" "sane_hw E"
  shows "runs E od (n + 10001) (Some (tof_fresh E code s w)) w0"
  unfolding tof_fresh_def aeb_isFresh_def aeb_nowTicks_def stm_now_def Let_def prod.case
  by (auto intro!: runs_Some since_od(1) assms(2) since_weaken [OF assms(1)] assms(1))


lemma with_since:
  "since E od w0 n w \<Longrightarrow> sane_hw E \<Longrightarrow> since E od w0 (n + 10001) (snd (aeb_isFresh E t ms w))"
  by (auto simp: aeb_isFresh_def aeb_nowTicks_def stm_now_def Let_def intro: since_od(1) since_weaken)

lemma runs_tofUpdate:
  assumes "since E od w0 n w" "sane_hw E" "\<And>mm. tof_range mm \<noteq> None"
  shows "runs E od (n + 120000000) (aeb_tofUpdate E s w) w0"
proof -
  have r: "runs E od B2 (Option.bind (tof_range mm) f) w0" if "\<And>c. runs E od B2 (f c) w0" for mm f B2
    using assms(3) [of mm] that by (cases "tof_range mm") auto
  show ?thesis
    unfolding aeb_tofUpdate_def Let_def aeb_nowTicks_def stm_now_def prod.case AEB_TOF_MEASURE_TIMEOUT_MS_def
    by (rule runs_weaken, (assumption | rule runs_bind runs_if runs_option runs_fresh runs_registers
         runs_wait_register [OF _ _ wait_times(1)] runs_Some r since_od assms)+, simp)
qed

end
