(* ===== verification/FrontNode_Facts.thy ===== *)
theory FrontNode_Facts
  imports FrontRuns FrontSteering_Reach
begin

text \<open>
  Facts about the whole sensor node: its time conversions are defined, its ultrasonic sensors,
  its packet and its cycle always come to an end.
\<close>

section \<open>Conversions of ticks\<close>

lemma scaled_ticks:
  assumes "stm_freq E = Fin f" "10000000 \<le> f" "k = 1000 \<or> k = 1000000"
  shows "f32_to_u32 (fdiv (fmul (u32_to_f32 t) (flit k)) (stm_freq E)) =
    Some (of_nat (nat \<lfloor>rnd32 (rnd32 (rnd32 (real (unat t)) * k) / f)\<rfloor>))"
    "rnd32 (rnd32 (rnd32 (real (unat t)) * k) / f) \<le> 2 ^ 31"
proof -
  have k: "flit k = Fin k" "0 < k" "k \<le> 1000000"
    using assms(3) by (auto intro: flit_representable)
  have r: "representable (2 ^ 32)" "representable (2 ^ 53)" "representable (2 ^ 31)" unfolding representable_def
    by (rule exI [of _ 1], rule exI [of _ 32], simp) (rule exI [of _ 1], rule exI [of _ 53], simp,
      rule exI [of _ 1], rule exI [of _ 31], simp)
  define a where "a = rnd32 (rnd32 (real (unat t)) * k)"
  have "real (unat t) \<le> real (2 ^ 32)"
    using u32_less_2p32 [of t] unfolding of_nat_le_iff by simp
  then have t: "0 \<le> rnd32 (real (unat t))" "rnd32 (real (unat t)) \<le> 2 ^ 32"
    using r by (auto intro: r32.rnd_le simp: rnd32_nonneg)
  have "rnd32 (real (unat t)) * k \<le> 2 ^ 32 * 1000000" using t k by (intro mult_mono) auto
  then have a: "0 \<le> a" "a \<le> 2 ^ 53" using t k r unfolding a_def
    by (auto intro!: r32.rnd_le rnd32_nonneg)
  have "a \<le> 2 ^ 31 * f" using a(2) assms(2) by simp
  then have q: "0 \<le> a / f" "a / f \<le> 2 ^ 31" using a(1) assms(2) by (auto simp: divide_le_eq)
  then have q': "0 \<le> rnd32 (a / f)" "rnd32 (a / f) \<le> 2 ^ 31" using r by (auto intro: r32.rnd_le simp: rnd32_nonneg)
  then show "rnd32 (rnd32 (rnd32 (real (unat t)) * k) / f) \<le> 2 ^ 31" by (simp add: a_def)
  define x where "x = fmul (u32_to_f32 t) (flit k)"
  have xe: "x = mk32 (is_neg (u32_to_f32 t) \<noteq> is_neg (Fin k)) (rnd32 (real (unat t)) * k)"
    unfolding x_def k by (simp add: fmul_fin u32_to_f32_fin)
  have "\<bar>rnd32 (rnd32 (real (unat t)) * k)\<bar> < 2 ^ 128" using a by (simp add: a_def abs_less_iff)
  note x = mk32_fin [OF this, of "is_neg (u32_to_f32 t) \<noteq> is_neg (Fin k)", folded xe]
  define y where "y = fdiv x (Fin f)"
  have ye: "y = mk32 (is_neg x \<noteq> is_neg (Fin f)) (a / f)"
    unfolding y_def using x assms(2) by (simp add: fdiv_fin a_def)
  have "\<bar>rnd32 (a / f)\<bar> < 2 ^ 128" using q' by (simp add: abs_less_iff)
  note y = mk32_fin [OF this, of "is_neg x \<noteq> is_neg (Fin f)", folded ye]
  have "f32_to_u32 y = Some (word_of_int \<lfloor>rnd32 (a / f)\<rfloor>)"
    using y q' by (subst f32_to_u32_in_range) simp_all
  then show "f32_to_u32 (fdiv (fmul (u32_to_f32 t) (flit k)) (stm_freq E)) =
      Some (of_nat (nat \<lfloor>rnd32 (rnd32 (rnd32 (real (unat t)) * k) / f)\<rfloor>))"
    using q' by (simp add: assms(1) x_def y_def a_def)
qed

lemma ticks_conversions_total:
  assumes "stm_freq E = Fin f" "10000000 \<le> f"
  shows "\<exists>u. aeb_ticksToUs E t = Some u" "\<exists>m. aeb_ticksToMs E t = Some m" "\<exists>m. front_nowMs E w = Some (m, ReadClock # w)"
  using scaled_ticks(1) [OF assms, of 1000000 t] scaled_ticks(1) [OF assms, of 1000 t]
    nowMs_val(1) [of E f w] assms
  by (auto simp: aeb_ticksToUs_def aeb_ticksToMs_def)

section \<open>The ultrasonic sensors\<close>

definition echo_range :: "u16 \<Rightarrow> bool" where
  "echo_range v \<longleftrightarrow> 20 \<le> unat v \<and> unat v \<le> 5000"

definition sensor_ok :: "AebUltrasonicSensor \<Rightarrow> bool" where
  "sensor_ok s \<longleftrightarrow> length (samples s) = 3 \<and> unat (sampleIndex s) < 3 \<and> unat (sampleCount s) \<le> 3 \<and>
     (unat (sampleCount s) < 3 \<longrightarrow> sampleIndex s = sampleCount s) \<and>
     list_all echo_range (take (unat (sampleCount s)) (samples s)) \<and>
     (if sampleCount s = 0 then filteredCmX10 s = 0 \<and> lastValidTick s = 0 else echo_range (filteredCmX10 s)) \<and>
     trigPin s \<noteq> AEB_TOF_SDA \<and> trigPin s \<noteq> AEB_TOF_SCL"

lemma runs_waitPin:
  assumes "since E od w0 n w" "sane_hw E"
  shows "runs E od (n + 3060000) (aeb_waitPinState E p state AEB_ULTRA_ECHO_TIMEOUT_US False w) w0"
proof -
  let ?c = "(E, p, state, False, clock E w, aeb_ticksFromUs E AEB_ULTRA_ECHO_TIMEOUT_US)"
  have lim: "unat (aeb_ticksFromUs E AEB_ULTRA_ECHO_TIMEOUT_US) \<le> 3000000"
    using ticksFromUs_le [OF assms(2), of 15000] by (simp add: AEB_ULTRA_ECHO_TIMEOUT_US_def)
  obtain d where d: "d \<le> ticks_lo ReadClock + 10000" "took E w (ReadClock # w) d"
    using sane_clock [OF assms(2)] by blast
  have "runs E od (unat (aeb_ticksFromUs E AEB_ULTRA_ECHO_TIMEOUT_US) + 10001 + 30003)
      (poll_loop (wait_pin_round ?c) (ReadClock # w)) (ReadClock # w)"
    using wait_loop.total0 [of ?c w "ReadClock # w" d] assms(2) lim d by (simp add: wait_ok_def)
  then have "runs E od (n + 10001 + 3040004) (poll_loop (wait_pin_round ?c) (ReadClock # w)) w0"
    by (rule runs_from [OF runs_weaken]) (use lim since_od(1) [OF assms] in auto)
  then show ?thesis
    by (auto simp: aeb_waitPinState_def aeb_nowTicks_def stm_now_def intro: runs_weaken)
qed

lemma since_trigger:
  assumes "since E od w0 n w" "sane_hw E" "p \<noteq> AEB_TOF_SDA" "p \<noteq> AEB_TOF_SCL"
  shows "since E od w0 (n + 60000) (ultrasonic_trigger E p w)"
proof -
  have "since E od w0 (n + (0 + 10000) + (max 1 (200 * unat (2::u32)) + 10000) + (0 + 10000) +
      (max 1 (200 * unat (10::u32)) + 10000) + (0 + 10000)) (ultrasonic_trigger E p w)"
    unfolding ultrasonic_trigger_def Let_def
    by (intro since_delayUs since_event assms) (use assms in simp_all)
  then show ?thesis by (rule since_weaken) simp
qed

lemma runs_ultrasonicRead:
  assumes "since E od w0 n w" "sane_hw E" "trigPin s \<noteq> AEB_TOF_SDA" "trigPin s \<noteq> AEB_TOF_SCL"
    "stm_freq E = Fin f" "10000000 \<le> f"
  shows "runs E od (n + 6300000) (aeb_ultrasonicReadCmX10 E s w) w0"
proof -
  have r: "runs E od B2 (Option.bind (aeb_ticksToUs E t) f) w0" if "\<And>c. runs E od B2 (f c) w0" for t f B2
    using ticks_conversions_total(1) [OF assms(5,6), of t] that by auto
  have t: "since E od w0 (n + 60000) (ultrasonic_trigger E (trigPin (s\<lparr>lastRawCmX10 := 0, lastDiag := d\<rparr>)) w)" for d
    using since_trigger [OF assms(1-4)] by simp
  show ?thesis
    unfolding aeb_ultrasonicReadCmX10_def Let_def aeb_nowTicks_def stm_now_def prod.case
    by (rule runs_weaken, rule runs_bind, rule runs_waitPin, rule t, rule assms,
        (assumption | rule runs_bind runs_if runs_prod2 runs_Some runs_waitPin r since_od assms)+) simp
qed

text \<open>The median of what has been stored lies between the bounds of what has been stored.\<close>

lemma median3_cases:
  assumes "length xs = 3"
  shows "aeb_median3 xs c = Some (if c = 0 then 0 else if c = 1 then xs ! 0
     else if c = 2 then ucast ((ucast (xs ! 0) + ucast (xs ! 1) :: u32) div 2)
     else max (min (xs ! 0) (xs ! 1)) (min (max (xs ! 0) (xs ! 1)) (xs ! 2)))"
  using assms
  by (auto simp: aeb_median3_def swap_if_greater_def min_def max_def Let_def split: prod.splits)

lemma unat_ucast_up: "unat (ucast (a :: u16) :: u32) = unat a"
proof -
  have "unat a < 4294967296" using u16_less_65536 [of a] by linarith
  then show ?thesis by (simp add: unsigned_ucast_eq take_bit_nat_eq_self)
qed

lemma average_val:
  fixes a b :: u16
  shows "unat (ucast ((ucast a + ucast b :: u32) div 2) :: u16) = (unat a + unat b) div 2"
proof -
  have l: "unat a < 65536" "unat b < 65536" by simp_all
  then have "unat a + unat b < 4294967296" by linarith
  then have "unat (ucast a + ucast b :: u32) = unat a + unat b"
    by (subst unat_add_lem [THEN iffD1]) (simp_all add: unat_ucast_up)
  moreover have "(unat a + unat b) div 2 < 65536" using l by linarith
  ultimately show ?thesis by (simp add: unsigned_ucast_eq take_bit_nat_eq_self unat_div_distrib)
qed

lemma less_3_cases: "unat (c :: u8) \<le> 3 \<Longrightarrow> c = 0 \<or> c = 1 \<or> c = 2 \<or> c = 3"
proof -
  assume "unat c \<le> 3"
  then have "unat c = unat (0::u8) \<or> unat c = unat (1::u8) \<or> unat c = unat (2::u8) \<or> unat c = unat (3::u8)"
    by auto
  then show ?thesis by (metis word_unat_eq_iff)
qed

lemma average_range: "echo_range a \<Longrightarrow> echo_range b \<Longrightarrow> echo_range (ucast ((ucast a + ucast b :: u32) div 2))"
  unfolding echo_range_def average_val by auto

lemma store_sample_ok:
  assumes "sensor_ok s" "echo_range raw"
  shows "\<exists>s'. store_sample raw s = Some s' \<and> sensor_ok s' \<and> sampleCount s' \<noteq> 0 \<and>
    trigPin s' = trigPin s \<and> echoPin s' = echoPin s \<and> lastValidTick s' = lastValidTick s \<and>
    lastDiag s' = lastDiag s \<and> lastRawCmX10 s' = lastRawCmX10 s"
proof -
  obtain x0 x1 x2 where xs: "samples s = [x0, x1, x2]"
    using assms(1) by (auto simp: sensor_ok_def numeral_3_eq_3 length_Suc_conv)
  have c: "sampleCount s = 0 \<or> sampleCount s = 1 \<or> sampleCount s = 2 \<or> sampleCount s = 3"
    using assms(1) less_3_cases by (auto simp: sensor_ok_def)
  have i: "sampleIndex s = 0 \<or> sampleIndex s = 1 \<or> sampleIndex s = 2"
    using assms(1) less_3_cases [of "sampleIndex s"] by (auto simp: sensor_ok_def)
  have mm: "echo_range (max (min a b) (min (max a b) c))" if "echo_range a" "echo_range b" "echo_range c" for a b c
    using that by (auto simp: min_def max_def)
  have upd: "[x0, x1, x2][2 := raw] = [x0, x1, raw]" "[x0, x1, x2][1 := raw] = [x0, raw, x2]"
    "[x0, x1, x2][Suc 0 := raw] = [x0, raw, x2]"
    by (simp_all add: numeral_2_eq_2)
  show ?thesis
    using assms c i xs
    by (elim disjE)
      (simp_all add: store_sample_def sensor_ok_def median3_cases average_range mm upd Let_def)
qed


lemma ultrasonic_range_Some:
  assumes "ultrasonic_range us s = (Some v, s')"
  shows "echo_range v"
proof -
  define d where "d = (us * 1715 + 5000) div 10000"
  from assms have "20 \<le> d" "d \<le> 5000" "v = ucast d"
    by (auto simp: ultrasonic_range_def Let_def d_def consts_simps not_less split: if_splits)
  moreover from this have "unat d \<le> 5000" "20 \<le> unat d" by (simp_all add: word_le_nat_alt)
  moreover from this have "unat (ucast d :: u16) = unat d"
    by (simp add: unsigned_ucast_eq take_bit_nat_eq_self)
  ultimately show ?thesis by (simp add: echo_range_def)
qed

text \<open>Reading leaves everything but the last raw value and the diagnosis alone.\<close>

definition same_filter :: "AebUltrasonicSensor \<Rightarrow> AebUltrasonicSensor \<Rightarrow> bool" where
  "same_filter s s' \<longleftrightarrow> s' = s\<lparr>lastRawCmX10 := lastRawCmX10 s', lastDiag := lastDiag s'\<rparr>"

lemma same_filter_fields:
  "same_filter s s' \<Longrightarrow> trigPin s' = trigPin s \<and> echoPin s' = echoPin s \<and> lastValidTick s' = lastValidTick s \<and>
    samples s' = samples s \<and> sampleCount s' = sampleCount s \<and> sampleIndex s' = sampleIndex s \<and> filteredCmX10 s' = filteredCmX10 s"
  by (cases s; cases s') (simp add: same_filter_def)

lemma same_filter_ok: "same_filter s s' \<Longrightarrow> sensor_ok s \<Longrightarrow> sensor_ok s'"
  unfolding sensor_ok_def by (drule same_filter_fields) simp

lemma ultrasonicRead_result:
  assumes "aeb_ultrasonicReadCmX10 E s w = Some ((r, s'), w')"
  shows "same_filter s s' \<and> (case r of None \<Rightarrow> lastDiag s' \<in> {0xF001, 0xF002, 0xF003}
    | Some v \<Rightarrow> echo_range v \<and> lastDiag s' = 0 \<and> lastRawCmX10 s' = v)"
proof -
  have range: "same_filter t t' \<and> (case r of None \<Rightarrow> lastDiag t' = 0xF003
      | Some v \<Rightarrow> echo_range v \<and> lastDiag t' = lastDiag t \<and> lastRawCmX10 t' = v)" if h: "ultrasonic_range us t = (r, t')" for us t t'
  proof (cases r)
    case None
    with h show ?thesis by (auto simp: ultrasonic_range_def Let_def same_filter_def consts_simps split: if_splits)
  next
    case (Some v)
    with h have "echo_range v" using ultrasonic_range_Some by simp
    with Some h show ?thesis
      by (auto simp: ultrasonic_range_def Let_def same_filter_def consts_simps not_less word_le_nat_alt word_less_nat_alt split: if_splits)
  qed
  have trans: "same_filter (s\<lparr>lastRawCmX10 := a, lastDiag := b\<rparr>) t \<longleftrightarrow> same_filter s t" for a b t
    by (cases s; cases t) (simp add: same_filter_def)
  from assms show ?thesis
    unfolding aeb_ultrasonicReadCmX10_def Let_def aeb_nowTicks_def stm_now_def
    by (auto simp: bind_Some_iff same_filter_def consts_simps dest!: range split: if_splits option.splits)
qed


lemma isFresh_nonzero: "fst (aeb_isFresh E t ms w) \<Longrightarrow> t \<noteq> 0"
  by (auto simp: aeb_isFresh_def)

lemma sensor_ok_stamp: "sensor_ok s \<Longrightarrow> sampleCount s \<noteq> 0 \<Longrightarrow> sensor_ok (s\<lparr>lastValidTick := t\<rparr>)"
  by (simp add: sensor_ok_def)

lemma ultrasonicUpdate_ok:
  assumes "sensor_ok s" "aeb_ultrasonicUpdate E s w = Some ((fresh, s'), w')"
  shows "sensor_ok s' \<and> (fresh \<longrightarrow> echo_range (filteredCmX10 s')) \<and> trigPin s' = trigPin s \<and> echoPin s' = echoPin s \<and>
    lastDiag s' \<in> {0, 0xF001, 0xF002, 0xF003}"
proof -
  from assms(2) obtain raw s1 w1 where r: "aeb_ultrasonicReadCmX10 E s w = Some ((raw, s1), w1)"
    by (auto simp: aeb_ultrasonicUpdate_def bind_Some_iff)
  from ultrasonicRead_result [OF r] have r': "same_filter s s1"
    "case raw of None \<Rightarrow> lastDiag s1 \<in> {0xF001, 0xF002, 0xF003}
      | Some v \<Rightarrow> echo_range v \<and> lastDiag s1 = 0 \<and> lastRawCmX10 s1 = v" by auto
  note ok1 = same_filter_ok [OF r'(1) assms(1)] and f1 = same_filter_fields [OF r'(1)]
  have "sensor_ok s' \<and> (fresh \<longrightarrow> lastValidTick s' \<noteq> 0) \<and> trigPin s' = trigPin s \<and> echoPin s' = echoPin s \<and>
      lastDiag s' \<in> {0, 0xF001, 0xF002, 0xF003}"
  proof (cases raw)
    case None
    with assms(2) r have "s' = s1" "fresh = fst (aeb_isFresh E (lastValidTick s1) AEB_ULTRA_STALE_MS w1)"
      by (auto simp: aeb_ultrasonicUpdate_def Let_def split_beta)
    with None r' ok1 f1 isFresh_nonzero show ?thesis by auto
  next
    case (Some v)
    with r' have v: "echo_range v" "lastDiag s1 = 0" by auto
    from store_sample_ok [OF ok1 v(1)] obtain t where t: "store_sample v s1 = Some t" "sensor_ok t"
      "sampleCount t \<noteq> 0" "trigPin t = trigPin s1" "echoPin t = echoPin s1" "lastDiag t = lastDiag s1" by blast
    with assms(2) r Some have "s' = t\<lparr>lastValidTick := clock E w1\<rparr>"
        "fresh = fst (aeb_isFresh E (clock E w1) AEB_ULTRA_STALE_MS (ReadClock # w1))"
      by (auto simp: aeb_ultrasonicUpdate_def aeb_nowTicks_def stm_now_def Let_def split_beta)
    with t v sensor_ok_stamp [OF t(2,3)] f1 isFresh_nonzero show ?thesis by auto
  qed
  then show ?thesis by (auto simp: sensor_ok_def split: if_splits)
qed

lemma runs_ultrasonicUpdate:
  assumes "since E od w0 n w" "sane_hw E" "sensor_ok s" "stm_freq E = Fin f" "10000000 \<le> f"
  shows "runs E od (n + 6400000) (aeb_ultrasonicUpdate E s w) w0"
proof -
  have p: "trigPin s \<noteq> AEB_TOF_SDA" "trigPin s \<noteq> AEB_TOF_SCL" using assms(3) by (simp_all add: sensor_ok_def)
  from runs_ultrasonicRead [OF assms(1,2) p assms(4,5)] obtain raw s1 w1 where
    r: "aeb_ultrasonicReadCmX10 E s w = Some ((raw, s1), w1)" "since E od w0 (n + 6300000) w1"
    unfolding runs_def by auto
  from ultrasonicRead_result [OF r(1)] have ok1: "sensor_ok s1" "\<And>v. raw = Some v \<Longrightarrow> echo_range v"
    using same_filter_ok assms(3) by auto
  define tail where "tail s2 w2 = (let (fresh, w) = aeb_isFresh E (lastValidTick s2) AEB_ULTRA_STALE_MS w2 in Some ((fresh, s2 :: AebUltrasonicSensor), w))" for s2 w2
  have tail: "runs E od (n + 6400000) (tail s2 w2) w0" if "since E od w0 (n + 6320000) w2" for s2 w2
    unfolding tail_def Let_def split_beta
    by (rule runs_Some, rule since_weaken [OF with_since [OF that assms(2)]]) simp
  show ?thesis
  proof (cases raw)
    case None
    with r tail [OF since_weaken [OF r(2)], of s1] show ?thesis
      by (simp add: aeb_ultrasonicUpdate_def tail_def)
  next
    case (Some v)
    with store_sample_ok [OF ok1(1) ok1(2)] obtain t where t: "store_sample v s1 = Some t" by blast
    have "since E od w0 (n + 6300000 + 10001) (ReadClock # w1)" by (rule since_od(1) [OF r(2) assms(2)])
    then have "since E od w0 (n + 6320000) (ReadClock # w1)" by (rule since_weaken) simp
    from tail [OF this, of "t\<lparr>lastValidTick := clock E w1\<rparr>"] show ?thesis
      using r Some t by (simp add: aeb_ultrasonicUpdate_def tail_def aeb_nowTicks_def stm_now_def)
  qed
qed

section \<open>The time-of-flight sensor\<close>

lemma is_fin_half: "is_fin (Fin (1 / 2))"
  by simp

lemma tof_range_val: "tof_range mm = Some (of_nat ((unat mm + 1) div 2))"
proof -
  let ?n = "unat mm"
  have n: "?n < 65536" by simp
  then have "?n \<le> 16777216" by linarith
  then have u: "u32_to_f32 (ucast mm) = Fin (real ?n)"
    by (subst u32_to_f32_small) (simp_all add: unat_ucast_up)
  have r: "representable (real ?n * (1 / 2))" "representable (real ?n * (1 / 2) + 1 / 2)"
    using representable_frac [of "int ?n" 1] representable_frac [of "int ?n + 1" 1] n
    by (simp_all add: add_divide_distrib)
  have h: "flit (1 / 2) = Fin (1 / 2)" using wf_half(1) by (intro flit_representable) (simp_all add: wf32_def)
  have b: "real ?n \<le> 65536" using n unfolding of_nat_le_iff [of ?n 65536, where 'a = real, symmetric, simplified] by linarith
  have m: "is_fin (fmul (Fin (real ?n)) (Fin (1 / 2)))" "fval (fmul (Fin (real ?n)) (Fin (1 / 2))) = real ?n * (1 / 2)"
    using mk32_bounded [of "real ?n * (1 / 2)" 65536 "is_neg (Fin (real ?n)) \<noteq> is_neg (Fin (1 / 2))"] r(1) b
    by (simp_all add: fmul_fin rnd32_representable)
  have a: "is_fin (fadd (fmul (Fin (real ?n)) (Fin (1 / 2))) (Fin (1 / 2)))"
    "fval (fadd (fmul (Fin (real ?n)) (Fin (1 / 2))) (Fin (1 / 2))) = real ?n * (1 / 2) + 1 / 2"
    unfolding fadd_fin [OF m(1) is_fin_half] m(2)
    using mk32_bounded [of "real ?n * (1 / 2) + 1 / 2" 65537] r(2) b
    by (simp_all add: rnd32_representable)
  have "\<lfloor>real ?n * (1 / 2) + 1 / 2\<rfloor> = int ((?n + 1) div 2)"
    using floor_divide_of_nat_eq [of "?n + 1" 2, where 'a = real] by (simp add: add_divide_distrib add.commute)
  then show ?thesis
    using a b by (simp add: tof_range_def u AEB_TOF_DISTANCE_SCALE_def h f32_to_u32_in_range)
qed

lemma tof_range_total: "tof_range mm \<noteq> None"
  by (simp add: tof_range_val)

definition tof_ok :: "tof_state \<Rightarrow> bool" where
  "tof_ok t \<longleftrightarrow> (g_tofLastValidTick t \<noteq> 0 \<longrightarrow> 30 \<le> unat (g_tofCmX10 t) \<and> unat (g_tofCmX10 t) \<le> 4000)"

lemma tof_fresh_ok:
  assumes "tof_ok s" "tof_fresh E code s w = ((fresh, s'), w')"
  shows "tof_ok s' \<and> (fresh \<longrightarrow> 30 \<le> unat (g_tofCmX10 s') \<and> unat (g_tofCmX10 s') \<le> 4000)"
  using assms by (auto simp: tof_fresh_def tof_ok_def Let_def split_beta dest: isFresh_nonzero)

lemma tof_stamp_ok:
  assumes "30 \<le> c" "c \<le> (4000 :: u32)"
  shows "tof_ok (s\<lparr>g_tofCmX10 := ucast c, g_tofLastValidTick := now\<rparr>)"
proof -
  have c: "30 \<le> unat c" "unat c \<le> 4000" using assms by (simp_all add: word_le_nat_alt)
  then have "unat (ucast c :: u16) = unat c" by (simp add: unsigned_ucast_eq take_bit_nat_eq_self)
  with c show ?thesis by (simp add: tof_ok_def)
qed


lemma tofUpdate_ok:
  assumes "tof_ok s" "aeb_tofUpdate E s w = Some ((fresh, s'), w')"
  shows "tof_ok s' \<and> (fresh \<longrightarrow> 30 \<le> unat (g_tofCmX10 s') \<and> unat (g_tofCmX10 s') \<le> 4000)"
proof -
  define Q where "Q = (\<lambda>(fresh, s') (w' :: trace). tof_ok s' \<and>
    (fresh \<longrightarrow> 30 \<le> unat (g_tofCmX10 s') \<and> unat (g_tofCmX10 s') \<le> 4000))"
  have f: "post Q (Some (tof_fresh E code t w))" if "tof_ok t" for code t w
    by (rule post_Some) (use tof_fresh_ok [OF that] in \<open>auto simp: Q_def\<close>)
  have "post Q (aeb_tofUpdate E s w)"
    unfolding aeb_tofUpdate_def Let_def aeb_nowTicks_def stm_now_def prod.case consts_simps
    by (rule post_if, rule post_Some, force simp: Q_def assms(1),
        (rule post_bind post_if post_option f assms(1))+, rule post_bind_pure, rule post_if)
      (use f tof_stamp_ok assms(1) in auto)
  from postD [OF this assms(2)] show ?thesis by (simp add: Q_def)
qed

end
