(* ===== verification/FrontAeb1.thy ===== *)
theory FrontAeb1
  imports FrontNode_Facts
begin

text \<open>
  The AEB1 packet byte by byte: what \<open>aeb_buildPacket\<close> leaves in the transmit buffer, and why
  its IP header verifies.
\<close>

section \<open>Bytes of a number\<close>

lemma join16: "push_bit 8 (ucast (ucast (drop_bit 8 v) :: u8)) OR ucast (ucast v :: u8) = (v :: u16)" (is "?l = ?r")
proof (rule bit_word_eqI)
  fix n assume "n < LENGTH(16)"
  then show "bit ?l n = bit ?r n"
    by (cases "n < 8") (auto simp: bit_simps)
qed

lemma join16_32: "push_bit 8 (ucast (ucast (drop_bit 8 v) :: u8)) OR ucast (ucast v :: u8) = (ucast (v :: u16) :: u32)" (is "?l = ?r")
proof (rule bit_word_eqI)
  fix n assume "n < LENGTH(32)"
  then show "bit ?l n = bit ?r n"
    by (cases "n < 8") (auto simp: bit_simps dest: bit_imp_le_length)
qed

lemma join32: "ucast (ucast v :: u8) OR push_bit 8 (ucast (ucast (drop_bit 8 v) :: u8)) OR
   push_bit 16 (ucast (ucast (drop_bit 16 v) :: u8)) OR push_bit 24 (ucast (ucast (drop_bit 24 v) :: u8)) = (v :: u32)"
   (is "?l = ?r")
proof (rule bit_word_eqI)
  fix n assume "n < LENGTH(32)"
  then consider "n < 8" | "8 \<le> n \<and> n < 16" | "16 \<le> n \<and> n < 24" | "24 \<le> n \<and> n < 32" by force
  then show "bit ?l n = bit ?r n"
    by cases (auto simp: bit_simps)
qed

section \<open>The carry of the checksum\<close>

lemma unat_carry:
  "unat (drop_bit 16 s) = unat (s :: u32) div 65536"
  "unat ((s AND 0xFFFF) + drop_bit 16 s) = unat s mod 65536 + unat s div 65536"
proof -
  show d: "unat (drop_bit 16 s) = unat s div 65536" by (simp add: drop_bit_eq_div unat_div_distrib)
  have m: "s AND 0xFFFF = take_bit 16 s" by (simp add: take_bit_eq_mask mask_eq_exp_minus_1)
  have t: "unat (take_bit 16 s) = unat s mod 65536" by (simp add: take_bit_eq_mod unat_mod_distrib)
  have "unat s div 65536 < 65536" using u32_less_2p32 [of s] by (simp add: div_less_iff_less_mult)
  then have "unat s mod 65536 + unat s div 65536 < 2 ^ 32"
    using mod_less_divisor [of 65536 "unat s"] by simp
  then show "unat ((s AND 0xFFFF) + drop_bit 16 s) = unat s mod 65536 + unat s div 65536"
    unfolding m by (subst unat_add_lem [THEN iffD1]) (simp_all add: d t)
qed

lemma fold_carry_props:
  "unat (fold_carry s) \<le> 65535" "unat (fold_carry s) mod 65535 = unat s mod 65535" "s \<noteq> 0 \<Longrightarrow> fold_carry s \<noteq> 0"
proof (induction s rule: fold_carry.induct)
  case (1 s)
  define t where "t = (s AND 0xFFFF) + drop_bit 16 s"
  have u: "unat t = unat s mod 65536 + unat s div 65536" unfolding t_def by (rule unat_carry)
  have "unat s = unat s div 65536 * 65536 + unat s mod 65536" by (simp only: div_mult_mod_eq)
  then have "unat s = unat t + unat s div 65536 * 65535" using u by linarith
  then have m: "unat t mod 65535 = unat s mod 65535" by (metis mod_mult_self1)
  have nz: "t \<noteq> 0" if "s \<noteq> 0"
  proof
    assume "t = 0"
    with u have "unat s mod 65536 = 0" "unat s div 65536 = 0" by simp_all
    then have "unat s = 0" by (metis div_mult_mod_eq mult_0 add_0)
    with that show False by (simp add: unat_eq_0)
  qed
  have IH: "drop_bit 16 s \<noteq> 0 \<Longrightarrow> unat (fold_carry t) \<le> 65535"
    "drop_bit 16 s \<noteq> 0 \<Longrightarrow> unat (fold_carry t) mod 65535 = unat t mod 65535"
    "drop_bit 16 s \<noteq> 0 \<Longrightarrow> t \<noteq> 0 \<Longrightarrow> fold_carry t \<noteq> 0" using 1 unfolding t_def by blast+
  have f: "fold_carry s = (if drop_bit 16 s \<noteq> 0 then fold_carry t else s)"
    unfolding t_def by (rule fold_carry.simps)
  have small: "unat s \<le> 65535" if "drop_bit 16 s = 0"
    using that unat_carry(1) [of s] by (simp add: div_eq_0_iff)
  { case 1 then show ?case using IH(1) small f by simp }
  { case 2 then show ?case using IH(2) m f by simp }
  { case 3 then show ?case using IH(3) nz f by simp }
qed

lemma fold_carry_multiple: "s \<noteq> 0 \<Longrightarrow> unat s mod 65535 = 0 \<Longrightarrow> fold_carry s = 0xFFFF"
proof -
  assume h: "s \<noteq> 0" "unat s mod 65535 = 0"
  with fold_carry_props [of s] have "unat (fold_carry s) mod 65535 = 0" "unat (fold_carry s) \<le> 65535" "fold_carry s \<noteq> 0"
    by auto
  then have "unat (fold_carry s) = 65535"
    by (metis antisym_conv2 mod_less unat_eq_0)
  then have "unat (fold_carry s) = unat (0xFFFF :: u32)" by simp
  then show ?thesis by (metis word_unat_eq_iff)
qed
section \<open>The packet\<close>

lemma checksum_step:
  "checksum_words (numeral k) (b0 # b1 # data) acc =
    (if pred_numeral k = 0 then Some (acc + push_bit 8 (ucast b0))
     else checksum_words (pred_numeral k - 1) data (acc + (push_bit 8 (ucast b0) OR ucast b1)))"
  by (cases "pred_numeral k") (simp_all add: numeral_eq_Suc)

definition id_of :: "AebSensorNode_Frame \<Rightarrow> u16" where
  "id_of f = ucast (f_sequence f AND 0xFFFF)"

definition ip_sum :: "AebSensorNode_Frame \<Rightarrow> u32" where
  "ip_sum f = 0x4500 + 50 + ucast (id_of f) + 0x4011 + 0xC0A8 + 0x0A0B + 0xC0A8 + 0x0A01"

definition ip_checksum :: "AebSensorNode_Frame \<Rightarrow> u16" where
  "ip_checksum f = ucast (NOT (fold_carry (ip_sum f)))"

definition hi :: "u16 \<Rightarrow> u8" where "hi v = ucast (drop_bit 8 v)"
definition lo :: "u16 \<Rightarrow> u8" where "lo v = ucast v"

definition ip_bytes :: "AebSensorNode_Frame \<Rightarrow> u8 list" where
  "ip_bytes f = [0x45, 0, 0, 50, hi (id_of f), lo (id_of f), 0, 0, 64, 17, hi (ip_checksum f), lo (ip_checksum f),
     192, 168, 10, 11, 192, 168, 10, 1]"

definition payload_bytes :: "AebSensorNode_Frame \<Rightarrow> u8 list" where
  "payload_bytes f = [0x41, 0x45, 0x42, 0x31, 1, f_validMask f, lo (f_tofDiag f), hi (f_tofDiag f),
     ucast (f_sequence f), ucast (drop_bit 8 (f_sequence f)), ucast (drop_bit 16 (f_sequence f)), ucast (drop_bit 24 (f_sequence f)),
     ucast (f_timestampMs f), ucast (drop_bit 8 (f_timestampMs f)), ucast (drop_bit 16 (f_timestampMs f)), ucast (drop_bit 24 (f_timestampMs f)),
     lo (f_tofFrontCmX10 f), hi (f_tofFrontCmX10 f), lo (f_ultrasonicLeftCmX10 f), hi (f_ultrasonicLeftCmX10 f),
     lo (f_ultrasonicRightCmX10 f), hi (f_ultrasonicRightCmX10 f)]"

lemma put_at_here: "length zs = length bs \<Longrightarrow> put_at 0 bs (zs @ ys) = bs @ ys"
  by (simp add: put_at_def)

lemma put_at_skip: "length xs \<le> off \<Longrightarrow> put_at off bs (xs @ ys) = xs @ put_at (off - length xs) bs ys"
  by (simp add: put_at_def)

lemma put_at_Cons: "put_at (numeral k) bs (x # ys) = x # put_at (pred_numeral k) bs ys"
  by (simp add: put_at_def numeral_eq_Suc)

abbreviation z :: "nat \<Rightarrow> u8 list" where "z n \<equiv> replicate n 0"

lemma blocks_256: "z 256 = z 6 @ z 6 @ z 2 @ z 2 @ z 2 @ z 2 @ z 2 @ z 2 @ z 2 @ z 4 @ z 4 @
   z 2 @ z 2 @ z 2 @ z 2 @ z 6 @ z 2 @ z 4 @ z 4 @ z 2 @ z 2 @ z 2 @ z 192"
  by (simp add: replicate_add [symmetric])

lemma z_small: "z 2 = [0, 0]" by (simp add: numeral_eq_Suc)

lemma ip_checksum_val:
  "aeb_checksum16 ([69, 0] @ [0, 50] @ [ucast (drop_bit 8 (ucast (f_sequence f AND 65535) :: u16)), ucast (ucast (f_sequence f AND 65535) :: u16)] @
     [0, 0] @ [64, 17] @ z 2 @ [192, 168, 10, 11] @ [192, 168, 10, 1] @ rest) 20 = Some (ip_checksum f)"
proof -
  have "unat (20 :: u16) = 20" by simp
  moreover have "checksum_words 20 ([69, 0] @ [0, 50] @ [ucast (drop_bit 8 (ucast (f_sequence f AND 65535) :: u16)), ucast (ucast (f_sequence f AND 65535) :: u16)] @
     [0, 0] @ [64, 17] @ z 2 @ [192, 168, 10, 11] @ [192, 168, 10, 1] @ rest) 0 = Some (ip_sum f)"
    unfolding z_small append.simps checksum_step pred_numeral_simps join16_32
    by (simp add: checksum_step join16_32 ip_sum_def id_of_def)
  ultimately show ?thesis by (simp only: aeb_checksum16_def ip_checksum_def option.map)
qed

lemma buildPacket_val:
  "aeb_buildPacket f = Some ([0xFF, 0xFF, 0xFF, 0xFF, 0xFF, 0xFF, 0x02, 0x37, 0x50, 0xAE, 0xB0, 0x01, 8, 0] @
     ip_bytes f @ [19, 147, 19, 147, 0, 30, 0, 0] @ payload_bytes f @ z 192, 64)"
  unfolding aeb_buildPacket_def ip_header_def udp_header_def aeb1_payload_def aeb_put16be_def aeb_put16le_def
    aeb_put32le_def AEB_ETH_TX_BUFFER_SIZE_def blocks_256
  by (simp add: consts_simps put_at_here put_at_skip put_at_Cons g_dstMac_def g_srcMac_def g_srcIp_def g_dstIp_def Let_def
     ip_checksum_val del: append_Cons)
    (simp add: ip_bytes_def payload_bytes_def hi_def lo_def id_of_def)

lemma ucast_nat_u32: "(ucast (v :: u16) :: u32) = of_nat (unat v)"
  by (metis unat_ucast_up word_of_nat_unat)

lemma ip_sum_small: "unat (ip_sum f) = 0x4500 + 50 + unat (id_of f) + 0x4011 + 0xC0A8 + 0x0A0B + 0xC0A8 + 0x0A01"
proof -
  have "ip_sum f = of_nat (0x4500 + 50 + unat (id_of f) + 0x4011 + 0xC0A8 + 0x0A0B + 0xC0A8 + 0x0A01)"
    by (simp add: ip_sum_def add.commute ucast_nat_u32)
  moreover have "unat (id_of f) < 65536" by simp
  then have "0x4500 + 50 + unat (id_of f) + 0x4011 + 0xC0A8 + 0x0A0B + 0xC0A8 + 0x0A01 < 4294967296" by linarith
  ultimately show ?thesis using unat_of_nat_u32 by presburger
qed

lemma unat_not16: "unat (ucast (NOT (fold_carry s)) :: u16) = 65535 - unat (fold_carry s)"
proof -
  have "ucast (NOT (fold_carry s)) = (NOT (ucast (fold_carry s)) :: u16)"
    by (rule bit_word_eqI) (auto simp: bit_simps)
  moreover have "unat (ucast (fold_carry s) :: u16) = unat (fold_carry s)"
    using fold_carry_props(1) [of s] by (simp add: unsigned_ucast_eq take_bit_nat_eq_self)
  moreover have "unat (NOT x) = 65535 - unat x" for x :: u16
  proof -
    have "NOT x = 65535 - x" by (simp add: not_eq_complement)
    moreover have "unat x \<le> 65535" using u16_less_65536 [of x] by linarith
    then have "x \<le> 65535" by (simp add: word_le_nat_alt)
    ultimately show ?thesis by (simp add: unat_sub)
  qed
  ultimately show ?thesis by simp
qed

lemma join16_checksum: "push_bit 8 (ucast (hi v)) OR ucast (lo v) = (ucast v :: u32)"
  unfolding hi_def lo_def by (rule join16_32)

lemma checksum_words_ip: "checksum_words 20 (ip_bytes f) 0 = Some (ip_sum f + ucast (ip_checksum f))"
  unfolding ip_bytes_def checksum_step pred_numeral_simps join16_checksum
  by (simp add: checksum_step join16_checksum ip_sum_def)

lemma complement_arith:
  fixes a c q r S :: nat
  assumes "S = q * 65535 + r" "c \<le> 65535" "a = S + (65535 - c)"
  shows "c = r \<Longrightarrow> a = (q + 1) * 65535" "c = 65535 \<Longrightarrow> r = 0 \<Longrightarrow> a = q * 65535"
  using assms by simp_all

lemma ip_header_checks: "aeb_checksum16 (ip_bytes f) 20 = Some 0"
proof -
  define c where "c = unat (fold_carry (ip_sum f))"
  have c: "c \<le> 65535" "c mod 65535 = unat (ip_sum f) mod 65535"
    using fold_carry_props(1,2) [of "ip_sum f"] by (simp_all add: c_def)
  have s: "unat (ip_sum f) \<le> 300000" "0 < unat (ip_sum f)"
    using ip_sum_small [of f] u16_less_65536 [of "id_of f"] by linarith+
  have k: "unat (ip_checksum f) = 65535 - c" unfolding ip_checksum_def c_def by (rule unat_not16)
  define t where "t = ip_sum f + ucast (ip_checksum f)"
  have t: "unat t = unat (ip_sum f) + (65535 - c)"
    unfolding t_def using s k by (subst unat_add_lem [THEN iffD1]) (auto simp: unat_ucast_up)
  have d: "unat (ip_sum f) = unat (ip_sum f) div 65535 * 65535 + unat (ip_sum f) mod 65535" by (simp only: div_mult_mod_eq)
  have "c = unat (ip_sum f) mod 65535 \<or> c = 65535 \<and> unat (ip_sum f) mod 65535 = 0"
    using c by (cases "c = 65535") auto
  then have "unat t = (unat (ip_sum f) div 65535 + 1) * 65535 \<or> unat t = unat (ip_sum f) div 65535 * 65535"
    using complement_arith [OF d c(1) t] by blast
  then have "unat t mod 65535 = 0" by (metis mod_mult_self2_is_0)
  moreover have "t \<noteq> 0" using t s(2) by auto
  ultimately have "fold_carry t = 0xFFFF" by (rule fold_carry_multiple [rotated])
  moreover have "unat (20 :: u16) = 20" by simp
  ultimately show ?thesis using checksum_words_ip [of f]
    by (simp only: aeb_checksum16_def t_def option.map) simp
qed

end
