(* ===== verification/FrontCycle.thy ===== *)
theory FrontCycle
  imports FrontAeb1
begin

text \<open>
  A whole cycle of the FRONT controller: polling the receive ring, measuring, sending, holding
  the wheels. Every cycle ends within a bounded time and preserves the node's invariant.
\<close>

section \<open>The hardware a cycle needs\<close>

text \<open>Besides a live timer: a timer frequency of at least 10 MHz, a receive ring of at most 1000
  descriptors, receive buffers of the size the node configures, and a driver that always has a transmit
  buffer in the end (the code waits for one without a limit).\<close>

definition node_hw :: "hw \<Rightarrow> bool" where
  "node_hw E \<longleftrightarrow> sane_hw E \<and> (\<exists>f. stm_freq E = Fin f \<and> 10000000 \<le> f) \<and> unat (max_rx_descr E) \<le> 1000 \<and>
     (\<forall>w. tx_free E w) \<and> (\<forall>w fr bs. rx_head E w = Some fr \<longrightarrow> rxBuffer fr = Some bs \<longrightarrow> length bs = 256)"

lemma node_hwD:
  assumes "node_hw E"
  obtains f where "sane_hw E" "stm_freq E = Fin f" "10000000 \<le> f" "1000000 \<le> f"
    "\<And>w fr bs. rx_head E w = Some fr \<Longrightarrow> rxBuffer fr = Some bs \<Longrightarrow> length bs = 256"
  using assms unfolding node_hw_def by force

lemma frame_total:
  assumes "108 \<le> length frame" "unat len \<le> length frame"
  shows "\<exists>ok s'. FrontSteeringNode_acceptEthernetFrame (Some frame) len nowMs s = Some (ok, s')"
proof (cases "len < HPSC_PACKET_SIZE")
  case False
  then have len: "40 \<le> unat len" by (simp add: HPSC_PACKET_SIZE_def word_less_nat_alt)
  then have sub: "unat (len - HPSC_PACKET_SIZE) = unat len - 40"
    by (simp add: HPSC_PACKET_SIZE_def unat_sub word_le_nat_alt)
  obtain ok1 s1 where 1: "(if 82 \<le> unat len then hpscFromEthernet frame len nowMs s else Some (False, s)) = Some (ok1, s1)"
    using hpscFromEthernet_total [OF _ assms(2), of nowMs s] by (cases "82 \<le> unat len") auto
  obtain ok2 s2 where 2: "(if 82 \<le> unat len then hpscFromIp frame len nowMs s1 else Some (False, s1)) = Some (ok2, s2)"
    using hpscFromIp_total [OF assms(1), of len nowMs s1] by (cases "82 \<le> unat len") auto
  obtain ok3 s3 where 3: "hpscScan frame [0 ..< unat (len - HPSC_PACKET_SIZE) + 1] nowMs s2 = Some (ok3, s3)"
    using hpscScan_total [of "[0 ..< unat len - 40 + 1]" frame nowMs s2] len assms(2) unfolding sub by fastforce
  from 1 2 3 False have "FrontSteeringNode_acceptEthernetFrame (Some frame) len nowMs s =
      Some (if ok1 then (True, s1) else if ok2 then (True, s2) else (ok3, s3))"
    by (simp add: FrontSteeringNode_acceptEthernetFrame_def)
  then show ?thesis by (metis surj_pair)
qed (auto simp: FrontSteeringNode_acceptEthernetFrame_def intro: exI [of _ False])

lemma handle_rx_ok:
  assumes "\<And>bs. rxBuffer fr = Some bs \<Longrightarrow> length bs = 256" "steer_inv s"
  shows "\<exists>s'. handle_rx fr now s = Some s' \<and> steer_inv s'"
proof (cases "rxBuffer fr \<noteq> None \<and> 40 \<le> aeb_getRxFrameSize (rxDescr fr) \<and>
    unat (aeb_getRxFrameSize (rxDescr fr)) \<le> AEB_ETH_RX_BUFFER_SIZE")
  case True
  then obtain bs where bs: "rxBuffer fr = Some bs" by auto
  obtain ok s' where r: "FrontSteeringNode_acceptEthernetFrame (Some bs) (aeb_getRxFrameSize (rxDescr fr)) now s = Some (ok, s')"
    using frame_total [of bs "aeb_getRxFrameSize (rxDescr fr)" now s] assms(1) [OF bs] True unfolding AEB_ETH_RX_BUFFER_SIZE_def by auto
  with steer_inv_frame [OF r assms(2)] True bs show ?thesis by (simp add: handle_rx_def)
qed (use assms(2) in \<open>auto simp: handle_rx_def Let_def\<close>)

lemma poll_frames_ok:
  assumes "node_hw E" "steer_inv s" "since E od w0 n w"
  shows "\<exists>s' w'. poll_frames E k now s w = Some (s', w') \<and> steer_inv s' \<and> since E od w0 (n + (k + 1) * 20000) w'"
  using assms(2,3)
proof (induction k arbitrary: n s w)
  case 0
  then show ?case by (auto intro: since_weaken)
next
  case (Suc k)
  have E: "sane_hw E" "\<And>w fr bs. rx_head E w = Some fr \<Longrightarrow> rxBuffer fr = Some bs \<Longrightarrow> length bs = 256"
    using assms(1) unfolding node_hw_def by blast+
  have p: "since E od w0 (n + 10000) (EthPollRx # w)" by (rule since_od(7) [OF Suc.prems(2) E(1)])
  show ?case
  proof (cases "rx_head E w")
    case None
    with p Suc.prems(1) show ?thesis by (auto intro: since_weaken)
  next
    case (Some fr)
    obtain s1 where s1: "handle_rx fr now s = Some s1" "steer_inv s1"
      using handle_rx_ok [OF E(2) [OF Some] Suc.prems(1)] by blast
    have "since E od w0 (n + 10000 + 10000) (EthFreeRx # EthPollRx # w)" by (rule since_od(8) [OF p E(1)])
    from Suc.IH [OF s1(2) this] Some s1(1) show ?thesis by (auto simp: add.assoc)
  qed
qed

lemma pollRx_ok:
  assumes "node_hw E" "steer_inv s" "since E od w0 n w"
  shows "\<exists>s' w'. aeb_pollSteeringRx E s w = Some (s', w') \<and> steer_inv s' \<and> since E od w0 (n + 21000000) w'"
proof -
  obtain f where E: "sane_hw E" "stm_freq E = Fin f" "10000000 \<le> f" using assms(1) by (auto simp: node_hw_def)
  have ring: "unat (max_rx_descr E) \<le> 1000" using assms(1) by (simp add: node_hw_def)
  obtain m where m: "aeb_ticksToMs E (clock E w) = Some m" using ticks_conversions_total(2) [OF E(2,3)] by blast
  obtain s' w' where "poll_frames E (max 1 (unat (max_rx_descr E))) m s (ReadClock # w) = Some (s', w')" "steer_inv s'"
    "since E od w0 (n + 10001 + (max 1 (unat (max_rx_descr E)) + 1) * 20000) w'"
    using poll_frames_ok [OF assms(1,2) since_od(1) [OF assms(3) E(1)]] by blast
  moreover have "n + 10001 + (max 1 (unat (max_rx_descr E)) + 1) * 20000 \<le> n + 21000000" using ring by simp
  ultimately show ?thesis using m
    by (auto simp: aeb_pollSteeringRx_def aeb_nowTicks_def stm_now_def intro: since_weaken)
qed

section \<open>Sending\<close>

text \<open>From \<open>w0\<close> to \<open>w\<close>, in at most n ticks, exactly one frame was handed to the driver.\<close>

definition sent_one :: "hw \<Rightarrow> trace \<Rightarrow> nat \<Rightarrow> u8 list \<times> u16 \<Rightarrow> trace \<Rightarrow> bool" where
  "sent_one E w0 n pkt w \<longleftrightarrow> (\<exists>w1 a b. since E od w0 a w1 \<and> since E od (EthSend (fst pkt) (snd pkt) # w1) b w \<and> a + 10000 + b \<le> n)"

text \<open>The frames a trace hands to the driver, newest first.\<close>

fun sends :: "trace \<Rightarrow> (u8 list \<times> u16) list" where
  "sends [] = []"
| "sends (EthSend bs len # w) = (bs, len) # sends w"
| "sends (e # w) = sends w"

lemma sends_od: "od e \<Longrightarrow> sends (e # w) = sends w"
  by (cases e) (simp_all add: od_def)

lemma sends_append: "list_all od es \<Longrightarrow> sends (es @ w) = sends w"
  by (induction es) (simp_all add: sends_od)

lemma sends_since: "since E od w0 n w \<Longrightarrow> sends w = sends w0"
  by (auto simp: since_def sends_append)

lemma sent_one_later:
  assumes "sent_one E w0 n pkt w" "\<And>w0 k. since E od w0 k w \<Longrightarrow> since E od w0 (k + d) w'"
  shows "sent_one E w0 (n + d) pkt w'"
proof -
  obtain w1 a b where "since E od w0 a w1" "since E od (EthSend (fst pkt) (snd pkt) # w1) b w" "a + 10000 + b \<le> n"
    using assms(1) unfolding sent_one_def by blast
  with assms(2) [of "EthSend (fst pkt) (snd pkt) # w1" b] show ?thesis unfolding sent_one_def
    by (intro exI [of _ w1] exI [of _ a] exI [of _ "b + d"]) simp
qed

lemma sent_one_weaken: "sent_one E w0 m pkt w \<Longrightarrow> m \<le> n \<Longrightarrow> sent_one E w0 n pkt w"
  unfolding sent_one_def using order_trans by blast

lemma sent_oneD:
  assumes "sent_one E w0 n pkt w" "sane_hw E"
  shows "sends w = pkt # sends w0" "\<exists>t. took E w0 w t \<and> t \<le> n"
proof -
  let ?e = "EthSend (fst pkt) (snd pkt)"
  obtain w1 a b where s: "since E od w0 a w1" "since E od (?e # w1) b w" "a + 10000 + b \<le> n"
    using assms(1) unfolding sent_one_def by blast
  show "sends w = pkt # sends w0" using sends_since [OF s(1)] sends_since [OF s(2)] by simp
  obtain d where d: "d \<le> ticks_lo ?e + 10000" "took E w1 (?e # w1) d" using sane_clock [OF assms(2)] by blast
  obtain t1 t2 where t: "took E w0 w1 t1" "t1 \<le> a" "took E (?e # w1) w t2" "t2 \<le> b" using s(1,2) unfolding since_def by blast
  from took_trans [OF took_trans [OF t(1) d(2)] t(3)] show "\<exists>t. took E w0 w t \<and> t \<le> n" using t(2,4) d(1) s(3) by auto
qed

lemma sendFrame_ok:
  assumes "since E od w0 n w" "sane_hw E" "tx_free E w"
  obtains buf w' where "aeb_buildPacket frame = Some (buf, 64)" "aeb_sendFrame E frame w = Some ((), w')"
    "sent_one E w0 (n + 600000) (buf, 64) w'"
proof -
  let ?lim = "aeb_ticksFromMs E 2"
  have lim: "unat ?lim \<le> 400000" using ticksFromMs_le [OF assms(2), of 2] by simp
  obtain buf where b: "aeb_buildPacket frame = Some (buf, 64)" using buildPacket_val by blast
  let ?w0 = "EthClearTx # EthWaitTx # w"
  let ?w1 = "EthSend buf 64 # ?w0"
  have s0: "since E od w0 (n + 10000 + 10000) ?w0" by (intro since_od assms)
  obtain d where d: "d \<le> ticks_lo ReadClock + 10000" "took E ?w1 (ReadClock # ?w1) d"
    using sane_clock [OF assms(2)] by blast
  let ?c = "(E, clock E ?w1, ?lim)"
  have "runs E od (unat ?lim + 10001 + 20002) (poll_loop (tx_round ?c) (ReadClock # ?w1)) (ReadClock # ?w1)"
    using tx_loop.total0 [of ?c ?w1 "ReadClock # ?w1" d] assms(2) lim d by (simp add: scl_ok_def)
  then have r: "runs E od (0 + 10001 + 430003) (poll_loop (tx_round ?c) (ReadClock # ?w1)) ?w1"
    by (rule runs_from [OF runs_weaken]) (use lim since_od(1) [OF since_refl assms(2)] in auto)
  have "runs E od (0 + 10001 + 430003 + 10000)
      (do { (_, w) \<leftarrow> poll_loop (tx_round ?c) (ReadClock # ?w1); Some ((), EthClearTx # w) }) ?w1"
    by (rule runs_bind [OF r]) (intro runs_Some since_od assms(2))
  then obtain w' where w': "aeb_sendFrame E frame w = Some ((), w')" "since E od ?w1 450004 w'"
    unfolding runs_def by (auto simp: aeb_sendFrame_def assms(3) b aeb_nowTicks_def stm_now_def Let_def)
  have "sent_one E w0 (n + 600000) (buf, 64) w'"
    unfolding sent_one_def by (intro exI [of _ ?w0] exI [of _ "n + 10000 + 10000"] exI [of _ 450004]) (use s0 w'(2) in simp)
  from that [OF b w'(1) this] show ?thesis .
qed

section \<open>Driving the servo\<close>

lemma servo_pin: "(2, 3) \<noteq> AEB_TOF_SDA" "(2, 3) \<noteq> AEB_TOF_SCL"
  by (simp_all add: AEB_TOF_SDA_def AEB_TOF_SCL_def)

lemma front_delay_eq: "front_delayUs E us w = aeb_delayUs E us w"
  by (simp add: front_delayUs_def aeb_delayUs_def aeb_ticksFromUs_def Let_def)

lemma since_front_delay:
  assumes "since E od w0 n w" "sane_hw E" "p \<le> 20000"
  shows "since E od w0 (n + (max 1 (200 * p) + 10000)) (front_delayUs E (of_nat p) w)"
proof -
  have "unat (of_nat p :: u32) = p" by (rule unat_of_nat_u32) (use assms(3) in simp)
  with since_delayUs [OF assms(1,2), of "of_nat p"] assms(3) show ?thesis by (simp add: front_delay_eq)
qed

lemma since_servo_period:
  assumes "since E od w0 n w" "sane_hw E" "1150 \<le> p" "p \<le> 2000"
  shows "since E od w0 (n + 4040000) (servo_period E p w)"
proof -
  have "since E od w0 (n + (0 + 10000)) (SetPin (2, 3) True # w)"
    by (rule since_event [OF assms(1,2)]) (use servo_pin in simp_all)
  then have "since E od w0 (n + (0 + 10000) + (max 1 (200 * p) + 10000)) (front_delayUs E (of_nat p) (SetPin (2, 3) True # w))"
    by (rule since_front_delay [OF _ assms(2)]) (use assms(4) in simp)
  note since_od(4) [OF this assms(2), of "(2, 3)"]
  then have "since E od w0 (n + (0 + 10000) + (max 1 (200 * p) + 10000) + 10000 + (max 1 (200 * (20000 - p)) + 10000)) (servo_period E p w)"
    unfolding servo_period_def by (rule since_front_delay [OF _ assms(2)]) simp
  then show ?thesis by (rule since_weaken) (use assms(3,4) in auto)
qed

lemma since_servo_periods:
  assumes "since E od w0 n w" "sane_hw E" "1150 \<le> p" "p \<le> 2000"
  shows "since E od w0 (n + k * 4040000) ((servo_period E p ^^ k) w)"
proof (induction k)
  case (Suc k)
  from since_servo_period [OF Suc assms(2-4)] show ?case by (simp add: ac_simps)
qed (use assms(1) in simp)

lemma runs_hold:
  assumes "since E od w0 n w" "sane_hw E" "steer_inv s"
  shows "\<exists>w'. FrontSteeringNode_holdCurrentForMs E AEB_NODE_LOOP_PERIOD_MS s w = Some w' \<and> since E od w0 (n + 13000000) w'"
proof -
  have a: "appliedAngleRad s \<noteq> NaN" using assms(3) by (auto simp: steer_inv_def angle_ok_def)
  define p where "p = pulse_of (fval (norm_of (appliedAngleRad s)))"
  have p: "1150 \<le> p" "p \<le> 2000" unfolding p_def using norm_of_props [OF a] pulse_of_bounds by simp_all
  have c: "(AEB_NODE_LOOP_PERIOD_MS * 1000 + FRONT_STEERING_SERVO_PERIOD_US - 1) div FRONT_STEERING_SERVO_PERIOD_US = (2 :: u32)"
    by (simp add: consts_simps)
  have "FrontSteeringNode_holdCurrentForMs E AEB_NODE_LOOP_PERIOD_MS s w = Some ((servo_period E p ^^ 2) w)"
    unfolding FrontSteeringNode_holdCurrentForMs_def c Let_def by (simp add: hold_pulses_val [OF a] p_def)
  moreover have "since E od w0 (n + 13000000) ((servo_period E p ^^ 2) w)"
    by (rule since_weaken [OF since_servo_periods [OF assms(1,2) p, of 2]]) simp
  ultimately show ?thesis by blast
qed

lemma runs_steer:
  assumes "since E od w0 n w" "node_hw E" "steer_inv s"
  shows "\<exists>s' w'. FrontSteeringNode_runOnce E s w = Some (s', w') \<and> steer_inv s' \<and> since E od w0 (n + 4100000) w'"
proof -
  obtain f where E: "sane_hw E" "stm_freq E = Fin f" "1000000 \<le> f" using assms(2) by (auto simp: node_hw_def)
  define now where "now = (of_nat (ms_of f (clock E w)) :: u32)"
  have inv: "steer_inv (steer_step now s)" using assms(3) by (rule steer_inv_step)
  then have a: "appliedAngleRad (steer_step now s) \<noteq> NaN" by (auto simp: steer_inv_def angle_ok_def)
  define p where "p = pulse_of (fval (norm_of (appliedAngleRad (steer_step now s))))"
  have p: "1150 \<le> p" "p \<le> 2000" unfolding p_def using norm_of_props [OF a] pulse_of_bounds by simp_all
  have "FrontSteeringNode_runOnce E s w = Some (steer_step now s, servo_period E p (ReadClock # w))"
    using nowMs_val(1) [OF E(2,3), of w] applyServoAngle_val [OF a, of E "ReadClock # w"]
    by (simp add: FrontSteeringNode_runOnce_def now_def p_def Let_def)
  moreover have "since E od w0 (n + 10001 + 4040000) (servo_period E p (ReadClock # w))"
    by (rule since_servo_period [OF since_od(1) [OF assms(1) E(1)] E(1) p])
  ultimately show ?thesis using inv by (auto intro: since_weaken)
qed

section \<open>The node's invariant\<close>

text \<open>What the frame says is within the sensors' ranges whenever it says so.\<close>

definition frame_ok :: "AebSensorNode_Frame \<Rightarrow> bool" where
  "frame_ok f \<longleftrightarrow>
     (f_validMask f AND AEB_VALID_ULTRA_LEFT \<noteq> 0 \<longrightarrow> echo_range (f_ultrasonicLeftCmX10 f)) \<and>
     (f_validMask f AND AEB_VALID_ULTRA_RIGHT \<noteq> 0 \<longrightarrow> echo_range (f_ultrasonicRightCmX10 f)) \<and>
     (f_validMask f AND AEB_VALID_TOF \<noteq> 0 \<longrightarrow> 30 \<le> unat (f_tofFrontCmX10 f) \<and> unat (f_tofFrontCmX10 f) \<le> 4000) \<and>
     \<not> (f_validMask f AND AEB_VALID_STEERING_COMMAND \<noteq> 0 \<and> f_validMask f AND AEB_VALID_STEERING_CENTER \<noteq> 0)"

definition node_inv :: "front_state \<Rightarrow> bool" where
  "node_inv n \<longleftrightarrow> steer_inv (steer n) \<and> sensor_ok (leftUltrasonic n) \<and> sensor_ok (rightUltrasonic n) \<and>
     tof_ok (tof n) \<and> frame_ok (latestFrame n)"

lemma mask_bits: "valid_mask t l r st AND AEB_VALID_ULTRA_LEFT \<noteq> 0 \<longleftrightarrow> l"
  "valid_mask t l r st AND AEB_VALID_ULTRA_RIGHT \<noteq> 0 \<longleftrightarrow> r"
  "valid_mask t l r st AND AEB_VALID_TOF \<noteq> 0 \<longleftrightarrow> t"
  "valid_mask t l r st AND AEB_VALID_STEERING_RX \<noteq> 0 \<longleftrightarrow> s_linkValid st"
  "valid_mask t l r st AND AEB_VALID_STEERING_COMMAND \<noteq> 0 \<longleftrightarrow> s_commandValid st"
  "valid_mask t l r st AND AEB_VALID_STEERING_CENTER \<noteq> 0 \<longleftrightarrow> s_emergencyCenter st"
  by (simp_all add: valid_mask_def Let_def consts_simps)

lemma tofInit_tof_ok:
  assumes "tof_ok t" "aeb_tofInit E t w = Some (t', w')"
  shows "tof_ok t'"
proof -
  have p: "post (\<lambda>(b, s) _. tof_ok s) (tof_probe_attempts E k s w)" if "tof_ok s" for k s w
    using that
  proof (induction k arbitrary: s w)
    case (Suc k)
    have ok: "tof_ok (s\<lparr>g_tofDiag := d\<rparr>)" for d using Suc.prems by (simp add: tof_ok_def)
    show ?case unfolding tof_probe_attempts.simps Let_def
      by (rule post_bind, rule post_if, rule post_Some, use ok in force, rule Suc.IH)
        (use ok in \<open>auto split: option.splits\<close>)
  qed (auto intro!: post_Some)
  have "post (\<lambda>s _. tof_ok s) (aeb_tofInit E t w)"
    unfolding aeb_tofInit_def aeb_tofProbe_def Let_def
  proof (rule post_bind, rule post_bind, rule post_prod2, goal_cases)
    case (1 x w1 y w2 found s)
    then have "tof_ok s" using postD [OF p [OF assms(1)]] by fastforce
    then show ?case by (auto intro!: post_if post_bind post_Some post_prod2 simp: tof_ok_def)
  qed
  from postD [OF this assms(2)] show ?thesis .
qed

section \<open>One run of the sensor node\<close>

lemma measure_ok:
  assumes "since E od w0 k w" "node_hw E" "node_inv n"
  shows "\<exists>l r t n' w'. measure_all E n w = Some ((l, r, t), n', w') \<and> since E od w0 (k + 140000000) w' \<and>
    steer n' = steer n \<and> latestFrame n' = latestFrame n \<and> sensor_ok (leftUltrasonic n') \<and> sensor_ok (rightUltrasonic n') \<and> tof_ok (tof n') \<and>
    (l \<longrightarrow> echo_range (filteredCmX10 (leftUltrasonic n'))) \<and> (r \<longrightarrow> echo_range (filteredCmX10 (rightUltrasonic n'))) \<and>
    (t \<longrightarrow> 30 \<le> unat (g_tofCmX10 (tof n')) \<and> unat (g_tofCmX10 (tof n')) \<le> 4000)"
proof -
  obtain f where E: "sane_hw E" "stm_freq E = Fin f" "10000000 \<le> f" using assms(2) by (auto simp: node_hw_def)
  have i: "sensor_ok (leftUltrasonic n)" "sensor_ok (rightUltrasonic n)" "tof_ok (tof n)"
    using assms(3) by (simp_all add: node_inv_def)
  obtain l ls w1 where 1: "aeb_ultrasonicUpdate E (leftUltrasonic n) w = Some ((l, ls), w1)" "since E od w0 (k + 6400000) w1"
    using runs_ultrasonicUpdate [OF assms(1) E(1) i(1) E(2,3)] unfolding runs_def by auto
  have d: "since E od w0 (k + 6400000 + 1010000) (aeb_delayUs E AEB_ULTRA_CROSSTALK_DELAY_US w1)"
    using since_delayUs [OF 1(2) E(1), of AEB_ULTRA_CROSSTALK_DELAY_US] by (simp add: AEB_ULTRA_CROSSTALK_DELAY_US_def)
  obtain r rs w2 where 2: "aeb_ultrasonicUpdate E (rightUltrasonic n) (aeb_delayUs E AEB_ULTRA_CROSSTALK_DELAY_US w1) = Some ((r, rs), w2)"
      "since E od w0 (k + 6400000 + 1010000 + 6400000) w2"
    using runs_ultrasonicUpdate [OF d E(1) i(2) E(2,3)] unfolding runs_def by auto
  obtain t ts w3 where 3: "aeb_tofUpdate E (tof n) w2 = Some ((t, ts), w3)"
      "since E od w0 (k + 6400000 + 1010000 + 6400000 + 120000000) w3"
    using runs_tofUpdate [OF 2(2) E(1) tof_range_total] unfolding runs_def by fastforce
  show ?thesis
    using 1 2 3 ultrasonicUpdate_ok [OF i(1) 1(1)] ultrasonicUpdate_ok [OF i(2) 2(1)] tofUpdate_ok [OF i(3) 3(1)]
    by (simp add: measure_all_def since_weaken [OF 3(2)])
qed

lemma getStatus_val:
  assumes "stm_freq E = Fin f" "10000000 \<le> f"
  shows "\<exists>st. FrontSteeringNode_getStatus E s w = Some (st, ReadClock # w) \<and> s_linkValid st = linkValid s \<and>
    s_commandValid st = commandValid s \<and> s_emergencyCenter st = emergencyCenter s"
  using ticks_conversions_total(3) [OF assms, of w] by (auto simp: FrontSteeringNode_getStatus_def)

lemma compose_frame_ok:
  assumes "l \<longrightarrow> echo_range (filteredCmX10 (leftUltrasonic n))" "r \<longrightarrow> echo_range (filteredCmX10 (rightUltrasonic n))"
    "t \<longrightarrow> 30 \<le> unat (g_tofCmX10 (tof n)) \<and> unat (g_tofCmX10 (tof n)) \<le> 4000" "\<not> (s_commandValid st \<and> s_emergencyCenter st)"
  shows "frame_ok (compose_frame (l, r, t) ts st n)"
  using assms by (simp add: frame_ok_def compose_frame_def mask_bits)

lemma steer_inv_excl: "steer_inv s \<Longrightarrow> \<not> (commandValid s \<and> emergencyCenter s)"
  by (auto simp: steer_inv_def)

lemma retry_ok:
  assumes "since E od w0 k w" "sane_hw E" "tof_ok t"
  shows "\<exists>t' w'. tof_retry E q t w = Some (t', w') \<and> tof_ok t' \<and> since E od w0 (k + 2701000000) w'"
proof -
  let ?t = "t\<lparr>g_tofInitAttempted := True, g_tofNextInitTick := clock E w + aeb_ticksFromMs E AEB_TOF_RETRY_INTERVAL_MS\<rparr>"
  note s1 = since_od(1) [OF assms(1,2)]
  obtain t' w' where i: "aeb_tofInit E ?t (ReadClock # w) = Some (t', w')" "since E od w0 (k + 10001 + 2700000000) w'"
    using runs_tofInit [OF s1 assms(2), of ?t] unfolding runs_def by blast
  have "tof_ok ?t" using assms(3) by (simp add: tof_ok_def)
  note ok = tofInit_tof_ok [OF this i(1)]
  show ?thesis
  proof (cases "\<not> g_tofPresent t \<and> AEB_TOF_INIT_DELAY_FRAMES \<le> q")
    case True
    then show ?thesis
      using i ok s1 assms(3)
      by (cases "\<not> g_tofInitAttempted t \<or> clock E w - g_tofNextInitTick t < 0x80000000")
        (auto simp: tof_retry_def aeb_nowTicks_def stm_now_def intro: since_weaken)
  next
    case False
    then have "tof_retry E q t w = Some (t, w)" unfolding tof_retry_def by (rule if_not_P)
    with assms show ?thesis by (auto intro: since_weaken)
  qed
qed

lemma runOnce_ok:
  assumes "since E od w0 k w" "node_hw E" "node_inv n"
  shows "\<exists>n' w'. AebSensorNode_runOnce E n w = Some (n', w') \<and> node_inv n' \<and>
    f_sequence (latestFrame n') = f_sequence (latestFrame n) + 1 \<and>
    (\<exists>buf. aeb_buildPacket (latestFrame n') = Some (buf, 64) \<and> sent_one E w0 (k + 2897000000) (buf, 64) w')"
proof -
  obtain f where E: "sane_hw E" "stm_freq E = Fin f" "10000000 \<le> f" using assms(2) by (auto simp: node_hw_def)
  have i: "steer_inv (steer n)" using assms(3) by (simp add: node_inv_def)
  obtain s1 w1 where 1: "aeb_pollSteeringRx E (steer n) w = Some (s1, w1)" "steer_inv s1" "since E od w0 (k + 21000000) w1"
    using pollRx_ok [OF assms(2) i assms(1)] by blast
  define n1 where "n1 = n\<lparr>steer := s1\<rparr>"
  have n1: "node_inv n1" "steer n1 = s1" "latestFrame n1 = latestFrame n" using assms(3) 1(2) by (simp_all add: n1_def node_inv_def)
  obtain l r t n2 w2 where 2: "measure_all E n1 w1 = Some ((l, r, t), n2, w2)" "since E od w0 (k + 21000000 + 140000000) w2"
    "steer n2 = s1" "latestFrame n2 = latestFrame n" "sensor_ok (leftUltrasonic n2)" "sensor_ok (rightUltrasonic n2)" "tof_ok (tof n2)"
    "l \<longrightarrow> echo_range (filteredCmX10 (leftUltrasonic n2))" "r \<longrightarrow> echo_range (filteredCmX10 (rightUltrasonic n2))"
    "t \<longrightarrow> 30 \<le> unat (g_tofCmX10 (tof n2)) \<and> unat (g_tofCmX10 (tof n2)) \<le> 4000"
    using measure_ok [OF 1(3) assms(2) n1(1)] n1 by auto
  note s2 = since_od(1) [OF since_od(1) [OF 2(2) E(1)] E(1)]
  obtain m where m: "aeb_ticksToMs E (clock E w2) = Some m" using ticks_conversions_total(2) [OF E(2,3)] by blast
  obtain st where st: "FrontSteeringNode_getStatus E s1 (ReadClock # w2) = Some (st, ReadClock # ReadClock # w2)"
    "s_commandValid st = commandValid s1" "s_emergencyCenter st = emergencyCenter s1"
    using getStatus_val [OF E(2,3), of s1 "ReadClock # w2"] by blast
  define fr where "fr = compose_frame (l, r, t) m st n2"
  have fr: "frame_ok fr" unfolding fr_def
    by (rule compose_frame_ok [OF 2(8-10)]) (use steer_inv_excl [OF 1(2)] st in simp)
  have q: "f_sequence fr = f_sequence (latestFrame n) + 1" by (simp add: fr_def compose_frame_def 2(4))
  have tx: "tx_free E (ReadClock # ReadClock # w2)" using assms(2) by (simp add: node_hw_def)
  obtain buf w3 where 3: "aeb_buildPacket fr = Some (buf, 64)" "aeb_sendFrame E fr (ReadClock # ReadClock # w2) = Some ((), w3)"
      "sent_one E w0 (k + 21000000 + 140000000 + 10001 + 10001 + 600000) (buf, 64) w3"
    by (rule sendFrame_ok [OF s2 E(1) tx])
  obtain s4 w4 where 4: "aeb_pollSteeringRx E s1 w3 = Some (s4, w4)" "steer_inv s4"
      "\<And>v i. since E od v i w3 \<Longrightarrow> since E od v (i + 21000000) w4"
    using pollRx_ok [OF assms(2) 1(2) since_refl] since_trans by (metis (no_types, lifting) add_0)
  obtain t5 w5 where 5: "tof_retry E (f_sequence fr) (tof n2) w4 = Some (t5, w5)" "tof_ok t5"
      "\<And>v i. since E od v i w4 \<Longrightarrow> since E od v (i + 2701000000) w5"
    using retry_ok [OF since_refl E(1) 2(7)] since_trans by (metis (no_types, lifting) add_0)
  obtain w6 where 6: "FrontSteeringNode_holdCurrentForMs E AEB_NODE_LOOP_PERIOD_MS s4 w5 = Some w6"
      "\<And>v i. since E od v i w5 \<Longrightarrow> since E od v (i + 13000000) w6"
    using runs_hold [OF since_refl E(1) 4(2)] since_trans by (metis (no_types, lifting) add_0)
  note sent = sent_one_later [OF sent_one_later [OF sent_one_later [OF 3(3) 4(3)] 5(3)] 6(2)]
  have "AebSensorNode_runOnce E n w = Some (n2\<lparr>latestFrame := fr, steer := s4, tof := t5\<rparr>, w6)"
    using 1(1) 2(1,3) m st(1) 3(2) 4(1) 5(1) 6(1) n1_def
    by (simp add: AebSensorNode_runOnce_def fr_def aeb_nowTicks_def stm_now_def Let_def)
  moreover have "node_inv (n2\<lparr>latestFrame := fr, steer := s4, tof := t5\<rparr>)"
    using fr 4(2) 5(2) 2(5,6) by (simp add: node_inv_def)
  ultimately show ?thesis using sent_one_weaken [OF sent, of "k + 2897000000"] q 3(1) by auto
qed

lemma cycle_ok:
  assumes "node_hw E" "node_inv n"
  shows "\<exists>n' w'. front_cycle E n w = Some (n', w') \<and> node_inv n' \<and> f_sequence (latestFrame n') = f_sequence (latestFrame n) + 1 \<and>
    (\<exists>buf. aeb_buildPacket (latestFrame n') = Some (buf, 64) \<and> sent_one E w 2906000000 (buf, 64) w')"
proof -
  have i: "steer_inv (steer n)" using assms(2) by (simp add: node_inv_def)
  obtain s1 w1 where 1: "FrontSteeringNode_runOnce E (steer n) w = Some (s1, w1)" "steer_inv s1" "since E od w (0 + 4100000) w1"
    using runs_steer [OF since_refl assms(1) i] by blast
  have n1: "node_inv (n\<lparr>steer := s1\<rparr>)" using assms(2) 1(2) by (simp add: node_inv_def)
  obtain n2 w2 buf where 2: "AebSensorNode_runOnce E (n\<lparr>steer := s1\<rparr>) w1 = Some (n2, w2)" "node_inv n2"
      "f_sequence (latestFrame n2) = f_sequence (latestFrame n) + 1"
      "aeb_buildPacket (latestFrame n2) = Some (buf, 64)" "sent_one E w (0 + 4100000 + 2897000000) (buf, 64) w2"
    using runOnce_ok [OF 1(3) assms(1) n1] by auto
  have i2: "steer_inv (steer n2)" using 2(2) by (simp add: node_inv_def)
  obtain s3 w3 where 3: "FrontSteeringNode_runOnce E (steer n2) w2 = Some (s3, w3)" "steer_inv s3"
      "\<And>v i. since E od v i w2 \<Longrightarrow> since E od v (i + 4100000) w3"
    using runs_steer [OF since_refl assms(1) i2] since_trans by (metis (no_types, lifting) add_0)
  have "node_inv (n2\<lparr>steer := s3\<rparr>)" using 2(2) 3(2) by (simp add: node_inv_def)
  moreover have "sent_one E w (0 + 4100000 + 2897000000 + 4100000) (buf, 64) w3"
    by (rule sent_one_later [OF 2(5) 3(3)])
  then have "sent_one E w 2906000000 (buf, 64) w3" by (rule sent_one_weaken) simp
  ultimately show ?thesis using 1(1) 2(1,3,4) 3(1) by (auto simp: front_cycle_def)
qed

end
