(* ===== verification/FrontNode_Reach.thy ===== *)
theory FrontNode_Reach
  imports FrontCycle
begin

text \<open>
  The states the FRONT controller reaches by booting and repeating its cycle, and a concrete
  environment that satisfies what the cycle needs.
\<close>

section \<open>Reachable states of the controller\<close>

text \<open>The controller boots and then repeats its cycle.\<close>

inductive node_reach :: "hw \<Rightarrow> front_state \<Rightarrow> bool" for E where
  boot: "front_boot E w = Some (n, w') \<Longrightarrow> node_reach E n"
| cycle: "node_reach E n \<Longrightarrow> front_cycle E n w = Some (n', w') \<Longrightarrow> node_reach E n'"

lemma sensors_0_ok: "sensor_ok g_leftUltrasonic_0" "sensor_ok g_rightUltrasonic_0"
  by (simp_all add: sensor_ok_def g_leftUltrasonic_0_def g_rightUltrasonic_0_def sensor_pins)

lemma boot_inv: "front_boot E w = Some (n, w') \<Longrightarrow> node_inv n"
  using sensors_0_ok
  by (auto simp: front_boot_def AebSensorNode_init_def bind_Some_iff node_inv_def tof_ok_def frame_ok_def
    empty_frame_def Let_def aeb_nowTicks_def stm_now_def dest: steer_inv_init)

lemma node_reach_inv: "node_reach E n \<Longrightarrow> node_hw E \<Longrightarrow> node_inv n"
proof (induction rule: node_reach.induct)
  case (boot w n w')
  then show ?case by (blast intro: boot_inv)
next
  case (cycle n w n' w')
  from cycle_ok [OF cycle.prems cycle.IH [OF cycle.prems], of w] cycle.hyps(2) show ?case by auto
qed

lemma boot_total: "node_hw E \<Longrightarrow> \<exists>n w'. front_boot E w = Some (n, w')"
proof -
  assume "node_hw E"
  then obtain f where "stm_freq E = Fin f" "1000000 \<le> f" by (auto simp: node_hw_def)
  from init_val [OF this, of w] show ?thesis by (simp add: front_boot_def split: prod.splits)
qed

lemma sint_le_unat: "sint (x :: u32) \<le> int (unat x)"
proof (cases "0 \<le> sint x")
  case True
  then show ?thesis using uint_sint [of x] sint_lt [of x] by (simp add: of_nat_unat take_bit_int_eq_self)
qed simp

lemma demo_node_hw: "node_hw (demo_hw pins)"
proof -
  have us: "sint (100 * us :: u32) \<le> 200 * int (unat us)" for us :: u32
  proof -
    have "unat (100 * us) \<le> 100 * unat us" by (simp add: unat_word_ariths)
    with sint_le_unat [of "100 * us"] show ?thesis by linarith
  qed
  have ms: "sint (100000 * us :: u32) \<le> 200000 * int (unat us)" for us :: u32
  proof -
    have "unat (100000 * us) \<le> 100000 * unat us" by (simp add: unat_word_ariths)
    with sint_le_unat [of "100000 * us"] show ?thesis by linarith
  qed
  show ?thesis unfolding node_hw_def sane_hw_def
    using us ms demo_live_clock [of 10000 pins] by (simp add: demo_hw_def)
qed

section \<open>A reachable frame with valid distances\<close>

text \<open>
  What a cycle's frame says about the ultrasonic sensors is what its two measurements gave.
\<close>

lemma cycle_measures:
  assumes "front_cycle E n w = Some (n', w')"
  obtains w1 l ls w2 r rs w3 where
    "aeb_ultrasonicUpdate E (leftUltrasonic n) w1 = Some ((l, ls), w2)"
    "aeb_ultrasonicUpdate E (rightUltrasonic n) (aeb_delayUs E AEB_ULTRA_CROSSTALK_DELAY_US w2) = Some ((r, rs), w3)"
    "f_validMask (latestFrame n') AND AEB_VALID_ULTRA_LEFT \<noteq> 0 \<longleftrightarrow> l"
    "f_validMask (latestFrame n') AND AEB_VALID_ULTRA_RIGHT \<noteq> 0 \<longleftrightarrow> r"
  using assms
  by (fastforce simp: front_cycle_def AebSensorNode_runOnce_def measure_all_def bind_Some_iff Let_def
      aeb_nowTicks_def stm_now_def compose_frame_def mask_bits)

text \<open>
  An environment in which something stands in front of both ultrasonic sensors: the echo line is
  high when it is first read after the trigger and low when it is read again. Every access to the
  hardware takes about half a millisecond of the 10 MHz timer, whose count is always odd.
\<close>

definition echo_cost :: "hw_event \<Rightarrow> nat" where
  "echo_cost e = 5000 + 2 * ((ticks_lo e + 1) div 2)"

fun reads_since_set :: "trace \<Rightarrow> nat" where
  "reads_since_set [] = 0"
| "reads_since_set (SetPin p v # w) = 0"
| "reads_since_set (ReadPin p # w) = Suc (reads_since_set w)"
| "reads_since_set (e # w) = reads_since_set w"

definition echo_hw :: hw where
  "echo_hw = \<lparr>stm_time = (\<lambda>w. 1 + sum_list (map echo_cost w)), pin_in = (\<lambda>w p. even (reads_since_set w)),
     ticks_of_us = (\<lambda>us. 10 * us), ticks_of_ms = (\<lambda>ms. 10000 * ms),
     stm_freq = Fin 10000000, rx_head = (\<lambda>_. None), tx_flag = (\<lambda>_. True), tx_free = (\<lambda>_. True), max_rx_descr = 8\<rparr>"

lemma echo_node_hw: "node_hw echo_hw"
proof -
  have us: "sint (10 * us :: u32) \<le> 200 * int (unat us)" for us :: u32
  proof -
    have "unat (10 * us) \<le> 10 * unat us" by (simp add: unat_word_ariths)
    with sint_le_unat [of "10 * us"] show ?thesis by linarith
  qed
  have ms: "sint (10000 * us :: u32) \<le> 200000 * int (unat us)" for us :: u32
  proof -
    have "unat (10000 * us) \<le> 10000 * unat us" by (simp add: unat_word_ariths)
    with sint_le_unat [of "10000 * us"] show ?thesis by linarith
  qed
  have "\<exists>d. ticks_lo e \<le> d \<and> d \<le> ticks_lo e + 10000 \<and> took echo_hw w (e # w) d" for w e
    by (intro exI [of _ "echo_cost e"]) (auto simp: took_def echo_hw_def echo_cost_def)
  then have "live_clock echo_hw 10000" by (simp add: live_clock_def)
  then show ?thesis unfolding node_hw_def sane_hw_def using us ms by (simp add: echo_hw_def)
qed

lemma echo_clock_step: "clock echo_hw (e # w) = clock echo_hw w + of_nat (echo_cost e)"
  by (simp add: clock_def echo_hw_def)

lemma echo_clock_nonzero: "clock echo_hw w \<noteq> 0"
proof
  assume "clock echo_hw w = 0"
  moreover have "even (sum_list (map echo_cost w))" by (induction w) (simp_all add: echo_cost_def)
  ultimately have "odd (stm_time echo_hw w)" "(of_nat (stm_time echo_hw w) :: u32) = 0"
    by (simp_all add: echo_hw_def clock_def)
  then show False by (metis even_of_nat_iff even_zero)
qed

lemma echo_pin: "pin_in echo_hw w p = even (reads_since_set w)"
  by (simp add: echo_hw_def)

lemma echo_us: "aeb_ticksToUs echo_hw 15006 = Some 1500"
  by (simp add: aeb_ticksToUs_def echo_hw_def u32_to_f32_def flit_def fmul_fin fdiv_fin f32_to_u32_def trunc_def f32_eval)

lemma echo_read:
  "\<exists>w'. aeb_ultrasonicReadCmX10 echo_hw s w = Some ((Some 257, s\<lparr>lastRawCmX10 := 257, lastDiag := 0\<rparr>), w')"
  by (simp add: aeb_ultrasonicReadCmX10_def ultrasonic_trigger_def aeb_waitPinState_def aeb_nowTicks_def stm_now_def
      poll_loop.simps wait_pin_round_def pin_read_def echo_pin aeb_delayUs_def Let_def echo_clock_step echo_cost_def echo_us
      ultrasonic_range_def consts_simps)

lemma echo_ms: "aeb_ticksFromMs echo_hw AEB_ULTRA_STALE_MS = 5000000"
  by (simp add: aeb_ticksFromMs_def echo_hw_def AEB_ULTRA_STALE_MS_def)

lemma echo_update:
  assumes "sensor_ok s"
  shows "\<exists>s' w'. aeb_ultrasonicUpdate echo_hw s w = Some ((True, s'), w')"
proof -
  let ?s = "s\<lparr>lastRawCmX10 := 257, lastDiag := 0\<rparr>"
  obtain w1 where r: "aeb_ultrasonicReadCmX10 echo_hw s w = Some ((Some 257, ?s), w1)" using echo_read by blast
  have "sensor_ok ?s" using assms unfolding sensor_ok_def by simp
  moreover have "echo_range 257" by (simp add: echo_range_def)
  ultimately obtain t where t: "store_sample 257 ?s = Some t" using store_sample_ok by blast
  have f: "fst (aeb_isFresh echo_hw (clock echo_hw w1) AEB_ULTRA_STALE_MS (ReadClock # w1))"
    using echo_clock_nonzero [of w1]
    by (simp add: aeb_isFresh_def aeb_nowTicks_def stm_now_def echo_clock_step echo_cost_def echo_ms)
  then show ?thesis using r t
    by (auto simp: aeb_ultrasonicUpdate_def aeb_nowTicks_def stm_now_def Let_def split_beta)
qed

text \<open>The controller boots in this environment, and the frame of its first cycle declares both distances valid.\<close>

lemma echo_reachable:
  obtains n where "node_reach echo_hw n" "f_validMask (latestFrame n) AND AEB_VALID_ULTRA_LEFT \<noteq> 0"
    "f_validMask (latestFrame n) AND AEB_VALID_ULTRA_RIGHT \<noteq> 0"
proof -
  obtain n w where n: "front_boot echo_hw [] = Some (n, w)" using boot_total [OF echo_node_hw] by blast
  then have i: "node_inv n" "node_reach echo_hw n" by (auto intro: boot_inv node_reach.boot)
  obtain n' w' where c: "front_cycle echo_hw n w = Some (n', w')" using cycle_ok [OF echo_node_hw i(1)] by blast
  have s: "sensor_ok (leftUltrasonic n)" "sensor_ok (rightUltrasonic n)" using i(1) by (simp_all add: node_inv_def)
  obtain w1 l ls w2 r rs w3 where m: "aeb_ultrasonicUpdate echo_hw (leftUltrasonic n) w1 = Some ((l, ls), w2)"
    "aeb_ultrasonicUpdate echo_hw (rightUltrasonic n) (aeb_delayUs echo_hw AEB_ULTRA_CROSSTALK_DELAY_US w2) = Some ((r, rs), w3)"
    "f_validMask (latestFrame n') AND AEB_VALID_ULTRA_LEFT \<noteq> 0 \<longleftrightarrow> l"
    "f_validMask (latestFrame n') AND AEB_VALID_ULTRA_RIGHT \<noteq> 0 \<longleftrightarrow> r"
    by (rule cycle_measures [OF c])
  have l: l using echo_update [OF s(1), of w1] m(1) by auto
  have r: r using echo_update [OF s(2), of "aeb_delayUs echo_hw AEB_ULTRA_CROSSTALK_DELAY_US w2"] m(2) by auto
  show ?thesis by (rule that [OF node_reach.cycle [OF i(2) c]]) (simp_all only: m(3,4) l r)
qed

end
