(* ===== verification/FrontBus_Facts.thy ===== *)
theory FrontBus_Facts
  imports FrontNode_Reach
begin

text \<open>
  What the bit-banged bus puts on its data line and reads from it: the levels at each release
  of the clock line, recovered from the trace.
\<close>

section \<open>The bus\<close>

text \<open>Only polling happens while the clock line is awaited.\<close>

lemma poll_loop_events_pair:
  assumes "poll_loop iter w = Some y"
  shows "(\<forall>w r w'. iter w = Some (r, w') \<longrightarrow> (\<exists>es. w' = es @ w \<and> list_all P es)) \<longrightarrow>
     (\<exists>es. snd y = es @ w \<and> list_all P es)"
  using assms
proof (rule poll_loop.raw_induct [rotated], goal_cases)
  case (1 loop iter w y)
  show ?case
  proof
    assume H: "\<forall>w r w'. iter w = Some (r, w') \<longrightarrow> (\<exists>es. w' = es @ w \<and> list_all P es)"
    from 1(2) obtain r w1 where r: "iter w = Some (r, w1)" by (auto split: option.splits)
    with H obtain es where es: "w1 = es @ w" "list_all P es" by blast
    show "\<exists>es. snd y = es @ w \<and> list_all P es"
    proof (cases r)
      case None
      with 1(2) r have "loop iter w1 = Some y" by simp
      with 1(1) H obtain es' where "snd y = es' @ w1" "list_all P es'" by blast
      with es show ?thesis by (auto intro!: exI [of _ "es' @ es"])
    next
      case (Some x)
      with 1(2) r es show ?thesis by (cases y) auto
    qed
  qed
qed

lemma poll_loop_events:
  assumes "poll_loop iter w = Some (x, w')"
    and "\<And>w r w'. iter w = Some (r, w') \<Longrightarrow> \<exists>es. w' = es @ w \<and> list_all P es"
  shows "\<exists>es. w' = es @ w \<and> list_all P es"
  using poll_loop_events_pair [OF assms(1), of P] assms(2) by auto

definition is_poll :: "hw_event \<Rightarrow> bool" where
  "is_poll e \<longleftrightarrow> e = ReadClock \<or> e = ReadPin AEB_TOF_SCL"

lemma wait_scl_events:
  assumes "aeb_i2cWaitSclHigh E w = Some (h, w')"
  shows "\<exists>es. w' = es @ w \<and> list_all is_poll es"
proof -
  from assms have "poll_loop (scl_round (E, clock E w, aeb_ticksFromUs E AEB_TOF_I2C_SCL_TIMEOUT_US)) (ReadClock # w) = Some (h, w')"
    by (simp add: aeb_i2cWaitSclHigh_def aeb_nowTicks_def stm_now_def)
  from poll_loop_events [OF this, of is_poll] obtain es where "w' = es @ ReadClock # w" "list_all is_poll es"
    by (fastforce simp: scl_round_def pin_read_def aeb_nowTicks_def stm_now_def is_poll_def Let_def split: if_splits)
  then show ?thesis by (intro exI [of _ "es @ [ReadClock]"]) (simp add: is_poll_def)
qed

text \<open>The levels of the data line at the moments the clock line is released, and those the code
  reads, newest first.\<close>

definition sda_level :: "trace \<Rightarrow> bool" where
  "sda_level w \<longleftrightarrow> pin_mode_of AEB_TOF_SDA w = Some InPullUp"

fun wire :: "trace \<Rightarrow> bool list" where
  "wire [] = []"
| "wire (e # w) = (if e = SetMode AEB_TOF_SCL InPullUp then sda_level w # wire w else wire w)"

fun sampled :: "hw \<Rightarrow> trace \<Rightarrow> bool list" where
  "sampled E [] = []"
| "sampled E (e # w) = (if e = ReadPin AEB_TOF_SDA then pin_in E w AEB_TOF_SDA # sampled E w else sampled E w)"

lemma poll_wire: "list_all is_poll es \<Longrightarrow> wire (es @ w) = wire w \<and> sda_level (es @ w) = sda_level w \<and> sampled E (es @ w) = sampled E w"
  by (induction es) (auto simp: is_poll_def sda_level_def AEB_TOF_SCL_def AEB_TOF_SDA_def)

lemma wait_scl_wire:
  assumes "aeb_i2cWaitSclHigh E w = Some (h, w')"
  shows "wire w' = wire w" "sda_level w' = sda_level w" "sampled E w' = sampled E w"
  using wait_scl_events [OF assms] poll_wire by (fastforce, fastforce, fastforce)

lemma line_wire:
  "wire (aeb_i2cReleaseSda w) = wire w" "sda_level (aeb_i2cReleaseSda w)"
  "wire (aeb_i2cDriveSdaLow w) = wire w" "\<not> sda_level (aeb_i2cDriveSdaLow w)"
  "wire (aeb_i2cReleaseScl w) = sda_level w # wire w" "sda_level (aeb_i2cReleaseScl w) = sda_level w"
  "wire (aeb_i2cDriveSclLow w) = wire w" "sda_level (aeb_i2cDriveSclLow w) = sda_level w"
  "wire (half_period E w) = wire w" "sda_level (half_period E w) = sda_level w"
  by (simp_all add: aeb_i2cReleaseSda_def aeb_i2cDriveSdaLow_def aeb_i2cReleaseScl_def aeb_i2cDriveSclLow_def
      half_period_def aeb_delayUs_def sda_level_def AEB_TOF_SCL_def AEB_TOF_SDA_def)

lemma line_sampled:
  "sampled E (aeb_i2cReleaseSda w) = sampled E w" "sampled E (aeb_i2cDriveSdaLow w) = sampled E w"
  "sampled E (aeb_i2cReleaseScl w) = sampled E w" "sampled E (aeb_i2cDriveSclLow w) = sampled E w"
  "sampled E (half_period E' w) = sampled E w"
  by (simp_all add: aeb_i2cReleaseSda_def aeb_i2cDriveSdaLow_def aeb_i2cReleaseScl_def aeb_i2cDriveSclLow_def
      half_period_def aeb_delayUs_def)

lemma bit_and_one: "((b :: u8) AND push_bit n 1 \<noteq> 0) = (bit b n \<and> n < 8)"
proof -
  have "bit (b AND push_bit n 1) k = (k = n \<and> bit b n \<and> n < 8)" for k
    by (auto simp: bit_simps dest: bit_imp_le_length)
  then show ?thesis by (metis bit_0_eq bot_apply bot_bool_def bit_eqI)
qed

lemma write_bits_wire:
  "write_bits E b ns w = Some (True, w') \<Longrightarrow> list_all (\<lambda>n. n < 8) ns \<Longrightarrow>
     wire w' = rev (map (bit b) ns) @ wire w"
proof (induction ns arbitrary: w)
  case (Cons n ns)
  define w1 where "w1 = (if b AND push_bit n 1 \<noteq> 0 then aeb_i2cReleaseSda w else aeb_i2cDriveSdaLow w)"
  from Cons.prems(1) obtain w2 where
    w2: "aeb_i2cWaitSclHigh E (aeb_i2cReleaseScl (half_period E w1)) = Some (True, w2)"
    and r: "write_bits E b ns (aeb_i2cDriveSclLow (half_period E w2)) = Some (True, w')"
    by (fastforce simp: w1_def bind_Some_iff Let_def split: if_splits)
  have "wire w1 = wire w" "sda_level w1 = bit b n" using Cons.prems(2) bit_and_one [of b n] by (auto simp: w1_def line_wire)
  with Cons.IH [OF r] Cons.prems(2) wait_scl_wire(1) [OF w2] show ?case by (simp add: line_wire)
qed simp

lemma read_bits_sampled:
  "read_bits E b ns w = Some (Some b', w') \<Longrightarrow> list_all (\<lambda>n. n < 8) ns \<Longrightarrow> distinct ns \<Longrightarrow> \<forall>n \<in> set ns. \<not> bit b n \<Longrightarrow>
     sampled E w' = rev (map (bit b') ns) @ sampled E w \<and> (\<forall>k. k \<notin> set ns \<longrightarrow> bit b' k = bit b k)"
proof (induction ns arbitrary: b w)
  case (Cons n ns)
  from Cons.prems(1) obtain w2 where
    w2: "aeb_i2cWaitSclHigh E (aeb_i2cReleaseScl (half_period E w)) = Some (True, w2)"
    and r: "read_bits E (if pin_in E w2 AEB_TOF_SDA then b OR push_bit n 1 else b) ns
        (aeb_i2cDriveSclLow (half_period E (ReadPin AEB_TOF_SDA # w2))) = Some (Some b', w')"
    by (fastforce simp: bind_Some_iff Let_def pin_read_def split: if_splits)
  define c where "c = (if pin_in E w2 AEB_TOF_SDA then b OR push_bit n 1 else b)"
  have c: "bit c k = (if k = n then pin_in E w2 AEB_TOF_SDA else bit b k)" for k
    using Cons.prems(2,4) by (auto simp: c_def bit_simps)
  from Cons.IH [OF r [folded c_def]] Cons.prems(2-4) c
  have IH: "sampled E w' = rev (map (bit b') ns) @ pin_in E w2 AEB_TOF_SDA # sampled E w2"
    "\<forall>k. k \<notin> set ns \<longrightarrow> bit b' k = bit c k"
    by (auto simp: line_sampled)
  then have "bit b' n = pin_in E w2 AEB_TOF_SDA" using Cons.prems(3) c by simp
  with IH wait_scl_wire(3) [OF w2] c show ?case by (simp add: line_sampled)
qed simp

end
