(* ===== verification/FrontSpads.thy ===== *)
theory FrontSpads
  imports FrontTof
begin

text \<open>
  The loop of \<open>aeb_vl53l0xConfigureSpads\<close>: what it leaves of the map of reference SPADs.
\<close>

section \<open>Selecting reference SPADs\<close>

text \<open>The map as 48 bits.\<close>

definition spad_bit :: "u8 list \<Rightarrow> nat \<Rightarrow> bool" where
  "spad_bit m i \<longleftrightarrow> bit (m ! (i div 8)) (i mod 8)"

lemma bit_clear8: "k < 8 \<Longrightarrow> bit ((b :: u8) AND NOT (2 ^ n)) k = (bit b k \<and> k \<noteq> n)"
  by (auto simp: bit_simps)

lemma test8: "n < 8 \<Longrightarrow> ((b :: u8) AND push_bit n 1 \<noteq> 0) = bit b n"
proof -
  assume "n < 8"
  then have "bit (b AND push_bit n 1) k = (k = n \<and> bit b n)" for k
    by (auto simp: bit_simps dest: bit_imp_le_length)
  then show ?thesis by (metis bit_0_eq bot_apply bot_bool_def bit_eqI)
qed

lemma spad_bit_clear:
  assumes "i < 48" "j < 48" "length m = 6"
  shows "spad_bit (m[i div 8 := m ! (i div 8) AND NOT (push_bit (i mod 8) 1)]) j = (spad_bit m j \<and> j \<noteq> i)"
proof -
  have "i = j \<longleftrightarrow> i div 8 = j div 8 \<and> i mod 8 = j mod 8" by (metis div_mult_mod_eq)
  moreover have "i div 8 < 6" "j div 8 < 6" using assms(1,2) by (simp_all add: div_less_iff_less_mult)
  ultimately show ?thesis using assms(3)
    by (auto simp: spad_bit_def nth_list_update bit_clear8)
qed

text \<open>The number of usable SPADs before i.\<close>

definition usable :: "nat \<Rightarrow> u8 list \<Rightarrow> nat \<Rightarrow> nat" where
  "usable first m i = card {j. first \<le> j \<and> j < i \<and> spad_bit m j}"

lemma usable_Suc: "usable first m (Suc i) = usable first m i + (if first \<le> i \<and> spad_bit m i then 1 else 0)"
proof -
  have "{j. first \<le> j \<and> j < Suc i \<and> spad_bit m j} =
      {j. first \<le> j \<and> j < i \<and> spad_bit m j} \<union> (if first \<le> i \<and> spad_bit m i then {i} else {})"
    by (auto simp: less_Suc_eq)
  then show ?thesis unfolding usable_def by (simp add: card_insert_if)
qed

lemma usable_le: "usable first m i \<le> i"
proof -
  have "{j. first \<le> j \<and> j < i \<and> spad_bit m j} \<subseteq> {..<i}" by auto
  from card_mono [OF _ this] show ?thesis by (simp add: usable_def)
qed

lemma spads_fold:
  assumes "length m = 6" "n \<le> 48"
  shows "\<exists>m'. fold (spad_step first c) [0 ..< n] (m, 0) = (m', of_nat (min (unat c) (usable (unat first) m n))) \<and> length m' = 6 \<and>
    (\<forall>j < 48. spad_bit m' j \<longleftrightarrow> spad_bit m j \<and> (j < n \<longrightarrow> unat first \<le> j \<and> usable (unat first) m j < unat c))"
  using assms(2)
proof (induction n)
  case 0
  then show ?case using assms(1) by (auto simp: usable_def)
next
  case (Suc n)
  let ?u = "usable (unat first) m"
  from Suc obtain m' where m': "fold (spad_step first c) [0 ..< n] (m, 0) = (m', of_nat (min (unat c) (?u n)))" "length m' = 6"
    "\<forall>j < 48. spad_bit m' j \<longleftrightarrow> spad_bit m j \<and> (j < n \<longrightarrow> unat first \<le> j \<and> ?u j < unat c)" by auto
  have small: "?u n < 256" using usable_le [of "unat first" m n] Suc.prems by linarith
  have eq: "(of_nat (min (unat c) (?u n)) = c) = (unat c \<le> ?u n)"
  proof -
    have "unat (of_nat (min (unat c) (?u n)) :: u8) = min (unat c) (?u n)" using small
      by (simp add: unat_of_nat take_bit_nat_eq_self min_def)
    then show ?thesis by (metis min.absorb1 min.cobounded2 word_of_nat_unat)
  qed
  have bn: "spad_bit m' n = spad_bit m n" using m'(3) Suc.prems by simp
  have t: "(m' ! (n div 8) AND push_bit (n mod 8) 1 \<noteq> 0) = spad_bit m n"
    using test8 [of "n mod 8" "m' ! (n div 8)"] bn by (simp add: spad_bit_def)
  show ?case
  proof (cases "n < unat first \<or> unat c \<le> ?u n")
    case True
    then have s: "fold (spad_step first c) [0 ..< Suc n] (m, 0) =
        (m'[n div 8 := m' ! (n div 8) AND NOT (push_bit (n mod 8) 1)], of_nat (min (unat c) (?u n)))"
      using m'(1) eq by (auto simp: spad_step_def Let_def)
    have "min (unat c) (?u (Suc n)) = min (unat c) (?u n)" using True by (auto simp: usable_Suc min_def)
    moreover have "\<forall>j < 48. spad_bit (m'[n div 8 := m' ! (n div 8) AND NOT (push_bit (n mod 8) 1)]) j \<longleftrightarrow>
        spad_bit m j \<and> (j < Suc n \<longrightarrow> unat first \<le> j \<and> ?u j < unat c)"
      using m'(3) True Suc.prems spad_bit_clear [OF _ _ m'(2), of n] by (auto simp: less_Suc_eq)
    ultimately show ?thesis using s m'(2) by auto
  next
    case False
    then have s: "fold (spad_step first c) [0 ..< Suc n] (m, 0) =
        (m', if spad_bit m n then of_nat (min (unat c) (?u n)) + 1 else of_nat (min (unat c) (?u n)))"
      using m'(1) eq t by (auto simp: spad_step_def Let_def)
    have "(if spad_bit m n then of_nat (min (unat c) (?u n)) + 1 else of_nat (min (unat c) (?u n))) =
        (of_nat (min (unat c) (?u (Suc n))) :: u8)"
    proof -
      have "min (unat c) (?u n) = ?u n" "min (unat c) (Suc (?u n)) = Suc (?u n)" using False by simp_all
      with False show ?thesis by (simp add: usable_Suc)
    qed
    with s m' False show ?thesis by (auto simp: less_Suc_eq)
  qed
qed

end
