(* ===== verification/FrontNode_Props.thy ===== *)
theory FrontNode_Props
  imports FrontBus_Facts FrontSpads
begin

text \<open>
  The properties of the FRONT sensor node: its cycle always ends, what it transmits is true of
  what it measured, and the bus and the packet carry the values they are given.
\<close>

section \<open>The cycle\<close>

text \<open>
  C16: In every state the controller can reach, a whole cycle (steering, polling the network,
  three sensors, sending, a late initialisation of the time-of-flight sensor, holding the
  wheels) comes to an end, within 2906000000 ticks of the timer (29 s at 100 MHz, most of it the
  time-of-flight sensor's failing retries; the count is exact, not modulo the 32 bits the code reads). In it exactly one
  Ethernet frame is handed to the driver: the 64 bytes of the packet built from the node's new frame, whose sequence number is
  the next one. The code waits for a transmit buffer, a receive buffer and the
  timer with no limit of its own; the theorem supposes that they work (\<open>node_hw\<close>): the timer runs at 10 MHz or more, no access to the
  hardware takes more than 10000 ticks besides the waits the code asks for, the wait for a transmit buffer is such an access and
  ends, and the receive ring has at most 1000 descriptors with buffers of 256 bytes.
\<close>
theorem front_cycle_total:
  assumes "node_reach E n" "node_hw E"
  shows "\<exists>n' w' t buf. front_cycle E n w = Some (n', w') \<and> took E w w' t \<and> t \<le> 2906000000 \<and>
    f_sequence (latestFrame n') = f_sequence (latestFrame n) + 1 \<and>
    aeb_buildPacket (latestFrame n') = Some (buf, 64) \<and> sends w' = (buf, 64) # sends w"
proof -
  obtain n' w' buf where c: "front_cycle E n w = Some (n', w')" "f_sequence (latestFrame n') = f_sequence (latestFrame n) + 1"
    "aeb_buildPacket (latestFrame n') = Some (buf, 64)" "sent_one E w 2906000000 (buf, 64) w'"
    using cycle_ok [OF assms(2) node_reach_inv [OF assms], of w] by blast
  have "sane_hw E" using assms(2) by (simp add: node_hw_def)
  with c sent_oneD [OF c(4)] show ?thesis by blast
qed

text \<open>
  No cycle ever drives one of the two I2C lines high: they are pulled low or released.
\<close>
theorem front_bus_open_drain:
  assumes "node_reach E n" "node_hw E" "front_cycle E n w = Some (n', w')"
  shows "\<exists>es. w' = es @ w \<and> SetPin AEB_TOF_SDA True \<notin> set es \<and> SetPin AEB_TOF_SCL True \<notin> set es"
proof -
  obtain w1 a b buf where s: "since E od w a w1" "since E od (EthSend buf 64 # w1) b w'"
    using cycle_ok [OF assms(2) node_reach_inv [OF assms(1,2)], of w] assms(3) unfolding sent_one_def by auto
  obtain es1 es2 where e: "w1 = es1 @ w" "list_all od es1" "w' = es2 @ EthSend buf 64 # w1" "list_all od es2"
    using s unfolding since_def by auto
  then show ?thesis by (intro exI [of _ "es2 @ EthSend buf 64 # es1"]) (auto simp: list_all_iff od_def)
qed

text \<open>
  C29: Whenever the transmitted frame says that a distance is valid, the distance lies in the
  range of its sensor (20 to 5000 tenths of a centimetre for the two ultrasonic ones, 30 to 4000
  for the time-of-flight one), and it never claims a valid steering command together with the
  emergency centring.
\<close>
theorem front_frame_in_range:
  assumes "node_reach E n" "node_hw E"
  shows "let f = latestFrame n in
    (f_validMask f AND AEB_VALID_ULTRA_LEFT \<noteq> 0 \<longrightarrow>
       20 \<le> unat (f_ultrasonicLeftCmX10 f) \<and> unat (f_ultrasonicLeftCmX10 f) \<le> 5000) \<and>
    (f_validMask f AND AEB_VALID_ULTRA_RIGHT \<noteq> 0 \<longrightarrow>
       20 \<le> unat (f_ultrasonicRightCmX10 f) \<and> unat (f_ultrasonicRightCmX10 f) \<le> 5000) \<and>
    (f_validMask f AND AEB_VALID_TOF \<noteq> 0 \<longrightarrow>
       30 \<le> unat (f_tofFrontCmX10 f) \<and> unat (f_tofFrontCmX10 f) \<le> 4000) \<and>
    \<not> (f_validMask f AND AEB_VALID_STEERING_COMMAND \<noteq> 0 \<and> f_validMask f AND AEB_VALID_STEERING_CENTER \<noteq> 0)"
  using node_reach_inv [OF assms] by (simp add: node_inv_def frame_ok_def echo_range_def Let_def)

lemma demo_node: "\<exists>n. node_reach (demo_hw pins) n \<and> node_hw (demo_hw pins)"
  using boot_total [OF demo_node_hw] demo_node_hw node_reach.boot by blast

lemma front_cycle_demo: "node_reach (demo_hw pins) n \<Longrightarrow> \<exists>n' w'. front_cycle (demo_hw pins) n w = Some (n', w')"
  using cycle_ok [OF demo_node_hw node_reach_inv [OF _ demo_node_hw]] by blast

lemma demo_second_node: "\<exists>n n' w w'. node_reach (demo_hw pins) n \<and> front_cycle (demo_hw pins) n w = Some (n', w')"
proof -
  obtain n where n: "node_reach (demo_hw pins) n" using demo_node by blast
  from front_cycle_demo [OF n] n show ?thesis by blast
qed

theorem front_cycle_total_witness:
  "\<exists>n w' n' t buf. node_reach (demo_hw (\<lambda>_ _. True)) n \<and> front_cycle (demo_hw (\<lambda>_ _. True)) n [] = Some (n', w') \<and>
     took (demo_hw (\<lambda>_ _. True)) [] w' t \<and> t \<le> 2906000000 \<and>
     aeb_buildPacket (latestFrame n') = Some (buf, 64) \<and> sends w' = [(buf, 64)]"
proof -
  obtain n where n: "node_reach (demo_hw (\<lambda>_ _. True)) n" using demo_node by blast
  from front_cycle_total [where w = "[]", OF this demo_node_hw] n show ?thesis by (metis sends.simps(1))
qed

theorem front_bus_open_drain_witness:
  "\<exists>n n' w es. node_reach (demo_hw (\<lambda>_ _. True)) n \<and> front_cycle (demo_hw (\<lambda>_ _. True)) n w = Some (n', es @ w) \<and>
     SetPin AEB_TOF_SDA True \<notin> set es"
proof -
  obtain n n' w w' where c: "node_reach (demo_hw (\<lambda>_ _. True)) n" "front_cycle (demo_hw (\<lambda>_ _. True)) n w = Some (n', w')"
    using demo_second_node by blast
  from front_bus_open_drain [OF c(1) demo_node_hw c(2)] c show ?thesis by blast
qed

theorem front_frame_in_range_witness:
  "\<exists>n. node_reach echo_hw n \<and> f_validMask (latestFrame n) AND AEB_VALID_ULTRA_LEFT \<noteq> 0 \<and>
     f_validMask (latestFrame n) AND AEB_VALID_ULTRA_RIGHT \<noteq> 0 \<and>
     20 \<le> unat (f_ultrasonicLeftCmX10 (latestFrame n)) \<and> unat (f_ultrasonicLeftCmX10 (latestFrame n)) \<le> 5000 \<and>
     20 \<le> unat (f_ultrasonicRightCmX10 (latestFrame n)) \<and> unat (f_ultrasonicRightCmX10 (latestFrame n)) \<le> 5000"
proof -
  obtain n where n: "node_reach echo_hw n" "f_validMask (latestFrame n) AND AEB_VALID_ULTRA_LEFT \<noteq> 0"
    "f_validMask (latestFrame n) AND AEB_VALID_ULTRA_RIGHT \<noteq> 0" by (rule echo_reachable)
  from front_frame_in_range [OF n(1) echo_node_hw] n show ?thesis by (auto simp: Let_def)
qed

section \<open>The packet\<close>

text \<open>
  C32: The AEB1 packet carries the frame: the transmit buffer holds an Ethernet frame of 64
  bytes to send, addressed to the broadcast address, and reading its payload back (magic, version and
  the little-endian fields) gives every field of the frame.
\<close>
theorem aeb1_roundtrip:
  "\<exists>buf. aeb_buildPacket f = Some (buf, 64) \<and> take 6 buf = g_dstMac \<and>
    take 5 (drop 42 buf) = [0x41, 0x45, 0x42, 0x31, 1] \<and> buf ! 47 = f_validMask f \<and>
    readU16Le (drop 48 buf) = Some (f_tofDiag f) \<and>
    readU32Le (drop 50 buf) = Some (f_sequence f) \<and> readU32Le (drop 54 buf) = Some (f_timestampMs f) \<and>
    readU16Le (drop 58 buf) = Some (f_tofFrontCmX10 f) \<and> readU16Le (drop 60 buf) = Some (f_ultrasonicLeftCmX10 f) \<and>
    readU16Le (drop 62 buf) = Some (f_ultrasonicRightCmX10 f)"
proof -
  have j: "push_bit 8 (ucast (hi v)) OR ucast (lo v) = v" for v :: u16
    using join16 [of v] by (simp add: lo_def hi_def)
  show ?thesis
    unfolding buildPacket_val
    by (simp add: ip_bytes_def payload_bytes_def g_dstMac_def j join32)
qed

text \<open>
  The IP header of the packet is valid for every frame: the checksum routine applied to its
  twenty bytes, the checksum field included, gives zero.
\<close>
theorem ip_header_verifies:
  "\<exists>buf. aeb_buildPacket f = Some (buf, 64) \<and> aeb_checksum16 (take 20 (drop 14 buf)) 20 = Some 0"
proof -
  have "length (ip_bytes f) = 20" by (simp add: ip_bytes_def)
  then show ?thesis unfolding buildPacket_val using ip_header_checks [of f] by simp
qed

section \<open>The sensors\<close>

text \<open>
  With three samples the filter returns the middle one of the sorted samples.
\<close>
theorem median_is_middle:
  assumes "length xs = 3"
  shows "aeb_median3 xs 3 = Some (sort xs ! 1)"
proof -
  obtain a b c where "xs = [a, b, c]" using assms by (auto simp: numeral_3_eq_3 length_Suc_conv)
  then show ?thesis by (auto simp: median3_cases min_def max_def)
qed

theorem median_is_middle_witness: "aeb_median3 [412, 65000, 398] 3 = Some (sort [412, 65000, 398] ! 1)"
  by (rule median_is_middle) simp

text \<open>
  The freshness test forgets the wraps of the timer: a sensor whose last valid echo lies a
  whole round of the 32-bit timer back (and a little) is reported as fresh, however long the
  tolerated age.
\<close>
theorem stale_echo_reads_fresh:
  assumes "took E w0 w (2 ^ 32 + d)" "clock E w0 \<noteq> 0" "d \<le> unat (aeb_ticksFromMs E staleMs)"
  shows "fst (aeb_isFresh E (clock E w0) staleMs w)"
proof -
  have "(of_nat (2 ^ 32 + d) :: u32) = of_nat d" by simp
  then have "clock E w - clock E w0 = of_nat d" using assms(1) using tookD by fastforce
  moreover have "of_nat d \<le> aeb_ticksFromMs E staleMs"
    using assms(3) unat_of_nat_u32 [of d] u32_less_2p32 [of "aeb_ticksFromMs E staleMs"] by (simp add: word_le_nat_alt)
  ultimately show ?thesis using assms(2) by (simp add: aeb_isFresh_def aeb_nowTicks_def stm_now_def)
qed

theorem stale_echo_reads_fresh_witness:
  "fst (aeb_isFresh (demo_hw (\<lambda>_ _. True)) (clock (demo_hw (\<lambda>_ _. True)) [ReadClock]) 500
     [WaitTicks 5, WaitTicks 0xFFFFFFFF, ReadClock])"
  by (rule stale_echo_reads_fresh [where d = 4]) (simp_all add: took_def clock_def demo_hw_def aeb_ticksFromMs_def)

text \<open>
  Choosing the reference SPADs: of the 48 enable bits exactly the first \<open>spadCount\<close> enabled
  ones from the first usable one on (12 for an aperture, 0 otherwise) stay set.
\<close>
theorem spads_selected:
  assumes "length m = 6" "j < 48"
  shows "bit (select_spads spadCount aperture m ! (j div 8)) (j mod 8) \<longleftrightarrow>
    bit (m ! (j div 8)) (j mod 8) \<and> (if aperture then 12 else 0) \<le> j \<and>
    card {i. (if aperture then 12 else 0) \<le> i \<and> i < j \<and> bit (m ! (i div 8)) (i mod 8)} < unat spadCount"
  using spads_fold [OF assms(1), of 48 "if aperture then 12 else 0" spadCount] assms(2)
  by (auto simp: select_spads_def Let_def usable_def spad_bit_def split: if_splits)

theorem spads_selected_witness: "bit (select_spads 3 True [0, 0xF0, 0, 0, 0, 0] ! (14 div 8)) (14 mod 8)"
proof -
  have "{i. 12 \<le> i \<and> i < 14 \<and> bit ([0, 0xF0, 0, 0, 0, 0 :: u8] ! (i div 8)) (i mod 8)} \<subseteq> {12, 13}" by auto
  from card_mono [OF _ this] show ?thesis
    using spads_selected [of "[0, 0xF0, 0, 0, 0, 0]" 14 3 True] by (simp add: bit_numeral_rec)
qed

section \<open>The bus\<close>

text \<open>
  When a byte has been written, the data line had, at the last eight releases of the clock
  line, the bits of the byte, most significant first (the trace is read backwards).
\<close>
theorem i2c_bits_written:
  assumes "write_bits E b bit_order w = Some (True, w')"
  shows "wire w' = [bit b 0, bit b 1, bit b 2, bit b 3, bit b 4, bit b 5, bit b 6, bit b 7] @ wire w"
  using write_bits_wire [OF assms] by (simp add: bit_order_def)

text \<open>
  When a byte has been read, its bits are the levels of the data line at the last eight times the
  code looked at it, most significant first.
\<close>
theorem i2c_bits_read:
  assumes "read_bits E 0 bit_order w = Some (Some b, w')"
  shows "sampled E w' = [bit b 0, bit b 1, bit b 2, bit b 3, bit b 4, bit b 5, bit b 6, bit b 7] @ sampled E w"
  using read_bits_sampled [OF assms] by (simp add: bit_order_def)

lemma demo_scl: "aeb_i2cWaitSclHigh (demo_hw (\<lambda>_ _. True)) w = Some (True, ReadPin AEB_TOF_SCL # ReadClock # w)"
  by (simp add: aeb_i2cWaitSclHigh_def aeb_nowTicks_def stm_now_def poll_loop.simps scl_round_def pin_read_def demo_hw_def)

theorem i2c_bits_written_witness:
  "\<exists>w'. write_bits (demo_hw (\<lambda>_ _. True)) 0x52 bit_order [] = Some (True, w') \<and>
     wire w' = [False, True, False, False, True, False, True, False]"
proof -
  obtain w' where w: "write_bits (demo_hw (\<lambda>_ _. True)) 0x52 bit_order [] = Some (True, w')"
    by (simp add: bit_order_def demo_scl Let_def)
  from i2c_bits_written [OF this] w show ?thesis by (simp add: bit_numeral_rec)
qed

theorem i2c_bits_read_witness:
  "\<exists>w' b. read_bits (demo_hw (\<lambda>_ _. True)) 0 bit_order [] = Some (Some b, w') \<and> take 8 (sampled (demo_hw (\<lambda>_ _. True)) w') =
     [bit b 0, bit b 1, bit b 2, bit b 3, bit b 4, bit b 5, bit b 6, bit b 7]"
proof -
  obtain w' b where w: "read_bits (demo_hw (\<lambda>_ _. True)) 0 bit_order [] = Some (Some b, w')"
    by (simp add: bit_order_def demo_scl Let_def pin_read_def)
  from i2c_bits_read [OF this] w show ?thesis by auto
qed

end
