(* ===== verification/RearHw.thy ===== *)
theory RearHw
  imports Exec
begin

text \<open>
  The boundary of the REAR board. Its code writes and reads registers by name
  (\<open>MODULE_P10.OUT.B.P1 = 1\<close> is \<open>WriteReg ''P10.OUT.P1'' 1\<close>) and calls the low-level drivers,
  which are not part of the repository; each access is an event of a trace, newest first, and
  what comes back is a function of everything done so far. The structures below are the fields
  of the driver's configuration structures that the code fills in.
\<close>

section \<open>Structures the code hands to the drivers\<close>

record pwm_config =
  pwm_module :: bool             \<comment> \<open>whether the pointer to the GTM has been set\<close>
  pwm_pin :: string
  pwm_period :: u32
  pwm_sync :: bool
  dutyCycle :: u32

record can_config =
  busLoopbackEnabled :: bool
  baudRate_baudrate :: u32
  fastBaudRate_baudrate :: u32
  can_nodeId :: nat
  can_pins :: "(string \<times> string) option"      \<comment> \<open>transmit and receive pin\<close>
  frame_type :: string
  frame_mode :: string
  txMode :: string
  txBufferDataFieldSize :: nat
  transmissionCompletedEnabled :: bool
  traco :: "nat \<times> nat"                       \<comment> \<open>priority, interrupt line\<close>
  rxMode :: string
  rxBufferDataFieldSize :: nat
  rxFifo0DataFieldSize :: nat
  rxFifo0Size :: nat
  messageIdLength :: string
  standardListSize :: nat
  standardFilterForNonMatchingFrames :: string
  rejectRemoteFramesWithStandardId :: bool
  rxFifo0NewMessageEnabled :: bool
  rxf0n :: "nat \<times> nat"

record can_filter =
  filter_number :: nat
  filter_type :: string
  filter_fifo0 :: bool           \<comment> \<open>a match goes to receive FIFO 0\<close>
  id1 :: u32
  id2 :: u32

record can_message =
  messageId :: u32
  dataLengthCode :: u32
  fdLongAndFast :: bool

record enc_config =
  enc_offset :: int
  enc_reversed :: bool
  enc_resolution :: nat
  resolutionFactor :: nat
  updatePeriod :: f32
  speedModeThreshold :: f32
  minSpeed :: f32
  maxSpeed :: f32
  zeroIsrPriority :: nat
  pinZ :: "string option"
  pinA :: string
  pinB :: string
  noPull :: bool
  initPins :: bool

text \<open>A C structure sent as it lies in memory: its fields in order.\<close>

datatype field = F32 f32 | U8 u8

fun field_size :: "field \<Rightarrow> nat" where
  "field_size (F32 _) = 4"
| "field_size (U8 _) = 1"

type_synonym ip4 = "u8 list"

datatype rear_event =
    WriteReg string u32
  | ReadReg string
  | Call string "u32 list"
  | Spin nat
  | PwmClock nat f32
  | PwmInit string pwm_config
  | PwmStart string
  | CanInitNode string can_config
  | CanSetFilter string can_filter
  | CanSend string can_message "u8 list"
  | CanRead string
  | EncInit enc_config
  | EncUpdate
  | UdpSend string ip4 u16 "field list"
  | GethSend "u8 list" u32

type_synonym rtrace = "rear_event list"

section \<open>What comes back\<close>

record rear_hw =
  reg_in :: "rtrace \<Rightarrow> string \<Rightarrow> u32"       \<comment> \<open>a register of the hardware\<close>
  drv :: "rtrace \<Rightarrow> string \<Rightarrow> u32"          \<comment> \<open>the result of a driver call\<close>
  enc_speed :: "rtrace \<Rightarrow> f32"            \<comment> \<open>\<open>IfxGpt12_IncrEnc_getSpeed\<close>\<close>
  eth_rx :: "rtrace \<Rightarrow> u8 list"           \<comment> \<open>the DMA buffer of the received frame\<close>
  pwm_default :: pwm_config            \<comment> \<open>\<open>IfxGtm_Atom_Pwm_initConfig\<close>\<close>
  can_default :: can_config            \<comment> \<open>\<open>IfxCan_Can_initNodeConfig\<close>\<close>
  can_rx :: "rtrace \<Rightarrow> can_message \<times> u8 list"
  reg_bits :: "string \<Rightarrow> u32"          \<comment> \<open>masks and constants of the driver's headers\<close>
  adc_fields :: "u32 \<Rightarrow> bool \<times> u32"      \<comment> \<open>VF and RESULT of a result word of the EVADC\<close>
  link_fields :: "u32 \<Rightarrow> u32 \<times> u32 \<times> u32"  \<comment> \<open>LNKSTS, LNKMOD, LNKSPEED of the PHY's status word\<close>

definition reg_read :: "rear_hw \<Rightarrow> string \<Rightarrow> rtrace \<Rightarrow> u32 \<times> rtrace" where
  "reg_read E r w = (reg_in E w r, ReadReg r # w)"

definition call_drv :: "rear_hw \<Rightarrow> string \<Rightarrow> u32 list \<Rightarrow> rtrace \<Rightarrow> u32 \<times> rtrace" where
  "call_drv E f args w = (drv E w f, Call f args # w)"

text \<open>A register the code itself writes (an output latch) holds what was written last, and 0
  after reset.\<close>

fun reg_last :: "string \<Rightarrow> rtrace \<Rightarrow> u32" where
  "reg_last r [] = 0"
| "reg_last r (WriteReg q v # w) = (if q = r then v else reg_last r w)"
| "reg_last r (e # w) = reg_last r w"

text \<open>\<open>MODULE_X.OUT.B.P ^= 1\<close>: the latch is one bit wide.\<close>

definition reg_toggle :: "string \<Rightarrow> rtrace \<Rightarrow> rtrace" where
  "reg_toggle r w = WriteReg r ((reg_last r w XOR 1) AND 1) # w"

text \<open>Writing a list of registers in order.\<close>

fun write_regs :: "(string \<times> u32) list \<Rightarrow> rtrace \<Rightarrow> rtrace" where
  "write_regs [] w = w"
| "write_regs ((r, v) # rs) w = write_regs rs (WriteReg r v # w)"

lemma reg_last_write_regs:
  "reg_last r (write_regs rs w) = (case map_of (rev rs) r of Some v \<Rightarrow> v | None \<Rightarrow> reg_last r w)"
  by (induction rs w rule: write_regs.induct) (auto simp: map_add_def split: option.splits)

end
