(* ===== verification/RearMotor.thy ===== *)
theory RearMotor
  imports RearHw
begin

text \<open>
  The motor driver of the REAR board: BSW/Driver/gtm_atom_pwm.c (two PWM channels) and
  BSW/IO/Motor.c (direction and brake pins of the two bridges). The arguments of type \<open>int\<close>
  are integers here; the code passes 0 to 100 and 0 or 1.
\<close>

section \<open>PWM (gtm_atom_pwm.c)\<close>

definition CLK_FREQ :: f32 where "CLK_FREQ = flit 1000000"
definition PWM_PERIOD :: u32 where "PWM_PERIOD = 1000"
definition PWM_A :: string where "PWM_A = ''ATOM0_1_TOUT1_P02_1''"
definition PWM_B :: string where "PWM_B = ''ATOM1_3_TOUT105_P10_3''"

text \<open>The three configuration structures; the one without a letter is set up nowhere.\<close>

record pwm_state =
  g_atomConfig_PwmA :: pwm_config
  g_atomConfig_PwmB :: pwm_config
  g_atomConfig :: pwm_config

definition pwm_unset :: pwm_config where
  "pwm_unset = \<lparr>pwm_module = False, pwm_pin = [], pwm_period = 0, pwm_sync = False, dutyCycle = 0\<rparr>"

definition pwm_state_0 :: pwm_state where
  "pwm_state_0 = \<lparr>g_atomConfig_PwmA = pwm_unset, g_atomConfig_PwmB = pwm_unset, g_atomConfig = pwm_unset\<rparr>"

definition pwm_channel_config :: "rear_hw \<Rightarrow> string \<Rightarrow> pwm_config" where
  "pwm_channel_config E pin = (pwm_default E)\<lparr>pwm_module := True, pwm_pin := pin,
     pwm_period := PWM_PERIOD, pwm_sync := True\<rparr>"

definition GtmAtomPwm_Init :: "rear_hw \<Rightarrow> pwm_state \<Rightarrow> rtrace \<Rightarrow> pwm_state \<times> rtrace" where
  "GtmAtomPwm_Init E st w =
     (let w = PwmClock 0 CLK_FREQ # Call ''IfxGtm_enable'' [] # w;
          w = Call ''IfxGtm_Cmu_enableClocks'' [0] # w;
          st = st\<lparr>g_atomConfig_PwmA := pwm_channel_config E PWM_A\<rparr>;
          w = PwmStart ''A'' # PwmInit ''A'' (g_atomConfig_PwmA st) # w;
          w = Call ''IfxGtm_Cmu_enableClocks'' [1] # PwmClock 1 CLK_FREQ # w;
          st = st\<lparr>g_atomConfig_PwmB := pwm_channel_config E PWM_B\<rparr>;
          w = PwmStart ''B'' # PwmInit ''B'' (g_atomConfig_PwmB st) # w
      in (st, w))"

definition GtmAtomPwm_SetDutyCycle :: "u32 \<Rightarrow> pwm_state \<times> rtrace \<Rightarrow> pwm_state \<times> rtrace" where
  "GtmAtomPwm_SetDutyCycle duty = (\<lambda>(st, w).
     let st = st\<lparr>g_atomConfig := (g_atomConfig st)\<lparr>dutyCycle := duty\<rparr>\<rparr>
     in (st, PwmInit '''' (g_atomConfig st) # w))"

definition GtmAtomPwmA_SetDutyCycle :: "u32 \<Rightarrow> pwm_state \<times> rtrace \<Rightarrow> pwm_state \<times> rtrace" where
  "GtmAtomPwmA_SetDutyCycle duty = (\<lambda>(st, w).
     let st = st\<lparr>g_atomConfig_PwmA := (g_atomConfig_PwmA st)\<lparr>dutyCycle := duty\<rparr>\<rparr>
     in (st, PwmInit ''A'' (g_atomConfig_PwmA st) # w))"

definition GtmAtomPwmB_SetDutyCycle :: "u32 \<Rightarrow> pwm_state \<times> rtrace \<Rightarrow> pwm_state \<times> rtrace" where
  "GtmAtomPwmB_SetDutyCycle duty = (\<lambda>(st, w).
     let st = st\<lparr>g_atomConfig_PwmB := (g_atomConfig_PwmB st)\<lparr>dutyCycle := duty\<rparr>\<rparr>
     in (st, PwmInit ''B'' (g_atomConfig_PwmB st) # w))"

section \<open>The two bridges (Motor.c)\<close>

definition set_reg :: "string \<Rightarrow> u32 \<Rightarrow> pwm_state \<times> rtrace \<Rightarrow> pwm_state \<times> rtrace" where
  "set_reg r v = (\<lambda>(st, w). (st, WriteReg r v # w))"

definition Motor_Init :: "rear_hw \<Rightarrow> pwm_state \<times> rtrace \<Rightarrow> pwm_state \<times> rtrace" where
  "Motor_Init E = (\<lambda>(st, w).
     let w = write_regs [(''P10.IOCR0.PC1'', 0x10), (''P02.IOCR4.PC7'', 0x10),
               (''P10.IOCR0.PC2'', 0x10), (''P02.IOCR4.PC6'', 0x10)] w
     in GtmAtomPwmB_SetDutyCycle 0 (GtmAtomPwmA_SetDutyCycle 0 (GtmAtomPwm_Init E st w)))"

definition dir_bit :: "int \<Rightarrow> u32" where
  "dir_bit dir = (if dir \<noteq> 0 then 1 else 0)"

definition Motor_movChA :: "int \<Rightarrow> pwm_state \<times> rtrace \<Rightarrow> pwm_state \<times> rtrace" where
  "Motor_movChA dir m =
     GtmAtomPwm_SetDutyCycle 1000 (set_reg ''P02.OUT.P7'' 0 (set_reg ''P10.OUT.P1'' (dir_bit dir) m))"

definition Motor_stopChA :: "pwm_state \<times> rtrace \<Rightarrow> pwm_state \<times> rtrace" where
  "Motor_stopChA m = set_reg ''P02.OUT.P7'' 1 m"

definition Motor_movChA_PWM :: "int \<Rightarrow> int \<Rightarrow> pwm_state \<times> rtrace \<Rightarrow> pwm_state \<times> rtrace" where
  "Motor_movChA_PWM duty dir m =
     set_reg ''P02.OUT.P7'' 0 (set_reg ''P10.OUT.P1'' (dir_bit dir)
       (GtmAtomPwmA_SetDutyCycle (of_int (duty * 10)) m))"

definition Motor_movChB :: "int \<Rightarrow> pwm_state \<times> rtrace \<Rightarrow> pwm_state \<times> rtrace" where
  "Motor_movChB dir m =
     GtmAtomPwm_SetDutyCycle 1000 (set_reg ''P02.OUT.P6'' 0 (set_reg ''P10.OUT.P2'' (dir_bit dir) m))"

definition Motor_stopChB :: "pwm_state \<times> rtrace \<Rightarrow> pwm_state \<times> rtrace" where
  "Motor_stopChB m = set_reg ''P02.OUT.P6'' 1 m"

definition Motor_movChB_PWM :: "int \<Rightarrow> int \<Rightarrow> pwm_state \<times> rtrace \<Rightarrow> pwm_state \<times> rtrace" where
  "Motor_movChB_PWM duty dir m =
     set_reg ''P02.OUT.P6'' 0 (set_reg ''P10.OUT.P2'' (dir_bit dir)
       (GtmAtomPwmB_SetDutyCycle (of_int (duty * 10)) m))"

definition Motor_coastChA :: "pwm_state \<times> rtrace \<Rightarrow> pwm_state \<times> rtrace" where
  "Motor_coastChA m = set_reg ''P02.OUT.P7'' 0 (GtmAtomPwmA_SetDutyCycle 0 m)"

definition Motor_coastChB :: "pwm_state \<times> rtrace \<Rightarrow> pwm_state \<times> rtrace" where
  "Motor_coastChB m = set_reg ''P02.OUT.P6'' 0 (GtmAtomPwmB_SetDutyCycle 0 m)"

definition Motor_brakeChA :: "int \<Rightarrow> pwm_state \<times> rtrace \<Rightarrow> pwm_state \<times> rtrace" where
  "Motor_brakeChA duty m = set_reg ''P02.OUT.P7'' 1 (GtmAtomPwmA_SetDutyCycle (of_int (duty * 10)) m)"

definition Motor_brakeChB :: "int \<Rightarrow> pwm_state \<times> rtrace \<Rightarrow> pwm_state \<times> rtrace" where
  "Motor_brakeChB duty m = set_reg ''P02.OUT.P6'' 1 (GtmAtomPwmB_SetDutyCycle (of_int (duty * 10)) m)"

section \<open>What the bridges see\<close>

text \<open>The duty cycle of a channel, and its direction and brake pins.\<close>

fun duty_of :: "string \<Rightarrow> rtrace \<Rightarrow> u32 option" where
  "duty_of ch [] = None"
| "duty_of ch (PwmInit c cfg # w) = (if c = ch then Some (dutyCycle cfg) else duty_of ch w)"
| "duty_of ch (e # w) = duty_of ch w"

record bridge =
  level :: "u32 option"
  forward :: u32
  brake :: u32

definition bridge_a :: "rtrace \<Rightarrow> bridge" where
  "bridge_a w = \<lparr>level = duty_of ''A'' w, forward = reg_last ''P10.OUT.P1'' w, brake = reg_last ''P02.OUT.P7'' w\<rparr>"

definition bridge_b :: "rtrace \<Rightarrow> bridge" where
  "bridge_b w = \<lparr>level = duty_of ''B'' w, forward = reg_last ''P10.OUT.P2'' w, brake = reg_last ''P02.OUT.P6'' w\<rparr>"

lemmas motor_defs = set_reg_def GtmAtomPwmA_SetDutyCycle_def GtmAtomPwmB_SetDutyCycle_def
  GtmAtomPwm_SetDutyCycle_def bridge_a_def bridge_b_def

text \<open>Each command acts on one bridge and leaves the other alone.\<close>

lemma motor_coast [simp]:
  "bridge_a (snd (Motor_coastChA m)) = (bridge_a (snd m))\<lparr>level := Some 0, brake := 0\<rparr>"
  "bridge_b (snd (Motor_coastChA m)) = bridge_b (snd m)"
  "bridge_b (snd (Motor_coastChB m)) = (bridge_b (snd m))\<lparr>level := Some 0, brake := 0\<rparr>"
  "bridge_a (snd (Motor_coastChB m)) = bridge_a (snd m)"
  by (simp_all add: Motor_coastChA_def Motor_coastChB_def motor_defs split_beta Let_def)

lemma motor_brake [simp]:
  "bridge_a (snd (Motor_brakeChA d m)) = (bridge_a (snd m))\<lparr>level := Some (of_int (d * 10)), brake := 1\<rparr>"
  "bridge_b (snd (Motor_brakeChA d m)) = bridge_b (snd m)"
  "bridge_b (snd (Motor_brakeChB d m)) = (bridge_b (snd m))\<lparr>level := Some (of_int (d * 10)), brake := 1\<rparr>"
  "bridge_a (snd (Motor_brakeChB d m)) = bridge_a (snd m)"
  by (simp_all add: Motor_brakeChA_def Motor_brakeChB_def motor_defs split_beta Let_def)

lemma motor_mov_pwm [simp]:
  "bridge_a (snd (Motor_movChA_PWM d dir m)) = \<lparr>level = Some (of_int (d * 10)), forward = dir_bit dir, brake = 0\<rparr>"
  "bridge_b (snd (Motor_movChA_PWM d dir m)) = bridge_b (snd m)"
  "bridge_b (snd (Motor_movChB_PWM d dir m)) = \<lparr>level = Some (of_int (d * 10)), forward = dir_bit dir, brake = 0\<rparr>"
  "bridge_a (snd (Motor_movChB_PWM d dir m)) = bridge_a (snd m)"
  by (simp_all add: Motor_movChA_PWM_def Motor_movChB_PWM_def motor_defs split_beta Let_def)

end
