(* ===== verification/RearShared.thy ===== *)
theory RearShared
  imports RearHw
begin

text \<open>
  The memory the three cores of the REAR board share: four double buffers, each with one
  writer and one reader. The writer fills the slot that is not published and then publishes
  it. Here every access runs on its own; how accesses of two cores interleave is the subject of
  \<open>RearRace\<close>. An index outside the two slots makes the access undefined: the result is None.
\<close>

section \<open>The frames\<close>

record DriveCmd =
  control_mode :: u8
  drive_direction :: u8
  target_speed :: f32
  accel_cmd :: f32
  emergency_stop :: u8

record TelemFrame =
  t_v_ref :: f32
  t_v_meas :: f32
  t_u :: f32
  t_a_cmd :: f32
  t_i_term :: f32

record AebUltraLmuFrame =
  u_left :: f32
  u_right :: f32
  u_validMask :: u8

section \<open>Double buffers\<close>

record 'a dbuf =
  slot0 :: 'a
  slot1 :: 'a
  published :: u8

definition put_slot :: "u8 \<Rightarrow> 'a \<Rightarrow> 'a dbuf \<Rightarrow> 'a dbuf option" where
  "put_slot i x b = (if i = 0 then Some (b\<lparr>slot0 := x\<rparr>) else if i = 1 then Some (b\<lparr>slot1 := x\<rparr>) else None)"

definition get_slot :: "u8 \<Rightarrow> 'a dbuf \<Rightarrow> 'a option" where
  "get_slot i b = (if i = 0 then Some (slot0 b) else if i = 1 then Some (slot1 b) else None)"

text \<open>The index is used as it is, or only its lowest bit.\<close>

definition dbuf_write :: "'a \<Rightarrow> 'a dbuf \<Rightarrow> 'a dbuf option" where
  "dbuf_write x b =
     (let current_idx = published b; write_idx = 1 - current_idx
      in map_option (\<lambda>b. b\<lparr>published := write_idx\<rparr>) (put_slot write_idx x b))"

definition dbuf_read :: "'a dbuf \<Rightarrow> 'a option" where
  "dbuf_read b = get_slot (published b) b"

definition dbuf_write_masked :: "'a \<Rightarrow> 'a dbuf \<Rightarrow> 'a dbuf option" where
  "dbuf_write_masked x b =
     (let cur = published b AND 1; wr = 1 - cur
      in map_option (\<lambda>b. b\<lparr>published := wr\<rparr>) (put_slot wr x b))"

definition dbuf_read_masked :: "'a dbuf \<Rightarrow> 'a option" where
  "dbuf_read_masked b = get_slot (published b AND 1) b"

section \<open>The shared memory\<close>

record lmu =
  g_speed :: "f32 dbuf"
  g_drivecmd :: "DriveCmd dbuf"
  g_telem :: "TelemFrame dbuf"
  g_ultra :: "AebUltraLmuFrame dbuf"

definition zero_cmd :: DriveCmd where
  "zero_cmd = \<lparr>control_mode = 0, drive_direction = 0, target_speed = Fin 0, accel_cmd = Fin 0, emergency_stop = 0\<rparr>"

definition zero_telem :: TelemFrame where
  "zero_telem = \<lparr>t_v_ref = Fin 0, t_v_meas = Fin 0, t_u = Fin 0, t_a_cmd = Fin 0, t_i_term = Fin 0\<rparr>"

definition zero_ultra :: AebUltraLmuFrame where
  "zero_ultra = \<lparr>u_left = Fin 0, u_right = Fin 0, u_validMask = 0\<rparr>"

definition lmu_0 :: lmu where
  "lmu_0 = \<lparr>g_speed = \<lparr>slot0 = Fin 0, slot1 = Fin 0, published = 0\<rparr>,
     g_drivecmd = \<lparr>slot0 = zero_cmd, slot1 = zero_cmd, published = 0\<rparr>,
     g_telem = \<lparr>slot0 = zero_telem, slot1 = zero_telem, published = 0\<rparr>,
     g_ultra = \<lparr>slot0 = zero_ultra, slot1 = zero_ultra, published = 0\<rparr>\<rparr>"

definition Cpu1_WriteSpeed :: "f32 \<Rightarrow> lmu \<Rightarrow> lmu option" where
  "Cpu1_WriteSpeed new_speed m = map_option (\<lambda>b. m\<lparr>g_speed := b\<rparr>) (dbuf_write new_speed (g_speed m))"

definition Cpu1_ReadDriveCmd :: "lmu \<Rightarrow> DriveCmd option" where
  "Cpu1_ReadDriveCmd m = dbuf_read (g_drivecmd m)"

definition Cpu1_WriteTelem :: "f32 \<Rightarrow> f32 \<Rightarrow> f32 \<Rightarrow> f32 \<Rightarrow> f32 \<Rightarrow> lmu \<Rightarrow> lmu option" where
  "Cpu1_WriteTelem v_ref v_meas u a_cmd i_term m =
     map_option (\<lambda>b. m\<lparr>g_telem := b\<rparr>) (dbuf_write
       \<lparr>t_v_ref = v_ref, t_v_meas = v_meas, t_u = u, t_a_cmd = a_cmd, t_i_term = i_term\<rparr> (g_telem m))"

definition Cpu0_ReadSpeed :: "lmu \<Rightarrow> f32 option" where
  "Cpu0_ReadSpeed m = dbuf_read (g_speed m)"

definition Cpu0_ReadTelem :: "lmu \<Rightarrow> TelemFrame option" where
  "Cpu0_ReadTelem m = dbuf_read (g_telem m)"

definition Cpu0_ReadUltra :: "lmu \<Rightarrow> AebUltraLmuFrame option" where
  "Cpu0_ReadUltra m = dbuf_read_masked (g_ultra m)"

definition Cpu0_WriteDriveCmd :: "DriveCmd \<Rightarrow> lmu \<Rightarrow> lmu option" where
  "Cpu0_WriteDriveCmd c m = map_option (\<lambda>b. m\<lparr>g_drivecmd := b\<rparr>) (dbuf_write c (g_drivecmd m))"

definition aeb_writeUltraLmu :: "AebUltraLmuFrame \<Rightarrow> lmu \<Rightarrow> lmu option" where
  "aeb_writeUltraLmu frame m = map_option (\<lambda>b. m\<lparr>g_ultra := b\<rparr>) (dbuf_write_masked frame (g_ultra m))"

section \<open>The contract\<close>

text \<open>A mailbox: a write succeeds, keeps the invariant, and is what a read then returns.\<close>

locale mailbox =
  fixes put :: "'v \<Rightarrow> 's \<Rightarrow> 's option"
    and get :: "'s \<Rightarrow> 'v option"
    and inv :: "'s \<Rightarrow> bool"
  assumes write_ok: "inv s \<Longrightarrow> \<exists>s'. put x s = Some s' \<and> inv s' \<and> get s' = Some x"
    and read_ok: "inv s \<Longrightarrow> \<exists>x. get s = Some x"
begin

lemma write_total: "inv s \<Longrightarrow> put x s \<noteq> None"
  using write_ok by fastforce

lemma read_total: "inv s \<Longrightarrow> get s \<noteq> None"
  using read_ok by fastforce

lemma write_inv: "inv s \<Longrightarrow> put x s = Some s' \<Longrightarrow> inv s'"
  using write_ok [of s x] by auto

lemma read_write: "inv s \<Longrightarrow> put x s = Some s' \<Longrightarrow> get s' = Some x"
  using write_ok [of s x] by auto

text \<open>After any sequence of writes a read returns the last of them.\<close>

fun writes :: "'v list \<Rightarrow> 's \<Rightarrow> 's option" where
  "writes [] s = Some s"
| "writes (x # xs) s = Option.bind (put x s) (writes xs)"

lemma last_write: "inv s \<Longrightarrow> writes (xs @ [x]) s = Some s' \<Longrightarrow> inv s' \<and> get s' = Some x"
  by (induction xs arbitrary: s) (auto simp: bind_Some_iff dest: write_inv read_write)

end

definition dbuf_inv :: "'a dbuf \<Rightarrow> bool" where
  "dbuf_inv b \<longleftrightarrow> published b = 0 \<or> published b = 1"

interpretation plain: mailbox dbuf_write dbuf_read dbuf_inv
  by unfold_locales
    (auto simp: dbuf_write_def dbuf_read_def dbuf_inv_def put_slot_def get_slot_def Let_def)

lemma masked_index: "(i :: u8) AND 1 = 0 \<or> i AND 1 = 1"
proof -
  have "i AND 1 = i mod 2" by (simp add: and_one_eq)
  moreover have "unat (i mod 2) = 0 \<or> unat (i mod 2) = 1" by (simp add: unat_mod) linarith
  ultimately show ?thesis by (metis unat_0 unat_1 word_unat_eq_iff)
qed

text \<open>The masked variant needs no invariant: it survives any index found in memory.\<close>

interpretation masked: mailbox dbuf_write_masked dbuf_read_masked "\<lambda>_. True"
proof (unfold_locales, goal_cases)
  case (1 s x)
  then show ?case
    using masked_index [of "published s"]
    by (auto simp: dbuf_write_masked_def dbuf_read_masked_def put_slot_def get_slot_def Let_def)
next
  case (2 s)
  then show ?case using masked_index [of "published s"] by (auto simp: dbuf_read_masked_def get_slot_def)
qed

definition lmu_inv :: "lmu \<Rightarrow> bool" where
  "lmu_inv m \<longleftrightarrow> dbuf_inv (g_speed m) \<and> dbuf_inv (g_drivecmd m) \<and> dbuf_inv (g_telem m)"

interpretation cmd: mailbox Cpu0_WriteDriveCmd Cpu1_ReadDriveCmd lmu_inv
proof (unfold_locales, goal_cases)
  case (1 s x)
  then show ?case using plain.write_ok [of "g_drivecmd s" x]
    by (fastforce simp: Cpu0_WriteDriveCmd_def Cpu1_ReadDriveCmd_def lmu_inv_def)
next
  case (2 s)
  then show ?case using plain.read_ok [of "g_drivecmd s"] by (auto simp: Cpu1_ReadDriveCmd_def lmu_inv_def)
qed

interpretation speed: mailbox Cpu1_WriteSpeed Cpu0_ReadSpeed lmu_inv
proof (unfold_locales, goal_cases)
  case (1 s x)
  then show ?case using plain.write_ok [of "g_speed s" x]
    by (fastforce simp: Cpu1_WriteSpeed_def Cpu0_ReadSpeed_def lmu_inv_def)
next
  case (2 s)
  then show ?case using plain.read_ok [of "g_speed s"] by (auto simp: Cpu0_ReadSpeed_def lmu_inv_def)
qed

definition write_telem :: "TelemFrame \<Rightarrow> lmu \<Rightarrow> lmu option" where
  "write_telem t = Cpu1_WriteTelem (t_v_ref t) (t_v_meas t) (t_u t) (t_a_cmd t) (t_i_term t)"

interpretation telem: mailbox write_telem Cpu0_ReadTelem lmu_inv
proof (unfold_locales, goal_cases)
  case (1 s x)
  then obtain b where "dbuf_write x (g_telem s) = Some b" "dbuf_inv b" "dbuf_read b = Some x"
    using plain.write_ok [of "g_telem s" x] by (auto simp: lmu_inv_def)
  with 1 show ?case
    by (cases x) (auto simp: write_telem_def Cpu1_WriteTelem_def Cpu0_ReadTelem_def lmu_inv_def)
next
  case (2 s)
  then show ?case using plain.read_ok [of "g_telem s"] by (auto simp: Cpu0_ReadTelem_def lmu_inv_def)
qed

interpretation ultra: mailbox aeb_writeUltraLmu Cpu0_ReadUltra lmu_inv
proof (unfold_locales, goal_cases)
  case (1 s x)
  then show ?case using masked.write_ok [where s = "g_ultra s" and x = x]
    by (fastforce simp: aeb_writeUltraLmu_def Cpu0_ReadUltra_def lmu_inv_def)
next
  case (2 s)
  then show ?case using masked.read_ok [where s = "g_ultra s"] by (auto simp: Cpu0_ReadUltra_def)
qed

lemma lmu_inv_0: "lmu_inv lmu_0"
  by (simp add: lmu_inv_def lmu_0_def dbuf_inv_def)

end
