(* ===== verification/RearControl.thy ===== *)
theory RearControl
  imports RearMotor RearShared
begin

text \<open>
  CPU1 of the REAR board: Cpu1_Main.c (the ACC, MANUAL and emergency controller that runs every
  5 ms) and gpt12_enc.c (the wheel encoder). \<open>None\<close> is a conversion or an access C leaves
  undefined.
\<close>

section \<open>Settings\<close>

definition MODE_MANUAL :: u8 where "MODE_MANUAL = 0"
definition MODE_ACC :: u8 where "MODE_ACC = 1"
definition MODE_AEB :: u8 where "MODE_AEB = 2"
definition DIR_STOP :: u8 where "DIR_STOP = 0"
definition DIR_FWD :: u8 where "DIR_FWD = 1"
definition DIR_REV :: u8 where "DIR_REV = 2"
definition CHA_FWD_BIT :: int where "CHA_FWD_BIT = 1"
definition CHB_FWD_BIT :: int where "CHB_FWD_BIT = 0"
definition CTRL_PERIOD_MS :: u32 where "CTRL_PERIOD_MS = 5"
definition DT :: f32 where "DT = fmul (u32_to_f32 CTRL_PERIOD_MS) (flit (1 / 1000))"
definition A_CMD_MAX :: f32 where "A_CMD_MAX = flit 4"
definition WHEEL_RADIUS :: f32 where "WHEEL_RADIUS = flit (325 / 10000)"
definition ENC_SPEED_TO_MPS :: f32 where "ENC_SPEED_TO_MPS = WHEEL_RADIUS"
definition FF_SPEED_SLOPE :: f32 where "FF_SPEED_SLOPE = flit (7494 / 100)"
definition FF_DEADZONE :: f32 where "FF_DEADZONE = flit 15"
definition U_EPS :: f32 where "U_EPS = flit (1 / 100)"
definition VEH_MASS :: f32 where "VEH_MASS = flit 3"
definition GEAR_RATIO :: f32 where "GEAR_RATIO = flit 31"
definition KT_MOTOR :: f32 where "KT_MOTOR = flit (12 / 1000)"
definition KE_MOTOR :: f32 where "KE_MOTOR = flit (12 / 1000)"
definition R_MOTOR :: f32 where "R_MOTOR = flit (14 / 10)"
definition V_BATT :: f32 where "V_BATT = flit 11"
definition CRR :: f32 where "CRR = flit (15 / 1000)"
definition GRAVITY :: f32 where "GRAVITY = flit (981 / 100)"
definition F_ROLL :: f32 where "F_ROLL = fmul (fmul CRR VEH_MASS) GRAVITY"
definition RHO_CDA :: f32 where "RHO_CDA = flit 0"
definition V_MAX :: f32 where "V_MAX = flit (11 / 10)"
definition DUTY_MAX :: f32 where "DUTY_MAX = flit 1"
definition DUTY_MIN :: f32 where "DUTY_MIN = flit (- 1)"
definition BRAKE_TH :: f32 where "BRAKE_TH = flit (3 / 10)"
definition MODE_HYST :: f32 where "MODE_HYST = flit (5 / 100)"
definition V_BRAKE_MIN :: f32 where "V_BRAKE_MIN = flit (5 / 100)"
definition PWM_DUTY_FULL :: f32 where "PWM_DUTY_FULL = flit 100"
definition Kp :: f32 where "Kp = flit (5 / 10)"
definition Ki :: f32 where "Ki = flit 2"
definition Kaw :: f32 where "Kaw = flit 10"

lemmas mode_consts [consts_simps] = MODE_MANUAL_def MODE_ACC_def MODE_AEB_def DIR_STOP_def DIR_FWD_def DIR_REV_def
  CHA_FWD_BIT_def CHB_FWD_BIT_def

section \<open>The encoder (gpt12_enc.c)\<close>

definition gpt12Config :: enc_config where
  "gpt12Config = \<lparr>enc_offset = 0, enc_reversed = False, enc_resolution = 330, resolutionFactor = 4,
     updatePeriod = flit (5 / 1000), speedModeThreshold = flit 200, minSpeed = flit 10, maxSpeed = flit 500,
     zeroIsrPriority = 0, pinZ = None, pinA = ''T3INB_P10_4'', pinB = ''T3EUDB_P10_7'', noPull = True,
     initPins = True\<rparr>"

definition Gpt12_Enc_Init :: "rtrace \<Rightarrow> rtrace" where
  "Gpt12_Enc_Init w =
     (let w = Call ''IfxGpt12_enableModule'' [] # w;
          w = Call ''IfxGpt12_setGpt1BlockPrescaler'' [8] # w;
          w = Call ''IfxGpt12_setGpt2BlockPrescaler'' [4] # w
      in EncInit gpt12Config # w)"

definition Gpt12_Enc_Update :: "rtrace \<Rightarrow> rtrace" where
  "Gpt12_Enc_Update w = EncUpdate # w"

definition Gpt12_Enc_GetSpeed :: "rear_hw \<Rightarrow> rtrace \<Rightarrow> f32" where
  "Gpt12_Enc_GetSpeed E w = enc_speed E w"

definition Gpt12_Enc_GetPosition :: "rear_hw \<Rightarrow> rtrace \<Rightarrow> s32" where
  "Gpt12_Enc_GetPosition E w = drv E w ''IfxGpt12_IncrEnc_getRawPosition''"

definition Gpt12_Enc_GetDirection :: "rear_hw \<Rightarrow> rtrace \<Rightarrow> u32" where
  "Gpt12_Enc_GetDirection E w = drv E w ''IfxGpt12_IncrEnc_getDirection''"

section \<open>Feed-forward and limits\<close>

definition inverse_model :: "f32 \<Rightarrow> f32 \<Rightarrow> f32" where
  "inverse_model a_cmd v_ref =
     (let u_speed = fdiv (fmul FF_SPEED_SLOPE v_ref) (flit 100);
          F = fadd (fmul VEH_MASS a_cmd) (fmul (fmul RHO_CDA v_ref) v_ref);
          T_motor = fdiv (fmul F WHEEL_RADIUS) GEAR_RATIO;
          i = fdiv T_motor KT_MOTOR;
          u_accel = fdiv (fmul i R_MOTOR) V_BATT
      in fadd u_speed u_accel)"

definition clampf :: "f32 \<Rightarrow> f32 \<Rightarrow> f32 \<Rightarrow> f32" where
  "clampf x lo hi = (if flt x lo then lo else if flt hi x then hi else x)"

definition manual_speed_to_duty :: "f32 \<Rightarrow> f32" where
  "manual_speed_to_duty v_cmd =
     (let v_cmd = clampf v_cmd (flit 0) V_MAX;
          u = fdiv (fmul FF_SPEED_SLOPE v_cmd) (flit 100)
      in clampf u (flit 0) DUTY_MAX)"

text \<open>Dead-zone compensation and the duty cycle in per cent.\<close>

definition duty_percent :: "f32 \<Rightarrow> int option" where
  "duty_percent u =
     (let u_comp = (if flt U_EPS u then fadd u (fdiv FF_DEADZONE (flit 100)) else u)
      in f32_to_int (fmul (clampf u_comp (flit 0) (flit 1)) PWM_DUTY_FULL))"

definition drive_pwm :: "int \<Rightarrow> u8 \<Rightarrow> pwm_state \<times> rtrace \<Rightarrow> pwm_state \<times> rtrace" where
  "drive_pwm duty fwd m =
     (let cha = (if fwd \<noteq> 0 then CHA_FWD_BIT else 1 - CHA_FWD_BIT);
          chb = (if fwd \<noteq> 0 then CHB_FWD_BIT else 1 - CHB_FWD_BIT)
      in Motor_movChB_PWM duty chb (Motor_movChA_PWM duty cha m))"

definition coast_both :: "pwm_state \<times> rtrace \<Rightarrow> pwm_state \<times> rtrace" where
  "coast_both m = Motor_coastChB (Motor_coastChA m)"

definition brake_both :: "pwm_state \<times> rtrace \<Rightarrow> pwm_state \<times> rtrace" where
  "brake_both m = Motor_brakeChB 100 (Motor_brakeChA 100 m)"

section \<open>The controller\<close>

record cpu1_state =
  s_v_ref :: f32
  s_I_term :: f32
  s_brake_mode :: u8
  s_prev_mode :: u8

definition cpu1_state_0 :: cpu1_state where
  "cpu1_state_0 = \<lparr>s_v_ref = Fin 0, s_I_term = Fin 0, s_brake_mode = 0, s_prev_mode = MODE_ACC\<rparr>"

type_synonym motors = "pwm_state \<times> rtrace"

definition brake_hysteresis :: "f32 \<Rightarrow> cpu1_state \<Rightarrow> cpu1_state" where
  "brake_hysteresis mag c =
     (if flt (fadd BRAKE_TH MODE_HYST) mag then c\<lparr>s_brake_mode := 1\<rparr>
      else if flt mag (fsub BRAKE_TH MODE_HYST) then c\<lparr>s_brake_mode := 0\<rparr> else c)"

definition apply_output :: "f32 \<Rightarrow> f32 \<Rightarrow> cpu1_state \<Rightarrow> motors \<Rightarrow> (cpu1_state \<times> motors) option" where
  "apply_output u v_meas c m =
     (if fle (flit 0) u then map_option (\<lambda>duty. (c, drive_pwm duty 1 m)) (duty_percent u)
      else (let mag = fneg u in
        if flt v_meas V_BRAKE_MIN then Some (c, coast_both m)
        else (let c = brake_hysteresis mag c in
          Some (c, if s_brake_mode c = 1 then brake_both m else coast_both m))))"

definition acc_reset_state :: "cpu1_state \<Rightarrow> cpu1_state" where
  "acc_reset_state c = c\<lparr>s_v_ref := flit 0, s_I_term := flit 0\<rparr>"

text \<open>The three branches of the control loop: emergency, MANUAL, ACC. Each returns what it
  hands to \<open>Cpu1_WriteTelem\<close>.\<close>

definition telem :: "f32 \<Rightarrow> f32 \<Rightarrow> f32 \<Rightarrow> f32 \<Rightarrow> f32 \<Rightarrow> TelemFrame" where
  "telem v_ref v_meas u a_cmd i_term =
     \<lparr>t_v_ref = v_ref, t_v_meas = v_meas, t_u = u, t_a_cmd = a_cmd, t_i_term = i_term\<rparr>"

definition emergency_branch :: "DriveCmd \<Rightarrow> f32 \<Rightarrow> cpu1_state \<Rightarrow> motors \<Rightarrow> cpu1_state \<times> motors \<times> TelemFrame" where
  "emergency_branch cmd v_meas c m =
     (let c = (acc_reset_state c)\<lparr>s_brake_mode := 1\<rparr>;
          m = brake_both m;
          c = c\<lparr>s_prev_mode := control_mode cmd\<rparr>
      in (c, m, telem (flit 0) v_meas (flit 0) (flit 0) (flit 0)))"

definition manual_branch ::
    "DriveCmd \<Rightarrow> f32 \<Rightarrow> cpu1_state \<Rightarrow> motors \<Rightarrow> (cpu1_state \<times> motors \<times> TelemFrame) option" where
  "manual_branch cmd v_meas c m =
     (let c = (if s_prev_mode c \<noteq> MODE_MANUAL then acc_reset_state c else c);
          c = c\<lparr>s_prev_mode := MODE_MANUAL\<rparr>;
          v_cmd = (if is_fin (target_speed cmd) then target_speed cmd else flit 0)
      in if drive_direction cmd = DIR_STOP
         then Some (c, coast_both m, telem (flit 0) v_meas (flit 0) (flit 0) (flit 0))
         else (let u = manual_speed_to_duty v_cmd in do {
           duty \<leftarrow> duty_percent u;
           let fwd = (if drive_direction cmd = DIR_REV then 0 else 1);
           let m = drive_pwm duty fwd m;
           let v_show = (if drive_direction cmd = DIR_REV then fneg (clampf v_cmd (flit 0) V_MAX)
                         else clampf v_cmd (flit 0) V_MAX);
           Some (c, m, telem v_show v_meas u (flit 0) (flit 0)) }))"

text \<open>The reference speed follows the acceleration command.\<close>

definition acc_a_cmd :: "DriveCmd \<Rightarrow> f32" where
  "acc_a_cmd cmd =
     (let a_cmd = (if is_fin (accel_cmd cmd) then accel_cmd cmd else flit 0)
      in clampf a_cmd (fneg A_CMD_MAX) A_CMD_MAX)"

definition next_v_ref :: "f32 \<Rightarrow> f32 \<Rightarrow> f32" where
  "next_v_ref a_cmd v_ref = clampf (fadd v_ref (fmul a_cmd DT)) (flit 0) V_MAX"

definition acc_u_unsat :: "f32 \<Rightarrow> f32 \<Rightarrow> f32 \<Rightarrow> f32 \<Rightarrow> f32" where
  "acc_u_unsat a_cmd v_ref e i_term = fadd (fadd (inverse_model a_cmd v_ref) (fmul Kp e)) i_term"

text \<open>Integration with back-calculation of the saturated part.\<close>

definition next_I_term :: "f32 \<Rightarrow> f32 \<Rightarrow> f32 \<Rightarrow> f32 \<Rightarrow> f32 \<Rightarrow> f32" where
  "next_I_term v_ref e u u_unsat i_term =
     (if fle v_ref (flit 0) then flit 0
      else fadd i_term (fmul (fadd (fmul Ki e) (fmul Kaw (fsub u u_unsat))) DT))"

definition acc_branch ::
    "DriveCmd \<Rightarrow> f32 \<Rightarrow> cpu1_state \<Rightarrow> motors \<Rightarrow> (cpu1_state \<times> motors \<times> TelemFrame) option" where
  "acc_branch cmd v_meas c m =
     (let c = (if s_prev_mode c \<noteq> MODE_ACC then acc_reset_state c else c);
          c = c\<lparr>s_prev_mode := MODE_ACC\<rparr>;
          a_cmd = acc_a_cmd cmd;
          c = c\<lparr>s_v_ref := next_v_ref a_cmd (s_v_ref c)\<rparr>;
          e = fsub (s_v_ref c) v_meas;
          u_unsat = acc_u_unsat a_cmd (s_v_ref c) e (s_I_term c);
          u = clampf u_unsat DUTY_MIN DUTY_MAX;
          c = c\<lparr>s_I_term := next_I_term (s_v_ref c) e u u_unsat (s_I_term c)\<rparr>
      in do {
        (c, m) \<leftarrow> apply_output u v_meas c m;
        Some (c, m, telem (s_v_ref c) v_meas u a_cmd (s_I_term c)) })"

definition measured_speed :: "rear_hw \<Rightarrow> rtrace \<Rightarrow> f32" where
  "measured_speed E w =
     (let v_meas = fmul (Gpt12_Enc_GetSpeed E w) ENC_SPEED_TO_MPS in if is_fin v_meas then v_meas else flit 0)"

definition control_step ::
    "DriveCmd \<Rightarrow> f32 \<Rightarrow> cpu1_state \<Rightarrow> motors \<Rightarrow> (cpu1_state \<times> motors \<times> TelemFrame) option" where
  "control_step cmd v_meas c m =
     (if control_mode cmd = MODE_AEB \<or> emergency_stop cmd \<noteq> 0 then Some (emergency_branch cmd v_meas c m)
      else if control_mode cmd = MODE_MANUAL then manual_branch cmd v_meas c m
      else acc_branch cmd v_meas c m)"

definition Cpu1_ControlLoop ::
    "rear_hw \<Rightarrow> cpu1_state \<Rightarrow> motors \<Rightarrow> lmu \<Rightarrow> (cpu1_state \<times> motors \<times> lmu) option" where
  "Cpu1_ControlLoop E c m mem = do {
     let m = (fst m, Gpt12_Enc_Update (snd m));
     let v_meas = measured_speed E (snd m);
     mem \<leftarrow> Cpu1_WriteSpeed v_meas mem;
     cmd \<leftarrow> Cpu1_ReadDriveCmd mem;
     (c, m, t) \<leftarrow> control_step cmd v_meas c m;
     mem \<leftarrow> Cpu1_WriteTelem (t_v_ref t) (t_v_meas t) (t_u t) (t_a_cmd t) (t_i_term t) mem;
     Some (c, m, mem) }"

section \<open>Timer interrupt and main (with two settings of Configurations/)\<close>

definition ISR_PRIORITY_OS_TICK :: u32 where "ISR_PRIORITY_OS_TICK = 99"
definition IFX_CFG_STM_TICKS_PER_MS :: u32 where "IFX_CFG_STM_TICKS_PER_MS = 100000"

definition initStmForCpu1 :: "rtrace \<Rightarrow> rtrace" where
  "initStmForCpu1 w =
     Call ''IfxStm_initCompare(STM1)'' [ISR_PRIORITY_OS_TICK, 0, IFX_CFG_STM_TICKS_PER_MS * CTRL_PERIOD_MS, 1] # w"

definition cpu1_ctrl_ISR ::
    "rear_hw \<Rightarrow> cpu1_state \<Rightarrow> motors \<Rightarrow> lmu \<Rightarrow> (cpu1_state \<times> motors \<times> lmu) option" where
  "cpu1_ctrl_ISR E c m mem =
     Cpu1_ControlLoop E c (fst m, Call ''IfxStm_increaseCompare(STM1)'' [0, IFX_CFG_STM_TICKS_PER_MS * CTRL_PERIOD_MS] # snd m) mem"

definition core1_main :: "rear_hw \<Rightarrow> motors \<Rightarrow> motors" where
  "core1_main E m =
     (let m = (fst m, Call ''IfxCpu_enableInterrupts'' [] # snd m);
          m = (fst m, Call ''IfxScuWdt_disableCpuWatchdog'' [] # snd m);
          m = (fst m, Gpt12_Enc_Init (snd m));
          m = Motor_Init E m;
          m = (fst m, Call ''IfxCpu_emitEvent'' [] # snd m);
          m = (fst m, Call ''IfxCpu_waitEvent'' [1] # snd m)
      in (fst m, initStmForCpu1 (snd m)))"

end
