(* ===== verification/RearControl_Facts.thy ===== *)
theory RearControl_Facts
  imports RearControl
begin

text \<open>
  Facts about the controller of CPU1: what its output stage may do to the bridges, the range of
  its state, and that it always comes to a result.
\<close>

lemma pair_snd_iff: "(\<exists>a b. p = (a, b) \<and> Q b) \<longleftrightarrow> Q (snd p)"
  by (cases p) simp

section \<open>Limits\<close>

lemma mk32_not_NaN [simp]: "mk32 s r \<noteq> NaN"
  by (simp add: mk32_def Let_def)

lemma clampf_range:
  assumes "x \<noteq> NaN" "is_fin lo" "is_fin hi" "fval lo \<le> fval hi"
  shows "is_fin (clampf x lo hi)" "fval lo \<le> fval (clampf x lo hi)" "fval (clampf x lo hi) \<le> fval hi"
proof -
  have "is_fin (clampf x lo hi) \<and> fval lo \<le> fval (clampf x lo hi) \<and> fval (clampf x lo hi) \<le> fval hi"
  proof (cases "is_fin x")
    case True
    then show ?thesis using assms by (auto simp: clampf_def flt_fin)
  next
    case False
    then obtain s where "x = Inf s" using assms(1) by (cases x) auto
    then show ?thesis using assms
      by (cases lo; cases hi) (auto simp: clampf_def flt_def)
  qed
  then show "is_fin (clampf x lo hi)" "fval lo \<le> fval (clampf x lo hi)" "fval (clampf x lo hi) \<le> fval hi" by auto
qed

lemma clampf_not_NaN: "x \<noteq> NaN \<Longrightarrow> lo \<noteq> NaN \<Longrightarrow> hi \<noteq> NaN \<Longrightarrow> clampf x lo hi \<noteq> NaN"
  by (auto simp: clampf_def)

lemma fadd_not_NaN: "is_fin a \<Longrightarrow> is_fin b \<Longrightarrow> fadd a b \<noteq> NaN"
  by (simp add: fadd_fin)

lemma fadd_fin_not_NaN: "a \<noteq> NaN \<Longrightarrow> is_fin b \<Longrightarrow> fadd a b \<noteq> NaN"
  by (cases a; cases b) (auto simp: fadd_def)

lemma fmul_not_NaN: "is_fin a \<Longrightarrow> is_fin b \<Longrightarrow> fmul a b \<noteq> NaN"
  by (simp add: fmul_fin)

lemma fdiv_not_NaN: "a \<noteq> NaN \<Longrightarrow> is_fin b \<Longrightarrow> fval b \<noteq> 0 \<Longrightarrow> fdiv a b \<noteq> NaN"
  by (cases a; cases b) (auto simp: fdiv_def Let_def)

lemma flit_simps [simp]: "flit 0 = Fin 0" "flit 1 = Fin 1" "flit (- 1) = Fin (- 1)" "flit 100 = Fin 100"
  "flit 2 = Fin 2" "flit 10 = Fin 10" "flit 4 = Fin 4" "flit 3 = Fin 3" "flit 31 = Fin 31" "flit 11 = Fin 11"
  by (auto intro!: flit_representable representable_minus)

lemma V_MAX_val: "V_MAX = Fin (9227469 / 8388608)"
  by (simp add: V_MAX_def flit_def f32_eval)

lemma consts_fin: "is_fin FF_SPEED_SLOPE" "is_fin FF_DEADZONE" "is_fin U_EPS" "is_fin PWM_DUTY_FULL" "is_fin DT"
  "is_fin BRAKE_TH" "is_fin MODE_HYST" "is_fin V_BRAKE_MIN" "is_fin V_MAX"
  by (simp_all add: FF_SPEED_SLOPE_def FF_DEADZONE_def U_EPS_def PWM_DUTY_FULL_def DT_def BRAKE_TH_def MODE_HYST_def
      V_BRAKE_MIN_def V_MAX_def CTRL_PERIOD_MS_def u32_to_f32_def fmul_def flit_def f32_eval)

section \<open>The duty cycle\<close>

lemma rnd32_100: "x \<le> 100 \<Longrightarrow> rnd32 x \<le> 100"
  by (rule r32.rnd_le) simp_all

lemma duty_percent_range:
  assumes "x \<noteq> NaN"
  shows "\<exists>d. duty_percent x = Some d \<and> 0 \<le> d \<and> d \<le> 100"
proof -
  define y where "y = (if flt U_EPS x then fadd x (fdiv FF_DEADZONE (flit 100)) else x)"
  have "is_fin (fdiv FF_DEADZONE (flit 100))"
    by (simp add: FF_DEADZONE_def fdiv_def flit_def f32_eval)
  then have "y \<noteq> NaN" using assms by (auto simp: y_def fadd_fin_not_NaN)
  then have c: "is_fin (clampf y (flit 0) (flit 1))" "0 \<le> fval (clampf y (flit 0) (flit 1))"
    "fval (clampf y (flit 0) (flit 1)) \<le> 1" using clampf_range [of y "Fin 0" "Fin 1"] by simp_all
  let ?c = "clampf y (flit 0) (flit 1)"
  have b: "\<bar>fval ?c * 100\<bar> \<le> 100" using c by (simp add: abs_mult)
  have m: "fmul ?c PWM_DUTY_FULL = mk32 (is_neg ?c \<noteq> is_neg (Fin 100)) (fval ?c * 100)"
    using c by (simp add: PWM_DUTY_FULL_def fmul_fin)
  have r: "is_fin (fmul ?c PWM_DUTY_FULL)" "fval (fmul ?c PWM_DUTY_FULL) = rnd32 (fval ?c * 100)"
    unfolding m using mk32_bounded [OF b] by simp_all
  have v: "0 \<le> fval (fmul ?c PWM_DUTY_FULL)" "fval (fmul ?c PWM_DUTY_FULL) \<le> 100"
    unfolding r(2) using c by (auto intro!: rnd32_nonneg rnd32_100)
  then have "0 \<le> \<lfloor>fval (fmul ?c PWM_DUTY_FULL)\<rfloor>" "\<lfloor>fval (fmul ?c PWM_DUTY_FULL)\<rfloor> \<le> 100"
    by (simp_all add: floor_le_iff)
  then show ?thesis using r v
    by (simp add: duty_percent_def y_def [symmetric] Let_def f32_to_int_def trunc_def)
qed

lemma manual_duty_not_NaN: "v \<noteq> NaN \<Longrightarrow> manual_speed_to_duty v \<noteq> NaN"
proof -
  assume "v \<noteq> NaN"
  then have "is_fin (clampf v (flit 0) V_MAX)" using clampf_range(1) [of v "Fin 0" V_MAX] by (simp add: V_MAX_val)
  then show ?thesis unfolding manual_speed_to_duty_def Let_def
    by (intro clampf_not_NaN fdiv_not_NaN fmul_not_NaN) (simp_all add: consts_fin DUTY_MAX_def)
qed

section \<open>What a step leaves on the bridges\<close>

text \<open>Both bridges carry the same level of at most 1000 and the same brake bit; while they drive,
  their direction bits are opposite (the motors are mounted mirrored).\<close>

definition bridges_safe :: "rtrace \<Rightarrow> bool" where
  "bridges_safe w \<longleftrightarrow> level (bridge_a w) = level (bridge_b w) \<and> brake (bridge_a w) = brake (bridge_b w) \<and>
     (\<exists>l. level (bridge_a w) = Some l \<and> l \<le> 1000 \<and>
       (brake (bridge_a w) = 0 \<and> l \<noteq> 0 \<longrightarrow> {forward (bridge_a w), forward (bridge_b w)} = {0, 1}))"

text \<open>The three things the output stage can do.\<close>

definition braking :: "rtrace \<Rightarrow> bool" where
  "braking w \<longleftrightarrow> level (bridge_a w) = Some 1000 \<and> brake (bridge_a w) = 1 \<and>
     level (bridge_b w) = Some 1000 \<and> brake (bridge_b w) = 1"

definition coasting :: "rtrace \<Rightarrow> bool" where
  "coasting w \<longleftrightarrow> level (bridge_a w) = Some 0 \<and> brake (bridge_a w) = 0 \<and>
     level (bridge_b w) = Some 0 \<and> brake (bridge_b w) = 0"

definition driving :: "int \<Rightarrow> bool \<Rightarrow> rtrace \<Rightarrow> bool" where
  "driving d fwd w \<longleftrightarrow>
     bridge_a w = \<lparr>level = Some (of_int (d * 10)), forward = (if fwd then 1 else 0), brake = 0\<rparr> \<and>
     bridge_b w = \<lparr>level = Some (of_int (d * 10)), forward = (if fwd then 0 else 1), brake = 0\<rparr>"

lemma brake_both_braking: "braking (snd (brake_both m))"
  by (simp add: brake_both_def braking_def)

lemma coast_both_coasting: "coasting (snd (coast_both m))"
  by (simp add: coast_both_def coasting_def)

lemma drive_pwm_driving: "driving d (fwd \<noteq> 0) (snd (drive_pwm d fwd m))"
  by (simp add: drive_pwm_def driving_def dir_bit_def consts_simps Let_def)

lemma level_le: "0 \<le> d \<Longrightarrow> d \<le> 100 \<Longrightarrow> (of_int (d * 10) :: u32) \<le> 1000"
proof -
  assume d: "0 \<le> d" "d \<le> 100"
  then have "nat (d * 10) \<le> 1000" by simp
  then have "unat (of_nat (nat (d * 10)) :: u32) \<le> 1000" by (subst unat_of_nat_u32) simp_all
  moreover have "(of_int (d * 10) :: u32) = of_nat (nat (d * 10))" using d by (simp only: of_nat_nat)
  ultimately show ?thesis by (simp only: word_le_nat_alt) simp
qed

lemma braking_safe: "braking w \<Longrightarrow> bridges_safe w"
  by (simp add: braking_def bridges_safe_def)

lemma coasting_safe: "coasting w \<Longrightarrow> bridges_safe w"
  by (simp add: coasting_def bridges_safe_def)

lemma driving_safe: "driving d fwd w \<Longrightarrow> 0 \<le> d \<Longrightarrow> d \<le> 100 \<Longrightarrow> bridges_safe w"
  using level_le [of d] by (auto simp: driving_def bridges_safe_def)

lemmas bridges_safeI = braking_safe [OF brake_both_braking] coasting_safe [OF coast_both_coasting]
  driving_safe [OF drive_pwm_driving]

section \<open>The state of the controller\<close>

definition cpu1_inv :: "cpu1_state \<Rightarrow> bool" where
  "cpu1_inv c \<longleftrightarrow> is_fin (s_v_ref c) \<and> 0 \<le> fval (s_v_ref c) \<and> fval (s_v_ref c) \<le> fval V_MAX \<and> s_brake_mode c \<le> 1"

lemma cpu1_inv_0: "cpu1_inv cpu1_state_0"
  by (simp add: cpu1_inv_def cpu1_state_0_def V_MAX_val)

lemma acc_reset_inv: "cpu1_inv c \<Longrightarrow> cpu1_inv (acc_reset_state c)"
  by (simp add: cpu1_inv_def acc_reset_state_def V_MAX_val)

lemma a_cmd_range: "is_fin (acc_a_cmd cmd)" "\<bar>fval (acc_a_cmd cmd)\<bar> \<le> 4"
proof -
  have "is_fin (acc_a_cmd cmd) \<and> -4 \<le> fval (acc_a_cmd cmd) \<and> fval (acc_a_cmd cmd) \<le> 4"
    using clampf_range [of "if is_fin (accel_cmd cmd) then accel_cmd cmd else flit 0" "Fin (- 4)" "Fin 4"]
    by (cases "accel_cmd cmd") (simp_all add: acc_a_cmd_def A_CMD_MAX_def)
  then show "is_fin (acc_a_cmd cmd)" "\<bar>fval (acc_a_cmd cmd)\<bar> \<le> 4" by auto
qed

lemma next_v_ref_range:
  assumes "is_fin a" "is_fin v"
  shows "is_fin (next_v_ref a v)" "0 \<le> fval (next_v_ref a v)" "fval (next_v_ref a v) \<le> fval V_MAX"
proof -
  have "fadd v (fmul a DT) \<noteq> NaN"
    using assms fadd_fin_not_NaN [of "fmul a DT" v] fmul_not_NaN [of a DT] consts_fin(5)
    by (cases "fmul a DT"; cases v) (auto simp: fadd_def)
  then show "is_fin (next_v_ref a v)" "0 \<le> fval (next_v_ref a v)" "fval (next_v_ref a v) \<le> fval V_MAX"
    using clampf_range [of "fadd v (fmul a DT)" "Fin 0" V_MAX] by (simp_all add: next_v_ref_def V_MAX_val)
qed

lemma hysteresis_inv: "s_brake_mode c \<le> 1 \<Longrightarrow> s_brake_mode (brake_hysteresis x c) \<le> 1"
  "s_v_ref (brake_hysteresis x c) = s_v_ref c" "s_I_term (brake_hysteresis x c) = s_I_term c"
  "s_prev_mode (brake_hysteresis x c) = s_prev_mode c"
  by (simp_all add: brake_hysteresis_def)

text \<open>The output stage never gets stuck, and leaves the rest of the state alone.\<close>

lemma apply_output_ok:
  "\<exists>c' m'. apply_output u v c m = Some (c', m') \<and> bridges_safe (snd m') \<and> s_v_ref c' = s_v_ref c \<and>
     s_I_term c' = s_I_term c \<and> s_prev_mode c' = s_prev_mode c \<and> (s_brake_mode c \<le> 1 \<longrightarrow> s_brake_mode c' \<le> 1)"
proof (cases "fle (flit 0) u")
  case True
  then have "u \<noteq> NaN" by auto
  from duty_percent_range [OF this] obtain d where d: "duty_percent u = Some d" "0 \<le> d" "d \<le> 100" by blast
  with True show ?thesis by (auto simp: apply_output_def intro: bridges_safeI)
next
  case False
  then show ?thesis
    by (auto simp: apply_output_def Let_def hysteresis_inv pair_snd_iff intro: bridges_safeI)
qed

lemma control_step_ok:
  assumes "cpu1_inv c"
  shows "\<exists>c' m' t. control_step cmd v c m = Some (c', m', t) \<and> cpu1_inv c' \<and> bridges_safe (snd m')"
proof -
  consider "control_mode cmd = MODE_AEB \<or> emergency_stop cmd \<noteq> 0"
    | "\<not> (control_mode cmd = MODE_AEB \<or> emergency_stop cmd \<noteq> 0)" "control_mode cmd = MODE_MANUAL"
    | "\<not> (control_mode cmd = MODE_AEB \<or> emergency_stop cmd \<noteq> 0)" "control_mode cmd \<noteq> MODE_MANUAL" by blast
  then show ?thesis
  proof cases
    case 1
    then show ?thesis using acc_reset_inv [OF assms]
      by (auto simp: control_step_def emergency_branch_def cpu1_inv_def Let_def intro: bridges_safeI)
  next
    case 2
    have "(if is_fin (target_speed cmd) then target_speed cmd else flit 0) \<noteq> NaN" by (auto simp: split: if_splits)
    from duty_percent_range [OF manual_duty_not_NaN [OF this]]
    obtain d where d: "duty_percent (manual_speed_to_duty (if is_fin (target_speed cmd) then target_speed cmd else flit 0)) = Some d"
      "0 \<le> d" "d \<le> 100" by blast
    have "cpu1_inv (x\<lparr>s_prev_mode := MODE_MANUAL\<rparr>)" if "cpu1_inv x" for x
      using that by (simp add: cpu1_inv_def)
    then show ?thesis using 2 d acc_reset_inv [OF assms] assms
      by (auto simp: control_step_def manual_branch_def Let_def pair_snd_iff intro: bridges_safeI)
  next
    case 3
    define c1 where "c1 = (if s_prev_mode c \<noteq> MODE_ACC then acc_reset_state c else c)\<lparr>s_prev_mode := MODE_ACC\<rparr>"
    define c2 where "c2 = c1\<lparr>s_v_ref := next_v_ref (acc_a_cmd cmd) (s_v_ref c1)\<rparr>"
    have "cpu1_inv c1" using assms acc_reset_inv [OF assms] by (simp add: c1_def cpu1_inv_def)
    then have c2: "cpu1_inv c2" using next_v_ref_range [OF a_cmd_range(1), of "s_v_ref c1" cmd]
      by (simp add: c2_def cpu1_inv_def)
    define e where "e = fsub (s_v_ref c2) v"
    define uu where "uu = acc_u_unsat (acc_a_cmd cmd) (s_v_ref c2) e (s_I_term c2)"
    define u where "u = clampf uu DUTY_MIN DUTY_MAX"
    define c3 where "c3 = c2\<lparr>s_I_term := next_I_term (s_v_ref c2) e u uu (s_I_term c2)\<rparr>"
    obtain c4 m4 where o: "apply_output u v c3 m = Some (c4, m4)" "bridges_safe (snd m4)" "s_v_ref c4 = s_v_ref c3"
      "s_brake_mode c3 \<le> 1 \<longrightarrow> s_brake_mode c4 \<le> 1" using apply_output_ok [of u v c3 m] by blast
    have "acc_branch cmd v c m = Some (c4, m4, telem (s_v_ref c4) v u (acc_a_cmd cmd) (s_I_term c4))"
      unfolding acc_branch_def Let_def c1_def [symmetric] c2_def [symmetric] e_def [symmetric] uu_def [symmetric]
        u_def [symmetric] c3_def [symmetric] using o by simp
    moreover have "cpu1_inv c4" using c2 o by (simp add: cpu1_inv_def c3_def)
    ultimately show ?thesis using 3 o by (auto simp: control_step_def)
  qed
qed

end
