(* ===== verification/RearAcc_Facts.thy ===== *)
theory RearAcc_Facts
  imports RearControl_Facts
begin

text \<open>
  Rounding-error bounds for the ACC branch: how far one step can move the reference speed, and
  that the integrator stays bounded because the saturated part is fed back.
\<close>

section \<open>Approximation\<close>

definition near :: "f32 \<Rightarrow> real \<Rightarrow> real \<Rightarrow> bool" where
  "near x r d \<longleftrightarrow> is_fin x \<and> \<bar>fval x - r\<bar> \<le> d"

text \<open>A rounded result whose exact value is at most b is off by \<open>b / 2\<^sup>2\<^sup>4\<close> at most.\<close>

lemma near_mk32:
  assumes "\<bar>x - r\<bar> \<le> d" "\<bar>x\<bar> \<le> b" "1 / 2 ^ 126 \<le> b" "b \<le> 2 ^ 100"
  shows "near (mk32 s x) r (d + b / 2 ^ 24)"
proof -
  have e: "\<bar>rnd32 x - x\<bar> \<le> b / 2 ^ 24" using assms by (intro rnd32_error_le)
  have "\<bar>rnd32 x\<bar> \<le> b + b / 2 ^ 24" using e assms(2) by linarith
  also have "\<dots> \<le> 2 ^ 100 + 2 ^ 100" using assms(4) by (intro add_mono) auto
  also have "\<dots> < 2 ^ 128" by simp
  finally have f: "is_fin (mk32 s x)" "fval (mk32 s x) = rnd32 x" by (rule mk32_fin)+
  have "\<bar>rnd32 x - r\<bar> \<le> d + b / 2 ^ 24" using e assms(1) by linarith
  with f show ?thesis by (simp add: near_def)
qed

lemma near_fadd:
  assumes "near x r d" "near y s e" "\<bar>fval x + fval y\<bar> \<le> b" "1 / 2 ^ 126 \<le> b" "b \<le> 2 ^ 100"
  shows "near (fadd x y) (r + s) (d + e + b / 2 ^ 24)"
proof -
  have "\<bar>fval x + fval y - (r + s)\<bar> \<le> d + e" using assms(1,2) by (auto simp: near_def)
  then show ?thesis using assms near_mk32 [of "fval x + fval y" "r + s" "d + e" b]
    by (simp add: near_def fadd_fin)
qed

lemma near_fsub:
  assumes "near x r d" "near y s e" "\<bar>fval x - fval y\<bar> \<le> b" "1 / 2 ^ 126 \<le> b" "b \<le> 2 ^ 100"
  shows "near (fsub x y) (r - s) (d + e + b / 2 ^ 24)"
proof -
  have "near (fneg y) (- s) e" using assms(2) by (auto simp: near_def)
  from near_fadd [OF assms(1) this] assms(3-5) show ?thesis by (simp add: fsub_def)
qed

lemma near_scale:
  assumes "near x r d" "\<bar>k * fval x\<bar> \<le> b" "1 / 2 ^ 126 \<le> b" "b \<le> 2 ^ 100"
  shows "near (fmul (Fin k) x) (k * r) (\<bar>k\<bar> * d + b / 2 ^ 24)"
    and "near (fmul x (Fin k)) (r * k) (\<bar>k\<bar> * d + b / 2 ^ 24)"
proof -
  have "k * fval x - k * r = k * (fval x - r)" by (simp add: algebra_simps)
  then have e: "\<bar>k * fval x - k * r\<bar> \<le> \<bar>k\<bar> * d"
    using assms(1) by (simp add: near_def abs_mult mult_left_mono)
  show "near (fmul (Fin k) x) (k * r) (\<bar>k\<bar> * d + b / 2 ^ 24)"
    using assms near_mk32 [OF e] by (simp add: near_def fmul_fin)
  show "near (fmul x (Fin k)) (r * k) (\<bar>k\<bar> * d + b / 2 ^ 24)"
    using assms near_mk32 [OF e] by (simp add: near_def fmul_fin mult.commute)
qed

lemma near_exact: "is_fin x \<Longrightarrow> near x (fval x) 0"
  by (simp add: near_def)

lemma near_weaken: "near x r d \<Longrightarrow> d \<le> e \<Longrightarrow> near x r e"
  by (simp add: near_def)

lemma near_abs: "near x r d \<Longrightarrow> \<bar>r\<bar> + d \<le> b \<Longrightarrow> \<bar>fval x\<bar> \<le> b"
  unfolding near_def by linarith

text \<open>Bounds that survive rounding exactly.\<close>

definition bnd :: "f32 \<Rightarrow> real \<Rightarrow> bool" where
  "bnd x b \<longleftrightarrow> is_fin x \<and> \<bar>fval x\<bar> \<le> b"

lemma bnd_mk32: "\<bar>r\<bar> \<le> b \<Longrightarrow> representable b \<Longrightarrow> b < 2 ^ 128 \<Longrightarrow> bnd (mk32 s r) b"
  using mk32_bounded [of r b s] by (simp add: bnd_def)

lemma bnd_fadd:
  assumes "bnd x a" "bnd y b" "representable (a + b)" "a + b < 2 ^ 128"
  shows "bnd (fadd x y) (a + b)"
proof -
  have "\<bar>fval x + fval y\<bar> \<le> a + b" using assms by (auto simp: bnd_def)
  then show ?thesis using assms bnd_mk32 by (simp add: bnd_def fadd_fin)
qed

lemma bnd_fmul:
  assumes "bnd x a" "bnd y b" "a * b \<le> c" "representable c" "c < 2 ^ 128"
  shows "bnd (fmul x y) c"
proof -
  have "\<bar>fval x * fval y\<bar> \<le> a * b" using assms by (auto simp: bnd_def abs_mult intro!: mult_mono)
  then show ?thesis using assms bnd_mk32 [of "fval x * fval y" c] by (simp add: bnd_def fmul_fin)
qed

lemma bnd_fdiv:
  assumes "bnd x a" "is_fin y" "k \<le> fval y" "0 < k" "a / k \<le> c" "representable c" "c < 2 ^ 128"
  shows "bnd (fdiv x y) c"
proof -
  have "\<bar>fval x / fval y\<bar> \<le> a / k" using assms by (auto simp: bnd_def intro!: frac_le)
  then show ?thesis using assms bnd_mk32 [of "fval x / fval y" c] by (simp add: bnd_def fdiv_fin)
qed

section \<open>The settings\<close>

lemma DT_val: "DT = Fin (10737419 / 2147483648)"
  by (simp add: DT_def CTRL_PERIOD_MS_def u32_to_f32_def fmul_def flit_def f32_eval)

lemma Kp_val: "Kp = Fin (1 / 2)"
  using flit_representable [of "1 / 2"] representable_frac [of 1 1] by (simp add: Kp_def)

lemmas gains = Kp_val Ki_def Kaw_def flit_simps

lemma model_consts: "bnd FF_SPEED_SLOPE 75" "bnd VEH_MASS 3" "bnd WHEEL_RADIUS (33 / 1000)" "bnd R_MOTOR (141 / 100)"
  "RHO_CDA = Fin 0" "is_fin KT_MOTOR" "119 / 10000 \<le> fval KT_MOTOR"
proof -
  show "bnd FF_SPEED_SLOPE 75" by (simp add: bnd_def FF_SPEED_SLOPE_def flit_def f32_eval)
  show "bnd VEH_MASS 3" by (simp add: bnd_def VEH_MASS_def)
  show "bnd WHEEL_RADIUS (33 / 1000)" by (simp add: bnd_def WHEEL_RADIUS_def flit_def f32_eval)
  show "bnd R_MOTOR (141 / 100)" by (simp add: bnd_def R_MOTOR_def flit_def f32_eval)
  show "RHO_CDA = Fin 0" by (simp add: RHO_CDA_def)
  show "is_fin KT_MOTOR" "119 / 10000 \<le> fval KT_MOTOR" by (simp_all add: KT_MOTOR_def flit_def f32_eval)
qed

text \<open>The feed-forward term is at most 1.\<close>

lemma inverse_model_bound:
  assumes "is_fin a" "\<bar>fval a\<bar> \<le> 4" "is_fin v" "0 \<le> fval v" "fval v \<le> fval V_MAX"
  shows "bnd (inverse_model a v) 1"
proof -
  have v: "bnd v (141 / 128)" using assms by (simp add: bnd_def V_MAX_val)
  have a: "bnd a 4" using assms by (simp add: bnd_def)
  have r: "representable (27 / 32)" "representable (13 / 32)" "representable (7 / 512)" "representable (37 / 32)"
    "representable (53 / 32)" "representable (5 / 32)" "representable 83"
    using representable_frac [of 27 5] representable_frac [of 13 5] representable_frac [of 7 9]
      representable_frac [of 37 5] representable_frac [of 53 5] representable_frac [of 5 5] by simp_all
  have s: "bnd (fdiv (fmul FF_SPEED_SLOPE v) (flit 100)) (27 / 32)"
    by (rule bnd_fdiv [where a = 83 and k = 100], rule bnd_fmul [OF model_consts(1) v]) (use r in simp_all)
  have "bnd (fmul RHO_CDA v) 0" using assms(3) by (simp add: model_consts fmul_fin bnd_def mk32_def)
  then have "bnd (fmul (fmul RHO_CDA v) v) 0" using v by (rule bnd_fmul) simp_all
  then have "bnd (fadd (fmul VEH_MASS a) (fmul (fmul RHO_CDA v) v)) (12 + 0)"
    by (intro bnd_fadd bnd_fmul [OF model_consts(2) a]) simp_all
  then have "bnd (fmul (fadd (fmul VEH_MASS a) (fmul (fmul RHO_CDA v) v)) WHEEL_RADIUS) (13 / 32)"
    by (rule bnd_fmul [OF _ model_consts(3)]) (use r in simp_all)
  then have "bnd (fdiv (fmul (fadd (fmul VEH_MASS a) (fmul (fmul RHO_CDA v) v)) WHEEL_RADIUS) GEAR_RATIO) (7 / 512)"
    by (rule bnd_fdiv [where k = 31]) (use r in \<open>simp_all add: GEAR_RATIO_def\<close>)
  then have "bnd (fdiv (fdiv (fmul (fadd (fmul VEH_MASS a) (fmul (fmul RHO_CDA v) v)) WHEEL_RADIUS) GEAR_RATIO) KT_MOTOR) (37 / 32)"
    by (rule bnd_fdiv [where k = "119 / 10000"]) (use r model_consts in simp_all)
  then have "bnd (fmul (fdiv (fdiv (fmul (fadd (fmul VEH_MASS a) (fmul (fmul RHO_CDA v) v)) WHEEL_RADIUS) GEAR_RATIO) KT_MOTOR) R_MOTOR) (53 / 32)"
    by (rule bnd_fmul [OF _ model_consts(4)]) (use r in simp_all)
  then have "bnd (fdiv (fmul (fdiv (fdiv (fmul (fadd (fmul VEH_MASS a) (fmul (fmul RHO_CDA v) v)) WHEEL_RADIUS) GEAR_RATIO) KT_MOTOR) R_MOTOR) V_BATT) (5 / 32)"
    by (rule bnd_fdiv [where k = 11]) (use r in \<open>simp_all add: V_BATT_def\<close>)
  with s have "bnd (inverse_model a v) (27 / 32 + 5 / 32)"
    unfolding inverse_model_def Let_def by (rule bnd_fadd) simp_all
  then show ?thesis by simp
qed

section \<open>The reference speed\<close>

lemma next_v_ref_step:
  assumes "is_fin a" "\<bar>fval a\<bar> \<le> 4" "is_fin v" "0 \<le> fval v" "fval v \<le> fval V_MAX"
  shows "\<bar>fval (next_v_ref a v) - fval v\<bar> \<le> 201 / 10000"
proof -
  have vm: "fval v \<le> 2" using assms(5) by (simp add: V_MAX_val)
  have p: "near (fmul a DT) (fval a * (10737419 / 2147483648)) (1 / 2 ^ 24)"
    unfolding DT_val by (rule near_weaken [OF near_scale(2) [OF near_exact [OF assms(1)], where b = 1]]) (use assms(2) in \<open>auto simp: abs_mult\<close>)
  have "\<bar>fval (fmul a DT)\<bar> \<le> 1" by (rule near_abs [OF p]) (use assms(2) in \<open>simp add: abs_mult\<close>)
  then have b: "\<bar>fval v + fval (fmul a DT)\<bar> \<le> 4" using assms(4) vm by linarith
  have q: "near (fadd v (fmul a DT)) (fval v + fval a * (10737419 / 2147483648)) (0 + 1 / 2 ^ 24 + 4 / 2 ^ 24)"
    by (rule near_fadd [OF near_exact [OF assms(3)] p]) (use b in simp_all)
  define A where "A = fval a * (10737419 / 2147483648)"
  have A: "\<bar>A\<bar> \<le> 200001 / 10000000" using assms(2) by (simp add: A_def abs_mult)
  have "\<bar>fval (fadd v (fmul a DT)) - (fval v + A)\<bar> \<le> 1 / 1000000"
    using q unfolding A_def near_def by (simp add: divide_simps)
  with A have x: "is_fin (fadd v (fmul a DT))" "\<bar>fval (fadd v (fmul a DT)) - fval v\<bar> \<le> 201 / 10000"
    using q unfolding near_def by (blast, linarith)
  then show ?thesis using assms(3-5) unfolding next_v_ref_def clampf_def by (auto simp: V_MAX_val flt_fin)
qed

section \<open>The integrator\<close>

lemma unsat_bound:
  assumes "is_fin a" "\<bar>fval a\<bar> \<le> 4" "is_fin v" "0 \<le> fval v" "fval v \<le> fval V_MAX"
    "bnd e 102" "bnd i 64"
  shows "\<exists>ff. \<bar>ff\<bar> \<le> 1 \<and> near (acc_u_unsat a v e i) (ff + fval e / 2 + fval i) (1 / 1000)"
proof -
  have ff: "bnd (inverse_model a v) 1" by (rule inverse_model_bound [OF assms(1-5)])
  have k: "near (fmul Kp e) (1 / 2 * fval e) (\<bar>1 / 2\<bar> * 0 + 51 / 2 ^ 24)"
    unfolding Kp_val by (rule near_scale(1) [OF near_exact]) (use assms(6) in \<open>auto simp: bnd_def\<close>)
  have "\<bar>fval (fmul Kp e)\<bar> \<le> 52" by (rule near_abs [OF k]) (use assms(6) in \<open>simp add: abs_mult bnd_def\<close>)
  then have b: "\<bar>fval (inverse_model a v) + fval (fmul Kp e)\<bar> \<le> 53" using ff by (clarsimp simp: bnd_def, linarith)
  have s: "near (fadd (inverse_model a v) (fmul Kp e)) (fval (inverse_model a v) + 1 / 2 * fval e)
      (0 + (\<bar>1 / 2\<bar> * 0 + 51 / 2 ^ 24) + 64 / 2 ^ 24)"
    by (rule near_fadd [OF near_exact k]) (use ff b in \<open>simp_all add: bnd_def\<close>)
  have "\<bar>fval (fadd (inverse_model a v) (fmul Kp e))\<bar> \<le> 54"
    by (rule near_abs [OF s]) (use ff assms(6) in \<open>clarsimp simp: bnd_def, linarith\<close>)
  then have b': "\<bar>fval (fadd (inverse_model a v) (fmul Kp e)) + fval i\<bar> \<le> 128" using assms(7) by (clarsimp simp: bnd_def, linarith)
  have "near (acc_u_unsat a v e i) (fval (inverse_model a v) + 1 / 2 * fval e + fval i)
      (0 + (\<bar>1 / 2\<bar> * 0 + 51 / 2 ^ 24) + 64 / 2 ^ 24 + 0 + 128 / 2 ^ 24)"
    unfolding acc_u_unsat_def by (rule near_fadd [OF s near_exact]) (use b' assms(7) in \<open>simp_all add: bnd_def\<close>)
  then have "near (acc_u_unsat a v e i) (fval (inverse_model a v) + fval e / 2 + fval i) (1 / 1000)"
    by (auto simp: near_def)
  then show ?thesis using ff by (auto simp: bnd_def)
qed

lemma clampf_unit:
  assumes "is_fin x"
  shows "is_fin (clampf x DUTY_MIN DUTY_MAX)" "fval (clampf x DUTY_MIN DUTY_MAX) = max (- 1) (min 1 (fval x))"
  using assms by (auto simp: clampf_def DUTY_MIN_def DUTY_MAX_def flt_fin max_def min_def)

text \<open>One step keeps the integrator in its range: up to rounding it is
  \<open>I + (2 e + 10 (u - U)) dt\<close> with \<open>u\<close> the limited \<open>U = ff + e / 2 + I\<close>.\<close>

lemma integrator_step_real:
  fixes I e ff U dt :: real
  assumes "\<bar>I\<bar> \<le> 64" "\<bar>e\<bar> \<le> 102" "\<bar>ff\<bar> \<le> 1" "\<bar>U - (ff + e / 2 + I)\<bar> \<le> 1 / 1000" "dt = 10737419 / 2147483648"
  shows "\<bar>I + (2 * e + 10 * (max (- 1) (min 1 U) - U)) * dt\<bar> \<le> 127 / 2"
proof -
  consider "U < - 1" | "- 1 \<le> U" "U \<le> 1" | "1 < U" by linarith
  then show ?thesis
  proof cases
    case 1
    then have "max (- 1) (min 1 U) = - 1" by simp
    note m = this
    show ?thesis unfolding m assms(5) distrib_left distrib_right right_diff_distrib left_diff_distrib
      using assms(1-4) 1 by linarith
  next
    case 2
    then have "max (- 1) (min 1 U) = U" by simp
    note m = this
    show ?thesis unfolding m assms(5) distrib_left distrib_right right_diff_distrib left_diff_distrib
      using assms(1-4) 2 by linarith
  next
    case 3
    then have "max (- 1) (min 1 U) = 1" by simp
    note m = this
    show ?thesis unfolding m assms(5) distrib_left distrib_right right_diff_distrib left_diff_distrib
      using assms(1-4) 3 by linarith
  qed
qed

lemma next_I_term_bound:
  assumes "is_fin a" "\<bar>fval a\<bar> \<le> 4" "is_fin v" "0 \<le> fval v" "fval v \<le> fval V_MAX"
    "bnd e 102" "bnd i 64" "U = acc_u_unsat a v e i"
  shows "bnd (next_I_term v e (clampf U DUTY_MIN DUTY_MAX) U i) 64"
proof -
  obtain ff where ff: "\<bar>ff\<bar> \<le> 1" and U: "near U (ff + fval e / 2 + fval i) (1 / 1000)"
    using unsat_bound [OF assms(1-7)] assms(8) by blast
  have e: "is_fin e" "\<bar>fval e\<bar> \<le> 102" and i: "is_fin i" "\<bar>fval i\<bar> \<le> 64" using assms(6,7) by (simp_all add: bnd_def)
  have Uf: "is_fin U" "\<bar>fval U - (ff + fval e / 2 + fval i)\<bar> \<le> 1 / 1000" using U by (simp_all add: near_def)
  have Ub: "\<bar>fval U\<bar> \<le> 117" using Uf ff e i by linarith
  define u where "u = clampf U DUTY_MIN DUTY_MAX"
  define d where "d = max (- 1) (min 1 (fval U)) - fval U"
  have u: "is_fin u" "fval u = max (- 1) (min 1 (fval U))" using clampf_unit [OF Uf(1)] by (simp_all add: u_def)
  have db: "\<bar>d\<bar> \<le> 118" using Ub by (auto simp: d_def max_def min_def)
  have 1: "near (fmul Ki e) (2 * fval e) (\<bar>2\<bar> * 0 + 204 / 2 ^ 24)"
    unfolding gains by (rule near_scale(1) [OF near_exact [OF e(1)]]) (use e in simp_all)
  have 2: "near (fsub u U) (fval u - fval U) (0 + 0 + 118 / 2 ^ 24)"
    by (rule near_fsub [OF near_exact [OF u(1)] near_exact [OF Uf(1)]]) (use db u in \<open>simp_all add: d_def\<close>)
  then have 2: "near (fsub u U) d (118 / 2 ^ 24)" by (simp add: d_def u)
  have b2: "\<bar>10 * fval (fsub u U)\<bar> \<le> 1190" using near_abs [OF 2, of 119] db by (simp add: abs_mult)
  have 3: "near (fmul Kaw (fsub u U)) (10 * d) (\<bar>10\<bar> * (118 / 2 ^ 24) + 1190 / 2 ^ 24)"
    unfolding gains by (rule near_scale(1) [OF 2 b2]) simp_all
  have b1: "\<bar>fval (fmul Ki e)\<bar> \<le> 205" by (rule near_abs [OF 1]) (use e in \<open>simp add: abs_mult\<close>)
  have b3: "\<bar>fval (fmul Kaw (fsub u U))\<bar> \<le> 1181" by (rule near_abs [OF 3]) (use db in \<open>simp add: abs_mult\<close>)
  have b4: "\<bar>fval (fmul Ki e) + fval (fmul Kaw (fsub u U))\<bar> \<le> 1386" using b1 b3 by linarith
  note 4 = near_fadd [OF 1 3 b4]
  have s: "\<bar>2 * fval e + 10 * d\<bar> \<le> 1384" using e db by linarith
  let ?x = "fadd (fmul Ki e) (fmul Kaw (fsub u U))"
  have 5: "near ?x (2 * fval e + 10 * d) (1 / 1000)" by (rule near_weaken [OF 4]) simp_all
  have b5: "\<bar>10737419 / 2147483648 * fval ?x\<bar> \<le> 7" using near_abs [OF 5, of 1385] s by (simp add: abs_mult)
  have 6: "near (fmul ?x DT) ((2 * fval e + 10 * d) * (10737419 / 2147483648)) (1 / 10000)"
    unfolding DT_val by (rule near_weaken [OF near_scale(2) [OF 5 b5]]) simp_all
  have "\<bar>(2 * fval e + 10 * d) * (10737419 / 2147483648)\<bar> \<le> 1384 * (10737419 / 2147483648)"
    unfolding abs_mult by (intro mult_mono s) simp_all
  then have b6: "\<bar>fval (fmul ?x DT)\<bar> \<le> 7" by (intro near_abs [OF 6]) linarith
  have b7: "\<bar>fval i + fval (fmul ?x DT)\<bar> \<le> 71" using b6 i by linarith
  have "near (fadd i (fmul ?x DT)) (fval i + (2 * fval e + 10 * d) * (10737419 / 2147483648)) (0 + 1 / 10000 + 71 / 2 ^ 24)"
    by (rule near_fadd [OF near_exact [OF i(1)] 6 b7]) simp_all
  then have n: "near (fadd i (fmul ?x DT)) (fval i + (2 * fval e + 10 * d) * (10737419 / 2147483648)) (1 / 1000)"
    by (rule near_weaken) simp
  have "\<bar>fval i + (2 * fval e + 10 * d) * (10737419 / 2147483648)\<bar> \<le> 127 / 2"
    unfolding d_def by (rule integrator_step_real [OF i(2) e(2) ff Uf(2) refl])
  then have "\<bar>fval (fadd i (fmul ?x DT))\<bar> \<le> 64" by (intro near_abs [OF n]) simp
  then show ?thesis using n by (simp add: next_I_term_def u_def [symmetric] bnd_def near_def)
qed

text \<open>The whole step, for measured speeds of at most 100 m/s.\<close>

lemma error_bound:
  assumes "is_fin v" "0 \<le> fval v" "fval v \<le> fval V_MAX" "bnd m 100"
  shows "bnd (fsub v m) 102"
proof -
  have "bnd (fadd v (fneg m)) (2 + 100)"
    using assms by (intro bnd_fadd) (auto simp: bnd_def V_MAX_val)
  then show ?thesis by (simp add: fsub_def)
qed

text \<open>What a run in the ACC mode leaves in the reference speed and in the integral term.\<close>

lemma acc_step_result:
  assumes "\<not> (control_mode cmd = MODE_AEB \<or> emergency_stop cmd \<noteq> 0)" "control_mode cmd \<noteq> MODE_MANUAL"
    "control_step cmd v c m = Some (c', m', t)"
    "c1 = (if s_prev_mode c \<noteq> MODE_ACC then acc_reset_state c else c)\<lparr>s_prev_mode := MODE_ACC\<rparr>"
    "vr = next_v_ref (acc_a_cmd cmd) (s_v_ref c1)" "u = acc_u_unsat (acc_a_cmd cmd) vr (fsub vr v) (s_I_term c1)"
  shows "s_v_ref c' = vr" "s_I_term c' = next_I_term vr (fsub vr v) (clampf u DUTY_MIN DUTY_MAX) u (s_I_term c1)"
proof -
  let ?c2 = "c1\<lparr>s_v_ref := vr, s_I_term := next_I_term vr (fsub vr v) (clampf u DUTY_MIN DUTY_MAX) u (s_I_term c1)\<rparr>"
  obtain c4 m4 where o: "apply_output (clampf u DUTY_MIN DUTY_MAX) v ?c2 m = Some (c4, m4)"
    "s_v_ref c4 = s_v_ref ?c2" "s_I_term c4 = s_I_term ?c2" using apply_output_ok [of "clampf u DUTY_MIN DUTY_MAX" v ?c2 m] by blast
  have "c' = c4"
    using assms(1-3) o unfolding control_step_def acc_branch_def Let_def assms(4) [symmetric]
    by (simp add: assms(5) [symmetric] assms(6) [symmetric])
  with o(2,3) show "s_v_ref c' = vr" "s_I_term c' = next_I_term vr (fsub vr v) (clampf u DUTY_MIN DUTY_MAX) u (s_I_term c1)"
    by simp_all
qed

lemma other_step_result:
  assumes "(control_mode cmd = MODE_AEB \<or> emergency_stop cmd \<noteq> 0) \<or> control_mode cmd = MODE_MANUAL"
    "control_step cmd v c m = Some (c', m', t)"
  shows "s_I_term c' = s_I_term c \<and> s_v_ref c' = s_v_ref c \<or> s_I_term c' = Fin 0 \<and> s_v_ref c' = Fin 0"
proof (cases "control_mode cmd = MODE_AEB \<or> emergency_stop cmd \<noteq> 0")
  case True
  then show ?thesis using assms(2) by (auto simp: control_step_def emergency_branch_def acc_reset_state_def Let_def)
next
  case False
  then show ?thesis using assms
    by (auto simp: control_step_def manual_branch_def acc_reset_state_def Let_def bind_Some_iff split: if_splits)
qed

lemma acc_start:
  assumes "cpu1_inv c" "c1 = (if s_prev_mode c \<noteq> MODE_ACC then acc_reset_state c else c)\<lparr>s_prev_mode := MODE_ACC\<rparr>"
  shows "is_fin (s_v_ref c1)" "0 \<le> fval (s_v_ref c1)" "fval (s_v_ref c1) \<le> fval V_MAX" "fval (s_v_ref c1) \<le> fval (s_v_ref c)"
    "s_I_term c1 = s_I_term c \<or> s_I_term c1 = Fin 0"
proof -
  have "cpu1_inv c1" using assms acc_reset_inv [OF assms(1)] by (simp add: cpu1_inv_def)
  then show "is_fin (s_v_ref c1)" "0 \<le> fval (s_v_ref c1)" "fval (s_v_ref c1) \<le> fval V_MAX" by (simp_all add: cpu1_inv_def)
  show "fval (s_v_ref c1) \<le> fval (s_v_ref c)" "s_I_term c1 = s_I_term c \<or> s_I_term c1 = Fin 0"
    using assms by (simp_all add: acc_reset_state_def cpu1_inv_def)
qed

lemma control_step_rate:
  assumes "cpu1_inv c" "control_step cmd v c m = Some (c', m', t)"
  shows "fval (s_v_ref c') \<le> fval (s_v_ref c) + 201 / 10000"
proof (cases "(control_mode cmd = MODE_AEB \<or> emergency_stop cmd \<noteq> 0) \<or> control_mode cmd = MODE_MANUAL")
  case True
  have "0 \<le> fval (s_v_ref c)" using assms(1) by (simp add: cpu1_inv_def)
  with other_step_result [OF True assms(2)] show ?thesis by auto
next
  case False
  then have n: "\<not> (control_mode cmd = MODE_AEB \<or> emergency_stop cmd \<noteq> 0)" "control_mode cmd \<noteq> MODE_MANUAL" by blast+
  note v1 = acc_start [OF assms(1) refl]
  show ?thesis using next_v_ref_step [OF a_cmd_range v1(1-3), of cmd] v1(4)
    unfolding acc_step_result(1) [OF n assms(2) refl refl refl] by linarith
qed

lemma control_step_bounds:
  assumes "cpu1_inv c" "bnd (s_I_term c) 64" "bnd v 100" "control_step cmd v c m = Some (c', m', t)"
  shows "bnd (s_I_term c') 64"
proof (cases "(control_mode cmd = MODE_AEB \<or> emergency_stop cmd \<noteq> 0) \<or> control_mode cmd = MODE_MANUAL")
  case True
  from other_step_result [OF True assms(4)] show ?thesis using assms(2) by (auto simp: bnd_def)
next
  case False
  then have n: "\<not> (control_mode cmd = MODE_AEB \<or> emergency_stop cmd \<noteq> 0)" "control_mode cmd \<noteq> MODE_MANUAL" by blast+
  define c1 where "c1 = (if s_prev_mode c \<noteq> MODE_ACC then acc_reset_state c else c)\<lparr>s_prev_mode := MODE_ACC\<rparr>"
  note v1 = acc_start [OF assms(1) c1_def]
  define vr where "vr = next_v_ref (acc_a_cmd cmd) (s_v_ref c1)"
  have vr: "is_fin vr" "0 \<le> fval vr" "fval vr \<le> fval V_MAX"
    using next_v_ref_range [OF a_cmd_range(1) v1(1)] by (simp_all add: vr_def)
  have i1: "bnd (s_I_term c1) 64" using v1(5) assms(2) by (auto simp: bnd_def)
  show ?thesis unfolding acc_step_result(2) [OF n assms(4) c1_def vr_def refl]
    by (rule next_I_term_bound [OF a_cmd_range vr error_bound [OF vr assms(3)] i1 refl])
qed

end
