(* ===== verification/RearUltra.thy ===== *)
theory RearUltra
  imports FrontNode_Facts RearShared
begin

text \<open>
  CPU2 of the REAR board: REAR/AebSensorNode.c (two ultrasonic sensors, published in the shared
  memory) and Cpu2_Main.c. The code is a relative of FRONT/AebSensorNode.c, with its own
  settings, echo pull-downs, and no diagnosis; its names carry \<open>rear_\<close> here.
\<close>

section \<open>Settings (AebSensorNode.h)\<close>

definition REAR_NODE_LOOP_PERIOD_MS :: u32 where "REAR_NODE_LOOP_PERIOD_MS = 50"
definition REAR_ULTRA_MIN_CM_X10 :: u32 where "REAR_ULTRA_MIN_CM_X10 = 20"
definition REAR_ULTRA_MAX_CM_X10 :: u32 where "REAR_ULTRA_MAX_CM_X10 = 5000"
definition REAR_ULTRA_ECHO_TIMEOUT_US :: u32 where "REAR_ULTRA_ECHO_TIMEOUT_US = 15000"
definition REAR_ULTRA_STALE_MS :: u32 where "REAR_ULTRA_STALE_MS = 150"
definition REAR_ULTRA_CROSSTALK_DELAY_US :: u32 where "REAR_ULTRA_CROSSTALK_DELAY_US = 5000"
definition REAR_ULTRA_LEFT_TRIG :: pin where "REAR_ULTRA_LEFT_TRIG = (33, 12)"
definition REAR_ULTRA_LEFT_ECHO :: pin where "REAR_ULTRA_LEFT_ECHO = (33, 11)"
definition REAR_ULTRA_RIGHT_TRIG :: pin where "REAR_ULTRA_RIGHT_TRIG = (32, 4)"
definition REAR_ULTRA_RIGHT_ECHO :: pin where "REAR_ULTRA_RIGHT_ECHO = (33, 13)"
definition REAR_VALID_ULTRA_LEFT :: u8 where "REAR_VALID_ULTRA_LEFT = push_bit 0 1"
definition REAR_VALID_ULTRA_RIGHT :: u8 where "REAR_VALID_ULTRA_RIGHT = push_bit 1 1"
definition AEB_REAR_STATUS_PORT :: u16 where "AEB_REAR_STATUS_PORT = 5012"

lemmas rear_ultra_consts [consts_simps] =
  REAR_NODE_LOOP_PERIOD_MS_def REAR_ULTRA_MIN_CM_X10_def REAR_ULTRA_MAX_CM_X10_def
  REAR_ULTRA_ECHO_TIMEOUT_US_def REAR_ULTRA_STALE_MS_def REAR_ULTRA_CROSSTALK_DELAY_US_def
  REAR_VALID_ULTRA_LEFT_def REAR_VALID_ULTRA_RIGHT_def

section \<open>Time\<close>

definition rear_nowTicks :: "hw \<Rightarrow> trace \<Rightarrow> u32 \<times> trace" where
  "rear_nowTicks E w = stm_now E w"

definition rear_ticksFromUs :: "hw \<Rightarrow> u32 \<Rightarrow> u32" where
  "rear_ticksFromUs E us = (let t = ticks_of_us E us in if sint t \<le> 0 then 1 else t)"

definition rear_ticksFromMs :: "hw \<Rightarrow> u32 \<Rightarrow> u32" where
  "rear_ticksFromMs E ms = (let t = ticks_of_ms E ms in if sint t \<le> 0 then 1 else t)"

definition rear_ticksToUs :: "hw \<Rightarrow> u32 \<Rightarrow> u32 option" where
  "rear_ticksToUs E ticks = f32_to_u32 (fdiv (fmul (u32_to_f32 ticks) (flit 1000000)) (stm_freq E))"

definition rear_delayUs :: "hw \<Rightarrow> u32 \<Rightarrow> trace \<Rightarrow> trace" where
  "rear_delayUs E us w = WaitTicks (rear_ticksFromUs E us) # w"

definition rear_waitUntilElapsedMs :: "hw \<Rightarrow> u32 \<Rightarrow> u32 \<Rightarrow> trace \<Rightarrow> trace" where
  "rear_waitUntilElapsedMs E startTick periodMs w =
     (let periodTicks = rear_ticksFromMs E periodMs;
          (now, w) = rear_nowTicks E w;
          elapsedTicks = now - startTick
      in if elapsedTicks < periodTicks then WaitStm0 (periodTicks - elapsedTicks) # w else w)"

definition rear_isFresh :: "hw \<Rightarrow> u32 \<Rightarrow> u32 \<Rightarrow> trace \<Rightarrow> bool \<times> trace" where
  "rear_isFresh E lastTick staleMs w =
     (if lastTick = 0 then (False, w)
      else (let (now, w) = rear_nowTicks E w in (now - lastTick \<le> rear_ticksFromMs E staleMs, w)))"

section \<open>The sensors\<close>

definition rear_median3 :: "u16 list \<Rightarrow> u8 \<Rightarrow> u16 option" where
  "rear_median3 s count =
     (if count = 0 then Some 0
      else if count = 1 then rd s 0
      else if count = 2 then do {
        s0 \<leftarrow> rd s 0; s1 \<leftarrow> rd s 1; Some (ucast ((ucast s0 + ucast s1 :: u32) div 2)) }
      else do {
        a \<leftarrow> rd s 0; b \<leftarrow> rd s 1; c \<leftarrow> rd s 2;
        let (a, b) = (if b < a then (b, a) else (a, b));
        let (b, c) = (if c < b then (c, b) else (b, c));
        let (a, b) = (if b < a then (b, a) else (a, b));
        Some b })"

definition rear_wait_round :: "hw \<times> pin \<times> bool \<times> u32 \<times> u32 \<Rightarrow> trace \<Rightarrow> (bool option \<times> trace) option" where
  "rear_wait_round = (\<lambda>(E, p, state, start, timeoutTicks) w.
     let (level, w) = pin_read E p w in
     if level \<noteq> state then
       (let (now, w) = rear_nowTicks E w in
        if timeoutTicks \<le> now - start then Some (Some False, w) else Some (None, w))
     else Some (Some True, w))"

definition rear_waitPinState :: "hw \<Rightarrow> pin \<Rightarrow> bool \<Rightarrow> u32 \<Rightarrow> trace \<Rightarrow> (bool \<times> trace) option" where
  "rear_waitPinState E p state timeoutUs w =
     (let (start, w) = rear_nowTicks E w; timeoutTicks = rear_ticksFromUs E timeoutUs
      in poll_loop (rear_wait_round (E, p, state, start, timeoutTicks)) w)"

record RearUltrasonicSensor =
  r_trig :: pin
  r_echo :: pin
  r_samples :: "u16 list"
  r_sampleCount :: u8
  r_sampleIndex :: u8
  r_filteredCmX10 :: u16
  r_lastValidTick :: u32

definition rear_leftUltrasonic_0 :: RearUltrasonicSensor where
  "rear_leftUltrasonic_0 = \<lparr>r_trig = REAR_ULTRA_LEFT_TRIG, r_echo = REAR_ULTRA_LEFT_ECHO,
     r_samples = [0, 0, 0], r_sampleCount = 0, r_sampleIndex = 0, r_filteredCmX10 = 0, r_lastValidTick = 0\<rparr>"

definition rear_rightUltrasonic_0 :: RearUltrasonicSensor where
  "rear_rightUltrasonic_0 = \<lparr>r_trig = REAR_ULTRA_RIGHT_TRIG, r_echo = REAR_ULTRA_RIGHT_ECHO,
     r_samples = [0, 0, 0], r_sampleCount = 0, r_sampleIndex = 0, r_filteredCmX10 = 0, r_lastValidTick = 0\<rparr>"

definition rear_ultrasonicInit :: "RearUltrasonicSensor \<Rightarrow> trace \<Rightarrow> trace" where
  "rear_ultrasonicInit sensor w =
     SetPin (r_trig sensor) False # SetMode (r_echo sensor) InPullDown # SetMode (r_trig sensor) OutPushPull # w"

definition rear_range :: "u32 \<Rightarrow> u16 option" where
  "rear_range pulseUs =
     (let distanceCmX10 = (pulseUs * 1715 + 5000) div 10000
      in if distanceCmX10 < REAR_ULTRA_MIN_CM_X10 \<or> REAR_ULTRA_MAX_CM_X10 < distanceCmX10
         then None else Some (ucast distanceCmX10))"

definition rear_ultrasonicReadCmX10 :: "hw \<Rightarrow> RearUltrasonicSensor \<Rightarrow> trace \<Rightarrow> (u16 option \<times> trace) option" where
  "rear_ultrasonicReadCmX10 E sensor w = do {
     let w = SetPin (r_trig sensor) False # w;
     let w = rear_delayUs E 2 w;
     let w = SetPin (r_trig sensor) True # w;
     let w = rear_delayUs E 10 w;
     let w = SetPin (r_trig sensor) False # w;
     (rose, w) \<leftarrow> rear_waitPinState E (r_echo sensor) True REAR_ULTRA_ECHO_TIMEOUT_US w;
     if \<not> rose then Some (None, w) else do {
     let (pulseStart, w) = rear_nowTicks E w;
     (fell, w) \<leftarrow> rear_waitPinState E (r_echo sensor) False REAR_ULTRA_ECHO_TIMEOUT_US w;
     if \<not> fell then Some (None, w) else do {
     let (now, w) = rear_nowTicks E w;
     pulseUs \<leftarrow> rear_ticksToUs E (now - pulseStart);
     Some (rear_range pulseUs, w) }}}"

definition rear_store_sample :: "u16 \<Rightarrow> RearUltrasonicSensor \<Rightarrow> RearUltrasonicSensor option" where
  "rear_store_sample raw sensor =
     (if unat (r_sampleIndex sensor) < length (r_samples sensor) then do {
        let sensor = sensor\<lparr>r_samples := (r_samples sensor)[unat (r_sampleIndex sensor) := raw]\<rparr>;
        let sensor = sensor\<lparr>r_sampleIndex := ucast ((ucast (r_sampleIndex sensor) + 1 :: u32) mod 3)\<rparr>;
        let sensor = (if r_sampleCount sensor < 3 then sensor\<lparr>r_sampleCount := r_sampleCount sensor + 1\<rparr> else sensor);
        m \<leftarrow> rear_median3 (r_samples sensor) (r_sampleCount sensor);
        Some (sensor\<lparr>r_filteredCmX10 := m\<rparr>) }
      else None)"

definition rear_ultrasonicUpdate ::
    "hw \<Rightarrow> RearUltrasonicSensor \<Rightarrow> trace \<Rightarrow> ((bool \<times> RearUltrasonicSensor) \<times> trace) option" where
  "rear_ultrasonicUpdate E sensor w = do {
     (raw, w) \<leftarrow> rear_ultrasonicReadCmX10 E sensor w;
     (sensor, w) \<leftarrow> (case raw of None \<Rightarrow> Some (sensor, w) | Some raw \<Rightarrow> do {
        sensor \<leftarrow> rear_store_sample raw sensor;
        let (now, w) = rear_nowTicks E w;
        Some (sensor\<lparr>r_lastValidTick := now\<rparr>, w) });
     let (fresh, w) = rear_isFresh E (r_lastValidTick sensor) REAR_ULTRA_STALE_MS w;
     Some ((fresh, sensor), w) }"

section \<open>The node (CPU2)\<close>

record rear_node =
  r_left :: RearUltrasonicSensor
  r_right :: RearUltrasonicSensor

definition AebSensorNode_ultraInit :: "lmu \<Rightarrow> trace \<Rightarrow> (rear_node \<times> lmu \<times> trace) option" where
  "AebSensorNode_ultraInit mem w = do {
     mem \<leftarrow> aeb_writeUltraLmu zero_ultra mem;
     let w = rear_ultrasonicInit rear_leftUltrasonic_0 w;
     let w = rear_ultrasonicInit rear_rightUltrasonic_0 w;
     Some (\<lparr>r_left = rear_leftUltrasonic_0, r_right = rear_rightUltrasonic_0\<rparr>, mem, w) }"

text \<open>The scale \<open>0.001f\<close> makes metres of tenths of a centimetre.\<close>

definition rear_frame :: "bool \<Rightarrow> bool \<Rightarrow> rear_node \<Rightarrow> AebUltraLmuFrame" where
  "rear_frame leftValid rightValid n =
     (let validMask = 0;
          validMask = (if leftValid then validMask OR REAR_VALID_ULTRA_LEFT else validMask);
          validMask = (if rightValid then validMask OR REAR_VALID_ULTRA_RIGHT else validMask);
          l = (if leftValid then fmul (u32_to_f32 (ucast (r_filteredCmX10 (r_left n)))) (flit (1 / 1000)) else flit 0);
          r = (if rightValid then fmul (u32_to_f32 (ucast (r_filteredCmX10 (r_right n)))) (flit (1 / 1000)) else flit 0)
      in \<lparr>u_left = l, u_right = r, u_validMask = validMask\<rparr>)"

definition AebSensorNode_ultraRunOnce :: "hw \<Rightarrow> rear_node \<Rightarrow> lmu \<Rightarrow> trace \<Rightarrow> (rear_node \<times> lmu \<times> trace) option" where
  "AebSensorNode_ultraRunOnce E n mem w = do {
     let (cycleStart, w) = rear_nowTicks E w;
     ((leftValid, l), w) \<leftarrow> rear_ultrasonicUpdate E (r_left n) w;
     let w = rear_delayUs E REAR_ULTRA_CROSSTALK_DELAY_US w;
     ((rightValid, r), w) \<leftarrow> rear_ultrasonicUpdate E (r_right n) w;
     let n = n\<lparr>r_left := l, r_right := r\<rparr>;
     mem \<leftarrow> aeb_writeUltraLmu (rear_frame leftValid rightValid n) mem;
     Some (n, mem, rear_waitUntilElapsedMs E cycleStart REAR_NODE_LOOP_PERIOD_MS w) }"

text \<open>Cpu2_Main.c: the endless loop as its first n rounds.\<close>

fun cpu2_rounds :: "hw \<Rightarrow> nat \<Rightarrow> rear_node \<times> lmu \<times> trace \<Rightarrow> (rear_node \<times> lmu \<times> trace) option" where
  "cpu2_rounds E 0 s = Some s"
| "cpu2_rounds E (Suc k) (n, mem, w) = do { s \<leftarrow> AebSensorNode_ultraRunOnce E n mem w; cpu2_rounds E k s }"

definition core2_main :: "hw \<Rightarrow> nat \<Rightarrow> lmu \<Rightarrow> trace \<Rightarrow> (rear_node \<times> lmu \<times> trace) option" where
  "core2_main E k mem w = do { s \<leftarrow> AebSensorNode_ultraInit mem w; cpu2_rounds E k s }"

end
