(* ===== verification/RearUltra_Facts.thy ===== *)
theory RearUltra_Facts
  imports RearUltra
begin

text \<open>
  The REAR board's sensor code against FRONT's: with the same samples stored, a measurement and
  its filter are the same function of the environment. What was proved for FRONT (every loop
  ends, every stored distance is in range) then holds for REAR.
\<close>

section \<open>A loop under a change of its result\<close>

definition map_round :: "('a \<Rightarrow> 'b) \<Rightarrow> ('w \<Rightarrow> ('a option \<times> 'w) option) \<Rightarrow> 'w \<Rightarrow> ('b option \<times> 'w) option" where
  "map_round f iter w = map_option (\<lambda>(r, w). (map_option f r, w)) (iter w)"

lemma poll_loop_map: "poll_loop (map_round f iter) w = map_option (\<lambda>(x, w). (f x, w)) (poll_loop iter w)"
proof -
  have fwd: "poll_loop (map_round f iter) w = Some (f x, w')" if "poll_loop iter w = Some (x, w')" for x w'
  proof -
    have "\<forall>x w'. p = (x, w') \<longrightarrow> poll_loop (map_round f it) v = Some (f x, w')" if "poll_loop it v = Some p" "it = iter" for it v p
      using that
    proof (induction rule: poll_loop.raw_induct [rotated, consumes 1, case_names step])
      case (step self it v p)
      then obtain r w1 where r: "iter v = Some (r, w1)" by (auto split: option.splits)
      show ?case
      proof (cases r)
        case None
        then have m: "map_round f iter v = Some (None, w1)" using r by (simp add: map_round_def)
        show ?thesis using step r None by (subst poll_loop.simps) (simp add: m)
      next
        case (Some y)
        then have m: "map_round f iter v = Some (Some (f y), w1)" using r by (simp add: map_round_def)
        show ?thesis using step r Some by (subst poll_loop.simps) (auto simp: m)
      qed
    qed
    with that show ?thesis by blast
  qed
  have bwd: "\<exists>x. y = f x \<and> poll_loop iter w = Some (x, w')" if "poll_loop (map_round f iter) w = Some (y, w')" for y w'
  proof -
    have "\<forall>y w'. p = (y, w') \<longrightarrow> (\<exists>x. y = f x \<and> poll_loop iter v = Some (x, w'))" if "poll_loop it v = Some p" "it = map_round f iter" for it v p
      using that
    proof (induction rule: poll_loop.raw_induct [rotated, consumes 1, case_names step])
      case (step self it v p)
      then have "map_round f iter v \<noteq> None" by (auto split: option.splits)
      then obtain r w1 where r: "iter v = Some (r, w1)" by (auto simp: map_round_def)
      show ?case
      proof (cases r)
        case None
        then have m: "map_round f iter v = Some (None, w1)" using r by (simp add: map_round_def)
        show ?thesis using step r None by (subst poll_loop.simps) (simp add: m)
      next
        case (Some y)
        then have m: "map_round f iter v = Some (Some (f y), w1)" using r by (simp add: map_round_def)
        show ?thesis using step r Some by (subst poll_loop.simps) (auto simp: m)
      qed
    qed
    with that show ?thesis by blast
  qed
  show ?thesis
  proof (cases "poll_loop iter w")
    case None
    have "poll_loop (map_round f iter) w = None"
    proof (rule ccontr)
      assume "poll_loop (map_round f iter) w \<noteq> None"
      then obtain p where "poll_loop (map_round f iter) w = Some p" by blast
      with bwd None show False by (cases p) fastforce
    qed
    with None show ?thesis by simp
  next
    case (Some p)
    with fwd show ?thesis by (cases p) auto
  qed
qed

section \<open>The two sensor structures\<close>

definition as_front :: "RearUltrasonicSensor \<Rightarrow> AebUltrasonicSensor" where
  "as_front s = \<lparr>trigPin = r_trig s, echoPin = r_echo s, samples = r_samples s, sampleCount = r_sampleCount s,
     sampleIndex = r_sampleIndex s, filteredCmX10 = r_filteredCmX10 s, lastValidTick = r_lastValidTick s,
     lastRawCmX10 = 0, lastDiag = 0\<rparr>"

definition as_rear :: "AebUltrasonicSensor \<Rightarrow> RearUltrasonicSensor" where
  "as_rear s = \<lparr>r_trig = trigPin s, r_echo = echoPin s, r_samples = samples s, r_sampleCount = sampleCount s,
     r_sampleIndex = sampleIndex s, r_filteredCmX10 = filteredCmX10 s, r_lastValidTick = lastValidTick s\<rparr>"

lemma as_rear_as_front [simp]: "as_rear (as_front s) = s"
  by (simp add: as_rear_def as_front_def)

lemma rear_time: "rear_nowTicks = aeb_nowTicks" "rear_ticksFromUs = aeb_ticksFromUs" "rear_ticksFromMs = aeb_ticksFromMs"
  "rear_ticksToUs = aeb_ticksToUs" "rear_delayUs = aeb_delayUs" "rear_isFresh = aeb_isFresh"
  by (auto simp: fun_eq_iff rear_nowTicks_def aeb_nowTicks_def rear_ticksFromUs_def aeb_ticksFromUs_def
      rear_ticksFromMs_def aeb_ticksFromMs_def rear_ticksToUs_def aeb_ticksToUs_def rear_delayUs_def aeb_delayUs_def
      rear_isFresh_def aeb_isFresh_def)

lemma rear_wait: "rear_waitPinState E p state us w =
    map_option (\<lambda>((b, _), w). (b, w)) (aeb_waitPinState E p state us False w)"
proof -
  have "rear_wait_round (E, p, state, start, t) = map_round fst (wait_pin_round (E, p, state, False, start, t))" for start t
    by (auto simp: fun_eq_iff rear_wait_round_def wait_pin_round_def map_round_def rear_time pin_read_def split_beta Let_def)
  then show ?thesis
    by (simp add: rear_waitPinState_def aeb_waitPinState_def rear_time poll_loop_map split_beta Let_def option.map_comp comp_def)
      (rule option.map_cong0, auto)
qed

lemma rear_read: "rear_ultrasonicReadCmX10 E s w =
    map_option (\<lambda>((r, _), w). (r, w)) (aeb_ultrasonicReadCmX10 E (as_front s) w)"
proof -
  have timeouts: "REAR_ULTRA_ECHO_TIMEOUT_US = AEB_ULTRA_ECHO_TIMEOUT_US"
    by (simp add: consts_simps)
  have range: "fst (ultrasonic_range us t) = rear_range us" for us t
    by (simp add: ultrasonic_range_def rear_range_def consts_simps Let_def)
  then have range': "ultrasonic_range us t = (rear_range us, snd (ultrasonic_range us t))" for us t
    by (metis prod.collapse)
  let ?s = "as_front s\<lparr>lastRawCmX10 := 0, lastDiag := AEB_ULTRA_DIAG_OK\<rparr>"
  let ?w = "ultrasonic_trigger E (r_trig s) w"
  have f: "trigPin ?s = r_trig s" "echoPin ?s = r_echo s" by (simp_all add: as_front_def)
  have w: "SetPin (r_trig s) False # aeb_delayUs E 10 (SetPin (r_trig s) True # aeb_delayUs E 2 (SetPin (r_trig s) False # w)) = ?w"
    by (simp add: ultrasonic_trigger_def Let_def)
  note unf = rear_ultrasonicReadCmX10_def aeb_ultrasonicReadCmX10_def rear_wait rear_time timeouts Let_def f w
  show ?thesis
  proof (cases "aeb_waitPinState E (r_echo s) True AEB_ULTRA_ECHO_TIMEOUT_US False ?w")
    case None
    then show ?thesis unfolding unf by simp
  next
    case (Some a)
    obtain rose x w1 where a: "a = ((rose, x), w1)" by (metis prod.collapse)
    show ?thesis
    proof (cases rose)
      case False
      then show ?thesis using Some a unfolding unf by simp
    next
      case True
      obtain p0 w2 where p0: "aeb_nowTicks E w1 = (p0, w2)" by (metis prod.collapse)
      show ?thesis
      proof (cases "aeb_waitPinState E (r_echo s) False AEB_ULTRA_ECHO_TIMEOUT_US False w2")
        case None
        then show ?thesis using Some a True p0 unfolding unf by simp
      next
        case (Some b)
        obtain fell y w3 where b: "b = ((fell, y), w3)" by (metis prod.collapse)
        obtain t w4 where t: "aeb_nowTicks E w3 = (t, w4)" by (metis prod.collapse)
        show ?thesis using \<open>aeb_waitPinState E (r_echo s) True AEB_ULTRA_ECHO_TIMEOUT_US False ?w = Some a\<close> a True p0 Some b t
          unfolding unf by (cases "aeb_ticksToUs E (t - p0)") (simp_all add: split_beta range)
      qed
    qed
  qed
qed

lemma rear_median: "rear_median3 = aeb_median3"
  by (auto simp: fun_eq_iff rear_median3_def aeb_median3_def swap_if_greater_def Let_def)

lemma rear_store: "rear_store_sample raw s = map_option as_rear (store_sample raw (as_front s))"
  by (simp add: rear_store_sample_def store_sample_def as_front_def rear_median Let_def split: bind_split)
    (auto simp: as_rear_def split: bind_split)

section \<open>The stored distances\<close>

definition rear_sensor_ok :: "RearUltrasonicSensor \<Rightarrow> bool" where
  "rear_sensor_ok s \<longleftrightarrow> sensor_ok (as_front s)"

lemma sensor_ok_diag: "sensor_ok t \<Longrightarrow> rear_sensor_ok (as_rear t)"
  by (simp add: sensor_ok_def rear_sensor_ok_def as_rear_def as_front_def)

lemma rear_sensors_0: "rear_sensor_ok rear_leftUltrasonic_0" "rear_sensor_ok rear_rightUltrasonic_0"
  by (simp_all add: rear_sensor_ok_def sensor_ok_def as_front_def rear_leftUltrasonic_0_def rear_rightUltrasonic_0_def
      REAR_ULTRA_LEFT_TRIG_def REAR_ULTRA_RIGHT_TRIG_def AEB_TOF_SDA_def AEB_TOF_SCL_def)

lemma rear_store_ok:
  assumes "rear_sensor_ok s" "echo_range v"
  shows "\<exists>s'. rear_store_sample v s = Some s' \<and> rear_sensor_ok (s'\<lparr>r_lastValidTick := t\<rparr>)"
proof -
  obtain s1 where s1: "store_sample v (as_front s) = Some s1" "sensor_ok s1" "sampleCount s1 \<noteq> 0"
    using store_sample_ok [of "as_front s" v] assms by (auto simp: rear_sensor_ok_def)
  have "(as_rear s1)\<lparr>r_lastValidTick := t\<rparr> = as_rear (s1\<lparr>lastValidTick := t\<rparr>)" by (simp add: as_rear_def)
  with sensor_ok_diag [OF sensor_ok_stamp [OF s1(2,3)]] s1(1) show ?thesis by (simp add: rear_store)
qed

lemma fresh_in_range: "rear_sensor_ok s \<Longrightarrow> fst (rear_isFresh E (r_lastValidTick s) ms w) \<Longrightarrow> echo_range (r_filteredCmX10 s)"
  by (auto simp: rear_sensor_ok_def sensor_ok_def as_front_def rear_isFresh_def split: if_splits)

lemma rear_readings:
  assumes "rear_ultrasonicReadCmX10 E s w = Some (Some v, w')"
  shows "echo_range v"
proof -
  from assms obtain t where "aeb_ultrasonicReadCmX10 E (as_front s) w = Some ((Some v, t), w')"
    by (auto simp: rear_read)
  from ultrasonicRead_result [OF this] show ?thesis by simp
qed

lemma rear_update:
  assumes "since E od w0 n w" "sane_hw E" "stm_freq E = Fin f" "10000000 \<le> f" "rear_sensor_ok s"
  shows "\<exists>fresh s' w'. rear_ultrasonicUpdate E s w = Some ((fresh, s'), w') \<and> since E od w0 (n + 6400000) w' \<and>
    rear_sensor_ok s' \<and> (fresh \<longrightarrow> echo_range (r_filteredCmX10 s'))"
proof -
  have p: "trigPin (as_front s) \<noteq> AEB_TOF_SDA" "trigPin (as_front s) \<noteq> AEB_TOF_SCL"
    using assms(5) by (simp_all add: rear_sensor_ok_def sensor_ok_def)
  from runs_ultrasonicRead [OF assms(1,2) p assms(3,4)] obtain raw s1 w1 where
    "aeb_ultrasonicReadCmX10 E (as_front s) w = Some ((raw, s1), w1)" and w1: "since E od w0 (n + 6300000) w1"
    unfolding runs_def by auto
  then have r: "rear_ultrasonicReadCmX10 E s w = Some (raw, w1)" by (simp add: rear_read)
  define tail where "tail s2 w2 = (let (fresh, w) = rear_isFresh E (r_lastValidTick s2) REAR_ULTRA_STALE_MS w2 in Some ((fresh, s2 :: RearUltrasonicSensor), w))"
    for s2 w2
  have tail: "\<exists>fresh s' w'. tail s2 w2 = Some ((fresh, s'), w') \<and> since E od w0 (n + 6400000) w' \<and>
      rear_sensor_ok s' \<and> (fresh \<longrightarrow> echo_range (r_filteredCmX10 s'))"
    if "since E od w0 (n + 6320000) w2" "rear_sensor_ok s2" for s2 w2
  proof -
    have "since E od w0 (n + 6400000) (snd (aeb_isFresh E (r_lastValidTick s2) REAR_ULTRA_STALE_MS w2))"
      by (rule since_weaken [OF with_since [OF that(1) assms(2)]]) simp
    then show ?thesis using that(2) fresh_in_range [OF that(2), of E REAR_ULTRA_STALE_MS w2]
      by (simp add: tail_def split_beta Let_def rear_time)
  qed
  show ?thesis
  proof (cases raw)
    case None
    then show ?thesis using r tail [OF since_weaken [OF w1] assms(5)]
      by (simp add: rear_ultrasonicUpdate_def tail_def)
  next
    case (Some v)
    from rear_store_ok [OF assms(5) rear_readings [OF r [unfolded Some]], of "clock E w1"]
    obtain t where t: "rear_store_sample v s = Some t" "rear_sensor_ok (t\<lparr>r_lastValidTick := clock E w1\<rparr>)" by blast
    have "since E od w0 (n + 6300000 + 10001) (ReadClock # w1)" by (rule since_od(1) [OF w1 assms(2)])
    then have "since E od w0 (n + 6320000) (ReadClock # w1)" by (rule since_weaken) simp
    from tail [OF this t(2)] show ?thesis
      using r Some t(1) by (simp add: rear_ultrasonicUpdate_def tail_def rear_nowTicks_def stm_now_def)
  qed
qed

section \<open>The published frame\<close>

definition metres_ok :: "f32 \<Rightarrow> bool" where
  "metres_ok x \<longleftrightarrow> is_fin x \<and> 199 / 10000 \<le> fval x \<and> fval x \<le> 5"

text \<open>A distance is between 2 cm (up to rounding) and 5 m where its bit is set, and 0 elsewhere.\<close>

definition ultra_frame_ok :: "AebUltraLmuFrame \<Rightarrow> bool" where
  "ultra_frame_ok u \<longleftrightarrow> u_validMask u \<le> 3 \<and>
     (if u_validMask u AND REAR_VALID_ULTRA_LEFT \<noteq> 0 then metres_ok (u_left u) else u_left u = Fin 0) \<and>
     (if u_validMask u AND REAR_VALID_ULTRA_RIGHT \<noteq> 0 then metres_ok (u_right u) else u_right u = Fin 0)"

lemma metres_scaled:
  assumes "echo_range v"
  shows "metres_ok (fmul (u32_to_f32 (ucast v)) (flit (1 / 1000)))"
proof -
  define q :: real where "q = 8589935 / 8589934592"
  have q: "flit (1 / 1000) = Fin q" by (simp add: flit_def f32_eval q_def)
  have n: "20 \<le> unat v" "unat v \<le> 5000" using assms by (simp_all add: echo_range_def)
  have "u32_to_f32 (ucast v) = Fin (real (unat (ucast v :: u32)))"
    using n by (intro u32_to_f32_small) (simp add: unat_ucast_up)
  then have u: "u32_to_f32 (ucast v) = Fin (real (unat v))" by (simp only: unat_ucast_up)
  have "real 20 \<le> real (unat v)" "real (unat v) \<le> real 5000" using n by (simp_all only: of_nat_le_iff)
  then have b: "20 * q \<le> real (unat v) * q" "real (unat v) * q \<le> 5000 * q" by (simp_all add: q_def)
  have lo: "199 / 10000 \<le> rnd32 (20 * q)" and hi: "rnd32 (5000 * q) \<le> 5" by (simp_all add: q_def f32_eval)
  have r: "199 / 10000 \<le> rnd32 (real (unat v) * q)" "rnd32 (real (unat v) * q) \<le> 5"
    using r32.rnd_mono [OF b(1)] r32.rnd_mono [OF b(2)] lo hi by linarith+
  then have "\<bar>rnd32 (real (unat v) * q)\<bar> < 2 ^ 128" by (simp add: abs_less_iff)
  note m = mk32_fin [OF this]
  show ?thesis using m r by (simp add: metres_ok_def u q fmul_fin)
qed

lemma rear_frame_ok:
  assumes "l \<longrightarrow> echo_range (r_filteredCmX10 (r_left n))" "r \<longrightarrow> echo_range (r_filteredCmX10 (r_right n))"
  shows "ultra_frame_ok (rear_frame l r n)"
  using assms metres_scaled
  by (cases l; cases r) (simp_all add: rear_frame_def ultra_frame_ok_def consts_simps flit_representable Let_def)

section \<open>The cycle\<close>

definition rear_node_ok :: "rear_node \<Rightarrow> bool" where
  "rear_node_ok n \<longleftrightarrow> rear_sensor_ok (r_left n) \<and> rear_sensor_ok (r_right n)"

lemma od_wait [simp]: "od (WaitStm0 n)"
  by (simp add: od_def)

lemma wait_rest:
  assumes "since E od w0 n w" "sane_hw E"
  shows "since E od w0 (n + 10030000) (rear_waitUntilElapsedMs E start REAR_NODE_LOOP_PERIOD_MS w)"
proof -
  let ?p = "rear_ticksFromMs E REAR_NODE_LOOP_PERIOD_MS"
  have p: "unat ?p \<le> 10000000"
    using ticksFromMs_le [OF assms(2), of 50] by (simp add: rear_time REAR_NODE_LOOP_PERIOD_MS_def)
  have c: "since E od w0 (n + 10001) (ReadClock # w)" by (rule since_od(1) [OF assms])
  have "unat (?p - (clock E w - start)) \<le> 10000000" if "clock E w - start < ?p"
    using p that by (simp add: word_less_nat_alt unat_sub word_le_nat_alt)
  then have "since E od w0 (n + 10001 + (10000000 + 10000)) (WaitStm0 (?p - (clock E w - start)) # ReadClock # w)"
    if "clock E w - start < ?p"
    using that since_event [OF c assms(2), of "WaitStm0 (?p - (clock E w - start))" 10000000] by simp
  then show ?thesis using since_weaken [OF c]
    by (auto simp: rear_waitUntilElapsedMs_def rear_nowTicks_def stm_now_def Let_def intro: since_weaken)
qed

lemma ultraRunOnce_ok:
  assumes "sane_hw E" "stm_freq E = Fin f" "10000000 \<le> f" "rear_node_ok n" "lmu_inv mem"
  shows "\<exists>n' mem' w' frame. AebSensorNode_ultraRunOnce E n mem w = Some (n', mem', w') \<and>
    since E od w 24000000 w' \<and> rear_node_ok n' \<and> ultra_frame_ok frame \<and> aeb_writeUltraLmu frame mem = Some mem'"
proof -
  have i: "rear_sensor_ok (r_left n)" "rear_sensor_ok (r_right n)" using assms(4) by (simp_all add: rear_node_ok_def)
  have c: "since E od w (0 + 10001) (ReadClock # w)" by (rule since_od(1) [OF since_refl assms(1)])
  obtain l ls w1 where 1: "rear_ultrasonicUpdate E (r_left n) (ReadClock # w) = Some ((l, ls), w1)"
    "since E od w (0 + 10001 + 6400000) w1" "rear_sensor_ok ls" "l \<longrightarrow> echo_range (r_filteredCmX10 ls)"
    using rear_update [OF c assms(1-3) i(1)] by blast
  have d: "since E od w (0 + 10001 + 6400000 + (max 1 (200 * unat (5000::u32)) + 10000)) (aeb_delayUs E 5000 w1)"
    by (rule since_delayUs [OF 1(2) assms(1)]) simp_all
  obtain r rs w2 where 2: "rear_ultrasonicUpdate E (r_right n) (aeb_delayUs E 5000 w1) = Some ((r, rs), w2)"
    "since E od w (0 + 10001 + 6400000 + (max 1 (200 * unat (5000::u32)) + 10000) + 6400000) w2" "rear_sensor_ok rs" "r \<longrightarrow> echo_range (r_filteredCmX10 rs)"
    using rear_update [OF d assms(1-3) i(2)] by blast
  let ?n = "n\<lparr>r_left := ls, r_right := rs\<rparr>"
  obtain mem' where m: "aeb_writeUltraLmu (rear_frame l r ?n) mem = Some mem'"
    using ultra.write_total [OF assms(5)] by blast
  have f: "ultra_frame_ok (rear_frame l r ?n)" by (rule rear_frame_ok) (use 1 2 in simp_all)
  have "AebSensorNode_ultraRunOnce E n mem w = Some (?n, mem', rear_waitUntilElapsedMs E (clock E w) REAR_NODE_LOOP_PERIOD_MS w2)"
    using 1(1) 2(1) m by (simp add: AebSensorNode_ultraRunOnce_def rear_time aeb_nowTicks_def stm_now_def REAR_ULTRA_CROSSTALK_DELAY_US_def Let_def)
  moreover have "since E od w 24000000 (rear_waitUntilElapsedMs E (clock E w) REAR_NODE_LOOP_PERIOD_MS w2)"
    by (rule since_weaken [OF wait_rest [OF 2(2) assms(1)]]) simp
  ultimately show ?thesis using f m 1(3) 2(3) by (auto simp: rear_node_ok_def)
qed

end
