(* ===== verification/RearNet.thy ===== *)
theory RearNet
  imports RearControl "HOL-Library.Word"
begin

text \<open>
  The network side of the REAR board: udp_txrx.c (commands in, telemetry out),
  BSW/Driver/geth_lwip.c, the timer part of the lwIP port (Ethernet/lwip/port/src/Ifx_Lwip.c),
  \<open>pbuf_copy_partial\<close> of lwIP, and CPU0's main loop (Cpu0_Main.c, gettime.h). Of lwIP itself
  the model uses what the calls return: \<open>drv\<close> gives the result of an allocation, a bind or a
  transmission.
\<close>

section \<open>Packet buffers\<close>

text \<open>A pbuf chain as the list of its segments' payloads. The result is what lands in the
  destination buffer; the loop ends when the length is used up or the chain ends.\<close>

fun pbuf_copy_partial :: "u8 list list \<Rightarrow> nat \<Rightarrow> nat \<Rightarrow> u8 list" where
  "pbuf_copy_partial [] len offset = []"
| "pbuf_copy_partial (p # ps) len offset =
     (if len = 0 then []
      else if offset \<noteq> 0 \<and> length p \<le> offset then pbuf_copy_partial ps len (offset - length p)
      else (let part = take len (drop offset p) in part @ pbuf_copy_partial ps (len - length part) 0))"

section \<open>UDP (udp_txrx.c)\<close>

definition CTR_PORT :: u16 where "CTR_PORT = 5000"
definition HPVC_REAR_COMMAND_PORT :: u16 where "HPVC_REAR_COMMAND_PORT = 5110"
definition DOIP_PORT :: u16 where "DOIP_PORT = 13400"
definition SOMEIP_PORT :: u16 where "SOMEIP_PORT = 30492"

datatype udp_handler = AccRecv | DropRecv

text \<open>A protocol control block that exists: its port and callback once \<open>udp_bind\<close> succeeded.\<close>

type_synonym udp_pcb = "(u16 \<times> udp_handler) option"

record net_state =
  udp_send_pcb :: bool
  udp_ctr_pcb :: "udp_pcb option"
  udp_hpvcrear_pcb :: "udp_pcb option"
  udp_doip_pcb :: "udp_pcb option"
  udp_someip_pcb :: "udp_pcb option"
  pcip :: ip4
  someip_port :: u16

definition net_state_0 :: net_state where
  "net_state_0 = \<lparr>udp_send_pcb = False, udp_ctr_pcb = None, udp_hpvcrear_pcb = None, udp_doip_pcb = None,
     udp_someip_pcb = None, pcip = [0, 0, 0, 0], someip_port = 0\<rparr>"

definition le32 :: "u8 list \<Rightarrow> nat \<Rightarrow> u32" where
  "le32 buf i = ucast (buf ! i) OR push_bit 8 (ucast (buf ! (i + 1))) OR
     push_bit 16 (ucast (buf ! (i + 2))) OR push_bit 24 (ucast (buf ! (i + 3)))"

text \<open>The 32-byte buffer on the stack starts with whatever \<open>stack\<close> holds.\<close>

definition acc_recv_buf :: "u8 list \<Rightarrow> u8 list list \<Rightarrow> u8 list" where
  "acc_recv_buf stack p = put_at 0 (pbuf_copy_partial p 32 0) stack"

definition acc_recv_cmd :: "u8 list \<Rightarrow> DriveCmd" where
  "acc_recv_cmd buf = \<lparr>control_mode = buf ! 16, drive_direction = buf ! 17,
     target_speed = f32_of_bits (le32 buf 20), accel_cmd = f32_of_bits (le32 buf 24),
     emergency_stop = buf ! 28\<rparr>"

definition udp_receive_acc_recv ::
    "u8 list \<Rightarrow> u8 list list option \<Rightarrow> ip4 option \<Rightarrow> net_state \<Rightarrow> lmu \<Rightarrow> (net_state \<times> lmu) option" where
  "udp_receive_acc_recv stack p addr n mem =
     (case p of None \<Rightarrow> Some (n, mem) | Some p \<Rightarrow> do {
        let n = (case addr of None \<Rightarrow> n | Some a \<Rightarrow> n\<lparr>pcip := a\<rparr>);
        let buf = acc_recv_buf stack p;
        let cmd = acc_recv_cmd buf;
        mem \<leftarrow> Cpu0_WriteDriveCmd cmd mem;
        Some (n, mem) })"

definition udp_drop_recv :: "u8 list list option \<Rightarrow> net_state \<Rightarrow> lmu \<Rightarrow> (net_state \<times> lmu) option" where
  "udp_drop_recv p n mem = Some (n, mem)"

text \<open>Error codes of lwIP.\<close>

datatype err = ERR_OK | ERR_ARG | ERR_MEM | ERR_OTHER u32

definition err_of :: "u32 \<Rightarrow> err" where
  "err_of e = (if e = 0 then ERR_OK else ERR_OTHER e)"

definition payload_size :: "field list \<Rightarrow> nat" where
  "payload_size data = sum_list (map field_size data)"

text \<open>The common sending routine; \<open>data\<close> is what lies behind the pointer, if it is not null.\<close>

definition UdpSend_WithPcb ::
    "rear_hw \<Rightarrow> string \<Rightarrow> bool \<Rightarrow> ip4 option \<Rightarrow> u16 \<Rightarrow> field list option \<Rightarrow> rtrace \<Rightarrow> err \<times> rtrace" where
  "UdpSend_WithPcb E name pcb dst_addr dst_port data w =
     (case (pcb, dst_addr, data) of
        (True, Some a, Some d) \<Rightarrow>
          if payload_size d = 0 then (ERR_ARG, w)
          else (let (p, w) = call_drv E ''pbuf_alloc'' [of_nat (payload_size d)] w in
            if p = 0 then (ERR_MEM, w)
            else (let e = drv E w ''udp_sendto''; w = UdpSend name a dst_port d # w;
                      w = Call ''pbuf_free'' [] # w
                  in (err_of e, w)))
      | _ \<Rightarrow> (ERR_ARG, w))"

definition UdpSendToPC :: "rear_hw \<Rightarrow> u16 \<Rightarrow> field list option \<Rightarrow> net_state \<Rightarrow> rtrace \<Rightarrow> err \<times> rtrace" where
  "UdpSendToPC E dst_port data n w =
     UdpSend_WithPcb E ''udp_send_pcb'' (udp_send_pcb n) (Some (pcip n)) dst_port data w"

definition UdpSendToRPi :: "rear_hw \<Rightarrow> u16 \<Rightarrow> field list option \<Rightarrow> net_state \<Rightarrow> rtrace \<Rightarrow> err \<times> rtrace" where
  "UdpSendToRPi E dst_port data n w =
     UdpSend_WithPcb E ''udp_send_pcb'' (udp_send_pcb n) (Some [192, 168, 10, 1]) dst_port data w"

definition UdpSendSomeIpResponse :: "rear_hw \<Rightarrow> field list option \<Rightarrow> net_state \<Rightarrow> rtrace \<Rightarrow> err \<times> rtrace" where
  "UdpSendSomeIpResponse E data n w =
     UdpSend_WithPcb E ''udp_someip_pcb'' (udp_someip_pcb n \<noteq> None) (Some (pcip n)) (someip_port n) data w"

definition UdpSend_to :: "rear_hw \<Rightarrow> ip4 option \<Rightarrow> u16 \<Rightarrow> field list option \<Rightarrow> net_state \<Rightarrow> rtrace \<Rightarrow> err \<times> rtrace" where
  "UdpSend_to E dst_addr dst_port data n w =
     UdpSend_WithPcb E ''udp_send_pcb'' (udp_send_pcb n) dst_addr dst_port data w"

definition UdpSendBroadcast :: "rear_hw \<Rightarrow> u16 \<Rightarrow> field list option \<Rightarrow> net_state \<Rightarrow> rtrace \<Rightarrow> err \<times> rtrace" where
  "UdpSendBroadcast E dst_port data n w =
     (let w = (if udp_send_pcb n then Call ''ip_set_option(SOF_BROADCAST)'' [] # w else w)
      in UdpSend_to E (Some [255, 255, 255, 255]) dst_port data n w)"

text \<open>Opening a port: allocate, bind, and register the callback when the bind succeeded.\<close>

definition open_port :: "rear_hw \<Rightarrow> u16 \<Rightarrow> udp_handler \<Rightarrow> rtrace \<Rightarrow> udp_pcb option \<times> rtrace" where
  "open_port E port h w =
     (let (pcb, w) = call_drv E ''udp_new_ip_type'' [] w in
      if pcb = 0 then (None, w)
      else (let (e, w) = call_drv E ''udp_bind'' [ucast port] w in
        if e = 0 then (Some (Some (port, h)), Call ''udp_recv'' [ucast port] # w) else (Some None, w)))"

definition UdpInit :: "rear_hw \<Rightarrow> net_state \<Rightarrow> rtrace \<Rightarrow> net_state \<times> rtrace" where
  "UdpInit E n w =
     (let (pcb, w) = call_drv E ''udp_new_ip_type'' [] w;
          n = n\<lparr>udp_send_pcb := (pcb \<noteq> 0), pcip := [192, 168, 10, 1]\<rparr>;
          (ctr, w) = open_port E CTR_PORT AccRecv w;
          (hpvc, w) = open_port E HPVC_REAR_COMMAND_PORT AccRecv w;
          (doip, w) = open_port E DOIP_PORT DropRecv w;
          (someip, w) = open_port E SOMEIP_PORT DropRecv w
      in (n\<lparr>udp_ctr_pcb := ctr, udp_hpvcrear_pcb := hpvc, udp_doip_pcb := doip, udp_someip_pcb := someip\<rparr>, w))"

section \<open>Timers of the stack (Ifx_Lwip.c) and geth_lwip.c\<close>

definition IFX_LWIP_ARP_PERIOD :: u16 where "IFX_LWIP_ARP_PERIOD = 1000"
definition IFX_LWIP_TCP_FAST_PERIOD :: u16 where "IFX_LWIP_TCP_FAST_PERIOD = 250"
definition IFX_LWIP_TCP_SLOW_PERIOD :: u16 where "IFX_LWIP_TCP_SLOW_PERIOD = 500"
definition IFX_LWIP_LINK_PERIOD :: u16 where "IFX_LWIP_LINK_PERIOD = 100"
definition IFX_LWIP_FLAG_ARP :: u16 where "IFX_LWIP_FLAG_ARP = push_bit 1 1"
definition IFX_LWIP_FLAG_TCP_FAST :: u16 where "IFX_LWIP_FLAG_TCP_FAST = push_bit 2 1"
definition IFX_LWIP_FLAG_TCP_SLOW :: u16 where "IFX_LWIP_FLAG_TCP_SLOW = push_bit 3 1"
definition IFX_LWIP_FLAG_LINK :: u16 where "IFX_LWIP_FLAG_LINK = push_bit 4 1"

lemmas lwip_consts [consts_simps] =
  IFX_LWIP_ARP_PERIOD_def IFX_LWIP_TCP_FAST_PERIOD_def IFX_LWIP_TCP_SLOW_PERIOD_def IFX_LWIP_LINK_PERIOD_def
  IFX_LWIP_FLAG_ARP_def IFX_LWIP_FLAG_TCP_FAST_def IFX_LWIP_FLAG_TCP_SLOW_def IFX_LWIP_FLAG_LINK_def

record lwip_timers =
  tmr_arp :: u16
  tmr_tcp_fast :: u16
  tmr_tcp_slow :: u16
  tmr_link :: u16
  timerFlags :: u16
  g_TickCount_1ms :: u32

text \<open>The macro increments a counter and raises its flag when the period is over.\<close>

definition Ifx_Lwip_timerIncr :: "u16 \<Rightarrow> u16 \<Rightarrow> u16 \<Rightarrow> u16 \<Rightarrow> u16 \<times> u16" where
  "Ifx_Lwip_timerIncr var period flag flags =
     (let var = var + 1 in if period \<le> var then (0, flags OR flag) else (var, flags))"

definition Ifx_Lwip_onTimerTick :: "lwip_timers \<Rightarrow> lwip_timers" where
  "Ifx_Lwip_onTimerTick t =
     (let flags = timerFlags t;
          (arp, flags) = Ifx_Lwip_timerIncr (tmr_arp t) IFX_LWIP_ARP_PERIOD IFX_LWIP_FLAG_ARP flags;
          (fast, flags) = Ifx_Lwip_timerIncr (tmr_tcp_fast t) IFX_LWIP_TCP_FAST_PERIOD IFX_LWIP_FLAG_TCP_FAST flags;
          (slow, flags) = Ifx_Lwip_timerIncr (tmr_tcp_slow t) IFX_LWIP_TCP_SLOW_PERIOD IFX_LWIP_FLAG_TCP_SLOW flags;
          (link, flags) = Ifx_Lwip_timerIncr (tmr_link t) IFX_LWIP_LINK_PERIOD IFX_LWIP_FLAG_LINK flags
      in t\<lparr>tmr_arp := arp, tmr_tcp_fast := fast, tmr_tcp_slow := slow, tmr_link := link, timerFlags := flags\<rparr>)"

definition Get_SystemTime_ms :: "lwip_timers \<Rightarrow> u32" where
  "Get_SystemTime_ms t = g_TickCount_1ms t"

definition sys_now :: "lwip_timers \<Rightarrow> u32" where
  "sys_now t = g_TickCount_1ms t"

text \<open>What a poll finds due: the flags are taken and cleared with interrupts off.\<close>

datatype due = TcpFast | TcpSlow | Arp | Link

definition take_timerFlags :: "lwip_timers \<Rightarrow> u16 \<times> lwip_timers" where
  "take_timerFlags t = (timerFlags t, t\<lparr>timerFlags := 0\<rparr>)"

definition due_of :: "u16 \<Rightarrow> due list" where
  "due_of flags =
     (if flags AND IFX_LWIP_FLAG_TCP_FAST \<noteq> 0 then [TcpFast] else []) @
     (if flags AND IFX_LWIP_FLAG_TCP_SLOW \<noteq> 0 then [TcpSlow] else []) @
     (if flags AND IFX_LWIP_FLAG_ARP \<noteq> 0 then [Arp] else []) @
     (if flags AND IFX_LWIP_FLAG_LINK \<noteq> 0 then [Link] else [])"

text \<open>The protocol timers run only with a link; the link check sets duplex mode and speed from
  the status word of the PHY and reports the link to lwIP.\<close>

definition check_link :: "rear_hw \<Rightarrow> rtrace \<Rightarrow> bool \<times> rtrace" where
  "check_link E w =
     (let (s, w) = call_drv E ''IfxGeth_Eth_Phy_Dp83825i_link_status'' [] w;
          (sts, md, speed) = link_fields E s in
      if sts = 0 then (False, Call ''netif_set_link_down'' [] # w)
      else (let w = Call ''IfxGeth_mac_setDuplexMode'' [if md = 1 then 1 else 0] # w;
                w = Call ''IfxGeth_mac_setLineSpeed''
                      [if speed = 0 then 10 else if speed = 1 then 100 else 1000] # w
            in (True, Call ''netif_set_link_up'' [] # w)))"

definition run_due :: "rear_hw \<Rightarrow> due \<Rightarrow> bool \<times> rtrace \<Rightarrow> bool \<times> rtrace" where
  "run_due E d = (\<lambda>(link_up, w).
     case d of
       TcpFast \<Rightarrow> (link_up, if link_up then Call ''tcp_fasttmr'' [] # w else w)
     | TcpSlow \<Rightarrow> (link_up, if link_up then Call ''tcp_slowtmr'' [] # w else w)
     | Arp \<Rightarrow> (link_up, if link_up then Call ''etharp_tmr'' [] # w else w)
     | Link \<Rightarrow> check_link E w)"

definition Ifx_Lwip_pollTimerFlags :: "rear_hw \<Rightarrow> lwip_timers \<Rightarrow> bool \<times> rtrace \<Rightarrow> lwip_timers \<times> bool \<times> rtrace" where
  "Ifx_Lwip_pollTimerFlags E t lw =
     (let (flags, t) = take_timerFlags t in (t, fold (run_due E) (due_of flags) lw))"

definition Ifx_Lwip_pollReceiveFlags :: "rtrace \<Rightarrow> rtrace" where
  "Ifx_Lwip_pollReceiveFlags w = Call ''ifx_netif_input'' [] # w"

text \<open>Initialisation of the stack: addresses, interface, multicast group.\<close>

definition Ifx_Lwip_init :: "rear_hw \<Rightarrow> u8 list \<Rightarrow> rtrace \<Rightarrow> rtrace" where
  "Ifx_Lwip_init E ethAddr w =
     (let w = Call ''lwip_init'' [] # w;
          w = Call ''netif_add'' ([192, 168, 10, 12] @ [255, 255, 255, 0] @ [192, 168, 10, 1] @ map ucast ethAddr) # w;
          w = Call ''netif_set_default'' [] # w;
          w = Call ''igmp_start'' [] # w;
          w = Call ''netif_set_up'' [] # w;
          w = Call ''netif_add_ext_callback'' [] # w;
          (e, w) = call_drv E ''igmp_joingroup'' [192, 168, 10, 12, 224, 224, 224, 245] w
      in Call (if e = 0 then ''my_printf(joined)'' else ''my_printf(failed)'') [e] # w)"

definition initStmForLwip :: "rtrace \<Rightarrow> rtrace" where
  "initStmForLwip w =
     Call ''IfxStm_initCompare(STM0)'' [ISR_PRIORITY_OS_TICK, 0, IFX_CFG_STM_TICKS_PER_MS * 10, 0] # w"

definition initLwip :: "rear_hw \<Rightarrow> u8 list \<Rightarrow> rtrace \<Rightarrow> u8 list \<times> rtrace" where
  "initLwip E mac w = (let w = initStmForLwip w; g_srcAddr = take 6 mac in (g_srcAddr, Ifx_Lwip_init E mac w))"

definition updateLwIPStackISR :: "lwip_timers \<Rightarrow> rtrace \<Rightarrow> lwip_timers \<times> rtrace" where
  "updateLwIPStackISR t w =
     (let w = Call ''IfxStm_increaseCompare(STM0)'' [0, IFX_CFG_STM_TICKS_PER_MS] # w;
          t = t\<lparr>g_TickCount_1ms := g_TickCount_1ms t + 1\<rparr>
      in (Ifx_Lwip_onTimerTick t, w))"

definition IFXGETH_HEADER_LENGTH :: nat where "IFXGETH_HEADER_LENGTH = 14"
definition IFXGETH_MAX_TX_BUFFER_SIZE :: nat where "IFXGETH_MAX_TX_BUFFER_SIZE = 2560 + IFXGETH_HEADER_LENGTH + 2"

text \<open>Raw Ethernet frames. The wait for the transmit interrupt has no time limit.\<close>

definition geth_tx_round :: "rear_hw \<Rightarrow> rtrace \<Rightarrow> (unit option \<times> rtrace) option" where
  "geth_tx_round E w =
     (let (flag, w) = call_drv E ''IfxGeth_dma_isInterruptFlagSet'' [] w
      in Some (if flag = 0 then None else Some (), w))"

definition geth_sendETH ::
    "rear_hw \<Rightarrow> u8 list \<Rightarrow> u8 list \<Rightarrow> u8 list \<Rightarrow> rtrace \<Rightarrow> (unit \<times> rtrace) option" where
  "geth_sendETH E g_srcAddr destAddr payload w =
     (let packetLength = IFXGETH_HEADER_LENGTH + length payload;
          w = Call ''IfxGeth_Eth_waitTransmitBuffer'' [] # w;
          header = take 6 destAddr @ take 6 g_srcAddr @ [0, 0]
      in if IFXGETH_MAX_TX_BUFFER_SIZE < packetLength then None else do {
        let w = Call ''IfxGeth_dma_clearInterruptFlag'' [] # w;
        let w = GethSend (header @ payload) (of_nat packetLength) # w;
        (_, w) \<leftarrow> poll_loop (geth_tx_round E) w;
        Some ((), Call ''IfxGeth_dma_clearInterruptFlag'' [] # w) })"

definition geth_rx_round :: "rear_hw \<Rightarrow> rtrace \<Rightarrow> (unit option \<times> rtrace) option" where
  "geth_rx_round E w =
     (let (avail, w) = call_drv E ''IfxGeth_Eth_isRxDataAvailable'' [] w
      in Some (if avail = 1 then Some () else None, w))"

text \<open>The length is where the first zero byte after the header lies; there may be none in
  the buffer.\<close>

fun zero_at :: "u8 list \<Rightarrow> nat option" where
  "zero_at [] = None"
| "zero_at (b # bs) = (if b = 0 then Some 0 else map_option Suc (zero_at bs))"

definition geth_recvETH :: "rear_hw \<Rightarrow> rtrace \<Rightarrow> ((u8 list \<times> nat) \<times> rtrace) option" where
  "geth_recvETH E w = do {
     (_, w) \<leftarrow> poll_loop (geth_rx_round E) w;
     let pRxBuf = eth_rx E w;
     payloadLength \<leftarrow> zero_at (drop 14 pRxBuf);
     Some ((take payloadLength pRxBuf, payloadLength), Call ''IfxGeth_Eth_freeReceiveBuffer'' [] # w) }"

section \<open>CPU0 (Cpu0_Main.c)\<close>

record RearHpvcStatusFrame =
  rear_left_m :: f32
  rear_right_m :: f32
  vehicle_speed_mps :: f32
  valid_mask_hpvc :: u8
  motor_state :: u8
  alive_count :: u8
  reserved :: u8

definition telem_fields :: "TelemFrame \<Rightarrow> field list" where
  "telem_fields t = [F32 (t_v_ref t), F32 (t_v_meas t), F32 (t_u t), F32 (t_a_cmd t), F32 (t_i_term t)]"

definition rear_fields :: "RearHpvcStatusFrame \<Rightarrow> field list" where
  "rear_fields f = [F32 (rear_left_m f), F32 (rear_right_m f), F32 (vehicle_speed_mps f), U8 (valid_mask_hpvc f),
     U8 (motor_state f), U8 (alive_count f), U8 (reserved f)]"

record cpu0_state =
  net :: net_state
  last_send_time :: u32
  ultra_alive :: u8
  link_is_up :: bool

definition rear_status :: "TelemFrame \<Rightarrow> AebUltraLmuFrame \<Rightarrow> u8 \<Rightarrow> RearHpvcStatusFrame" where
  "rear_status tf u alive = \<lparr>rear_left_m = u_left u, rear_right_m = u_right u, vehicle_speed_mps = t_v_meas tf,
     valid_mask_hpvc = u_validMask u, motor_state = 2, alive_count = alive AND 0x0F, reserved = 0\<rparr>"

text \<open>The part of a round that sends, given the time that was read.\<close>

definition cpu0_send :: "rear_hw \<Rightarrow> u32 \<Rightarrow> cpu0_state \<Rightarrow> lmu \<Rightarrow> rtrace \<Rightarrow> (cpu0_state \<times> rtrace) option" where
  "cpu0_send E current_time c mem w =
     (if 20 \<le> current_time - last_send_time c then do {
        let c = c\<lparr>last_send_time := current_time\<rparr>;
        tf \<leftarrow> Cpu0_ReadTelem mem;
        let (_, w) = UdpSendToPC E 5001 (Some (telem_fields tf)) (net c) w;
        u \<leftarrow> Cpu0_ReadUltra mem;
        let rear = rear_status tf u (ultra_alive c);
        let c = c\<lparr>ultra_alive := ultra_alive c + 1\<rparr>;
        let (_, w) = UdpSendToPC E 5012 (Some (rear_fields rear)) (net c) w;
        Some (c, w) }
      else Some (c, w))"

definition cpu0_round ::
    "rear_hw \<Rightarrow> lwip_timers \<Rightarrow> cpu0_state \<Rightarrow> lmu \<Rightarrow> rtrace \<Rightarrow> (lwip_timers \<times> cpu0_state \<times> rtrace) option" where
  "cpu0_round E t c mem w = do {
     let (t, link, w) = Ifx_Lwip_pollTimerFlags E t (link_is_up c, w);
     let c = c\<lparr>link_is_up := link\<rparr>;
     let w = Ifx_Lwip_pollReceiveFlags w;
     let current_time = Get_SystemTime_ms t;
     (c, w) \<leftarrow> cpu0_send E current_time c mem w;
     Some (t, c, w) }"

definition core0_main_ethAddr :: "u8 list" where
  "core0_main_ethAddr = [0x00, 0x00, 0x0c, 0x11, 0x11, 0x11]"

text \<open>Up to the endless loop.\<close>

definition core0_main_init :: "rear_hw \<Rightarrow> (rtrace \<Rightarrow> rtrace) \<Rightarrow> lwip_timers \<Rightarrow> rtrace \<Rightarrow> cpu0_state \<times> rtrace" where
  "core0_main_init E uart_init t w =
     (let w = Call ''IfxCpu_enableInterrupts'' [] # w;
          w = Call ''IfxScuWdt_disableCpuWatchdog'' [] # w;
          w = Call ''IfxScuWdt_disableSafetyWatchdog'' [] # w;
          w = uart_init w;
          w = Spin 10000000 # w;
          (_, w) = initLwip E core0_main_ethAddr w;
          (n, w) = UdpInit E net_state_0 w;
          w = Call ''IfxCpu_emitEvent'' [] # w;
          w = Call ''IfxCpu_waitEvent'' [1] # w
      in (\<lparr>net = n, last_send_time = Get_SystemTime_ms t, ultra_alive = 0, link_is_up = False\<rparr>, w))"

end
