(* ===== verification/RearNet_Facts.thy ===== *)
theory RearNet_Facts
  imports RearNet
begin

text \<open>
  Facts about the network side of REAR: a command does not depend on how lwIP split the
  datagram, and no period of the stack's timers is lost between two polls.
\<close>

section \<open>Packet buffers\<close>

lemma pbuf_copy_partial_concat: "pbuf_copy_partial p len off = take len (drop off (concat p))"
proof (induction p len off rule: pbuf_copy_partial.induct)
  case (2 p ps len off)
  then show ?case by (auto simp: Let_def min_def)
qed simp

lemma acc_recv_buf_full:
  assumes "length stack = 32" "29 \<le> length (concat p)" "i < 29"
  shows "acc_recv_buf stack p ! i = concat p ! i"
  using assms by (simp add: acc_recv_buf_def pbuf_copy_partial_concat nth_put_at)

lemma acc_recv_buf_short:
  assumes "length stack = 32" "length (concat p) \<le> i" "i < 32"
  shows "acc_recv_buf stack p ! i = stack ! i"
  using assms by (simp add: acc_recv_buf_def pbuf_copy_partial_concat nth_put_at)

lemma le32_cong: "(\<And>j. j < 4 \<Longrightarrow> b ! (i + j) = b' ! (i + j)) \<Longrightarrow> le32 b i = le32 b' i"
proof -
  assume h: "\<And>j. j < 4 \<Longrightarrow> b ! (i + j) = b' ! (i + j)"
  from h [of 0] h [of 1] h [of 2] h [of 3] show ?thesis by (simp add: le32_def)
qed

lemma acc_recv_cmd_cong:
  assumes "\<And>i. 16 \<le> i \<Longrightarrow> i < 29 \<Longrightarrow> b ! i = b' ! i"
  shows "acc_recv_cmd b = acc_recv_cmd b'"
proof -
  have "le32 b 20 = le32 b' 20" "le32 b 24 = le32 b' 24" by (rule le32_cong, rule assms; simp)+
  then show ?thesis using assms [of 16] assms [of 17] assms [of 28] by (simp add: acc_recv_cmd_def)
qed

text \<open>The bytes of a word in memory order.\<close>

definition le_bytes :: "u32 \<Rightarrow> u8 list" where
  "le_bytes v = [ucast v, ucast (drop_bit 8 v), ucast (drop_bit 16 v), ucast (drop_bit 24 v)]"

lemma le32_le_bytes: "le32 (le_bytes v) 0 = v"
  unfolding le32_def le_bytes_def
  by (rule bit_word_eqI, rename_tac n, case_tac "n < 8"; case_tac "n < 16"; case_tac "n < 24") (auto simp: bit_simps not_less)

lemma le32_append: "length xs = i \<Longrightarrow> le32 (xs @ le_bytes v @ ys) i = v"
proof -
  assume "length xs = i"
  then have "le32 (xs @ le_bytes v @ ys) i = le32 (le_bytes v) 0"
    by (simp add: le32_def nth_append le_bytes_def)
  then show ?thesis by (simp add: le32_le_bytes)
qed

section \<open>The timers of the stack\<close>

fun period_of :: "due \<Rightarrow> nat" where
  "period_of TcpFast = 250"
| "period_of TcpSlow = 500"
| "period_of Arp = 1000"
| "period_of Link = 100"

fun counter_of :: "due \<Rightarrow> lwip_timers \<Rightarrow> u16" where
  "counter_of TcpFast t = tmr_tcp_fast t"
| "counter_of TcpSlow t = tmr_tcp_slow t"
| "counter_of Arp t = tmr_arp t"
| "counter_of Link t = tmr_link t"

fun flag_bit :: "due \<Rightarrow> nat" where
  "flag_bit Arp = 1"
| "flag_bit TcpFast = 2"
| "flag_bit TcpSlow = 3"
| "flag_bit Link = 4"

definition timers_ok :: "lwip_timers \<Rightarrow> bool" where
  "timers_ok t \<longleftrightarrow> (\<forall>d. unat (counter_of d t) < period_of d)"

lemma bit_flag: "m < 16 \<Longrightarrow> bit (push_bit m (1 :: u16)) n \<longleftrightarrow> n = m"
  unfolding bit_push_bit_iff bit_1_iff possible_bit_word by auto

lemma flag_test: "n < 16 \<Longrightarrow> (flags AND push_bit n 1 \<noteq> 0) \<longleftrightarrow> bit (flags :: u16) n"
proof -
  assume n: "n < 16"
  have "bit (flags AND push_bit n 1) k \<longleftrightarrow> k = n \<and> bit flags n" for k
    unfolding bit_and_iff bit_flag [OF n] by auto
  then show ?thesis by (metis bit_0_eq bit_eqI bot_apply bot_bool_def)
qed

lemma flag_tests: "(flags AND IFX_LWIP_FLAG_ARP \<noteq> 0) \<longleftrightarrow> bit flags 1" "(flags AND IFX_LWIP_FLAG_TCP_FAST \<noteq> 0) \<longleftrightarrow> bit flags 2"
  "(flags AND IFX_LWIP_FLAG_TCP_SLOW \<noteq> 0) \<longleftrightarrow> bit flags 3" "(flags AND IFX_LWIP_FLAG_LINK \<noteq> 0) \<longleftrightarrow> bit flags 4"
  unfolding IFX_LWIP_FLAG_ARP_def IFX_LWIP_FLAG_TCP_FAST_def IFX_LWIP_FLAG_TCP_SLOW_def IFX_LWIP_FLAG_LINK_def
  by (rule flag_test; simp)+

lemma due_of_bit: "d \<in> set (due_of flags) \<longleftrightarrow> bit flags (flag_bit d)"
  unfolding due_of_def flag_tests by (cases d) auto

lemma flag_bits: "bit IFX_LWIP_FLAG_ARP n \<longleftrightarrow> n = 1" "bit IFX_LWIP_FLAG_TCP_FAST n \<longleftrightarrow> n = 2"
  "bit IFX_LWIP_FLAG_TCP_SLOW n \<longleftrightarrow> n = 3" "bit IFX_LWIP_FLAG_LINK n \<longleftrightarrow> n = 4"
  unfolding IFX_LWIP_FLAG_ARP_def IFX_LWIP_FLAG_TCP_FAST_def IFX_LWIP_FLAG_TCP_SLOW_def IFX_LWIP_FLAG_LINK_def
  by (rule bit_flag; simp)+

lemma distinct_due: "distinct (due_of flags)"
  by (simp add: due_of_def)

lemma timerIncr:
  assumes "unat var < p" "p \<le> 1000"
  shows "Ifx_Lwip_timerIncr var (of_nat p) flag flags =
    (if unat var + 1 = p then (0, flags OR flag) else (var + 1, flags))"
    "unat (fst (Ifx_Lwip_timerIncr var (of_nat p) flag flags)) = (unat var + 1) mod p"
proof -
  have p: "unat (of_nat p :: u16) = p" using assms by (simp add: unat_of_nat take_bit_nat_eq_self)
  have v: "unat (var + 1) = unat var + 1" using assms by (simp add: unat_word_ariths)
  show e: "Ifx_Lwip_timerIncr var (of_nat p) flag flags =
    (if unat var + 1 = p then (0, flags OR flag) else (var + 1, flags))"
    using assms by (auto simp: Ifx_Lwip_timerIncr_def Let_def word_le_nat_alt p v)
  show "unat (fst (Ifx_Lwip_timerIncr var (of_nat p) flag flags)) = (unat var + 1) mod p"
    unfolding e using assms v by auto
qed

lemma tick:
  assumes "timers_ok t"
  shows "unat (counter_of d (Ifx_Lwip_onTimerTick t)) = (unat (counter_of d t) + 1) mod period_of d"
    "bit (timerFlags (Ifx_Lwip_onTimerTick t)) (flag_bit d) \<longleftrightarrow>
       bit (timerFlags t) (flag_bit d) \<or> unat (counter_of d t) + 1 = period_of d"
proof -
  have c: "unat (tmr_arp t) < 1000" "unat (tmr_tcp_fast t) < 250" "unat (tmr_tcp_slow t) < 500" "unat (tmr_link t) < 100"
    using assms unfolding timers_ok_def by (metis counter_of.simps period_of.simps)+
  have k: "IFX_LWIP_ARP_PERIOD = 1000" "IFX_LWIP_TCP_FAST_PERIOD = 250"
    "IFX_LWIP_TCP_SLOW_PERIOD = 500" "IFX_LWIP_LINK_PERIOD = 100" by (simp_all add: lwip_consts)
  note i = timerIncr(1) [OF c(1), simplified] timerIncr(1) [OF c(2), simplified]
    timerIncr(1) [OF c(3), simplified] timerIncr(1) [OF c(4), simplified]
  have v: "unat (tmr_arp t + 1) = unat (tmr_arp t) + 1" "unat (tmr_tcp_fast t + 1) = unat (tmr_tcp_fast t) + 1"
    "unat (tmr_tcp_slow t + 1) = unat (tmr_tcp_slow t) + 1" "unat (tmr_link t + 1) = unat (tmr_link t) + 1"
    using c by (simp_all add: unat_word_ariths)
  show "unat (counter_of d (Ifx_Lwip_onTimerTick t)) = (unat (counter_of d t) + 1) mod period_of d"
    using c v by (cases d) (auto simp: Ifx_Lwip_onTimerTick_def k i Let_def)
  show "bit (timerFlags (Ifx_Lwip_onTimerTick t)) (flag_bit d) \<longleftrightarrow>
       bit (timerFlags t) (flag_bit d) \<or> unat (counter_of d t) + 1 = period_of d"
    by (cases d) (auto simp: Ifx_Lwip_onTimerTick_def k i Let_def bit_or_iff flag_bits)
qed

lemma period_pos: "0 < period_of d"
  by (cases d) simp_all

lemma tick_ok: "timers_ok t \<Longrightarrow> timers_ok (Ifx_Lwip_onTimerTick t)"
  using period_pos by (simp add: timers_ok_def [of "Ifx_Lwip_onTimerTick t"] tick)

text \<open>n ticks without a poll.\<close>

lemma ticks:
  assumes "timers_ok t"
  shows "timers_ok ((Ifx_Lwip_onTimerTick ^^ n) t) \<and>
    unat (counter_of d ((Ifx_Lwip_onTimerTick ^^ n) t)) = (unat (counter_of d t) + n) mod period_of d \<and>
    (bit (timerFlags ((Ifx_Lwip_onTimerTick ^^ n) t)) (flag_bit d) \<longleftrightarrow>
      bit (timerFlags t) (flag_bit d) \<or> period_of d \<le> unat (counter_of d t) + n)"
proof (induction n)
  case 0
  have "unat (counter_of d t) < period_of d" using assms by (simp add: timers_ok_def)
  then show ?case using assms by simp
next
  case (Suc n)
  let ?t = "(Ifx_Lwip_onTimerTick ^^ n) t"
  let ?c = "unat (counter_of d t)" and ?p = "period_of d"
  have ok: "timers_ok ?t" using Suc by blast
  have c: "unat (counter_of d ?t) = (?c + n) mod ?p" using Suc by blast
  have lt: "?c < ?p" using assms by (simp add: timers_ok_def)
  have "(?c + n) mod ?p + 1 = ?p \<Longrightarrow> ?p \<le> ?c + Suc n"
    using mod_less_eq_dividend [of "?c + n" ?p] by linarith
  moreover have "?p \<le> ?c + Suc n \<Longrightarrow> \<not> ?p \<le> ?c + n \<Longrightarrow> (?c + n) mod ?p + 1 = ?p"
    by simp
  ultimately show ?case
    using tick_ok [OF ok] tick [OF ok, of d] Suc c by (simp add: mod_Suc_eq) (auto simp: mod_simps)
qed

text \<open>A sequence of polls, each after a number of ticks, and how often it reports a timer.\<close>

fun reports :: "due \<Rightarrow> nat list \<Rightarrow> lwip_timers \<Rightarrow> nat" where
  "reports d [] t = 0"
| "reports d (g # gs) t =
     (let (flags, t) = take_timerFlags ((Ifx_Lwip_onTimerTick ^^ g) t)
      in (if d \<in> set (due_of flags) then 1 else 0) + reports d gs t)"

lemma reports_exact:
  assumes "timers_ok t" "timerFlags t = 0" "\<forall>g \<in> set gs. g \<le> period_of d"
  shows "reports d gs t = (unat (counter_of d t) + sum_list gs) div period_of d"
  using assms
proof (induction gs arbitrary: t)
  case Nil
  then show ?case by (simp add: timers_ok_def)
next
  case (Cons g gs)
  let ?t = "(Ifx_Lwip_onTimerTick ^^ g) t"
  let ?c = "unat (counter_of d t)" and ?p = "period_of d"
  have t: "timers_ok ?t" "unat (counter_of d ?t) = (?c + g) mod ?p"
    "bit (timerFlags ?t) (flag_bit d) \<longleftrightarrow> ?p \<le> ?c + g"
    using ticks [OF Cons.prems(1), of g d] Cons.prems(2) by simp_all
  have k: "counter_of x (?t\<lparr>timerFlags := 0\<rparr>) = counter_of x ?t" for x by (cases x) simp_all
  have ok: "timers_ok (?t\<lparr>timerFlags := 0\<rparr>)" using t(1) unfolding timers_ok_def k .
  have IH: "reports d gs (?t\<lparr>timerFlags := 0\<rparr>) = ((?c + g) mod ?p + sum_list gs) div ?p"
    using Cons.IH [OF ok] Cons.prems(3) by (simp add: k t(2))
  have lt: "?c < ?p" using Cons.prems(1) by (simp add: timers_ok_def)
  moreover have "g \<le> ?p" using Cons.prems(3) by simp
  ultimately have "(?c + g) div ?p = (if ?p \<le> ?c + g then 1 else 0)"
    by (auto intro: div_nat_eqI)
  moreover have "(?c + (g + sum_list gs)) div ?p = (?c + g) div ?p + ((?c + g) mod ?p + sum_list gs) div ?p"
  proof -
    have "?c + (g + sum_list gs) = ((?c + g) mod ?p + sum_list gs) + ?p * ((?c + g) div ?p)"
      using div_mult_mod_eq [of "?c + g" ?p] by (simp add: mult.commute)
    also have "\<dots> div ?p = (?c + g) div ?p + ((?c + g) mod ?p + sum_list gs) div ?p"
      using period_pos [of d] by (subst div_mult_self2) simp_all
    finally show ?thesis .
  qed
  ultimately show ?case using IH by (simp add: take_timerFlags_def due_of_bit t(3) Let_def)
qed

end
