(* ===== verification/RearSystem.thy ===== *)
theory RearSystem
  imports RearAcc_Facts RearUltra_Facts RearNet_Facts
begin

text \<open>
  The REAR board as a whole: its three cores as a transition system over the shared memory. The
  steps are a received datagram and the rest of a round of the main loop (CPU0), the millisecond
  interrupt, a run of the controller (CPU1) and a measurement cycle (CPU2); they interleave
  in any order. Within a step the accesses to the shared memory are not interrupted; that this
  is justified is the subject of \<open>RearRace\<close>.
\<close>

record rear_sys =
  mem :: lmu
  ctl :: cpu1_state
  mot :: motors
  main0 :: cpu0_state
  tmr :: lwip_timers
  tr0 :: rtrace
  sens :: rear_node
  tr2 :: trace

definition lwip_timers_0 :: lwip_timers where
  "lwip_timers_0 = \<lparr>tmr_arp = 0, tmr_tcp_fast = 0, tmr_tcp_slow = 0, tmr_link = 0, timerFlags = 0, g_TickCount_1ms = 0\<rparr>"

definition rear_boot :: "rear_hw \<Rightarrow> (rtrace \<Rightarrow> rtrace) \<Rightarrow> rear_sys option" where
  "rear_boot E uart_init = do {
     (n, m, w2) \<leftarrow> AebSensorNode_ultraInit lmu_0 [];
     let mo = core1_main E (pwm_state_0, []);
     let (c0, w0) = core0_main_init E uart_init lwip_timers_0 [];
     Some \<lparr>mem = m, ctl = cpu1_state_0, mot = mo, main0 = c0, tmr = lwip_timers_0, tr0 = w0, sens = n, tr2 = w2\<rparr> }"

datatype rear_label = Receive | Tick | Round | Control | Sense

inductive rear_step :: "rear_hw \<Rightarrow> hw \<Rightarrow> rear_sys \<Rightarrow> rear_label \<Rightarrow> rear_sys \<Rightarrow> bool" for E H where
  receive: "length stack = 32 \<Longrightarrow> udp_receive_acc_recv stack p addr (net (main0 s)) (mem s) = Some (n, m) \<Longrightarrow>
    rear_step E H s Receive (s\<lparr>main0 := (main0 s)\<lparr>net := n\<rparr>, mem := m\<rparr>)"
| tick: "updateLwIPStackISR (tmr s) (tr0 s) = (t, w) \<Longrightarrow> rear_step E H s Tick (s\<lparr>tmr := t, tr0 := w\<rparr>)"
| round: "cpu0_round E (tmr s) (main0 s) (mem s) (tr0 s) = Some (t, c, w) \<Longrightarrow>
    rear_step E H s Round (s\<lparr>tmr := t, main0 := c, tr0 := w\<rparr>)"
| control: "cpu1_ctrl_ISR E (ctl s) (mot s) (mem s) = Some (c, mo, m) \<Longrightarrow>
    rear_step E H s Control (s\<lparr>ctl := c, mot := mo, mem := m\<rparr>)"
| sense: "AebSensorNode_ultraRunOnce H (sens s) (mem s) (tr2 s) = Some (n, m, w) \<Longrightarrow>
    rear_step E H s Sense (s\<lparr>sens := n, mem := m, tr2 := w\<rparr>)"

inductive_cases rear_stepE:
  "rear_step E H s Receive s'" "rear_step E H s Tick s'" "rear_step E H s Round s'"
  "rear_step E H s Control s'" "rear_step E H s Sense s'"

inductive rear_path :: "rear_hw \<Rightarrow> hw \<Rightarrow> rear_sys \<Rightarrow> rear_label list \<Rightarrow> rear_sys \<Rightarrow> bool" for E H where
  stop: "rear_path E H s [] s"
| more: "rear_step E H s l s1 \<Longrightarrow> rear_path E H s1 ls s' \<Longrightarrow> rear_path E H s (l # ls) s'"

definition rear_reach :: "rear_hw \<Rightarrow> hw \<Rightarrow> (rtrace \<Rightarrow> rtrace) \<Rightarrow> rear_sys \<Rightarrow> bool" where
  "rear_reach E H uart_init s \<longleftrightarrow> (\<exists>s0 ls. rear_boot E uart_init = Some s0 \<and> rear_path E H s0 ls s)"

text \<open>An environment whose clock of CPU2 keeps its promises.\<close>

definition sens_hw :: "hw \<Rightarrow> bool" where
  "sens_hw H \<longleftrightarrow> sane_hw H \<and> (\<exists>f. stm_freq H = Fin f \<and> 10000000 \<le> f)"

section \<open>The invariant\<close>

definition rear_sys_inv :: "rear_sys \<Rightarrow> bool" where
  "rear_sys_inv s \<longleftrightarrow> lmu_inv (mem s) \<and> cpu1_inv (ctl s) \<and> bridges_safe (snd (mot s)) \<and>
     timers_ok (tmr s) \<and> rear_node_ok (sens s) \<and> (\<exists>u. Cpu0_ReadUltra (mem s) = Some u \<and> ultra_frame_ok u)"

lemma ultra_frame_0: "ultra_frame_ok zero_ultra"
  by (simp add: ultra_frame_ok_def zero_ultra_def consts_simps)

lemma ultra_untouched:
  "Cpu0_WriteDriveCmd c m = Some m' \<Longrightarrow> Cpu0_ReadUltra m' = Cpu0_ReadUltra m"
  "Cpu1_WriteSpeed v m = Some m' \<Longrightarrow> Cpu0_ReadUltra m' = Cpu0_ReadUltra m"
  "Cpu1_WriteTelem a b d e f m = Some m' \<Longrightarrow> Cpu0_ReadUltra m' = Cpu0_ReadUltra m"
  by (auto simp: Cpu0_WriteDriveCmd_def Cpu1_WriteSpeed_def Cpu1_WriteTelem_def Cpu0_ReadUltra_def)

lemma cmd_untouched:
  "aeb_writeUltraLmu u m = Some m' \<Longrightarrow> Cpu1_ReadDriveCmd m' = Cpu1_ReadDriveCmd m"
  "Cpu1_WriteSpeed v m = Some m' \<Longrightarrow> Cpu1_ReadDriveCmd m' = Cpu1_ReadDriveCmd m"
  "Cpu1_WriteTelem a b d e f m = Some m' \<Longrightarrow> Cpu1_ReadDriveCmd m' = Cpu1_ReadDriveCmd m"
  by (auto simp: aeb_writeUltraLmu_def Cpu1_WriteSpeed_def Cpu1_WriteTelem_def Cpu1_ReadDriveCmd_def)

lemma write_telem_eq:
  "Cpu1_WriteTelem (t_v_ref t) (t_v_meas t) (t_u t) (t_a_cmd t) (t_i_term t) m = write_telem t m"
  by (simp add: write_telem_def)

text \<open>A run of the controller, in the shared memory.\<close>

lemma ctrl_ISR:
  assumes "cpu1_inv c" "lmu_inv m"
  obtains c' mo' m' cmd v t where "cpu1_ctrl_ISR E c mo m = Some (c', mo', m')"
    "cpu1_inv c'" "lmu_inv m'" "bridges_safe (snd mo')" "Cpu0_ReadUltra m' = Cpu0_ReadUltra m"
    "Cpu1_ReadDriveCmd m' = Cpu1_ReadDriveCmd m" "Cpu1_ReadDriveCmd m = Some cmd"
    "control_step cmd v c (fst mo, EncUpdate # Call ''IfxStm_increaseCompare(STM1)'' [0, IFX_CFG_STM_TICKS_PER_MS * CTRL_PERIOD_MS] # snd mo)
      = Some (c', mo', t)" "Cpu0_ReadTelem m' = Some t" "\<exists>w. v = measured_speed E w"
proof -
  let ?mo = "(fst mo, EncUpdate # Call ''IfxStm_increaseCompare(STM1)'' [0, IFX_CFG_STM_TICKS_PER_MS * CTRL_PERIOD_MS] # snd mo)"
  define v where "v = measured_speed E (snd ?mo)"
  have v: "\<exists>w. v = measured_speed E w" unfolding v_def by blast
  obtain m1 where m1: "Cpu1_WriteSpeed v m = Some m1" "lmu_inv m1" using speed.write_ok [OF assms(2), of v] by blast
  obtain cmd where cmd: "Cpu1_ReadDriveCmd m1 = Some cmd" using cmd.read_ok [OF m1(2)] by blast
  obtain c' mo' t where s: "control_step cmd v c ?mo = Some (c', mo', t)" "cpu1_inv c'" "bridges_safe (snd mo')"
    using control_step_ok [OF assms(1)] by blast
  obtain m2 where m2: "write_telem t m1 = Some m2" "lmu_inv m2" "Cpu0_ReadTelem m2 = Some t"
    using telem.write_ok [OF m1(2), of t] by blast
  have "cpu1_ctrl_ISR E c mo m = Some (c', mo', m2)"
    using m1(1) cmd s(1) m2(1) by (simp add: cpu1_ctrl_ISR_def Cpu1_ControlLoop_def Gpt12_Enc_Update_def v_def write_telem_eq)
  moreover have "Cpu0_ReadUltra m2 = Cpu0_ReadUltra m" "Cpu1_ReadDriveCmd m2 = Cpu1_ReadDriveCmd m"
    "Cpu1_ReadDriveCmd m = Some cmd"
    using ultra_untouched(2) [OF m1(1)] cmd_untouched(2) [OF m1(1)] cmd m2(1) ultra_untouched(3) cmd_untouched(3)
    unfolding write_telem_def by metis+
  ultimately show thesis using that s m2 v by blast
qed

lemma receive_ok:
  assumes "lmu_inv m" "udp_receive_acc_recv stack p addr n m = Some (n', m')"
  shows "lmu_inv m'" "Cpu0_ReadUltra m' = Cpu0_ReadUltra m"
proof -
  have "m' = m \<or> (\<exists>c. Cpu0_WriteDriveCmd c m = Some m')"
    using assms(2) by (auto simp: udp_receive_acc_recv_def Let_def bind_Some_iff split: option.splits)
  then show "lmu_inv m'" "Cpu0_ReadUltra m' = Cpu0_ReadUltra m"
    using cmd.write_inv [OF assms(1)] ultra_untouched(1) assms(1) by blast+
qed

lemma poll_timers_ok: "timers_ok t \<Longrightarrow> timers_ok (fst (Ifx_Lwip_pollTimerFlags E t lw))"
proof -
  have "counter_of d (t\<lparr>timerFlags := 0\<rparr>) = counter_of d t" for d by (cases d) simp_all
  then show "timers_ok t \<Longrightarrow> ?thesis"
    by (simp add: Ifx_Lwip_pollTimerFlags_def take_timerFlags_def timers_ok_def)
qed

lemma round_timers: "cpu0_round E t c m w = Some (t', c', w') \<Longrightarrow> timers_ok t \<Longrightarrow> timers_ok t'"
proof -
  assume h: "cpu0_round E t c m w = Some (t', c', w')" "timers_ok t"
  then have "t' = fst (Ifx_Lwip_pollTimerFlags E t (link_is_up c, w))"
    by (auto simp: cpu0_round_def Let_def bind_Some_iff split: prod.splits)
  with h(2) poll_timers_ok show ?thesis by simp
qed

lemma ISR_timers: "updateLwIPStackISR t w = (t', w') \<Longrightarrow> timers_ok t \<Longrightarrow> timers_ok t'"
proof -
  have "counter_of d (t\<lparr>g_TickCount_1ms := x\<rparr>) = counter_of d t" for d x by (cases d) simp_all
  then have "timers_ok t \<Longrightarrow> timers_ok (t\<lparr>g_TickCount_1ms := x\<rparr>)" for x by (simp add: timers_ok_def)
  then show "updateLwIPStackISR t w = (t', w') \<Longrightarrow> timers_ok t \<Longrightarrow> timers_ok t'"
    using tick_ok by (auto simp: updateLwIPStackISR_def Let_def)
qed

lemma motor_init_safe: "bridges_safe (snd (core1_main E (st, [])))"
  by (simp add: core1_main_def Motor_Init_def GtmAtomPwm_Init_def bridges_safe_def motor_defs split_beta Let_def
      Gpt12_Enc_Init_def initStmForCpu1_def)

lemma rear_boot_ok: "\<exists>s. rear_boot E uart_init = Some s"
  and rear_boot_inv: "rear_boot E uart_init = Some s \<Longrightarrow> rear_sys_inv s"
proof -
  obtain m where m: "aeb_writeUltraLmu zero_ultra lmu_0 = Some m" "lmu_inv m" "Cpu0_ReadUltra m = Some zero_ultra"
    using ultra.write_ok [OF lmu_inv_0, of zero_ultra] by blast
  have t: "timers_ok lwip_timers_0" unfolding timers_ok_def
  proof
    fix d show "unat (counter_of d lwip_timers_0) < period_of d" by (cases d) (simp_all add: lwip_timers_0_def)
  qed
  show "\<exists>s. rear_boot E uart_init = Some s"
    using m(1) by (simp add: rear_boot_def AebSensorNode_ultraInit_def split_beta)
  show "rear_boot E uart_init = Some s \<Longrightarrow> rear_sys_inv s"
    using m t ultra_frame_0 motor_init_safe [of E pwm_state_0] cpu1_inv_0 rear_sensors_0
    by (auto simp: rear_boot_def AebSensorNode_ultraInit_def rear_sys_inv_def rear_node_ok_def split_beta)
qed

lemma rear_step_inv:
  assumes "sens_hw H" "rear_step E H s l s'" "rear_sys_inv s"
  shows "rear_sys_inv s'"
  using assms(2,3)
proof cases
  case (receive stack p addr n m)
  then show ?thesis using assms(3) receive_ok [of "mem s"] by (simp add: rear_sys_inv_def)
next
  case (tick t w)
  then show ?thesis using assms(3) ISR_timers by (auto simp: rear_sys_inv_def)
next
  case (round t c w)
  then show ?thesis using assms(3) round_timers by (auto simp: rear_sys_inv_def)
next
  case (control c mo m)
  from assms(3) have "cpu1_inv (ctl s)" "lmu_inv (mem s)" by (simp_all add: rear_sys_inv_def)
  from ctrl_ISR [OF this, of E "mot s"] control(3) have "cpu1_inv c" "lmu_inv m" "bridges_safe (snd mo)"
    "Cpu0_ReadUltra m = Cpu0_ReadUltra (mem s)" by auto
  then show ?thesis using assms(3) control by (simp add: rear_sys_inv_def)
next
  case (sense n m w)
  obtain f where H: "sane_hw H" "stm_freq H = Fin f" "10000000 \<le> f" using assms(1) by (auto simp: sens_hw_def)
  have i: "rear_node_ok (sens s)" "lmu_inv (mem s)" using assms(3) by (simp_all add: rear_sys_inv_def)
  from ultraRunOnce_ok [OF H i, of "tr2 s"] sense(3) obtain frame where
    "rear_node_ok n" "ultra_frame_ok frame" "aeb_writeUltraLmu frame (mem s) = Some m" by auto
  then show ?thesis using assms(3) sense(2) ultra.write_inv [OF i(2)] ultra.read_write [OF i(2)]
    by (simp add: rear_sys_inv_def)
qed

lemma rear_path_inv: "rear_path E H s ls s' \<Longrightarrow> sens_hw H \<Longrightarrow> rear_sys_inv s \<Longrightarrow> rear_sys_inv s'"
  by (induction rule: rear_path.induct) (auto intro: rear_step_inv)

lemma rear_reach_inv: "rear_reach E H uart_init s \<Longrightarrow> sens_hw H \<Longrightarrow> rear_sys_inv s"
  using rear_path_inv rear_boot_inv by (auto simp: rear_reach_def)

section \<open>Bounds along a path\<close>

lemma control_run:
  assumes "rear_step E H s Control s'" "rear_sys_inv s"
  obtains cmd v M mo t where "control_step cmd v (ctl s) M = Some (ctl s', mo, t)" "\<exists>w. v = measured_speed E w" "cpu1_inv (ctl s)"
proof -
  from assms(1) obtain c mo m where s': "s' = s\<lparr>ctl := c, mot := mo, mem := m\<rparr>"
    "cpu1_ctrl_ISR E (ctl s) (mot s) (mem s) = Some (c, mo, m)" by (auto elim: rear_stepE)
  from assms(2) have i: "cpu1_inv (ctl s)" "lmu_inv (mem s)" by (simp_all add: rear_sys_inv_def)
  obtain cmd v t M where "control_step cmd v (ctl s) M = Some (c, mo, t)" "\<exists>w. v = measured_speed E w"
    by (rule ctrl_ISR [OF i, of E "mot s"]) (use s'(2) in simp)
  then show thesis using that s'(1) i(1) by simp
qed

lemma step_ctl: "rear_step E H s l s' \<Longrightarrow> l \<noteq> Control \<Longrightarrow> ctl s' = ctl s"
  by (erule rear_step.cases) simp_all

lemma path_bounds:
  assumes "rear_path E H s ls s'" "sens_hw H" "rear_sys_inv s" "\<forall>w. bnd (measured_speed E w) 100"
    "bnd (s_I_term (ctl s)) 64"
  shows "bnd (s_I_term (ctl s')) 64"
  using assms
proof (induction rule: rear_path.induct)
  case (more s l s1 ls s')
  have i: "rear_sys_inv s1" by (rule rear_step_inv [OF \<open>sens_hw H\<close> more.hyps(1) \<open>rear_sys_inv s\<close>])
  have "bnd (s_I_term (ctl s1)) 64"
  proof (cases "l = Control")
    case True
    from control_run [OF more.hyps(1) [unfolded True] more.prems(2)] show ?thesis
      by (metis control_step_bounds more.prems(3,4))
  next
    case False
    from step_ctl [OF more.hyps(1) False] more.prems(4) show ?thesis by simp
  qed
  with more.IH [OF more.prems(1) i more.prems(3)] show ?case .
qed simp

lemma path_rate:
  assumes "rear_path E H s ls s'" "sens_hw H" "rear_sys_inv s"
  shows "fval (s_v_ref (ctl s')) \<le> fval (s_v_ref (ctl s)) + 201 / 10000 * real (count_list ls Control)"
  using assms
proof (induction rule: rear_path.induct)
  case (more s l s1 ls s')
  have i: "rear_sys_inv s1" by (rule rear_step_inv [OF \<open>sens_hw H\<close> more.hyps(1) \<open>rear_sys_inv s\<close>])
  note ih = more.IH [OF more.prems(1) i]
  show ?case
  proof (cases "l = Control")
    case True
    have "fval (s_v_ref (ctl s1)) \<le> fval (s_v_ref (ctl s)) + 201 / 10000"
      by (rule control_run [OF more.hyps(1) [unfolded True] more.prems(2)]) (rule control_step_rate)
    with ih True show ?thesis by (simp add: field_simps)
  next
    case False
    from step_ctl [OF more.hyps(1) False] ih False show ?thesis by simp
  qed
qed simp

lemma path_ctl: "rear_path E H s ls s' \<Longrightarrow> Control \<notin> set ls \<Longrightarrow> ctl s' = ctl s"
proof (induction rule: rear_path.induct)
  case (more s l s1 ls s')
  then show ?case using step_ctl [OF more.hyps(1)] by auto
qed simp

text \<open>Every kind of step is possible.\<close>

lemma step_enabled:
  assumes "rear_sys_inv s" "sens_hw H"
  shows "cpu1_ctrl_ISR E (ctl s) (mot s) (mem s) \<noteq> None" "cpu0_round E (tmr s) (main0 s) (mem s) (tr0 s) \<noteq> None"
    "udp_receive_acc_recv stack p addr (net (main0 s)) (mem s) \<noteq> None"
    "AebSensorNode_ultraRunOnce H (sens s) (mem s) (tr2 s) \<noteq> None" "\<exists>s'. rear_step E H s l s'"
proof -
  obtain f where H: "sane_hw H" "stm_freq H = Fin f" "10000000 \<le> f" using assms(2) by (auto simp: sens_hw_def)
  from assms(1) have i: "cpu1_inv (ctl s)" "lmu_inv (mem s)" "rear_node_ok (sens s)" by (simp_all add: rear_sys_inv_def)
  show c: "cpu1_ctrl_ISR E (ctl s) (mot s) (mem s) \<noteq> None" by (rule ctrl_ISR [OF i(1,2), of E "mot s"]) simp
  show o: "cpu0_round E (tmr s) (main0 s) (mem s) (tr0 s) \<noteq> None"
    using telem.read_ok [OF i(2)] ultra.read_ok [OF i(2)]
    by (auto simp: cpu0_round_def cpu0_send_def Let_def split: prod.splits)
  show r: "udp_receive_acc_recv stack p addr (net (main0 s)) (mem s) \<noteq> None" for stack p addr
    by (auto simp: udp_receive_acc_recv_def cmd.write_total [OF i(2)] Let_def split: option.splits bind_splits)
  show u: "AebSensorNode_ultraRunOnce H (sens s) (mem s) (tr2 s) \<noteq> None"
    using ultraRunOnce_ok [OF H i(3,2), of "tr2 s"] by auto
  have z: "length (replicate 32 (0 :: u8)) = 32" by simp
  obtain xc mo m where c': "cpu1_ctrl_ISR E (ctl s) (mot s) (mem s) = Some (xc, mo, m)" using c by auto
  obtain t x w where o': "cpu0_round E (tmr s) (main0 s) (mem s) (tr0 s) = Some (t, x, w)" using o by auto
  obtain n m' where r': "udp_receive_acc_recv (replicate 32 0) None None (net (main0 s)) (mem s) = Some (n, m')"
    using r [of "replicate 32 0" None None] by auto
  obtain y m'' w' where u': "AebSensorNode_ultraRunOnce H (sens s) (mem s) (tr2 s) = Some (y, m'', w')" using u by auto
  obtain t' w'' where k: "updateLwIPStackISR (tmr s) (tr0 s) = (t', w'')" by fastforce
  show "\<exists>s'. rear_step E H s l s'"
    by (cases l) (use rear_step.receive [OF z r'] rear_step.tick [OF k] rear_step.round [OF o'] rear_step.control [OF c']
      rear_step.sense [OF u'] in blast)+
qed

lemma boot_ctl: "rear_boot E uart_init = Some s \<Longrightarrow> ctl s = cpu1_state_0"
  by (auto simp: rear_boot_def bind_Some_iff Let_def split_beta)

section \<open>A command stays\<close>

definition emergency :: "DriveCmd \<Rightarrow> bool" where
  "emergency cmd \<longleftrightarrow> control_mode cmd = MODE_AEB \<or> emergency_stop cmd \<noteq> 0"

lemma emergency_step:
  assumes "emergency cmd"
  shows "control_step cmd v c m = Some (emergency_branch cmd v c m)"
    "braking (snd (fst (snd (emergency_branch cmd v c m))))"
    "s_v_ref (fst (emergency_branch cmd v c m)) = Fin 0" "s_I_term (fst (emergency_branch cmd v c m)) = Fin 0"
    "s_brake_mode (fst (emergency_branch cmd v c m)) = 1"
  using assms by (simp_all add: emergency_def control_step_def emergency_branch_def Let_def brake_both_braking acc_reset_state_def)

text \<open>The published command changes only by reception.\<close>

lemma sense_cmd:
  assumes "sens_hw H" "rear_sys_inv s" "AebSensorNode_ultraRunOnce H (sens s) (mem s) (tr2 s) = Some (n, m, w)"
  shows "Cpu1_ReadDriveCmd m = Cpu1_ReadDriveCmd (mem s)"
proof -
  obtain f where H: "sane_hw H" "stm_freq H = Fin f" "10000000 \<le> f" using assms(1) by (auto simp: sens_hw_def)
  have i: "rear_node_ok (sens s)" "lmu_inv (mem s)" using assms(2) by (simp_all add: rear_sys_inv_def)
  from ultraRunOnce_ok [OF H i, of "tr2 s"] assms(3) obtain frame where "aeb_writeUltraLmu frame (mem s) = Some m" by auto
  then show ?thesis by (rule cmd_untouched(1))
qed

lemma control_cmd:
  assumes "rear_sys_inv s" "cpu1_ctrl_ISR E (ctl s) (mot s) (mem s) = Some (c, mo, m)"
  shows "Cpu1_ReadDriveCmd m = Cpu1_ReadDriveCmd (mem s)"
proof -
  from assms(1) have i: "cpu1_inv (ctl s)" "lmu_inv (mem s)" by (simp_all add: rear_sys_inv_def)
  obtain c' mo' m' where "cpu1_ctrl_ISR E (ctl s) (mot s) (mem s) = Some (c', mo', m')"
    "Cpu1_ReadDriveCmd m' = Cpu1_ReadDriveCmd (mem s)" by (rule ctrl_ISR [OF i, of E "mot s"]) blast
  with assms(2) show ?thesis by simp
qed

lemma step_cmd:
  assumes "sens_hw H" "rear_step E H s l s'" "rear_sys_inv s" "l \<noteq> Receive"
  shows "Cpu1_ReadDriveCmd (mem s') = Cpu1_ReadDriveCmd (mem s)"
  using assms(2)
proof cases
  case (control c mo m)
  then show ?thesis using control_cmd [OF assms(3)] by simp
next
  case (sense n m w)
  then show ?thesis using sense_cmd [OF assms(1,3)] by simp
qed (use assms(4) in simp_all)

lemma step_mot: "rear_step E H s l s' \<Longrightarrow> l \<noteq> Control \<Longrightarrow> mot s' = mot s"
  by (erule rear_step.cases) simp_all

lemma control_brakes:
  assumes "rear_step E H s Control s'" "rear_sys_inv s" "Cpu1_ReadDriveCmd (mem s) = Some cmd" "emergency cmd"
  shows "braking (snd (mot s'))" "s_v_ref (ctl s') = Fin 0" "s_I_term (ctl s') = Fin 0"
proof -
  from assms(1) obtain c mo m where s': "s' = s\<lparr>ctl := c, mot := mo, mem := m\<rparr>"
    "cpu1_ctrl_ISR E (ctl s) (mot s) (mem s) = Some (c, mo, m)" by (auto elim: rear_stepE)
  from assms(2) have i: "cpu1_inv (ctl s)" "lmu_inv (mem s)" by (simp_all add: rear_sys_inv_def)
  obtain cmd' v t M where st: "Cpu1_ReadDriveCmd (mem s) = Some cmd'" "control_step cmd' v (ctl s) M = Some (c, mo, t)"
    by (rule ctrl_ISR [OF i, of E "mot s"]) (use s'(2) in simp)
  then have "emergency_branch cmd v (ctl s) M = (c, mo, t)"
    using assms(3) emergency_step(1) [OF assms(4)] by simp
  then show "braking (snd (mot s'))" "s_v_ref (ctl s') = Fin 0" "s_I_term (ctl s') = Fin 0"
    using emergency_step(2-4) [OF assms(4), of v "ctl s" M] s'(1) by simp_all
qed

lemma path_brakes:
  assumes "rear_path E H s ls s'" "sens_hw H" "rear_sys_inv s" "Receive \<notin> set ls"
    "Cpu1_ReadDriveCmd (mem s) = Some cmd" "emergency cmd"
  shows "Control \<in> set ls \<or> braking (snd (mot s)) \<Longrightarrow> braking (snd (mot s'))"
  using assms
proof (induction rule: rear_path.induct)
  case (more s l s1 ls s')
  have ne: "l \<noteq> Receive" "Receive \<notin> set ls" using more.prems by auto
  have i: "rear_sys_inv s1" by (rule rear_step_inv [OF \<open>sens_hw H\<close> more.hyps(1) \<open>rear_sys_inv s\<close>])
  have c: "Cpu1_ReadDriveCmd (mem s1) = Some cmd"
    using step_cmd [OF \<open>sens_hw H\<close> more.hyps(1) \<open>rear_sys_inv s\<close> ne(1)] more.prems(5) by simp
  have "Control \<in> set ls \<or> braking (snd (mot s1))"
  proof (cases "l = Control")
    case True
    with control_brakes(1) more.hyps(1) more.prems(3,5,6) show ?thesis by blast
  next
    case False
    then show ?thesis using step_mot [OF more.hyps(1)] more.prems(1) by auto
  qed
  then show ?case using more.IH more.prems(2,6) i c ne(2) by blast
qed simp

end
