(* ===== verification/RearSystem_Props.thy ===== *)
theory RearSystem_Props
  imports RearSystem FrontNode_Reach
begin

text \<open>
  The properties of the REAR board as a whole: what holds in every state its three cores can
  reach together, that none of them gets stuck, and that an emergency command stops the car.
\<close>

section \<open>An example board\<close>

definition demo_can :: can_config where
  "demo_can = \<lparr>busLoopbackEnabled = False, baudRate_baudrate = 0, fastBaudRate_baudrate = 0, can_nodeId = 0,
     can_pins = None, frame_type = [], frame_mode = [], txMode = [], txBufferDataFieldSize = 8,
     transmissionCompletedEnabled = False, traco = (0, 0), rxMode = [], rxBufferDataFieldSize = 8,
     rxFifo0DataFieldSize = 8, rxFifo0Size = 0, messageIdLength = [], standardListSize = 0,
     standardFilterForNonMatchingFrames = [], rejectRemoteFramesWithStandardId = False,
     rxFifo0NewMessageEnabled = False, rxf0n = (0, 0)\<rparr>"

definition demo_rear :: rear_hw where
  "demo_rear = \<lparr>reg_in = \<lambda>_ _. 0, drv = \<lambda>_ f. (if f = ''pbuf_alloc'' \<or> f = ''udp_new_ip_type'' then 1 else 0),
     enc_speed = \<lambda>_. Fin 10, eth_rx = \<lambda>_. [], pwm_default = pwm_unset, can_default = demo_can,
     can_rx = \<lambda>_. (\<lparr>messageId = 0, dataLengthCode = 0, fdLongAndFast = False\<rparr>, []), reg_bits = \<lambda>_. 0,
     adc_fields = \<lambda>_. (True, 0), link_fields = \<lambda>_. (0, 0, 0)\<rparr>"

lemma demo_sens_hw: "sens_hw (demo_hw pins)"
  using demo_node_hw [of pins] by (auto simp: node_hw_def sens_hw_def)

definition demo_boot :: rear_sys where
  "demo_boot = the (rear_boot demo_rear (\<lambda>w. w))"

lemma demo_boot: "rear_boot demo_rear (\<lambda>w. w) = Some demo_boot"
  using rear_boot_ok [of demo_rear "\<lambda>w. w"] by (auto simp: demo_boot_def)

lemma demo_reach: "rear_reach demo_rear H (\<lambda>w. w) demo_boot"
  unfolding rear_reach_def using demo_boot rear_path.stop by blast

section \<open>Every reachable state\<close>

text \<open>
  C7: In every state the three cores can reach, in whatever order their steps and the received
  datagrams come: the index of every double buffer names one of its two slots, the reference
  speed is finite and between 0 and the maximum, the two bridges carry the same level of at most
  1000 with the same brake bit and are never driven in the same sense, the period counters of
  the stack are below their periods, and the published distances are 0 or between 2 cm and 5 m,
  as their bits say.
\<close>
theorem rear_reachable_safe:
  assumes "rear_reach E H uart_init s" "sens_hw H"
  shows "lmu_inv (mem s) \<and> cpu1_inv (ctl s) \<and> bridges_safe (snd (mot s)) \<and> timers_ok (tmr s) \<and>
    (\<exists>u. Cpu0_ReadUltra (mem s) = Some u \<and> ultra_frame_ok u)"
  using rear_reach_inv [OF assms] by (simp add: rear_sys_inv_def)

theorem rear_reachable_safe_witness: "lmu_inv (mem demo_boot) \<and> bridges_safe (snd (mot demo_boot))"
  using rear_reachable_safe [OF demo_reach demo_sens_hw [of "\<lambda>_ _. True"]] by blast

text \<open>
  C17: None of the three cores gets stuck. In every reachable state each of the five kinds of step is possible: a
  run of the controller (CPU1), a measurement cycle (CPU2), the millisecond interrupt, a round of the
  main loop and the reception of any datagram (of any length, in any segments), that is, it ends with a
  result: no float that the code turns into an integer is out of range, no index leaves its array, and the polling
  loops of the measurement end. Of the main loop this covers the code of the loop itself, the reads of the shared memory and the
  composition of the two reports; the calls into the network stack are single events of this model, and what the stack does
  in them is the subject of other theorems.
\<close>
theorem rear_never_stuck:
  assumes "rear_reach E H uart_init s" "sens_hw H"
  shows "(\<forall>l. \<exists>s'. rear_step E H s l s') \<and>
    cpu1_ctrl_ISR E (ctl s) (mot s) (mem s) \<noteq> None \<and> AebSensorNode_ultraRunOnce H (sens s) (mem s) (tr2 s) \<noteq> None \<and>
    cpu0_round E (tmr s) (main0 s) (mem s) (tr0 s) \<noteq> None \<and>
    (\<forall>stack p addr. udp_receive_acc_recv stack p addr (net (main0 s)) (mem s) \<noteq> None)"
  using step_enabled [OF rear_reach_inv [OF assms] assms(2)] by blast

theorem rear_never_stuck_witness:
  "\<exists>s. rear_step demo_rear (demo_hw (\<lambda>_ _. True)) demo_boot Sense s"
  using rear_never_stuck [OF demo_reach demo_sens_hw [of "\<lambda>_ _. True"]] by blast

text \<open>
  C28: A measurement cycle of CPU2 always ends, within 24000000 ticks of its timer (240 ms at 100
  MHz), although the echo may never come; what it publishes is a frame whose valid distances are
  between 2 cm and 5 m, and the next read of CPU0 returns it.
\<close>
theorem rear_cycle_total:
  assumes "rear_reach E H uart_init s" "sens_hw H"
  shows "\<exists>n m w t u. AebSensorNode_ultraRunOnce H (sens s) (mem s) (tr2 s) = Some (n, m, w) \<and>
    took H (tr2 s) w t \<and> t \<le> 24000000 \<and> Cpu0_ReadUltra m = Some u \<and> ultra_frame_ok u"
proof -
  obtain f where H: "sane_hw H" "stm_freq H = Fin f" "10000000 \<le> f" using assms(2) by (auto simp: sens_hw_def)
  have i: "rear_node_ok (sens s)" "lmu_inv (mem s)" using rear_reach_inv [OF assms] by (simp_all add: rear_sys_inv_def)
  obtain n m w u where c: "AebSensorNode_ultraRunOnce H (sens s) (mem s) (tr2 s) = Some (n, m, w)"
    "since H od (tr2 s) 24000000 w" "ultra_frame_ok u" "aeb_writeUltraLmu u (mem s) = Some m"
    using ultraRunOnce_ok [OF H i, of "tr2 s"] by blast
  then show ?thesis using ultra.read_write [OF i(2) c(4)] unfolding since_def by blast
qed

theorem rear_cycle_total_witness:
  "\<exists>n m w t. AebSensorNode_ultraRunOnce (demo_hw (\<lambda>_ _. True)) (sens demo_boot) (mem demo_boot) (tr2 demo_boot) = Some (n, m, w) \<and>
     took (demo_hw (\<lambda>_ _. True)) (tr2 demo_boot) w t \<and> t \<le> 24000000"
  using rear_cycle_total [OF demo_reach demo_sens_hw [of "\<lambda>_ _. True"]] by blast

section \<open>The controller over time\<close>

text \<open>
  C21: The integrator does not wind up. If the encoder never reports more than 100 m/s in either
  direction, the integral term stays within 64 in every reachable state, whatever commands arrive
  and however long the output is saturated (the back-calculation holds it).
\<close>
theorem integrator_bounded:
  assumes "rear_reach E H uart_init s" "sens_hw H"
    "\<forall>w. is_fin (measured_speed E w) \<and> \<bar>fval (measured_speed E w)\<bar> \<le> 100"
  shows "is_fin (s_I_term (ctl s)) \<and> \<bar>fval (s_I_term (ctl s))\<bar> \<le> 64"
proof -
  obtain s0 ls where s: "rear_boot E uart_init = Some s0" "rear_path E H s0 ls s"
    using assms(1) by (auto simp: rear_reach_def)
  have "bnd (s_I_term (ctl s0)) 64" using boot_ctl [OF s(1)] by (simp add: cpu1_state_0_def bnd_def)
  from path_bounds [OF s(2) assms(2) rear_boot_inv [OF s(1)] _ this] assms(3) show ?thesis by (simp add: bnd_def)
qed

lemma demo_speed: "is_fin (measured_speed demo_rear w) \<and> \<bar>fval (measured_speed demo_rear w)\<bar> \<le> 100"
  by (simp add: measured_speed_def Gpt12_Enc_GetSpeed_def ENC_SPEED_TO_MPS_def WHEEL_RADIUS_def demo_rear_def
      fmul_def flit_def f32_eval Let_def)

theorem integrator_bounded_witness: "is_fin (s_I_term (ctl demo_boot)) \<and> \<bar>fval (s_I_term (ctl demo_boot))\<bar> \<le> 64"
  by (rule integrator_bounded [OF demo_reach demo_sens_hw [of "\<lambda>_ _. True"]]) (use demo_speed in blast)

text \<open>
  C22: The reference speed rises by at most 0.0201 m/s per run of the controller (4 m/s per second at its 5
  ms, up to rounding), from every reachable state and along every path, whatever accelerations
  are commanded and whatever speed is measured. As long as no run of the controller comes, reception, the interrupt, the
  main loop and the measurements leave the whole state of the controller as it is.
\<close>
theorem acceleration_limit:
  assumes "rear_reach E H uart_init s" "sens_hw H" "rear_path E H s ls s'"
  shows "fval (s_v_ref (ctl s')) \<le> fval (s_v_ref (ctl s)) + 201 / 10000 * real (count_list ls Control) \<and>
    (Control \<notin> set ls \<longrightarrow> ctl s' = ctl s)"
  using path_rate [OF assms(3,2) rear_reach_inv [OF assms(1,2)]] path_ctl [OF assms(3)] by blast

lemma demo_control: "\<exists>s. rear_path demo_rear H demo_boot [Control] s"
proof -
  have "rear_sys_inv demo_boot" by (rule rear_boot_inv [OF demo_boot])
  then have i: "cpu1_inv (ctl demo_boot)" "lmu_inv (mem demo_boot)" by (simp_all add: rear_sys_inv_def)
  obtain c mo m where "cpu1_ctrl_ISR demo_rear (ctl demo_boot) (mot demo_boot) (mem demo_boot) = Some (c, mo, m)"
    by (rule ctrl_ISR [OF i, of demo_rear "mot demo_boot"]) blast
  from rear_path.more [OF rear_step.control [OF this] rear_path.stop] show ?thesis by blast
qed

lemma demo_tick: "\<exists>s. rear_path demo_rear H demo_boot [Tick] s"
proof -
  obtain t w where "updateLwIPStackISR (tmr demo_boot) (tr0 demo_boot) = (t, w)" by fastforce
  from rear_path.more [OF rear_step.tick [OF this] rear_path.stop] show ?thesis by blast
qed

theorem acceleration_limit_witness:
  "(\<exists>s. rear_path demo_rear (demo_hw (\<lambda>_ _. True)) demo_boot [Control] s \<and>
     fval (s_v_ref (ctl s)) \<le> fval (s_v_ref (ctl demo_boot)) + 201 / 10000) \<and>
   (\<exists>s. rear_path demo_rear (demo_hw (\<lambda>_ _. True)) demo_boot [Tick] s \<and> ctl s = ctl demo_boot)"
proof -
  obtain s where s: "rear_path demo_rear (demo_hw (\<lambda>_ _. True)) demo_boot [Control] s" using demo_control by blast
  obtain t where t: "rear_path demo_rear (demo_hw (\<lambda>_ _. True)) demo_boot [Tick] t" using demo_tick by blast
  from acceleration_limit [OF demo_reach demo_sens_hw s] acceleration_limit [OF demo_reach demo_sens_hw t] s t
  show ?thesis by auto
qed

section \<open>Emergency\<close>

text \<open>
  C3: An emergency command stops the car. When a datagram of at least 29 bytes arrives whose mode
  byte (16) says AEB or whose emergency byte (28) is not zero, then after any further steps of the
  board among which are a run of the controller and no other datagram, both bridges brake with
  full level. This holds from every reachable state, whatever is in the other bytes and however
  the datagram is split.
\<close>
theorem emergency_brakes:
  assumes "rear_reach E H uart_init s" "sens_hw H" "length stack = 32" "29 \<le> length (concat p)"
    "concat p ! 16 = MODE_AEB \<or> concat p ! 28 \<noteq> 0"
    "udp_receive_acc_recv stack (Some p) addr (net (main0 s)) (mem s) = Some (n, m)"
    "rear_path E H (s\<lparr>main0 := (main0 s)\<lparr>net := n\<rparr>, mem := m\<rparr>) ls s'" "Control \<in> set ls" "Receive \<notin> set ls"
  shows "braking (snd (mot s'))"
proof -
  let ?s = "s\<lparr>main0 := (main0 s)\<lparr>net := n\<rparr>, mem := m\<rparr>" and ?cmd = "acc_recv_cmd (acc_recv_buf stack p)"
  have inv: "rear_sys_inv s" by (rule rear_reach_inv [OF assms(1,2)])
  have i: "rear_sys_inv ?s" by (rule rear_step_inv [OF assms(2) rear_step.receive [OF assms(3,6)] inv])
  have "lmu_inv (mem s)" using inv by (simp add: rear_sys_inv_def)
  moreover have "Cpu0_WriteDriveCmd ?cmd (mem s) = Some m"
    using assms(6) by (auto simp: udp_receive_acc_recv_def Let_def bind_Some_iff)
  ultimately have r: "Cpu1_ReadDriveCmd (mem ?s) = Some ?cmd" using cmd.read_write by simp
  have "emergency ?cmd"
    using assms(5) acc_recv_buf_full [OF assms(3,4)] by (simp add: emergency_def acc_recv_cmd_def)
  from path_brakes [OF assms(7,2) i assms(9) r this] assms(8) show ?thesis by blast
qed

definition demo_stop :: "u8 list list" where
  "demo_stop = [replicate 10 0, replicate 18 0 @ [1]]"

theorem emergency_brakes_witness:
  "\<exists>n m s. udp_receive_acc_recv (replicate 32 7) (Some demo_stop) None (net (main0 demo_boot)) (mem demo_boot) = Some (n, m) \<and>
     rear_path demo_rear (demo_hw (\<lambda>_ _. True)) (demo_boot\<lparr>main0 := (main0 demo_boot)\<lparr>net := n\<rparr>, mem := m\<rparr>) [Control] s \<and>
     braking (snd (mot s))"
proof -
  let ?H = "demo_hw (\<lambda>_ _. True)"
  have inv: "rear_sys_inv demo_boot" by (rule rear_boot_inv [OF demo_boot])
  then have l: "lmu_inv (mem demo_boot)" by (simp add: rear_sys_inv_def)
  from cmd.write_ok [OF l, of "acc_recv_cmd (acc_recv_buf (replicate 32 7) demo_stop)"] obtain m where
    "Cpu0_WriteDriveCmd (acc_recv_cmd (acc_recv_buf (replicate 32 7) demo_stop)) (mem demo_boot) = Some m" by blast
  then have r: "udp_receive_acc_recv (replicate 32 7) (Some demo_stop) None (net (main0 demo_boot)) (mem demo_boot) =
    Some (net (main0 demo_boot), m)" by (simp add: udp_receive_acc_recv_def)
  let ?s = "demo_boot\<lparr>main0 := (main0 demo_boot)\<lparr>net := net (main0 demo_boot)\<rparr>, mem := m\<rparr>"
  have "rear_sys_inv ?s" by (rule rear_step_inv [OF demo_sens_hw rear_step.receive [OF _ r] inv]) simp
  then have i: "cpu1_inv (ctl ?s)" "lmu_inv (mem ?s)" unfolding rear_sys_inv_def by blast+
  obtain c mo m' where "cpu1_ctrl_ISR demo_rear (ctl ?s) (mot ?s) (mem ?s) = Some (c, mo, m')"
    by (rule ctrl_ISR [OF i, of demo_rear "mot ?s"]) blast
  from rear_path.more [OF rear_step.control [OF this] rear_path.stop]
  obtain s' where p: "rear_path demo_rear ?H ?s [Control] s'" by blast
  have "braking (snd (mot s'))"
    by (rule emergency_brakes [OF demo_reach demo_sens_hw _ _ _ r p]) (simp_all add: demo_stop_def nth_append)
  with r p show ?thesis by blast
qed

end
