(* ===== verification/RearControl_Props.thy ===== *)
theory RearControl_Props
  imports RearSystem
begin

text \<open>
  The properties of CPU1's output stages: what MANUAL makes of a speed, and when ACC drives, rolls
  or brakes.
\<close>

section \<open>MANUAL: from the speed to the duty cycle\<close>

text \<open>The two conversions as functions of reals.\<close>

definition manual_u :: "real \<Rightarrow> real" where
  "manual_u x = max 0 (min 1 (rnd32 (rnd32 (fval FF_SPEED_SLOPE * max 0 (min (fval V_MAX) x)) / 100)))"

definition comp_u :: "real \<Rightarrow> real" where
  "comp_u r = (if fval U_EPS < r then rnd32 (r + fval (fdiv FF_DEADZONE (Fin 100))) else r)"

definition duty_at :: "real \<Rightarrow> int" where
  "duty_at r = \<lfloor>rnd32 (max 0 (min 1 (comp_u r)) * 100)\<rfloor>"

lemma speed_consts: "FF_SPEED_SLOPE = Fin (1227817 / 16384)" "U_EPS = Fin (5368709 / 536870912)"
  "fdiv FF_DEADZONE (Fin 100) = Fin (5033165 / 33554432)"
  by (simp_all add: FF_SPEED_SLOPE_def U_EPS_def FF_DEADZONE_def fdiv_def flit_def f32_eval)


lemma man_val:
  assumes "is_fin v"
  shows "is_fin (manual_speed_to_duty v)" "fval (manual_speed_to_duty v) = manual_u (fval v)"
proof -
  let ?c = "clampf v (Fin 0) V_MAX"
  have c: "is_fin ?c" "fval ?c = max 0 (min (fval V_MAX) (fval v))"
    using assms by (auto simp: clampf_def flt_fin V_MAX_val)
  have b: "0 \<le> fval ?c" "fval ?c \<le> 2" using c(2) by (simp_all add: V_MAX_val)
  have "\<bar>1227817 / 16384 * fval ?c\<bar> \<le> 150" using b by (simp add: abs_mult)
  from mk32_bounded [OF this, of "is_neg (Fin (1227817 / 16384)) \<noteq> is_neg ?c"]
  have m: "is_fin (fmul FF_SPEED_SLOPE ?c)" "fval (fmul FF_SPEED_SLOPE ?c) = rnd32 (1227817 / 16384 * fval ?c)"
    "\<bar>fval (fmul FF_SPEED_SLOPE ?c)\<bar> \<le> 150" using c by (simp_all add: speed_consts fmul_fin)
  have "\<bar>fval (fmul FF_SPEED_SLOPE ?c) / 100\<bar> \<le> 2" using m(3) by simp
  from mk32_bounded [OF this, of "is_neg (fmul FF_SPEED_SLOPE ?c) \<noteq> is_neg (Fin 100)"]
  have d: "is_fin (fdiv (fmul FF_SPEED_SLOPE ?c) (Fin 100))"
    "fval (fdiv (fmul FF_SPEED_SLOPE ?c) (Fin 100)) = rnd32 (rnd32 (1227817 / 16384 * fval ?c) / 100)"
    using m by (simp_all add: fdiv_fin)
  have "is_fin (manual_speed_to_duty v) \<and> fval (manual_speed_to_duty v) =
      max 0 (min 1 (rnd32 (rnd32 (1227817 / 16384 * fval ?c) / 100)))"
    using d unfolding manual_speed_to_duty_def Let_def by (auto simp: clampf_def flt_fin DUTY_MAX_def)
  then show "is_fin (manual_speed_to_duty v)" "fval (manual_speed_to_duty v) = manual_u (fval v)"
    by (simp_all add: manual_u_def speed_consts c(2))
qed

lemma duty_val:
  assumes "is_fin u" "\<bar>fval u\<bar> \<le> 1"
  shows "duty_percent u = Some (duty_at (fval u))"
proof -
  have "\<bar>fval u + 5033165 / 33554432\<bar> \<le> 2" using assms(2) by simp
  from mk32_bounded [OF this, of "u = NZero \<and> Fin (5033165 / 33554432) = NZero"]
  have a: "is_fin (fadd u (Fin (5033165 / 33554432)))" "fval (fadd u (Fin (5033165 / 33554432))) = rnd32 (fval u + 5033165 / 33554432)"
    using assms(1) by (simp_all add: fadd_fin)
  define y where "y = (if flt U_EPS u then fadd u (fdiv FF_DEADZONE (Fin 100)) else u)"
  have y: "is_fin y" "fval y = comp_u (fval u)"
    using a assms(1) by (auto simp: y_def comp_u_def speed_consts flt_fin)
  let ?c = "clampf y (Fin 0) (Fin 1)"
  have c: "is_fin ?c" "fval ?c = max 0 (min 1 (comp_u (fval u)))"
    using y by (auto simp: clampf_def flt_fin)
  then have "0 \<le> fval ?c" "fval ?c \<le> 1" by simp_all
  then have b: "\<bar>fval ?c * 100\<bar> \<le> 100" by (simp add: abs_mult)
  from mk32_bounded [OF b, of "is_neg ?c \<noteq> is_neg (Fin 100)"]
  have m: "is_fin (fmul ?c PWM_DUTY_FULL)" "fval (fmul ?c PWM_DUTY_FULL) = rnd32 (fval ?c * 100)"
    using c by (simp_all add: PWM_DUTY_FULL_def fmul_fin)
  have n: "0 \<le> rnd32 (fval ?c * 100)" "rnd32 (fval ?c * 100) \<le> 100"
    using \<open>0 \<le> fval ?c\<close> \<open>fval ?c \<le> 1\<close> by (auto intro!: rnd32_nonneg rnd32_100)
  then have "0 \<le> \<lfloor>rnd32 (fval ?c * 100)\<rfloor>" "\<lfloor>rnd32 (fval ?c * 100)\<rfloor> \<le> 100" by (simp_all add: floor_le_iff)
  then have "f32_to_int (fmul ?c PWM_DUTY_FULL) = Some (duty_at (fval u))"
    using m n unfolding duty_at_def c(2) [symmetric] by (simp add: f32_to_int_def trunc_def)
  then show ?thesis unfolding duty_percent_def y_def Let_def flit_simps .
qed

lemma unit_mono: "x \<le> y \<Longrightarrow> max 0 (min 1 x) \<le> max 0 (min 1 (y :: real))"
  by (auto simp: max_def min_def)

lemma manual_u_mono: "x \<le> y \<Longrightarrow> manual_u x \<le> manual_u y"
proof -
  assume "x \<le> y"
  then have "fval FF_SPEED_SLOPE * max 0 (min (fval V_MAX) x) \<le> fval FF_SPEED_SLOPE * max 0 (min (fval V_MAX) y)"
    by (simp add: speed_consts)
  then have "rnd32 (fval FF_SPEED_SLOPE * max 0 (min (fval V_MAX) x)) / 100 \<le> rnd32 (fval FF_SPEED_SLOPE * max 0 (min (fval V_MAX) y)) / 100"
    by (simp add: rnd32_mono)
  from rnd32_mono [OF this] show ?thesis unfolding manual_u_def by (rule unit_mono)
qed

lemma comp_at_eps: "rnd32 (fval U_EPS + fval (fdiv FF_DEADZONE (Fin 100))) = 10737419 / 67108864"
  unfolding speed_consts by (simp add: f32_eval)

lemma comp_u_mono: "x \<le> y \<Longrightarrow> comp_u x \<le> comp_u y"
proof -
  assume xy: "x \<le> y"
  consider "fval U_EPS < x" | "x \<le> fval U_EPS" "fval U_EPS < y" | "y \<le> fval U_EPS" by linarith
  then show ?thesis
  proof cases
    case 1
    then show ?thesis using xy by (simp add: comp_u_def rnd32_mono)
  next
    case 2
    then have "rnd32 (fval U_EPS + fval (fdiv FF_DEADZONE (Fin 100))) \<le> rnd32 (y + fval (fdiv FF_DEADZONE (Fin 100)))"
      by (intro rnd32_mono) simp
    then show ?thesis using 2 comp_at_eps by (simp add: comp_u_def speed_consts)
  qed (use xy in \<open>simp add: comp_u_def\<close>)
qed

lemma duty_at_mono: "x \<le> y \<Longrightarrow> duty_at x \<le> duty_at y"
proof -
  assume "x \<le> y"
  then have "max 0 (min 1 (comp_u x)) * 100 \<le> max 0 (min 1 (comp_u y)) * 100"
    using unit_mono [OF comp_u_mono [of x y]] by simp
  then show ?thesis unfolding duty_at_def by (intro floor_mono rnd32_mono)
qed

text \<open>No duty cycle lies in the dead zone: either at most 1 or at least 16 per cent.\<close>

lemma duty_at_gap: "duty_at r \<le> 1 \<or> 16 \<le> duty_at r"
proof (cases "fval U_EPS < r")
  case True
  then have "rnd32 (fval U_EPS + fval (fdiv FF_DEADZONE (Fin 100))) \<le> comp_u r"
    by (simp add: comp_u_def) (intro rnd32_mono, simp)
  then have "10737419 / 67108864 * 100 \<le> max 0 (min 1 (comp_u r)) * 100" unfolding comp_at_eps by simp
  from rnd32_mono [OF this] have "16 \<le> rnd32 (max 0 (min 1 (comp_u r)) * 100)" by (simp add: f32_eval)
  then show ?thesis by (simp add: duty_at_def le_floor_iff)
next
  case False
  then have "duty_at r \<le> duty_at (fval U_EPS)" by (intro duty_at_mono) simp
  also have "duty_at (fval U_EPS) = 1" by (simp add: duty_at_def comp_u_def speed_consts f32_eval)
  finally show ?thesis ..
qed

lemma manual_u_top: "manual_u x \<le> 13830131 / 16777216"
proof -
  have "fval FF_SPEED_SLOPE * max 0 (min (fval V_MAX) x) \<le> fval FF_SPEED_SLOPE * fval V_MAX"
    by (simp add: speed_consts V_MAX_val)
  then have "rnd32 (fval FF_SPEED_SLOPE * max 0 (min (fval V_MAX) x)) / 100 \<le> rnd32 (fval FF_SPEED_SLOPE * fval V_MAX) / 100"
    by (simp add: rnd32_mono)
  from rnd32_mono [OF this] have "rnd32 (rnd32 (fval FF_SPEED_SLOPE * max 0 (min (fval V_MAX) x)) / 100) \<le> rnd32 (rnd32 (fval FF_SPEED_SLOPE * fval V_MAX) / 100)" .
  also have "\<dots> = 13830131 / 16777216" unfolding speed_consts V_MAX_val by (simp add: f32_eval)
  finally show ?thesis by (simp add: manual_u_def)
qed

lemma manual_u_range: "0 \<le> manual_u x" "manual_u x \<le> 1"
  by (simp_all add: manual_u_def)

lemma manual_duty:
  assumes "is_fin v"
  shows "duty_percent (manual_speed_to_duty v) = Some (duty_at (manual_u (fval v)))"
    "0 \<le> duty_at (manual_u (fval v))" "duty_at (manual_u (fval v)) \<le> 97"
proof -
  show "duty_percent (manual_speed_to_duty v) = Some (duty_at (manual_u (fval v)))"
    using duty_val [of "manual_speed_to_duty v"] man_val [OF assms] manual_u_range [of "fval v"] by simp
  show "0 \<le> duty_at (manual_u (fval v))" by (simp add: duty_at_def rnd32_nonneg)
  have c: "comp_u (13830131 / 16777216) = 8173357 / 8388608" unfolding comp_u_def speed_consts by (simp add: f32_eval)
  have "duty_at (manual_u (fval v)) \<le> duty_at (13830131 / 16777216)" by (rule duty_at_mono [OF manual_u_top])
  also have "\<dots> = 97" unfolding duty_at_def c by (simp add: f32_eval)
  finally show "duty_at (manual_u (fval v)) \<le> 97" .
qed


lemma manual_step:
  assumes "control_mode cmd = MODE_MANUAL" "emergency_stop cmd = 0" "drive_direction cmd \<noteq> DIR_STOP" "is_fin (target_speed cmd)"
  shows "\<exists>c' m' t. control_step cmd v c m = Some (c', m', t) \<and>
    driving (duty_at (manual_u (fval (target_speed cmd)))) (drive_direction cmd \<noteq> DIR_REV) (snd m')"
proof -
  have ne: "\<not> (control_mode cmd = MODE_AEB \<or> emergency_stop cmd \<noteq> 0)" using assms(1,2) by (simp add: consts_simps)
  note d = manual_duty(1) [OF assms(4)]
  have "driving k (drive_direction cmd \<noteq> DIR_REV) (snd (drive_pwm k (if drive_direction cmd = DIR_REV then 0 else 1) m))" for k
    using drive_pwm_driving [of k "if drive_direction cmd = DIR_REV then 0 else 1" m] by (simp split: if_splits)
  then show ?thesis
    using ne assms d by (simp add: control_step_def manual_branch_def Let_def pair_snd_iff)
qed

text \<open>
  MANUAL drives as commanded. Of two finite target speeds with the same or different
  directions, the higher one never gets the smaller duty cycle; each step sets both bridges to its duty
  cycle in opposite senses, forward or, for the reverse direction, the other way round; the duty
  cycle is at most 97 per cent, and none lies in the dead zone of the motors (between 2 and 15 per
  cent).
\<close>
theorem manual_drive:
  assumes "control_mode a = MODE_MANUAL" "emergency_stop a = 0" "drive_direction a \<noteq> DIR_STOP" "is_fin (target_speed a)"
    "control_mode b = MODE_MANUAL" "emergency_stop b = 0" "drive_direction b \<noteq> DIR_STOP" "is_fin (target_speed b)"
    "fval (target_speed a) \<le> fval (target_speed b)"
  shows "\<exists>d e ca ma ta cb mb tb.
    control_step a v c m = Some (ca, ma, ta) \<and> driving d (drive_direction a \<noteq> DIR_REV) (snd ma) \<and>
    control_step b v' c' m' = Some (cb, mb, tb) \<and> driving e (drive_direction b \<noteq> DIR_REV) (snd mb) \<and>
    0 \<le> d \<and> d \<le> e \<and> e \<le> 97 \<and> (d \<le> 1 \<or> 16 \<le> d) \<and> (e \<le> 1 \<or> 16 \<le> e)"
proof -
  let ?d = "duty_at (manual_u (fval (target_speed a)))" and ?e = "duty_at (manual_u (fval (target_speed b)))"
  have "0 \<le> ?d \<and> ?d \<le> ?e \<and> ?e \<le> 97 \<and> (?d \<le> 1 \<or> 16 \<le> ?d) \<and> (?e \<le> 1 \<or> 16 \<le> ?e)"
    using manual_duty(2) [OF assms(4)] manual_duty(3) [OF assms(8)] duty_at_gap
      duty_at_mono [OF manual_u_mono [OF assms(9)]] by blast
  with manual_step [OF assms(1-4), of v c m] manual_step [OF assms(5-8), of v' c' m'] show ?thesis by blast
qed

definition demo_manual :: "real \<Rightarrow> u8 \<Rightarrow> DriveCmd" where
  "demo_manual v dir = \<lparr>control_mode = 0, drive_direction = dir, target_speed = Fin v, accel_cmd = Fin 0, emergency_stop = 0\<rparr>"

theorem manual_drive_witness:
  "\<exists>d e ca ma ta cb mb tb.
     control_step (demo_manual (1 / 4) 1) (Fin 0) cpu1_state_0 (pwm_state_0, []) = Some (ca, ma, ta) \<and> driving d True (snd ma) \<and>
     control_step (demo_manual (1 / 2) 2) (Fin 0) cpu1_state_0 (pwm_state_0, []) = Some (cb, mb, tb) \<and> driving e False (snd mb) \<and>
     d \<le> e"
proof -
  let ?a = "demo_manual (1 / 4) 1" and ?b = "demo_manual (1 / 2) 2"
  have a: "control_mode ?a = MODE_MANUAL" "emergency_stop ?a = 0" "drive_direction ?a \<noteq> DIR_STOP" "is_fin (target_speed ?a)"
    and b: "control_mode ?b = MODE_MANUAL" "emergency_stop ?b = 0" "drive_direction ?b \<noteq> DIR_STOP" "is_fin (target_speed ?b)"
    and le: "fval (target_speed ?a) \<le> fval (target_speed ?b)"
    and dir: "(drive_direction ?a \<noteq> DIR_REV) = True" "(drive_direction ?b \<noteq> DIR_REV) = False"
    by (simp_all add: demo_manual_def consts_simps)
  from manual_drive [OF a b le, of "Fin 0" cpu1_state_0 "(pwm_state_0, [])" "Fin 0" cpu1_state_0 "(pwm_state_0, [])", unfolded dir]
  show ?thesis by blast
qed

section \<open>ACC: drive, roll or brake\<close>

lemma brake_limits: "fadd BRAKE_TH MODE_HYST = Fin (2936013 / 8388608)" "fsub BRAKE_TH MODE_HYST = Fin (1 / 4)"
  "V_BRAKE_MIN = Fin (13421773 / 268435456)"
  by (simp_all add: BRAKE_TH_def MODE_HYST_def V_BRAKE_MIN_def fadd_def fsub_def flit_def f32_eval)

text \<open>
  The output stage of ACC. A demand of zero or more drives forward; a negative one never
  drives: below 0.05 m/s the car rolls, above it brakes as soon as the demand passes 0.35, rolls
  below 0.25, and in between does what it did before (the hysteresis), remembering the choice.
\<close>
theorem acc_output_stage:
  assumes "is_fin u" "is_fin v" "s_brake_mode c \<le> 1"
  shows "\<exists>c' m'. apply_output u v c m = Some (c', m') \<and>
    (0 \<le> fval u \<longrightarrow> c' = c \<and> (\<exists>d. 0 \<le> d \<and> d \<le> 100 \<and> driving d True (snd m'))) \<and>
    (fval u < 0 \<and> fval v < fval V_BRAKE_MIN \<longrightarrow> c' = c \<and> coasting (snd m')) \<and>
    (fval u < 0 \<and> fval V_BRAKE_MIN \<le> fval v \<longrightarrow>
      (let brk = - fval u > 2936013 / 8388608 \<or> - fval u \<ge> 1 / 4 \<and> s_brake_mode c = 1
       in c' = c\<lparr>s_brake_mode := if brk then 1 else 0\<rparr> \<and> (if brk then braking (snd m') else coasting (snd m'))))"
proof (cases "0 \<le> fval u")
  case True
  have "u \<noteq> NaN" using assms(1) by auto
  from duty_percent_range [OF this] obtain d where "duty_percent u = Some d" "0 \<le> d" "d \<le> 100" by blast
  moreover have "driving d True (snd (drive_pwm d 1 m))" using drive_pwm_driving [of d 1 m] by simp
  ultimately show ?thesis using True assms(1)
    by (intro exI [of _ c] exI [of _ "drive_pwm d 1 m"]) (auto simp: apply_output_def fle_fin)
next
  case False
  have "unat (s_brake_mode c) = 0 \<or> unat (s_brake_mode c) = 1" using assms(3) by (auto simp: word_le_nat_alt)
  then have b: "s_brake_mode c = 0 \<or> s_brake_mode c = 1" by (metis unat_0 unat_1 word_unat_eq_iff)
  show ?thesis
  proof (cases "fval v < fval V_BRAKE_MIN")
    case True
    with False assms coast_both_coasting show ?thesis
      by (simp add: apply_output_def fle_fin flt_fin consts_fin Let_def)
  next
    case slow: False
    have n: "is_fin (fneg u)" "fval (fneg u) = - fval u" using assms(1) by simp_all
    have f: "fval V_BRAKE_MIN \<le> fval v" "fval u < 0" using slow False by simp_all
    have o: "apply_output u v c m = (let c = brake_hysteresis (fneg u) c in
        Some (c, if s_brake_mode c = 1 then brake_both m else coast_both m))"
      using False slow assms(1,2) by (simp add: apply_output_def fle_fin flt_fin consts_fin Let_def)
    define brk where "brk \<longleftrightarrow> - fval u > 2936013 / 8388608 \<or> - fval u \<ge> 1 / 4 \<and> s_brake_mode c = 1"
    have h: "brake_hysteresis (fneg u) c = c\<lparr>s_brake_mode := if brk then 1 else 0\<rparr>"
      using b n by (cases c) (auto simp: brake_hysteresis_def brake_limits flt_fin brk_def)
    show ?thesis unfolding brk_def [symmetric] Let_def
      by (rule exI [of _ "c\<lparr>s_brake_mode := if brk then 1 else 0\<rparr>"], rule exI [of _ "if brk then brake_both m else coast_both m"])
        (use False slow in \<open>simp add: o h Let_def brake_both_braking coast_both_coasting\<close>)
  qed
qed

theorem acc_output_stage_witness:
  "\<exists>c' m'. apply_output (Fin (- (3 / 10))) (Fin 1) (cpu1_state_0\<lparr>s_brake_mode := 1\<rparr>) (pwm_state_0, []) = Some (c', m') \<and>
     braking (snd m')"
  using acc_output_stage [of "Fin (- (3 / 10))" "Fin 1" "cpu1_state_0\<lparr>s_brake_mode := 1\<rparr>" "(pwm_state_0, [])"]
  by (auto simp: brake_limits Let_def)

end
