(* ===== verification/RearRace.thy ===== *)
theory RearRace
  imports RearShared
begin

text \<open>
  A double buffer while both cores are at work. The code copies a structure field by field, so a
  frame is a list of fields here and each copy of a field is a step of its own. The specification
  is a register whose writes and reads are single steps; the buffer refines it as long as a read
  overlaps with the end of at most one write, which \<open>calm\<close> says of a sequence of steps.
\<close>

section \<open>Steps of the code\<close>

datatype 'f act =
    WBegin "'f list"   \<comment> \<open>the writer reads the index and chooses the other slot\<close>
  | WField             \<comment> \<open>it copies its next field\<close>
  | WPublish           \<comment> \<open>it stores the new index\<close>
  | RBegin             \<comment> \<open>the reader reads the index\<close>
  | RField             \<comment> \<open>it copies its next field\<close>
  | REnd "'f list"     \<comment> \<open>it returns what it has copied\<close>

record 'f race =
  shared :: "'f list dbuf"
  wr :: "(u8 \<times> 'f list \<times> nat) option"    \<comment> \<open>slot, frame, fields copied\<close>
  rdr :: "(u8 \<times> 'f list) option"          \<comment> \<open>slot, fields copied\<close>

text \<open>n is the number of fields. A step that is not possible is None.\<close>

fun race_act :: "nat \<Rightarrow> 'f act \<Rightarrow> 'f race \<Rightarrow> 'f race option" where
  "race_act n (WBegin x) s =
     (if wr s = None \<and> length x = n then Some (s\<lparr>wr := Some (1 - published (shared s), x, 0)\<rparr>) else None)"
| "race_act n WField s =
     (case wr s of None \<Rightarrow> None | Some (i, x, k) \<Rightarrow>
        if k < n then do {
          fs \<leftarrow> get_slot i (shared s);
          b \<leftarrow> put_slot i (fs[k := x ! k]) (shared s);
          Some (s\<lparr>shared := b, wr := Some (i, x, k + 1)\<rparr>) }
        else None)"
| "race_act n WPublish s =
     (case wr s of None \<Rightarrow> None | Some (i, x, k) \<Rightarrow>
        if k = n then Some (s\<lparr>shared := (shared s)\<lparr>published := i\<rparr>, wr := None\<rparr>) else None)"
| "race_act n RBegin s =
     (if rdr s = None then Some (s\<lparr>rdr := Some (published (shared s), [])\<rparr>) else None)"
| "race_act n RField s =
     (case rdr s of None \<Rightarrow> None | Some (i, got) \<Rightarrow>
        if length got < n then do {
          fs \<leftarrow> get_slot i (shared s);
          Some (s\<lparr>rdr := Some (i, got @ [fs ! length got])\<rparr>) }
        else None)"
| "race_act n (REnd v) s =
     (case rdr s of None \<Rightarrow> None | Some (i, got) \<Rightarrow>
        if length got = n \<and> v = got then Some (s\<lparr>rdr := None\<rparr>) else None)"

fun race_run :: "nat \<Rightarrow> 'f act list \<Rightarrow> 'f race \<Rightarrow> 'f race option" where
  "race_run n [] s = Some s"
| "race_run n (a # as) s = do { s \<leftarrow> race_act n a s; race_run n as s }"

section \<open>The register\<close>

record 'f spec =
  val :: "'f list"
  pend :: "'f list option"
  snap :: "'f list option"

text \<open>A write takes effect when it is published; a read returns the value at its beginning.\<close>

fun spec_act :: "'f act \<Rightarrow> 'f spec \<Rightarrow> 'f spec option" where
  "spec_act (WBegin x) t = (if pend t = None then Some (t\<lparr>pend := Some x\<rparr>) else None)"
| "spec_act WField t = Some t"
| "spec_act WPublish t = (case pend t of None \<Rightarrow> None | Some x \<Rightarrow> Some (t\<lparr>val := x, pend := None\<rparr>))"
| "spec_act RBegin t = (if snap t = None then Some (t\<lparr>snap := Some (val t)\<rparr>) else None)"
| "spec_act RField t = Some t"
| "spec_act (REnd v) t = (if snap t = Some v then Some (t\<lparr>snap := None\<rparr>) else None)"

fun spec_run :: "'f act list \<Rightarrow> 'f spec \<Rightarrow> 'f spec option" where
  "spec_run [] t = Some t"
| "spec_run (a # as) t = do { t \<leftarrow> spec_act a t; spec_run as t }"

text \<open>No write begins during a read in which another has already been published. The first
  argument: no read in progress, or whether something was published since it began.\<close>

fun calm :: "bool option \<Rightarrow> 'f act list \<Rightarrow> bool" where
  "calm c [] = True"
| "calm c (RBegin # as) = calm (Some False) as"
| "calm c (REnd v # as) = calm None as"
| "calm c (WPublish # as) = calm (map_option (\<lambda>_. True) c) as"
| "calm c (WBegin x # as) \<longleftrightarrow> c \<noteq> Some True \<and> calm c as"
| "calm c (a # as) = calm c as"

section \<open>The simulation\<close>

definition wr_ok :: "nat \<Rightarrow> 'f list dbuf \<Rightarrow> (u8 \<times> 'f list \<times> nat) option \<Rightarrow> 'f list option \<Rightarrow> bool" where
  "wr_ok n b ws pd \<longleftrightarrow>
     (case ws of None \<Rightarrow> pd = None
      | Some (i, x, k) \<Rightarrow> pd = Some x \<and> i = 1 - published b \<and> length x = n \<and> k \<le> n \<and>
          (\<exists>fs. get_slot i b = Some fs \<and> take k fs = take k x))"

definition rd_ok :: "nat \<Rightarrow> bool option \<Rightarrow> 'f race \<Rightarrow> 'f list option \<Rightarrow> bool" where
  "rd_ok n c s sn \<longleftrightarrow>
     (case rdr s of None \<Rightarrow> sn = None \<and> c = None
      | Some (i, got) \<Rightarrow> (\<exists>v p. sn = Some v \<and> c = Some p \<and> get_slot i (shared s) = Some v \<and>
          length got \<le> n \<and> got = take (length got) v \<and>
          (if p then i = 1 - published (shared s) \<and> wr s = None else i = published (shared s))))"

definition race_sim :: "nat \<Rightarrow> bool option \<Rightarrow> 'f race \<Rightarrow> 'f spec \<Rightarrow> bool" where
  "race_sim n c s t \<longleftrightarrow>
     dbuf_inv (shared s) \<and> length (slot0 (shared s)) = n \<and> length (slot1 (shared s)) = n \<and>
     get_slot (published (shared s)) (shared s) = Some (val t) \<and>
     wr_ok n (shared s) (wr s) (pend t) \<and>
     rd_ok n c s (snap t)"

fun calm_next :: "bool option \<Rightarrow> 'f act \<Rightarrow> bool option" where
  "calm_next c RBegin = Some False"
| "calm_next c (REnd v) = None"
| "calm_next c WPublish = map_option (\<lambda>_. True) c"
| "calm_next c a = c"

lemma calm_Cons: "calm c (a # as) \<longleftrightarrow> (c = Some True \<longrightarrow> (\<forall>x. a \<noteq> WBegin x)) \<and> calm (calm_next c a) as"
  by (cases a) auto

lemma get_put_same: "put_slot i x b = Some b' \<Longrightarrow> get_slot i b' = Some x"
  by (auto simp: put_slot_def get_slot_def split: if_splits)

lemma get_put_other: "put_slot i x b = Some b' \<Longrightarrow> j \<noteq> i \<Longrightarrow> get_slot j b' = get_slot j b"
  by (auto simp: put_slot_def get_slot_def split: if_splits)

lemma put_slot_frame: "put_slot i x b = Some b' \<Longrightarrow> published b' = published b"
  by (auto simp: put_slot_def split: if_splits)

lemma put_slot_length:
  "put_slot i x b = Some b' \<Longrightarrow> length x = n \<Longrightarrow> length (slot0 b) = n \<and> length (slot1 b) = n \<Longrightarrow>
   length (slot0 b') = n \<and> length (slot1 b') = n"
  by (auto simp: put_slot_def split: if_splits)

lemma get_slot_length:
  "get_slot i b = Some fs \<Longrightarrow> length (slot0 b) = n \<and> length (slot1 b) = n \<Longrightarrow> length fs = n"
  by (auto simp: get_slot_def split: if_splits)

lemma other_slot: "dbuf_inv b \<Longrightarrow> 1 - published b \<noteq> published b"
  by (auto simp: dbuf_inv_def)

lemma get_slot_publish [simp]: "get_slot i (b\<lparr>published := j\<rparr>) = get_slot i b"
  by (simp add: get_slot_def)

lemma take_Suc_update:
  "k < length fs \<Longrightarrow> length x = length fs \<Longrightarrow> take k fs = take k x \<Longrightarrow> take (Suc k) (fs[k := x ! k]) = take (Suc k) x"
  by (simp add: take_Suc_conv_app_nth)

text \<open>One step of the code is one step of the register.\<close>

lemma race_step_sim:
  assumes sim: "race_sim n c s t" and act: "race_act n a s = Some s'"
    and calm: "c = Some True \<longrightarrow> (\<forall>x. a \<noteq> WBegin x)"
  shows "\<exists>t'. spec_act a t = Some t' \<and> race_sim n (calm_next c a) s' t'"
proof (cases a)
  case (WBegin x)
  have o: "1 - published (shared s) = 0 \<or> 1 - published (shared s) = 1" using sim by (auto simp: race_sim_def wr_ok_def dbuf_inv_def)
  then have g: "\<exists>fs. get_slot (1 - published (shared s)) (shared s) = Some fs" by (auto simp: get_slot_def)
  from act WBegin have w: "wr s = None" "length x = n" "s' = s\<lparr>wr := Some (1 - published (shared s), x, 0)\<rparr>"
    by (auto split: if_splits)
  have "pend t = None" using sim w(1) by (simp add: race_sim_def wr_ok_def)
  moreover have "race_sim n c s' (t\<lparr>pend := Some x\<rparr>)"
  proof (cases "rdr s")
    case None
    then show ?thesis using sim w g by (simp add: race_sim_def wr_ok_def rd_ok_def)
  next
    case (Some jg)
    obtain j got where jg: "jg = (j, got)" by (cases jg)
    from sim Some jg obtain v q where v: "snap t = Some v" "c = Some q" "get_slot j (shared s) = Some v"
      "length got \<le> n" "got = take (length got) v" "if q then j = 1 - published (shared s) \<and> wr s = None else j = published (shared s)"
      unfolding race_sim_def wr_ok_def rd_ok_def by auto
    then have "\<not> q" using calm WBegin by auto
    then show ?thesis using sim w g Some jg v by (simp add: race_sim_def wr_ok_def rd_ok_def) blast
  qed
  ultimately show ?thesis using WBegin by simp
next
  case WField
  with act obtain i x k fs b where w: "wr s = Some (i, x, k)" "k < n" "get_slot i (shared s) = Some fs"
    "put_slot i (fs[k := x ! k]) (shared s) = Some b" "s' = s\<lparr>shared := b, wr := Some (i, x, k + 1)\<rparr>"
    by (auto simp: bind_Some_iff split: option.splits if_splits)
  have len: "length (slot0 (shared s)) = n \<and> length (slot1 (shared s)) = n" using sim by (simp add: race_sim_def wr_ok_def)
  have fs: "length fs = n" by (rule get_slot_length [OF w(3) len])
  have i: "i = 1 - published (shared s)" "pend t = Some x" "length x = n" "take k fs = take k x"
    using sim w by (auto simp: race_sim_def wr_ok_def)
  have "dbuf_inv (shared s)" using sim by (simp add: race_sim_def wr_ok_def)
  from other_slot [OF this] have ne: "published (shared s) \<noteq> i" unfolding i(1) by (rule not_sym)
  have g: "get_slot i b = Some (fs[k := x ! k])" "get_slot (published (shared s)) b = get_slot (published (shared s)) (shared s)"
    using get_put_same [OF w(4)] get_put_other [OF w(4) ne] by auto
  have l: "length (slot0 b) = n \<and> length (slot1 b) = n" by (rule put_slot_length [OF w(4) _ len]) (simp add: fs)
  have p: "published b = published (shared s)" by (rule put_slot_frame [OF w(4)])
  have tk: "take (Suc k) (fs[k := x ! k]) = take (Suc k) x" using w(2) fs i by (intro take_Suc_update) simp_all
  have rd: "rd_ok n c s' (snap t)"
  proof (cases "rdr s")
    case None
    then show ?thesis using sim by (simp add: race_sim_def wr_ok_def rd_ok_def w)
  next
    case (Some jg)
    obtain j got where jg: "jg = (j, got)" by (cases jg)
    from sim Some jg obtain v q where v: "snap t = Some v" "c = Some q" "get_slot j (shared s) = Some v"
      "length got \<le> n" "got = take (length got) v" "if q then j = 1 - published (shared s) \<and> wr s = None else j = published (shared s)"
      unfolding race_sim_def wr_ok_def rd_ok_def by auto
    from v(6) w(1) have q: "\<not> q" "j = published (shared s)" by (auto split: if_splits)
    show ?thesis using Some jg v q g(2) p by (simp add: rd_ok_def w) blast
  qed
  have "race_sim n c s' t"
    using sim rd g l p i tk w(1,2) unfolding race_sim_def wr_ok_def w(5) dbuf_inv_def by simp
  then show ?thesis using WField by simp
next
  case WPublish
  with act obtain i x where w: "wr s = Some (i, x, n)" "s' = s\<lparr>shared := (shared s)\<lparr>published := i\<rparr>, wr := None\<rparr>"
    by (auto split: option.splits if_splits)
  from sim w obtain fs where i: "i = 1 - published (shared s)" "pend t = Some x" "length x = n"
    "get_slot i (shared s) = Some fs" "take n fs = take n x" by (auto simp: race_sim_def wr_ok_def)
  have "length fs = n" using i(4) sim get_slot_length by (auto simp: race_sim_def wr_ok_def)
  then have fx: "fs = x" using i by simp
  have "rd_ok n (map_option (\<lambda>_. True) c) s' (snap t)"
  proof (cases "rdr s")
    case None
    then show ?thesis using sim by (simp add: race_sim_def wr_ok_def rd_ok_def w)
  next
    case (Some jg)
    obtain j got where jg: "jg = (j, got)" by (cases jg)
    from sim Some jg obtain v q where v: "snap t = Some v" "c = Some q" "get_slot j (shared s) = Some v"
      "length got \<le> n" "got = take (length got) v" "if q then j = 1 - published (shared s) \<and> wr s = None else j = published (shared s)"
      unfolding race_sim_def wr_ok_def rd_ok_def by auto
    from v(6) w(1) have q: "\<not> q" "j = published (shared s)" by (auto split: if_splits)
    have r': "rdr s' = Some (j, got)" by (simp add: w Some jg)
    show ?thesis unfolding rd_ok_def r' option.case prod.case
      by (rule exI [of _ v], rule exI [of _ True]) (use v q(1) q(2) i(1) in \<open>simp add: w(2)\<close>)
  qed
  moreover have "i = 0 \<or> i = 1" using sim i(1) by (auto simp: race_sim_def wr_ok_def dbuf_inv_def)
  ultimately have "race_sim n (map_option (\<lambda>_. True) c) s' (t\<lparr>val := x, pend := None\<rparr>)"
    using sim i fx by (simp add: race_sim_def wr_ok_def w dbuf_inv_def)
  then show ?thesis using i WPublish by simp
next
  case RBegin
  with act have r: "rdr s = None" "s' = s\<lparr>rdr := Some (published (shared s), [])\<rparr>" by (auto split: if_splits)
  then have n: "snap t = None" using sim by (simp add: race_sim_def rd_ok_def)
  have g: "get_slot (published (shared s)) (shared s) = Some (val t)" using sim by (simp add: race_sim_def)
  have "rd_ok n (Some False) s' (Some (val t))" by (simp add: rd_ok_def r g) blast
  then have "race_sim n (Some False) s' (t\<lparr>snap := Some (val t)\<rparr>)" using sim by (simp add: race_sim_def r(2))
  then show ?thesis using RBegin n by simp
next
  case RField
  with act obtain i got fs where r: "rdr s = Some (i, got)" "length got < n" "get_slot i (shared s) = Some fs"
    "s' = s\<lparr>rdr := Some (i, got @ [fs ! length got])\<rparr>" by (auto simp: bind_Some_iff split: option.splits if_splits)
  from sim r(1) obtain q where v: "snap t = Some fs" "c = Some q" "got = take (length got) fs"
    "if q then i = 1 - published (shared s) \<and> wr s = None else i = published (shared s)"
    unfolding race_sim_def rd_ok_def using r(3) by auto
  have "length fs = n" using r(3) sim get_slot_length by (auto simp: race_sim_def)
  note l = this
  then have g: "got @ [fs ! length got] = take (Suc (length got)) fs" using v(3) r(2) by (simp add: take_Suc_conv_app_nth)
  have r': "rdr s' = Some (i, got @ [fs ! length got])" by (simp add: r(4))
  have "rd_ok n c s' (snap t)" unfolding rd_ok_def r' option.case prod.case
    by (rule exI [of _ fs], rule exI [of _ q]) (use v r(2) g l r(3) in \<open>simp add: r(4)\<close>)
  then have "race_sim n c s' t" using sim by (simp add: race_sim_def r(4))
  then show ?thesis using RField by simp
next
  case (REnd v)
  with act obtain i where r: "rdr s = Some (i, v)" "length v = n" "s' = s\<lparr>rdr := None\<rparr>"
    by (auto split: option.splits if_splits)
  from sim r obtain x where x: "snap t = Some x" "get_slot i (shared s) = Some x" "v = take (length v) x"
    by (auto simp: race_sim_def rd_ok_def)
  have "length x = n" using x(2) sim get_slot_length by (auto simp: race_sim_def)
  with x r(2) have "snap t = Some v" by simp
  moreover have "race_sim n None s' (t\<lparr>snap := None\<rparr>)" using sim by (simp add: race_sim_def rd_ok_def r(3))
  ultimately show ?thesis using REnd by simp
qed

lemma race_run_sim:
  assumes "race_sim n c s t" "race_run n as s = Some s'" "calm c as"
  shows "\<exists>t' c'. spec_run as t = Some t' \<and> race_sim n c' s' t'"
  using assms
proof (induction as arbitrary: c s t)
  case (Cons a as)
  from Cons.prems(2) obtain s1 where 1: "race_act n a s = Some s1" "race_run n as s1 = Some s'"
    by (auto simp: bind_Some_iff)
  have c: "c = Some True \<longrightarrow> (\<forall>x. a \<noteq> WBegin x)" "calm (calm_next c a) as" using Cons.prems(3) unfolding calm_Cons by blast+
  from race_step_sim [OF Cons.prems(1) 1(1) c(1)] obtain t1 where "spec_act a t = Some t1" "race_sim n (calm_next c a) s1 t1" by blast
  with Cons.IH [OF this(2) 1(2) c(2)] show ?case by auto
qed auto

text \<open>An idle buffer and the register that holds its published frame.\<close>

definition idle :: "'f list dbuf \<Rightarrow> 'f race" where
  "idle b = \<lparr>shared = b, wr = None, rdr = None\<rparr>"

lemma idle_sim:
  "dbuf_inv b \<Longrightarrow> length (slot0 b) = n \<Longrightarrow> length (slot1 b) = n \<Longrightarrow> dbuf_read b = Some x \<Longrightarrow>
   race_sim n None (idle b) \<lparr>val = x, pend = None, snap = None\<rparr>"
  by (simp add: race_sim_def wr_ok_def rd_ok_def idle_def dbuf_read_def)

section \<open>Nobody in the way\<close>

text \<open>Without interference the steps of a write are \<open>dbuf_write\<close>, those of a read \<open>dbuf_read\<close>.\<close>

lemma write_fields:
  assumes "get_slot i b = Some fs" "length fs = n" "length x = n" "k \<le> n" "take k fs = take k x"
  shows "\<exists>b'. race_run n (replicate (n - k) WField) \<lparr>shared = b, wr = Some (i, x, k), rdr = r\<rparr> =
      Some \<lparr>shared = b', wr = Some (i, x, n), rdr = r\<rparr> \<and> put_slot i x b = Some b'"
  using assms
proof (induction "n - k" arbitrary: k b fs)
  case 0
  then have "k = n" "fs = x" by auto
  then show ?case using 0 by (cases b) (auto simp: put_slot_def get_slot_def split: if_splits)
next
  case (Suc m)
  then have k: "k < n" by simp
  then obtain b1 where b1: "put_slot i (fs[k := x ! k]) b = Some b1"
    using Suc.prems(1) by (auto simp: put_slot_def get_slot_def split: if_splits)
  have g: "get_slot i b1 = Some (fs[k := x ! k])" by (rule get_put_same [OF b1])
  have "put_slot i x b1 = put_slot i x b" using b1 by (auto simp: put_slot_def split: if_splits)
  moreover have "m = n - Suc k" "n - k = Suc (n - Suc k)" using Suc(2) k by simp_all
  ultimately show ?case
    using Suc(1) [OF \<open>m = n - Suc k\<close> g] k Suc.prems b1 take_Suc_update [of k fs x]
    by (simp add: k)
qed

lemma race_run_append: "race_run n (as @ as') s = Option.bind (race_run n as s) (race_run n as')"
  by (induction as arbitrary: s) (simp_all split: bind_split)

definition write_steps :: "'f list \<Rightarrow> 'f act list" where
  "write_steps x = WBegin x # replicate (length x) WField @ [WPublish]"

text \<open>A whole write, whatever the reader is in the middle of.\<close>

lemma write_run:
  assumes "dbuf_inv b" "length (slot0 b) = n" "length (slot1 b) = n" "length x = n"
  obtains b' where "race_run n (write_steps x) \<lparr>shared = b, wr = None, rdr = r\<rparr> = Some \<lparr>shared = b', wr = None, rdr = r\<rparr>"
    "dbuf_write x b = Some b'"
proof -
  obtain fs where fs: "get_slot (1 - published b) b = Some fs" using assms(1) by (auto simp: dbuf_inv_def get_slot_def)
  have "length fs = n" using get_slot_length [OF fs] assms by simp
  from write_fields [OF fs this assms(4), of 0 r] obtain b' where
    "race_run n (replicate n WField) \<lparr>shared = b, wr = Some (1 - published b, x, 0), rdr = r\<rparr> =
      Some \<lparr>shared = b', wr = Some (1 - published b, x, n), rdr = r\<rparr>" "put_slot (1 - published b) x b = Some b'" by auto
  then show thesis using assms(4) by (intro that) (simp_all add: race_run_append write_steps_def dbuf_write_def Let_def)
qed

lemma write_alone:
  assumes "dbuf_inv b" "length (slot0 b) = n" "length (slot1 b) = n" "length x = n"
  shows "map_option shared (race_run n (write_steps x) (idle b)) = dbuf_write x b"
  by (rule write_run [OF assms, of None]) (simp add: idle_def)

text \<open>The reader copies the next m fields of its slot.\<close>

lemma read_fields:
  assumes "get_slot i b = Some v" "length v = n" "length got + m \<le> n"
  shows "race_run n (replicate m RField) \<lparr>shared = b, wr = ws, rdr = Some (i, got)\<rparr> =
    Some \<lparr>shared = b, wr = ws, rdr = Some (i, got @ take m (drop (length got) v))\<rparr>"
  using assms(3)
proof (induction m arbitrary: got)
  case (Suc m)
  then have l: "length got < length v" using assms(2) by simp
  from Suc show ?case
    using assms(1,2) Suc.IH [of "got @ [v ! length got]"] by (simp add: Cons_nth_drop_Suc [OF l, symmetric])
qed simp

lemma dbuf_write_slots:
  assumes "dbuf_write x b = Some b'" "dbuf_inv b" "length (slot0 b) = n" "length (slot1 b) = n" "length x = n"
  shows "dbuf_inv b'" "length (slot0 b') = n" "length (slot1 b') = n" "published b' = 1 - published b" "get_slot (published b') b' = Some x"
    "get_slot (published b) b' = get_slot (published b) b"
  using assms by (auto simp: dbuf_write_def dbuf_inv_def put_slot_def get_slot_def Let_def split: if_splits)

section \<open>Overtaken twice\<close>

text \<open>A reader that has copied k fields while two whole frames are written goes on in the slot of the second one.\<close>

lemma overtaken:
  assumes "dbuf_inv b" "length (slot0 b) = n" "length (slot1 b) = n" "dbuf_read b = Some old" "length x = n" "length y = n" "k \<le> n"
  obtains s where "race_run n ([RBegin] @ replicate k RField @ write_steps x @ write_steps y @ replicate (n - k) RField @
      [REnd (take k old @ drop k y)]) (idle b) = Some s" "dbuf_read (shared s) = Some y"
proof -
  let ?i = "published b"
  have old: "get_slot ?i b = Some old" "length old = n" using assms(2-4) get_slot_length by (auto simp: dbuf_read_def)
  have 1: "race_run n (replicate k RField) \<lparr>shared = b, wr = None, rdr = Some (?i, [])\<rparr> =
      Some \<lparr>shared = b, wr = None, rdr = Some (?i, take k old)\<rparr>"
    using read_fields [OF old, of "[]" k None] assms(7) by simp
  obtain b1 where b1: "race_run n (write_steps x) \<lparr>shared = b, wr = None, rdr = Some (?i, take k old)\<rparr> =
      Some \<lparr>shared = b1, wr = None, rdr = Some (?i, take k old)\<rparr>" "dbuf_write x b = Some b1"
    by (rule write_run [OF assms(1-3,5)])
  note w1 = dbuf_write_slots [OF b1(2) assms(1-3,5)]
  obtain b2 where b2: "race_run n (write_steps y) \<lparr>shared = b1, wr = None, rdr = Some (?i, take k old)\<rparr> =
      Some \<lparr>shared = b2, wr = None, rdr = Some (?i, take k old)\<rparr>" "dbuf_write y b1 = Some b2"
    by (rule write_run [OF w1(1-3) assms(6)])
  note w2 = dbuf_write_slots [OF b2(2) w1(1-3) assms(6)]
  have i: "published b2 = ?i" using w1(4) w2(4) by simp
  have y: "get_slot ?i b2 = Some y" using w2(5) i by simp
  have 2: "race_run n (replicate (n - k) RField) \<lparr>shared = b2, wr = None, rdr = Some (?i, take k old)\<rparr> =
      Some \<lparr>shared = b2, wr = None, rdr = Some (?i, take k old @ drop k y)\<rparr>"
    using read_fields [OF y assms(6), of "take k old" "n - k" None] old(2) assms(6,7) by simp
  have "length (take k old @ drop k y) = n" using old(2) assms(6,7) by simp
  then show thesis
    by (intro that [of "\<lparr>shared = b2, wr = None, rdr = None\<rparr>"]) (simp_all add: race_run_append idle_def 1 b1(1) b2(1) 2 dbuf_read_def w2(5))
qed

end
