(* ===== verification/RearNet_Props.thy ===== *)
theory RearNet_Props
  imports RearSystem_Props RearRace
begin

text \<open>
  The properties of CPU0: what a datagram does, the timers of the stack, what is sent and when;
  and of the double buffers between the cores when accesses overlap.
\<close>

section \<open>Reception\<close>

lemma receive_writes:
  assumes "lmu_inv lm"
  shows "\<exists>m. udp_receive_acc_recv stack (Some p) addr n lm = Some (case addr of None \<Rightarrow> n | Some a \<Rightarrow> n\<lparr>pcip := a\<rparr>, m) \<and>
    lmu_inv m \<and> Cpu1_ReadDriveCmd m = Some (acc_recv_cmd (acc_recv_buf stack p))"
proof -
  obtain m where "Cpu0_WriteDriveCmd (acc_recv_cmd (acc_recv_buf stack p)) lm = Some m" "lmu_inv m"
    "Cpu1_ReadDriveCmd m = Some (acc_recv_cmd (acc_recv_buf stack p))" using cmd.write_ok [OF assms] by blast
  then show ?thesis by (simp add: udp_receive_acc_recv_def)
qed

text \<open>
  C27: Commands arrive as sent. When a datagram carries, after 16 bytes of any header, the mode, the
  direction, two unused bytes, target speed and acceleration as little-endian floats and the
  emergency byte, then however the network stack split it into segments the controller's next
  read returns exactly that command, and telemetry goes to the sender from now on.
\<close>
theorem command_received:
  assumes "lmu_inv lm" "length stack = 32" "length hdr = 16"
    "concat p = hdr @ [mode, dir, x, y] @ le_bytes ts @ le_bytes ac @ [es] @ rest"
  shows "\<exists>m. udp_receive_acc_recv stack (Some p) (Some a) n lm = Some (n\<lparr>pcip := a\<rparr>, m) \<and> lmu_inv m \<and>
    Cpu1_ReadDriveCmd m = Some \<lparr>control_mode = mode, drive_direction = dir, target_speed = f32_of_bits ts,
      accel_cmd = f32_of_bits ac, emergency_stop = es\<rparr>"
proof -
  let ?b = "concat p"
  have len: "29 \<le> length ?b" using assms(3,4) by (simp add: le_bytes_def)
  have "acc_recv_cmd (acc_recv_buf stack p) = acc_recv_cmd ?b"
    by (rule acc_recv_cmd_cong) (rule acc_recv_buf_full [OF assms(2) len])
  moreover have "?b = (hdr @ [mode, dir, x, y]) @ le_bytes ts @ (le_bytes ac @ [es] @ rest)"
    "?b = (hdr @ [mode, dir, x, y] @ le_bytes ts) @ le_bytes ac @ ([es] @ rest)"
    "?b ! 16 = mode" "?b ! 17 = dir" "?b ! 28 = es"
    using assms(3,4) by (simp_all add: nth_append le_bytes_def)
  moreover have "le32 ?b 20 = ts" unfolding calculation(2) by (rule le32_append) (simp add: assms(3))
  moreover have "le32 ?b 24 = ac" unfolding calculation(3) by (rule le32_append) (simp add: assms(3) le_bytes_def)
  ultimately have c: "acc_recv_cmd (acc_recv_buf stack p) = \<lparr>control_mode = mode, drive_direction = dir,
      target_speed = f32_of_bits ts, accel_cmd = f32_of_bits ac, emergency_stop = es\<rparr>"
    by (simp add: acc_recv_cmd_def)
  from receive_writes [OF assms(1), of stack p "Some a" n] show ?thesis unfolding c by simp
qed

theorem command_received_witness:
  "\<exists>m. udp_receive_acc_recv (replicate 32 9) (Some [replicate 16 7, [1, 1, 0, 0] @ le_bytes 5, le_bytes 6 @ [0]]) (Some [10, 0, 0, 1])
     net_state_0 lmu_0 = Some (net_state_0\<lparr>pcip := [10, 0, 0, 1]\<rparr>, m) \<and>
     Cpu1_ReadDriveCmd m = Some \<lparr>control_mode = 1, drive_direction = 1, target_speed = f32_of_bits 5,
       accel_cmd = f32_of_bits 6, emergency_stop = 0\<rparr>"
  using command_received [OF lmu_inv_0, of "replicate 32 9" "replicate 16 7"
      "[replicate 16 7, [1, 1, 0, 0] @ le_bytes 5, le_bytes 6 @ [0]]" 1 1 0 0 5 6 0 "[]" "[10, 0, 0, 1]" net_state_0] by auto

text \<open>
  No length is checked. A datagram of at most 16 bytes, an empty one included, also replaces
  the drive command: with what the stack of the receiving function happens to hold.
\<close>
theorem short_datagram_obeys_stack:
  assumes "lmu_inv lm" "length stack = 32" "length (concat p) \<le> 16"
  shows "\<exists>n' m. udp_receive_acc_recv stack (Some p) addr n lm = Some (n', m) \<and>
    Cpu1_ReadDriveCmd m = Some (acc_recv_cmd stack)"
proof -
  have c: "acc_recv_cmd (acc_recv_buf stack p) = acc_recv_cmd stack"
    by (rule acc_recv_cmd_cong) (rule acc_recv_buf_short [OF assms(2)]; use assms(3) in simp)
  from receive_writes [OF assms(1), of stack p addr n] show ?thesis unfolding c by blast
qed

theorem short_datagram_obeys_stack_witness:
  "\<exists>n' m. udp_receive_acc_recv (replicate 17 0 @ [1] @ replicate 14 0) (Some []) None net_state_0 lmu_0 = Some (n', m) \<and>
     map_option drive_direction (Cpu1_ReadDriveCmd m) = Some 1"
proof -
  have "drive_direction (acc_recv_cmd (replicate 17 0 @ [1] @ replicate 14 0)) = 1" by (simp add: acc_recv_cmd_def nth_append)
  then show ?thesis
    using short_datagram_obeys_stack [OF lmu_inv_0, of "replicate 17 0 @ [1] @ replicate 14 0" "[]" None net_state_0] by auto
qed

section \<open>Timers of the stack\<close>

text \<open>
  C31: No period is lost. If between two polls there is never more than one period of a timer, then
  the polls report the timer exactly once per period of milliseconds, however irregularly they come:
  as often as its period goes into the time that has passed, the time counted before included.
\<close>
theorem stack_timers_exact:
  assumes "timers_ok t" "timerFlags t = 0" "\<forall>g \<in> set gs. g \<le> period_of d"
  shows "reports d gs t = (unat (counter_of d t) + sum_list gs) div period_of d"
  using assms by (rule reports_exact)

definition demo_timers :: lwip_timers where
  "demo_timers = \<lparr>tmr_arp = 0, tmr_tcp_fast = 100, tmr_tcp_slow = 0, tmr_link = 0, timerFlags = 0, g_TickCount_1ms = 0\<rparr>"

theorem stack_timers_exact_witness: "reports TcpFast [200, 40, 250] demo_timers = 2"
proof -
  have t: "timers_ok demo_timers" unfolding timers_ok_def
  proof
    fix d show "unat (counter_of d demo_timers) < period_of d" by (cases d) (simp_all add: demo_timers_def)
  qed
  have "reports TcpFast [200, 40, 250] demo_timers = (unat (counter_of TcpFast demo_timers) + sum_list [200, 40, 250]) div period_of TcpFast"
    by (rule stack_timers_exact [OF t]) (simp_all add: demo_timers_def)
  then show ?thesis by (simp add: demo_timers_def)
qed

section \<open>Sending\<close>








section \<open>Two cores at one buffer\<close>

text \<open>
  C11: The double buffer is a register. Take any interleaving of the writer's and the reader's
  steps (single fields are copied one at a time) in which no write begins during a read that has
  already seen another write published. Then every read returns exactly the frame that was
  published when it began: the interleaving is one of the register whose writes and reads are
  single steps.
\<close>
theorem buffer_refines_register:
  assumes "dbuf_inv b" "length (slot0 b) = n" "length (slot1 b) = n" "dbuf_read b = Some x"
    "race_run n as (idle b) = Some s" "calm None as"
  shows "\<exists>t. spec_run as \<lparr>val = x, pend = None, snap = None\<rparr> = Some t \<and>
    dbuf_inv (shared s) \<and> dbuf_read (shared s) = Some (val t)"
  using race_run_sim [OF idle_sim [OF assms(1-4)] assms(5,6)] by (auto simp: race_sim_def dbuf_read_def)

definition demo_dbuf :: "nat list dbuf" where
  "demo_dbuf = \<lparr>slot0 = [1, 2], slot1 = [0, 0], published = 0\<rparr>"

definition demo_acts :: "nat act list" where
  "demo_acts = [RBegin, WBegin [3, 4], WField, RField, WField, WPublish, RField, REnd [1, 2]]"

theorem buffer_refines_register_witness:
  "\<exists>t. spec_run demo_acts \<lparr>val = [1, 2], pend = None, snap = None\<rparr> = Some t \<and> val t = [3, 4]"
proof -
  have "\<exists>s. race_run 2 demo_acts (idle demo_dbuf) = Some s \<and> dbuf_read (shared s) = Some [3, 4]"
    by (simp add: demo_acts_def demo_dbuf_def idle_def get_slot_def put_slot_def dbuf_read_def)
  then obtain s where s: "race_run 2 demo_acts (idle demo_dbuf) = Some s" "dbuf_read (shared s) = Some [3, 4]" by blast
  from buffer_refines_register [OF _ _ _ _ s(1), of "[1, 2]"] s(2) show ?thesis
    by (auto simp: demo_dbuf_def demo_acts_def dbuf_inv_def dbuf_read_def get_slot_def)
qed

text \<open>The fields of a drive command, in the order the code copies them.\<close>

datatype cmd_field = Byte u8 | Single f32

definition cmd_fields :: "DriveCmd \<Rightarrow> cmd_field list" where
  "cmd_fields c = [Byte (control_mode c), Byte (drive_direction c), Single (target_speed c), Single (accel_cmd c),
     Byte (emergency_stop c)]"

text \<open>
  C34: The condition of the refinement of the double buffer to a register is needed: two slots do not protect a reader that is overtaken
  twice. Take any idle buffer of frames of n fields and a reader that has copied k of the fields of the published frame when two
  more frames are written, one after the other: it then returns the first k fields of the
  old frame followed by the other fields of the newest one. If these differ in both parts, and the
  frame in between differs from the old one in the first part, nobody ever wrote what is read.
\<close>
theorem torn_read:
  assumes "dbuf_inv b" "length (slot0 b) = n" "length (slot1 b) = n" "dbuf_read b = Some old" "length x = n" "length y = n" "k \<le> n"
    "take k x \<noteq> take k old" "take k y \<noteq> take k old" "drop k y \<noteq> drop k old"
  shows "\<exists>s v. race_run n ([RBegin] @ replicate k RField @ write_steps x @ write_steps y @ replicate (n - k) RField @ [REnd v]) (idle b) = Some s \<and>
    dbuf_read (shared s) = Some y \<and> v = take k old @ drop k y \<and> v \<notin> {old, x, y}"
proof -
  have "length old = n" using assms(2-4) get_slot_length by (auto simp: dbuf_read_def)
  then have t: "take k (take k old @ drop k y) = take k old" "drop k (take k old @ drop k y) = drop k y" using assms(7) by simp_all
  then have "take k old @ drop k y \<notin> {old, x, y}" using assms(8-10) by (metis empty_iff insert_iff)
  then show ?thesis using overtaken [OF assms(1-7)] by metis
qed

text \<open>
  With drive commands: the controller has read the mode of an ACC command when two MANUAL commands come in. It drives in ACC mode with the
  direction and the acceleration of the second one.
\<close>

definition demo_cmd :: "u8 \<Rightarrow> u8 \<Rightarrow> f32 \<Rightarrow> DriveCmd" where
  "demo_cmd mode dir a = \<lparr>control_mode = mode, drive_direction = dir, target_speed = Fin 0, accel_cmd = a, emergency_stop = 0\<rparr>"

theorem torn_read_witness:
  "\<exists>s. race_run 5 ([RBegin] @ replicate 1 RField @ write_steps (cmd_fields (demo_cmd MODE_MANUAL 0 (Fin 0))) @
      write_steps (cmd_fields (demo_cmd MODE_MANUAL 1 (Fin 3))) @ replicate 4 RField @ [REnd (cmd_fields (demo_cmd MODE_ACC 1 (Fin 3)))])
    (idle \<lparr>slot0 = cmd_fields (demo_cmd MODE_ACC 0 (Fin 0)), slot1 = cmd_fields (demo_cmd MODE_ACC 0 (Fin 0)), published = 0\<rparr>) = Some s"
proof -
  let ?a = "cmd_fields (demo_cmd MODE_ACC 0 (Fin 0))" and ?x = "cmd_fields (demo_cmd MODE_MANUAL 0 (Fin 0))"
    and ?y = "cmd_fields (demo_cmd MODE_MANUAL 1 (Fin 3))"
  let ?b = "\<lparr>slot0 = ?a, slot1 = ?a, published = 0\<rparr>"
  have b: "dbuf_inv ?b" "dbuf_read ?b = Some ?a" "length (slot0 ?b) = 5" "length (slot1 ?b) = 5" "length ?x = 5" "length ?y = 5"
    by (simp_all add: dbuf_inv_def dbuf_read_def get_slot_def cmd_fields_def)
  have d: "take 1 ?x \<noteq> take 1 ?a" "take 1 ?y \<noteq> take 1 ?a" "drop 1 ?y \<noteq> drop 1 ?a"
    by (simp_all add: cmd_fields_def demo_cmd_def MODE_MANUAL_def MODE_ACC_def)
  have v: "take 1 ?a @ drop 1 ?y = cmd_fields (demo_cmd MODE_ACC 1 (Fin 3))" by (simp add: cmd_fields_def demo_cmd_def)
  from torn_read [OF b(1,3,4,2,5,6) _ d] show ?thesis unfolding v by auto
qed

end
