(* ===== verification/RearSerial.thy ===== *)
theory RearSerial
  imports RearHw
begin

text \<open>
  The serial lines of the REAR board: BSW/Driver/asclin.c, BSW/etc/Bluetooth.c,
  BSW/etc/my_stdio.c and BSW/etc/etc.c. Waiting for a character or for room in the FIFO has no
  time limit, so these operations are partial. A C string is the list of its bytes; a buffer
  that is too small for the text written to it has no behaviour (None).
\<close>

section \<open>The two UARTs (asclin.c)\<close>

text \<open>Writing a register that \<open>IfxScuWdt\<close> protects.\<close>

definition unlocked_write :: "string \<Rightarrow> u32 \<Rightarrow> rtrace \<Rightarrow> rtrace" where
  "unlocked_write r v w =
     (let w = Call ''IfxScuWdt_clearCpuEndinit'' [] # w; w = WriteReg r v # w
      in Call ''IfxScuWdt_setCpuEndinit'' [] # w)"

definition Asclin0_InitUart :: "rear_hw \<Rightarrow> rtrace \<Rightarrow> rtrace" where
  "Asclin0_InitUart E w =
     (let numerator = 576; denominator = 3125;
          w = write_regs [(''P14.IOCR0.PC0'', 0x12), (''P14.OUT.P0'', 1)] w;
          w = unlocked_write ''ASCLIN0.CLC'' 0 w;
          (_, w) = reg_read E ''ASCLIN0.CLC'' w
      in write_regs
          [(''ASCLIN0.IOCR.ALTI'', 0), (''ASCLIN0.CSR'', 0),
           (''ASCLIN0.TXFIFOCON'', push_bit 6 1 OR push_bit 1 1 OR 1),
           (''ASCLIN0.RXFIFOCON'', push_bit 31 1 OR push_bit 6 1 OR push_bit 1 1 OR 1),
           (''ASCLIN0.BITCON'', 9 OR push_bit 16 15 OR push_bit 24 9 OR push_bit 31 1),
           (''ASCLIN0.FRAMECON'', push_bit 9 1 OR push_bit 16 0 OR push_bit 30 0),
           (''ASCLIN0.DATCON'', 7),
           (''ASCLIN0.BRG'', denominator OR push_bit 16 numerator),
           (''ASCLIN0.FRAMECON.MODE'', 1), (''ASCLIN0.CSR'', 1),
           (''ASCLIN0.FLAGSSET'', reg_bits E ''FLAGSSET_TFLS'')] w)"

definition Asclin1_InitUart :: "rear_hw \<Rightarrow> rtrace \<Rightarrow> rtrace" where
  "Asclin1_InitUart E w =
     (let numerator = 48; denominator = 3125;
          w = write_regs [(''P15.IOCR0.PC0'', 0x12), (''P15.OUT.P0'', 1)] w;
          w = unlocked_write ''ASCLIN1.CLC'' 0 w;
          (_, w) = reg_read E ''ASCLIN1.CLC'' w
      in write_regs
          [(''ASCLIN1.IOCR.ALTI'', 0), (''ASCLIN1.CSR'', 0),
           (''ASCLIN1.TXFIFOCON'', push_bit 6 1 OR push_bit 1 1 OR 1),
           (''ASCLIN1.RXFIFOCON'', push_bit 31 1 OR push_bit 6 1 OR push_bit 1 1 OR 1),
           (''ASCLIN1.BITCON'', 9 OR push_bit 16 15 OR push_bit 24 9 OR push_bit 31 1),
           (''ASCLIN1.FRAMECON'', push_bit 9 1 OR push_bit 16 0 OR push_bit 30 0),
           (''ASCLIN1.DATCON'', 7),
           (''ASCLIN1.BRG'', denominator OR push_bit 16 numerator),
           (''ASCLIN1.FRAMECON.MODE'', 1), (''ASCLIN1.CSR'', 1),
           (''ASCLIN1.FLAGSSET'', reg_bits E ''FLAGSSET_TFLS'')] w)"

definition wait_reg_round :: "rear_hw \<Rightarrow> string \<Rightarrow> rtrace \<Rightarrow> (unit option \<times> rtrace) option" where
  "wait_reg_round E r w = (let (v, w) = reg_read E r w in Some (if v \<noteq> 0 then Some () else None, w))"

definition Asclin0_OutUart :: "rear_hw \<Rightarrow> u8 \<Rightarrow> rtrace \<Rightarrow> (unit \<times> rtrace) option" where
  "Asclin0_OutUart E chr w = do {
     (_, w) \<leftarrow> poll_loop (wait_reg_round E ''ASCLIN0.FLAGS.TFL'') w;
     Some ((), write_regs [(''ASCLIN0.FLAGSCLEAR'', reg_bits E ''FLAGSCLEAR_TFLC''), (''ASCLIN0.TXDATA'', ucast chr)] w) }"

definition Asclin1_OutUart :: "rear_hw \<Rightarrow> u8 \<Rightarrow> rtrace \<Rightarrow> (unit \<times> rtrace) option" where
  "Asclin1_OutUart E chr w = do {
     (_, w) \<leftarrow> poll_loop (wait_reg_round E ''ASCLIN1.FLAGS.TFL'') w;
     Some ((), write_regs [(''ASCLIN1.FLAGSCLEAR'', reg_bits E ''FLAGSCLEAR_TFLC''), (''ASCLIN1.TXDATA'', ucast chr)] w) }"

text \<open>A received character, if there is one and no error flag is up.\<close>

definition Asclin0_PollUart :: "rear_hw \<Rightarrow> rtrace \<Rightarrow> u8 option \<times> rtrace" where
  "Asclin0_PollUart E w =
     (let (rfl, w) = reg_read E ''ASCLIN0.FLAGS.RFL'' w in
      if rfl \<noteq> 0 then
        (let (d, w) = reg_read E ''ASCLIN0.RXDATA'' w; ret = ucast d;
             w = WriteReg ''ASCLIN0.FLAGSCLEAR'' (reg_bits E ''FLAGSCLEAR_RFLC'') # w;
             (flags, w) = reg_read E ''ASCLIN0.FLAGS'' w
         in if flags AND (reg_bits E ''FLAGS_PE'' OR reg_bits E ''FLAGS_FE'' OR reg_bits E ''FLAGS_RFO'') \<noteq> 0
            then (None, WriteReg ''ASCLIN0.FLAGSCLEAR''
              (reg_bits E ''FLAGSCLEAR_PEC'' OR reg_bits E ''FLAGSCLEAR_FEC'' OR reg_bits E ''FLAGSCLEAR_RFOC'') # w)
            else (Some ret, w))
      else (None, w))"

definition Asclin1_PollUart :: "rear_hw \<Rightarrow> rtrace \<Rightarrow> u8 option \<times> rtrace" where
  "Asclin1_PollUart E w =
     (let (rfl, w) = reg_read E ''ASCLIN1.FLAGS.RFL'' w in
      if rfl \<noteq> 0 then
        (let (d, w) = reg_read E ''ASCLIN1.RXDATA'' w; ret = ucast d;
             w = WriteReg ''ASCLIN1.FLAGSCLEAR'' (reg_bits E ''FLAGSCLEAR_RFLC'') # w;
             (flags, w) = reg_read E ''ASCLIN1.FLAGS'' w
         in if flags AND (reg_bits E ''FLAGS_PE'' OR reg_bits E ''FLAGS_FE'' OR reg_bits E ''FLAGS_RFO'') \<noteq> 0
            then (None, WriteReg ''ASCLIN1.FLAGSCLEAR''
              (reg_bits E ''FLAGSCLEAR_PEC'' OR reg_bits E ''FLAGSCLEAR_FEC'' OR reg_bits E ''FLAGSCLEAR_RFOC'') # w)
            else (Some ret, w))
      else (None, w))"

definition Asclin0_InUart :: "rear_hw \<Rightarrow> rtrace \<Rightarrow> (u8 \<times> rtrace) option" where
  "Asclin0_InUart E w = poll_loop (\<lambda>w. Some (Asclin0_PollUart E w)) w"

definition Asclin1_InUart :: "rear_hw \<Rightarrow> rtrace \<Rightarrow> (u8 \<times> rtrace) option" where
  "Asclin1_InUart E w = poll_loop (\<lambda>w. Some (Asclin1_PollUart E w)) w"

text \<open>-1 stands for no character; as a \<open>char\<close> it is the byte 255.\<close>

definition Asclin0_InUartNonBlock :: "rear_hw \<Rightarrow> rtrace \<Rightarrow> u8 \<times> rtrace" where
  "Asclin0_InUartNonBlock E w =
     (let (res, w) = Asclin0_PollUart E w in ((case res of Some ch \<Rightarrow> ch | None \<Rightarrow> -1), w))"

definition Asclin0RxIsrHandler :: "rear_hw \<Rightarrow> rtrace \<Rightarrow> (unit \<times> rtrace) option" where
  "Asclin0RxIsrHandler E w = do { (c, w) \<leftarrow> Asclin0_InUart E w; Asclin0_OutUart E c w }"

section \<open>Waiting (etc.c)\<close>

definition delay_ms :: "rear_hw \<Rightarrow> u32 \<Rightarrow> rtrace \<Rightarrow> rtrace" where
  "delay_ms E ms w =
     (let (t, w) = call_drv E ''IfxStm_getTicksFromMilliseconds'' [ms] w in Call ''waitTime'' [t] # w)"

section \<open>Text on the console (my_stdio.c)\<close>

definition BUFSIZE :: nat where "BUFSIZE = 128"
definition KB_BS :: u8 where "KB_BS = 0x7F"
definition KB_CR :: u8 where "KB_CR = 13"

text \<open>Sending the bytes of a string, in order.\<close>

fun out_all :: "(u8 \<Rightarrow> rtrace \<Rightarrow> (unit \<times> rtrace) option) \<Rightarrow> u8 list \<Rightarrow> rtrace \<Rightarrow> (unit \<times> rtrace) option" where
  "out_all out [] w = Some ((), w)"
| "out_all out (b # bs) w = do { (_, w) \<leftarrow> out b w; out_all out bs w }"

text \<open>What \<open>sprintf\<close> leaves in a buffer of n bytes; a zero byte ends the text.\<close>

definition sprintf_into :: "nat \<Rightarrow> u8 list \<Rightarrow> u8 list option" where
  "sprintf_into n text = (if length text < n then Some (takeWhile (\<lambda>b. b \<noteq> 0) text) else None)"

definition my_puts :: "rear_hw \<Rightarrow> u8 list \<Rightarrow> rtrace \<Rightarrow> (unit \<times> rtrace) option" where
  "my_puts E str w = do {
     buffer \<leftarrow> sprintf_into BUFSIZE (str @ [13, 10]);
     out_all (Asclin0_OutUart E) buffer w }"

text \<open>A carriage return goes before every newline; the second buffer has 128 bytes as well.\<close>

fun add_cr :: "u8 list \<Rightarrow> u8 list" where
  "add_cr [] = []"
| "add_cr (b # bs) = (if b = 10 then 13 # b # add_cr bs else b # add_cr bs)"

text \<open>\<open>text\<close> is what \<open>vsprintf\<close> makes of the format and its arguments.\<close>

definition my_printf :: "rear_hw \<Rightarrow> u8 list \<Rightarrow> rtrace \<Rightarrow> (unit \<times> rtrace) option" where
  "my_printf E text w = do {
     buffer \<leftarrow> sprintf_into 128 text;
     let buffer2 = add_cr buffer;
     if length buffer2 < 128 then out_all (Asclin0_OutUart E) buffer2 w else None }"

text \<open>The line editor of \<open>my_scanf\<close>: one character at a time, with echo and backspace.\<close>

definition scan_round ::
    "rear_hw \<Rightarrow> u8 list \<times> nat \<times> rtrace \<Rightarrow> (u8 list option \<times> u8 list \<times> nat \<times> rtrace) option" where
  "scan_round E = (\<lambda>(buf, idx, w). do {
     (c, w) \<leftarrow> Asclin0_InUart E w;
     if c = KB_BS \<or> c = 8 then
       (if 0 < idx then do {
          let buf = buf[idx - 1 := 0];
          (_, w) \<leftarrow> my_printf E [8, 32, 8] w;
          Some (None, buf, idx - 1, w) }
        else Some (None, buf, idx, w))
     else if c = KB_CR then
       (if idx + 1 < 128 then do {
          let buf = buf[idx + 1 := 0];
          (_, w) \<leftarrow> my_printf E [c] w;
          Some (Some buf, buf, idx + 1, w) }
        else None)
     else if idx < 128 then do {
          let buf = buf[idx := c];
          (_, w) \<leftarrow> my_printf E [c] w;
          Some (None, buf, idx + 1, w) }
     else None })"

definition my_scanf_line :: "rear_hw \<Rightarrow> rtrace \<Rightarrow> (u8 list \<times> rtrace) option" where
  "my_scanf_line E w = do {
     (buf, _, _, w) \<leftarrow> poll_loop (scan_round E) (replicate 128 0, 0, w);
     (_, w) \<leftarrow> my_printf E [10] w;
     Some (buf, w) }"

text \<open>Leading zero bytes are dropped and the buffer is filled up with zeros; a buffer of zeros
  only is read past its end.\<close>

definition remove_null :: "u8 list \<Rightarrow> u8 list option" where
  "remove_null s =
     (let rest = dropWhile (\<lambda>b. b = 0) s in
      if rest = [] then None
      else (let text = takeWhile (\<lambda>b. b \<noteq> 0) rest in Some (text @ replicate (128 - length text) 0)))"

section \<open>The Bluetooth module (Bluetooth.c)\<close>

definition Bluetooth_Init :: "rear_hw \<Rightarrow> rtrace \<Rightarrow> rtrace" where
  "Bluetooth_Init E w = Asclin1_InitUart E w"

text \<open>Sending a buffer up to and including its first zero byte.\<close>

fun bt_out :: "rear_hw \<Rightarrow> u8 list \<Rightarrow> rtrace \<Rightarrow> (unit \<times> rtrace) option" where
  "bt_out E [] w = None"
| "bt_out E (b # bs) w = (if b = 0 then Asclin1_OutUart E b w
     else do { (_, w) \<leftarrow> Asclin1_OutUart E b w; bt_out E bs w })"

definition chars :: "string \<Rightarrow> u8 list" where
  "chars s = map (\<lambda>c. of_nat (of_char c)) s"

text \<open>An AT command: written into a buffer of 30 bytes, sent with its terminator, then a pause.\<close>

definition bt_command :: "rear_hw \<Rightarrow> u8 list \<Rightarrow> rtrace \<Rightarrow> (unit \<times> rtrace) option" where
  "bt_command E text w = do {
     buf \<leftarrow> sprintf_into 30 text;
     (_, w) \<leftarrow> bt_out E (buf @ [0]) w;
     Some ((), delay_ms E 300 w) }"

definition Bluetooth_SetName :: "rear_hw \<Rightarrow> u8 list \<Rightarrow> rtrace \<Rightarrow> (unit \<times> rtrace) option" where
  "Bluetooth_SetName E name w = bt_command E (chars ''AT+NAME'' @ name) w"

definition Bluetooth_SetPwd :: "rear_hw \<Rightarrow> u8 list \<Rightarrow> rtrace \<Rightarrow> (unit \<times> rtrace) option" where
  "Bluetooth_SetPwd E pwd w = bt_command E (chars ''AT+PIN'' @ pwd) w"

definition Bluetooth_ATCommand :: "rear_hw \<Rightarrow> u8 list \<Rightarrow> rtrace \<Rightarrow> (unit \<times> rtrace) option" where
  "Bluetooth_ATCommand E cmd w = bt_command E cmd w"

text \<open>The buffer has no initial value: for another rate it holds what was on the stack.\<close>

definition Bluetooth_SetBaud :: "rear_hw \<Rightarrow> u8 list \<Rightarrow> int \<Rightarrow> rtrace \<Rightarrow> (unit \<times> rtrace) option" where
  "Bluetooth_SetBaud E stack baudrate w =
     (let buf = (if baudrate = 9600 then put_at 0 (chars ''AT+BAUD4'' @ [0]) stack
                 else if baudrate = 115200 then put_at 0 (chars ''AT+BAUD8'' @ [0]) stack
                 else stack)
      in do { (_, w) \<leftarrow> bt_out E (take 30 buf) w; Some ((), delay_ms E 300 w) })"

definition Bluetooth_RecvByteBlocked :: "rear_hw \<Rightarrow> rtrace \<Rightarrow> (u8 \<times> rtrace) option" where
  "Bluetooth_RecvByteBlocked E w = Asclin1_InUart E w"

definition Bluetooth_RecvByteNonBlocked :: "rear_hw \<Rightarrow> rtrace \<Rightarrow> u8 \<times> rtrace" where
  "Bluetooth_RecvByteNonBlocked E w =
     (let (res, w) = Asclin1_PollUart E w in ((case res of Some ch \<Rightarrow> ch | None \<Rightarrow> -1), w))"

definition Bluetooth_SendByteBlocked :: "rear_hw \<Rightarrow> u8 \<Rightarrow> rtrace \<Rightarrow> (unit \<times> rtrace) option" where
  "Bluetooth_SendByteBlocked E ch w = Asclin1_OutUart E ch w"

definition Bluetooth_printf :: "rear_hw \<Rightarrow> u8 list \<Rightarrow> rtrace \<Rightarrow> (unit \<times> rtrace) option" where
  "Bluetooth_printf E text w = do {
     buffer \<leftarrow> sprintf_into 128 text;
     let buffer2 = add_cr buffer;
     if length buffer2 < 128 then out_all (Bluetooth_SendByteBlocked E) buffer2 w else None }"

end
