(* ===== verification/RearIo.thy ===== *)
theory RearIo
  imports RearSerial
begin

text \<open>
  The small peripherals of the REAR board: BSW/IO (GPIO.c, Buzzer.c, Ultrasonic.c) and
  BSW/Driver (stm.c, gpt12.c, eru.c, evadc.c). A busy-wait loop of n rounds is \<open>Spin n\<close>; a loop
  that waits for a register has no bound unless the code gives it one.
\<close>

section \<open>Time stamps (stm.c)\<close>

definition stm64 :: "rear_hw \<Rightarrow> rtrace \<Rightarrow> u64 \<times> rtrace" where
  "stm64 E w =
     (let (lo, w) = reg_read E ''STM0.TIM0'' w; (hi, w) = reg_read E ''STM0.CAP'' w
      in (ucast lo OR push_bit 32 (ucast hi), w))"

definition u64_to_f32 :: "u64 \<Rightarrow> f32" where
  "u64_to_f32 t = int_to_f32 (int (unat t))"

definition f32_to_u64 :: "f32 \<Rightarrow> u64" where
  "f32_to_u64 a = word_of_int (trunc (fval a))"

text \<open>The division is done in single precision.\<close>

definition getTimeUs :: "rear_hw \<Rightarrow> rtrace \<Rightarrow> u64 \<times> rtrace" where
  "getTimeUs E w =
     (let frequency = flit 100000000; (result, w) = stm64 E w
      in (f32_to_u64 (fdiv (u64_to_f32 result) (fdiv frequency (flit 1000000))), w))"

definition getTimeMs :: "rear_hw \<Rightarrow> rtrace \<Rightarrow> u64 \<times> rtrace" where
  "getTimeMs E w =
     (let frequency = flit 100000000; (result, w) = stm64 E w
      in (f32_to_u64 (fdiv (u64_to_f32 result) (fdiv frequency (flit 1000))), w))"

definition getTime10ns :: "rear_hw \<Rightarrow> rtrace \<Rightarrow> u64 \<times> rtrace" where
  "getTime10ns E w = stm64 E w"

section \<open>LEDs and switches (GPIO.c)\<close>

definition GPIO_SetLed :: "u8 \<Rightarrow> u8 \<Rightarrow> rtrace \<Rightarrow> rtrace" where
  "GPIO_SetLed num_LED onOff w =
     (if num_LED = 1 then WriteReg ''P10.OUT.P2'' (ucast onOff AND 1) # w
      else if num_LED = 2 then WriteReg ''P10.OUT.P1'' (ucast onOff AND 1) # w
      else w)"

definition GPIO_ToggleLed :: "u8 \<Rightarrow> rtrace \<Rightarrow> rtrace" where
  "GPIO_ToggleLed num_LED w =
     (if num_LED = 1 then reg_toggle ''P10.OUT.P2'' w
      else if num_LED = 2 then reg_toggle ''P10.OUT.P1'' w
      else w)"

definition GPIO_Init :: "rtrace \<Rightarrow> rtrace" where
  "GPIO_Init w =
     (let w = write_regs [(''P10.IOCR0.PC1'', 0x10), (''P10.IOCR0.PC2'', 0x10)] w;
          w = GPIO_SetLed 1 0 w;
          w = GPIO_SetLed 2 0 w
      in write_regs [(''P02.IOCR0.PC0'', 0x02), (''P00.IOCR4.PC7'', 0x02)] w)"

text \<open>The inputs are one bit wide and pulled up: a pressed switch reads 0.\<close>

definition read_switch :: "rear_hw \<Rightarrow> string \<Rightarrow> rtrace \<Rightarrow> u32 \<times> rtrace" where
  "read_switch E r w = (let (v, w) = reg_read E r w in ((v AND 1) XOR 1, w))"

definition GPIO_getSW1 :: "rear_hw \<Rightarrow> rtrace \<Rightarrow> u32 \<times> rtrace" where
  "GPIO_getSW1 E w = read_switch E ''P02.IN.P0'' w"

definition GPIO_getSW2 :: "rear_hw \<Rightarrow> rtrace \<Rightarrow> u32 \<times> rtrace" where
  "GPIO_getSW2 E w = read_switch E ''P02.IN.P1'' w"

definition GPIO_getSW3 :: "rear_hw \<Rightarrow> rtrace \<Rightarrow> u32 \<times> rtrace" where
  "GPIO_getSW3 E w = read_switch E ''P00.IN.P7'' w"

text \<open>Ten samples make a round; the switch counts as settled after 10000 rounds without a
  difference within a round. Rounds are not compared with each other.\<close>

fun sample_switch :: "rear_hw \<Rightarrow> int \<Rightarrow> u32 list \<Rightarrow> rtrace \<Rightarrow> u32 list \<times> rtrace" where
  "sample_switch E sw_num [] w = ([], w)"
| "sample_switch E sw_num (b # bs) w =
     (let (v, w) = (if sw_num = 1 then GPIO_getSW1 E w else if sw_num = 2 then GPIO_getSW2 E w
                    else if sw_num = 3 then GPIO_getSW3 E w else (b, w));
          (vs, w) = sample_switch E sw_num bs w
      in (v # vs, w))"

definition debounce_round ::
    "rear_hw \<Rightarrow> int \<Rightarrow> u32 list \<times> nat \<times> rtrace \<Rightarrow> (u32 option \<times> u32 list \<times> nat \<times> rtrace) option" where
  "debounce_round E sw_num = (\<lambda>(buf, cnt, w).
     if cnt < 10000 then
       (let (buf, w) = sample_switch E sw_num buf w;
            cnt = (if list_all (\<lambda>b. b = buf ! 0) buf then cnt else 0)
        in Some (None, buf, cnt + 1, w))
     else Some (Some (buf ! 0), buf, cnt, w))"

definition GPIO_getSWxDebounce :: "rear_hw \<Rightarrow> int \<Rightarrow> rtrace \<Rightarrow> (u32 \<times> rtrace) option" where
  "GPIO_getSWxDebounce E sw_num w = do {
     (sw_state, _, _, w) \<leftarrow> poll_loop (debounce_round E sw_num) (replicate 10 0, 0, w);
     Some (sw_state, w) }"

section \<open>The buzzer (Buzzer.c)\<close>

definition BUZZER :: string where "BUZZER = ''P02.OUT.P3''"

text \<open>The state of the interrupt handler is \<open>(beepCnt, beepOnOff)\<close>.\<close>

definition setBeepCycle :: "int \<Rightarrow> int \<times> int \<Rightarrow> int \<times> int" where
  "setBeepCycle cycle = (\<lambda>(beepCnt, beepOnOff). (beepCnt, cycle))"

definition IsrGpt1T3Handler_Beep :: "(int \<times> int) \<times> rtrace \<Rightarrow> (int \<times> int) \<times> rtrace" where
  "IsrGpt1T3Handler_Beep = (\<lambda>((beepCnt, beepOnOff), w).
     if beepCnt < beepOnOff \<or> beepOnOff = 1 then ((beepCnt + 1, beepOnOff), reg_toggle BUZZER w)
     else if beepCnt < beepOnOff * 2 then ((beepCnt + 1, beepOnOff), WriteReg BUZZER 0 # w)
     else ((0 + 1, beepOnOff), w))"

definition Buzzer_Init :: "rtrace \<Rightarrow> rtrace" where
  "Buzzer_Init w = WriteReg ''P02.IOCR0.PC3'' 0x10 # w"

text \<open>One period of the tone; a frequency of 0 divides by zero.\<close>

definition Buzzer_Buzz :: "u32 \<Rightarrow> rtrace \<Rightarrow> (unit \<times> rtrace) option" where
  "Buzzer_Buzz Hz w =
     (if Hz = 0 then None
      else (let loop = unat (1000000000 div Hz div 2 div 5 div 2);
                w = WriteReg BUZZER 1 # w; w = Spin loop # w;
                w = WriteReg BUZZER 0 # w; w = Spin loop # w
            in Some ((), w)))"

fun buzz_times :: "nat \<Rightarrow> u32 \<Rightarrow> rtrace \<Rightarrow> (unit \<times> rtrace) option" where
  "buzz_times 0 Hz w = Some ((), w)"
| "buzz_times (Suc j) Hz w = do { (_, w) \<leftarrow> Buzzer_Buzz Hz w; buzz_times j Hz w }"

definition Buzzer_Beep :: "u32 \<Rightarrow> int \<Rightarrow> rtrace \<Rightarrow> (unit \<times> rtrace) option" where
  "Buzzer_Beep Hz duration_ms w = do {
     let second = fdiv (int_to_f32 duration_ms) (flit 1000);
     j \<leftarrow> f32_to_u32 (fmul (u32_to_f32 Hz) second);
     buzz_times (unat j) Hz w }"

section \<open>Ultrasonic sensors with direct register access (Ultrasonic.c)\<close>

definition FILT_SIZE :: nat where "FILT_SIZE = 5"

definition Ultrasonics_Init :: "rtrace \<Rightarrow> rtrace" where
  "Ultrasonics_Init w = write_regs
     [(''P13.IOCR0.PC2'', 0x10), (''P13.IOCR0.PC1'', 0x02),
      (''P15.IOCR0.PC3'', 0x10), (''P15.IOCR0.PC2'', 0x02),
      (''P10.IOCR4.PC7'', 0x10), (''P02.IOCR8.PC8'', 0x10)] w"

text \<open>A round of waiting for the echo pin to leave a level: the answer is whether it did in time.\<close>

definition echo_round :: "rear_hw \<Rightarrow> string \<Rightarrow> u32 \<Rightarrow> u64 \<Rightarrow> rtrace \<Rightarrow> (bool option \<times> rtrace) option" where
  "echo_round E echo level timeout w =
     (let (v, w) = reg_read E echo w in
      if v AND 1 = level then
        (let (now, w) = getTimeUs E w in Some (if 50000 < now - timeout then Some False else None, w))
      else Some (Some True, w))"

definition read_sensor :: "rear_hw \<Rightarrow> string \<Rightarrow> string \<Rightarrow> rtrace \<Rightarrow> (f32 \<times> rtrace) option" where
  "read_sensor E trig echo w = do {
     let w = WriteReg trig 1 # w;
     let w = Spin 2000 # w;
     let w = WriteReg trig 0 # w;
     let (timeout, w) = getTimeUs E w;
     (rose, w) \<leftarrow> poll_loop (echo_round E echo 0 timeout) w;
     if \<not> rose then Some (flit 0, w) else do {
     let (timer_start, w) = getTimeUs E w;
     (fell, w) \<leftarrow> poll_loop (echo_round E echo 1 timer_start) w;
     if \<not> fell then Some (flit 0, w) else do {
     let (timer_end, w) = getTimeUs E w;
     let duration = timer_end - timer_start;
     if 5850 < duration then Some (flit 100, w)
     else Some (fdiv (fmul (flit (343 / 10000)) (u64_to_f32 duration)) (flit 2), w) }}}"

definition Ultrasonic_ReadRightSensor_noFilt :: "rear_hw \<Rightarrow> rtrace \<Rightarrow> (f32 \<times> rtrace) option" where
  "Ultrasonic_ReadRightSensor_noFilt E w = read_sensor E ''P15.OUT.P3'' ''P15.IN.P2'' w"

definition Ultrasonic_ReadLeftSensor_noFilt :: "rear_hw \<Rightarrow> rtrace \<Rightarrow> (f32 \<times> rtrace) option" where
  "Ultrasonic_ReadLeftSensor_noFilt E w = read_sensor E ''P10.OUT.P7'' ''P02.IN.P8'' w"

definition Ultrasonic_ReadSensor_noFilt :: "rear_hw \<Rightarrow> rtrace \<Rightarrow> (f32 \<times> rtrace) option" where
  "Ultrasonic_ReadSensor_noFilt E w = read_sensor E ''P13.OUT.P2'' ''P13.IN.P1'' w"

text \<open>The moving average over the last five readings, from the sixth reading on.\<close>

record filt =
  avg_filt_buf :: "f32 list"
  old_index :: nat
  sensorRxCnt :: nat

definition filt_0 :: filt where
  "filt_0 = \<lparr>avg_filt_buf = replicate FILT_SIZE (flit 0), old_index = 0, sensorRxCnt = 0\<rparr>"

definition filt_step :: "f32 \<Rightarrow> filt \<Rightarrow> f32 \<times> filt" where
  "filt_step distance_nofilt f =
     (let f = f\<lparr>old_index := (old_index f + 1) mod FILT_SIZE\<rparr>;
          f = f\<lparr>avg_filt_buf := (avg_filt_buf f)[old_index f := distance_nofilt]\<rparr>;
          f = f\<lparr>sensorRxCnt := sensorRxCnt f + 1\<rparr>
      in if FILT_SIZE < sensorRxCnt f
         then (fdiv (foldl fadd (flit 0) (avg_filt_buf f)) (flit (real FILT_SIZE)), f)
         else (distance_nofilt, f))"

definition Ultrasonic_ReadRightSensor_Filt :: "rear_hw \<Rightarrow> filt \<Rightarrow> rtrace \<Rightarrow> ((f32 \<times> filt) \<times> rtrace) option" where
  "Ultrasonic_ReadRightSensor_Filt E f w =
     do { (d, w) \<leftarrow> Ultrasonic_ReadRightSensor_noFilt E w; Some (filt_step d f, w) }"

definition Ultrasonic_ReadLeftSensor_Filt :: "rear_hw \<Rightarrow> filt \<Rightarrow> rtrace \<Rightarrow> ((f32 \<times> filt) \<times> rtrace) option" where
  "Ultrasonic_ReadLeftSensor_Filt E f w =
     do { (d, w) \<leftarrow> Ultrasonic_ReadLeftSensor_noFilt E w; Some (filt_step d f, w) }"

definition Ultrasonic_ReadSensor_Filt :: "rear_hw \<Rightarrow> filt \<Rightarrow> rtrace \<Rightarrow> ((f32 \<times> filt) \<times> rtrace) option" where
  "Ultrasonic_ReadSensor_Filt E f w =
     do { (d, w) \<leftarrow> Ultrasonic_ReadSensor_noFilt E w; Some (filt_step d f, w) }"

section \<open>Timers (gpt12.c)\<close>

definition ISR_PRIORITY_GPT1T3_TIMER :: u32 where "ISR_PRIORITY_GPT1T3_TIMER = 5"
definition ISR_PRIORITY_GPT2T6_TIMER :: u32 where "ISR_PRIORITY_GPT2T6_TIMER = 6"
definition ISR_PRIORITY_ERU_INT0 :: u32 where "ISR_PRIORITY_ERU_INT0 = 17"

definition IsrGpt2T6Handler :: "u32 \<Rightarrow> u32" where
  "IsrGpt2T6Handler cntDelay = cntDelay + 1"

definition getcntDelay :: "u32 \<Rightarrow> u32" where
  "getcntDelay cntDelay = cntDelay"

definition setcntDelay :: "u32 \<Rightarrow> u32 \<Rightarrow> u32" where
  "setcntDelay n cntDelay = n"

definition runGpt12_T3 :: "rtrace \<Rightarrow> rtrace" where
  "runGpt12_T3 w = Call ''IfxGpt12_T3_run'' [1] # w"

definition stopGpt12_T3 :: "rtrace \<Rightarrow> rtrace" where
  "stopGpt12_T3 w = Call ''IfxGpt12_T3_run'' [0] # w"

definition runGpt12_T6 :: "rtrace \<Rightarrow> rtrace" where
  "runGpt12_T6 w = Call ''IfxGpt12_T6_run'' [1] # w"

definition stopGpt12_T6 :: "rtrace \<Rightarrow> rtrace" where
  "stopGpt12_T6 w = Call ''IfxGpt12_T6_run'' [0] # w"

definition gpt1_init :: "rtrace \<Rightarrow> rtrace" where
  "gpt1_init w = runGpt12_T3 (write_regs
     [(''GPT120.T3CON.BPS1'', 0x2), (''GPT120.T3CON.T3M'', 0x0), (''GPT120.T3CON.T3UD'', 0x1),
      (''GPT120.T3CON.T3I'', 0x5), (''GPT120.T3'', 93), (''GPT120.T2CON.T2M'', 0x4),
      (''GPT120.T2CON.T2I'', 0x7), (''GPT120.T2'', 93),
      (''SRC.GPT12.T3.SRPN'', ISR_PRIORITY_GPT1T3_TIMER), (''SRC.GPT12.T3.TOS'', 0),
      (''SRC.GPT12.T3.CLRR'', 1), (''SRC.GPT12.T3.SRE'', 1)] w)"

definition gpt2_init :: "rtrace \<Rightarrow> rtrace" where
  "gpt2_init w = runGpt12_T6 (write_regs
     [(''GPT120.T6CON.BPS2'', 0x0), (''GPT120.T6CON.T6M'', 0x0), (''GPT120.T6CON.T6UD'', 0x1),
      (''GPT120.T6CON.T6I'', 0x0), (''GPT120.T6CON.T6OE'', 0x1), (''GPT120.T6CON.T6SR'', 0x1),
      (''GPT120.T6'', 250), (''GPT120.CAPREL'', 250),
      (''SRC.GPT12.T6.SRPN'', ISR_PRIORITY_GPT2T6_TIMER), (''SRC.GPT12.T6.TOS'', 0),
      (''SRC.GPT12.T6.CLRR'', 1), (''SRC.GPT12.T6.SRE'', 1)] w)"

definition gpt12_Init :: "rtrace \<Rightarrow> rtrace" where
  "gpt12_Init w = gpt2_init (gpt1_init (unlocked_write ''GPT120.CLC'' 0 w))"

section \<open>External interrupt (eru.c)\<close>

definition scueru_Init :: "rtrace \<Rightarrow> rtrace" where
  "scueru_Init w =
     (let w = Call ''IfxScuWdt_clearSafetyEndinitInline'' [] # w;
          w = write_regs
            [(''P02.IOCR0.PC1'', 0x02), (''SCU.EICR1.EXIS0'', 1), (''SCU.EICR1.REN0'', 0),
             (''SCU.EICR1.FEN0'', 1), (''SCU.EICR1.EIEN0'', 1), (''SCU.EICR1.INP1'', 0),
             (''SCU.IGCR0.IGP0'', 1), (''SRC.SCU.SCUERU.SRPN'', ISR_PRIORITY_ERU_INT0),
             (''SRC.SCU.SCUERU.TOS'', 0), (''SRC.SCU.SCUERU.CLRR'', 1), (''SRC.SCU.SCUERU.SRE'', 1)] w
      in Call ''IfxScuWdt_setSafetyEndinitInline'' [] # w)"

definition SCUERU_Int0_Handler :: "rear_hw \<Rightarrow> rtrace \<Rightarrow> (unit \<times> rtrace) option" where
  "SCUERU_Int0_Handler E w = my_printf E (chars ''SCU_ERU_INT0!'' @ [10]) w"

section \<open>Analogue inputs (evadc.c)\<close>

definition GROUPID_3 :: u32 where "GROUPID_3 = 3"
definition AN24_CHID :: u32 where "AN24_CHID = 1"
definition AN25_CHID :: u32 where "AN25_CHID = 0"

definition Evadc_Init :: "rtrace \<Rightarrow> rtrace" where
  "Evadc_Init w = fold (\<lambda>(f, args) w. Call f args # w)
     [(''IfxEvadc_Adc_initModule'', []),
      (''IfxEvadc_Adc_initGroup(groupId, master, requestSlotQueue0Enabled, gatingMode_always)'', [GROUPID_3, GROUPID_3, 1]),
      (''IfxEvadc_Adc_initChannel(VR: channelId, resultRegister)'', [AN25_CHID, AN25_CHID]),
      (''IfxEvadc_Adc_initChannel(PR: channelId, resultRegister)'', [AN24_CHID, AN24_CHID]),
      (''IfxEvadc_Adc_addToQueue(VR, queue0, refill)'', []),
      (''IfxEvadc_Adc_addToQueue(PR, queue0, refill)'', []),
      (''IfxEvadc_Adc_startQueue(queue0)'', [])] w"

definition evadc_round :: "rear_hw \<Rightarrow> string \<Rightarrow> rtrace \<Rightarrow> (u32 option \<times> rtrace) option" where
  "evadc_round E f w =
     (let (v, w) = call_drv E f [] w; (VF, RESULT) = adc_fields E v
      in Some (if VF then Some RESULT else None, w))"

definition Evadc_readVR :: "rear_hw \<Rightarrow> rtrace \<Rightarrow> (u32 \<times> rtrace) option" where
  "Evadc_readVR E w = poll_loop (evadc_round E ''IfxEvadc_Adc_getResult(VR)'') w"

definition Evadc_readPR :: "rear_hw \<Rightarrow> rtrace \<Rightarrow> (u32 \<times> rtrace) option" where
  "Evadc_readPR E w = poll_loop (evadc_round E ''IfxEvadc_Adc_getResult(PR)'') w"

end
