(* ===== verification/RearIo_Props.thy ===== *)
theory RearIo_Props
  imports RearIo RearControl_Facts "HOL-Library.Multiset"
begin

text \<open>
  A property of the register-level ultrasonic driver: its ring buffer computes a moving average.
\<close>

text \<open>A sequence of readings through the filter: the last result and the state.\<close>

fun filt_run :: "f32 list \<Rightarrow> filt \<Rightarrow> f32 \<Rightarrow> f32 \<times> filt" where
  "filt_run [] f r = (r, f)"
| "filt_run (d # ds) f r = (let (r, f) = filt_step d f in filt_run ds f r)"

lemma filt_run_snoc: "filt_run (ds @ [d]) f r = filt_step d (snd (filt_run ds f r))"
  by (induction ds arbitrary: f r) (simp_all add: split_beta Let_def)

lemma mset_rotated: "mset (rotate n xs) = mset xs"
proof -
  have "mset (rotate1 ys) = mset ys" for ys :: "'a list" by (cases ys) simp_all
  then show ?thesis by (induction n) simp_all
qed

lemma rotate_update:
  assumes "i mod length xs = j" "xs \<noteq> []"
  shows "rotate i (xs[j := d]) = (rotate i xs)[0 := d]"
proof (rule nth_equalityI)
  fix k assume "k < length (rotate i (xs[j := d]))"
  then have k: "k < length xs" by simp
  have "(i mod length xs + k) mod length xs = i mod length xs \<longleftrightarrow> k = 0"
  proof (cases "i mod length xs + k < length xs")
    case False
    then have "(i mod length xs + k) mod length xs = (i mod length xs + k - length xs) mod length xs"
      by (intro le_mod_geq) simp
    also have "\<dots> = i mod length xs + k - length xs"
      using k mod_less_divisor [of "length xs" i] assms(2) by (intro mod_less) linarith
    finally show ?thesis using k False mod_less_divisor [of "length xs" i] assms(2) by auto
  qed simp
  then have "(i + k) mod length xs = j \<longleftrightarrow> k = 0" unfolding mod_add_left_eq using assms(1) by simp
  then show "rotate i (xs[j := d]) ! k = (rotate i xs)[0 := d] ! k"
    using k assms by (auto simp: nth_rotate nth_list_update)
qed simp

text \<open>The buffer, rotated so that the oldest reading comes first, holds the last five readings.\<close>

lemma filt_buffer:
  "let f = snd (filt_run ds filt_0 r) in
    sensorRxCnt f = length ds \<and> old_index f = length ds mod 5 \<and> length (avg_filt_buf f) = 5 \<and>
    rotate (length ds + 1) (avg_filt_buf f) = drop (length ds) (replicate 5 (flit 0) @ ds)"
proof (induction ds rule: rev_induct)
  case Nil
  have "replicate 5 (Fin 0) = [Fin 0, Fin 0, Fin 0, Fin 0, Fin 0]" by (simp add: numeral_eq_Suc)
  then show ?case by (simp add: filt_0_def FILT_SIZE_def)
next
  case (snoc d ds)
  define f where "f = snd (filt_run ds filt_0 r)"
  let ?k = "length ds" and ?old = "drop (length ds) (replicate 5 (flit 0) @ ds)"
  have f: "sensorRxCnt f = ?k" "old_index f = ?k mod 5" "length (avg_filt_buf f) = 5" "rotate (?k + 1) (avg_filt_buf f) = ?old"
    using snoc unfolding f_def Let_def by blast+
  have len: "length ?old = 5" by simp
  have ne: "avg_filt_buf f \<noteq> []" using f(3) by auto
  have i: "(?k + 1) mod length (avg_filt_buf f) = (?k mod 5 + 1) mod 5" by (simp add: f(3) mod_simps)
  have "rotate (?k + 2) ((avg_filt_buf f)[(?k mod 5 + 1) mod 5 := d]) = rotate1 (rotate (?k + 1) ((avg_filt_buf f)[(?k mod 5 + 1) mod 5 := d]))"
    by simp
  also have "\<dots> = rotate1 (?old[0 := d])" unfolding rotate_update [OF i ne] f(4) ..
  also have "\<dots> = tl ?old @ [d]" using len by (cases ?old) simp_all
  also have "tl ?old = drop (Suc ?k) (replicate 5 (flit 0) @ ds)" by (simp only: tl_drop drop_Suc)
  also have "\<dots> @ [d] = drop (length (ds @ [d])) (replicate 5 (flit 0) @ ds @ [d])"
    using drop_append [of "Suc ?k" "replicate 5 (flit 0) @ ds" "[d]"] by simp
  finally show ?case using f
    by (simp add: filt_run_snoc f_def [symmetric] filt_step_def FILT_SIZE_def Let_def mod_simps mod_Suc_eq)
qed

text \<open>
  The filter is a moving average. Up to the fifth reading it returns the reading itself; from
  the sixth on it returns a fifth of the float sum of exactly the last five readings (in the order
  in which the ring buffer holds them).
\<close>
theorem moving_average:
  assumes "ds \<noteq> []"
  shows "let r = fst (filt_run ds filt_0 (flit 0)) in
    if length ds \<le> 5 then r = last ds
    else \<exists>xs. mset xs = mset (drop (length ds - 5) ds) \<and> r = fdiv (foldl fadd (flit 0) xs) (flit 5)"
proof -
  obtain es d where ds: "ds = es @ [d]" using assms by (metis rev_exhaust)
  define f where "f = snd (filt_run es filt_0 (flit 0))"
  let ?b = "avg_filt_buf (snd (filt_step d f))"
  have n: "sensorRxCnt f = length es" using filt_buffer [of es] unfolding f_def Let_def by blast
  have r: "filt_run ds filt_0 (flit 0) = filt_step d f" by (simp add: ds filt_run_snoc f_def)
  show ?thesis
  proof (cases "length ds \<le> 5")
    case True
    then show ?thesis unfolding r by (simp add: filt_step_def n FILT_SIZE_def ds Let_def)
  next
    case False
    have "rotate (length ds + 1) ?b = drop (length ds) (replicate 5 (flit 0) @ ds)"
      using filt_buffer [of ds "flit 0"] unfolding Let_def r by blast
    also have "\<dots> = drop (length ds - 5) ds" using False by simp
    finally have "mset ?b = mset (drop (length ds - 5) ds)" by (metis mset_rotated)
    moreover have "fst (filt_step d f) = fdiv (foldl fadd (flit 0) ?b) (flit 5)"
      using False by (simp add: filt_step_def n FILT_SIZE_def ds Let_def)
    ultimately show ?thesis using False r by auto
  qed
qed

theorem moving_average_witness:
  "\<exists>xs. mset xs = mset [Fin 2, Fin 3, Fin 4, Fin 5, Fin 6] \<and>
     fst (filt_run [Fin 1, Fin 2, Fin 3, Fin 4, Fin 5, Fin 6] filt_0 (flit 0)) = fdiv (foldl fadd (flit 0) xs) (flit 5)"
  using moving_average [of "[Fin 1, Fin 2, Fin 3, Fin 4, Fin 5, Fin 6]"] by (simp add: Let_def)

end
