(* ===== verification/RearCan.thy ===== *)
theory RearCan
  imports RearHw
begin

text \<open>
  CAN on the REAR board: BSW/Driver/can.c and BSW/Driver/canfd.c, and the time-of-flight sensor
  that sends its distance over CAN (BSW/IO/ToF.c). The driver's transmission is an event; its
  result says whether the buffer was busy, and a busy buffer is tried again without limit.
\<close>

datatype CAN_BAUDRATES = BD_NOUSE | BD_500K | BD_1M
datatype CANFD_BAUDRATES = HS_BD_NOUSE | HS_BD_2M | HS_BD_4M
datatype CAN_NODE = CAN_NODE0 | CAN_NODE2

definition ISR_PRIORITY_CAN_TX :: nat where "ISR_PRIORITY_CAN_TX = 2"
definition ISR_PRIORITY_CAN_RX :: nat where "ISR_PRIORITY_CAN_RX = 1"
definition ISR_PRIORITY_CANFD_RX :: nat where "ISR_PRIORITY_CANFD_RX = 3"
definition ISR_PRIORITY_CANFD_TX :: nat where "ISR_PRIORITY_CANFD_TX = 4"
definition NUMBER_OF_CAN_FD_CASES :: nat where "NUMBER_OF_CAN_FD_CASES = 4"

section \<open>Classical CAN (can.c)\<close>

definition Can_TxIsrHandler :: "rtrace \<Rightarrow> rtrace" where
  "Can_TxIsrHandler w = Call ''g_mcmcan.canSrcNode: clear transmissionCompleted'' [] # w"

definition can_pins_of :: "CAN_NODE \<Rightarrow> string \<times> string" where
  "can_pins_of n = (case n of CAN_NODE0 \<Rightarrow> (''TXD00_P20_8_OUT'', ''RXD00B_P20_7_IN'')
     | CAN_NODE2 \<Rightarrow> (''TXD02_P15_0_OUT'', ''RXD02A_P15_1_IN''))"

definition can_node_id :: "CAN_NODE \<Rightarrow> nat" where
  "can_node_id n = (case n of CAN_NODE0 \<Rightarrow> 0 | CAN_NODE2 \<Rightarrow> 2)"

definition can_range_filter :: "nat \<Rightarrow> u32 \<Rightarrow> u32 \<Rightarrow> can_filter" where
  "can_range_filter n start fin = \<lparr>filter_number = n, filter_type = ''range'', filter_fifo0 = True, id1 = start, id2 = fin\<rparr>"

definition Can_SetFilterRange :: "u32 \<Rightarrow> u32 \<Rightarrow> rtrace \<Rightarrow> rtrace" where
  "Can_SetFilterRange start fin w = CanSetFilter ''g_mcmcan.canDstNode'' (can_range_filter 0 start fin) # w"

definition Can_SetFilterMask :: "u32 \<Rightarrow> u32 \<Rightarrow> rtrace \<Rightarrow> rtrace" where
  "Can_SetFilterMask ident idmask w = CanSetFilter ''g_mcmcan.canDstNode''
     \<lparr>filter_number = 0, filter_type = ''classic'', filter_fifo0 = True, id1 = ident, id2 = idmask\<rparr> # w"

text \<open>The transmitting node's configuration, and the receiving node's, which extends it.\<close>

definition can_tx_config :: "CAN_BAUDRATES \<Rightarrow> CAN_NODE \<Rightarrow> can_config \<Rightarrow> can_config" where
  "can_tx_config ls n c =
     (let c = (case ls of BD_NOUSE \<Rightarrow> c\<lparr>busLoopbackEnabled := True\<rparr>
                | BD_500K \<Rightarrow> c\<lparr>baudRate_baudrate := 500000\<rparr>
                | BD_1M \<Rightarrow> c\<lparr>baudRate_baudrate := 1000000\<rparr>);
          c = c\<lparr>busLoopbackEnabled := False\<rparr>;
          c = c\<lparr>can_nodeId := can_node_id n, can_pins := Some (can_pins_of n)\<rparr>
      in c\<lparr>frame_type := ''transmitAndReceive'', transmissionCompletedEnabled := True,
           traco := (ISR_PRIORITY_CAN_TX, 0)\<rparr>)"

definition can_rx_config :: "can_config \<Rightarrow> can_config" where
  "can_rx_config c = c\<lparr>rxMode := ''fifo0'', rxBufferDataFieldSize := 8, rxFifo0DataFieldSize := 8, rxFifo0Size := 15,
     messageIdLength := ''standard'', standardListSize := 1, standardFilterForNonMatchingFrames := ''reject'',
     rejectRemoteFramesWithStandardId := True, rxFifo0NewMessageEnabled := True, rxf0n := (ISR_PRIORITY_CAN_RX, 1)\<rparr>"

definition Can_Init :: "rear_hw \<Rightarrow> CAN_BAUDRATES \<Rightarrow> CAN_NODE \<Rightarrow> rtrace \<Rightarrow> rtrace" where
  "Can_Init E ls n w =
     (let w = Call ''IfxPort_setPinModeOutput(P20.6)'' [] # w;
          w = WriteReg ''P20.OUT.P6'' 0 # w;
          w = Call ''IfxCan_Can_initModule(CAN0)'' [] # w;
          c = can_tx_config ls n (can_default E);
          w = CanInitNode ''g_mcmcan.canSrcNode'' c # w;
          c = can_rx_config c;
          w = CanInitNode ''g_mcmcan.canDstNode'' c # w
      in Can_SetFilterRange 0x0 0x7FF w)"

text \<open>One attempt to hand a message to the driver.\<close>

definition can_send_round :: "rear_hw \<Rightarrow> string \<Rightarrow> can_message \<Rightarrow> u8 list \<Rightarrow> rtrace \<Rightarrow> (unit option \<times> rtrace) option" where
  "can_send_round E node m data w =
     (let busy = (drv E w ''IfxCan_Can_sendMessage'' = reg_bits E ''IfxCan_Status_notSentBusy'')
      in Some (if busy then None else Some (), CanSend node m data # w))"

text \<open>Eight bytes are read behind the pointer, whatever the length.\<close>

definition Can_SendMsg :: "rear_hw \<Rightarrow> u32 \<Rightarrow> u8 list \<Rightarrow> int \<Rightarrow> rtrace \<Rightarrow> (unit \<times> rtrace) option" where
  "Can_SendMsg E ident txData len w =
     (let m = \<lparr>messageId = ident, dataLengthCode = word_of_int len, fdLongAndFast = False\<rparr>
      in do { data \<leftarrow> rd_slice txData 0 8;
              poll_loop (can_send_round E ''g_mcmcan.canSrcNode'' m data) w })"

definition Can_RecvMsg :: "rear_hw \<Rightarrow> rtrace \<Rightarrow> (u32 \<times> u8 list \<times> u32) \<times> rtrace" where
  "Can_RecvMsg E w =
     (let w = Call ''g_mcmcan.canDstNode: clear rxFifo0NewMessage'' [] # w;
          (m, data) = can_rx E w; w = CanRead ''g_mcmcan.canDstNode'' # w
      in ((messageId m, take 8 data, dataLengthCode m), w))"

section \<open>CAN FD (canfd.c)\<close>

definition CanFd_TxIsrHandler :: "rtrace \<Rightarrow> rtrace" where
  "CanFd_TxIsrHandler w = Call ''g_mcmcanFD.canSrcNode: clear transmissionCompleted'' [] # w"

definition canfd_tx_config :: "CAN_BAUDRATES \<Rightarrow> CANFD_BAUDRATES \<Rightarrow> CAN_NODE \<Rightarrow> can_config \<Rightarrow> can_config" where
  "canfd_tx_config ls hs n c =
     (let c = (case ls of BD_NOUSE \<Rightarrow> c\<lparr>busLoopbackEnabled := True\<rparr>
                | BD_500K \<Rightarrow> c\<lparr>baudRate_baudrate := 500000\<rparr>
                | BD_1M \<Rightarrow> c\<lparr>baudRate_baudrate := 1000000\<rparr>);
          c = (case hs of HS_BD_NOUSE \<Rightarrow> c\<lparr>busLoopbackEnabled := True\<rparr>
                | HS_BD_2M \<Rightarrow> c\<lparr>fastBaudRate_baudrate := 2000000\<rparr>
                | HS_BD_4M \<Rightarrow> c\<lparr>fastBaudRate_baudrate := 4000000\<rparr>);
          c = c\<lparr>busLoopbackEnabled := False\<rparr>;
          c = c\<lparr>can_nodeId := can_node_id n, can_pins := Some (can_pins_of n)\<rparr>
      in c\<lparr>frame_type := ''transmitAndReceive'', frame_mode := ''fdLongAndFast'', txMode := ''dedicatedBuffers'',
           txBufferDataFieldSize := 64, transmissionCompletedEnabled := True, traco := (ISR_PRIORITY_CANFD_TX, 2)\<rparr>)"

definition canfd_rx_config :: "can_config \<Rightarrow> can_config" where
  "canfd_rx_config c = c\<lparr>rxMode := ''fifo0'', rxBufferDataFieldSize := 64, rxFifo0DataFieldSize := 64,
     rxFifo0Size := NUMBER_OF_CAN_FD_CASES,
     messageIdLength := ''standard'', standardListSize := 8, standardFilterForNonMatchingFrames := ''reject'',
     rejectRemoteFramesWithStandardId := True, rxFifo0NewMessageEnabled := True, rxf0n := (ISR_PRIORITY_CANFD_RX, 3)\<rparr>"

definition CanFd_Init :: "rear_hw \<Rightarrow> CAN_BAUDRATES \<Rightarrow> CANFD_BAUDRATES \<Rightarrow> CAN_NODE \<Rightarrow> rtrace \<Rightarrow> rtrace" where
  "CanFd_Init E ls hs n w =
     (let w = Call ''IfxPort_setPinModeOutput(P20.6)'' [] # w;
          w = WriteReg ''P20.OUT.P6'' 0 # w;
          w = Call ''IfxCan_Can_initModule(CAN0)'' [] # w;
          c = canfd_tx_config ls hs n (can_default E);
          w = CanInitNode ''g_mcmcanFD.canSrcNode'' c # w;
          c = canfd_rx_config c;
          w = CanInitNode ''g_mcmcanFD.canDstNode'' c # w
      in CanSetFilter ''g_mcmcanFD.canDstNode'' (can_range_filter 1 0x0 0x7ff) # w)"

text \<open>The length code of a message, and the length a received code stands for.\<close>

definition canfd_dlc :: "int \<Rightarrow> u32" where
  "canfd_dlc len =
     (if len > 48 then 15 else if len > 32 then 14 else if len > 24 then 13 else if len > 20 then 12
      else if len > 16 then 11 else if len > 12 then 10 else if len > 8 then 9 else word_of_int len)"

definition canfd_len :: "u32 \<Rightarrow> u32" where
  "canfd_len dlc =
     (if dlc = 15 then 64 else if dlc = 14 then 48 else if dlc = 13 then 32 else if dlc = 12 then 24
      else if dlc = 11 then 20 else if dlc = 10 then 16 else if dlc = 9 then 12 else dlc)"

text \<open>\<open>buf\<close> is the 64-byte transmit buffer, which keeps what an earlier message left there. Nothing
  bounds the length; a longer message would be written past its end.\<close>

definition CanFd_SendMsg ::
    "rear_hw \<Rightarrow> u32 \<Rightarrow> u8 list \<Rightarrow> int \<Rightarrow> u8 list \<Rightarrow> rtrace \<Rightarrow> (u8 list \<times> rtrace) option" where
  "CanFd_SendMsg E ident txData len buf w = do {
     data \<leftarrow> rd_slice txData 0 (nat len);
     if 64 < nat len then None else do {
       let buf = put_at 0 data buf;
       let m = \<lparr>messageId = ident, dataLengthCode = canfd_dlc len, fdLongAndFast = True\<rparr>;
       (_, w) \<leftarrow> poll_loop (can_send_round E ''g_mcmcanFD.canSrcNode'' m buf) w;
       Some (buf, w) } }"

definition CanFd_RecvMsg :: "rear_hw \<Rightarrow> rtrace \<Rightarrow> (u32 \<times> u8 list \<times> u32) \<times> rtrace" where
  "CanFd_RecvMsg E w =
     (let w = Call ''g_mcmcanFD.canDstNode: clear rxFifo0NewMessage'' [] # w;
          (m, data) = can_rx E w; w = CanRead ''g_mcmcanFD.canDstNode'' # w
      in ((messageId m, take 64 data, canfd_len (dataLengthCode m)), w))"

definition CanFd_RxIsrHandler :: "rear_hw \<Rightarrow> rtrace \<Rightarrow> rtrace" where
  "CanFd_RxIsrHandler E w = snd (CanFd_RecvMsg E w)"

section \<open>The sensor on the bus (ToF.c)\<close>

definition rear_TofIsrHandler :: "rear_hw \<Rightarrow> u32 \<Rightarrow> rtrace \<Rightarrow> u32 \<times> rtrace" where
  "rear_TofIsrHandler E g_TofValue w =
     (let ((rxID, rxData, rxLen), w) = Can_RecvMsg E w;
          signal_strength = push_bit 8 (ucast (rxData ! 5)) OR ucast (rxData ! 4) :: u16
      in (if signal_strength \<noteq> 0
          then push_bit 16 (ucast (rxData ! 2)) OR push_bit 8 (ucast (rxData ! 1)) OR ucast (rxData ! 0)
          else g_TofValue, w))"

definition rear_Tof_GetValue :: "u32 \<Rightarrow> u32" where
  "rear_Tof_GetValue g_TofValue = g_TofValue"

text \<open>A message of at most eight bytes keeps its length; a longer one is sent with the next length
  that CAN FD has.\<close>

lemma canfd_len_dlc:
  assumes "0 \<le> len" "len \<le> 64"
  shows "int (unat (canfd_len (canfd_dlc len))) =
    (if len \<le> 8 then len else if len \<le> 12 then 12 else if len \<le> 16 then 16 else if len \<le> 20 then 20
     else if len \<le> 24 then 24 else if len \<le> 32 then 32 else if len \<le> 48 then 48 else 64)"
proof (cases "len \<le> 8")
  case True
  then have "len \<in> {0, 1, 2, 3, 4, 5, 6, 7, 8}" using assms by auto
  then show ?thesis by (auto simp: canfd_dlc_def canfd_len_def)
next
  case False
  then show ?thesis by (auto simp: canfd_dlc_def canfd_len_def)
qed

end
