(* ===== verification/RearCan_Props.thy ===== *)
theory RearCan_Props
  imports RearCan RearSystem_Props
begin

text \<open>
  A property of the CAN FD driver: a message arrives with its contents, and with the smallest
  length of CAN FD that holds it.
\<close>

text \<open>A waiting loop that ends has ended with a round that answered.\<close>

lemma poll_ended: "poll_loop iter w = Some (x, w') \<Longrightarrow> \<exists>v. iter v = Some (Some x, w')"
proof -
  have "\<exists>v. it v = Some (Some (fst p), snd p)" if "poll_loop it w = Some p" for it and w :: 'b and p :: "'a \<times> 'b"
    using that
  proof (induction rule: poll_loop.raw_induct [rotated, consumes 1, case_names step])
    case (step self it w p)
    then show ?case by (auto split: option.splits) blast+
  qed
  from this [of iter w "(x, w')"] show "poll_loop iter w = Some (x, w') \<Longrightarrow> \<exists>v. iter v = Some (Some x, w')" by simp
qed

definition fd_lengths :: "int set" where
  "fd_lengths = {0..8} \<union> {12, 16, 20, 24, 32, 48, 64}"

text \<open>
  C35: CAN FD round trip. Whatever \<open>CanFd_SendMsg\<close> sends of up to 64 bytes, a node that receives
  that message gets from \<open>CanFd_RecvMsg\<close> the identifier, the bytes sent, and as length the
  smallest length CAN FD has that is at least the length sent (for a length between two of
  them the rest of the message is what the transmit buffer held before).
\<close>
theorem canfd_roundtrip:
  assumes "CanFd_SendMsg E ident tx len buf w = Some (buf', w')" "0 \<le> len" "length buf = 64"
  shows "\<exists>m data w0. w' = CanSend ''g_mcmcanFD.canSrcNode'' m data # w0 \<and> length data = 64 \<and>
    (\<forall>E' v. (\<forall>u. can_rx E' u = (m, data)) \<longrightarrow>
      (\<exists>n. fst (CanFd_RecvMsg E' v) = (ident, data, n) \<and> take (nat len) data = take (nat len) tx \<and>
        int (unat n) \<in> fd_lengths \<and> len \<le> int (unat n) \<and> (\<forall>k \<in> fd_lengths. len \<le> k \<longrightarrow> int (unat n) \<le> k)))"
proof -
  from assms(1) obtain data x where d: "rd_slice tx 0 (nat len) = Some data" "nat len \<le> 64" "buf' = put_at 0 data buf"
    "poll_loop (can_send_round E ''g_mcmcanFD.canSrcNode''
       \<lparr>messageId = ident, dataLengthCode = canfd_dlc len, fdLongAndFast = True\<rparr> buf') w = Some (x, w')"
    by (auto simp: CanFd_SendMsg_def bind_Some_iff Let_def split: if_splits)
  have data: "data = take (nat len) tx" "length data = nat len"
    using d(1) length_rd_slice [OF d(1)] by (auto simp: rd_slice_eq_Some_iff)
  have l: "length buf' = 64" using assms(3) d(2,3) data(2) by simp
  have t: "take (nat len) buf' = take (nat len) tx" using d(3) data by (simp add: put_at_def)
  from poll_ended [OF d(4)] obtain w0 where w: "w' = CanSend ''g_mcmcanFD.canSrcNode''
      \<lparr>messageId = ident, dataLengthCode = canfd_dlc len, fdLongAndFast = True\<rparr> buf' # w0"
    by (auto simp: can_send_round_def Let_def split: if_splits)
  let ?n = "canfd_len (canfd_dlc len)"
  have "len \<le> 64" using d(2) by simp
  note n = canfd_len_dlc [OF assms(2) this]
  have "int (unat ?n) \<in> fd_lengths" "len \<le> int (unat ?n)"
    using assms(2) \<open>len \<le> 64\<close> unfolding n fd_lengths_def by auto
  moreover have "int (unat ?n) \<le> k" if "k \<in> fd_lengths" "len \<le> k" for k
    using that unfolding n fd_lengths_def by auto
  ultimately show ?thesis using w l t by (auto simp: CanFd_RecvMsg_def)
qed

definition demo_bus :: "can_message \<times> u8 list \<Rightarrow> rear_hw" where
  "demo_bus m = demo_rear\<lparr>reg_bits := \<lambda>_. 1, can_rx := \<lambda>_. m\<rparr>"

definition demo_msg :: can_message where
  "demo_msg = \<lparr>messageId = 5, dataLengthCode = canfd_dlc 10, fdLongAndFast = True\<rparr>"

theorem canfd_roundtrip_witness:
  "let data = replicate 10 7 @ replicate 54 0 in
   CanFd_SendMsg (demo_bus (demo_msg, [])) 5 (replicate 10 7) 10 (replicate 64 0) [] =
       Some (data, [CanSend ''g_mcmcanFD.canSrcNode'' demo_msg data]) \<and>
     (\<exists>n. fst (CanFd_RecvMsg (demo_bus (demo_msg, data)) []) = (5, data, n) \<and> 10 \<le> int (unat n))"
proof -
  let ?d = "replicate 10 7 @ replicate 54 0 :: u8 list"
  have p: "put_at 0 (replicate 10 7) (replicate 64 0) = ?d" by (simp add: put_at_def)
  have s: "CanFd_SendMsg (demo_bus (demo_msg, [])) 5 (replicate 10 7) 10 (replicate 64 0) [] =
      Some (?d, [CanSend ''g_mcmcanFD.canSrcNode'' demo_msg ?d])"
    by (simp add: CanFd_SendMsg_def p poll_loop.simps can_send_round_def demo_bus_def demo_rear_def demo_msg_def Let_def)
  have r: "\<forall>u. can_rx (demo_bus (demo_msg, ?d)) u = (demo_msg, ?d)" by (simp add: demo_bus_def)
  from canfd_roundtrip [OF s, of] r have "\<exists>n. fst (CanFd_RecvMsg (demo_bus (demo_msg, ?d)) []) = (5, ?d, n) \<and> 10 \<le> int (unat n)"
    by simp blast
  with s show ?thesis unfolding Let_def by blast
qed

end
