(* ===== verification/LwipPbuf.thy ===== *)
theory LwipPbuf
  imports Prelude
begin

text \<open>
  Packet buffers of lwIP (Ethernet/lwip/src/core/pbuf.c) with the options of the REAR board
  (lwipopts.h): the pool, allocation from it, moving the payload over a header, trimming and
  freeing. A buffer is kept whole: the bytes before the payload, the payload and the bytes
  behind it, so that a header that was stepped over can be reclaimed and a read behind the
  payload finds what the pool element last held.
\<close>

definition ETH_PAD_SIZE :: nat where "ETH_PAD_SIZE = 2"
definition MEM_ALIGNMENT :: nat where "MEM_ALIGNMENT = 4"
definition TCP_MSS :: nat where "TCP_MSS = 536"
definition PBUF_LINK_ENCAPSULATION_HLEN :: nat where "PBUF_LINK_ENCAPSULATION_HLEN = 0"
definition PBUF_LINK_HLEN :: nat where "PBUF_LINK_HLEN = 14 + ETH_PAD_SIZE"
definition PBUF_IP_HLEN :: nat where "PBUF_IP_HLEN = 20"
definition PBUF_TRANSPORT_HLEN :: nat where "PBUF_TRANSPORT_HLEN = 20"

definition LWIP_MEM_ALIGN_SIZE :: "nat \<Rightarrow> nat" where
  "LWIP_MEM_ALIGN_SIZE n = (n + MEM_ALIGNMENT - 1) div MEM_ALIGNMENT * MEM_ALIGNMENT"

definition PBUF_POOL_BUFSIZE :: nat where
  "PBUF_POOL_BUFSIZE = LWIP_MEM_ALIGN_SIZE (TCP_MSS + 40 + PBUF_LINK_ENCAPSULATION_HLEN + PBUF_LINK_HLEN)"

definition PBUF_POOL_SIZE :: nat where "PBUF_POOL_SIZE = 16"

text \<open>The layer a buffer is allocated for stands for the room it leaves in front.\<close>

datatype pbuf_layer = PBUF_TRANSPORT | PBUF_IP | PBUF_LINK | PBUF_RAW_TX | PBUF_RAW

fun layer_offset :: "pbuf_layer \<Rightarrow> nat" where
  "layer_offset PBUF_TRANSPORT = PBUF_LINK_ENCAPSULATION_HLEN + PBUF_LINK_HLEN + PBUF_IP_HLEN + PBUF_TRANSPORT_HLEN"
| "layer_offset PBUF_IP = PBUF_LINK_ENCAPSULATION_HLEN + PBUF_LINK_HLEN + PBUF_IP_HLEN"
| "layer_offset PBUF_LINK = PBUF_LINK_ENCAPSULATION_HLEN + PBUF_LINK_HLEN"
| "layer_offset PBUF_RAW_TX = PBUF_LINK_ENCAPSULATION_HLEN"
| "layer_offset PBUF_RAW = 0"

datatype pbuf_type = PBUF_RAM | PBUF_ROM | PBUF_REF | PBUF_POOL

text \<open>One \<open>struct pbuf\<close> of a chain. \<open>seg_addr\<close> is the address of the first byte behind the
  structure; \<open>len\<close> is the length of the payload. Lengths are below \<open>2 ^ 16\<close> because a chain is
  allocated with a 16-bit length.\<close>

record seg =
  seg_type :: pbuf_type
  seg_addr :: u32
  seg_front :: "u8 list"
  seg_data :: "u8 list"
  seg_tail :: "u8 list"

definition seg_payload :: "seg \<Rightarrow> u32" where
  "seg_payload q = seg_addr q + of_nat (length (seg_front q))"

definition seg_len :: "seg \<Rightarrow> nat" where "seg_len q = length (seg_data q)"

text \<open>The memory of the buffer, and the memory from the payload on.\<close>

definition seg_mem :: "seg \<Rightarrow> u8 list" where "seg_mem q = seg_front q @ seg_data q @ seg_tail q"
definition seg_from :: "seg \<Rightarrow> u8 list" where "seg_from q = seg_data q @ seg_tail q"

text \<open>A chain with the flags of its head. A chain has at least one segment.\<close>

record pbuf =
  p_head :: seg
  p_next :: "seg list"
  p_flags :: u8
  p_if_idx :: u8

definition p_segs :: "pbuf \<Rightarrow> seg list" where "p_segs p = p_head p # p_next p"
definition p_len :: "pbuf \<Rightarrow> nat" where "p_len p = seg_len (p_head p)"
definition p_tot_len :: "pbuf \<Rightarrow> nat" where "p_tot_len p = sum_list (map seg_len (p_segs p))"
definition p_payloads :: "pbuf \<Rightarrow> u8 list list" where "p_payloads p = map seg_data (p_segs p)"
definition p_bytes :: "pbuf \<Rightarrow> u8 list" where "p_bytes p = concat (p_payloads p)"

definition PBUF_FLAG_LLBCAST :: u8 where "PBUF_FLAG_LLBCAST = 0x08"
definition PBUF_FLAG_LLMCAST :: u8 where "PBUF_FLAG_LLMCAST = 0x10"

section \<open>The pool\<close>

text \<open>The free elements of the pool, the next one to be handed out first: the address behind
  the \<open>struct pbuf\<close> and the bytes there.\<close>

type_synonym pool = "(u32 \<times> u8 list) list"

definition pool_ok :: "pool \<Rightarrow> bool" where
  "pool_ok pool \<longleftrightarrow> (\<forall>(a, m) \<in> set pool. length m = PBUF_POOL_BUFSIZE \<and> unat a mod MEM_ALIGNMENT = 0)"

text \<open>The loop of \<open>pbuf_alloc\<close> for the type PBUF_POOL: one element after the other until the
  length is reached; \<open>None\<close> when the pool is empty.\<close>

fun pool_chain :: "nat \<Rightarrow> nat \<Rightarrow> pool \<Rightarrow> (seg list \<times> pool) option" where
  "pool_chain offset rem_len [] = None"
| "pool_chain offset rem_len ((a, m) # pool) =
     (let start = LWIP_MEM_ALIGN_SIZE offset;
          qlen = min rem_len (PBUF_POOL_BUFSIZE - start);
          q = \<lparr>seg_type = PBUF_POOL, seg_addr = a, seg_front = take start m, seg_data = take qlen (drop start m),
               seg_tail = drop (start + qlen) m\<rparr>;
          rem_len = rem_len - qlen
      in if 0 < rem_len then map_option (\<lambda>(qs, pool). (q # qs, pool)) (pool_chain 0 rem_len pool)
         else Some ([q], pool))"

text \<open>An allocation that fails gives back what it took: the last element taken is on top.\<close>

definition pbuf_alloc_pool :: "pbuf_layer \<Rightarrow> nat \<Rightarrow> pool \<Rightarrow> pbuf option \<times> pool" where
  "pbuf_alloc_pool layer n pool =
     (case pool_chain (layer_offset layer) n pool of
        Some (q # qs, rest) \<Rightarrow> (Some \<lparr>p_head = q, p_next = qs, p_flags = 0, p_if_idx = 0\<rparr>, rest)
      | _ \<Rightarrow> (None, rev pool))"

text \<open>Freeing a chain nobody else refers to: its elements go back one by one.\<close>

definition pbuf_free :: "pbuf \<Rightarrow> pool \<Rightarrow> pool" where
  "pbuf_free p pool = rev (map (\<lambda>q. (seg_addr q, seg_mem q)) (p_segs p)) @ pool"

section \<open>Moving the payload\<close>

definition seg_remove :: "nat \<Rightarrow> seg \<Rightarrow> seg" where
  "seg_remove n q = q\<lparr>seg_front := seg_front q @ take n (seg_data q), seg_data := drop n (seg_data q)\<rparr>"

definition seg_add :: "nat \<Rightarrow> seg \<Rightarrow> seg" where
  "seg_add n q = (let k = length (seg_front q) - n
     in q\<lparr>seg_front := take k (seg_front q), seg_data := drop k (seg_front q) @ seg_data q\<rparr>)"

text \<open>The result 1 stands for failure, as in the code; the chain is then as before.\<close>

definition pbuf_remove_header :: "pbuf \<Rightarrow> nat \<Rightarrow> nat \<times> pbuf" where
  "pbuf_remove_header p n =
     (if 0xFFFF < n then (1, p)
      else if n = 0 then (0, p)
      else if p_len p < n then (1, p)
      else (0, p\<lparr>p_head := seg_remove n (p_head p)\<rparr>))"

definition contiguous :: "pbuf_type \<Rightarrow> bool" where
  "contiguous t \<longleftrightarrow> t = PBUF_RAM \<or> t = PBUF_POOL"

definition pbuf_add_header_impl :: "pbuf \<Rightarrow> nat \<Rightarrow> bool \<Rightarrow> nat \<times> pbuf" where
  "pbuf_add_header_impl p n force =
     (if 0xFFFF < n then (1, p)
      else if n = 0 then (0, p)
      else if 2 ^ 16 \<le> n + p_tot_len p then (1, p)
      else if (if contiguous (seg_type (p_head p)) then length (seg_front (p_head p)) < n else \<not> force) then (1, p)
      else (0, p\<lparr>p_head := seg_add n (p_head p)\<rparr>))"

definition pbuf_add_header :: "pbuf \<Rightarrow> nat \<Rightarrow> nat \<times> pbuf" where
  "pbuf_add_header p n = pbuf_add_header_impl p n False"

definition pbuf_header_impl :: "pbuf \<Rightarrow> int \<Rightarrow> bool \<Rightarrow> nat \<times> pbuf" where
  "pbuf_header_impl p n force =
     (if n < 0 then pbuf_remove_header p (nat (- n)) else pbuf_add_header_impl p (nat n) force)"

definition pbuf_header :: "pbuf \<Rightarrow> int \<Rightarrow> nat \<times> pbuf" where
  "pbuf_header p n = pbuf_header_impl p n False"

definition pbuf_header_force :: "pbuf \<Rightarrow> int \<Rightarrow> nat \<times> pbuf" where
  "pbuf_header_force p n = pbuf_header_impl p n True"

section \<open>Trimming\<close>

definition seg_trim :: "nat \<Rightarrow> seg \<Rightarrow> seg" where
  "seg_trim n q = q\<lparr>seg_data := take n (seg_data q), seg_tail := drop n (seg_data q) @ seg_tail q\<rparr>"

text \<open>The segments that stay, the last of them cut; and those behind it, which are freed.\<close>

fun realloc_segs :: "nat \<Rightarrow> seg list \<Rightarrow> seg list \<times> seg list" where
  "realloc_segs rem_len [] = ([], [])"
| "realloc_segs rem_len (q # qs) =
     (if seg_len q < rem_len then (let (keep, gone) = realloc_segs (rem_len - seg_len q) qs in (q # keep, gone))
      else ([seg_trim rem_len q], qs))"

definition pbuf_realloc :: "pbuf \<Rightarrow> nat \<Rightarrow> pool \<Rightarrow> pbuf \<times> pool" where
  "pbuf_realloc p new_len pool =
     (if p_tot_len p \<le> new_len then (p, pool)
      else case realloc_segs new_len (p_segs p) of
        (q # qs, gone) \<Rightarrow> (p\<lparr>p_head := q, p_next := qs\<rparr>, rev (map (\<lambda>q. (seg_addr q, seg_mem q)) gone) @ pool)
      | _ \<Rightarrow> (p, pool))"

end
