(* ===== verification/LwipChksum.thy ===== *)
theory LwipChksum
  imports LwipPbuf
begin

text \<open>
  Byte order (core/def.c) and the Internet checksum of lwIP (core/inet_chksum.c): the routine
  that the default option selects (algorithm 2), the two alternatives of the same file, and the
  sums over a chain of buffers with and without the pseudo header. The TriCore is a
  little-endian machine.
\<close>

section \<open>Byte order\<close>

definition lwip_htons :: "u16 \<Rightarrow> u16" where
  "lwip_htons x = push_bit 8 (x AND 0x00ff) OR drop_bit 8 (x AND 0xff00)"

definition lwip_ntohs :: "u16 \<Rightarrow> u16" where "lwip_ntohs x = lwip_htons x"

definition lwip_htonl :: "u32 \<Rightarrow> u32" where
  "lwip_htonl x = push_bit 24 (x AND 0x000000ff) OR push_bit 8 (x AND 0x0000ff00) OR
     drop_bit 8 (x AND 0x00ff0000) OR drop_bit 24 (x AND 0xff000000)"

text \<open>Loads from memory.\<close>

definition load16 :: "u8 \<Rightarrow> u8 \<Rightarrow> u16" where
  "load16 b0 b1 = ucast b0 OR push_bit 8 (ucast b1)"

definition load32 :: "u8 \<Rightarrow> u8 \<Rightarrow> u8 \<Rightarrow> u8 \<Rightarrow> u32" where
  "load32 b0 b1 b2 b3 = ucast b0 OR push_bit 8 (ucast b1) OR push_bit 16 (ucast b2) OR push_bit 24 (ucast b3)"

definition at16 :: "u8 list \<Rightarrow> nat \<Rightarrow> u16" where "at16 bs i = load16 (bs ! i) (bs ! (i + 1))"

definition at32 :: "u8 list \<Rightarrow> nat \<Rightarrow> u32" where
  "at32 bs i = load32 (bs ! i) (bs ! (i + 1)) (bs ! (i + 2)) (bs ! (i + 3))"

section \<open>The sum over one block\<close>

definition FOLD_U32T :: "u32 \<Rightarrow> u32" where
  "FOLD_U32T u = drop_bit 16 u + (u AND 0x0000ffff)"

definition SWAP_BYTES_IN_WORD :: "u32 \<Rightarrow> u32" where
  "SWAP_BYTES_IN_WORD w = push_bit 8 (w AND 0xff) OR drop_bit 8 (w AND 0xff00)"

text \<open>Algorithm 1, the portable one: two bytes at a time, the first the more significant.\<close>

fun chksum1_loop :: "u8 list \<Rightarrow> u32 \<Rightarrow> u32" where
  "chksum1_loop (b0 # b1 # bs) acc = chksum1_loop bs (acc + ucast (push_bit 8 (ucast b0) OR ucast b1 :: u16))"
| "chksum1_loop [b] acc = acc + ucast (push_bit 8 (ucast b) :: u16)"
| "chksum1_loop [] acc = acc"

definition lwip_standard_chksum_1 :: "u8 list \<Rightarrow> u16" where
  "lwip_standard_chksum_1 bs =
     (let acc = chksum1_loop bs 0;
          acc = drop_bit 16 acc + (acc AND 0x0000ffff);
          acc = (if acc AND 0xffff0000 \<noteq> 0 then drop_bit 16 acc + (acc AND 0x0000ffff) else acc)
      in lwip_htons (ucast acc))"

text \<open>Algorithm 2, the one that is used: 16-bit loads, with \<open>t\<close> for the bytes at the ends.\<close>

fun chksum2_loop :: "u8 list \<Rightarrow> u32 \<Rightarrow> u32 \<times> u8 list" where
  "chksum2_loop (b0 # b1 # bs) acc = chksum2_loop bs (acc + ucast (load16 b0 b1))"
| "chksum2_loop bs acc = (acc, bs)"

definition lwip_standard_chksum :: "u32 \<Rightarrow> u8 list \<Rightarrow> u16" where
  "lwip_standard_chksum dataptr bs =
     (let odd = dataptr AND 1 \<noteq> 0;
          (t1, pb) = (if odd \<and> bs \<noteq> [] then (hd bs, tl bs) else (0, bs));
          (acc, rest) = chksum2_loop pb 0;
          t0 = (if rest \<noteq> [] then hd rest else 0);
          acc = acc + ucast (load16 t0 t1);
          acc = FOLD_U32T acc;
          acc = FOLD_U32T acc;
          acc = (if odd then SWAP_BYTES_IN_WORD acc else acc)
      in ucast acc)"

text \<open>Algorithm 3: eight bytes at a time, with the carries added back.\<close>

definition add_carry :: "u32 \<Rightarrow> u32 \<Rightarrow> u32" where
  "add_carry acc x = (let tmp = acc + x in if tmp < acc then tmp + 1 else tmp)"

fun chksum3_loop :: "u8 list \<Rightarrow> u32 \<Rightarrow> u32 \<times> u8 list" where
  "chksum3_loop (b0 # b1 # b2 # b3 # b4 # b5 # b6 # b7 # bs) acc =
     chksum3_loop bs (add_carry (add_carry acc (load32 b0 b1 b2 b3)) (load32 b4 b5 b6 b7))"
| "chksum3_loop bs acc = (acc, bs)"

definition lwip_standard_chksum_3 :: "u32 \<Rightarrow> u8 list \<Rightarrow> u16" where
  "lwip_standard_chksum_3 dataptr bs =
     (let odd = dataptr AND 1 \<noteq> 0;
          (t1, ps) = (if odd \<and> bs \<noteq> [] then (hd bs, tl bs) else (0, bs));
          adr = (if odd \<and> bs \<noteq> [] then dataptr + 1 else dataptr);
          (acc, pl) = (if adr AND 3 \<noteq> 0 \<and> 1 < length ps then (ucast (load16 (ps ! 0) (ps ! 1)), drop 2 ps) else (0, ps));
          (acc, ps) = chksum3_loop pl acc;
          acc = FOLD_U32T acc;
          (acc, rest) = chksum2_loop ps acc;
          t0 = (if rest \<noteq> [] then hd rest else 0);
          acc = acc + ucast (load16 t0 t1);
          acc = FOLD_U32T acc;
          acc = FOLD_U32T acc;
          acc = (if odd then SWAP_BYTES_IN_WORD acc else acc)
      in ucast acc)"

section \<open>Checksums\<close>

definition inet_chksum :: "u32 \<Rightarrow> u8 list \<Rightarrow> u16" where
  "inet_chksum dataptr bs = NOT (lwip_standard_chksum dataptr bs)"

text \<open>The loop over a chain: the sum of a segment that starts at an odd offset has its bytes
  exchanged.\<close>

fun chain_sum :: "seg list \<Rightarrow> bool \<Rightarrow> u32 \<Rightarrow> bool \<times> u32" where
  "chain_sum [] swapped acc = (swapped, acc)"
| "chain_sum (q # qs) swapped acc =
     (let acc = acc + ucast (lwip_standard_chksum (seg_payload q) (seg_data q));
          acc = FOLD_U32T acc;
          (swapped, acc) = (if seg_len q mod 2 \<noteq> 0 then (\<not> swapped, SWAP_BYTES_IN_WORD acc) else (swapped, acc))
      in chain_sum qs swapped acc)"

definition inet_cksum_pseudo_base :: "pbuf \<Rightarrow> u8 \<Rightarrow> u16 \<Rightarrow> u32 \<Rightarrow> u16" where
  "inet_cksum_pseudo_base p proto proto_len acc =
     (let (swapped, acc) = chain_sum (p_segs p) False acc;
          acc = (if swapped then SWAP_BYTES_IN_WORD acc else acc);
          acc = acc + ucast (lwip_htons (ucast proto));
          acc = acc + ucast (lwip_htons proto_len);
          acc = FOLD_U32T acc;
          acc = FOLD_U32T acc
      in ucast (NOT (acc AND 0xffff)))"

text \<open>Addresses are in network byte order.\<close>

definition inet_chksum_pseudo :: "pbuf \<Rightarrow> u8 \<Rightarrow> u16 \<Rightarrow> u32 \<Rightarrow> u32 \<Rightarrow> u16" where
  "inet_chksum_pseudo p proto proto_len src dest =
     (let acc = src AND 0xffff;
          acc = acc + (drop_bit 16 src AND 0xffff);
          acc = acc + (dest AND 0xffff);
          acc = acc + (drop_bit 16 dest AND 0xffff);
          acc = FOLD_U32T acc;
          acc = FOLD_U32T acc
      in inet_cksum_pseudo_base p proto proto_len acc)"

definition ip_chksum_pseudo :: "pbuf \<Rightarrow> u8 \<Rightarrow> u16 \<Rightarrow> u32 \<Rightarrow> u32 \<Rightarrow> u16" where
  "ip_chksum_pseudo p proto proto_len src dest = inet_chksum_pseudo p proto proto_len src dest"

definition inet_chksum_pbuf :: "pbuf \<Rightarrow> u16" where
  "inet_chksum_pbuf p =
     (let (swapped, acc) = chain_sum (p_segs p) False 0;
          acc = (if swapped then SWAP_BYTES_IN_WORD acc else acc)
      in ucast (NOT (acc AND 0xffff)))"

end
