(* ===== verification/LwipNetif.thy ===== *)
theory LwipNetif
  imports LwipChksum
begin

text \<open>
  Addresses (core/ipv4/ip4_addr.c and its header), network interfaces (core/netif.c) and the
  membership in multicast groups (core/ipv4/igmp.c) with the options of the REAR board. An address is the
  32-bit word that lies in memory, so its low byte is the first part of the dotted form.
\<close>

section \<open>Addresses\<close>

definition IP4_ADDR :: "u8 \<Rightarrow> u8 \<Rightarrow> u8 \<Rightarrow> u8 \<Rightarrow> u32" where
  "IP4_ADDR a b c d = lwip_htonl (push_bit 24 (ucast a) OR push_bit 16 (ucast b) OR push_bit 8 (ucast c) OR ucast d)"

definition IPADDR_ANY :: u32 where "IPADDR_ANY = 0x00000000"
definition IPADDR_BROADCAST :: u32 where "IPADDR_BROADCAST = 0xffffffff"

definition ip4_addr_isany_val :: "u32 \<Rightarrow> bool" where "ip4_addr_isany_val a \<longleftrightarrow> a = IPADDR_ANY"

definition ip4_addr_netcmp :: "u32 \<Rightarrow> u32 \<Rightarrow> u32 \<Rightarrow> bool" where
  "ip4_addr_netcmp a b netmask \<longleftrightarrow> a AND netmask = b AND netmask"

definition ip4_addr_ismulticast :: "u32 \<Rightarrow> bool" where
  "ip4_addr_ismulticast a \<longleftrightarrow> a AND lwip_htonl 0xf0000000 = lwip_htonl 0xe0000000"

definition ip4_addr_isloopback :: "u32 \<Rightarrow> bool" where
  "ip4_addr_isloopback a \<longleftrightarrow> a AND lwip_htonl 0xff000000 = lwip_htonl (push_bit 24 127)"

section \<open>Network interfaces\<close>

record igmp_group =
  group_address :: u32
  last_reporter_flag :: u8
  group_state :: u8
  group_timer :: u16
  group_use :: u8

record netif =
  nif_ip :: u32
  nif_netmask :: u32
  nif_gw :: u32
  nif_mtu :: u16
  nif_flags :: u8
  nif_hwaddr :: "u8 list"
  nif_num :: u8
  nif_igmp :: "igmp_group list"
  nif_mac_filter :: bool

definition NETIF_FLAG_UP :: u8 where "NETIF_FLAG_UP = 0x01"
definition NETIF_FLAG_BROADCAST :: u8 where "NETIF_FLAG_BROADCAST = 0x02"
definition NETIF_FLAG_LINK_UP :: u8 where "NETIF_FLAG_LINK_UP = 0x04"
definition NETIF_FLAG_ETHARP :: u8 where "NETIF_FLAG_ETHARP = 0x08"
definition NETIF_FLAG_IGMP :: u8 where "NETIF_FLAG_IGMP = 0x20"

definition has_flag :: "netif \<Rightarrow> u8 \<Rightarrow> bool" where "has_flag n f \<longleftrightarrow> nif_flags n AND f \<noteq> 0"

definition netif_is_up :: "netif \<Rightarrow> bool" where "netif_is_up n = has_flag n NETIF_FLAG_UP"
definition netif_is_link_up :: "netif \<Rightarrow> bool" where "netif_is_link_up n = has_flag n NETIF_FLAG_LINK_UP"

definition NETIF_NO_INDEX :: u8 where "NETIF_NO_INDEX = 0"
definition netif_get_index :: "netif \<Rightarrow> u8" where "netif_get_index n = nif_num n + 1"

definition netif_set_flags :: "u8 \<Rightarrow> netif \<Rightarrow> netif" where
  "netif_set_flags f n = n\<lparr>nif_flags := nif_flags n OR f\<rparr>"

definition netif_clear_flags :: "u8 \<Rightarrow> netif \<Rightarrow> netif" where
  "netif_clear_flags f n = n\<lparr>nif_flags := nif_flags n AND NOT f\<rparr>"

definition ip4_addr_isbroadcast_u32 :: "u32 \<Rightarrow> netif \<Rightarrow> bool" where
  "ip4_addr_isbroadcast_u32 addr n =
     (if NOT addr = IPADDR_ANY \<or> addr = IPADDR_ANY then True
      else if \<not> has_flag n NETIF_FLAG_BROADCAST then False
      else if addr = nif_ip n then False
      else ip4_addr_netcmp addr (nif_ip n) (nif_netmask n) \<and>
        addr AND NOT (nif_netmask n) = IPADDR_BROADCAST AND NOT (nif_netmask n))"

text \<open>What the interface and the group membership make happen outside, newest first: a call of
  the registered status callback with its reason, the ARP announcement and clean-up, the MAC
  filter, and an IP packet handed to \<open>ip4_output_if_opt\<close>.\<close>

datatype lwip_event =
    ExtCallback u16
  | GratuitousArp
  | ArpCleanup
  | MacFilter u32 bool
  | IpOutput "u8 list" u32 u32 u8 u8 "u8 list"
  | NoMemory

type_synonym ltrace = "lwip_event list"

text \<open>Whether an allocation from the heap succeeds.\<close>

record lwip_env =
  mem_ok :: "ltrace \<Rightarrow> nat \<Rightarrow> bool"

section \<open>Multicast groups\<close>

definition IGMP_TTL :: u8 where "IGMP_TTL = 1"
definition IGMP_MINLEN :: nat where "IGMP_MINLEN = 8"
definition IP_PROTO_IGMP :: u8 where "IP_PROTO_IGMP = 2"
definition IGMP_MEMB_QUERY :: u8 where "IGMP_MEMB_QUERY = 0x11"
definition IGMP_V2_MEMB_REPORT :: u8 where "IGMP_V2_MEMB_REPORT = 0x16"
definition IGMP_LEAVE_GROUP :: u8 where "IGMP_LEAVE_GROUP = 0x17"
definition IGMP_GROUP_NON_MEMBER :: u8 where "IGMP_GROUP_NON_MEMBER = 0"
definition IGMP_GROUP_DELAYING_MEMBER :: u8 where "IGMP_GROUP_DELAYING_MEMBER = 1"
definition IGMP_GROUP_IDLE_MEMBER :: u8 where "IGMP_GROUP_IDLE_MEMBER = 2"
definition IGMP_V1_DELAYING_MEMBER_TMR :: u8 where "IGMP_V1_DELAYING_MEMBER_TMR = 10"
definition IGMP_JOIN_DELAYING_MEMBER_TMR :: u8 where "IGMP_JOIN_DELAYING_MEMBER_TMR = 5"
definition MEMP_NUM_IGMP_GROUP :: nat where "MEMP_NUM_IGMP_GROUP = 8"

lemmas igmp_consts [consts_simps] =
  IGMP_MEMB_QUERY_def IGMP_V2_MEMB_REPORT_def IGMP_LEAVE_GROUP_def IGMP_GROUP_NON_MEMBER_def
  IGMP_GROUP_DELAYING_MEMBER_def IGMP_GROUP_IDLE_MEMBER_def IGMP_V1_DELAYING_MEMBER_TMR_def
  IGMP_JOIN_DELAYING_MEMBER_TMR_def

definition allsystems :: u32 where "allsystems = IP4_ADDR 224 0 0 1"
definition allrouters :: u32 where "allrouters = IP4_ADDR 224 0 0 2"

fun igmp_lookfor_group :: "igmp_group list \<Rightarrow> u32 \<Rightarrow> igmp_group option" where
  "igmp_lookfor_group [] addr = None"
| "igmp_lookfor_group (g # gs) addr = (if group_address g = addr then Some g else igmp_lookfor_group gs addr)"

text \<open>Writing through the pointer that \<open>igmp_lookfor_group\<close> returned.\<close>

fun set_group :: "u32 \<Rightarrow> igmp_group \<Rightarrow> igmp_group list \<Rightarrow> igmp_group list" where
  "set_group addr g [] = []"
| "set_group addr g (h # gs) = (if group_address h = addr then g # gs else h # set_group addr g gs)"

text \<open>The number of free elements of the pool of groups is passed along.\<close>

definition new_group :: "u32 \<Rightarrow> igmp_group" where
  "new_group addr = \<lparr>group_address = addr, last_reporter_flag = 0, group_state = IGMP_GROUP_NON_MEMBER,
     group_timer = 0, group_use = 0\<rparr>"

definition igmp_lookup_group :: "netif \<Rightarrow> nat \<Rightarrow> u32 \<Rightarrow> igmp_group option \<times> netif \<times> nat" where
  "igmp_lookup_group n free addr =
     (case igmp_lookfor_group (nif_igmp n) addr of
        Some g \<Rightarrow> (Some g, n, free)
      | None \<Rightarrow>
          if free = 0 then (None, n, free)
          else (let g = new_group addr;
                    gs = (case nif_igmp n of [] \<Rightarrow> [g] | h # t \<Rightarrow> h # g # t)
                in (Some g, n\<lparr>nif_igmp := gs\<rparr>, free - 1)))"

definition set_nif_group :: "igmp_group \<Rightarrow> netif \<Rightarrow> netif" where
  "set_nif_group g n = n\<lparr>nif_igmp := set_group (group_address g) g (nif_igmp n)\<rparr>"

definition mac_filter :: "u32 \<Rightarrow> bool \<Rightarrow> netif \<Rightarrow> ltrace \<Rightarrow> ltrace" where
  "mac_filter addr add n w = (if nif_mac_filter n then MacFilter addr add # w else w)"

text \<open>The result is whether the group could be created (ERR_OK or ERR_MEM).\<close>

definition igmp_start :: "netif \<Rightarrow> nat \<Rightarrow> ltrace \<Rightarrow> bool \<times> netif \<times> nat \<times> ltrace" where
  "igmp_start n free w =
     (case igmp_lookup_group n free allsystems of
        (Some g, n, free) \<Rightarrow>
          (True, set_nif_group (g\<lparr>group_state := IGMP_GROUP_IDLE_MEMBER, group_use := group_use g + 1\<rparr>) n, free,
           mac_filter allsystems True n w)
      | (None, n, free) \<Rightarrow> (False, n, free, w))"

definition igmp_stop :: "netif \<Rightarrow> nat \<Rightarrow> ltrace \<Rightarrow> netif \<times> nat \<times> ltrace" where
  "igmp_stop n free w =
     (n\<lparr>nif_igmp := []\<rparr>, free + length (nif_igmp n), fold (\<lambda>g. mac_filter (group_address g) False n) (nif_igmp n) w)"

definition igmp_start_timer :: "u8 \<Rightarrow> igmp_group \<Rightarrow> igmp_group" where
  "igmp_start_timer max_time g =
     (let t = ucast (max_time div 2) in g\<lparr>group_timer := (if t = 0 then 1 else t)\<rparr>)"

definition igmp_delaying_member :: "u8 \<Rightarrow> igmp_group \<Rightarrow> igmp_group" where
  "igmp_delaying_member maxresp g =
     (if group_state g = IGMP_GROUP_IDLE_MEMBER \<or>
         group_state g = IGMP_GROUP_DELAYING_MEMBER \<and> (group_timer g = 0 \<or> ucast maxresp < group_timer g)
      then (igmp_start_timer maxresp g)\<lparr>group_state := IGMP_GROUP_DELAYING_MEMBER\<rparr> else g)"

text \<open>All groups but the first.\<close>

definition delay_groups :: "u8 \<Rightarrow> igmp_group list \<Rightarrow> igmp_group list" where
  "delay_groups maxresp gs = (case gs of [] \<Rightarrow> [] | h # t \<Rightarrow> h # map (igmp_delaying_member maxresp) t)"

definition igmp_report_groups :: "netif \<Rightarrow> netif" where
  "igmp_report_groups n = n\<lparr>nif_igmp := delay_groups IGMP_JOIN_DELAYING_MEMBER_TMR (nif_igmp n)\<rparr>"

text \<open>The message: type, response time, checksum, group address.\<close>

definition store16 :: "u16 \<Rightarrow> u8 list" where "store16 x = [ucast x, ucast (drop_bit 8 x)]"

definition store32 :: "u32 \<Rightarrow> u8 list" where
  "store32 x = [ucast x, ucast (drop_bit 8 x), ucast (drop_bit 16 x), ucast (drop_bit 24 x)]"

definition igmp_msg :: "u8 \<Rightarrow> u32 \<Rightarrow> u8 list" where
  "igmp_msg msgtype addr =
     (let chk = inet_chksum 0 ([msgtype, 0] @ store16 0 @ store32 addr) in [msgtype, 0] @ store16 chk @ store32 addr)"

definition igmp_ip_output_if :: "u8 list \<Rightarrow> u32 \<Rightarrow> u32 \<Rightarrow> ltrace \<Rightarrow> ltrace" where
  "igmp_ip_output_if msg src dest w = IpOutput msg src dest IGMP_TTL IP_PROTO_IGMP [0x94, 0x04, 0x00, 0x00] # w"

definition igmp_send :: "lwip_env \<Rightarrow> netif \<Rightarrow> igmp_group \<Rightarrow> u8 \<Rightarrow> ltrace \<Rightarrow> igmp_group \<times> ltrace" where
  "igmp_send E n g msgtype w =
     (if mem_ok E w IGMP_MINLEN then
        (if msgtype = IGMP_V2_MEMB_REPORT then
           (g\<lparr>last_reporter_flag := 1\<rparr>, igmp_ip_output_if (igmp_msg msgtype (group_address g)) (nif_ip n) (group_address g) w)
         else if msgtype = IGMP_LEAVE_GROUP then
           (g, igmp_ip_output_if (igmp_msg msgtype (group_address g)) (nif_ip n) allrouters w)
         else (g, w))
      else (g, NoMemory # w))"

datatype igmp_err = IgmpOk | IgmpErrVal | IgmpErrMem

definition igmp_joingroup_netif ::
    "lwip_env \<Rightarrow> netif \<Rightarrow> nat \<Rightarrow> u32 \<Rightarrow> ltrace \<Rightarrow> igmp_err \<times> netif \<times> nat \<times> ltrace" where
  "igmp_joingroup_netif E n free addr w =
     (if \<not> ip4_addr_ismulticast addr then (IgmpErrVal, n, free, w)
      else if addr = allsystems then (IgmpErrVal, n, free, w)
      else if \<not> has_flag n NETIF_FLAG_IGMP then (IgmpErrVal, n, free, w)
      else (case igmp_lookup_group n free addr of
         (Some g, n, free) \<Rightarrow>
           (let (g, w) = (if group_state g \<noteq> IGMP_GROUP_NON_MEMBER then (g, w)
                 else (let w = (if group_use g = 0 then mac_filter addr True n w else w);
                           (g, w) = igmp_send E n g IGMP_V2_MEMB_REPORT w;
                           g = igmp_start_timer IGMP_JOIN_DELAYING_MEMBER_TMR g
                       in (g\<lparr>group_state := IGMP_GROUP_DELAYING_MEMBER\<rparr>, w)))
            in (IgmpOk, set_nif_group (g\<lparr>group_use := group_use g + 1\<rparr>) n, free, w))
       | (None, n, free) \<Rightarrow> (IgmpErrMem, n, free, w)))"

text \<open>For one group on all interfaces of a list; the first error ends the loop.\<close>

fun igmp_join_all ::
    "lwip_env \<Rightarrow> netif list \<Rightarrow> nat \<Rightarrow> u32 \<Rightarrow> u32 \<Rightarrow> igmp_err \<Rightarrow> ltrace \<Rightarrow> igmp_err \<times> netif list \<times> nat \<times> ltrace" where
  "igmp_join_all E [] free ifaddr addr err w = (err, [], free, w)"
| "igmp_join_all E (n # ns) free ifaddr addr err w =
     (if has_flag n NETIF_FLAG_IGMP \<and> (ip4_addr_isany_val ifaddr \<or> nif_ip n = ifaddr) then
        (let (err, n, free, w) = igmp_joingroup_netif E n free addr w
         in if err \<noteq> IgmpOk then (err, n # ns, free, w)
            else let (err, ns, free, w) = igmp_join_all E ns free ifaddr addr err w in (err, n # ns, free, w))
      else let (err, ns, free, w) = igmp_join_all E ns free ifaddr addr err w in (err, n # ns, free, w))"

definition igmp_joingroup ::
    "lwip_env \<Rightarrow> netif list \<Rightarrow> nat \<Rightarrow> u32 \<Rightarrow> u32 \<Rightarrow> ltrace \<Rightarrow> igmp_err \<times> netif list \<times> nat \<times> ltrace" where
  "igmp_joingroup E ns free ifaddr addr w =
     (if \<not> ip4_addr_ismulticast addr then (IgmpErrVal, ns, free, w)
      else if addr = allsystems then (IgmpErrVal, ns, free, w)
      else igmp_join_all E ns free ifaddr addr IgmpErrVal w)"

text \<open>Taking a group off the list; the first one, the all-systems group, never is.\<close>

fun remove_behind :: "u32 \<Rightarrow> igmp_group list \<Rightarrow> igmp_group list" where
  "remove_behind addr [] = []"
| "remove_behind addr [g] = [g]"
| "remove_behind addr (g # h # gs) = (if group_address h = addr then g # gs else g # remove_behind addr (h # gs))"

definition igmp_remove_group :: "netif \<Rightarrow> u32 \<Rightarrow> netif" where
  "igmp_remove_group n addr = n\<lparr>nif_igmp := remove_behind addr (nif_igmp n)\<rparr>"

definition igmp_leavegroup_netif ::
    "lwip_env \<Rightarrow> netif \<Rightarrow> nat \<Rightarrow> u32 \<Rightarrow> ltrace \<Rightarrow> igmp_err \<times> netif \<times> nat \<times> ltrace" where
  "igmp_leavegroup_netif E n free addr w =
     (if \<not> ip4_addr_ismulticast addr then (IgmpErrVal, n, free, w)
      else if addr = allsystems then (IgmpErrVal, n, free, w)
      else if \<not> has_flag n NETIF_FLAG_IGMP then (IgmpErrVal, n, free, w)
      else (case igmp_lookfor_group (nif_igmp n) addr of
         None \<Rightarrow> (IgmpErrVal, n, free, w)
       | Some g \<Rightarrow>
           if group_use g \<le> 1 then
             (let n = igmp_remove_group n addr;
                  w = (if last_reporter_flag g \<noteq> 0 then snd (igmp_send E n g IGMP_LEAVE_GROUP w) else w);
                  w = mac_filter addr False n w
              in (IgmpOk, n, free + 1, w))
           else (IgmpOk, set_nif_group (g\<lparr>group_use := group_use g - 1\<rparr>) n, free, w)))"

text \<open>Leaving on all interfaces of a list; a success is kept.\<close>

fun igmp_leave_all ::
    "lwip_env \<Rightarrow> netif list \<Rightarrow> nat \<Rightarrow> u32 \<Rightarrow> u32 \<Rightarrow> igmp_err \<Rightarrow> ltrace \<Rightarrow> igmp_err \<times> netif list \<times> nat \<times> ltrace" where
  "igmp_leave_all E [] free ifaddr addr err w = (err, [], free, w)"
| "igmp_leave_all E (n # ns) free ifaddr addr err w =
     (let (err, n, free, w) =
        (if has_flag n NETIF_FLAG_IGMP \<and> (ip4_addr_isany_val ifaddr \<or> nif_ip n = ifaddr) then
           (let (res, n, free, w) = igmp_leavegroup_netif E n free addr w
            in (if err \<noteq> IgmpOk then res else err, n, free, w))
         else (err, n, free, w));
          (err, ns, free, w) = igmp_leave_all E ns free ifaddr addr err w
      in (err, n # ns, free, w))"

definition igmp_leavegroup ::
    "lwip_env \<Rightarrow> netif list \<Rightarrow> nat \<Rightarrow> u32 \<Rightarrow> u32 \<Rightarrow> ltrace \<Rightarrow> igmp_err \<times> netif list \<times> nat \<times> ltrace" where
  "igmp_leavegroup E ns free ifaddr addr w =
     (if \<not> ip4_addr_ismulticast addr then (IgmpErrVal, ns, free, w)
      else if addr = allsystems then (IgmpErrVal, ns, free, w)
      else igmp_leave_all E ns free ifaddr addr IgmpErrVal w)"

definition igmp_timeout :: "lwip_env \<Rightarrow> netif \<Rightarrow> igmp_group \<Rightarrow> ltrace \<Rightarrow> igmp_group \<times> ltrace" where
  "igmp_timeout E n g w =
     (if group_state g = IGMP_GROUP_DELAYING_MEMBER \<and> group_address g \<noteq> allsystems
      then igmp_send E n (g\<lparr>group_state := IGMP_GROUP_IDLE_MEMBER\<rparr>) IGMP_V2_MEMB_REPORT w else (g, w))"

definition igmp_tmr_group :: "lwip_env \<Rightarrow> netif \<Rightarrow> igmp_group \<Rightarrow> ltrace \<Rightarrow> igmp_group \<times> ltrace" where
  "igmp_tmr_group E n g w =
     (if 0 < group_timer g then
        (let g = g\<lparr>group_timer := group_timer g - 1\<rparr>
         in if group_timer g = 0 then igmp_timeout E n g w else (g, w))
      else (g, w))"

fun igmp_tmr_groups :: "lwip_env \<Rightarrow> netif \<Rightarrow> igmp_group list \<Rightarrow> ltrace \<Rightarrow> igmp_group list \<times> ltrace" where
  "igmp_tmr_groups E n [] w = ([], w)"
| "igmp_tmr_groups E n (g # gs) w =
     (let (g, w) = igmp_tmr_group E n g w; (gs, w) = igmp_tmr_groups E n gs w in (g # gs, w))"

fun igmp_tmr :: "lwip_env \<Rightarrow> netif list \<Rightarrow> ltrace \<Rightarrow> netif list \<times> ltrace" where
  "igmp_tmr E [] w = ([], w)"
| "igmp_tmr E (n # ns) w =
     (let (gs, w) = igmp_tmr_groups E n (nif_igmp n) w; (ns, w) = igmp_tmr E ns w in (n\<lparr>nif_igmp := gs\<rparr> # ns, w))"

text \<open>A received message. The chain is freed in every case (the response time that the code writes back
  into it for a query of version 1 is not recorded).\<close>

definition igmp_query :: "netif \<Rightarrow> igmp_group \<Rightarrow> u32 \<Rightarrow> u8 \<Rightarrow> u32 \<Rightarrow> netif" where
  "igmp_query n g dest maxresp addr =
     (if dest = allsystems \<and> ip4_addr_isany_val addr then
        (let maxresp = (if maxresp = 0 then IGMP_V1_DELAYING_MEMBER_TMR else maxresp)
         in n\<lparr>nif_igmp := delay_groups maxresp (nif_igmp n)\<rparr>)
      else if \<not> ip4_addr_isany_val addr then
        (case (if dest = allsystems then igmp_lookfor_group (nif_igmp n) addr else Some g) of
           Some g \<Rightarrow> set_nif_group (igmp_delaying_member maxresp g) n
         | None \<Rightarrow> n)
      else n)"

definition igmp_message :: "netif \<Rightarrow> u32 \<Rightarrow> u8 list \<Rightarrow> netif" where
  "igmp_message n dest igmp =
     (case igmp_lookfor_group (nif_igmp n) dest of
        None \<Rightarrow> n
      | Some g \<Rightarrow>
          if igmp ! 0 = IGMP_MEMB_QUERY then igmp_query n g dest (igmp ! 1) (at32 igmp 4)
          else if igmp ! 0 = IGMP_V2_MEMB_REPORT then
            (if group_state g = IGMP_GROUP_DELAYING_MEMBER
             then set_nif_group (g\<lparr>group_timer := 0, group_state := IGMP_GROUP_IDLE_MEMBER, last_reporter_flag := 0\<rparr>) n
             else n)
          else n)"

definition igmp_input :: "pbuf \<Rightarrow> netif \<Rightarrow> u32 \<Rightarrow> pool \<Rightarrow> netif \<times> pool" where
  "igmp_input p inp dest pool =
     (if p_len p < IGMP_MINLEN then (inp, pbuf_free p pool)
      else if inet_chksum (seg_payload (p_head p)) (seg_data (p_head p)) \<noteq> 0 then (inp, pbuf_free p pool)
      else (igmp_message inp dest (seg_data (p_head p)), pbuf_free p pool))"

section \<open>Up and down (core/netif.c)\<close>

definition LWIP_NSC_NETIF_ADDED :: u16 where "LWIP_NSC_NETIF_ADDED = 0x0001"
definition LWIP_NSC_LINK_CHANGED :: u16 where "LWIP_NSC_LINK_CHANGED = 0x0004"
definition LWIP_NSC_STATUS_CHANGED :: u16 where "LWIP_NSC_STATUS_CHANGED = 0x0008"
definition LWIP_NSC_IPV4_ADDRESS_CHANGED :: u16 where "LWIP_NSC_IPV4_ADDRESS_CHANGED = 0x0010"
definition LWIP_NSC_IPV4_GATEWAY_CHANGED :: u16 where "LWIP_NSC_IPV4_GATEWAY_CHANGED = 0x0020"
definition LWIP_NSC_IPV4_NETMASK_CHANGED :: u16 where "LWIP_NSC_IPV4_NETMASK_CHANGED = 0x0040"
definition LWIP_NSC_IPV4_SETTINGS_CHANGED :: u16 where "LWIP_NSC_IPV4_SETTINGS_CHANGED = 0x0080"

text \<open>Only with the link and the administrative state up; the report type is always IPv4.\<close>

definition netif_issue_reports :: "netif \<Rightarrow> ltrace \<Rightarrow> netif \<times> ltrace" where
  "netif_issue_reports n w =
     (if \<not> has_flag n NETIF_FLAG_LINK_UP \<or> \<not> has_flag n NETIF_FLAG_UP then (n, w)
      else if ip4_addr_isany_val (nif_ip n) then (n, w)
      else (let w = (if has_flag n NETIF_FLAG_ETHARP then GratuitousArp # w else w)
            in (if has_flag n NETIF_FLAG_IGMP then igmp_report_groups n else n, w)))"

definition netif_set_up :: "netif \<Rightarrow> ltrace \<Rightarrow> netif \<times> ltrace" where
  "netif_set_up n w =
     (if has_flag n NETIF_FLAG_UP then (n, w)
      else netif_issue_reports (netif_set_flags NETIF_FLAG_UP n) (ExtCallback LWIP_NSC_STATUS_CHANGED # w))"

definition netif_set_down :: "netif \<Rightarrow> ltrace \<Rightarrow> netif \<times> ltrace" where
  "netif_set_down n w =
     (if has_flag n NETIF_FLAG_UP then
        (let w = ExtCallback LWIP_NSC_STATUS_CHANGED # w; n = netif_clear_flags NETIF_FLAG_UP n
         in (n, if has_flag n NETIF_FLAG_ETHARP then ArpCleanup # w else w))
      else (n, w))"

definition netif_set_link_up :: "netif \<Rightarrow> ltrace \<Rightarrow> netif \<times> ltrace" where
  "netif_set_link_up n w =
     (if has_flag n NETIF_FLAG_LINK_UP then (n, w)
      else (let (n, w) = netif_issue_reports (netif_set_flags NETIF_FLAG_LINK_UP n) w
            in (n, ExtCallback LWIP_NSC_LINK_CHANGED # w)))"

definition netif_set_link_down :: "netif \<Rightarrow> ltrace \<Rightarrow> netif \<times> ltrace" where
  "netif_set_link_down n w =
     (if has_flag n NETIF_FLAG_LINK_UP
      then (netif_clear_flags NETIF_FLAG_LINK_UP n, ExtCallback LWIP_NSC_LINK_CHANGED # w) else (n, w))"

text \<open>Setting the addresses; the first component says whether there was a change.\<close>

definition netif_do_set_ipaddr :: "u32 \<Rightarrow> netif \<Rightarrow> ltrace \<Rightarrow> bool \<times> netif \<times> ltrace" where
  "netif_do_set_ipaddr ipaddr n w =
     (if ipaddr \<noteq> nif_ip n then (True, netif_issue_reports (n\<lparr>nif_ip := ipaddr\<rparr>) w) else (False, n, w))"

definition netif_do_set_netmask :: "u32 \<Rightarrow> netif \<Rightarrow> bool \<times> netif" where
  "netif_do_set_netmask netmask n = (if netmask \<noteq> nif_netmask n then (True, n\<lparr>nif_netmask := netmask\<rparr>) else (False, n))"

definition netif_do_set_gw :: "u32 \<Rightarrow> netif \<Rightarrow> bool \<times> netif" where
  "netif_do_set_gw gw n = (if gw \<noteq> nif_gw n then (True, n\<lparr>nif_gw := gw\<rparr>) else (False, n))"

definition netif_set_addr :: "u32 \<Rightarrow> u32 \<Rightarrow> u32 \<Rightarrow> netif \<Rightarrow> ltrace \<Rightarrow> netif \<times> ltrace" where
  "netif_set_addr ipaddr netmask gw n w =
     (let rmv = ip4_addr_isany_val ipaddr;
          (c1, n, w) = (if rmv then netif_do_set_ipaddr ipaddr n w else (False, n, w));
          (c2, n) = netif_do_set_netmask netmask n;
          (c3, n) = netif_do_set_gw gw n;
          (c4, n, w) = (if \<not> rmv then netif_do_set_ipaddr ipaddr n w else (False, n, w));
          reason = (if c1 then LWIP_NSC_IPV4_ADDRESS_CHANGED else 0) OR
            (if c2 then LWIP_NSC_IPV4_NETMASK_CHANGED else 0) OR
            (if c3 then LWIP_NSC_IPV4_GATEWAY_CHANGED else 0) OR
            (if c4 then LWIP_NSC_IPV4_ADDRESS_CHANGED else 0)
      in (n, if reason \<noteq> 0 then ExtCallback (reason OR LWIP_NSC_IPV4_SETTINGS_CHANGED) # w else w))"

end
