(* ===== verification/LwipUdp.thy ===== *)
theory LwipUdp
  imports LwipNetif RearNet
begin

text \<open>
  UDP of lwIP (core/udp.c) with the options of the REAR board: the list of control blocks with
  its operations, and the way of a received datagram to a callback. A control block
  is known by \<open>pcb_id\<close>, which stands for its address.
\<close>

section \<open>Control blocks\<close>

definition MEMP_NUM_UDP_PCB :: nat where "MEMP_NUM_UDP_PCB = 4"
definition UDP_TTL :: u8 where "UDP_TTL = 255"
definition UDP_HLEN :: nat where "UDP_HLEN = 8"
definition IP_PROTO_UDP :: u8 where "IP_PROTO_UDP = 17"
definition UDP_FLAGS_CONNECTED :: u8 where "UDP_FLAGS_CONNECTED = 0x04"
definition UDP_LOCAL_PORT_RANGE_START :: u16 where "UDP_LOCAL_PORT_RANGE_START = 0xc000"
definition UDP_LOCAL_PORT_RANGE_END :: u16 where "UDP_LOCAL_PORT_RANGE_END = 0xffff"

record upcb =
  pcb_id :: nat
  pcb_local_ip :: u32
  pcb_remote_ip :: u32
  pcb_netif_idx :: u8
  pcb_so_options :: u8
  pcb_tos :: u8
  pcb_ttl :: u8
  pcb_flags :: u8
  pcb_local_port :: u16
  pcb_remote_port :: u16
  pcb_mcast_ip4 :: u32
  pcb_mcast_ifindex :: u8
  pcb_mcast_ttl :: u8
  pcb_recv :: "udp_handler option"

text \<open>The list of active control blocks, the last local port, the blocks that were allocated but
  not bound, the free elements of the pool and the next identity.\<close>

record udp_stack =
  udp_pcbs :: "upcb list"
  udp_port :: u16
  udp_unbound :: "upcb list"
  udp_free :: nat
  udp_next :: nat

definition udp_stack_0 :: udp_stack where
  "udp_stack_0 = \<lparr>udp_pcbs = [], udp_port = UDP_LOCAL_PORT_RANGE_START, udp_unbound = [],
     udp_free = MEMP_NUM_UDP_PCB, udp_next = 1\<rparr>"

definition new_pcb :: "nat \<Rightarrow> upcb" where
  "new_pcb i = \<lparr>pcb_id = i, pcb_local_ip = 0, pcb_remote_ip = 0, pcb_netif_idx = 0, pcb_so_options = 0, pcb_tos = 0,
     pcb_ttl = UDP_TTL, pcb_flags = 0, pcb_local_port = 0, pcb_remote_port = 0, pcb_mcast_ip4 = 0,
     pcb_mcast_ifindex = 0, pcb_mcast_ttl = UDP_TTL, pcb_recv = None\<rparr>"

definition udp_new :: "udp_stack \<Rightarrow> upcb option \<times> udp_stack" where
  "udp_new u =
     (if udp_free u = 0 then (None, u)
      else (let pcb = new_pcb (udp_next u)
            in (Some pcb, u\<lparr>udp_unbound := pcb # udp_unbound u, udp_free := udp_free u - 1, udp_next := udp_next u + 1\<rparr>)))"

definition udp_new_ip_type :: "udp_stack \<Rightarrow> upcb option \<times> udp_stack" where
  "udp_new_ip_type u = udp_new u"

text \<open>A fresh local port. The counter \<open>n\<close> of the loop ends the search after one turn.\<close>

definition bump_port :: "u16 \<Rightarrow> u16" where
  "bump_port p = (if p = UDP_LOCAL_PORT_RANGE_END then UDP_LOCAL_PORT_RANGE_START else p + 1)"

function udp_new_port_loop :: "upcb list \<Rightarrow> u16 \<Rightarrow> nat \<Rightarrow> u16 option \<times> u16" where
  "udp_new_port_loop pcbs port n =
     (let port = bump_port port
      in if \<exists>pcb \<in> set pcbs. pcb_local_port pcb = port then
           (if unat (UDP_LOCAL_PORT_RANGE_END - UDP_LOCAL_PORT_RANGE_START) < n + 1 then (None, port)
            else udp_new_port_loop pcbs port (n + 1))
         else (Some port, port))"
  by pat_completeness auto
termination
  by (relation "measure (\<lambda>(pcbs, port, n). unat (UDP_LOCAL_PORT_RANGE_END - UDP_LOCAL_PORT_RANGE_START) - n)") auto

definition udp_new_port :: "udp_stack \<Rightarrow> u16 option \<times> udp_stack" where
  "udp_new_port u = (let (r, port) = udp_new_port_loop (udp_pcbs u) (udp_port u) 0 in (r, u\<lparr>udp_port := port\<rparr>))"

datatype udp_err = UdpOk | UdpErrUse

definition find_pcb :: "nat \<Rightarrow> udp_stack \<Rightarrow> upcb option" where
  "find_pcb i u = find (\<lambda>pcb. pcb_id pcb = i) (udp_pcbs u @ udp_unbound u)"

definition set_pcb :: "upcb \<Rightarrow> upcb list \<Rightarrow> upcb list" where
  "set_pcb pcb = map (\<lambda>q. if pcb_id q = pcb_id pcb then pcb else q)"

text \<open>Writing a block through its pointer, and putting it at the front of the list unless it is
  there already.\<close>

definition put_pcb :: "upcb \<Rightarrow> udp_stack \<Rightarrow> udp_stack" where
  "put_pcb pcb u = u\<lparr>udp_pcbs := set_pcb pcb (udp_pcbs u), udp_unbound := set_pcb pcb (udp_unbound u)\<rparr>"

definition on_list :: "upcb \<Rightarrow> udp_stack \<Rightarrow> bool" where
  "on_list pcb u \<longleftrightarrow> (\<exists>ipcb \<in> set (udp_pcbs u). pcb_id ipcb = pcb_id pcb)"

definition list_pcb :: "upcb \<Rightarrow> udp_stack \<Rightarrow> udp_stack" where
  "list_pcb pcb u =
     (if on_list pcb u then u
      else u\<lparr>udp_pcbs := pcb # udp_pcbs u, udp_unbound := filter (\<lambda>q. pcb_id q \<noteq> pcb_id pcb) (udp_unbound u)\<rparr>)"

definition port_taken :: "upcb \<Rightarrow> u32 \<Rightarrow> u16 \<Rightarrow> upcb list \<Rightarrow> bool" where
  "port_taken pcb ipaddr port pcbs \<longleftrightarrow>
     (\<exists>ipcb \<in> set pcbs. pcb_id ipcb \<noteq> pcb_id pcb \<and> pcb_local_port ipcb = port \<and>
        (pcb_local_ip ipcb = ipaddr \<or> ip4_addr_isany_val ipaddr \<or> ip4_addr_isany_val (pcb_local_ip ipcb)))"

text \<open>The result holds the block as it is afterwards.\<close>

definition udp_bind :: "upcb \<Rightarrow> u32 \<Rightarrow> u16 \<Rightarrow> udp_stack \<Rightarrow> udp_err \<times> upcb \<times> udp_stack" where
  "udp_bind pcb ipaddr port u =
     (let (r, u) = (if port = 0 then udp_new_port u
            else (if port_taken pcb ipaddr port (udp_pcbs u) then None else Some port, u))
      in case r of
           None \<Rightarrow> (UdpErrUse, pcb, u)
         | Some port \<Rightarrow>
             (let pcb = pcb\<lparr>pcb_local_ip := ipaddr, pcb_local_port := port\<rparr>
              in (UdpOk, pcb, list_pcb pcb (put_pcb pcb u))))"

definition udp_recv :: "upcb \<Rightarrow> udp_handler \<Rightarrow> udp_stack \<Rightarrow> upcb \<times> udp_stack" where
  "udp_recv pcb h u = (let pcb = pcb\<lparr>pcb_recv := Some h\<rparr> in (pcb, put_pcb pcb u))"

definition udp_connect :: "upcb \<Rightarrow> u32 \<Rightarrow> u16 \<Rightarrow> udp_stack \<Rightarrow> udp_err \<times> upcb \<times> udp_stack" where
  "udp_connect pcb ipaddr port u =
     (let (e, pcb, u) = (if pcb_local_port pcb = 0 then udp_bind pcb (pcb_local_ip pcb) (pcb_local_port pcb) u
            else (UdpOk, pcb, u))
      in if e \<noteq> UdpOk then (e, pcb, u)
         else (let pcb = pcb\<lparr>pcb_remote_ip := ipaddr, pcb_remote_port := port,
                   pcb_flags := pcb_flags pcb OR UDP_FLAGS_CONNECTED\<rparr>
               in (UdpOk, pcb, list_pcb pcb (put_pcb pcb u))))"

definition udp_disconnect :: "upcb \<Rightarrow> udp_stack \<Rightarrow> upcb \<times> udp_stack" where
  "udp_disconnect pcb u =
     (let pcb = pcb\<lparr>pcb_remote_ip := IPADDR_ANY, pcb_remote_port := 0, pcb_netif_idx := NETIF_NO_INDEX,
            pcb_flags := pcb_flags pcb AND NOT UDP_FLAGS_CONNECTED\<rparr>
      in (pcb, put_pcb pcb u))"

definition udp_remove :: "upcb \<Rightarrow> udp_stack \<Rightarrow> udp_stack" where
  "udp_remove pcb u = u\<lparr>udp_pcbs := filter (\<lambda>q. pcb_id q \<noteq> pcb_id pcb) (udp_pcbs u),
     udp_unbound := filter (\<lambda>q. pcb_id q \<noteq> pcb_id pcb) (udp_unbound u), udp_free := udp_free u + 1\<rparr>"

definition udp_netif_ip_addr_changed :: "u32 \<Rightarrow> u32 \<Rightarrow> udp_stack \<Rightarrow> udp_stack" where
  "udp_netif_ip_addr_changed old_addr new_addr u =
     (if \<not> ip4_addr_isany_val old_addr \<and> \<not> ip4_addr_isany_val new_addr
      then u\<lparr>udp_pcbs := map (\<lambda>pcb. if pcb_local_ip pcb = old_addr then pcb\<lparr>pcb_local_ip := new_addr\<rparr> else pcb) (udp_pcbs u)\<rparr>
      else u)"

section \<open>Reception\<close>

text \<open>The circumstances of a received packet, \<open>ip_data\<close> of the code: addresses, the interface it
  was accepted on, the one it came in on, and the length of its IP header.\<close>

record ip_current =
  cur_src :: u32
  cur_dest :: u32
  cur_netif :: netif
  cur_inp :: netif
  cur_hlen :: nat

definition udp_input_local_match :: "upcb \<Rightarrow> ip_current \<Rightarrow> bool \<Rightarrow> bool" where
  "udp_input_local_match pcb c broadcast =
     (if pcb_netif_idx pcb \<noteq> NETIF_NO_INDEX \<and> pcb_netif_idx pcb \<noteq> netif_get_index (cur_inp c) then False
      else if broadcast then
        ip4_addr_isany_val (pcb_local_ip pcb) \<or> cur_dest c = IPADDR_BROADCAST \<or>
        ip4_addr_netcmp (pcb_local_ip pcb) (cur_dest c) (nif_netmask (cur_inp c))
      else ip4_addr_isany_val (pcb_local_ip pcb) \<or> pcb_local_ip pcb = cur_dest c)"

text \<open>Which unconnected block gets the datagram when no block matches fully.\<close>

definition better_uncon :: "ip_current \<Rightarrow> bool \<Rightarrow> upcb \<Rightarrow> upcb option \<Rightarrow> upcb option" where
  "better_uncon c broadcast pcb uncon =
     (if pcb_flags pcb AND UDP_FLAGS_CONNECTED \<noteq> 0 then uncon
      else case uncon of
        None \<Rightarrow> Some pcb
      | Some q \<Rightarrow>
          if broadcast \<and> cur_dest c = IPADDR_BROADCAST \<and> pcb_local_ip q \<noteq> nif_ip (cur_inp c) \<and>
             pcb_local_ip pcb = nif_ip (cur_inp c)
          then Some pcb else Some q)"

definition remote_match :: "upcb \<Rightarrow> ip_current \<Rightarrow> u16 \<Rightarrow> bool" where
  "remote_match pcb c src \<longleftrightarrow>
     pcb_remote_port pcb = src \<and> (ip4_addr_isany_val (pcb_remote_ip pcb) \<or> pcb_remote_ip pcb = cur_src c)"

text \<open>The search: the number of blocks before the first full match, if there is one, and the
  unconnected candidate.\<close>

fun udp_scan ::
    "ip_current \<Rightarrow> bool \<Rightarrow> u16 \<Rightarrow> u16 \<Rightarrow> upcb list \<Rightarrow> nat \<Rightarrow> upcb option \<Rightarrow> (nat \<times> upcb) option \<times> upcb option" where
  "udp_scan c broadcast src dest [] i uncon = (None, uncon)"
| "udp_scan c broadcast src dest (pcb # pcbs) i uncon =
     (if pcb_local_port pcb = dest \<and> udp_input_local_match pcb c broadcast then
        (let uncon = better_uncon c broadcast pcb uncon
         in if remote_match pcb c src then (Some (i, pcb), uncon)
            else udp_scan c broadcast src dest pcbs (i + 1) uncon)
      else udp_scan c broadcast src dest pcbs (i + 1) uncon)"

text \<open>A fully matching block moves to the front.\<close>

definition move_front :: "nat \<Rightarrow> upcb list \<Rightarrow> upcb list" where
  "move_front i pcbs = (if i = 0 then pcbs else pcbs ! i # take i pcbs @ drop (i + 1) pcbs)"

definition udp_demux ::
    "ip_current \<Rightarrow> bool \<Rightarrow> u16 \<Rightarrow> u16 \<Rightarrow> upcb list \<Rightarrow> upcb option \<times> upcb list" where
  "udp_demux c broadcast src dest pcbs =
     (case udp_scan c broadcast src dest pcbs 0 None of
        (Some (i, pcb), _) \<Rightarrow> (Some pcb, move_front i pcbs)
      | (None, uncon) \<Rightarrow> (uncon, pcbs))"

text \<open>What becomes of a datagram. \<open>UdpDeliver\<close> hands it to the callback; \<open>UdpUnreach\<close> hands it,
  with its headers again, to \<open>icmp_port_unreach\<close> and frees it afterwards; otherwise it is freed.\<close>

datatype udp_fate =
    UdpShort
  | UdpChkErr
  | UdpDeliver upcb udp_handler pbuf u32 u16
  | UdpNoRecv
  | UdpUnreach pbuf
  | UdpNoPort
  | UdpNotForUs

definition udp_chksum_ok :: "pbuf \<Rightarrow> ip_current \<Rightarrow> bool" where
  "udp_chksum_ok p c \<longleftrightarrow> at16 (seg_data (p_head p)) 6 = 0 \<or>
     ip_chksum_pseudo p IP_PROTO_UDP (of_nat (p_tot_len p)) (cur_src c) (cur_dest c) = 0"

definition udp_input :: "pbuf \<Rightarrow> ip_current \<Rightarrow> udp_stack \<Rightarrow> udp_fate \<times> udp_stack" where
  "udp_input p c u =
     (if p_len p < UDP_HLEN then (UdpShort, u)
      else (let hdr = seg_data (p_head p);
                broadcast = ip4_addr_isbroadcast_u32 (cur_dest c) (cur_netif c);
                src = lwip_ntohs (at16 hdr 0);
                dest = lwip_ntohs (at16 hdr 2);
                (pcb, pcbs) = udp_demux c broadcast src dest (udp_pcbs u);
                u = u\<lparr>udp_pcbs := pcbs\<rparr>;
                for_us = pcb \<noteq> None \<or> nif_ip (cur_inp c) = cur_dest c
            in if \<not> for_us then (UdpNotForUs, u)
               else if \<not> udp_chksum_ok p c then (UdpChkErr, u)
               else (let (_, p) = pbuf_remove_header p UDP_HLEN
                     in case pcb of
                          Some pcb \<Rightarrow>
                            (case pcb_recv pcb of
                               Some h \<Rightarrow> (UdpDeliver pcb h p (cur_src c) src, u)
                             | None \<Rightarrow> (UdpNoRecv, u))
                        | None \<Rightarrow>
                            if \<not> broadcast \<and> \<not> ip4_addr_ismulticast (cur_dest c)
                            then (UdpUnreach (snd (pbuf_header_force p (int (cur_hlen c + UDP_HLEN)))), u)
                            else (UdpNoPort, u))))"

text \<open>The end of the buffer's life. The callbacks of the board free it themselves.\<close>

definition udp_release :: "pbuf \<Rightarrow> udp_fate \<Rightarrow> pool \<Rightarrow> pool" where
  "udp_release p fate pool =
     (case fate of UdpDeliver _ _ q _ _ \<Rightarrow> pbuf_free q pool | UdpUnreach q \<Rightarrow> pbuf_free q pool | _ \<Rightarrow> pbuf_free p pool)"

end
