(* ===== verification/LwipIp4.thy ===== *)
theory LwipIp4
  imports LwipUdp
begin

text \<open>
  Reception of IPv4 packets (core/ipv4/ip4.c) and of Ethernet frames (netif/ethernet.c) with the
  options of the REAR board: no forwarding, no raw sockets, IP options accepted, reassembly,
  IGMP and ICMP built in.
\<close>

section \<open>The header\<close>

definition IP_HLEN :: nat where "IP_HLEN = 20"
definition IP_PROTO_ICMP :: u8 where "IP_PROTO_ICMP = 1"
definition IP_PROTO_TCP :: u8 where "IP_PROTO_TCP = 6"
definition IP_MF :: u16 where "IP_MF = 0x2000"
definition IP_OFFMASK :: u16 where "IP_OFFMASK = 0x1fff"

definition IPH_V :: "u8 \<Rightarrow> u8" where "IPH_V v_hl = drop_bit 4 v_hl"
definition IPH_HL_BYTES :: "u8 \<Rightarrow> nat" where "IPH_HL_BYTES v_hl = unat ((v_hl AND 0x0f) * 4)"
definition IPH_LEN :: "u8 list \<Rightarrow> u16" where "IPH_LEN hdr = at16 hdr 2"
definition IPH_OFFSET :: "u8 list \<Rightarrow> u16" where "IPH_OFFSET hdr = at16 hdr 6"
definition IPH_PROTO :: "u8 list \<Rightarrow> u8" where "IPH_PROTO hdr = hdr ! 9"
definition IPH_SRC :: "u8 list \<Rightarrow> u32" where "IPH_SRC hdr = at32 hdr 12"
definition IPH_DEST :: "u8 list \<Rightarrow> u32" where "IPH_DEST hdr = at32 hdr 16"

section \<open>State\<close>

text \<open>The stack: the pool of buffers, the interfaces, the default one (by number), UDP.\<close>

record lwip =
  lw_pool :: pool
  lw_netifs :: "netif list"
  lw_default :: "u8 option"
  lw_udp :: udp_stack

text \<open>What becomes of a packet. A dropped packet is freed with the reason given; the others are
  handed to a module of the stack, together with the current addresses and interfaces. After an
  answer with an ICMP message (\<open>IpProtoUnreach\<close>) the packet is freed too.\<close>

datatype ip_drop = BadVersion | BadLength | BadChecksum | BadSource | NotForUs

datatype ip_fate =
    IpDrop ip_drop
  | IpReass pbuf
  | IpUdp udp_fate
  | IpTcp pbuf ip_current
  | IpIcmp pbuf ip_current
  | IpIgmp
  | IpProtoUnreach "pbuf option"

definition ip4_input_accept :: "u32 \<Rightarrow> netif \<Rightarrow> bool" where
  "ip4_input_accept dest n \<longleftrightarrow>
     netif_is_up n \<and> \<not> ip4_addr_isany_val (nif_ip n) \<and> (dest = nif_ip n \<or> ip4_addr_isbroadcast_u32 dest n)"

text \<open>The interface a packet is for: the one it came in on, or another one.\<close>

definition ip4_match_netif :: "u32 \<Rightarrow> netif \<Rightarrow> netif list \<Rightarrow> netif option" where
  "ip4_match_netif dest inp netifs =
     (if ip4_addr_ismulticast dest then
        (if has_flag inp NETIF_FLAG_IGMP \<and> igmp_lookfor_group (nif_igmp inp) dest \<noteq> None then Some inp else None)
      else if ip4_input_accept dest inp then Some inp
      else if ip4_addr_isloopback dest then None
      else find (\<lambda>n. nif_num n \<noteq> nif_num inp \<and> ip4_input_accept dest n) netifs)"

text \<open>The source is not checked for a packet of the all-systems group from 0.0.0.0.\<close>

definition ip4_check_src :: "u32 \<Rightarrow> u32 \<Rightarrow> netif \<Rightarrow> bool" where
  "ip4_check_src src dest inp \<longleftrightarrow>
     \<not> (ip4_addr_ismulticast dest \<and> has_flag inp NETIF_FLAG_IGMP \<and>
        igmp_lookfor_group (nif_igmp inp) dest \<noteq> None \<and> dest = allsystems \<and> ip4_addr_isany_val src)"

definition set_netif :: "netif \<Rightarrow> netif list \<Rightarrow> netif list" where
  "set_netif n = map (\<lambda>m. if nif_num m = nif_num n then n else m)"

text \<open>The last part, with a whole packet: hand the payload on by protocol.\<close>

definition ip4_deliver :: "pbuf \<Rightarrow> nat \<Rightarrow> netif \<Rightarrow> netif \<Rightarrow> u32 \<Rightarrow> u32 \<Rightarrow> lwip \<Rightarrow> ip_fate \<times> lwip" where
  "ip4_deliver p iphdr_hlen n inp src dest s =
     (let hdr = seg_data (p_head p);
          c = \<lparr>cur_src = src, cur_dest = dest, cur_netif = n, cur_inp = inp, cur_hlen = IPH_HL_BYTES (hdr ! 0)\<rparr>;
          (_, p) = pbuf_remove_header p iphdr_hlen;
          proto = IPH_PROTO hdr
      in if proto = IP_PROTO_UDP then
           (let (fate, u) = udp_input p c (lw_udp s)
            in (IpUdp fate, s\<lparr>lw_udp := u, lw_pool := udp_release p fate (lw_pool s)\<rparr>))
         else if proto = IP_PROTO_TCP then (IpTcp p c, s)
         else if proto = IP_PROTO_ICMP then (IpIcmp p c, s)
         else if proto = IP_PROTO_IGMP then
           (let (inp, pool) = igmp_input p inp dest (lw_pool s)
            in (IpIgmp, s\<lparr>lw_netifs := set_netif inp (lw_netifs s), lw_pool := pool\<rparr>))
         else if \<not> ip4_addr_isbroadcast_u32 dest n \<and> \<not> ip4_addr_ismulticast dest then
           (let (_, p) = pbuf_header_force p (int iphdr_hlen)
            in (IpProtoUnreach (Some p), s\<lparr>lw_pool := pbuf_free p (lw_pool s)\<rparr>))
         else (IpProtoUnreach None, s\<lparr>lw_pool := pbuf_free p (lw_pool s)\<rparr>))"

definition ip4_drop :: "ip_drop \<Rightarrow> pbuf \<Rightarrow> lwip \<Rightarrow> ip_fate \<times> lwip" where
  "ip4_drop why p s = (IpDrop why, s\<lparr>lw_pool := pbuf_free p (lw_pool s)\<rparr>)"

text \<open>The version and the length are read before anything is known about the length of the
  packet, so from the memory of the buffer; \<open>None\<close> stands for a read outside of it.\<close>

definition ip4_input :: "pbuf \<Rightarrow> netif \<Rightarrow> lwip \<Rightarrow> (ip_fate \<times> lwip) option" where
  "ip4_input p inp s =
     (let hdr = seg_from (p_head p)
      in if length hdr < 4 then None
         else if IPH_V (hdr ! 0) \<noteq> 4 then Some (ip4_drop BadVersion p s)
         else (let iphdr_hlen = IPH_HL_BYTES (hdr ! 0);
                   iphdr_len = unat (lwip_ntohs (IPH_LEN hdr));
                   (p, pool) = (if iphdr_len < p_tot_len p then pbuf_realloc p iphdr_len (lw_pool s) else (p, lw_pool s));
                   s = s\<lparr>lw_pool := pool\<rparr>
               in if p_len p < iphdr_hlen \<or> p_tot_len p < iphdr_len \<or> iphdr_hlen < IP_HLEN
                  then Some (ip4_drop BadLength p s)
                  else if inet_chksum (seg_payload (p_head p)) (take iphdr_hlen (seg_data (p_head p))) \<noteq> 0
                  then Some (ip4_drop BadChecksum p s)
                  else (let src = IPH_SRC hdr; dest = IPH_DEST hdr; n = ip4_match_netif dest inp (lw_netifs s)
                        in if ip4_check_src src dest inp \<and> (ip4_addr_isbroadcast_u32 src inp \<or> ip4_addr_ismulticast src)
                           then Some (ip4_drop BadSource p s)
                           else case n of
                              None \<Rightarrow> Some (ip4_drop NotForUs p s)
                            | Some n \<Rightarrow>
                                if IPH_OFFSET hdr AND lwip_htons (IP_OFFMASK OR IP_MF) \<noteq> 0 then Some (IpReass p, s)
                                else Some (ip4_deliver p iphdr_hlen n inp src dest s))))"

section \<open>Ethernet\<close>

definition SIZEOF_ETH_HDR :: nat where "SIZEOF_ETH_HDR = 14 + ETH_PAD_SIZE"
definition ETH_HWADDR_LEN :: nat where "ETH_HWADDR_LEN = 6"
definition ETHTYPE_IP :: u16 where "ETHTYPE_IP = 0x0800"
definition ETHTYPE_ARP :: u16 where "ETHTYPE_ARP = 0x0806"
definition LL_IP4_MULTICAST_ADDR_0 :: u8 where "LL_IP4_MULTICAST_ADDR_0 = 0x01"
definition LL_IP4_MULTICAST_ADDR_1 :: u8 where "LL_IP4_MULTICAST_ADDR_1 = 0x00"
definition LL_IP4_MULTICAST_ADDR_2 :: u8 where "LL_IP4_MULTICAST_ADDR_2 = 0x5e"
definition ethbroadcast :: "u8 list" where "ethbroadcast = [0xff, 0xff, 0xff, 0xff, 0xff, 0xff]"

text \<open>Fields of \<open>struct eth_hdr\<close>, which starts with the padding.\<close>

definition eth_dest :: "u8 list \<Rightarrow> u8 list" where "eth_dest hdr = take 6 (drop ETH_PAD_SIZE hdr)"
definition eth_src :: "u8 list \<Rightarrow> u8 list" where "eth_src hdr = take 6 (drop (ETH_PAD_SIZE + 6) hdr)"
definition eth_type :: "u8 list \<Rightarrow> u16" where "eth_type hdr = at16 hdr (ETH_PAD_SIZE + 12)"

definition eth_flags :: "u8 list \<Rightarrow> u8 \<Rightarrow> u8" where
  "eth_flags dest flags =
     (if dest ! 0 AND 1 \<noteq> 0 then
        (if dest ! 0 = LL_IP4_MULTICAST_ADDR_0 then
           (if dest ! 1 = LL_IP4_MULTICAST_ADDR_1 \<and> dest ! 2 = LL_IP4_MULTICAST_ADDR_2
            then flags OR PBUF_FLAG_LLMCAST else flags)
         else if dest = ethbroadcast then flags OR PBUF_FLAG_LLBCAST else flags)
      else flags)"

datatype eth_fate = EthDrop | EthArp pbuf | EthIp ip_fate

definition eth_drop :: "pbuf \<Rightarrow> lwip \<Rightarrow> eth_fate \<times> lwip" where
  "eth_drop p s = (EthDrop, s\<lparr>lw_pool := pbuf_free p (lw_pool s)\<rparr>)"

definition ethernet_input :: "pbuf \<Rightarrow> netif \<Rightarrow> lwip \<Rightarrow> (eth_fate \<times> lwip) option" where
  "ethernet_input p inp s =
     (if p_len p \<le> SIZEOF_ETH_HDR then Some (eth_drop p s)
      else (let p = (if p_if_idx p = NETIF_NO_INDEX then p\<lparr>p_if_idx := netif_get_index inp\<rparr> else p);
                hdr = seg_data (p_head p);
                p = p\<lparr>p_flags := eth_flags (eth_dest hdr) (p_flags p)\<rparr>;
                ethtype = eth_type hdr
            in if ethtype = lwip_htons ETHTYPE_IP then
                 (if \<not> has_flag inp NETIF_FLAG_ETHARP then Some (eth_drop p s)
                  else (let (failed, p) = pbuf_remove_header p SIZEOF_ETH_HDR
                        in if failed \<noteq> 0 then Some (eth_drop p s)
                           else map_option (\<lambda>(fate, s). (EthIp fate, s)) (ip4_input p inp s)))
               else if ethtype = lwip_htons ETHTYPE_ARP then
                 (if \<not> has_flag inp NETIF_FLAG_ETHARP then Some (eth_drop p s)
                  else (let (failed, p) = pbuf_remove_header p SIZEOF_ETH_HDR
                        in Some (if failed \<noteq> 0 then eth_drop p s else (EthArp p, s))))
               else Some (eth_drop p s)))"

text \<open>Sending: the header is put in front and the frame goes to the driver. \<open>None\<close> is ERR_BUF.\<close>

definition put_eth_hdr :: "u8 list \<Rightarrow> u8 list \<Rightarrow> u16 \<Rightarrow> u8 list \<Rightarrow> u8 list" where
  "put_eth_hdr src dst ethtype bytes =
     take ETH_PAD_SIZE bytes @ take ETH_HWADDR_LEN dst @ take ETH_HWADDR_LEN src @ store16 (lwip_htons ethtype) @
     drop SIZEOF_ETH_HDR bytes"

definition ethernet_output :: "pbuf \<Rightarrow> u8 list \<Rightarrow> u8 list \<Rightarrow> u16 \<Rightarrow> pbuf option" where
  "ethernet_output p src dst ethtype =
     (let (failed, p) = pbuf_add_header p SIZEOF_ETH_HDR
      in if failed \<noteq> 0 then None
         else (let h = p_head p in Some (p\<lparr>p_head := h\<lparr>seg_data := put_eth_hdr src dst ethtype (seg_data h)\<rparr>\<rparr>)))"

end
