(* ===== verification/LwipPort.thy ===== *)
theory LwipPort
  imports LwipIp4
begin

text \<open>
  The port of lwIP to the REAR board: the driver side of the interface
  (Ethernet/lwip/port/src/netif.c), and its set-up with
  the addresses of the board (Ifx\_Lwip.c, core/netif.c, udp\_txrx.c) as it changes the state of the
  stack. The DMA ring shows the software one descriptor at a time; the list holds the frames
  that are ready, the current one first.
\<close>

section \<open>Receiving a frame\<close>

text \<open>The status words of a descriptor and its buffer.\<close>

record rx_desc =
  RDES1 :: u32
  RDES3 :: u32
  rx_buf :: "u8 list"

definition GetRxFrameSize :: "rx_desc \<Rightarrow> u16" where
  "GetRxFrameSize descr =
     (let rdes3 = RDES3 descr; rdes1 = RDES1 descr
      in if rdes3 AND push_bit 15 1 \<noteq> 0 \<or> rdes1 AND push_bit 7 1 \<noteq> 0 \<or> rdes3 AND push_bit 28 1 = 0
         then 0xFFFF else ucast ((rdes3 AND 0x7FFF) - 4))"

text \<open>Copying into the segments one after the other; \<open>None\<close> when the source is too short.\<close>

fun fill_segs :: "seg list \<Rightarrow> u8 list \<Rightarrow> seg list option" where
  "fill_segs [] src = Some []"
| "fill_segs (q # qs) src =
     (if length src < seg_len q then None
      else map_option ((#) (q\<lparr>seg_data := take (seg_len q) src\<rparr>)) (fill_segs qs (drop (seg_len q) src)))"

text \<open>The result holds the new buffer, if there is one, and the ring and the pool afterwards. The
  frame is given back to the DMA only when it was copied. \<open>None\<close> stands for a read behind the
  receive buffer.\<close>

definition low_level_input :: "rx_desc list \<Rightarrow> pool \<Rightarrow> (pbuf option \<times> rx_desc list \<times> pool) option" where
  "low_level_input ring pool =
     (let len = (case ring of [] \<Rightarrow> 0 | d # _ \<Rightarrow> GetRxFrameSize d)
      in if len = 0 then Some (None, ring, pool)
         else (let len = len + of_nat ETH_PAD_SIZE;
                   (r, pool) = pbuf_alloc_pool PBUF_RAW (unat len) pool
               in case r of
                    None \<Rightarrow> Some (None, ring, pool)
                  | Some p \<Rightarrow>
                      (let (_, p) = pbuf_header p (- int ETH_PAD_SIZE)
                       in case fill_segs (p_segs p) (rx_buf (hd ring)) of
                            Some (q # qs) \<Rightarrow>
                              (let (_, p) = pbuf_header (p\<lparr>p_head := q, p_next := qs\<rparr>) (int ETH_PAD_SIZE)
                               in Some (Some p, tl ring, pool))
                          | _ \<Rightarrow> None)))"

text \<open>The type is read from where it would be in a frame with a whole header.\<close>

definition ifx_netif_input :: "netif \<Rightarrow> rx_desc list \<Rightarrow> lwip \<Rightarrow> (eth_fate option \<times> rx_desc list \<times> lwip) option" where
  "ifx_netif_input n ring s = do {
     (r, ring, pool) \<leftarrow> low_level_input ring (lw_pool s);
     let s = s\<lparr>lw_pool := pool\<rparr>;
     (case r of
        None \<Rightarrow> Some (None, ring, s)
      | Some p \<Rightarrow>
          (let hdr = seg_from (p_head p)
           in if length hdr < SIZEOF_ETH_HDR then None
              else (let ethtype = lwip_htons (eth_type hdr)
                    in if ethtype = ETHTYPE_IP \<or> ethtype = ETHTYPE_ARP
                       then map_option (\<lambda>(fate, s). (Some fate, ring, s)) (ethernet_input p n s)
                       else Some (Some EthDrop, ring, s\<lparr>lw_pool := pbuf_free p (lw_pool s)\<rparr>)))) }"

section \<open>Sending a frame\<close>

text \<open>The frame that is handed to the MAC, given what the transmit buffer holds, and the chain
  afterwards. A chain whose head refers to foreign memory is not copied.\<close>

definition low_level_output :: "pbuf \<Rightarrow> u8 list \<Rightarrow> u8 list \<times> pbuf" where
  "low_level_output p tbuf =
     (let (_, p) = pbuf_header p (- int ETH_PAD_SIZE);
          frame = (if seg_type (p_head p) = PBUF_REF \<or> seg_type (p_head p) = PBUF_ROM
                   then take (p_tot_len p) tbuf else p_bytes p);
          (_, p) = pbuf_header p (int ETH_PAD_SIZE)
      in (frame, p))"

section \<open>The interface of the board\<close>

text \<open>The hardware side of \<open>low_level_init\<close> as driver calls; the MAC address goes to the MAC, and
  speed and duplex mode follow the status the PHY interface reports.\<close>

definition low_level_init_link :: "rear_hw \<Rightarrow> rtrace \<Rightarrow> bool \<times> rtrace" where
  "low_level_init_link E w =
     (let (sts, w) = reg_read E ''GETH_MAC_PHYIF_CONTROL_STATUS.LNKSTS'' w
      in if sts \<noteq> 1 then (False, w)
         else (let (md, w) = reg_read E ''GETH_MAC_PHYIF_CONTROL_STATUS.LNKMOD'' w;
                   w = Call ''IfxGeth_mac_setDuplexMode'' [if md = 1 then 1 else 0] # w;
                   (speed, w) = reg_read E ''GETH_MAC_PHYIF_CONTROL_STATUS.LNKSPEED'' w
               in if speed = 0 then (True, Call ''IfxGeth_mac_setLineSpeed'' [10] # w)
                  else (let (speed, w) = reg_read E ''GETH_MAC_PHYIF_CONTROL_STATUS.LNKSPEED'' w
                        in (True, Call ''IfxGeth_mac_setLineSpeed'' [if speed = 1 then 100 else 1000] # w))))"

text \<open>The configuration of the MAC: what is assigned to the fields of \<open>GethConfig\<close>, in order. The constants
  of the driver's headers and the addresses of its lists are symbolic.\<close>

definition IFXGETH_MAX_RX_BUFFER_SIZE :: nat where "IFXGETH_MAX_RX_BUFFER_SIZE = 2560 + IFXGETH_HEADER_LENGTH + 2"

definition geth_config :: "rear_hw \<Rightarrow> u8 list \<Rightarrow> (string \<times> u32) list" where
  "geth_config E mac =
     [(''phyInterfaceMode'', reg_bits E ''IfxGeth_PhyInterfaceMode_rmii''),
      (''pins.rmiiPins'', reg_bits E ''rmii_pins''),
      (''mac.lineSpeed'', reg_bits E ''IfxGeth_LineSpeed_100Mbps''),
      (''mac.loopbackMode'', reg_bits E ''IfxGeth_LoopbackMode_disable''),
      (''mac.macAddress[0]'', ucast (mac ! 0)), (''mac.macAddress[1]'', ucast (mac ! 1)),
      (''mac.macAddress[2]'', ucast (mac ! 2)), (''mac.macAddress[3]'', ucast (mac ! 3)),
      (''mac.macAddress[4]'', ucast (mac ! 4)), (''mac.macAddress[5]'', ucast (mac ! 5)),
      (''mtl.numOfTxQueues'', 1), (''mtl.numOfRxQueues'', 1),
      (''mtl.txQueue[0].txQueueSize'', reg_bits E ''IfxGeth_QueueSize_2560Bytes''), (''mtl.txQueue[0].storeAndForward'', 1),
      (''mtl.rxQueue[0].rxQueueSize'', reg_bits E ''IfxGeth_QueueSize_2560Bytes''),
      (''mtl.rxQueue[0].rxDmaChannelMap'', reg_bits E ''IfxGeth_RxDmaChannel_0''), (''mtl.rxQueue[0].storeAndForward'', 1),
      (''dma.numOfTxChannels'', 1), (''dma.numOfRxChannels'', 1),
      (''dma.txChannel[0].channelId'', reg_bits E ''IfxGeth_TxDmaChannel_0''),
      (''dma.txChannel[0].txDescrList'', reg_bits E ''IfxGeth_Eth_txDescrList''),
      (''dma.txChannel[0].txBuffer1StartAddress'', reg_bits E ''channel0TxBuffer1''),
      (''dma.txChannel[0].txBuffer1Size'', of_nat IFXGETH_MAX_TX_BUFFER_SIZE),
      (''dma.rxChannel[0].channelId'', reg_bits E ''IfxGeth_RxDmaChannel_0''),
      (''dma.rxChannel[0].rxDescrList'', reg_bits E ''IfxGeth_Eth_rxDescrList''),
      (''dma.rxChannel[0].rxBuffer1StartAddress'', reg_bits E ''channel0RxBuffer1''),
      (''dma.rxChannel[0].rxBuffer1Size'', of_nat IFXGETH_MAX_RX_BUFFER_SIZE),
      (''dma.txInterrupt[0].channelId'', reg_bits E ''IfxGeth_DmaChannel_0''), (''dma.txInterrupt[0].priority'', 100),
      (''dma.txInterrupt[0].provider'', 0),
      (''dma.rxInterrupt[0].channelId'', reg_bits E ''IfxGeth_DmaChannel_0''), (''dma.rxInterrupt[0].priority'', 101),
      (''dma.rxInterrupt[0].provider'', 0)]"

definition low_level_init :: "rear_hw \<Rightarrow> u8 list \<Rightarrow> netif \<Rightarrow> rtrace \<Rightarrow> netif \<times> rtrace" where
  "low_level_init E eth_addr n w =
     (let n = n\<lparr>nif_hwaddr := take 6 eth_addr, nif_mtu := 1500, nif_flags := NETIF_FLAG_BROADCAST OR NETIF_FLAG_ETHARP\<rparr>;
          w = Call ''IfxGeth_Eth_initModuleConfig'' [] # w;
          w = fold (\<lambda>(field, v). (#) (WriteReg (''GethConfig.'' @ field) v)) (geth_config E (nif_hwaddr n)) w;
          w = Call ''IfxGeth_Eth_initModule'' [] # w;
          w = Call ''IfxPort_setPinModeOutput(ETH_MDC)'' [] # w;
          w = WriteReg ''GETH_GPCTL.ALTI0'' (reg_bits E ''ETH_MDIO_PIN.inSelect'') # w;
          w = Call ''IfxGeth_Eth_Phy_Dp83825i_init'' [] # w;
          w = Call ''IfxGeth_Eth_startTransmitters'' [1] # w;
          w = Call ''IfxGeth_Eth_startReceivers'' [1] # w;
          (link, w) = low_level_init_link E w
      in (if link then netif_set_flags NETIF_FLAG_LINK_UP n else n, w))"

definition ifx_netif_init :: "rear_hw \<Rightarrow> u8 list \<Rightarrow> netif \<Rightarrow> rtrace \<Rightarrow> (netif \<times> rtrace) option" where
  "ifx_netif_init E eth_addr n w =
     (let (g, w) = call_drv E ''IfxGeth_get'' [] w
      in if g = 0 then None else Some (low_level_init E eth_addr n w))"

text \<open>A number no other interface has; every restart of the scan has passed one more interface,
  and there are at most 255.\<close>

definition bump_num :: "u8 \<Rightarrow> u8" where "bump_num i = (if i = 255 then 0 else i)"

fun pick_num :: "nat \<Rightarrow> u8 list \<Rightarrow> u8 \<Rightarrow> u8 option" where
  "pick_num 0 used i = None"
| "pick_num (Suc fuel) used i =
     (let i = bump_num i in if i \<in> set used then pick_num fuel used (i + 1) else Some i)"

definition blank_netif :: "u8 \<Rightarrow> netif" where
  "blank_netif i = \<lparr>nif_ip = 0, nif_netmask = 0, nif_gw = 0, nif_mtu = 0, nif_flags = 0, nif_hwaddr = [],
     nif_num = i, nif_igmp = [], nif_mac_filter = False\<rparr>"

text \<open>\<open>netif_add\<close> with the port's initialisation; \<open>netif_num\<close> is the next number to try. IGMP is
  not started here because the driver does not set the flag.\<close>

definition netif_add ::
    "rear_hw \<Rightarrow> u8 list \<Rightarrow> u32 \<Rightarrow> u32 \<Rightarrow> u32 \<Rightarrow> netif list \<Rightarrow> u8 \<Rightarrow> ltrace \<Rightarrow> rtrace \<Rightarrow>
     (netif \<times> netif list \<times> u8 \<times> ltrace \<times> rtrace) option" where
  "netif_add E eth_addr ipaddr netmask gw netifs netif_num w rw =
     (let n = blank_netif netif_num;
          (n, w) = netif_set_addr ipaddr netmask gw n w
      in do {
        (n, rw) \<leftarrow> ifx_netif_init E eth_addr n rw;
        i \<leftarrow> pick_num 257 (map nif_num netifs) (nif_num n);
        let n = n\<lparr>nif_num := i\<rparr>;
        Some (n, n # netifs, if i = 254 then 0 else i + 1, ExtCallback LWIP_NSC_NETIF_ADDED # w, rw) })"

section \<open>Start of the stack on the board\<close>

definition fresh_pool :: "pool \<Rightarrow> lwip" where
  "fresh_pool pool = \<lparr>lw_pool = pool, lw_netifs = [], lw_default = None, lw_udp = udp_stack_0\<rparr>"

text \<open>The state of the stack after \<open>Ifx_Lwip_init\<close>, with the groups that are left in the pool, and
  whether the group was joined.\<close>

definition Ifx_Lwip_init_stack ::
    "rear_hw \<Rightarrow> lwip_env \<Rightarrow> pool \<Rightarrow> u8 list \<Rightarrow> rtrace \<Rightarrow> (igmp_err \<times> lwip \<times> nat \<times> ltrace \<times> rtrace) option" where
  "Ifx_Lwip_init_stack E L pool ethAddr rw = do {
     let default_gw = IP4_ADDR 192 168 10 1;
     let default_ipaddr = IP4_ADDR 192 168 10 12;
     let default_netmask = IP4_ADDR 255 255 255 0;
     let s = fresh_pool pool;
     (n, _, _, w, rw) \<leftarrow> netif_add E ethAddr default_ipaddr default_netmask default_gw (lw_netifs s) 0 [] rw;
     let n = netif_set_flags NETIF_FLAG_IGMP n;
     let (_, n, free, w) = igmp_start n MEMP_NUM_IGMP_GROUP w;
     let (n, w) = netif_set_up n w;
     let mc_addr = IP4_ADDR 224 224 224 245;
     let (err, netifs, free, w) = igmp_joingroup L [n] free default_ipaddr mc_addr w;
     Some (err, s\<lparr>lw_netifs := netifs, lw_default := Some (nif_num n)\<rparr>, free, w, rw) }"

text \<open>\<open>UdpInit\<close> on the modelled UDP: the state that the application keeps and the stack.\<close>

definition open_port_stack :: "u16 \<Rightarrow> udp_handler \<Rightarrow> udp_stack \<Rightarrow> udp_pcb option \<times> udp_stack" where
  "open_port_stack port h u =
     (case udp_new_ip_type u of
        (None, u) \<Rightarrow> (None, u)
      | (Some pcb, u) \<Rightarrow>
          (case udp_bind pcb IPADDR_ANY port u of
             (UdpOk, pcb, u) \<Rightarrow> (Some (Some (port, h)), snd (udp_recv pcb h u))
           | (_, _, u) \<Rightarrow> (Some None, u)))"

definition UdpInit_stack :: "net_state \<Rightarrow> udp_stack \<Rightarrow> net_state \<times> udp_stack" where
  "UdpInit_stack n u =
     (let (pcb, u) = udp_new_ip_type u;
          n = n\<lparr>udp_send_pcb := (pcb \<noteq> None), pcip := [192, 168, 10, 1]\<rparr>;
          (ctr, u) = open_port_stack CTR_PORT AccRecv u;
          (hpvc, u) = open_port_stack HPVC_REAR_COMMAND_PORT AccRecv u;
          (doip, u) = open_port_stack DOIP_PORT DropRecv u;
          (someip, u) = open_port_stack SOMEIP_PORT DropRecv u
      in (n\<lparr>udp_ctr_pcb := ctr, udp_hpvcrear_pcb := hpvc, udp_doip_pcb := doip, udp_someip_pcb := someip\<rparr>, u))"

section \<open>A frame reaches the application\<close>

text \<open>The callbacks: the command receiver and the one that drops.\<close>

definition ip4_of :: "u32 \<Rightarrow> ip4" where "ip4_of a = store32 a"

definition run_callback ::
    "u8 list \<Rightarrow> udp_handler \<Rightarrow> pbuf \<Rightarrow> u32 \<Rightarrow> net_state \<Rightarrow> lmu \<Rightarrow> (net_state \<times> lmu) option" where
  "run_callback stack h p addr n m =
     (case h of
        AccRecv \<Rightarrow> udp_receive_acc_recv stack (Some (p_payloads p)) (Some (ip4_of addr)) n m
      | DropRecv \<Rightarrow> udp_drop_recv (Some (p_payloads p)) n m)"

definition run_fate ::
    "u8 list \<Rightarrow> eth_fate option \<Rightarrow> net_state \<Rightarrow> lmu \<Rightarrow> (net_state \<times> lmu) option" where
  "run_fate stack fate n m =
     (case fate of
        Some (EthIp (IpUdp (UdpDeliver pcb h p addr port))) \<Rightarrow> run_callback stack h p addr n m
      | _ \<Rightarrow> Some (n, m))"

text \<open>\<open>Ifx_Lwip_pollReceiveFlags\<close> with all that follows from it.\<close>

definition poll_receive ::
    "u8 list \<Rightarrow> rx_desc list \<Rightarrow> lwip \<Rightarrow> net_state \<Rightarrow> lmu \<Rightarrow> (rx_desc list \<times> lwip \<times> net_state \<times> lmu) option" where
  "poll_receive stack ring s n m =
     (case lw_netifs s of
        [] \<Rightarrow> None
      | nif # _ \<Rightarrow> do {
          (fate, ring, s) \<leftarrow> ifx_netif_input nif ring s;
          (n, m) \<leftarrow> run_fate stack fate n m;
          Some (ring, s, n, m) })"

end
