(* ===== verification/LwipPbuf_Facts.thy ===== *)
theory LwipPbuf_Facts
  imports LwipPort "HOL-Library.Multiset"
begin

text \<open>
  Facts about chains of buffers: what an allocation from the pool gives, that no operation changes
  the memory of a buffer or loses an element of the pool, and what the operations
  do to the bytes of a chain.
\<close>

section \<open>Allocation and freeing\<close>

definition seg_elem :: "seg \<Rightarrow> u32 \<times> u8 list" where "seg_elem q = (seg_addr q, seg_mem q)"

lemma pool_ok_Cons [simp]:
  "pool_ok ((a, m) # pool) \<longleftrightarrow> length m = PBUF_POOL_BUFSIZE \<and> unat a mod MEM_ALIGNMENT = 0 \<and> pool_ok pool"
  by (auto simp: pool_ok_def)

lemma bufsize [simp]: "PBUF_POOL_BUFSIZE = 592"
  by (simp add: PBUF_POOL_BUFSIZE_def LWIP_MEM_ALIGN_SIZE_def MEM_ALIGNMENT_def TCP_MSS_def
      PBUF_LINK_ENCAPSULATION_HLEN_def PBUF_LINK_HLEN_def ETH_PAD_SIZE_def)

lemma align_0 [simp]: "LWIP_MEM_ALIGN_SIZE 0 = 0"
  by (simp add: LWIP_MEM_ALIGN_SIZE_def MEM_ALIGNMENT_def)

text \<open>The number of elements a chain without room in front takes.\<close>

definition chunks :: "nat \<Rightarrow> nat" where "chunks n = (if n = 0 then 1 else (n + 591) div 592)"

lemma chunks_le: "n \<le> 592 \<Longrightarrow> chunks n = 1"
proof (cases "n = 0")
  case False
  assume "n \<le> 592"
  with False show ?thesis unfolding chunks_def by (simp add: div_nat_eqI)
qed (simp add: chunks_def)

lemma chunks_step: "592 < n \<Longrightarrow> chunks n = Suc (chunks (n - 592))"
proof -
  assume "592 < n"
  then have "n + 591 = (n - 592 + 591) + 592" by simp
  then have "(n + 591) div 592 = Suc ((n - 592 + 591) div 592)" by (metis div_add_self2 Suc_eq_plus1 zero_neq_numeral)
  with \<open>592 < n\<close> show ?thesis by (simp add: chunks_def)
qed

definition sound_seg :: "seg \<Rightarrow> bool" where
  "sound_seg q \<longleftrightarrow> seg_type q = PBUF_POOL \<and> length (seg_mem q) = 592"

lemma sound_seg_len: "sound_seg q \<Longrightarrow> seg_len q \<le> 592"
  by (simp add: sound_seg_def seg_mem_def seg_len_def)

lemma pool_chain_raw:
  assumes "pool_ok pool" "chunks n \<le> length pool"
  shows "\<exists>q qs. pool_chain 0 n pool = Some (q # qs, drop (chunks n) pool) \<and>
    map seg_elem (q # qs) = take (chunks n) pool \<and> (\<forall>r \<in> set (q # qs). sound_seg r) \<and>
    seg_front q = [] \<and> seg_len q = min n 592 \<and> sum_list (map seg_len (q # qs)) = n"
  using assms
proof (induction pool arbitrary: n)
  case Nil
  then show ?case by (simp add: chunks_def split: if_splits)
next
  case (Cons e pool)
  obtain a m where e: "e = (a, m)" by fastforce
  have m: "length m = 592" using Cons.prems(1) e by simp
  define q where "q = \<lparr>seg_type = PBUF_POOL, seg_addr = a, seg_front = [], seg_data = take (min n 592) m,
    seg_tail = drop (min n 592) m\<rparr>"
  have q: "seg_elem q = e" "sound_seg q" "seg_front q = []" "seg_len q = min n 592"
    by (simp_all add: q_def seg_elem_def seg_mem_def sound_seg_def seg_len_def e m)
  show ?case
  proof (cases "n \<le> 592")
    case True
    then show ?thesis using q by (simp add: e chunks_le q_def [symmetric] Let_def) (simp add: q_def)
  next
    case False
    then have n: "592 < n" by simp
    have "chunks (n - 592) \<le> length pool" using Cons.prems(2) chunks_step [OF n] by simp
    with Cons.IH [of "n - 592"] Cons.prems(1) e obtain r rs where r:
      "pool_chain 0 (n - 592) pool = Some (r # rs, drop (chunks (n - 592)) pool)"
      "map seg_elem (r # rs) = take (chunks (n - 592)) pool" "\<forall>s \<in> set (r # rs). sound_seg s"
      "sum_list (map seg_len (r # rs)) = n - 592" by auto
    have "pool_chain 0 n (e # pool) = Some (q # r # rs, drop (chunks n) (e # pool))"
      using n r(1) by (simp add: e chunks_step [OF n] Let_def q_def)
    then show ?thesis using q r n by (simp add: chunks_step [OF n])
  qed
qed

lemma pool_conserved: "map seg_elem (p_segs p) @ rest = pool \<Longrightarrow> mset (pbuf_free p rest) = mset pool"
  by (auto simp: pbuf_free_def seg_elem_def [abs_def])

section \<open>The memory of a buffer stays\<close>

lemma seg_elem_remove [simp]: "n \<le> seg_len q \<Longrightarrow> seg_elem (seg_remove n q) = seg_elem q"
  by (simp add: seg_elem_def seg_mem_def seg_remove_def seg_len_def)

lemma seg_elem_add [simp]: "seg_elem (seg_add n q) = seg_elem q"
  by (simp add: seg_elem_def seg_mem_def seg_add_def Let_def)

lemma seg_elem_trim [simp]: "seg_elem (seg_trim n q) = seg_elem q"
  by (simp add: seg_elem_def seg_mem_def seg_trim_def)

definition chain_elems :: "pbuf \<Rightarrow> pool" where "chain_elems p = map seg_elem (p_segs p)"

lemma pbuf_free_elems: "pbuf_free p pool = rev (chain_elems p) @ pool"
  by (simp add: pbuf_free_def chain_elems_def seg_elem_def)

lemma elems_remove: "chain_elems (snd (pbuf_remove_header p n)) = chain_elems p"
  by (simp add: pbuf_remove_header_def chain_elems_def p_segs_def p_len_def)

lemma elems_add: "chain_elems (snd (pbuf_add_header_impl p n force)) = chain_elems p"
  by (simp add: pbuf_add_header_impl_def chain_elems_def p_segs_def)

lemma elems_header: "chain_elems (snd (pbuf_header_impl p n force)) = chain_elems p"
  by (simp add: pbuf_header_impl_def elems_remove elems_add)

lemma elems_realloc_segs: "realloc_segs n qs = (keep, gone) \<Longrightarrow> map seg_elem qs = map seg_elem (keep @ gone)"
  by (induction n qs arbitrary: keep gone rule: realloc_segs.induct) (auto split: if_splits prod.splits)

lemma elems_realloc:
  assumes "pbuf_realloc p n pool = (p', pool')"
  shows "mset (chain_elems p') + mset pool' = mset (chain_elems p) + mset pool"
proof -
  obtain keep gone where r: "realloc_segs n (p_segs p) = (keep, gone)" by fastforce
  have "mset (map seg_elem (p_segs p)) = mset (map seg_elem (keep @ gone))"
    by (simp only: elems_realloc_segs [OF r])
  then have e: "mset (chain_elems p) = mset (map seg_elem keep) + mset (map seg_elem gone)"
    by (simp add: chain_elems_def)
  show ?thesis
  proof (cases "p_tot_len p \<le> n \<or> keep = []")
    case True
    then have "p' = p" "pool' = pool" using assms r by (auto simp: pbuf_realloc_def split: if_splits)
    then show ?thesis by simp
  next
    case False
    then obtain q qs where k: "keep = q # qs" by (cases keep) auto
    then have "p' = p\<lparr>p_head := q, p_next := qs\<rparr>" "pool' = rev (map seg_elem gone) @ pool"
      using assms r False by (simp_all add: pbuf_realloc_def seg_elem_def [abs_def])
    then show ?thesis unfolding e k by (simp add: chain_elems_def p_segs_def)
  qed
qed

section \<open>The bytes of a chain\<close>

lemma p_bytes_head: "p_bytes p = seg_data (p_head p) @ concat (map seg_data (p_next p))"
  by (simp add: p_bytes_def p_payloads_def p_segs_def)

lemma p_tot_len_bytes: "p_tot_len p = length (p_bytes p)"
  by (simp add: p_tot_len_def p_bytes_def p_payloads_def length_concat seg_len_def [abs_def] comp_def)

lemma p_len_le: "p_len p \<le> length (p_bytes p)"
  by (simp add: p_bytes_head p_len_def seg_len_def)

lemma remove_ok:
  assumes "n \<le> p_len p" "n \<le> 0xFFFF"
  shows "fst (pbuf_remove_header p n) = 0" "p_bytes (snd (pbuf_remove_header p n)) = drop n (p_bytes p)"
    "p_len (snd (pbuf_remove_header p n)) = p_len p - n" "p_next (snd (pbuf_remove_header p n)) = p_next p"
  using assms by (simp_all add: pbuf_remove_header_def p_len_def p_bytes_head seg_remove_def seg_len_def)

lemma realloc_segs_bytes:
  assumes "n \<le> length (concat (map seg_data qs))" "qs \<noteq> []" "realloc_segs n qs = (keep, gone)"
  shows "keep \<noteq> [] \<and> concat (map seg_data keep) = take n (concat (map seg_data qs)) \<and>
    seg_len (hd keep) = min n (seg_len (hd qs)) \<and> seg_from (hd keep) = seg_from (hd qs)"
  using assms
proof (induction n qs arbitrary: keep gone rule: realloc_segs.induct)
  case (2 n q qs)
  show ?case
  proof (cases "seg_len q < n")
    case True
    obtain k g where r: "realloc_segs (n - seg_len q) qs = (k, g)" by fastforce
    have l: "n - seg_len q \<le> length (concat (map seg_data qs))" "qs \<noteq> []"
      using "2.prems"(1) True by (auto simp: seg_len_def)
    from "2.IH" [OF True l r] have "concat (map seg_data k) = take (n - seg_len q) (concat (map seg_data qs))" by blast
    moreover have "keep = q # k" using "2.prems"(3) True r by simp
    ultimately show ?thesis using True by (simp add: seg_len_def min_def)
  next
    case False
    then have "keep = [seg_trim n q]" using "2.prems"(3) by simp
    then show ?thesis using False by (simp add: seg_trim_def seg_len_def seg_from_def min_def)
  qed
qed simp

lemma realloc_ok:
  assumes "n < p_tot_len p" "pbuf_realloc p n pool = (p', pool')"
  shows "p_bytes p' = take n (p_bytes p)" "p_len p' = min n (p_len p)" "seg_from (p_head p') = seg_from (p_head p)"
proof -
  obtain keep gone where r: "realloc_segs n (p_segs p) = (keep, gone)" by fastforce
  have l: "n \<le> length (concat (map seg_data (p_segs p)))"
    using assms(1) by (simp add: p_tot_len_bytes p_bytes_def p_payloads_def)
  have "p_segs p \<noteq> []" by (simp add: p_segs_def)
  from realloc_segs_bytes [OF l this r] obtain q qs where k: "keep = q # qs"
    "concat (map seg_data keep) = take n (concat (map seg_data (p_segs p)))"
    "seg_len q = min n (seg_len (p_head p))" "seg_from q = seg_from (p_head p)"
    by (cases keep) (auto simp: p_segs_def)
  then have "p' = p\<lparr>p_head := q, p_next := qs\<rparr>" using assms r by (auto simp: pbuf_realloc_def)
  with k show "p_bytes p' = take n (p_bytes p)" "p_len p' = min n (p_len p)" "seg_from (p_head p') = seg_from (p_head p)"
    by (auto simp: p_bytes_def p_payloads_def p_segs_def p_len_def)
qed

text \<open>Segments stay small.\<close>

definition small :: "pbuf \<Rightarrow> bool" where "small p \<longleftrightarrow> (\<forall>q \<in> set (p_segs p). seg_len q \<le> 592)"

lemma small_remove: "small p \<Longrightarrow> small (snd (pbuf_remove_header p n))"
  by (auto simp: small_def pbuf_remove_header_def p_segs_def seg_remove_def seg_len_def)

lemma small_realloc_segs:
  "realloc_segs n qs = (keep, gone) \<Longrightarrow> \<forall>q \<in> set qs. seg_len q \<le> 592 \<Longrightarrow> \<forall>q \<in> set keep. seg_len q \<le> 592"
  by (induction n qs arbitrary: keep gone rule: realloc_segs.induct)
    (auto simp: seg_trim_def seg_len_def split: if_splits prod.splits)

lemma small_realloc: "small p \<Longrightarrow> pbuf_realloc p n pool = (p', pool') \<Longrightarrow> small p'"
proof -
  assume h: "small p" "pbuf_realloc p n pool = (p', pool')"
  obtain keep gone where r: "realloc_segs n (p_segs p) = (keep, gone)" by fastforce
  from small_realloc_segs [OF r] h(1) have "\<forall>q \<in> set keep. seg_len q \<le> 592" by (simp add: small_def)
  with h r show "small p'" by (auto simp: pbuf_realloc_def small_def p_segs_def split: if_splits list.splits)
qed

end
