(* ===== verification/LwipChksum_Facts.thy ===== *)
theory LwipChksum_Facts
  imports LwipChksum
begin

text \<open>
  The Internet checksum: all three routines compute the one's complement sum of RFC 1071,
  whatever the alignment of the data; a chain of buffers has the sum of its bytes; and the
  change of a single byte always shows.
\<close>

section \<open>One's complement sums\<close>

text \<open>The representative of a sum modulo 65535; only the empty sum is 0.\<close>

definition ones :: "nat \<Rightarrow> nat" where
  "ones n = (if n = 0 then 0 else (n - 1) mod 65535 + 1)"

lemma ones_le: "ones n \<le> 65535"
  by (simp add: ones_def Suc_le_eq)

lemma ones_mod: "ones n mod 65535 = n mod 65535"
proof (cases n)
  case (Suc k)
  have "((k mod 65535) + 1) mod 65535 = (k + 1) mod 65535" by (rule mod_add_left_eq)
  with Suc show ?thesis by (simp add: ones_def)
qed (simp add: ones_def)

lemma ones_0_iff: "ones n = 0 \<longleftrightarrow> n = 0"
  by (simp add: ones_def)

lemma ones_unique: "a \<le> 65535 \<Longrightarrow> a mod 65535 = n mod 65535 \<Longrightarrow> (a = 0 \<longleftrightarrow> n = 0) \<Longrightarrow> a = ones n"
proof -
  assume h: "a \<le> 65535" "a mod 65535 = n mod 65535" "a = 0 \<longleftrightarrow> n = 0"
  have o: "ones n \<le> 65535" "ones n mod 65535 = n mod 65535" "ones n = 0 \<longleftrightarrow> n = 0"
    by (rule ones_le, rule ones_mod, rule ones_0_iff)
  show "a = ones n"
  proof (cases "a = 65535 \<or> ones n = 65535")
    case True
    with h o show ?thesis by (metis le_neq_implies_less mod_less mod_self)
  next
    case False
    with h o show ?thesis by simp
  qed
qed

lemma ones_full_iff: "ones n = 65535 \<longleftrightarrow> 0 < n \<and> n mod 65535 = 0"
proof
  assume h: "ones n = 65535"
  then have "n mod 65535 = 0" using ones_mod [of n] by simp
  with h show "0 < n \<and> n mod 65535 = 0" by (cases n) (simp_all add: ones_def)
next
  assume "0 < n \<and> n mod 65535 = 0"
  then show "ones n = 65535" using ones_unique [of 65535 n] by simp
qed

lemma ones_cong: "m mod 65535 = n mod 65535 \<Longrightarrow> (m = 0 \<longleftrightarrow> n = 0) \<Longrightarrow> ones m = ones n"
  by (rule ones_unique) (simp_all add: ones_le ones_mod ones_0_iff)

section \<open>Sums of bytes\<close>

text \<open>Little-endian words; a last odd byte is the low one. The reference of RFC 1071 takes
  the words big-endian.\<close>

fun le_sum :: "u8 list \<Rightarrow> nat" where
  "le_sum [] = 0"
| "le_sum [a] = unat a"
| "le_sum (a # b # bs) = unat a + 256 * unat b + le_sum bs"

fun be_sum :: "u8 list \<Rightarrow> nat" where
  "be_sum [] = 0"
| "be_sum [a] = 256 * unat a"
| "be_sum (a # b # bs) = 256 * unat a + unat b + be_sum bs"

lemma le_sum_le: "le_sum bs \<le> 65535 * ((length bs + 1) div 2)"
proof (induction bs rule: le_sum.induct)
  case (2 a)
  have "unat a < 256" by simp
  then show ?case by (simp del: u8_less_256)
next
  case (3 a b bs)
  have "unat a < 256" "unat b < 256" by simp_all
  with 3 show ?case by (simp del: u8_less_256)
qed simp

lemma be_sum_le: "be_sum bs \<le> 65535 * ((length bs + 1) div 2)"
proof (induction bs rule: be_sum.induct)
  case (2 a)
  have "unat a < 256" by simp
  then show ?case by (simp del: u8_less_256)
next
  case (3 a b bs)
  have "unat a < 256" "unat b < 256" by simp_all
  with 3 show ?case by (simp del: u8_less_256)
qed simp

lemma le_sum_0_iff: "le_sum bs = 0 \<longleftrightarrow> (\<forall>b \<in> set bs. b = 0)"
  by (induction bs rule: le_sum.induct) (auto simp: unat_eq_0)

lemma be_sum_0_iff: "be_sum bs = 0 \<longleftrightarrow> (\<forall>b \<in> set bs. b = 0)"
  by (induction bs rule: be_sum.induct) (auto simp: unat_eq_0)

lemma mod_by_multiple: "a = b + 65535 * k \<Longrightarrow> a mod 65535 = b mod (65535 :: nat)"
  by simp

lemma le_be_multiple: "\<exists>k. 256 * be_sum bs = le_sum bs + 65535 * k"
proof (induction bs rule: le_sum.induct)
  case (2 a)
  have "256 * be_sum [a] = le_sum [a] + 65535 * unat a" by simp
  then show ?case by blast
next
  case (3 a b bs)
  then obtain k where "256 * be_sum bs = le_sum bs + 65535 * k" by blast
  then have "256 * be_sum (a # b # bs) = le_sum (a # b # bs) + 65535 * (unat a + k)" by simp
  then show ?case by blast
qed simp

lemma le_be_mod: "256 * be_sum bs mod 65535 = le_sum bs mod 65535"
  using le_be_multiple mod_by_multiple by metis

lemma swap_256: "256 * (256 * n) mod 65535 = n mod (65535 :: nat)"
  by (rule mod_by_multiple [where k = n]) simp

text \<open>Data at an odd offset.\<close>

lemma le_sum_Cons_multiple: "\<exists>k. 256 * le_sum bs + unat b = le_sum (b # bs) + 65535 * k"
proof (induction bs arbitrary: b rule: le_sum.induct)
  case (2 a)
  have "256 * le_sum [a] + unat b = le_sum [b, a] + 65535 * 0" by simp
  then show ?case by blast
next
  case (3 a c bs)
  from 3 [of c] obtain k where "256 * le_sum bs + unat c = le_sum (c # bs) + 65535 * k" by blast
  then have "256 * le_sum (a # c # bs) + unat b = le_sum (b # a # c # bs) + 65535 * (unat c + k)" by simp
  then show ?case by blast
qed (auto intro: exI [of _ 0])

lemma le_sum_Cons_mod: "(256 * le_sum bs + unat b) mod 65535 = le_sum (b # bs) mod 65535"
  using le_sum_Cons_multiple mod_by_multiple by metis

definition shifted :: "bool \<Rightarrow> nat \<Rightarrow> nat" where
  "shifted s n = (if s then 256 * n else n)"

lemma shifted_simps [simp]: "shifted False n = n" "shifted True n = 256 * n"
  by (simp_all add: shifted_def)

lemma le_sum_append_mod:
  "le_sum (xs @ ys) mod 65535 = (le_sum xs + shifted (odd (length xs)) (le_sum ys)) mod 65535"
proof (induction xs rule: le_sum.induct)
  case (2 a)
  show ?case using le_sum_Cons_mod [of ys a] by (simp add: add.commute)
next
  case (3 a b bs)
  have "(unat a + 256 * unat b + le_sum (bs @ ys)) mod 65535 =
      (unat a + 256 * unat b + (le_sum bs + shifted (odd (length bs)) (le_sum ys))) mod 65535"
    by (rule mod_add_cong [OF refl 3])
  then show ?case by (simp add: add.assoc)
qed simp

section \<open>Words\<close>

lemma low16: "(x :: u32) AND 0xffff = take_bit 16 x"
  by (simp add: take_bit_eq_mask mask_eq_exp_minus_1)

lemma unat_low16: "unat (x AND 0xffff :: u32) = unat x mod 65536"
  unfolding low16 unsigned_take_bit_eq by (simp add: take_bit_eq_mod)

lemma unat_high16: "unat (drop_bit 16 x :: u32) = unat x div 65536"
  unfolding unat_drop_bit_eq by (simp add: drop_bit_eq_div)

lemma unat_plus_small: "unat (x :: u32) + unat y < 4294967296 \<Longrightarrow> unat (x + y) = unat x + unat y"
  by (simp add: unat_word_ariths)

lemma div_16_bound: "n < 4294967296 \<Longrightarrow> n div 65536 < (65536 :: nat)"
  by (simp add: div_less_iff_less_mult)

lemma unat_FOLD: "unat (FOLD_U32T u) = unat u div 65536 + unat u mod 65536"
proof -
  have "unat u div 65536 < 65536" by (rule div_16_bound [OF u32_less_2p32])
  moreover have "unat u mod 65536 < 65536" by simp
  ultimately have "unat u div 65536 + unat u mod 65536 < 4294967296" by linarith
  then show ?thesis unfolding FOLD_U32T_def
    by (subst unat_plus_small) (simp_all only: unat_high16 unat_low16)
qed

lemma fold_mod: "(n div 65536 + n mod 65536) mod 65535 = n mod (65535 :: nat)"
proof -
  have "n = n div 65536 * 65536 + n mod 65536" by (rule div_mult_mod_eq [symmetric])
  then have "n = (n div 65536 + n mod 65536) + 65535 * (n div 65536)" by linarith
  from mod_by_multiple [OF this] show ?thesis by (rule sym)
qed

lemma unat_FOLD_mod: "unat (FOLD_U32T u) mod 65535 = unat u mod 65535"
  by (simp only: unat_FOLD fold_mod)

lemma fold_0_iff: "n div 65536 + n mod 65536 = 0 \<longleftrightarrow> n = (0 :: nat)"
  using div_mult_mod_eq [of n 65536] by auto

lemma unat_FOLD_0_iff: "unat (FOLD_U32T u) = 0 \<longleftrightarrow> unat u = 0"
  by (simp only: unat_FOLD fold_0_iff)

lemma fold_le: "n \<le> 131070 \<Longrightarrow> n div 65536 + n mod 65536 \<le> (65535 :: nat)"
proof (cases "n < 65536")
  case False
  assume "n \<le> 131070"
  with False have "n div 65536 = 1" by (intro div_nat_eqI) simp_all
  with \<open>n \<le> 131070\<close> show ?thesis using div_mult_mod_eq [of n 65536] by linarith
qed simp

lemma unat_FOLD_le: "unat u \<le> 131070 \<Longrightarrow> unat (FOLD_U32T u) \<le> 65535"
  by (simp only: unat_FOLD fold_le)

lemma unat_FOLD2: "unat (FOLD_U32T (FOLD_U32T u)) = ones (unat u)"
proof (rule ones_unique)
  have "unat u div 65536 < 65536" by (rule div_16_bound [OF u32_less_2p32])
  moreover have "unat u mod 65536 < 65536" by simp
  ultimately have "unat (FOLD_U32T u) \<le> 131070" unfolding unat_FOLD by linarith
  then show "unat (FOLD_U32T (FOLD_U32T u)) \<le> 65535" by (rule unat_FOLD_le)
qed (simp_all only: unat_FOLD_mod unat_FOLD_0_iff)

lemma nat_or_disjoint: "a < 2 ^ k \<Longrightarrow> (a :: nat) OR push_bit k b = a + push_bit k b"
proof -
  assume "a < 2 ^ k"
  then have "take_bit k a = a" by (simp add: take_bit_nat_eq_self)
  have "\<not> bit a n" if "k \<le> n" for n
    using that \<open>take_bit k a = a\<close> by (metis bit_take_bit_iff not_le)
  then show ?thesis
    by (intro disjunctive_add_eq_or [symmetric] bit_eqI) (auto simp: bit_simps)
qed

lemma unat_load16: "unat (load16 a b) = unat a + 256 * unat b"
proof -
  have "unat (push_bit 8 (ucast b) :: u16) = push_bit 8 (unat b)"
    unfolding unsigned_push_bit_eq unsigned_ucast_eq using u8_less_256 [of b]
    by (simp add: push_bit_eq_mult take_bit_nat_eq_self del: u8_less_256)
  moreover have "unat (ucast a :: u16) = unat a"
    using u8_less_256 [of a] by (simp add: unsigned_ucast_eq take_bit_nat_eq_self del: u8_less_256)
  ultimately show ?thesis unfolding load16_def unsigned_or_eq
    using nat_or_disjoint [of "unat a" 8 "unat b"] by (simp add: push_bit_eq_mult)
qed

lemma unat_ucast32 [simp]: "unat (ucast (x :: u16) :: u32) = unat x"
  using u16_less_65536 [of x] by (simp add: unsigned_ucast_eq take_bit_nat_eq_self del: u16_less_65536)

lemma unat_ucast16: "unat x \<le> 65535 \<Longrightarrow> unat (ucast (x :: u32) :: u16) = unat x"
  by (simp add: unsigned_ucast_eq take_bit_nat_eq_self)

lemma byte_masks: "(0xff :: 'a::len word) = mask 8" "(0xff00 :: 'a word) = push_bit 8 (mask 8)"
  by (simp_all add: mask_eq_exp_minus_1 push_bit_eq_mult)

text \<open>Exchanging the bytes multiplies by 256.\<close>

lemma unat_swap: "unat (SWAP_BYTES_IN_WORD w) = 256 * (unat w mod 256) + unat w div 256 mod 256"
proof -
  have a: "w AND 0xff = take_bit 8 w" unfolding byte_masks by (simp add: take_bit_eq_mask)
  have b: "drop_bit 8 (w AND 0xff00) = take_bit 8 (drop_bit 8 w)"
    unfolding byte_masks by (rule bit_eqI) (auto simp: bit_simps)
  have c: "unat (push_bit 8 (take_bit 8 w)) = push_bit 8 (unat w mod 256)"
  proof -
    have "unat w mod 256 < 256" by simp
    then have "unat w mod 256 * 256 < 2 ^ 32" by simp
    then show ?thesis unfolding unsigned_push_bit_eq unsigned_take_bit_eq
      by (simp add: take_bit_eq_mod push_bit_eq_mult)
  qed
  have d: "unat (take_bit 8 (drop_bit 8 w)) = unat w div 256 mod 256"
    unfolding unsigned_take_bit_eq unat_drop_bit_eq by (simp add: take_bit_eq_mod drop_bit_eq_div)
  have "unat (SWAP_BYTES_IN_WORD w) = push_bit 8 (unat w mod 256) OR (unat w div 256 mod 256)"
    unfolding SWAP_BYTES_IN_WORD_def a b unsigned_or_eq c d by (rule refl)
  also have "\<dots> = (unat w div 256 mod 256) + push_bit 8 (unat w mod 256)"
    using nat_or_disjoint [of "unat w div 256 mod 256" 8 "unat w mod 256"] by (simp add: or.commute)
  finally show ?thesis by (simp add: push_bit_eq_mult)
qed

lemma swap_mod: "n \<le> 65535 \<Longrightarrow> (256 * (n mod 256) + n div 256 mod 256) mod 65535 = 256 * n mod (65535 :: nat)"
proof -
  assume "n \<le> 65535"
  then have d: "n div 256 mod 256 = n div 256" by simp
  have "256 * n = 256 * (n mod 256) + 65536 * (n div 256)" using div_mult_mod_eq [of n 256] by linarith
  then have "256 * n = (256 * (n mod 256) + n div 256 mod 256) + 65535 * (n div 256)" unfolding d by linarith
  from mod_by_multiple [OF this] show ?thesis by (rule sym)
qed

lemma swap_le: "256 * (n mod 256) + n div 256 mod 256 \<le> (65535 :: nat)"
proof -
  have "n mod 256 < 256" "n div 256 mod 256 < 256" by simp_all
  then show ?thesis by linarith
qed

lemma swap_0_iff: "n \<le> 65535 \<Longrightarrow> 256 * (n mod 256) + n div 256 mod 256 = 0 \<longleftrightarrow> n = (0 :: nat)"
  using div_mult_mod_eq [of n 256] by (auto simp: div_less_iff_less_mult)

lemma swap_facts:
  "unat (SWAP_BYTES_IN_WORD w) \<le> 65535"
  "unat w \<le> 65535 \<Longrightarrow> unat (SWAP_BYTES_IN_WORD w) mod 65535 = 256 * unat w mod 65535"
  "unat w \<le> 65535 \<Longrightarrow> unat (SWAP_BYTES_IN_WORD w) = 0 \<longleftrightarrow> unat w = 0"
  by (simp_all only: unat_swap swap_le swap_mod swap_0_iff)

lemma unat_htons: "unat (lwip_htons x) = 256 * (unat x mod 256) + unat x div 256"
proof -
  have "ucast (lwip_htons x) = SWAP_BYTES_IN_WORD (ucast x)"
    unfolding lwip_htons_def SWAP_BYTES_IN_WORD_def byte_masks
    by (rule bit_eqI) (auto simp: bit_simps)
  then have "unat (lwip_htons x) = unat (SWAP_BYTES_IN_WORD (ucast x))" by (metis unat_ucast32)
  then show ?thesis by (simp add: unat_swap div_less_iff_less_mult)
qed

section \<open>The routines compute the sum\<close>

lemma chksum2_loop_sum:
  "chksum2_loop bs acc = (acc', r) \<Longrightarrow> unat acc + le_sum bs < 4294967296 \<Longrightarrow>
     unat acc' + le_sum r = unat acc + le_sum bs \<and> length r \<le> 1"
proof (induction bs acc rule: chksum2_loop.induct)
  case (1 b0 b1 bs acc)
  have "unat (acc + ucast (load16 b0 b1)) = unat acc + (unat b0 + 256 * unat b1)"
    using "1.prems"(2) by (subst unat_plus_small) (simp_all add: unat_load16)
  with 1 show ?case by (simp add: add.assoc)
qed auto

lemma chksum2_main:
  assumes "chksum2_loop bs acc = (acc', r)" "unat acc + le_sum bs + 65280 < 4294967296"
  shows "unat (acc' + ucast (load16 (if r \<noteq> [] then hd r else 0) t1)) = unat acc + le_sum bs + 256 * unat t1"
proof -
  note s = chksum2_loop_sum [OF assms(1)]
  have "unat acc' + le_sum r = unat acc + le_sum bs" "length r \<le> 1" using s assms(2) by simp_all
  moreover have "unat (load16 (if r \<noteq> [] then hd r else 0) t1) = le_sum r + 256 * unat t1"
    using calculation(2) by (cases r) (simp_all add: unat_load16)
  moreover have "unat t1 < 256" by simp
  ultimately show ?thesis using assms(2) by (subst unat_plus_small) (simp_all del: u8_less_256)
qed

text \<open>The end of the routine: two folds, and the exchange when the data started at an odd
  address.\<close>

lemma finish_sum:
  assumes "unat s mod 65535 = (le_sum pb + 256 * unat t1) mod 65535" "unat s = 0 \<longleftrightarrow> le_sum pb = 0 \<and> t1 = 0"
    "odd_adr \<and> bs \<noteq> [] \<Longrightarrow> bs = t1 # pb" "\<not> (odd_adr \<and> bs \<noteq> []) \<Longrightarrow> pb = bs \<and> t1 = 0"
  shows "unat (ucast (if odd_adr then SWAP_BYTES_IN_WORD (FOLD_U32T (FOLD_U32T s)) else FOLD_U32T (FOLD_U32T s)) :: u16)
    = ones (le_sum bs)"
proof (cases "odd_adr \<and> bs \<noteq> []")
  case True
  with assms(3) have bs: "bs = t1 # pb" by simp
  have o: "unat (FOLD_U32T (FOLD_U32T s)) \<le> 65535" by (simp only: unat_FOLD2 ones_le)
  have "unat (SWAP_BYTES_IN_WORD (FOLD_U32T (FOLD_U32T s))) = ones (le_sum bs)"
  proof (rule ones_unique)
    have "unat (SWAP_BYTES_IN_WORD (FOLD_U32T (FOLD_U32T s))) mod 65535 = 256 * ones (unat s) mod 65535"
      by (simp only: swap_facts(2) [OF o] unat_FOLD2)
    also have "\<dots> = 256 * (le_sum pb + 256 * unat t1) mod 65535"
      by (rule mod_mult_cong) (simp_all only: ones_mod assms(1))
    also have "\<dots> = (256 * le_sum pb + unat t1) mod 65535"
      by (rule mod_by_multiple [where k = "unat t1"]) simp
    also have "\<dots> = le_sum bs mod 65535" by (simp only: le_sum_Cons_mod bs)
    finally show "unat (SWAP_BYTES_IN_WORD (FOLD_U32T (FOLD_U32T s))) mod 65535 = le_sum bs mod 65535" .
    show "(unat (SWAP_BYTES_IN_WORD (FOLD_U32T (FOLD_U32T s))) = 0) = (le_sum bs = 0)"
      unfolding swap_facts(3) [OF o] unat_FOLD2 ones_0_iff assms(2)
      by (auto simp: bs le_sum_0_iff)
  qed (rule swap_facts(1))
  with True show ?thesis by (simp only: unat_ucast16 [OF swap_facts(1)] if_True simp_thms)
next
  case False
  with assms have pb: "pb = bs" "t1 = 0" by simp_all
  then have e: "ones (unat s) = ones (le_sum bs)" using assms(1,2) by (intro ones_cong) simp_all
  show ?thesis
  proof (cases odd_adr)
    case True
    with False have "bs = []" by simp
    then have "s = 0" using assms(2) pb by (simp add: unat_eq_0)
    then show ?thesis using \<open>bs = []\<close>
      by (simp add: FOLD_U32T_def SWAP_BYTES_IN_WORD_def ones_def)
  qed (simp add: unat_ucast16 unat_FOLD2 ones_le e)
qed

lemma half_bound: "length bs \<le> 0x1FFFE \<Longrightarrow> le_sum bs + 65280 < 4294967296"
  using le_sum_le [of bs] mult_le_mono2 [of "(length bs + 1) div 2" 65535 65535] by linarith

lemma odd_start:
  assumes "(t1, pb) = (if odd_adr \<and> bs \<noteq> [] then (hd bs, tl bs) else (0, bs))"
  shows "odd_adr \<and> bs \<noteq> [] \<Longrightarrow> bs = t1 # pb" "\<not> (odd_adr \<and> bs \<noteq> []) \<Longrightarrow> pb = bs \<and> t1 = 0"
    "length pb \<le> length bs"
  using assms by (auto split: if_splits)

theorem chksum_ones:
  assumes "length bs \<le> 0x1FFFE"
  shows "unat (lwip_standard_chksum dataptr bs) = ones (le_sum bs)"
proof -
  let ?odd = "dataptr AND 1 \<noteq> 0"
  obtain t1 pb where p: "(t1, pb) = (if ?odd \<and> bs \<noteq> [] then (hd bs, tl bs) else (0, bs))"
    by (metis surj_pair)
  note o = odd_start [OF p]
  obtain acc r where l: "chksum2_loop pb 0 = (acc, r)" by fastforce
  let ?s = "acc + ucast (load16 (if r \<noteq> [] then hd r else 0) t1)"
  have s: "unat ?s = le_sum pb + 256 * unat t1"
    using chksum2_main [OF l] half_bound [of pb] o(3) assms by simp
  have "lwip_standard_chksum dataptr bs =
      ucast (if ?odd then SWAP_BYTES_IN_WORD (FOLD_U32T (FOLD_U32T ?s)) else FOLD_U32T (FOLD_U32T ?s))"
    unfolding lwip_standard_chksum_def Let_def p [symmetric] by (simp add: l)
  moreover have "unat (ucast (if ?odd then SWAP_BYTES_IN_WORD (FOLD_U32T (FOLD_U32T ?s)) else FOLD_U32T (FOLD_U32T ?s)) :: u16)
      = ones (le_sum bs)"
    by (rule finish_sum [OF _ _ o(1,2)]) (simp_all add: s unat_eq_0)
  ultimately show ?thesis by simp
qed

lemma unat_be16: "unat (push_bit 8 (ucast (b0 :: u8)) OR ucast (b1 :: u8) :: u16) = 256 * unat b0 + unat b1"
  using unat_load16 [of b1 b0] by (simp add: load16_def or.commute)

lemma chksum1_loop_sum:
  "unat acc + be_sum bs < 4294967296 \<Longrightarrow> unat (chksum1_loop bs acc) = unat acc + be_sum bs"
proof (induction bs acc rule: chksum1_loop.induct)
  case (1 b0 b1 bs acc)
  have "unat (acc + ucast (push_bit 8 (ucast b0) OR ucast b1 :: u16)) = unat acc + (256 * unat b0 + unat b1)"
    using "1.prems" unat_be16 [of b0 b1] by (subst unat_plus_small) (simp_all del: unsigned_or_eq)
  with 1 show ?case by (simp add: add.assoc)
next
  case (2 b acc)
  have "unat (push_bit 8 (ucast b) :: u16) = 256 * unat b" using unat_be16 [of b 0] by simp
  then show ?case using 2 by (simp add: unat_plus_small)
qed simp

text \<open>The second fold of algorithm 1 is only made when it is needed.\<close>

lemma fold_done: "unat u \<le> 65535 \<Longrightarrow> FOLD_U32T u = u"
proof -
  assume "unat u \<le> 65535"
  then have "unat (FOLD_U32T u) = unat u" by (simp only: unat_FOLD) simp
  then show ?thesis by (simp only: word_unat_eq_iff)
qed

lemma high16_0_iff: "x AND 0xffff0000 = 0 \<longleftrightarrow> unat (x :: u32) \<le> 65535"
proof -
  have m: "(0xffff0000 :: u32) = push_bit 16 (mask 16)" by (simp add: mask_eq_exp_minus_1 push_bit_eq_mult)
  have "x AND 0xffff0000 = push_bit 16 (drop_bit 16 x)"
    unfolding m by (rule bit_eqI) (auto simp: bit_simps)
  also have "\<dots> = 0 \<longleftrightarrow> drop_bit 16 x = 0"
  proof
    assume "push_bit 16 (drop_bit 16 x) = 0"
    then have "drop_bit 16 (push_bit 16 (drop_bit 16 x)) = 0" by simp
    moreover have "drop_bit 16 (push_bit 16 (drop_bit 16 x)) = drop_bit 16 x"
      by (rule bit_eqI) (auto simp: bit_simps dest: bit_imp_le_length)
    ultimately show "drop_bit 16 x = 0" by simp
  qed simp
  also have "\<dots> \<longleftrightarrow> unat x div 65536 = 0" by (metis unat_eq_0 unat_high16)
  also have "\<dots> \<longleftrightarrow> unat x < 65536" by (simp add: div_eq_0_iff)
  finally show ?thesis by linarith
qed

theorem chksum1_ones:
  assumes "length bs \<le> 0x1FFFE"
  shows "unat (lwip_standard_chksum_1 bs) = ones (le_sum bs)"
proof -
  have half: "(length bs + 1) div 2 \<le> 65535" using assms by simp
  have b: "be_sum bs < 4294967296" using be_sum_le [of bs] mult_le_mono2 [OF half, of 65535] by linarith
  let ?a = "chksum1_loop bs 0"
  have a: "unat ?a = be_sum bs" using chksum1_loop_sum [of 0 bs] b by simp
  have "lwip_standard_chksum_1 bs = lwip_htons (ucast (FOLD_U32T (FOLD_U32T ?a)))"
    unfolding lwip_standard_chksum_1_def Let_def FOLD_U32T_def [symmetric] using fold_done [of "FOLD_U32T ?a"] high16_0_iff [of "FOLD_U32T ?a"] by simp
  moreover have o: "unat (ucast (FOLD_U32T (FOLD_U32T ?a)) :: u16) = ones (be_sum bs)"
    by (simp add: unat_ucast16 unat_FOLD2 ones_le a)
  let ?n = "ones (be_sum bs)"
  have "?n \<le> 65535" by (rule ones_le)
  then have h: "256 * (?n mod 256) + ?n div 256 = 256 * (?n mod 256) + ?n div 256 mod 256"
    by (simp add: div_less_iff_less_mult)
  ultimately have "unat (lwip_standard_chksum_1 bs) = 256 * (?n mod 256) + ?n div 256 mod 256"
    by (simp only: unat_htons o h)
  moreover have "\<dots> = ones (le_sum bs)"
  proof (rule ones_unique)
    have "256 * ?n mod 65535 = 256 * be_sum bs mod 65535" by (rule mod_mult_cong) (simp_all only: ones_mod)
    then show "(256 * (?n mod 256) + ?n div 256 mod 256) mod 65535 = le_sum bs mod 65535"
      unfolding swap_mod [OF ones_le] le_be_mod .
    show "(256 * (?n mod 256) + ?n div 256 mod 256 = 0) = (le_sum bs = 0)"
      unfolding swap_0_iff [OF ones_le] ones_0_iff be_sum_0_iff le_sum_0_iff by (rule refl)
  qed (rule swap_le)
  ultimately show ?thesis by simp
qed

text \<open>Algorithm 3 adds 32-bit words with their carries: the sum is right modulo 65535.\<close>

lemma unat_load32: "unat (load32 b0 b1 b2 b3) = unat b0 + 256 * unat b1 + 65536 * (unat b2 + 256 * unat b3)"
proof -
  have "load32 b0 b1 b2 b3 = ucast (load16 b0 b1) OR push_bit 16 (ucast (load16 b2 b3))"
    unfolding load32_def load16_def by (rule bit_eqI) (auto simp: bit_simps dest: bit_imp_le_length)
  moreover have "unat (push_bit 16 (ucast (load16 b2 b3)) :: u32) = push_bit 16 (unat (load16 b2 b3))"
  proof -
    have "unat (load16 b2 b3) * 65536 < 2 ^ 32" using u16_less_65536 [of "load16 b2 b3"] by (simp del: u16_less_65536)
    then show ?thesis unfolding unsigned_push_bit_eq by (simp add: push_bit_eq_mult take_bit_nat_eq_self)
  qed
  moreover have "unat (load16 b0 b1) < 2 ^ 16" by simp
  ultimately show ?thesis
    by (simp only: unsigned_or_eq unat_ucast32 nat_or_disjoint) (simp add: unat_load16 push_bit_eq_mult)
qed

lemma mod_4_bytes: "(a + b + 65536 * c) mod 65535 = (a + b + c) mod (65535 :: nat)"
  by (rule mod_by_multiple [where k = c]) simp

lemma add_carry_facts:
  "unat (add_carry s x) mod 65535 = (unat s + unat x) mod 65535"
  "unat (add_carry s x) = 0 \<longleftrightarrow> unat s = 0 \<and> unat x = 0"
proof -
  have b: "unat s < 4294967296" "unat x < 4294967296" by (rule u32_less_2p32)+
  have "unat (add_carry s x) mod 65535 = (unat s + unat x) mod 65535 \<and>
    (unat (add_carry s x) = 0 \<longleftrightarrow> unat s = 0 \<and> unat x = 0)"
  proof (cases "unat s + unat x < 4294967296")
    case True
    then have u: "unat (s + x) = unat s + unat x" by (rule unat_plus_small)
    then have "\<not> s + x < s" by (simp add: word_less_nat_alt)
    then have "add_carry s x = s + x" by (simp add: add_carry_def Let_def)
    then show ?thesis using u by simp
  next
    case False
    then have u: "unat (s + x) = unat s + unat x - 4294967296"
      using b by (simp add: unat_word_ariths mod_if)
    then have "s + x < s" using False b by (simp add: word_less_nat_alt)
    then have e: "add_carry s x = s + x + 1" by (simp add: add_carry_def Let_def)
    have "unat (s + x) + unat (1 :: u32) < 4294967296" using u b by simp
    then have v: "unat (add_carry s x) = unat s + unat x - 4294967295" unfolding e using u False b
      by (subst unat_plus_small) simp_all
    have "unat s + unat x = unat (add_carry s x) + 65535 * 65537" using v False by simp
    from mod_by_multiple [OF this] show ?thesis using v False b by simp
  qed
  then show "unat (add_carry s x) mod 65535 = (unat s + unat x) mod 65535"
    "unat (add_carry s x) = 0 \<longleftrightarrow> unat s = 0 \<and> unat x = 0" by simp_all
qed

lemma chksum3_loop_sum:
  "chksum3_loop bs acc = (acc', ps) \<Longrightarrow>
     (unat acc' + le_sum ps) mod 65535 = (unat acc + le_sum bs) mod 65535 \<and>
     (unat acc' = 0 \<and> le_sum ps = 0 \<longleftrightarrow> unat acc = 0 \<and> le_sum bs = 0) \<and> length ps \<le> 7"
proof (induction bs acc rule: chksum3_loop.induct)
  case (1 b0 b1 b2 b3 b4 b5 b6 b7 bs acc)
  let ?x = "load32 b0 b1 b2 b3" let ?y = "load32 b4 b5 b6 b7"
  let ?a = "add_carry (add_carry acc ?x) ?y"
  let ?s = "unat b0 + 256 * unat b1 + (unat b2 + 256 * unat b3) + (unat b4 + 256 * unat b5 + (unat b6 + 256 * unat b7))"
  have IH: "(unat acc' + le_sum ps) mod 65535 = (unat ?a + le_sum bs) mod 65535"
    "unat acc' = 0 \<and> le_sum ps = 0 \<longleftrightarrow> unat ?a = 0 \<and> le_sum bs = 0" "length ps \<le> 7"
    using 1 by simp_all
  have "unat ?a mod 65535 = (unat acc + unat ?x + unat ?y) mod 65535"
    unfolding add_carry_facts(1) by (rule mod_add_cong) (simp_all only: add_carry_facts(1))
  also have "\<dots> = (unat acc + ?s) mod 65535" unfolding unat_load32
    by (rule mod_by_multiple [where k = "unat b2 + 256 * unat b3 + (unat b6 + 256 * unat b7)"]) simp
  finally have "(unat ?a + le_sum bs) mod 65535 = (unat acc + ?s + le_sum bs) mod 65535"
    by (rule mod_add_cong [OF _ refl])
  moreover have "unat acc + ?s + le_sum bs = unat acc + le_sum (b0 # b1 # b2 # b3 # b4 # b5 # b6 # b7 # bs)" by simp
  moreover have "unat ?a = 0 \<longleftrightarrow> unat acc = 0 \<and> unat ?x = 0 \<and> unat ?y = 0" by (simp only: add_carry_facts(2)) blast
  moreover have "unat ?a = 0 \<and> le_sum bs = 0 \<longleftrightarrow>
      unat acc = 0 \<and> le_sum (b0 # b1 # b2 # b3 # b4 # b5 # b6 # b7 # bs) = 0"
    unfolding calculation(3) unat_load32 by auto
  ultimately show ?case using IH by simp
qed auto

text \<open>The 16-bit word that brings the address to a multiple of four.\<close>

lemma chksum3_middle:
  assumes "(acc :: u32, pl) = (if c \<and> 1 < length ps then (ucast (load16 (ps ! 0) (ps ! 1)), drop 2 ps) else (0, ps))"
  shows "unat acc + le_sum pl = le_sum ps"
proof (cases "c \<and> 1 < length ps")
  case True
  then obtain a b r where "ps = a # b # r" by (cases ps; cases "tl ps") auto
  then show ?thesis using True assms unat_ucast32 [of "load16 a b"] by (simp add: unat_load16)
qed (use assms in \<open>simp split: if_splits\<close>)

theorem chksum3_ones:
  assumes "length bs \<le> 0x1FFFE"
  shows "unat (lwip_standard_chksum_3 dataptr bs) = ones (le_sum bs)"
proof -
  let ?odd = "dataptr AND 1 \<noteq> 0"
  obtain t1 ps where p: "(t1, ps) = (if ?odd \<and> bs \<noteq> [] then (hd bs, tl bs) else (0, bs))"
    by (metis surj_pair)
  note o = odd_start [OF p]
  let ?c = "(if ?odd \<and> bs \<noteq> [] then dataptr + 1 else dataptr) AND 3 \<noteq> 0"
  obtain acc :: u32 and pl where m: "(acc, pl) = (if ?c \<and> 1 < length ps then (ucast (load16 (ps ! 0) (ps ! 1)), drop 2 ps) else (0, ps))"
    by (metis surj_pair)
  obtain acc' ps' where l3: "chksum3_loop pl acc = (acc', ps')" by fastforce
  obtain acc2 r where l2: "chksum2_loop ps' (FOLD_U32T acc') = (acc2, r)" by fastforce
  let ?s = "acc2 + ucast (load16 (if r \<noteq> [] then hd r else 0) t1)"
  note c = chksum3_middle [OF m] chksum3_loop_sum [OF l3]
  have "unat (FOLD_U32T acc') \<le> 131070"
  proof -
    have "unat acc' div 65536 < 65536" by (rule div_16_bound [OF u32_less_2p32])
    moreover have "unat acc' mod 65536 < 65536" by simp
    ultimately show ?thesis unfolding unat_FOLD by linarith
  qed
  moreover have "le_sum ps' \<le> 65535 * 4"
    using le_sum_le [of ps'] c(2) mult_le_mono2 [of "(length ps' + 1) div 2" 4 65535] by linarith
  ultimately have s: "unat ?s = unat (FOLD_U32T acc') + le_sum ps' + 256 * unat t1"
    by (intro chksum2_main [OF l2]) linarith
  have "lwip_standard_chksum_3 dataptr bs =
      ucast (if ?odd then SWAP_BYTES_IN_WORD (FOLD_U32T (FOLD_U32T ?s)) else FOLD_U32T (FOLD_U32T ?s))"
    unfolding lwip_standard_chksum_3_def Let_def p [symmetric] prod.case m [symmetric] by (simp add: l3 l2)
  moreover have "unat (ucast (if ?odd then SWAP_BYTES_IN_WORD (FOLD_U32T (FOLD_U32T ?s)) else FOLD_U32T (FOLD_U32T ?s)) :: u16)
      = ones (le_sum bs)"
  proof (rule finish_sum [OF _ _ o(1,2)])
    have "(unat (FOLD_U32T acc') + le_sum ps') mod 65535 = (unat acc' + le_sum ps') mod 65535"
      by (rule mod_add_cong [OF unat_FOLD_mod refl])
    also have "\<dots> = le_sum ps mod 65535" using c by simp
    finally show "unat ?s mod 65535 = (le_sum ps + 256 * unat t1) mod 65535"
      unfolding s by (rule mod_add_cong [OF _ refl])
    show "(unat ?s = 0) = (le_sum ps = 0 \<and> t1 = 0)"
      unfolding s using c unat_FOLD_0_iff [of acc'] by (auto simp: unat_eq_0)
  qed
  ultimately show ?thesis by simp
qed

text \<open>The three alternatives agree, and the sum does not depend on where the data lies.\<close>

lemma chksum_alternatives:
  assumes "length bs \<le> 0x1FFFE"
  shows "lwip_standard_chksum_1 bs = lwip_standard_chksum dataptr bs"
    "lwip_standard_chksum_3 dataptr bs = lwip_standard_chksum dataptr' bs"
    "lwip_standard_chksum dataptr bs = lwip_standard_chksum dataptr' bs"
  by (simp_all only: word_unat_eq_iff chksum_ones [OF assms] chksum1_ones [OF assms] chksum3_ones [OF assms])

section \<open>Checksums\<close>

lemma not16_0_iff: "NOT (x :: u16) = 0 \<longleftrightarrow> unat x = 65535"
proof
  assume "NOT x = 0"
  then have "NOT (NOT x) = NOT 0" by (rule arg_cong)
  then have "x = 65535" by simp
  then show "unat x = 65535" by simp
next
  assume "unat x = 65535"
  then have "x = 65535" by (metis word_nat_cases word_of_nat_unat of_nat_numeral)
  then show "NOT x = 0" by simp
qed

lemma inet_chksum_0_iff:
  assumes "length bs \<le> 0x1FFFE"
  shows "inet_chksum dataptr bs = 0 \<longleftrightarrow> 0 < le_sum bs \<and> le_sum bs mod 65535 = 0"
  unfolding inet_chksum_def not16_0_iff chksum_ones [OF assms] by (rule ones_full_iff)

lemma shifted_mod: "a mod 65535 = b mod 65535 \<Longrightarrow> shifted s a mod 65535 = shifted s b mod 65535"
  by (cases s) (auto intro: mod_mult_cong)

lemma shifted_add: "shifted s (a + b) = shifted s a + shifted s b"
  by (cases s) simp_all

lemma shifted_twice: "shifted s (shifted t n) mod 65535 = shifted (s \<noteq> t) n mod 65535"
  by (cases s; cases t) (simp_all only: shifted_simps swap_256 simp_thms)

text \<open>The loop over a chain: the accumulator, with its bytes exchanged when it says so, is the
  sum of the bytes.\<close>

lemma chain_sum_mod:
  assumes "\<forall>q \<in> set qs. seg_len q \<le> 0x1FFFE" "unat acc \<le> 65535" "chain_sum qs swapped acc = (swapped', acc')"
  shows "unat acc' \<le> 65535 \<and> shifted swapped' (unat acc') mod 65535 =
    (shifted swapped (unat acc) + shifted swapped (le_sum (concat (map seg_data qs)))) mod 65535"
  using assms
proof (induction qs arbitrary: swapped acc)
  case (Cons q qs)
  let ?rest = "le_sum (concat (map seg_data qs))" and ?c = "lwip_standard_chksum (seg_payload q) (seg_data q)"
  define acc1 where "acc1 = FOLD_U32T (acc + ucast ?c)"
  have len: "length (seg_data q) \<le> 0x1FFFE" using Cons.prems(1) by (simp add: seg_len_def)
  have c: "unat ?c \<le> 65535" "unat ?c mod 65535 = le_sum (seg_data q) mod 65535"
    unfolding chksum_ones [OF len] by (rule ones_le ones_mod)+
  have u: "unat (acc + ucast ?c) = unat acc + unat ?c"
    using Cons.prems(2) c(1) by (subst unat_plus_small) simp_all
  have a: "unat acc1 \<le> 65535" "unat acc1 mod 65535 = (unat acc + le_sum (seg_data q)) mod 65535"
  proof -
    show "unat acc1 \<le> 65535" unfolding acc1_def using u Cons.prems(2) c(1) by (intro unat_FOLD_le) simp
    show "unat acc1 mod 65535 = (unat acc + le_sum (seg_data q)) mod 65535"
      unfolding acc1_def unat_FOLD_mod u by (rule mod_add_cong [OF refl c(2)])
  qed
  have shift: "(shifted swapped (unat acc1) + shifted (swapped \<noteq> odd (seg_len q)) ?rest) mod 65535 =
      (shifted swapped (unat acc) + shifted swapped (le_sum (concat (map seg_data (q # qs))))) mod 65535"
  proof -
    have "shifted swapped (le_sum (concat (map seg_data (q # qs)))) mod 65535 =
        shifted swapped (le_sum (seg_data q) + shifted (odd (seg_len q)) ?rest) mod 65535"
      by (rule shifted_mod) (simp add: le_sum_append_mod seg_len_def)
    also have "\<dots> = (shifted swapped (le_sum (seg_data q)) + shifted (swapped \<noteq> odd (seg_len q)) ?rest) mod 65535"
      unfolding shifted_add by (rule mod_add_cong [OF refl shifted_twice])
    finally have "(shifted swapped (unat acc) + shifted swapped (le_sum (concat (map seg_data (q # qs))))) mod 65535
        = (shifted swapped (unat acc) + (shifted swapped (le_sum (seg_data q)) + shifted (swapped \<noteq> odd (seg_len q)) ?rest)) mod 65535"
      by (rule mod_add_cong [OF refl])
    also have "\<dots> = (shifted swapped (unat acc + le_sum (seg_data q)) + shifted (swapped \<noteq> odd (seg_len q)) ?rest) mod 65535"
      by (simp only: shifted_add add.assoc)
    also have "\<dots> = (shifted swapped (unat acc1) + shifted (swapped \<noteq> odd (seg_len q)) ?rest) mod 65535"
      by (rule mod_add_cong [OF shifted_mod refl]) (simp only: a(2))
    finally show ?thesis by (rule sym)
  qed
  show ?case
  proof (cases "odd (seg_len q)")
    case True
    then have "chain_sum qs (\<not> swapped) (SWAP_BYTES_IN_WORD acc1) = (swapped', acc')"
      using Cons.prems(3) by (simp add: acc1_def Let_def odd_iff_mod_2_eq_one)
    from Cons.IH [OF _ swap_facts(1) this] Cons.prems(1)
    have IH: "unat acc' \<le> 65535" "shifted swapped' (unat acc') mod 65535 =
      (shifted (\<not> swapped) (unat (SWAP_BYTES_IN_WORD acc1)) + shifted (\<not> swapped) ?rest) mod 65535" by simp_all
    have "shifted (\<not> swapped) (unat (SWAP_BYTES_IN_WORD acc1)) mod 65535 = shifted (\<not> swapped) (shifted True (unat acc1)) mod 65535"
      by (rule shifted_mod) (simp add: swap_facts(2) [OF a(1)])
    also have "\<dots> = shifted swapped (unat acc1) mod 65535" unfolding shifted_twice by simp
    finally have "shifted swapped' (unat acc') mod 65535 = (shifted swapped (unat acc1) + shifted (\<not> swapped) ?rest) mod 65535"
      unfolding IH(2) by (rule mod_add_cong [OF _ refl])
    then show ?thesis using IH(1) shift True by simp
  next
    case False
    then have "chain_sum qs swapped acc1 = (swapped', acc')"
      using Cons.prems(3) by (simp add: acc1_def Let_def odd_iff_mod_2_eq_one)
    from Cons.IH [OF _ a(1) this] Cons.prems(1) shift False show ?thesis by simp
  qed
qed (auto simp: shifted_def)

lemma chain_total:
  assumes "\<forall>q \<in> set qs. seg_len q \<le> 0x1FFFE" "unat acc \<le> 65535" "chain_sum qs False acc = (swapped', acc')"
  shows "unat (if swapped' then SWAP_BYTES_IN_WORD acc' else acc') mod 65535 =
      (unat acc + le_sum (concat (map seg_data qs))) mod 65535"
    "unat (if swapped' then SWAP_BYTES_IN_WORD acc' else acc') \<le> 65535"
  using chain_sum_mod [OF assms] swap_facts(1,2) [of acc'] by (auto simp del: unat_swap)

section \<open>The pseudo header\<close>

text \<open>The sum over the pseudo header of UDP, in the byte order of the machine.\<close>

definition addr_sum :: "u32 \<Rightarrow> nat" where "addr_sum a = unat a mod 65536 + unat a div 65536"

definition pseudo_sum :: "u8 \<Rightarrow> u16 \<Rightarrow> u32 \<Rightarrow> u32 \<Rightarrow> nat" where
  "pseudo_sum proto proto_len src dest =
     addr_sum src + addr_sum dest + 256 * unat proto + unat (lwip_htons proto_len)"

lemma unat_htons_u8: "unat (lwip_htons (ucast (b :: u8))) = 256 * unat b"
proof -
  have "unat b < 256" by simp
  then have "unat (ucast b :: u16) = unat b"
    by (simp add: unsigned_ucast_eq take_bit_nat_eq_self del: u8_less_256)
  then show ?thesis using u8_less_256 [of b] by (simp add: unat_htons div_less_iff_less_mult del: u8_less_256)
qed

lemma addr_acc: "unat (x AND 0xffff) + unat (drop_bit 16 x AND 0xffff) = addr_sum x"
proof -
  have "unat x div 65536 < 65536" by (rule div_16_bound [OF u32_less_2p32])
  then show ?thesis by (simp add: addr_sum_def unat_low16 unat_high16)
qed

lemma addr_sum_le: "addr_sum x \<le> 131070"
proof -
  have "unat x div 65536 < 65536" "unat x mod 65536 < 65536" by (simp_all add: div_16_bound u32_less_2p32)
  then show ?thesis by (simp add: addr_sum_def)
qed

lemma ucast_not_low: "unat y \<le> 65535 \<Longrightarrow> (ucast (NOT (y AND 0xffff)) :: u16) = NOT (ucast (y :: u32))"
proof -
  have m: "(0xffff :: u32) = mask 16" by (simp add: mask_eq_exp_minus_1)
  show ?thesis unfolding m by (rule bit_eqI) (simp add: bit_simps)
qed

lemma pseudo_ones:
  assumes "\<forall>q \<in> set (p_segs p). seg_len q \<le> 0x1FFFE" "proto \<noteq> 0"
  obtains k where "unat (NOT (inet_chksum_pseudo p proto proto_len src dest)) = ones k" "0 < k"
    "k mod 65535 = (pseudo_sum proto proto_len src dest + le_sum (p_bytes p)) mod 65535"
proof -
  let ?a = "(src AND 0xffff) + (drop_bit 16 src AND 0xffff) + (dest AND 0xffff) + (drop_bit 16 dest AND 0xffff)"
  have w: "unat (x AND 0xffff :: u32) \<le> 65535" for x by (simp only: unat_low16)
  have ua: "unat ?a = addr_sum src + addr_sum dest"
    using w [of src] w [of "drop_bit 16 src"] w [of dest] w [of "drop_bit 16 dest"] addr_acc [of src] addr_acc [of dest]
    by (simp add: unat_plus_small)
  let ?acc = "FOLD_U32T (FOLD_U32T ?a)"
  have acc: "unat ?acc \<le> 65535" "unat ?acc mod 65535 = (addr_sum src + addr_sum dest) mod 65535"
    unfolding unat_FOLD2 ua by (rule ones_le ones_mod)+
  obtain sw acc' where c: "chain_sum (p_segs p) False ?acc = (sw, acc')" by fastforce
  define e where "e = (if sw then SWAP_BYTES_IN_WORD acc' else acc')"
  note t = chain_total [OF assms(1) acc(1) c, folded e_def]
  let ?x = "e + ucast (lwip_htons (ucast proto)) + ucast (lwip_htons proto_len)"
  have "unat proto < 256" "unat (lwip_htons proto_len) < 65536" by simp_all
  then have ux: "unat ?x = unat e + 256 * unat proto + unat (lwip_htons proto_len)"
    using t(2) by (simp add: unat_plus_small unat_htons_u8 del: u8_less_256 u16_less_65536)
  have o: "unat (FOLD_U32T (FOLD_U32T ?x)) \<le> 65535" unfolding unat_FOLD2 by (rule ones_le)
  have "inet_chksum_pseudo p proto proto_len src dest = ucast (NOT (FOLD_U32T (FOLD_U32T ?x) AND 0xffff))"
    by (simp add: inet_chksum_pseudo_def inet_cksum_pseudo_base_def Let_def c e_def)
  then have "unat (NOT (inet_chksum_pseudo p proto proto_len src dest)) = ones (unat ?x)"
    by (simp only: ucast_not_low [OF o] bit.double_compl unat_ucast16 [OF o] unat_FOLD2)
  moreover have "0 < unat ?x" unfolding ux using assms(2) unat_eq_0 [of proto] by auto
  moreover have "unat ?x mod 65535 = (pseudo_sum proto proto_len src dest + le_sum (p_bytes p)) mod 65535"
  proof -
    have "unat e mod 65535 = (unat ?acc + le_sum (p_bytes p)) mod 65535"
      using t(1) by (simp add: p_bytes_def p_payloads_def)
    also have "\<dots> = (addr_sum src + addr_sum dest + le_sum (p_bytes p)) mod 65535"
      by (rule mod_add_cong [OF acc(2) refl])
    finally have "(unat e + (256 * unat proto + unat (lwip_htons proto_len))) mod 65535 =
        (addr_sum src + addr_sum dest + le_sum (p_bytes p) + (256 * unat proto + unat (lwip_htons proto_len))) mod 65535"
      by (rule mod_add_cong [OF _ refl])
    then show ?thesis unfolding ux pseudo_sum_def by (simp add: ac_simps)
  qed
  ultimately show thesis by (rule that)
qed

theorem pseudo_0_iff:
  assumes "\<forall>q \<in> set (p_segs p). seg_len q \<le> 0x1FFFE" "proto \<noteq> 0"
  shows "inet_chksum_pseudo p proto proto_len src dest = 0 \<longleftrightarrow>
    (pseudo_sum proto proto_len src dest + le_sum (p_bytes p)) mod 65535 = 0"
proof -
  obtain k where k: "unat (NOT (inet_chksum_pseudo p proto proto_len src dest)) = ones k" "0 < k"
    "k mod 65535 = (pseudo_sum proto proto_len src dest + le_sum (p_bytes p)) mod 65535"
    by (rule pseudo_ones [OF assms])
  have "inet_chksum_pseudo p proto proto_len src dest = 0 \<longleftrightarrow> ones k = 65535"
    using not16_0_iff [of "NOT (inet_chksum_pseudo p proto proto_len src dest)"] k(1) by simp
  then show ?thesis using k(2,3) by (simp add: ones_full_iff)
qed

section \<open>A single changed byte\<close>

text \<open>The weight of a byte in the sum.\<close>

lemma le_sum_update:
  "i < length bs \<Longrightarrow> le_sum (bs[i := b]) + (if even i then 1 else 256) * unat (bs ! i) =
     le_sum bs + (if even i then 1 else 256) * unat b"
proof (induction bs arbitrary: i rule: le_sum.induct)
  case (3 a c bs)
  show ?case
  proof (cases "i < 2")
    case True
    then have "i = 0 \<or> i = 1" by auto
    then show ?thesis by auto
  next
    case False
    then obtain j where "i = Suc (Suc j)" by (metis Suc_diff_Suc Suc_pred add_2_eq_Suc' diff_diff_left le_add_diff_inverse2 not_less numeral_2_eq_2)
    then show ?thesis using 3 by auto
  qed
qed auto

theorem byte_change_shows:
  assumes "i < length bs" "b \<noteq> bs ! i" "(c + le_sum bs) mod 65535 = 0"
  shows "(c + le_sum (bs[i := b])) mod 65535 \<noteq> 0"
proof
  assume z: "(c + le_sum (bs[i := b])) mod 65535 = 0"
  let ?w = "if even i then 1 else 256 :: nat"
  have u: "le_sum (bs[i := b]) + ?w * unat (bs ! i) = le_sum bs + ?w * unat b" by (rule le_sum_update [OF assms(1)])
  have "(c + le_sum (bs[i := b]) + ?w * unat (bs ! i)) mod 65535 = (c + le_sum bs + ?w * unat b) mod 65535"
    using u by (simp add: add.assoc)
  then have "?w * unat (bs ! i) mod 65535 = ?w * unat b mod 65535"
    using z assms(3) by (metis add.left_neutral mod_add_left_eq)
  moreover have "unat (bs ! i) < 256" "unat b < 256" by simp_all
  then have "?w * unat (bs ! i) < 65535" "?w * unat b < 65535" by (auto simp del: u8_less_256)
  ultimately have "?w * unat (bs ! i) = ?w * unat b" by (metis mod_less)
  then have "unat (bs ! i) = unat b" by (simp split: if_splits)
  with assms(2) show False by (simp add: word_unat_eq_iff)
qed

end
