(* ===== verification/LwipRx_Facts.thy ===== *)
theory LwipRx_Facts
  imports LwipPbuf_Facts LwipChksum_Facts
begin

text \<open>
  The way of a frame from the DMA ring to UDP, in terms of its bytes.
\<close>

section \<open>From the ring into a chain\<close>

text \<open>A copy changes the payload only.\<close>

definition same_shape :: "seg \<Rightarrow> seg \<Rightarrow> bool" where
  "same_shape q q' \<longleftrightarrow> seg_type q' = seg_type q \<and> seg_addr q' = seg_addr q \<and> seg_front q' = seg_front q \<and>
     seg_len q' = seg_len q \<and> seg_tail q' = seg_tail q"

lemma fill_segs_ok:
  assumes "sum_list (map seg_len qs) \<le> length src"
  shows "\<exists>qs'. fill_segs qs src = Some qs' \<and> list_all2 same_shape qs qs' \<and>
    concat (map seg_data qs') = take (sum_list (map seg_len qs)) src"
  using assms
proof (induction qs arbitrary: src)
  case (Cons q qs)
  let ?q = "q\<lparr>seg_data := take (seg_len q) src\<rparr>"
  have "sum_list (map seg_len qs) \<le> length (drop (seg_len q) src)" using Cons.prems by simp
  from Cons.IH [OF this] obtain qs' where qs':
    "fill_segs qs (drop (seg_len q) src) = Some qs'" "list_all2 same_shape qs qs'"
    "concat (map seg_data qs') = take (sum_list (map seg_len qs)) (drop (seg_len q) src)" by blast
  have "seg_len ?q = seg_len q" using Cons.prems by (simp add: seg_len_def)
  then have "same_shape q ?q" by (simp add: same_shape_def)
  moreover have "fill_segs (q # qs) src = Some (?q # qs')" using qs'(1) Cons.prems by simp
  ultimately show ?case using qs'(2,3) by (auto simp: take_add)
qed simp

lemma shape_elems:
  "list_all2 same_shape qs qs' \<Longrightarrow> map fst (map seg_elem qs') = map fst (map seg_elem qs) \<and>
     map (length \<circ> snd) (map seg_elem qs') = map (length \<circ> snd) (map seg_elem qs) \<and> map seg_len qs' = map seg_len qs"
  by (induction rule: list_all2_induct)
    (auto simp: same_shape_def seg_elem_def seg_mem_def seg_len_def)

text \<open>The chain of a frame: two bytes of padding, then the frame; all in segments of the pool.\<close>

definition frame_chain :: "pbuf \<Rightarrow> u8 list \<Rightarrow> bool" where
  "frame_chain p f \<longleftrightarrow> (\<exists>pad. length pad = 2 \<and> p_bytes p = pad @ f) \<and> p_len p = min (length f + 2) 592 \<and>
     small p \<and> pool_ok (chain_elems p) \<and> 592 \<le> length (seg_front (p_head p) @ seg_from (p_head p)) \<and>
     seg_front (p_head p) = [] \<and> p_if_idx p = 0"

lemma pool_ok_elems: "pool_ok es \<longleftrightarrow> (\<forall>n \<in> set (map (length \<circ> snd) es). n = 592) \<and> (\<forall>a \<in> set (map fst es). unat a mod MEM_ALIGNMENT = 0)"
  by (auto simp: pool_ok_def)

lemma pool_ok_append: "pool_ok (xs @ ys) \<longleftrightarrow> pool_ok xs \<and> pool_ok ys"
  by (auto simp: pool_ok_def)

lemma pool_ok_rev: "pool_ok (rev xs) = pool_ok xs"
  by (simp add: pool_ok_def)

lemma pool_ok_take: "pool_ok pool \<Longrightarrow> pool_ok (take n pool)"
  by (auto simp: pool_ok_def dest: in_set_takeD)

lemma pool_ok_drop: "pool_ok pool \<Longrightarrow> pool_ok (drop n pool)"
  by (auto simp: pool_ok_def dest: in_set_dropD)

lemma low_level_input_ok:
  assumes "GetRxFrameSize d = of_nat (length f)" "f \<noteq> []" "length f + 2 < 65536"
    "f = take (length f) (rx_buf d)" "pool_ok pool" "chunks (length f + 2) \<le> length pool"
  shows "\<exists>p. low_level_input (d # ring) pool = Some (Some p, ring, drop (chunks (length f + 2)) pool) \<and>
    frame_chain p f \<and> map fst (chain_elems p) = map fst (take (chunks (length f + 2)) pool)"
proof -
  let ?n = "length f + 2"
  obtain q qs where a: "pool_chain 0 ?n pool = Some (q # qs, drop (chunks ?n) pool)"
    "map seg_elem (q # qs) = take (chunks ?n) pool" "\<forall>r \<in> set (q # qs). sound_seg r"
    "seg_front q = []" "seg_len q = min ?n 592" "sum_list (map seg_len (q # qs)) = ?n"
    using pool_chain_raw [OF assms(5,6)] by blast
  let ?p0 = "\<lparr>p_head = q, p_next = qs, p_flags = 0, p_if_idx = 0\<rparr>"
  have u: "unat (of_nat (length f) + of_nat ETH_PAD_SIZE :: u16) = ?n"
    using assms(3) by (simp add: ETH_PAD_SIZE_def unat_word_ariths unat_of_nat take_bit_nat_eq_self)
  have nz: "(of_nat (length f) :: u16) \<noteq> 0"
  proof
    assume "(of_nat (length f) :: u16) = 0"
    then have "unat (of_nat (length f) :: u16) = 0" by simp
    then have "length f = 0" using assms(3) by (simp only: unat_of_nat) (simp add: take_bit_nat_eq_self)
    with assms(2) show False by simp
  qed
  have l2: "2 \<le> seg_len q" using a(5) by simp
  define q1 where "q1 = seg_remove 2 q"
  have q1: "seg_front q1 = take 2 (seg_data q)" "seg_len q1 = seg_len q - 2" "seg_type q1 = PBUF_POOL"
    "seg_elem q1 = seg_elem q"
    using a(3,4) l2 by (simp_all add: q1_def seg_remove_def seg_len_def sound_seg_def)
      (simp add: seg_elem_def seg_mem_def seg_remove_def)
  have h1: "pbuf_header ?p0 (- int ETH_PAD_SIZE) = (0, ?p0\<lparr>p_head := q1\<rparr>)"
    using l2 by (simp add: pbuf_header_def pbuf_header_impl_def pbuf_remove_header_def ETH_PAD_SIZE_def p_len_def q1_def)
  have tot: "sum_list (map seg_len (q1 # qs)) = length f" using a(6) q1(2) l2 by simp
  have "length f \<le> length (rx_buf d)" using assms(4) by (metis length_take min.bounded_iff order_refl)
  with fill_segs_ok [of "q1 # qs" "rx_buf d"] tot obtain r rs where r:
    "fill_segs (q1 # qs) (rx_buf d) = Some (r # rs)" "list_all2 same_shape (q1 # qs) (r # rs)"
    "concat (map seg_data (r # rs)) = f"
    using assms(4) by (auto simp: list_all2_Cons1)
  then have rq: "same_shape q1 r" by simp
  define p where "p = ?p0\<lparr>p_head := seg_add 2 r, p_next := rs\<rparr>"
  have l: "length (seg_front r) = 2" using rq q1(1) l2 by (simp add: same_shape_def seg_len_def)
  have t: "p_tot_len (?p0\<lparr>p_head := r, p_next := rs\<rparr>) = length f"
    using r(3) by (simp add: p_tot_len_bytes p_bytes_def p_payloads_def p_segs_def)
  have h2: "pbuf_header (?p0\<lparr>p_head := r, p_next := rs\<rparr>) (int ETH_PAD_SIZE) = (0, p)"
    using l rq q1(3) assms(3) t
    by (simp add: pbuf_header_def pbuf_header_impl_def pbuf_add_header_impl_def ETH_PAD_SIZE_def p_def
        contiguous_def same_shape_def)
  have e: "chain_elems p = map seg_elem (r # rs)" by (simp add: p_def chain_elems_def p_segs_def)
  note s = shape_elems [OF r(2)]
  have el: "map seg_elem (q1 # qs) = take (chunks ?n) pool" using a(2) q1(4) by simp
  have fst_e: "map fst (chain_elems p) = map fst (take (chunks ?n) pool)" using s unfolding e el by simp
  have ok: "pool_ok (chain_elems p)" using s pool_ok_take [OF assms(5), of "chunks ?n"]
    unfolding e pool_ok_elems el [symmetric] by simp
  have bytes: "p_bytes p = seg_front r @ f" using r(3) l
    by (simp add: p_bytes_head p_def seg_add_def Let_def)
  have len: "p_len p = min ?n 592" using a(5) l2 q1(2) rq l
    by (simp add: p_def p_len_def seg_add_def Let_def seg_len_def same_shape_def)
  have fr: "seg_front (p_head p) = []" using l by (simp add: p_def seg_add_def Let_def)
  have "frame_chain p f" unfolding frame_chain_def
  proof (intro conjI)
    show "\<exists>pad. length pad = 2 \<and> p_bytes p = pad @ f" using bytes l by blast
    have "\<forall>x \<in> set (chain_elems p). length (snd x) = 592" using ok by (auto simp: pool_ok_def)
    then have m: "\<forall>q \<in> set (p_segs p). length (seg_mem q) = 592" by (simp add: chain_elems_def seg_elem_def)
    then show "small p" by (auto simp: small_def seg_len_def seg_mem_def)
    have "length (seg_mem (p_head p)) = 592" using m by (simp add: p_segs_def)
    then show "592 \<le> length (seg_front (p_head p) @ seg_from (p_head p))" by (simp add: seg_mem_def seg_from_def)
    show "p_if_idx p = 0" by (simp add: p_def)
  qed (use len ok fr in simp_all)
  moreover have "low_level_input (d # ring) pool = Some (Some p, ring, drop (chunks ?n) pool)"
  proof -
    have al: "pbuf_alloc_pool PBUF_RAW ?n pool = (Some ?p0, drop (chunks ?n) pool)"
      using a(1) by (simp add: pbuf_alloc_pool_def)
    show ?thesis unfolding low_level_input_def Let_def list.case assms(1) u al prod.case option.case h1
      using nz r(1) h2 by (simp add: p_segs_def)
  qed
  ultimately show ?thesis using fst_e by blast
qed

section \<open>Fields in terms of bytes\<close>

definition be16 :: "u8 list \<Rightarrow> nat \<Rightarrow> nat" where "be16 bs i = 256 * unat (bs ! i) + unat (bs ! (i + 1))"

lemma unat_ntohs_at16: "unat (lwip_ntohs (at16 bs i)) = be16 bs i"
proof -
  have b: "unat (bs ! i) < 256" "unat (bs ! (i + 1)) < 256" by simp_all
  have "unat (at16 bs i) = unat (bs ! i) + 256 * unat (bs ! (i + 1))" by (simp add: at16_def unat_load16)
  then show ?thesis using b by (simp add: lwip_ntohs_def unat_htons be16_def del: u8_less_256)
qed

lemma ntohs_twice: "lwip_ntohs (lwip_htons x) = x"
  unfolding lwip_ntohs_def lwip_htons_def byte_masks by (rule bit_eqI) (auto simp: bit_simps)

lemma ntohs_at16_eq: "lwip_ntohs (at16 bs i) = w \<longleftrightarrow> be16 bs i = unat w"
  by (metis unat_ntohs_at16 word_unat_eq_iff)

lemma at16_htons_eq: "at16 bs i = lwip_htons w \<longleftrightarrow> be16 bs i = unat w"
  by (metis ntohs_at16_eq ntohs_twice lwip_ntohs_def)

lemma at16_0_iff: "at16 bs i = 0 \<longleftrightarrow> be16 bs i = 0"
  using at16_htons_eq [of bs i 0] by (simp add: lwip_htons_def)

lemma IPH_V_4: "IPH_V b = 4 \<longleftrightarrow> unat b div 16 = 4"
proof -
  have "unat (IPH_V b) = unat b div 16" unfolding IPH_V_def unat_drop_bit_eq by (simp add: drop_bit_eq_div)
  then show ?thesis by (simp add: word_unat_eq_iff)
qed

lemma unat_hlen: "IPH_HL_BYTES b = 4 * (unat b mod 16)"
proof -
  have "(0x0f :: u8) = mask 4" by (simp add: mask_eq_exp_minus_1)
  then have "b AND 0x0f = take_bit 4 b" by (simp add: take_bit_eq_mask)
  then have "unat (b AND 0x0f) = unat b mod 16" by (simp only: unsigned_take_bit_eq) (simp add: take_bit_eq_mod)
  moreover have "unat b mod 16 < 16" by simp
  ultimately show ?thesis by (simp add: IPH_HL_BYTES_def unat_word_ariths)
qed

text \<open>Addresses byte by byte.\<close>

lemma load32_eq_iff: "load32 a b c d = load32 a' b' c' d' \<longleftrightarrow> a = a' \<and> b = b' \<and> c = c' \<and> d = d'"
proof -
  have "ucast (load32 a b c d) = a" "ucast (drop_bit 8 (load32 a b c d)) = b"
    "ucast (drop_bit 16 (load32 a b c d)) = c" "ucast (drop_bit 24 (load32 a b c d)) = d" for a b c d :: u8
    unfolding load32_def by (rule bit_eqI, auto simp: bit_simps dest: bit_imp_le_length)+
  then show ?thesis by metis
qed

lemma load32_and: "load32 a b c d AND load32 a' b' c' d' = load32 (a AND a') (b AND b') (c AND c') (d AND d')"
  unfolding load32_def by (rule bit_eqI) (auto simp: bit_simps dest: bit_imp_le_length)

text \<open>The bits of a word that is put together from bytes.\<close>

lemma bit_load32:
  "bit (load32 a b c d) n \<longleftrightarrow>
     (if n < 8 then bit a n else if n < 16 then bit b (n - 8) else if n < 24 then bit c (n - 16)
      else n < 32 \<and> bit d (n - 24))"
  unfolding load32_def by (cases "n < 8"; cases "n < 16"; cases "n < 24")
    (auto simp: bit_simps not_less dest: bit_imp_le_length)

lemma load32_not: "NOT (load32 a b c d) = load32 (NOT a) (NOT b) (NOT c) (NOT d)"
  by (rule bit_word_eqI) (auto simp: bit_load32 bit_not_iff)

lemma htonl_load32: "lwip_htonl (load32 d c b a) = load32 a b c d"
proof -
  have m: "(0x000000ff :: u32) = mask 8" "(0x0000ff00 :: u32) = push_bit 8 (mask 8)"
    "(0x00ff0000 :: u32) = push_bit 16 (mask 8)" "(0xff000000 :: u32) = push_bit 24 (mask 8)"
    by (simp_all add: mask_eq_exp_minus_1 push_bit_eq_mult)
  show ?thesis unfolding lwip_htonl_def m
  proof (rule bit_word_eqI)
    fix n assume "n < LENGTH(32)"
    then consider "n < 8" | "8 \<le> n" "n < 16" | "16 \<le> n" "n < 24" | "24 \<le> n" "n < 32" by fastforce
    then show "bit (push_bit 24 (load32 d c b a AND mask 8) OR push_bit 8 (load32 d c b a AND push_bit 8 (mask 8)) OR
        drop_bit 8 (load32 d c b a AND push_bit 16 (mask 8)) OR drop_bit 24 (load32 d c b a AND push_bit 24 (mask 8))) n
      = bit (load32 a b c d) n"
      by cases (auto simp: bit_simps bit_load32)
  qed
qed

lemma IP4_ADDR_load32: "IP4_ADDR a b c d = load32 a b c d"
proof -
  have "push_bit 24 (ucast a) OR push_bit 16 (ucast b) OR push_bit 8 (ucast c) OR ucast d = load32 d c b a"
    unfolding load32_def by (simp add: ac_simps)
  then show ?thesis by (simp add: IP4_ADDR_def htonl_load32)
qed

lemma addr_consts:
  "IPADDR_ANY = load32 0 0 0 0" "IPADDR_BROADCAST = load32 255 255 255 255"
  "lwip_htonl 0xf0000000 = load32 0xf0 0 0 0" "lwip_htonl 0xe0000000 = load32 0xe0 0 0 0"
  "lwip_htonl 0xff000000 = load32 0xff 0 0 0" "lwip_htonl (push_bit 24 127) = load32 127 0 0 0"
  by (simp_all add: IPADDR_ANY_def IPADDR_BROADCAST_def load32_def lwip_htonl_def push_bit_eq_mult drop_bit_eq_div)

section \<open>The addresses of the board\<close>

definition nif_ok :: "netif \<Rightarrow> bool" where
  "nif_ok n \<longleftrightarrow> nif_ip n = IP4_ADDR 192 168 10 12 \<and> nif_netmask n = IP4_ADDR 255 255 255 0 \<and>
     has_flag n NETIF_FLAG_UP \<and> has_flag n NETIF_FLAG_BROADCAST \<and> has_flag n NETIF_FLAG_ETHARP \<and>
     has_flag n NETIF_FLAG_IGMP \<and> map group_address (nif_igmp n) = [allsystems, IP4_ADDR 224 224 224 245]"

text \<open>Broadcast addresses, old ones of zeros included; multicast addresses; and what the board
  takes for itself.\<close>

definition is_bcast :: "u8 list \<Rightarrow> bool" where
  "is_bcast a \<longleftrightarrow> a = [255, 255, 255, 255] \<or> a = [0, 0, 0, 0] \<or> a = [192, 168, 10, 255]"

definition is_mcast :: "u8 list \<Rightarrow> bool" where "is_mcast a \<longleftrightarrow> 224 \<le> hd a \<and> hd a < 240"

definition rear_dest :: "u8 list \<Rightarrow> bool" where
  "rear_dest a \<longleftrightarrow> a = [192, 168, 10, 12] \<or> is_bcast a \<or> a = [224, 0, 0, 1] \<or> a = [224, 224, 224, 245]"

definition rear_src :: "u8 list \<Rightarrow> u8 list \<Rightarrow> bool" where
  "rear_src a dest \<longleftrightarrow> \<not> is_bcast a \<and> \<not> is_mcast a \<or> a = [0, 0, 0, 0] \<and> dest = [224, 0, 0, 1]"

lemma u8_255 [simp]: "(x :: u8) AND 255 = x" "NOT (255 :: u8) = 0"
proof -
  have "(255 :: u8) = - 1" by simp
  then show "x AND 255 = x" "NOT (255 :: u8) = 0" by (metis and.right_neutral, simp)
qed

lemma isbroadcast_load32:
  assumes "nif_ok n"
  shows "ip4_addr_isbroadcast_u32 (load32 a b c d) n \<longleftrightarrow> is_bcast [a, b, c, d]"
proof -
  have i: "nif_ip n = load32 192 168 10 12" "nif_netmask n = load32 255 255 255 0" "has_flag n NETIF_FLAG_BROADCAST"
    using assms by (simp_all add: nif_ok_def IP4_ADDR_load32)
  have x: "NOT x = 0 \<longleftrightarrow> x = 255" for x :: u8 by (metis u8_255(2) bit.double_compl)
  have ones_zeros: "NOT (load32 a b c d) = IPADDR_ANY \<longleftrightarrow> [a, b, c, d] = [255, 255, 255, 255]"
    "load32 a b c d = IPADDR_ANY \<longleftrightarrow> [a, b, c, d] = [0, 0, 0, 0]"
    unfolding load32_not addr_consts load32_eq_iff x by simp_all
  have net: "ip4_addr_netcmp (load32 a b c d) (nif_ip n) (nif_netmask n) \<longleftrightarrow> [a, b, c] = [192, 168, 10]"
    unfolding ip4_addr_netcmp_def i load32_and load32_eq_iff by simp
  have host: "load32 a b c d AND NOT (nif_netmask n) = IPADDR_BROADCAST AND NOT (nif_netmask n) \<longleftrightarrow> d = 255"
    unfolding i addr_consts load32_not load32_and load32_eq_iff u8_255 and_zero_eq by simp
  have own: "load32 a b c d = nif_ip n \<longleftrightarrow> [a, b, c, d] = [192, 168, 10, 12]"
    unfolding i load32_eq_iff by simp
  show ?thesis
    unfolding ip4_addr_isbroadcast_u32_def ones_zeros net host own is_bcast_def by (simp add: i(3)) blast
qed

lemma ismulticast_load32: "ip4_addr_ismulticast (load32 a b c d) \<longleftrightarrow> is_mcast [a, b, c, d]"
proof -
  have "unat (a AND 0xf0) = 16 * (unat a div 16)"
  proof -
    have m: "(0xf0 :: u8) = push_bit 4 (mask 4)" by (simp add: mask_eq_exp_minus_1 push_bit_eq_mult)
    have "a AND 0xf0 = push_bit 4 (drop_bit 4 a)" unfolding m by (rule bit_word_eqI) (auto simp: bit_simps)
    moreover have "unat (push_bit 4 (drop_bit 4 a)) = push_bit 4 (drop_bit 4 (unat a))"
    proof -
      have "push_bit 4 (drop_bit 4 (unat a)) < 2 ^ 8"
        using u8_less_256 [of a] div_times_less_eq_dividend [of "unat a" 16]
        by (simp add: push_bit_eq_mult drop_bit_eq_div del: u8_less_256)
      then show ?thesis unfolding unsigned_push_bit_eq unat_drop_bit_eq by (simp add: take_bit_nat_eq_self)
    qed
    ultimately show ?thesis by (simp add: push_bit_eq_mult drop_bit_eq_div)
  qed
  moreover have "unat (0xe0 :: u8) = 224" by simp
  ultimately have "a AND 0xf0 = 0xe0 \<longleftrightarrow> 16 * (unat a div 16) = 224" unfolding word_unat_eq_iff by (simp only:)
  also have "\<dots> \<longleftrightarrow> 224 \<le> unat a \<and> unat a < 240" by presburger
  also have "\<dots> \<longleftrightarrow> 224 \<le> a \<and> a < 240" by (simp add: word_le_nat_alt word_less_nat_alt)
  finally show ?thesis
    unfolding ip4_addr_ismulticast_def addr_consts load32_and load32_eq_iff and_zero_eq is_mcast_def by simp
qed

lemma lookfor_ok:
  assumes "nif_ok n"
  shows "igmp_lookfor_group (nif_igmp n) (load32 a b c d) \<noteq> None \<longleftrightarrow>
    [a, b, c, d] = [224, 0, 0, 1] \<or> [a, b, c, d] = [224, 224, 224, 245]"
proof -
  obtain g h where "nif_igmp n = [g, h]" "group_address g = allsystems" "group_address h = IP4_ADDR 224 224 224 245"
    using assms by (auto simp: nif_ok_def map_eq_Cons_conv)
  then show ?thesis by (auto simp: allsystems_def IP4_ADDR_load32 load32_eq_iff)
qed

lemma match_netif_ok:
  assumes "nif_ok n"
  shows "ip4_match_netif (load32 a b c d) n [n] = (if rear_dest [a, b, c, d] then Some n else None)"
proof -
  have i: "nif_ip n = load32 192 168 10 12" "has_flag n NETIF_FLAG_UP" "has_flag n NETIF_FLAG_IGMP"
    using assms by (simp_all add: nif_ok_def IP4_ADDR_load32)
  have acc: "ip4_input_accept (load32 a b c d) n \<longleftrightarrow> [a, b, c, d] = [192, 168, 10, 12] \<or> is_bcast [a, b, c, d]"
    using i by (auto simp: ip4_input_accept_def netif_is_up_def ip4_addr_isany_val_def addr_consts load32_eq_iff
        isbroadcast_load32 [OF assms])
  show ?thesis
  proof (cases "is_mcast [a, b, c, d]")
    case True
    then have "\<not> is_bcast [a, b, c, d]" "[a, b, c, d] \<noteq> [192, 168, 10, 12]"
      by (auto simp: is_mcast_def is_bcast_def)
    then show ?thesis using True i(3) lookfor_ok [OF assms, of a b c d]
      unfolding ip4_match_netif_def ismulticast_load32 by (auto simp: rear_dest_def)
  next
    case False
    then have "[a, b, c, d] \<noteq> [224, 0, 0, 1]" "[a, b, c, d] \<noteq> [224, 224, 224, 245]"
      by (auto simp: is_mcast_def)
    then show ?thesis using False acc
      unfolding ip4_match_netif_def ismulticast_load32 by (auto simp: rear_dest_def)
  qed
qed

lemma source_ok:
  assumes "nif_ok n"
  shows "ip4_check_src (load32 a b c d) (load32 a' b' c' d') n \<and>
      (ip4_addr_isbroadcast_u32 (load32 a b c d) n \<or> ip4_addr_ismulticast (load32 a b c d)) \<longleftrightarrow>
    \<not> rear_src [a, b, c, d] [a', b', c', d']"
proof -
  have i: "has_flag n NETIF_FLAG_IGMP" using assms by (simp add: nif_ok_def)
  have "ip4_check_src (load32 a b c d) (load32 a' b' c' d') n \<longleftrightarrow>
      \<not> ([a, b, c, d] = [0, 0, 0, 0] \<and> [a', b', c', d'] = [224, 0, 0, 1])"
    using i lookfor_ok [OF assms, of a' b' c' d']
    by (auto simp: ip4_check_src_def ismulticast_load32 is_mcast_def allsystems_def IP4_ADDR_load32 load32_eq_iff
        ip4_addr_isany_val_def addr_consts)
  then show ?thesis unfolding isbroadcast_load32 [OF assms] ismulticast_load32 rear_src_def by blast
qed

section \<open>The IP header\<close>

definition ip_hlen :: "u8 list \<Rightarrow> nat" where "ip_hlen bs = 4 * (unat (bs ! 0) mod 16)"
definition ip_len :: "u8 list \<Rightarrow> nat" where "ip_len bs = be16 bs 2"

definition ip_header_ok :: "u8 list \<Rightarrow> bool" where
  "ip_header_ok bs \<longleftrightarrow> unat (bs ! 0) div 16 = 4 \<and> 20 \<le> ip_hlen bs \<and> ip_hlen bs \<le> ip_len bs \<and>
     ip_len bs \<le> length bs \<and> be_sum (take (ip_hlen bs) bs) mod 65535 = 0"

text \<open>A checksum is 0 in one byte order when it is 0 in the other.\<close>

lemma le_be_0: "le_sum bs mod 65535 = 0 \<longleftrightarrow> be_sum bs mod 65535 = 0"
proof -
  have a: "256 * be_sum bs mod 65535 = le_sum bs mod 65535" by (rule le_be_mod)
  have b: "be_sum bs mod 65535 = 256 * le_sum bs mod 65535"
  proof -
    have "256 * le_sum bs mod 65535 = 256 * (256 * be_sum bs) mod 65535"
      by (rule mod_mult_cong) (simp_all only: a)
    then show ?thesis by (simp only: swap_256)
  qed
  show ?thesis
  proof
    assume "le_sum bs mod 65535 = 0"
    then show "be_sum bs mod 65535 = 0" unfolding b by (metis mod_0 mod_mult_right_eq mult_zero_right)
  next
    assume "be_sum bs mod 65535 = 0"
    then show "le_sum bs mod 65535 = 0" unfolding a [symmetric] by (metis mod_0 mod_mult_right_eq mult_zero_right)
  qed
qed

lemma inet_chksum_be:
  assumes "length bs \<le> 0x1FFFE" "\<exists>b \<in> set bs. b \<noteq> 0"
  shows "inet_chksum a bs = 0 \<longleftrightarrow> be_sum bs mod 65535 = 0"
proof -
  have "0 < le_sum bs" using assms(2) le_sum_0_iff [of bs] by auto
  then show ?thesis by (simp add: inet_chksum_0_iff [OF assms(1)] le_be_0)
qed

lemma head_in_take: "0 < n \<Longrightarrow> bs \<noteq> [] \<Longrightarrow> bs ! 0 \<noteq> 0 \<Longrightarrow> \<exists>b \<in> set (take n bs). b \<noteq> 0"
  by (cases bs; cases n) auto

text \<open>A chain at the start of \<open>ip4_input\<close>; \<open>n\<close> is the largest length of its first segment.\<close>

definition ip_chain :: "nat \<Rightarrow> pbuf \<Rightarrow> u8 list \<Rightarrow> bool" where
  "ip_chain n p bs \<longleftrightarrow> p_bytes p = bs \<and> p_len p = min (length bs) n \<and> small p"

lemma chain_nth: "i < p_len p \<Longrightarrow> seg_data (p_head p) ! i = p_bytes p ! i"
  by (simp add: p_bytes_head p_len_def seg_len_def nth_append)

lemma chain_take: "n \<le> p_len p \<Longrightarrow> take n (seg_data (p_head p)) = take n (p_bytes p)"
  by (simp add: p_bytes_head p_len_def seg_len_def)

lemma mem_nth: "i < p_len p \<Longrightarrow> seg_from (p_head p) ! i = p_bytes p ! i"
  by (simp add: p_bytes_head p_len_def seg_len_def seg_from_def nth_append)

text \<open>Freeing gives the elements back.\<close>

definition total :: "pbuf \<Rightarrow> pool \<Rightarrow> (u32 \<times> u8 list) multiset" where
  "total p pool = mset (chain_elems p) + mset pool"

lemma free_total: "mset (pbuf_free p pool) = total p pool"
  by (simp add: pbuf_free_elems total_def)

lemma total_realloc: "pbuf_realloc p n pool = (p', pool') \<Longrightarrow> total p' pool' = total p pool"
  unfolding total_def by (rule elems_realloc)

definition ip_rest :: "pbuf \<Rightarrow> nat \<Rightarrow> u8 list \<Rightarrow> netif \<Rightarrow> lwip \<Rightarrow> ip_fate \<times> lwip" where
  "ip_rest p hlen bs inp s =
     (let src = at32 bs 12; dest = at32 bs 16
      in if ip4_check_src src dest inp \<and> (ip4_addr_isbroadcast_u32 src inp \<or> ip4_addr_ismulticast src)
         then ip4_drop BadSource p s
         else case ip4_match_netif dest inp (lw_netifs s) of
            None \<Rightarrow> ip4_drop NotForUs p s
          | Some n \<Rightarrow> if at16 bs 6 AND lwip_htons (IP_OFFMASK OR IP_MF) \<noteq> 0 then (IpReass p, s)
              else ip4_deliver p hlen n inp src dest s)"

lemma at32_cong: "(\<And>j. j < 4 \<Longrightarrow> b ! (i + j) = b' ! (i + j)) \<Longrightarrow> at32 b i = at32 b' i"
proof -
  assume h: "\<And>j. j < 4 \<Longrightarrow> b ! (i + j) = b' ! (i + j)"
  from h [of 0] h [of 1] h [of 2] h [of 3] show ?thesis by (simp add: at32_def)
qed

lemma at16_cong: "(\<And>j. j < 2 \<Longrightarrow> b ! (i + j) = b' ! (i + j)) \<Longrightarrow> at16 b i = at16 b' i"
proof -
  assume h: "\<And>j. j < 2 \<Longrightarrow> b ! (i + j) = b' ! (i + j)"
  from h [of 0] h [of 1] show ?thesis by (simp add: at16_def)
qed

text \<open>A header that is not well-formed drops the packet.\<close>

lemma ip4_input_bad:
  assumes "ip_chain n p bs" "60 \<le> n" "4 \<le> length (seg_from (p_head p))" "\<not> ip_header_ok bs" "bs \<noteq> []"
  shows "\<exists>why s'. ip4_input p inp s = Some (IpDrop why, s') \<and> mset (lw_pool s') = total p (lw_pool s) \<and>
    s' = s\<lparr>lw_pool := lw_pool s'\<rparr>"
proof -
  let ?hdr = "seg_from (p_head p)"
  have c: "p_bytes p = bs" "p_len p = min (length bs) n" "small p" using assms(1) by (simp_all add: ip_chain_def)
  have drop: "\<exists>why s'. Some (ip4_drop w q (s\<lparr>lw_pool := pool\<rparr>)) = Some (IpDrop why, s') \<and> mset (lw_pool s') = total p (lw_pool s)
      \<and> s' = s\<lparr>lw_pool := lw_pool s'\<rparr>"
    if "total q pool = total p (lw_pool s)" for w q pool
    using that by (simp add: ip4_drop_def free_total)
  show ?thesis
  proof (cases "IPH_V (?hdr ! 0) = 4")
    case False
    then show ?thesis using drop [of p "lw_pool s" BadVersion] assms(3) by (simp add: ip4_input_def Let_def)
  next
    case True
    let ?hlen = "IPH_HL_BYTES (?hdr ! 0)" and ?len = "unat (lwip_ntohs (IPH_LEN ?hdr))"
    obtain q pool where q: "(if ?len < p_tot_len p then pbuf_realloc p ?len (lw_pool s) else (p, lw_pool s)) = (q, pool)"
      by fastforce
    then have t: "total q pool = total p (lw_pool s)" by (auto split: if_splits intro: total_realloc)
    have qb: "p_bytes q = take ?len bs" "p_len q = min ?len (p_len p) \<or> p_len q = p_len p \<and> p_tot_len p \<le> ?len" "small q"
      using q realloc_ok [of ?len p "lw_pool s" q pool] small_realloc [OF c(3), of ?len "lw_pool s" q pool] c
      by (auto split: if_splits simp: p_tot_len_bytes)
    show ?thesis
    proof (cases "p_len q < ?hlen \<or> p_tot_len q < ?len \<or> ?hlen < IP_HLEN")
      case True
      then show ?thesis using drop [OF t, of BadLength] assms(3) \<open>IPH_V _ = 4\<close> q by (simp add: ip4_input_def Let_def)
    next
      case False
      then have f: "?hlen \<le> p_len q" "?len \<le> p_tot_len q" "20 \<le> ?hlen" by (simp_all add: IP_HLEN_def)
      then have l: "?len \<le> length bs" "?hlen \<le> ?len" "?hlen \<le> p_len p"
        using qb(1,2) p_len_le [of q] by (auto simp: p_tot_len_bytes)
      then have nth: "i < 20 \<Longrightarrow> ?hdr ! i = bs ! i" for i using f(3) mem_nth [of i p] c(1) by simp
      have e: "?hlen = ip_hlen bs" "?len = ip_len bs" "unat (bs ! 0) div 16 = 4"
        using nth True unfolding unat_hlen IPH_LEN_def unat_ntohs_at16 ip_hlen_def ip_len_def IPH_V_4
        by (simp_all add: be16_def)
      then have bad: "be_sum (take ?hlen bs) mod 65535 \<noteq> 0"
        using assms(4) f(3) l by (auto simp: ip_header_ok_def)
      have d: "take ?hlen (seg_data (p_head q)) = take ?hlen bs"
        using chain_take [OF f(1)] qb(1) l(2) by simp
      have "bs ! 0 \<noteq> 0" using e(3) by auto
      with f(3) l assms(5) have nz: "\<exists>b \<in> set (take ?hlen bs). b \<noteq> 0" by (intro head_in_take) simp_all
      have "?hlen \<le> 60" unfolding unat_hlen by simp
      then have "inet_chksum (seg_payload (p_head q)) (take ?hlen (seg_data (p_head q))) \<noteq> 0"
        unfolding d using inet_chksum_be [OF _ nz] bad by simp
      then show ?thesis using drop [OF t, of BadChecksum] assms(3) \<open>IPH_V _ = 4\<close> q False by (simp add: ip4_input_def Let_def)
    qed
  qed
qed

lemma ip4_input_good:
  assumes "ip_chain n p bs" "60 \<le> n" "ip_header_ok bs"
  shows "\<exists>q pool. ip4_input p inp s = Some (ip_rest q (ip_hlen bs) bs inp (s\<lparr>lw_pool := pool\<rparr>)) \<and>
    ip_chain n q (take (ip_len bs) bs) \<and> total q pool = total p (lw_pool s)"
proof -
  let ?hdr = "seg_from (p_head p)"
  have c: "p_bytes p = bs" "p_len p = min (length bs) n" "small p" using assms(1) by (simp_all add: ip_chain_def)
  have h: "unat (bs ! 0) div 16 = 4" "20 \<le> ip_hlen bs" "ip_hlen bs \<le> ip_len bs" "ip_len bs \<le> length bs"
    "be_sum (take (ip_hlen bs) bs) mod 65535 = 0" using assms(3) by (simp_all add: ip_header_ok_def)
  have b: "20 \<le> p_len p" using h c(2) assms(2) by simp
  then have nth: "i < 20 \<Longrightarrow> ?hdr ! i = bs ! i" for i using mem_nth [of i p] c(1) by simp
  have "20 \<le> length ?hdr" using b by (simp add: seg_from_def p_len_def seg_len_def)
  have e: "IPH_HL_BYTES (?hdr ! 0) = ip_hlen bs" "unat (lwip_ntohs (IPH_LEN ?hdr)) = ip_len bs" "IPH_V (?hdr ! 0) = 4"
    using nth h(1) unfolding unat_hlen IPH_LEN_def unat_ntohs_at16 ip_hlen_def ip_len_def IPH_V_4
    by (simp_all add: be16_def)
  obtain q pool where q: "(if ip_len bs < p_tot_len p then pbuf_realloc p (ip_len bs) (lw_pool s) else (p, lw_pool s)) = (q, pool)"
    by fastforce
  then have t: "total q pool = total p (lw_pool s)" by (auto split: if_splits intro: total_realloc)
  have qb: "p_bytes q = take (ip_len bs) bs" "p_len q = min (ip_len bs) (p_len p)" "small q"
    using q realloc_ok [of "ip_len bs" p "lw_pool s" q pool] small_realloc [OF c(3), of "ip_len bs" "lw_pool s" q pool] c h(4)
    by (auto split: if_splits simp: p_tot_len_bytes)
  have hl: "ip_hlen bs \<le> 60" by (simp add: ip_hlen_def)
  have l: "ip_hlen bs \<le> p_len q" "p_tot_len q = ip_len bs" using qb h c(2) hl assms(2) by (simp_all add: p_tot_len_bytes)
  have d: "take (ip_hlen bs) (seg_data (p_head q)) = take (ip_hlen bs) bs"
    using chain_take [OF l(1)] qb(1) h(3) by simp
  have "bs ! 0 \<noteq> 0" using h(1) by auto
  moreover have "bs \<noteq> []" using h by auto
  ultimately have nz: "\<exists>b \<in> set (take (ip_hlen bs) bs). b \<noteq> 0" using h(2) by (intro head_in_take) simp_all
  have ck: "inet_chksum (seg_payload (p_head q)) (take (ip_hlen bs) (seg_data (p_head q))) = 0"
    unfolding d using inet_chksum_be [OF _ nz] h(5) hl by simp
  have f: "IPH_SRC ?hdr = at32 bs 12" "IPH_DEST ?hdr = at32 bs 16" "IPH_OFFSET ?hdr = at16 bs 6"
    unfolding IPH_SRC_def IPH_DEST_def IPH_OFFSET_def by (rule at32_cong at16_cong, rule nth, simp)+
  have "ip4_input p inp s = Some (ip_rest q (ip_hlen bs) bs inp (s\<lparr>lw_pool := pool\<rparr>))"
    unfolding ip4_input_def Let_def e q prod.case ck f ip_rest_def
    using \<open>20 \<le> length ?hdr\<close> l h(2) by (auto simp: IP_HLEN_def split: option.split)
  moreover have "ip_chain n q (take (ip_len bs) bs)" using qb c(2) h(4) by (simp add: ip_chain_def min_def)
  ultimately show ?thesis using t by blast
qed

section \<open>UDP\<close>

text \<open>The sum that the checksum of a datagram completes, in network order.\<close>

definition udp_sum :: "u8 list \<Rightarrow> u8 list \<Rightarrow> u8 list \<Rightarrow> nat" where
  "udp_sum src dest u = be_sum src + be_sum dest + unat IP_PROTO_UDP + length u + be_sum u"

lemma addr_sum_load32: "addr_sum (load32 a b c d) = le_sum [a, b, c, d]"
proof -
  have "unat a < 256" "unat b < 256" by simp_all
  then have l: "unat a + 256 * unat b < 65536" by (simp del: u8_less_256)
  then have "(unat a + 256 * unat b + 65536 * (unat c + 256 * unat d)) mod 65536 = unat a + 256 * unat b"
    "(unat a + 256 * unat b + 65536 * (unat c + 256 * unat d)) div 65536 = unat c + 256 * unat d"
    by (simp_all only: mod_mult_self2 div_mult_self2 mod_less div_less)
  then show ?thesis unfolding addr_sum_def unat_load32 by simp
qed

lemma mod_256_cancel: "256 * n mod 65535 = 0 \<longleftrightarrow> n mod (65535 :: nat) = 0"
proof
  assume "256 * n mod 65535 = 0"
  then have "256 * (256 * n) mod 65535 = 256 * 0 mod 65535" by (intro mod_mult_cong) simp_all
  then show "n mod 65535 = 0" by (simp only: swap_256 mult_0_right mod_0)
next
  assume "n mod 65535 = 0"
  then have "256 * n mod 65535 = 256 * 0 mod 65535" by (intro mod_mult_cong) simp_all
  then show "256 * n mod 65535 = 0" by simp
qed

lemma pseudo_udp_sum:
  assumes "length u < 65536"
  shows "(pseudo_sum IP_PROTO_UDP (of_nat (length u)) (load32 a b c d) (load32 a' b' c' d') + le_sum u) mod 65535 =
    256 * udp_sum [a, b, c, d] [a', b', c', d'] u mod 65535"
proof -
  let ?n = "length u"
  have n: "unat (of_nat ?n :: u16) = ?n" using assms by (simp add: unat_of_nat take_bit_nat_eq_self)
  have h: "unat (lwip_htons (of_nat ?n)) mod 65535 = 256 * ?n mod 65535"
    using swap_mod [of ?n] assms by (simp add: unat_htons n div_less_iff_less_mult)
  have "(pseudo_sum IP_PROTO_UDP (of_nat ?n) (load32 a b c d) (load32 a' b' c' d') + le_sum u) mod 65535 =
      (le_sum [a, b, c, d] + (le_sum [a', b', c', d'] + (256 * unat IP_PROTO_UDP + (unat (lwip_htons (of_nat ?n)) + le_sum u)))) mod 65535"
    unfolding pseudo_sum_def addr_sum_load32 by (simp only: add.assoc)
  also have "\<dots> = (256 * be_sum [a, b, c, d] + (256 * be_sum [a', b', c', d'] + (256 * unat IP_PROTO_UDP + (256 * ?n + 256 * be_sum u)))) mod 65535"
    by (intro mod_add_cong le_be_mod [symmetric] h refl)
  also have "\<dots> = 256 * udp_sum [a, b, c, d] [a', b', c', d'] u mod 65535"
    unfolding udp_sum_def by (simp only: distrib_left add.assoc)
  finally show ?thesis .
qed

lemma pseudo_be:
  assumes "small p" "length (p_bytes p) < 65536"
  shows "ip_chksum_pseudo p IP_PROTO_UDP (of_nat (p_tot_len p)) (load32 a b c d) (load32 a' b' c' d') = 0 \<longleftrightarrow>
    udp_sum [a, b, c, d] [a', b', c', d'] (p_bytes p) mod 65535 = 0"
proof -
  have "\<forall>q \<in> set (p_segs p). seg_len q \<le> 0x1FFFE" using assms(1) by (auto simp: small_def)
  moreover have "IP_PROTO_UDP \<noteq> 0" by (simp add: IP_PROTO_UDP_def)
  ultimately show ?thesis
    unfolding ip_chksum_pseudo_def p_tot_len_bytes
    using pseudo_0_iff [of p IP_PROTO_UDP] pseudo_udp_sum [OF assms(2), of a b c d a' b' c' d'] mod_256_cancel by simp
qed

text \<open>The control blocks of the board: bound to every address, not connected, no two with the same
  port, and the command receiver behind the ports 5000 and 5110.\<close>

definition pcb_plain :: "upcb \<Rightarrow> bool" where
  "pcb_plain pcb \<longleftrightarrow> pcb_local_ip pcb = IPADDR_ANY \<and> pcb_remote_ip pcb = IPADDR_ANY \<and> pcb_netif_idx pcb = NETIF_NO_INDEX \<and>
     pcb_flags pcb AND UDP_FLAGS_CONNECTED = 0 \<and> pcb_remote_port pcb = 0"

definition command_ports :: "u16 set" where "command_ports = {CTR_PORT, HPVC_REAR_COMMAND_PORT}"

definition pcbs_ok :: "upcb list \<Rightarrow> bool" where
  "pcbs_ok pcbs \<longleftrightarrow> (\<forall>pcb \<in> set pcbs. pcb_plain pcb) \<and> distinct (map pcb_local_port pcbs) \<and>
     (\<forall>port. (\<exists>pcb \<in> set pcbs. pcb_local_port pcb = port \<and> pcb_recv pcb = Some AccRecv) \<longleftrightarrow> port \<in> command_ports)"

lemma plain_match: "pcb_plain pcb \<Longrightarrow> udp_input_local_match pcb c broadcast"
  by (simp add: pcb_plain_def udp_input_local_match_def ip4_addr_isany_val_def)

lemma scan_other:
  "\<forall>pcb \<in> set pcbs. pcb_local_port pcb \<noteq> dest \<Longrightarrow> udp_scan c b src dest pcbs i uncon = (None, uncon)"
  by (induction pcbs arbitrary: i) auto

lemma scan_plain:
  assumes "\<forall>pcb \<in> set pcbs. pcb_plain pcb" "distinct (map pcb_local_port pcbs)"
    "udp_scan c b src dest pcbs i None = (r, uncon)"
  shows "case find (\<lambda>pcb. pcb_local_port pcb = dest) pcbs of
      None \<Rightarrow> r = None \<and> uncon = None
    | Some pcb \<Rightarrow> r = None \<and> uncon = Some pcb \<or> (\<exists>j < length pcbs. r = Some (i + j, pcb) \<and> pcbs ! j = pcb)"
  using assms
proof (induction pcbs arbitrary: i)
  case (Cons pcb pcbs)
  show ?case
  proof (cases "pcb_local_port pcb = dest")
    case True
    then have "\<forall>q \<in> set pcbs. pcb_local_port q \<noteq> dest" using Cons.prems(2) by (metis distinct.simps(2) imageI list.set_map list.simps(9))
    then show ?thesis using True Cons.prems(1,3) scan_other [of pcbs dest c b src "i + 1"]
      by (auto simp: plain_match better_uncon_def pcb_plain_def Let_def split: if_splits intro: exI [of _ 0])
  next
    case False
    then have "udp_scan c b src dest pcbs (i + 1) None = (r, uncon)" using Cons.prems(3) by simp
    from Cons.IH [OF _ _ this] Cons.prems(1,2) False show ?thesis
      by (auto split: option.splits)
  qed
qed simp

lemma move_front_mset: "i < length pcbs \<Longrightarrow> mset (move_front i pcbs) = mset pcbs"
  by (cases "i = 0") (auto simp: move_front_def dest: id_take_nth_drop [THEN arg_cong [where f = mset]])

lemma demux_ok:
  assumes "pcbs_ok pcbs" "udp_demux c b src dest pcbs = (r, pcbs')"
  shows "r = find (\<lambda>pcb. pcb_local_port pcb = dest) pcbs" "mset pcbs' = mset pcbs"
proof -
  obtain full uncon where s: "udp_scan c b src dest pcbs 0 None = (full, uncon)" by fastforce
  have "\<forall>pcb \<in> set pcbs. pcb_plain pcb" "distinct (map pcb_local_port pcbs)" using assms(1) by (auto simp: pcbs_ok_def)
  from scan_plain [OF this s] assms(2) s
  show "r = find (\<lambda>pcb. pcb_local_port pcb = dest) pcbs" "mset pcbs' = mset pcbs"
    by (auto simp: udp_demux_def move_front_mset split: option.splits)
qed

lemma pcbs_ok_mset: "mset pcbs' = mset pcbs \<Longrightarrow> pcbs_ok pcbs \<Longrightarrow> pcbs_ok pcbs'"
proof -
  assume h: "mset pcbs' = mset pcbs" "pcbs_ok pcbs"
  then have "set pcbs' = set pcbs" by (metis set_mset_mset)
  moreover have "distinct (map pcb_local_port pcbs')" using h
    by (metis pcbs_ok_def mset_map mset_eq_imp_distinct_iff)
  ultimately show "pcbs_ok pcbs'" using h(2) by (simp add: pcbs_ok_def)
qed

lemma find_command:
  assumes "pcbs_ok pcbs"
  shows "(\<exists>pcb. find (\<lambda>pcb. pcb_local_port pcb = dest) pcbs = Some pcb \<and> pcb_recv pcb = Some AccRecv) \<longleftrightarrow> dest \<in> command_ports"
proof -
  have d: "distinct (map pcb_local_port pcbs)" using assms by (simp add: pcbs_ok_def)
  have "(\<exists>pcb. find (\<lambda>pcb. pcb_local_port pcb = dest) pcbs = Some pcb \<and> pcb_recv pcb = Some AccRecv) \<longleftrightarrow>
      (\<exists>pcb \<in> set pcbs. pcb_local_port pcb = dest \<and> pcb_recv pcb = Some AccRecv)"
  proof
    assume "\<exists>pcb \<in> set pcbs. pcb_local_port pcb = dest \<and> pcb_recv pcb = Some AccRecv"
    then obtain pcb where p: "pcb \<in> set pcbs" "pcb_local_port pcb = dest" "pcb_recv pcb = Some AccRecv" by blast
    then have "find (\<lambda>pcb. pcb_local_port pcb = dest) pcbs \<noteq> None" unfolding find_None_iff by blast
    then obtain q where q: "find (\<lambda>pcb. pcb_local_port pcb = dest) pcbs = Some q" by blast
    then have "q \<in> set pcbs" "pcb_local_port q = dest" by (auto simp: find_Some_iff)
    moreover have "inj_on pcb_local_port (set pcbs)" using d by (simp add: distinct_map)
    ultimately have "q = pcb" using p(1,2) inj_onD [of pcb_local_port "set pcbs" q pcb] by simp
    with q p(3) show "\<exists>pcb. find (\<lambda>pcb. pcb_local_port pcb = dest) pcbs = Some pcb \<and> pcb_recv pcb = Some AccRecv" by simp
  qed (auto simp: find_Some_iff)
  then show ?thesis using assms by (simp add: pcbs_ok_def)
qed

end
