(* ===== verification/LwipAccept.thy ===== *)
theory LwipAccept
  imports LwipRx_Facts
begin

text \<open>
  Which Ethernet frames reach the command receiver of the REAR board: an acceptance rule on the
  bytes of a frame, and that the stack realises it.
\<close>

section \<open>The rule\<close>

definition addr4 :: "u8 list \<Rightarrow> nat \<Rightarrow> u8 list" where
  "addr4 bs i = [bs ! i, bs ! (i + 1), bs ! (i + 2), bs ! (i + 3)]"

definition udp_command :: "u8 list \<Rightarrow> u8 list \<Rightarrow> u8 list \<Rightarrow> bool" where
  "udp_command src dest u \<longleftrightarrow> 8 \<le> length u \<and> (be16 u 2 = 5000 \<or> be16 u 2 = 5110) \<and>
     (be16 u 6 = 0 \<or> udp_sum src dest u mod 65535 = 0)"

definition ip_payload :: "u8 list \<Rightarrow> u8 list" where "ip_payload bs = drop (ip_hlen bs) (take (ip_len bs) bs)"

definition ip_command :: "u8 list \<Rightarrow> bool" where
  "ip_command bs \<longleftrightarrow> ip_header_ok bs \<and> rear_dest (addr4 bs 16) \<and> rear_src (addr4 bs 12) (addr4 bs 16) \<and>
     be16 bs 6 mod 0x4000 = 0 \<and> bs ! 9 = 17 \<and> udp_command (addr4 bs 12) (addr4 bs 16) (ip_payload bs)"

definition frame_command :: "u8 list \<Rightarrow> (u8 list \<times> u8 list) option" where
  "frame_command f =
     (let bs = drop 14 f
      in if 14 < length f \<and> be16 f 12 = 0x0800 \<and> ip_command bs
         then Some (drop 8 (ip_payload bs), addr4 bs 12) else None)"

section \<open>UDP\<close>

lemma at32_addr4: "at32 bs i = load32 (bs ! i) (bs ! (i + 1)) (bs ! (i + 2)) (bs ! (i + 3))"
  by (simp add: at32_def)

lemma udp_chain_at16: "ip_chain n p us \<Longrightarrow> i + 1 < min (length us) n \<Longrightarrow> at16 (seg_data (p_head p)) i = at16 us i"
proof -
  assume h: "ip_chain n p us" "i + 1 < min (length us) n"
  then have "seg_data (p_head p) ! (i + j) = us ! (i + j)" if "j < 2" for j
    using chain_nth [of "i + j" p] that by (simp add: ip_chain_def)
  then show ?thesis by (rule at16_cong)
qed

lemma elems_header_force: "chain_elems (snd (pbuf_header_force p n)) = chain_elems p"
  by (simp add: pbuf_header_force_def elems_header)

lemma udp_release_total:
  assumes "udp_input p c u = (fate, u')"
  shows "mset (udp_release p fate pool) = total p pool"
proof -
  have "fate = UdpShort \<or> fate = UdpNotForUs \<or> fate = UdpChkErr \<or> fate = UdpNoRecv \<or> fate = UdpNoPort \<or>
    (\<exists>pcb h src port. fate = UdpDeliver pcb h (snd (pbuf_remove_header p UDP_HLEN)) src port) \<or>
    (\<exists>n. fate = UdpUnreach (snd (pbuf_header_force (snd (pbuf_remove_header p UDP_HLEN)) n)))"
    using assms by (auto simp: udp_input_def Let_def split: if_splits prod.splits option.splits)
  then show ?thesis
    by (elim disjE exE)
      (simp_all add: udp_release_def free_total pbuf_free_elems total_def elems_remove elems_header_force)
qed

lemma command_port_bytes: "be16 u 2 = 5000 \<or> be16 u 2 = 5110 \<longleftrightarrow> lwip_ntohs (at16 u 2) \<in> command_ports"
  by (simp add: command_ports_def ntohs_at16_eq CTR_PORT_def HPVC_REAR_COMMAND_PORT_def)

lemma udp_input_ok:
  assumes "pcbs_ok (udp_pcbs u)" "ip_chain n p us" "8 \<le> n" "length us < 65536"
    "cur_src c = load32 a0 a1 a2 a3" "cur_dest c = load32 d0 d1 d2 d3"
  obtains fate u' where "udp_input p c u = (fate, u')" "pcbs_ok (udp_pcbs u')"
    "udp_command [a0, a1, a2, a3] [d0, d1, d2, d3] us \<Longrightarrow>
       \<exists>pcb q port. fate = UdpDeliver pcb AccRecv q (cur_src c) port \<and> p_bytes q = drop 8 us"
    "\<not> udp_command [a0, a1, a2, a3] [d0, d1, d2, d3] us \<Longrightarrow> \<forall>pcb q a port. fate \<noteq> UdpDeliver pcb AccRecv q a port"
proof -
  have c: "p_bytes p = us" "p_len p = min (length us) n" "small p" using assms(2) by (simp_all add: ip_chain_def)
  show thesis
  proof (cases "length us < 8")
    case True
    then have "udp_input p c u = (UdpShort, u)" using c(2) assms(3) by (simp add: udp_input_def UDP_HLEN_def)
    with that assms(1) True show thesis by (auto simp: udp_command_def)
  next
    case False
    then have l: "8 \<le> p_len p" "8 \<le> min (length us) n" using c(2) assms(3) by simp_all
    have f: "at16 (seg_data (p_head p)) 2 = at16 us 2" "at16 (seg_data (p_head p)) 6 = at16 us 6"
      by (rule udp_chain_at16 [OF assms(2)], use l in simp)+
    let ?src = "lwip_ntohs (at16 (seg_data (p_head p)) 0)" and ?dest = "lwip_ntohs (at16 us 2)"
    let ?b = "ip4_addr_isbroadcast_u32 (cur_dest c) (cur_netif c)"
    obtain r pcbs' where d: "udp_demux c ?b ?src ?dest (udp_pcbs u) = (r, pcbs')" by fastforce
    note dm = demux_ok [OF assms(1) d]
    let ?u = "u\<lparr>udp_pcbs := pcbs'\<rparr>"
    have ok: "pcbs_ok (udp_pcbs ?u)" using pcbs_ok_mset [OF dm(2) assms(1)] by simp
    have ck: "udp_chksum_ok p c \<longleftrightarrow> be16 us 6 = 0 \<or> udp_sum [a0, a1, a2, a3] [d0, d1, d2, d3] us mod 65535 = 0"
      unfolding udp_chksum_ok_def f at16_0_iff assms(5,6) using pseudo_be [OF c(3)] c(1) assms(4) by simp
    let ?q = "snd (pbuf_remove_header p UDP_HLEN)"
    have q: "p_bytes ?q = drop 8 us" using remove_ok(2) [of 8 p] l(1) c(1) by (simp add: UDP_HLEN_def)
    define fate where "fate = fst (udp_input p c u)"
    have uf: "udp_input p c u = (if r = None \<and> nif_ip (cur_inp c) \<noteq> cur_dest c then (UdpNotForUs, ?u)
        else if \<not> udp_chksum_ok p c then (UdpChkErr, ?u)
        else case r of
          Some pcb \<Rightarrow> (case pcb_recv pcb of Some h \<Rightarrow> (UdpDeliver pcb h ?q (cur_src c) ?src, ?u) | None \<Rightarrow> (UdpNoRecv, ?u))
        | None \<Rightarrow> if \<not> ?b \<and> \<not> ip4_addr_ismulticast (cur_dest c)
            then (UdpUnreach (snd (pbuf_header_force ?q (int (cur_hlen c + UDP_HLEN)))), ?u) else (UdpNoPort, ?u))"
      unfolding udp_input_def Let_def f d split_beta prod.sel using l(1) by (simp add: UDP_HLEN_def)
    then have u': "snd (udp_input p c u) = ?u" by (simp split: option.split)
    have iff: "udp_command [a0, a1, a2, a3] [d0, d1, d2, d3] us \<longleftrightarrow>
        (\<exists>pcb. r = Some pcb \<and> pcb_recv pcb = Some AccRecv) \<and> udp_chksum_ok p c"
      unfolding dm(1) find_command [OF assms(1)] ck udp_command_def command_port_bytes using False by auto
    show thesis
    proof (rule that [of fate ?u])
      show "udp_input p c u = (fate, ?u)" using u' by (metis fate_def prod.collapse)
      show "pcbs_ok (udp_pcbs ?u)" by (rule ok)
      show "\<exists>pcb q port. fate = UdpDeliver pcb AccRecv q (cur_src c) port \<and> p_bytes q = drop 8 us"
        if "udp_command [a0, a1, a2, a3] [d0, d1, d2, d3] us"
      proof -
        from that iff obtain pcb where "r = Some pcb" "pcb_recv pcb = Some AccRecv" "udp_chksum_ok p c" by blast
        then have "fate = UdpDeliver pcb AccRecv ?q (cur_src c) ?src" unfolding fate_def uf by simp
        with q show ?thesis by blast
      qed
      show "\<forall>pcb q a port. fate \<noteq> UdpDeliver pcb AccRecv q a port"
        if "\<not> udp_command [a0, a1, a2, a3] [d0, d1, d2, d3] us"
        using that unfolding iff fate_def uf by (auto split: option.splits)
    qed
  qed
qed

section \<open>IGMP keeps the groups\<close>

lemma set_group_addresses: "group_address g = addr \<Longrightarrow> map group_address (set_group addr g gs) = map group_address gs"
  by (induction gs) auto

lemma delaying_address [simp]: "group_address (igmp_delaying_member m g) = group_address g"
  by (simp add: igmp_delaying_member_def igmp_start_timer_def Let_def)

lemma delay_addresses [simp]: "map group_address (delay_groups m gs) = map group_address gs"
  by (simp add: delay_groups_def split: list.split)

lemma lookfor_address: "igmp_lookfor_group gs addr = Some g \<Longrightarrow> group_address g = addr"
  by (induction gs) (auto split: if_splits)

text \<open>An interface that differs in its groups' states only.\<close>

definition same_nif :: "netif \<Rightarrow> netif \<Rightarrow> bool" where
  "same_nif n n' \<longleftrightarrow> map group_address (nif_igmp n') = map group_address (nif_igmp n) \<and> n'\<lparr>nif_igmp := nif_igmp n\<rparr> = n"

lemma same_nif_refl [simp]: "same_nif n n"
  by (simp add: same_nif_def)

lemma same_nif_set [simp]: "same_nif n (set_nif_group g n)"
  by (simp add: same_nif_def set_nif_group_def set_group_addresses)

lemma same_nif_delay [simp]: "same_nif n (n\<lparr>nif_igmp := delay_groups m (nif_igmp n)\<rparr>)"
  by (simp add: same_nif_def)

lemma igmp_input_same: "same_nif n (fst (igmp_input p n dest pool))"
proof -
  have "same_nif n (igmp_query n g dest m a)" for g m a
    by (auto simp: igmp_query_def Let_def split: option.split)
  then have "same_nif n (igmp_message n dest bs)" for bs
    by (auto simp: igmp_message_def split: option.split)
  then show ?thesis by (simp add: igmp_input_def)
qed

lemma same_nif_fields:
  assumes "same_nif n n'"
  shows "nif_num n' = nif_num n" "nif_ip n' = nif_ip n" "nif_netmask n' = nif_netmask n" "nif_flags n' = nif_flags n"
    "nif_hwaddr n' = nif_hwaddr n"
proof -
  have e: "n'\<lparr>nif_igmp := nif_igmp n\<rparr> = n" using assms by (simp add: same_nif_def)
  show "nif_num n' = nif_num n" "nif_ip n' = nif_ip n" "nif_netmask n' = nif_netmask n" "nif_flags n' = nif_flags n"
    "nif_hwaddr n' = nif_hwaddr n" by (subst e [symmetric], simp)+
qed

lemma same_nif_ok: "same_nif n n' \<Longrightarrow> nif_ok n \<Longrightarrow> nif_ok n'"
proof -
  assume h: "same_nif n n'" "nif_ok n"
  from h(1) have "map group_address (nif_igmp n') = map group_address (nif_igmp n)" by (simp add: same_nif_def)
  with same_nif_fields [OF h(1)] h(2) show "nif_ok n'" by (simp add: nif_ok_def has_flag_def)
qed

section \<open>IP\<close>

lemma fragment_bits: "at16 bs i AND lwip_htons (IP_OFFMASK OR IP_MF) = 0 \<longleftrightarrow> be16 bs i mod 0x4000 = 0"
proof -
  have h: "lwip_htons (x AND y) = lwip_htons x AND lwip_htons y" "lwip_htons (lwip_htons x) = x" for x y
    unfolding lwip_htons_def byte_masks by (rule bit_eqI, auto simp: bit_simps)+
  have z: "lwip_htons x = 0 \<longleftrightarrow> x = 0" for x
  proof
    assume "lwip_htons x = 0"
    then have "lwip_htons (lwip_htons x) = lwip_htons 0" by (rule arg_cong)
    then show "x = 0" by (simp add: h(2)) (simp add: lwip_htons_def)
  qed (simp add: lwip_htons_def)
  have "lwip_htons (at16 bs i AND lwip_htons (IP_OFFMASK OR IP_MF)) = lwip_ntohs (at16 bs i) AND 0x3fff"
    unfolding h by (simp add: lwip_ntohs_def IP_OFFMASK_def IP_MF_def)
  then have "at16 bs i AND lwip_htons (IP_OFFMASK OR IP_MF) = 0 \<longleftrightarrow> lwip_ntohs (at16 bs i) AND 0x3fff = 0"
    using z by metis
  also have "\<dots> \<longleftrightarrow> unat (lwip_ntohs (at16 bs i) AND 0x3fff) = 0" by (simp only: unat_eq_0)
  also have "unat (lwip_ntohs (at16 bs i) AND 0x3fff) = be16 bs i mod 0x4000"
  proof -
    have m: "(0x3fff :: u16) = mask 14" by (simp add: mask_eq_exp_minus_1)
    have "lwip_ntohs (at16 bs i) AND 0x3fff = take_bit 14 (lwip_ntohs (at16 bs i))"
      unfolding m by (simp only: take_bit_eq_mask)
    then show ?thesis by (simp only: unsigned_take_bit_eq unat_ntohs_at16) (simp add: take_bit_eq_mod)
  qed
  finally show ?thesis .
qed

definition stack_ok :: "lwip \<Rightarrow> bool" where
  "stack_ok s \<longleftrightarrow> (\<exists>n. lw_netifs s = [n] \<and> nif_ok n) \<and> pcbs_ok (udp_pcbs (lw_udp s))"

text \<open>The buffers a fate keeps; the others are in the pool again.\<close>

fun ip_held :: "ip_fate \<Rightarrow> pool" where
  "ip_held (IpReass p) = chain_elems p"
| "ip_held (IpTcp p c) = chain_elems p"
| "ip_held (IpIcmp p c) = chain_elems p"
| "ip_held _ = []"

definition hands_up :: "ip_fate \<Rightarrow> u8 list \<Rightarrow> u32 \<Rightarrow> bool" where
  "hands_up fate bytes src \<longleftrightarrow> (\<exists>pcb q port. fate = IpUdp (UdpDeliver pcb AccRecv q src port) \<and> p_bytes q = bytes)"

lemma deliver_ok:
  assumes "stack_ok s" "lw_netifs s = [n]" "ip_chain k q (take (ip_len bs) bs)" "68 \<le> k" "ip_header_ok bs"
    "length bs < 65536" "ip4_deliver q (ip_hlen bs) n n (at32 bs 12) (at32 bs 16) s = (fate, s')"
  shows "stack_ok s'" "mset (lw_pool s') + mset (ip_held fate) = total q (lw_pool s)"
    "bs ! 9 = 17 \<and> udp_command (addr4 bs 12) (addr4 bs 16) (ip_payload bs) \<Longrightarrow> hands_up fate (drop 8 (ip_payload bs)) (at32 bs 12)"
    "\<not> (bs ! 9 = 17 \<and> udp_command (addr4 bs 12) (addr4 bs 16) (ip_payload bs)) \<Longrightarrow> \<not> hands_up fate b a"
proof -
  have c: "p_bytes q = take (ip_len bs) bs" "p_len q = min (ip_len bs) k" "small q"
    and h: "20 \<le> ip_hlen bs" "ip_hlen bs \<le> ip_len bs" "ip_len bs \<le> length bs" "ip_hlen bs \<le> 60"
    using assms(3,5) by (simp_all add: ip_chain_def ip_header_ok_def min_def ip_hlen_def)
  have l: "ip_hlen bs \<le> p_len q" "20 \<le> p_len q" using c(2) h assms(4) by simp_all
  let ?hdr = "seg_data (p_head q)"
  define c' where "c' = \<lparr>cur_src = at32 bs 12, cur_dest = at32 bs 16, cur_netif = n, cur_inp = n, cur_hlen = IPH_HL_BYTES (?hdr ! 0)\<rparr>"
  define r where "r = snd (pbuf_remove_header q (ip_hlen bs))"
  have "?hdr ! 9 = bs ! 9" using chain_nth [of 9 q] l(2) c(1,2) by simp
  then have proto: "IPH_PROTO ?hdr = bs ! 9" by (simp add: IPH_PROTO_def)
  have rb: "p_bytes r = ip_payload bs" "p_len r = min (length (ip_payload bs)) (k - ip_hlen bs)" "small r"
    using remove_ok [of "ip_hlen bs" q] l h c small_remove [OF c(3)] by (auto simp: r_def ip_payload_def min_def)
  have rt: "total r pool = total q pool" for pool by (simp add: r_def total_def elems_remove)
  have chain: "ip_chain (k - ip_hlen bs) r (ip_payload bs)" using rb by (simp add: ip_chain_def)
  have e: "ip4_deliver q (ip_hlen bs) n n (at32 bs 12) (at32 bs 16) s =
      (if bs ! 9 = IP_PROTO_UDP then
         (IpUdp (fst (udp_input r c' (lw_udp s))), s\<lparr>lw_udp := snd (udp_input r c' (lw_udp s)),
            lw_pool := udp_release r (fst (udp_input r c' (lw_udp s))) (lw_pool s)\<rparr>)
       else if bs ! 9 = IP_PROTO_TCP then (IpTcp r c', s)
       else if bs ! 9 = IP_PROTO_ICMP then (IpIcmp r c', s)
       else if bs ! 9 = IP_PROTO_IGMP then
         (IpIgmp, s\<lparr>lw_netifs := set_netif (fst (igmp_input r n (at32 bs 16) (lw_pool s))) (lw_netifs s),
            lw_pool := snd (igmp_input r n (at32 bs 16) (lw_pool s))\<rparr>)
       else if \<not> ip4_addr_isbroadcast_u32 (at32 bs 16) n \<and> \<not> ip4_addr_ismulticast (at32 bs 16) then
         (IpProtoUnreach (Some (snd (pbuf_header_force r (int (ip_hlen bs))))),
          s\<lparr>lw_pool := pbuf_free (snd (pbuf_header_force r (int (ip_hlen bs)))) (lw_pool s)\<rparr>)
       else (IpProtoUnreach None, s\<lparr>lw_pool := pbuf_free r (lw_pool s)\<rparr>))"
    unfolding ip4_deliver_def Let_def proto c'_def [symmetric] split_beta r_def [symmetric] by (rule refl)
  have nif: "nif_ok n" "pcbs_ok (udp_pcbs (lw_udp s))" using assms(1,2) by (auto simp: stack_ok_def)
  have udp: "IP_PROTO_UDP = 17" by (simp add: IP_PROTO_UDP_def)
  show goals: "stack_ok s'" "mset (lw_pool s') + mset (ip_held fate) = total q (lw_pool s)"
    "bs ! 9 = 17 \<and> udp_command (addr4 bs 12) (addr4 bs 16) (ip_payload bs) \<Longrightarrow> hands_up fate (drop 8 (ip_payload bs)) (at32 bs 12)"
    "\<not> (bs ! 9 = 17 \<and> udp_command (addr4 bs 12) (addr4 bs 16) (ip_payload bs)) \<Longrightarrow> \<not> hands_up fate b a"
  proof -
    consider (udp) "bs ! 9 = IP_PROTO_UDP" | (igmp) "bs ! 9 \<noteq> IP_PROTO_UDP" "bs ! 9 = IP_PROTO_IGMP"
      | (other) "bs ! 9 \<noteq> IP_PROTO_UDP" "bs ! 9 \<noteq> IP_PROTO_IGMP" by blast
    then have "stack_ok s' \<and> mset (lw_pool s') + mset (ip_held fate) = total q (lw_pool s) \<and>
      (bs ! 9 = 17 \<and> udp_command (addr4 bs 12) (addr4 bs 16) (ip_payload bs) \<longrightarrow> hands_up fate (drop 8 (ip_payload bs)) (at32 bs 12)) \<and>
      (\<not> (bs ! 9 = 17 \<and> udp_command (addr4 bs 12) (addr4 bs 16) (ip_payload bs)) \<longrightarrow> \<not> hands_up fate b a)"
    proof cases
      case udp
      obtain uf u' where u: "udp_input r c' (lw_udp s) = (uf, u')" "pcbs_ok (udp_pcbs u')"
        "udp_command (addr4 bs 12) (addr4 bs 16) (ip_payload bs) \<Longrightarrow>
           \<exists>pcb q port. uf = UdpDeliver pcb AccRecv q (at32 bs 12) port \<and> p_bytes q = drop 8 (ip_payload bs)"
        "\<not> udp_command (addr4 bs 12) (addr4 bs 16) (ip_payload bs) \<Longrightarrow> \<forall>pcb q a port. uf \<noteq> UdpDeliver pcb AccRecv q a port"
      proof (rule udp_input_ok [OF nif(2) chain])
        show "8 \<le> k - ip_hlen bs" using h assms(4) by simp
        show "length (ip_payload bs) < 65536" using assms(6) by (simp add: ip_payload_def)
        show "cur_src c' = load32 (bs ! 12) (bs ! (12 + 1)) (bs ! (12 + 2)) (bs ! (12 + 3))"
          "cur_dest c' = load32 (bs ! 16) (bs ! (16 + 1)) (bs ! (16 + 2)) (bs ! (16 + 3))"
          by (simp_all only: c'_def ip_current.simps at32_addr4)
      qed (auto simp: addr4_def c'_def)
      have "fate = IpUdp uf" "s' = s\<lparr>lw_udp := u', lw_pool := udp_release r uf (lw_pool s)\<rparr>"
        using assms(7) e udp u(1) by simp_all
      then show ?thesis using u(2-4) udp_release_total [OF u(1)] rt assms(2) nif udp \<open>IP_PROTO_UDP = 17\<close>
        by (auto simp: stack_ok_def hands_up_def)
    next
      case igmp
      let ?n = "fst (igmp_input r n (at32 bs 16) (lw_pool s))"
      have f: "fate = IpIgmp" "s' = s\<lparr>lw_netifs := set_netif ?n (lw_netifs s), lw_pool := pbuf_free r (lw_pool s)\<rparr>"
      proof -
        have "snd (igmp_input r n (at32 bs 16) (lw_pool s)) = pbuf_free r (lw_pool s)" by (simp add: igmp_input_def)
        then show "fate = IpIgmp" "s' = s\<lparr>lw_netifs := set_netif ?n (lw_netifs s), lw_pool := pbuf_free r (lw_pool s)\<rparr>"
          using assms(7) e igmp by (simp_all add: IP_PROTO_UDP_def IP_PROTO_TCP_def IP_PROTO_ICMP_def IP_PROTO_IGMP_def)
      qed
      have sn: "same_nif n ?n" by (rule igmp_input_same)
      have "lw_netifs s' = [?n]" using f(2) assms(2) same_nif_fields(1) [OF sn] by (simp add: set_netif_def)
      moreover have "nif_ok ?n" by (rule same_nif_ok [OF sn nif(1)])
      ultimately show ?thesis using f nif(2) igmp(1) free_total [of r "lw_pool s"] rt \<open>IP_PROTO_UDP = 17\<close>
        by (auto simp: stack_ok_def hands_up_def)
    next
      case other
      have f: "total (snd (pbuf_header_force r m)) pool = total q pool" for m pool
        using rt by (simp add: total_def elems_header_force)
      have "(fate = IpTcp r c' \<or> fate = IpIcmp r c') \<and> s' = s \<or>
        (\<exists>m. (m = r \<or> (\<exists>i. m = snd (pbuf_header_force r i))) \<and> s' = s\<lparr>lw_pool := pbuf_free m (lw_pool s)\<rparr>) \<and> (\<exists>x. fate = IpProtoUnreach x)"
        using assms(7) e other by (auto split: if_splits)
      then show ?thesis using assms(1) other(1) rt f free_total \<open>IP_PROTO_UDP = 17\<close>
        by (auto simp: stack_ok_def hands_up_def total_def add.commute)
    qed
    then show "stack_ok s'" "mset (lw_pool s') + mset (ip_held fate) = total q (lw_pool s)"
      "bs ! 9 = 17 \<and> udp_command (addr4 bs 12) (addr4 bs 16) (ip_payload bs) \<Longrightarrow> hands_up fate (drop 8 (ip_payload bs)) (at32 bs 12)"
      "\<not> (bs ! 9 = 17 \<and> udp_command (addr4 bs 12) (addr4 bs 16) (ip_payload bs)) \<Longrightarrow> \<not> hands_up fate b a" by blast+
  qed
qed

end
