(* ===== verification/LwipFrames.thy ===== *)
theory LwipFrames
  imports LwipAccept RearNet_Props
begin

text \<open>
  A frame from the receive ring to the drive command: what one poll of the receiver does is fixed by
  the acceptance rule on the frame's bytes, and the buffers come back.
\<close>

section \<open>IP\<close>

definition is_fragment :: "u8 list \<Rightarrow> bool" where "is_fragment bs \<longleftrightarrow> be16 bs 6 mod 0x4000 \<noteq> 0"

text \<open>Packets that TCP, ICMP or the reassembly take over with their buffers.\<close>

definition ip_taken :: "u8 list \<Rightarrow> bool" where
  "ip_taken bs \<longleftrightarrow> ip_header_ok bs \<and> (is_fragment bs \<or> bs ! 9 = 1 \<or> bs ! 9 = 6)"

lemma deliver_held:
  assumes "ip4_deliver q h n inp src dest s = (fate, s')" "ip_held fate \<noteq> []" "20 \<le> p_len q"
  shows "p_bytes q ! 9 = 1 \<or> p_bytes q ! 9 = 6"
proof -
  have "IPH_PROTO (seg_data (p_head q)) = p_bytes q ! 9"
    using chain_nth [of 9 q] assms(3) by (simp add: IPH_PROTO_def)
  then show ?thesis
    using assms(1,2) unfolding ip4_deliver_def Let_def
    by (auto simp: IP_PROTO_TCP_def IP_PROTO_ICMP_def split: if_splits prod.splits)
qed

lemma ip_rest_ok:
  assumes "stack_ok s" "lw_netifs s = [n]" "ip_chain k q (take (ip_len bs) bs)" "68 \<le> k" "ip_header_ok bs"
    "length bs < 65536" "ip_rest q (ip_hlen bs) bs n s = (fate, s')"
  shows "stack_ok s' \<and> mset (lw_pool s') + mset (ip_held fate) = total q (lw_pool s) \<and>
    (ip_command bs \<longrightarrow> hands_up fate (drop 8 (ip_payload bs)) (at32 bs 12)) \<and>
    (\<not> ip_command bs \<longrightarrow> (\<forall>b a. \<not> hands_up fate b a)) \<and> (ip_held fate \<noteq> [] \<longrightarrow> ip_taken bs)"
proof -
  have nif: "nif_ok n" using assms(1,2) by (auto simp: stack_ok_def)
  have src: "ip4_check_src (at32 bs 12) (at32 bs 16) n \<and>
      (ip4_addr_isbroadcast_u32 (at32 bs 12) n \<or> ip4_addr_ismulticast (at32 bs 12)) \<longleftrightarrow> \<not> rear_src (addr4 bs 12) (addr4 bs 16)"
    unfolding at32_addr4 addr4_def by (rule source_ok [OF nif])
  have dest: "ip4_match_netif (at32 bs 16) n (lw_netifs s) = (if rear_dest (addr4 bs 16) then Some n else None)"
    unfolding at32_addr4 addr4_def assms(2) by (rule match_netif_ok [OF nif])
  have cmd: "ip_command bs \<longleftrightarrow> rear_src (addr4 bs 12) (addr4 bs 16) \<and> rear_dest (addr4 bs 16) \<and> \<not> is_fragment bs \<and>
      bs ! 9 = 17 \<and> udp_command (addr4 bs 12) (addr4 bs 16) (ip_payload bs)"
    using assms(5) by (auto simp: ip_command_def is_fragment_def)
  have drop: ?thesis if "(fate, s') = ip4_drop why q s" "\<not> ip_command bs" for why
    using that assms(1) by (simp add: ip4_drop_def hands_up_def free_total stack_ok_def)
  show ?thesis
  proof (cases "rear_src (addr4 bs 12) (addr4 bs 16) \<and> rear_dest (addr4 bs 16)")
    case False
    then have "\<exists>why. ip4_drop why q s = (fate, s')"
      using assms(7) unfolding ip_rest_def Let_def src dest by (auto split: if_splits)
    then have "\<exists>why. (fate, s') = ip4_drop why q s" by metis
    with drop cmd False show ?thesis by blast
  next
    case ok: True
    show ?thesis
    proof (cases "is_fragment bs")
      case True
      then have "fate = IpReass q" "s' = s"
        using assms(7) ok unfolding ip_rest_def Let_def src dest fragment_bits is_fragment_def by simp_all
      then show ?thesis using assms(1,5) True cmd by (simp add: hands_up_def total_def ip_taken_def)
    next
      case False
      then have d: "ip4_deliver q (ip_hlen bs) n n (at32 bs 12) (at32 bs 16) s = (fate, s')"
        using assms(7) ok unfolding ip_rest_def Let_def src dest fragment_bits is_fragment_def by simp
      have l: "20 \<le> ip_len bs" "ip_len bs \<le> length bs" using assms(5) by (simp_all add: ip_header_ok_def)
      have "20 \<le> p_len q" "p_bytes q ! 9 = bs ! 9" using assms(3,4) l by (simp_all add: ip_chain_def)
      then have "ip_held fate \<noteq> [] \<Longrightarrow> bs ! 9 = 1 \<or> bs ! 9 = 6" using deliver_held [OF d] by simp
      then have held: "ip_held fate \<noteq> [] \<longrightarrow> ip_taken bs" using assms(5) by (auto simp: ip_taken_def)
      note dok = deliver_ok [OF assms(1-6) d]
      have "ip_command bs \<longleftrightarrow> bs ! 9 = 17 \<and> udp_command (addr4 bs 12) (addr4 bs 16) (ip_payload bs)"
        using cmd ok False by simp
      with dok held show ?thesis by blast
    qed
  qed
qed

lemma ip4_input_ok:
  assumes "stack_ok s" "lw_netifs s = [n]" "ip_chain k p bs" "68 \<le> k" "4 \<le> length (seg_from (p_head p))" "bs \<noteq> []"
    "length bs < 65536"
  shows "\<exists>fate s'. ip4_input p n s = Some (fate, s') \<and>
    stack_ok s' \<and> mset (lw_pool s') + mset (ip_held fate) = total p (lw_pool s) \<and>
    (ip_command bs \<longrightarrow> hands_up fate (drop 8 (ip_payload bs)) (at32 bs 12)) \<and>
    (\<not> ip_command bs \<longrightarrow> (\<forall>b a. \<not> hands_up fate b a)) \<and> (ip_held fate \<noteq> [] \<longrightarrow> ip_taken bs)"
proof (cases "ip_header_ok bs")
  case False
  have k: "60 \<le> k" using assms(4) by simp
  from ip4_input_bad [OF assms(3) k assms(5) False assms(6), of n s] obtain why s' where
    i: "ip4_input p n s = Some (IpDrop why, s')" "mset (lw_pool s') = total p (lw_pool s)" "s' = s\<lparr>lw_pool := lw_pool s'\<rparr>"
    by blast
  have "lw_netifs s' = lw_netifs s" "lw_udp s' = lw_udp s" by (subst i(3), simp)+
  then have "stack_ok s'" using assms(1) by (simp add: stack_ok_def)
  moreover have "\<not> ip_command bs" using False by (simp add: ip_command_def)
  ultimately show ?thesis using i by (simp add: hands_up_def)
next
  case True
  have k: "60 \<le> k" using assms(4) by simp
  from ip4_input_good [OF assms(3) k True, of n s] obtain q pool where
    g: "ip4_input p n s = Some (ip_rest q (ip_hlen bs) bs n (s\<lparr>lw_pool := pool\<rparr>))"
      "ip_chain k q (take (ip_len bs) bs)" "total q pool = total p (lw_pool s)" by blast
  obtain fate s' where r: "ip_rest q (ip_hlen bs) bs n (s\<lparr>lw_pool := pool\<rparr>) = (fate, s')" by fastforce
  have "stack_ok (s\<lparr>lw_pool := pool\<rparr>)" "lw_netifs (s\<lparr>lw_pool := pool\<rparr>) = [n]"
    using assms(1,2) by (simp_all add: stack_ok_def)
  from ip_rest_ok [OF this g(2) assms(4) True assms(7) r] g(1,3) r show ?thesis by simp
qed

section \<open>Ethernet\<close>

fun eth_held :: "eth_fate \<Rightarrow> pool" where
  "eth_held EthDrop = []"
| "eth_held (EthArp p) = chain_elems p"
| "eth_held (EthIp fate) = ip_held fate"

text \<open>Frames whose buffers ARP, TCP, ICMP or the reassembly take over.\<close>

definition frame_taken :: "u8 list \<Rightarrow> bool" where
  "frame_taken f \<longleftrightarrow> 14 < length f \<and> (be16 f 12 = 0x0806 \<or> be16 f 12 = 0x0800 \<and> ip_taken (drop 14 f))"

definition eth_delivers :: "eth_fate \<Rightarrow> (u8 list \<times> u8 list) option \<Rightarrow> bool" where
  "eth_delivers fate r \<longleftrightarrow>
     (case r of
        Some (payload, src) \<Rightarrow> \<exists>ip a. fate = EthIp ip \<and> hands_up ip payload a \<and> store32 a = src
      | None \<Rightarrow> \<forall>ip b a. fate = EthIp ip \<longrightarrow> \<not> hands_up ip b a)"

lemma store32_at32: "store32 (at32 bs i) = addr4 bs i"
proof -
  have "ucast (load32 a b c d) = a" "ucast (drop_bit 8 (load32 a b c d)) = b"
    "ucast (drop_bit 16 (load32 a b c d)) = c" "ucast (drop_bit 24 (load32 a b c d)) = d" for a b c d :: u8
    unfolding load32_def by (rule bit_eqI, auto simp: bit_simps dest: bit_imp_le_length)+
  then show ?thesis by (simp add: store32_def at32_addr4 addr4_def)
qed

lemma frame_chain_at16:
  assumes "frame_chain p f" "14 \<le> length f"
  shows "at16 (seg_data (p_head p)) 14 = at16 f 12" "at16 (seg_from (p_head p)) 14 = at16 f 12"
proof -
  obtain pad where b: "p_bytes p = pad @ f" "length pad = 2" "p_len p = min (length f + 2) 592"
    using assms(1) by (auto simp: frame_chain_def)
  have l: "16 \<le> p_len p" using assms(2) b(3) by simp
  have n: "p_bytes p ! 14 = f ! 12" "p_bytes p ! 15 = f ! 13" using b by (simp_all add: nth_append)
  show "at16 (seg_data (p_head p)) 14 = at16 f 12" "at16 (seg_from (p_head p)) 14 = at16 f 12"
    using l n chain_nth [of 14 p] chain_nth [of 15 p] mem_nth [of 14 p] mem_nth [of 15 p] by (simp_all add: at16_def)
qed

lemma ethernet_input_ok:
  assumes "stack_ok s" "lw_netifs s = [n]" "frame_chain p f" "length f + 2 < 65536"
  shows "\<exists>fate s'. ethernet_input p n s = Some (fate, s') \<and> stack_ok s' \<and>
    mset (lw_pool s') + mset (eth_held fate) = total p (lw_pool s) \<and> eth_delivers fate (frame_command f) \<and>
    (eth_held fate \<noteq> [] \<longrightarrow> frame_taken f)"
proof -
  obtain pad where b: "p_bytes p = pad @ f" "length pad = 2" "p_len p = min (length f + 2) 592" "small p"
    "592 \<le> length (seg_front (p_head p) @ seg_from (p_head p))" "seg_front (p_head p) = []"
    using assms(3) by (auto simp: frame_chain_def)
  have drop: "\<exists>fate s'. Some (eth_drop q s) = Some (fate, s') \<and> stack_ok s' \<and>
      mset (lw_pool s') + mset (eth_held fate) = total p (lw_pool s) \<and> eth_delivers fate (frame_command f) \<and>
      (eth_held fate \<noteq> [] \<longrightarrow> frame_taken f)"
    if "chain_elems q = chain_elems p" "frame_command f = None" for q
    using that assms(1) by (simp add: eth_drop_def eth_delivers_def stack_ok_def pbuf_free_elems total_def)
  show ?thesis
  proof (cases "length f \<le> 14")
    case True
    then have "p_len p \<le> SIZEOF_ETH_HDR" using b(3) by (simp add: SIZEOF_ETH_HDR_def ETH_PAD_SIZE_def)
    then show ?thesis using drop [of p] True by (simp add: ethernet_input_def frame_command_def)
  next
    case False
    then have l: "14 < length f" "16 < p_len p" using b(3) by simp_all
    define q where "q = (if p_if_idx p = NETIF_NO_INDEX then p\<lparr>p_if_idx := netif_get_index n\<rparr> else p)
      \<lparr>p_flags := eth_flags (eth_dest (seg_data (p_head p))) (p_flags p)\<rparr>"
    have q: "p_head q = p_head p" "p_next q = p_next p" by (simp_all add: q_def)
    then have qs: "p_segs q = p_segs p" "p_bytes q = p_bytes p" "p_len q = p_len p" "chain_elems q = chain_elems p"
      by (simp_all add: p_segs_def p_bytes_def p_payloads_def p_len_def chain_elems_def)
    have small: "small q" using b(4) qs(1) by (simp add: small_def)
    define r where "r = snd (pbuf_remove_header q 16)"
    have l16: "16 \<le> p_len q" using l(2) qs(3) by simp
    have rm: "pbuf_remove_header q 16 = (0, r)"
      using remove_ok(1) [OF l16] by (simp add: r_def prod_eq_iff)
    have re: "chain_elems r = chain_elems p" using elems_remove [of q 16] qs(4) by (simp add: r_def)
    have rb: "p_bytes r = drop 14 f" "p_len r = min (length (drop 14 f)) 576" "small r"
      using remove_ok(2,3) [OF l16] small_remove [OF small] b l qs by (auto simp: r_def)
    have t: "at16 (seg_data (p_head p)) 14 = at16 f 12" using frame_chain_at16(1) [OF assms(3)] l(1) by simp
    have e: "ethernet_input p n s =
        (if at16 f 12 = lwip_htons ETHTYPE_IP then
           (if \<not> has_flag n NETIF_FLAG_ETHARP then Some (eth_drop q s) else map_option (\<lambda>(fate, s). (EthIp fate, s)) (ip4_input r n s))
         else if at16 f 12 = lwip_htons ETHTYPE_ARP then
           (if \<not> has_flag n NETIF_FLAG_ETHARP then Some (eth_drop q s) else Some (EthArp r, s))
         else Some (eth_drop q s))"
    proof -
      have "\<not> p_len p \<le> 16" using l(2) by simp
      moreover have "lwip_htons ETHTYPE_ARP \<noteq> lwip_htons ETHTYPE_IP"
        by (simp add: ETHTYPE_ARP_def ETHTYPE_IP_def lwip_htons_def)
      ultimately show ?thesis using rm t unfolding ethernet_input_def Let_def SIZEOF_ETH_HDR_def ETH_PAD_SIZE_def eth_type_def q_def
        by (simp split: if_splits)
    qed
    have flag: "has_flag n NETIF_FLAG_ETHARP" using assms(1,2) by (auto simp: stack_ok_def nif_ok_def)
    have ty: "at16 f 12 = lwip_htons ETHTYPE_IP \<longleftrightarrow> be16 f 12 = 0x0800" "at16 f 12 = lwip_htons ETHTYPE_ARP \<longleftrightarrow> be16 f 12 = 0x0806"
      by (simp_all add: at16_htons_eq ETHTYPE_IP_def ETHTYPE_ARP_def)
    consider (ip) "be16 f 12 = 0x0800" | (arp) "be16 f 12 = 0x0806" | (none) "be16 f 12 \<noteq> 0x0800" "be16 f 12 \<noteq> 0x0806" by blast
    then show ?thesis
    proof cases
      case ip
      have chain: "ip_chain 576 r (drop 14 f)" using rb by (simp add: ip_chain_def)
      have mem4: "4 \<le> length (seg_from (p_head r))"
        using b(5,6) q l(2) qs(3) by (simp add: r_def pbuf_remove_header_def seg_remove_def seg_from_def p_len_def seg_len_def)
      obtain fate s' where i: "ip4_input r n s = Some (fate, s')" "stack_ok s'"
        "mset (lw_pool s') + mset (ip_held fate) = total r (lw_pool s)"
        "ip_command (drop 14 f) \<Longrightarrow> hands_up fate (drop 8 (ip_payload (drop 14 f))) (at32 (drop 14 f) 12)"
        "\<not> ip_command (drop 14 f) \<Longrightarrow> \<forall>b a. \<not> hands_up fate b a" "ip_held fate \<noteq> [] \<Longrightarrow> ip_taken (drop 14 f)"
      proof -
        have "\<exists>fate s'. ip4_input r n s = Some (fate, s') \<and>
          stack_ok s' \<and> mset (lw_pool s') + mset (ip_held fate) = total r (lw_pool s) \<and>
          (ip_command (drop 14 f) \<longrightarrow> hands_up fate (drop 8 (ip_payload (drop 14 f))) (at32 (drop 14 f) 12)) \<and>
          (\<not> ip_command (drop 14 f) \<longrightarrow> (\<forall>b a. \<not> hands_up fate b a)) \<and> (ip_held fate \<noteq> [] \<longrightarrow> ip_taken (drop 14 f))"
          by (rule ip4_input_ok [OF assms(1,2) chain _ mem4]) (use l(1) assms(4) in simp_all)
        then show thesis using that by blast
      qed
      have "eth_delivers (EthIp fate) (frame_command f)"
        using i(4,5) l(1) ip store32_at32 [of "drop 14 f" 12]
        by (cases "ip_command (drop 14 f)") (auto simp: eth_delivers_def frame_command_def Let_def)
      moreover have "ethernet_input p n s = Some (EthIp fate, s')" unfolding e ty using ip flag i(1) by simp
      ultimately show ?thesis using i(2,3,6) l(1) ip re by (auto simp: frame_taken_def total_def)
    next
      case arp
      then have "frame_command f = None" by (simp add: frame_command_def)
      moreover have "ethernet_input p n s = Some (EthArp r, s)" unfolding e ty using arp flag by simp
      ultimately show ?thesis using assms(1) re arp l(1) by (simp add: eth_delivers_def total_def frame_taken_def)
    next
      case none
      then have "frame_command f = None" by (simp add: frame_command_def)
      moreover have "ethernet_input p n s = Some (eth_drop q s)" unfolding e ty using none by simp
      ultimately show ?thesis using drop [OF qs(4)] by simp
    qed
  qed
qed

section \<open>One poll of the receiver\<close>

definition obey_frame ::
    "u8 list \<Rightarrow> u8 list \<Rightarrow> net_state \<Rightarrow> lmu \<Rightarrow> (net_state \<times> lmu) option" where
  "obey_frame stack f n m =
     (case frame_command f of
        Some (payload, src) \<Rightarrow> udp_receive_acc_recv stack (Some [payload]) (Some src) n m
      | None \<Rightarrow> Some (n, m))"

lemma receive_concat:
  "udp_receive_acc_recv stack (Some p) addr n m = udp_receive_acc_recv stack (Some [concat p]) addr n m"
  by (simp add: udp_receive_acc_recv_def acc_recv_buf_def pbuf_copy_partial_concat)

lemma run_fate_ok:
  assumes "eth_delivers fate (frame_command f)"
  shows "run_fate stack (Some fate) n m = obey_frame stack f n m"
proof (cases "frame_command f")
  case None
  then have "\<forall>ip b a. fate = EthIp ip \<longrightarrow> \<not> hands_up ip b a" using assms by (simp add: eth_delivers_def)
  then have "h = DropRecv" if "fate = EthIp (IpUdp (UdpDeliver pcb h p addr port))" for pcb h p addr port
    using that by (cases h) (auto simp: hands_up_def)
  then show ?thesis using None
    by (auto simp: run_fate_def run_callback_def obey_frame_def udp_drop_recv_def split: eth_fate.split ip_fate.split udp_fate.split)
next
  case (Some r)
  obtain payload src where r: "r = (payload, src)" by fastforce
  then obtain pcb q port a where "fate = EthIp (IpUdp (UdpDeliver pcb AccRecv q a port))" "p_bytes q = payload" "store32 a = src"
    using assms Some by (auto simp: eth_delivers_def hands_up_def)
  then show ?thesis using Some r receive_concat [of stack "p_payloads q"]
    by (simp add: run_fate_def run_callback_def obey_frame_def ip4_of_def p_bytes_def)
qed

definition pool_addrs :: "pool \<Rightarrow> u32 multiset" where "pool_addrs pool = mset (map fst pool)"

definition ring_frame :: "rx_desc \<Rightarrow> u8 list \<Rightarrow> bool" where
  "ring_frame d f \<longleftrightarrow> GetRxFrameSize d = of_nat (length f) \<and> f \<noteq> [] \<and> length f + 2 < 65536 \<and> take (length f) (rx_buf d) = f"

lemma ifx_input_ok:
  assumes "stack_ok s" "pool_ok (lw_pool s)" "lw_netifs s = [n]" "ring_frame d f" "chunks (length f + 2) \<le> length (lw_pool s)"
  shows "\<exists>fate s'. ifx_netif_input n (d # ring) s = Some (Some fate, ring, s') \<and> stack_ok s' \<and> pool_ok (lw_pool s') \<and>
    pool_addrs (lw_pool s') + pool_addrs (eth_held fate) = pool_addrs (lw_pool s) \<and> eth_delivers fate (frame_command f) \<and>
    (eth_held fate \<noteq> [] \<longrightarrow> frame_taken f)"
proof -
  let ?k = "chunks (length f + 2)"
  have f: "GetRxFrameSize d = of_nat (length f)" "f \<noteq> []" "length f + 2 < 65536" "f = take (length f) (rx_buf d)"
    using assms(4) by (simp_all add: ring_frame_def)
  from low_level_input_ok [OF f assms(2,5), of ring] obtain p where
    p: "low_level_input (d # ring) (lw_pool s) = Some (Some p, ring, drop ?k (lw_pool s))" "frame_chain p f"
    "map fst (chain_elems p) = map fst (take ?k (lw_pool s))" by blast
  define t where "t = s\<lparr>lw_pool := drop ?k (lw_pool s)\<rparr>"
  have t: "stack_ok t" "lw_netifs t = [n]" using assms(1,3) by (simp_all add: t_def stack_ok_def)
  have pool: "\<exists>fate s'. X = Some (Some fate, ring, s') \<and> stack_ok s' \<and> pool_ok (lw_pool s') \<and>
      pool_addrs (lw_pool s') + pool_addrs (eth_held fate) = pool_addrs (lw_pool s) \<and> eth_delivers fate (frame_command f) \<and>
      (eth_held fate \<noteq> [] \<longrightarrow> frame_taken f)"
    if h: "X = Some (Some fate, ring, s')" "stack_ok s'" "mset (lw_pool s') + mset (eth_held fate) = total p (lw_pool t)"
      "eth_delivers fate (frame_command f)" "eth_held fate \<noteq> [] \<longrightarrow> frame_taken f" for X fate s'
  proof -
    have e: "mset (lw_pool s') + mset (eth_held fate) = mset (chain_elems p) + mset (drop ?k (lw_pool s))"
      using h(3) by (simp add: total_def t_def)
    have "pool_ok (chain_elems p @ drop ?k (lw_pool s))"
      using p(2) pool_ok_drop [OF assms(2)] by (simp add: pool_ok_append frame_chain_def)
    moreover have "set (lw_pool s') \<subseteq> set (chain_elems p @ drop ?k (lw_pool s))"
      using arg_cong [OF e, of set_mset] by auto
    ultimately have ok: "pool_ok (lw_pool s')" by (auto simp: pool_ok_def)
    have "pool_addrs (lw_pool s') + pool_addrs (eth_held fate) = image_mset fst (mset (lw_pool s') + mset (eth_held fate))"
      by (simp add: pool_addrs_def)
    also have "\<dots> = mset (map fst (chain_elems p)) + mset (map fst (drop ?k (lw_pool s)))" unfolding e by simp
    also have "\<dots> = mset (map fst (take ?k (lw_pool s) @ drop ?k (lw_pool s)))" unfolding p(3) by (simp del: append_take_drop_id)
    also have "\<dots> = pool_addrs (lw_pool s)" by (simp add: pool_addrs_def)
    finally show ?thesis using h ok by blast
  qed
  obtain e1 s1 where e1: "ethernet_input p n t = Some (e1, s1)" "stack_ok s1"
    "mset (lw_pool s1) + mset (eth_held e1) = total p (lw_pool t)" "eth_delivers e1 (frame_command f)"
    "eth_held e1 \<noteq> [] \<longrightarrow> frame_taken f" using ethernet_input_ok [OF t p(2) f(3)] by blast
  have l: "\<not> length (seg_from (p_head p)) < SIZEOF_ETH_HDR"
    using p(2) by (auto simp: frame_chain_def SIZEOF_ETH_HDR_def ETH_PAD_SIZE_def)
  let ?ty = "lwip_htons (eth_type (seg_from (p_head p)))"
  have i: "ifx_netif_input n (d # ring) s =
      (if ?ty = ETHTYPE_IP \<or> ?ty = ETHTYPE_ARP then Some (Some e1, ring, s1)
       else Some (Some EthDrop, ring, t\<lparr>lw_pool := pbuf_free p (lw_pool t)\<rparr>))"
    unfolding ifx_netif_input_def Let_def p(1) using l e1(1) by (simp add: t_def)
  show ?thesis
  proof (cases "?ty = ETHTYPE_IP \<or> ?ty = ETHTYPE_ARP")
    case True
    then have "ifx_netif_input n (d # ring) s = Some (Some e1, ring, s1)" by (simp add: i)
    from pool [OF this e1(2-5)] show ?thesis .
  next
    case False
    have nc: "frame_command f = None"
    proof (cases "14 < length f")
      case True
      have "eth_type (seg_from (p_head p)) = at16 f 12"
        using frame_chain_at16(2) [OF p(2)] True by (simp add: eth_type_def ETH_PAD_SIZE_def)
      then have "be16 f 12 \<noteq> 0x0800"
        using False ntohs_at16_eq [of f 12 ETHTYPE_IP] unfolding lwip_ntohs_def by (simp add: ETHTYPE_IP_def)
      then show ?thesis by (simp add: frame_command_def)
    qed (simp add: frame_command_def)
    show ?thesis
    proof (rule pool)
      show "ifx_netif_input n (d # ring) s = Some (Some EthDrop, ring, t\<lparr>lw_pool := pbuf_free p (lw_pool t)\<rparr>)"
        using False by (simp add: i)
    qed (use t nc in \<open>simp_all add: stack_ok_def free_total eth_delivers_def\<close>)
  qed
qed

lemma poll_receive_ok:
  assumes "stack_ok s" "pool_ok (lw_pool s)" "ring_frame d f" "chunks (length f + 2) \<le> length (lw_pool s)"
  shows "\<exists>held s'. poll_receive stack (d # ring) s n m =
      map_option (\<lambda>(n, m). (ring, s', n, m)) (obey_frame stack f n m) \<and> stack_ok s' \<and> pool_ok (lw_pool s') \<and>
    pool_addrs (lw_pool s') + held = pool_addrs (lw_pool s) \<and> (held \<noteq> {#} \<longrightarrow> frame_taken f)"
proof -
  obtain nif where nif: "lw_netifs s = [nif]" using assms(1) by (auto simp: stack_ok_def)
  from ifx_input_ok [OF assms(1,2) nif assms(3,4), of ring] obtain fate s' where i:
    "ifx_netif_input nif (d # ring) s = Some (Some fate, ring, s')" "stack_ok s'" "pool_ok (lw_pool s')"
    "pool_addrs (lw_pool s') + pool_addrs (eth_held fate) = pool_addrs (lw_pool s)" "eth_delivers fate (frame_command f)"
    "eth_held fate \<noteq> [] \<longrightarrow> frame_taken f" by blast
  have "poll_receive stack (d # ring) s n m = map_option (\<lambda>(n, m). (ring, s', n, m)) (obey_frame stack f n m)"
    by (cases "obey_frame stack f n m") (auto simp: poll_receive_def nif i(1) run_fate_ok [OF i(5)])
  moreover have "pool_addrs (eth_held fate) \<noteq> {#} \<longrightarrow> frame_taken f" using i(6) by (auto simp: pool_addrs_def)
  ultimately show ?thesis using i(2-4) by blast
qed

end
