(* ===== verification/LwipBoot.thy ===== *)
theory LwipBoot
  imports LwipFrames
begin

text \<open>
  What the start of the board makes of the stack: the interface with its addresses and groups, and
  the UDP ports.
\<close>

section \<open>The interface\<close>

lemma addr_neq: "IP4_ADDR a b c d = IP4_ADDR a' b' c' d' \<longleftrightarrow> a = a' \<and> b = b' \<and> c = c' \<and> d = d'"
  by (simp add: IP4_ADDR_load32 load32_eq_iff)

lemma addr_any: "IP4_ADDR a b c d = IPADDR_ANY \<longleftrightarrow> a = 0 \<and> b = 0 \<and> c = 0 \<and> d = 0"
  by (simp add: IP4_ADDR_load32 addr_consts(1) load32_eq_iff)

lemma addr_0: "IP4_ADDR a b c d = 0 \<longleftrightarrow> a = 0 \<and> b = 0 \<and> c = 0 \<and> d = 0"
  using addr_any [of a b c d] by (simp add: IPADDR_ANY_def)

lemma addr_mcast: "ip4_addr_ismulticast (IP4_ADDR a b c d) \<longleftrightarrow> 224 \<le> a \<and> a < 240"
  unfolding IP4_ADDR_load32 ismulticast_load32 by (simp add: is_mcast_def)

lemma addr_isany: "ip4_addr_isany_val (IP4_ADDR a b c d) \<longleftrightarrow> a = 0 \<and> b = 0 \<and> c = 0 \<and> d = 0"
  unfolding ip4_addr_isany_val_def by (rule addr_any)

text \<open>The flags the driver leaves, whatever the PHY says.\<close>

definition drv_flags :: "bool \<Rightarrow> u8" where "drv_flags link = (if link then 0x0e else 0x0a)"

lemma low_level_init_netif:
  "\<exists>link. fst (low_level_init E eth n w) =
     n\<lparr>nif_hwaddr := take 6 eth, nif_mtu := 1500, nif_flags := drv_flags link\<rparr>"
  by (auto simp: low_level_init_def Let_def split_beta netif_set_flags_def drv_flags_def NETIF_FLAG_BROADCAST_def
      NETIF_FLAG_ETHARP_def NETIF_FLAG_LINK_UP_def)

lemma init_None: "ifx_netif_init E eth n w = None \<longleftrightarrow> fst (call_drv E ''IfxGeth_get'' [] w) = 0"
  by (simp add: ifx_netif_init_def split_beta)

definition board_netif :: "u8 list \<Rightarrow> bool \<Rightarrow> netif" where
  "board_netif eth link =
     \<lparr>nif_ip = IP4_ADDR 192 168 10 12, nif_netmask = IP4_ADDR 255 255 255 0, nif_gw = IP4_ADDR 192 168 10 1,
      nif_mtu = 1500, nif_flags = drv_flags link, nif_hwaddr = take 6 eth, nif_num = 0, nif_igmp = [], nif_mac_filter = False\<rparr>"

lemma netif_set_addr_board:
  "\<exists>w. netif_set_addr (IP4_ADDR 192 168 10 12) (IP4_ADDR 255 255 255 0) (IP4_ADDR 192 168 10 1) (blank_netif 0) [] =
    ((blank_netif 0)\<lparr>nif_ip := IP4_ADDR 192 168 10 12, nif_netmask := IP4_ADDR 255 255 255 0, nif_gw := IP4_ADDR 192 168 10 1\<rparr>, w)"
  by (simp add: netif_set_addr_def netif_do_set_ipaddr_def netif_do_set_netmask_def netif_do_set_gw_def addr_isany addr_0
      netif_issue_reports_def has_flag_def blank_netif_def Let_def)

lemma netif_add_board:
  assumes "fst (call_drv E ''IfxGeth_get'' [] rw) \<noteq> 0"
  shows "\<exists>link w rw'. netif_add E eth (IP4_ADDR 192 168 10 12) (IP4_ADDR 255 255 255 0) (IP4_ADDR 192 168 10 1) [] 0 [] rw =
    Some (board_netif eth link, [board_netif eth link], 1, w, rw')"
proof -
  let ?n = "(blank_netif 0)\<lparr>nif_ip := IP4_ADDR 192 168 10 12, nif_netmask := IP4_ADDR 255 255 255 0, nif_gw := IP4_ADDR 192 168 10 1\<rparr>"
  obtain w where w: "netif_set_addr (IP4_ADDR 192 168 10 12) (IP4_ADDR 255 255 255 0) (IP4_ADDR 192 168 10 1) (blank_netif 0) [] = (?n, w)"
    using netif_set_addr_board by blast
  obtain g rw1 where g: "call_drv E ''IfxGeth_get'' [] rw = (g, rw1)" by fastforce
  obtain link where l: "fst (low_level_init E eth ?n rw1) = ?n\<lparr>nif_hwaddr := take 6 eth, nif_mtu := 1500, nif_flags := drv_flags link\<rparr>"
    using low_level_init_netif by blast
  then have i: "ifx_netif_init E eth ?n rw = Some (board_netif eth link, snd (low_level_init E eth ?n rw1))"
  proof -
    have "g \<noteq> 0" using assms g by simp
    moreover have "low_level_init E eth ?n rw1 = (board_netif eth link, snd (low_level_init E eth ?n rw1))"
      by (subst prod.collapse [symmetric], subst l) (simp add: blank_netif_def board_netif_def)
    ultimately show ?thesis unfolding ifx_netif_init_def g Let_def prod.case by simp
  qed
  have "pick_num 257 (map nif_num []) (nif_num (board_netif eth link)) = Some 0"
    by (simp add: board_netif_def bump_num_def eval_nat_numeral)
  then show ?thesis unfolding netif_add_def Let_def w prod.case i
    by (simp add: board_netif_def) blast
qed

text \<open>After the whole initialisation the board is a member of the all-systems group and of the
  SOME/IP group.\<close>

definition board_groups :: "igmp_group list \<Rightarrow> bool" where
  "board_groups gs \<longleftrightarrow> map group_address gs = [allsystems, IP4_ADDR 224 224 224 245]"

lemma mem_send_address [simp]: "group_address (fst (igmp_send L n g t w)) = group_address g"
  by (simp add: igmp_send_def)

lemma join_ok:
  assumes "ip4_addr_ismulticast addr" "addr \<noteq> allsystems" "has_flag n NETIF_FLAG_IGMP"
    "igmp_lookup_group n free addr = (Some g, n', free')" "group_address g = addr"
  shows "\<exists>g' w'. igmp_joingroup_netif L n free addr w = (IgmpOk, set_nif_group g' n', free', w') \<and> group_address g' = addr"
  using assms mem_send_address
  by (auto simp: igmp_joingroup_netif_def igmp_start_timer_def Let_def split_beta)

lemma stack_init_ok:
  assumes "Ifx_Lwip_init_stack E L pool eth rw = Some (err, s, free, w, rw')"
  shows "err = IgmpOk \<and> (\<exists>n. lw_netifs s = [n] \<and> nif_ok n) \<and> lw_pool s = pool \<and> lw_udp s = udp_stack_0"
proof -
  have g: "fst (call_drv E ''IfxGeth_get'' [] rw) \<noteq> 0"
  proof
    assume "fst (call_drv E ''IfxGeth_get'' [] rw) = 0"
    then have "ifx_netif_init E eth n rw = None" for n by (simp add: init_None)
    then have "netif_add E eth a b c ns i v rw = None" for a b c ns i v
      unfolding netif_add_def Let_def by (simp add: split_beta)
    then show False using assms by (simp add: Ifx_Lwip_init_stack_def Let_def)
  qed
  obtain link w1 rw1 where a: "netif_add E eth (IP4_ADDR 192 168 10 12) (IP4_ADDR 255 255 255 0) (IP4_ADDR 192 168 10 1) [] 0 [] rw =
      Some (board_netif eth link, [board_netif eth link], 1, w1, rw1)" using netif_add_board [OF g] by blast
  define all where "all = \<lparr>group_address = allsystems, last_reporter_flag = 0, group_state = IGMP_GROUP_IDLE_MEMBER,
    group_timer = 0, group_use = 1\<rparr>"
  define n1 where "n1 = (board_netif eth link)\<lparr>nif_flags := drv_flags link OR 0x20, nif_igmp := [all]\<rparr>"
  have s1: "igmp_start (netif_set_flags NETIF_FLAG_IGMP (board_netif eth link)) MEMP_NUM_IGMP_GROUP w1 = (True, n1, 7, w1)"
    by (simp add: igmp_start_def igmp_lookup_group_def netif_set_flags_def board_netif_def MEMP_NUM_IGMP_GROUP_def
        set_nif_group_def new_group_def mac_filter_def n1_def all_def NETIF_FLAG_IGMP_def Let_def)
  define n2 where "n2 = n1\<lparr>nif_flags := drv_flags link OR 0x21\<rparr>"
  obtain w2 where s2: "netif_set_up n1 w1 = (n2, w2)"
  proof -
    have "\<exists>w2. netif_set_up n1 w1 = (n2, w2)"
      by (cases link) (simp_all add: netif_set_up_def netif_issue_reports_def has_flag_def n1_def n2_def board_netif_def drv_flags_def
          NETIF_FLAG_UP_def NETIF_FLAG_LINK_UP_def NETIF_FLAG_IGMP_def netif_set_flags_def addr_isany
          igmp_report_groups_def delay_groups_def Let_def)
    with that show thesis by blast
  qed
  have f: "has_flag n2 NETIF_FLAG_IGMP" "has_flag n2 NETIF_FLAG_UP" "has_flag n2 NETIF_FLAG_BROADCAST" "has_flag n2 NETIF_FLAG_ETHARP"
    by (cases link; simp add: has_flag_def n2_def drv_flags_def NETIF_FLAG_IGMP_def NETIF_FLAG_UP_def
        NETIF_FLAG_BROADCAST_def NETIF_FLAG_ETHARP_def)+
  let ?mc = "IP4_ADDR 224 224 224 245"
  define n3 where "n3 = n2\<lparr>nif_igmp := [all, new_group ?mc]\<rparr>"
  have na: "?mc \<noteq> allsystems" "?mc \<noteq> 0" by (simp_all add: allsystems_def addr_neq addr_0)
  have lk: "igmp_lookup_group n2 7 ?mc = (Some (new_group ?mc), n3, 6)"
    using na by (simp add: igmp_lookup_group_def n2_def n1_def n3_def all_def Let_def)
  have m: "nif_mac_filter n = False \<Longrightarrow> mac_filter a b n v = v" for a b n v by (simp add: mac_filter_def)
  have new: "group_address (new_group ?mc) = ?mc" by (simp add: new_group_def)
  from join_ok [OF _ na(1) f(1) lk new, of L w2] obtain g' w3 where
    j: "igmp_joingroup_netif L n2 7 ?mc w2 = (IgmpOk, set_nif_group g' n3, 6, w3)" "group_address g' = ?mc"
    using addr_mcast by auto
  define n4 where "n4 = set_nif_group g' n3"
  have ip: "nif_ip n2 = IP4_ADDR 192 168 10 12" by (simp add: n2_def n1_def board_netif_def)
  have j2: "igmp_joingroup L [n2] 7 (IP4_ADDR 192 168 10 12) ?mc w2 = (IgmpOk, [n4], 6, w3)"
    unfolding igmp_joingroup_def using na(1) f(1) ip j by (simp add: addr_mcast n4_def)
  have "map group_address (nif_igmp n4) = [allsystems, ?mc]"
    using j(2) set_group_addresses [of g' ?mc "nif_igmp n3"]
    by (simp add: n4_def set_nif_group_def n3_def all_def new)
  moreover have "nif_ip n4 = nif_ip n2" "nif_netmask n4 = IP4_ADDR 255 255 255 0" "nif_flags n4 = nif_flags n2"
    by (simp_all add: n4_def set_nif_group_def n3_def n2_def n1_def board_netif_def)
  ultimately have "nif_ok n4" using f ip by (simp add: nif_ok_def has_flag_def)
  moreover have "Ifx_Lwip_init_stack E L pool eth rw =
      Some (IgmpOk, (fresh_pool pool)\<lparr>lw_netifs := [n4], lw_default := Some (nif_num n2)\<rparr>, 6, w3, rw1)"
    unfolding Ifx_Lwip_init_stack_def Let_def using a s1 s2 j2 by (simp add: fresh_pool_def)
  ultimately show ?thesis using assms by (auto simp: fresh_pool_def)
qed

lemma stack_init_total:
  "fst (call_drv E ''IfxGeth_get'' [] rw) \<noteq> 0 \<Longrightarrow> \<exists>r. Ifx_Lwip_init_stack E L pool eth rw = Some r"
  using netif_add_board [of E rw eth] by (auto simp: Ifx_Lwip_init_stack_def Let_def fresh_pool_def split_beta)

section \<open>The ports\<close>

text \<open>The state of UDP after \<open>UdpInit\<close>: a block for sending that is not bound and three that
  receive.\<close>

definition bound_pcb :: "nat \<Rightarrow> u16 \<Rightarrow> udp_handler \<Rightarrow> upcb" where
  "bound_pcb i port h = (new_pcb i)\<lparr>pcb_local_port := port, pcb_recv := Some h\<rparr>"

definition board_udp :: udp_stack where
  "board_udp = \<lparr>udp_pcbs = [bound_pcb 4 DOIP_PORT DropRecv, bound_pcb 3 HPVC_REAR_COMMAND_PORT AccRecv, bound_pcb 2 CTR_PORT AccRecv],
     udp_port = UDP_LOCAL_PORT_RANGE_START, udp_unbound = [new_pcb 1], udp_free = 0, udp_next = 5\<rparr>"

lemmas port_defs = CTR_PORT_def HPVC_REAR_COMMAND_PORT_def DOIP_PORT_def SOMEIP_PORT_def

lemma UdpInit_board:
  "UdpInit_stack n udp_stack_0 =
     (n\<lparr>udp_send_pcb := True, pcip := [192, 168, 10, 1], udp_ctr_pcb := Some (Some (CTR_PORT, AccRecv)),
        udp_hpvcrear_pcb := Some (Some (HPVC_REAR_COMMAND_PORT, AccRecv)), udp_doip_pcb := Some (Some (DOIP_PORT, DropRecv)),
        udp_someip_pcb := None\<rparr>, board_udp)"
  by (simp add: UdpInit_stack_def open_port_stack_def udp_new_ip_type_def udp_new_def udp_stack_0_def MEMP_NUM_UDP_PCB_def
      udp_bind_def udp_recv_def put_pcb_def set_pcb_def list_pcb_def on_list_def port_taken_def new_pcb_def board_udp_def
      bound_pcb_def port_defs IPADDR_ANY_def Let_def)

lemma board_pcbs_ok: "pcbs_ok (udp_pcbs board_udp)"
  by (auto simp: pcbs_ok_def board_udp_def bound_pcb_def pcb_plain_def new_pcb_def IPADDR_ANY_def NETIF_NO_INDEX_def
      command_ports_def port_defs)

lemma boot_stack_ok:
  assumes "Ifx_Lwip_init_stack E L pool eth rw = Some (err, s, free, w, rw')" "UdpInit_stack n (lw_udp s) = (n', u)"
  shows "stack_ok (s\<lparr>lw_udp := u\<rparr>)" "lw_pool s = pool"
proof -
  note i = stack_init_ok [OF assms(1)]
  then have "u = board_udp" using assms(2) UdpInit_board by simp
  then show "stack_ok (s\<lparr>lw_udp := u\<rparr>)" "lw_pool s = pool" using i board_pcbs_ok by (simp_all add: stack_ok_def)
qed

end
