(* ===== verification/LwipNet_Props.thy ===== *)
theory LwipNet_Props
  imports LwipBoot
begin

text \<open>
  The properties of the way from the Ethernet wire to the drive command: which frames are obeyed,
  what a corrupted or faulty frame does, that the stack gives its buffers back, and what the start
  of the board opens.
\<close>

section \<open>A frame for demonstrations\<close>

text \<open>An emergency stop from 192.168.10.1 to port 5000 of the board: 29 bytes of payload, the last one
  1; with checksums.\<close>

definition demo_payload :: "u8 list" where
  "demo_payload = [0, 0, 0, 0, 0, 0, 0, 0, 0, 0, 0, 0, 0, 0, 0, 0, 0, 0, 0, 0, 0, 0, 0, 0, 0, 0, 0, 0, 1]"

definition demo_frame :: "u8 list" where
  "demo_frame =
     [2, 0, 0, 0, 0, 2, 2, 0, 0, 0, 0, 1, 0x08, 0x00] @
     [0x45, 0, 0, 57, 0, 1, 0, 0, 64, 17, 0xe5, 0x55, 192, 168, 10, 1, 192, 168, 10, 12] @
     [0x13, 0x89, 0x13, 0x88, 0, 37, 0x42, 0x35] @ demo_payload"

lemma demo_bytes: "length demo_frame = 71" "length demo_payload = 29"
  by (simp_all add: demo_frame_def demo_payload_def)

lemma demo_drop: "drop 14 demo_frame = [0x45, 0, 0, 57, 0, 1, 0, 0, 64, 17, 0xe5, 0x55, 192, 168, 10, 1, 192, 168, 10, 12] @
     [0x13, 0x89, 0x13, 0x88, 0, 37, 0x42, 0x35] @ demo_payload"
  by (simp add: demo_frame_def)

lemma demo_ip: "ip_hlen (drop 14 demo_frame) = 20" "ip_len (drop 14 demo_frame) = 57"
    "ip_payload (drop 14 demo_frame) = [0x13, 0x89, 0x13, 0x88, 0, 37, 0x42, 0x35] @ demo_payload"
    "addr4 (drop 14 demo_frame) 12 = [192, 168, 10, 1]" "addr4 (drop 14 demo_frame) 16 = [192, 168, 10, 12]"
  unfolding demo_drop by (simp_all add: ip_hlen_def ip_len_def be16_def ip_payload_def addr4_def demo_payload_def)

lemma demo_header: "ip_header_ok (drop 14 demo_frame)"
  unfolding ip_header_ok_def demo_ip unfolding demo_drop by (simp add: demo_bytes)

lemma demo_udp: "udp_command [192, 168, 10, 1] [192, 168, 10, 12] (ip_payload (drop 14 demo_frame))"
  unfolding demo_ip by (simp add: udp_command_def be16_def udp_sum_def IP_PROTO_UDP_def demo_payload_def)

lemma demo_frame_command: "frame_command demo_frame = Some (demo_payload, [192, 168, 10, 1])"
proof -
  have "rear_dest [192, 168, 10, 12]" "rear_src [192, 168, 10, 1] [192, 168, 10, 12]"
    by (simp_all add: rear_dest_def rear_src_def is_bcast_def is_mcast_def)
  moreover have "drop 14 demo_frame ! 9 = 17" "be16 (drop 14 demo_frame) 6 = 0"
    unfolding demo_drop by (simp_all add: be16_def)
  ultimately have "ip_command (drop 14 demo_frame)"
    unfolding ip_command_def demo_ip(4,5) using demo_header demo_udp by simp
  moreover have "be16 demo_frame 12 = 0x0800" by (simp add: demo_frame_def be16_def)
  ultimately show ?thesis by (simp add: frame_command_def demo_ip demo_bytes Let_def)
qed

section \<open>What a frame does\<close>

lemma size_addrs: "size (pool_addrs pool) = length pool"
  by (simp add: pool_addrs_def)

definition demo_desc :: rx_desc where
  "demo_desc = \<lparr>RDES1 = 0, RDES3 = 0x10000000 OR 75, rx_buf = demo_frame\<rparr>"

lemma demo_ring: "ring_frame demo_desc demo_frame"
proof -
  have "GetRxFrameSize demo_desc = 71"
    by (simp add: GetRxFrameSize_def demo_desc_def push_bit_eq_mult Let_def)
  then show ?thesis by (simp add: ring_frame_def demo_bytes) (simp add: demo_frame_def demo_desc_def demo_bytes)
qed

definition demo_buf :: "u8 list" where "demo_buf = replicate 32 7"

definition demo_pool :: pool where
  "demo_pool = [(0, replicate 592 0), (608, replicate 592 0), (1216, replicate 592 0)]"

lemma demo_pool_ok: "pool_ok demo_pool"
  by (simp add: demo_pool_def MEM_ALIGNMENT_def) (simp add: pool_ok_def)

definition demo_stack :: lwip where
  "demo_stack = \<lparr>lw_pool = demo_pool,
     lw_netifs = [(board_netif [] True)\<lparr>nif_flags := 0x2f, nif_igmp := [new_group allsystems, new_group (IP4_ADDR 224 224 224 245)]\<rparr>],
     lw_default = Some 0, lw_udp = board_udp\<rparr>"

lemma demo_stack_ok: "stack_ok demo_stack" "pool_ok (lw_pool demo_stack)" "length (lw_pool demo_stack) = 3"
  using board_pcbs_ok demo_pool_ok
  by (simp_all add: stack_ok_def demo_stack_def nif_ok_def board_netif_def has_flag_def new_group_def NETIF_FLAG_UP_def
      NETIF_FLAG_BROADCAST_def NETIF_FLAG_ETHARP_def NETIF_FLAG_IGMP_def demo_pool_def)

lemma chunks_frame: "length f \<le> 1518 \<Longrightarrow> chunks (length f + 2) \<le> 3"
proof -
  assume "length f \<le> 1518"
  then have "(length f + 2 + 591) div 592 \<le> 2111 div 592" by (intro div_le_mono) simp
  then show ?thesis by (simp add: chunks_def)
qed

lemma poll_frame:
  assumes "stack_ok s" "pool_ok (lw_pool s)" "3 \<le> length (lw_pool s)" "ring_frame d f" "length f \<le> 1518"
  shows "\<exists>held s'. poll_receive stack (d # ring) s n m =
      map_option (\<lambda>(n, m). (ring, s', n, m)) (obey_frame stack f n m) \<and> stack_ok s' \<and> pool_ok (lw_pool s') \<and>
    pool_addrs (lw_pool s') + held = pool_addrs (lw_pool s) \<and> (held \<noteq> {#} \<longrightarrow> frame_taken f)"
  by (rule poll_receive_ok [OF assms(1,2,4)]) (use chunks_frame [OF assms(5)] assms(3) in simp)

text \<open>
  C10: Which frames are obeyed. One poll of the receiver takes the frame of the current descriptor
  off the ring and does to the drive command and the address of the commander what \<open>frame_command\<close> says of its
  bytes: an IPv4 packet with a correct header checksum, to the board, one of its groups or a broadcast
  address, from a source that is neither, not a fragment, with a UDP datagram to port 5000 or 5110
  whose checksum is correct or absent, delivers the bytes behind the UDP header; every other
  frame changes nothing. The state stays as the start left it, and the buffers are back in the pool
  except for those of ARP, TCP and ICMP packets and of fragments.
\<close>
theorem frame_obeyed:
  assumes "stack_ok s" "pool_ok (lw_pool s)" "3 \<le> length (lw_pool s)" "ring_frame d f" "length f \<le> 1518"
  shows "\<exists>held s'. poll_receive stack (d # ring) s n m =
      map_option (\<lambda>(n, m). (ring, s', n, m)) (obey_frame stack f n m) \<and> stack_ok s' \<and> pool_ok (lw_pool s') \<and>
    pool_addrs (lw_pool s') + held = pool_addrs (lw_pool s) \<and> (held \<noteq> {#} \<longrightarrow> frame_taken f)"
  by (rule poll_frame [OF assms])

theorem frame_obeyed_witness:
  "\<exists>s'. poll_receive demo_buf [demo_desc] demo_stack net_state_0 lmu_0 =
      map_option (\<lambda>(n, m). ([], s', n, m)) (udp_receive_acc_recv demo_buf (Some [demo_payload]) (Some [192, 168, 10, 1]) net_state_0 lmu_0) \<and>
    pool_addrs (lw_pool s') = pool_addrs demo_pool"
proof -
  have "\<not> frame_taken demo_frame"
    by (simp add: frame_taken_def ip_taken_def is_fragment_def demo_drop be16_def) (simp add: demo_frame_def)
  moreover have "lw_pool demo_stack = demo_pool" by (simp add: demo_stack_def)
  moreover have "3 \<le> length (lw_pool demo_stack)" "length demo_frame \<le> 1518" by (simp_all add: demo_stack_ok(3) demo_bytes)
  ultimately show ?thesis
    using frame_obeyed [OF demo_stack_ok(1,2) _ demo_ring, of demo_buf "[]" net_state_0 lmu_0]
    by (auto simp: obey_frame_def demo_frame_command)
qed

section \<open>From the start on\<close>

text \<open>As many polls as there are frames, and what obeying the frames in turn gives.\<close>

fun poll_run ::
    "u8 list \<Rightarrow> nat \<Rightarrow> rx_desc list \<Rightarrow> lwip \<Rightarrow> net_state \<Rightarrow> lmu \<Rightarrow> (rx_desc list \<times> lwip \<times> net_state \<times> lmu) option" where
  "poll_run stack 0 ring s n m = Some (ring, s, n, m)"
| "poll_run stack (Suc k) ring s n m = do {
     (ring, s, n, m) \<leftarrow> poll_receive stack ring s n m;
     poll_run stack k ring s n m }"

fun obey_all :: "u8 list \<Rightarrow> u8 list list \<Rightarrow> net_state \<Rightarrow> lmu \<Rightarrow> (net_state \<times> lmu) option" where
  "obey_all stack [] n m = Some (n, m)"
| "obey_all stack (f # fs) n m = do {
     (n, m) \<leftarrow> obey_frame stack f n m;
     obey_all stack fs n m }"

lemma poll_run_ok:
  assumes "list_all2 ring_frame ds fs" "\<forall>f \<in> set fs. length f \<le> 1518 \<and> \<not> frame_taken f" "stack_ok s" "pool_ok (lw_pool s)"
    "3 \<le> length (lw_pool s)"
  shows "map_option (\<lambda>(ring, s, n, m). (ring, n, m)) (poll_run stack (length fs) (ds @ ring) s n m) =
    map_option (\<lambda>(n, m). (ring, n, m)) (obey_all stack fs n m)"
  using assms
proof (induction ds fs arbitrary: s n m rule: list_all2_induct)
  case (Cons d ds f fs)
  from poll_frame [OF Cons.prems(2,3,4) Cons.hyps(1), of stack "ds @ ring" n m] Cons.prems(1) obtain s' where s':
    "poll_receive stack (d # ds @ ring) s n m = map_option (\<lambda>(n, m). (ds @ ring, s', n, m)) (obey_frame stack f n m)"
    "stack_ok s'" "pool_ok (lw_pool s')" "pool_addrs (lw_pool s') = pool_addrs (lw_pool s)" by auto
  then have "3 \<le> length (lw_pool s')" using Cons.prems(4) by (metis size_addrs)
  with Cons.IH [OF _ s'(2,3)] Cons.prems(1) s'(1) show ?case
    by (cases "obey_frame stack f n m") auto
qed simp

text \<open>
  C2: From the start of the board on, the network is a sequence of commands. After \<open>Ifx_Lwip_init\<close> and
  \<open>UdpInit\<close> (which succeed whenever the MAC is there), as many polls as the ring holds frames leave
  exactly the drive command and commander that obeying the frames in order gives, whatever else
  arrives between the commands, as long as nothing in it is for ARP, TCP, ICMP or the reassembly. Three buffers
  in the pool are enough, for ever.
\<close>
theorem board_obeys_frames:
  assumes "Ifx_Lwip_init_stack E L pool eth rw = Some (err, s, free, w, rw')" "UdpInit_stack n0 (lw_udp s) = (n, u)"
    "pool_ok pool" "3 \<le> length pool" "list_all2 ring_frame ds fs" "\<forall>f \<in> set fs. length f \<le> 1518 \<and> \<not> frame_taken f"
  shows "map_option (\<lambda>(ring, s, n, m). (ring, n, m)) (poll_run stack (length fs) ds (s\<lparr>lw_udp := u\<rparr>) n m) =
    map_option (\<lambda>(n, m). ([], n, m)) (obey_all stack fs n m)"
proof -
  note b = boot_stack_ok [OF assms(1,2)]
  show ?thesis using poll_run_ok [OF assms(5,6) b(1), where ring = "[]"] assms(3,4) b(2) by simp
qed

definition demo_env :: lwip_env where "demo_env = \<lparr>mem_ok = \<lambda>_ _. True\<rparr>"

definition demo_mac :: rear_hw where "demo_mac = demo_rear\<lparr>drv := \<lambda>_ _. 1\<rparr>"

theorem board_obeys_frames_witness:
  "\<exists>err s free w rw' n. Ifx_Lwip_init_stack demo_mac demo_env demo_pool [] [] = Some (err, s, free, w, rw') \<and>
    UdpInit_stack net_state_0 (lw_udp s) = (n, board_udp) \<and>
    map_option (\<lambda>(ring, s, n, m). (ring, n, m)) (poll_run demo_buf 1 [demo_desc] (s\<lparr>lw_udp := board_udp\<rparr>) n lmu_0) =
    map_option (\<lambda>(n, m). ([], n, m)) (udp_receive_acc_recv demo_buf (Some [demo_payload]) (Some [192, 168, 10, 1]) n lmu_0)"
proof -
  have "fst (call_drv demo_mac ''IfxGeth_get'' [] []) \<noteq> 0" by (simp add: call_drv_def demo_mac_def)
  from stack_init_total [OF this, of demo_env demo_pool "[]"] obtain err s free w rw' where
    i: "Ifx_Lwip_init_stack demo_mac demo_env demo_pool [] [] = Some (err, s, free, w, rw')" by (metis prod_cases5)
  obtain n where u: "UdpInit_stack net_state_0 (lw_udp s) = (n, board_udp)"
    using stack_init_ok [OF i] UdpInit_board by auto
  have nt: "\<not> frame_taken demo_frame"
    by (simp add: frame_taken_def ip_taken_def is_fragment_def demo_drop be16_def) (simp add: demo_frame_def)
  have "map_option (\<lambda>(ring, s, n, m). (ring, n, m)) (poll_run demo_buf (length [demo_frame]) [demo_desc] (s\<lparr>lw_udp := board_udp\<rparr>) n lmu_0) =
      map_option (\<lambda>(n, m). ([], n, m)) (obey_all demo_buf [demo_frame] n lmu_0)"
    by (rule board_obeys_frames [OF i u demo_pool_ok]) (use nt demo_ring in \<open>simp_all add: demo_pool_def demo_bytes\<close>)
  moreover have "obey_all demo_buf [demo_frame] n lmu_0 = udp_receive_acc_recv demo_buf (Some [demo_payload]) (Some [192, 168, 10, 1]) n lmu_0"
    by (cases "obey_frame demo_buf demo_frame n lmu_0") (auto simp: obey_frame_def demo_frame_command)
  ultimately have "map_option (\<lambda>(ring, s, n, m). (ring, n, m)) (poll_run demo_buf 1 [demo_desc] (s\<lparr>lw_udp := board_udp\<rparr>) n lmu_0) =
      map_option (\<lambda>(n, m). ([], n, m)) (udp_receive_acc_recv demo_buf (Some [demo_payload]) (Some [192, 168, 10, 1]) n lmu_0)"
    by (simp only: list.size One_nat_def add_0)
  with i u show ?thesis by blast
qed

section \<open>Emergency\<close>

text \<open>
  C1: An emergency frame stops the car, from the wire to the bridges. When the frame of the current
  descriptor is a command by the rule of \<open>frame_command\<close> with at least 29 bytes, whose mode byte says AEB or whose
  emergency byte is not zero, then the poll succeeds and after any further steps of the board among
  which are a run of the controller and no other command, both bridges brake with full level.
\<close>
theorem emergency_frame_brakes:
  assumes "rear_reach E H uart_init sys" "sens_hw H" "length stack = 32"
    "stack_ok s" "pool_ok (lw_pool s)" "3 \<le> length (lw_pool s)" "ring_frame d f" "length f \<le> 1518"
    "frame_command f = Some (payload, src)" "29 \<le> length payload" "payload ! 16 = MODE_AEB \<or> payload ! 28 \<noteq> 0"
  shows "\<exists>s' n m. poll_receive stack (d # ring) s (net (main0 sys)) (mem sys) = Some (ring, s', n, m) \<and>
    (\<forall>ls sys'. rear_path E H (sys\<lparr>main0 := (main0 sys)\<lparr>net := n\<rparr>, mem := m\<rparr>) ls sys' \<longrightarrow>
       Control \<in> set ls \<longrightarrow> Receive \<notin> set ls \<longrightarrow> braking (snd (mot sys')))"
proof -
  let ?cmd = "acc_recv_cmd (acc_recv_buf stack [payload])"
  have inv: "rear_sys_inv sys" by (rule rear_reach_inv [OF assms(1,2)])
  then have l: "lmu_inv (mem sys)" by (simp add: rear_sys_inv_def)
  obtain m where m: "Cpu0_WriteDriveCmd ?cmd (mem sys) = Some m" "Cpu1_ReadDriveCmd m = Some ?cmd"
    using cmd.write_ok [OF l, of ?cmd] by blast
  let ?n = "net (main0 sys)\<lparr>pcip := src\<rparr>"
  have r: "udp_receive_acc_recv stack (Some [payload]) (Some src) (net (main0 sys)) (mem sys) = Some (?n, m)"
    using m(1) by (simp add: udp_receive_acc_recv_def)
  from poll_frame [OF assms(4-8), of stack ring "net (main0 sys)" "mem sys"] obtain s' where
    p: "poll_receive stack (d # ring) s (net (main0 sys)) (mem sys) = Some (ring, s', ?n, m)"
    using r by (auto simp: obey_frame_def assms(9))
  let ?sys = "sys\<lparr>main0 := (main0 sys)\<lparr>net := ?n\<rparr>, mem := m\<rparr>"
  have i: "rear_sys_inv ?sys" by (rule rear_step_inv [OF assms(2) rear_step.receive [OF assms(3) r] inv])
  have "emergency ?cmd"
    using assms(11) acc_recv_buf_full [OF assms(3), of "[payload]"] assms(10) by (simp add: emergency_def acc_recv_cmd_def)
  then have "braking (snd (mot sys'))"
    if "rear_path E H ?sys ls sys'" "Control \<in> set ls" "Receive \<notin> set ls" for ls sys'
    using path_brakes [OF that(1) assms(2) i that(3), of ?cmd] m(2) that(2) by simp
  with p show ?thesis by blast
qed

theorem emergency_frame_brakes_witness:
  "\<exists>s' n m sys'. poll_receive (replicate 32 7) [demo_desc] demo_stack (net (main0 demo_boot)) (mem demo_boot) = Some ([], s', n, m) \<and>
     rear_path demo_rear (demo_hw (\<lambda>_ _. True)) (demo_boot\<lparr>main0 := (main0 demo_boot)\<lparr>net := n\<rparr>, mem := m\<rparr>) [Control] sys' \<and>
     braking (snd (mot sys'))"
proof -
  let ?stack = "replicate 32 7 :: u8 list" and ?H = "demo_hw (\<lambda>_ _. True)"
  have h: "length ?stack = 32" "29 \<le> length demo_payload" "3 \<le> length (lw_pool demo_stack)" "length demo_frame \<le> 1518"
    "demo_payload ! 16 = MODE_AEB \<or> demo_payload ! 28 \<noteq> 0"
    by (simp_all only: demo_stack_ok(3) demo_bytes length_replicate) (simp_all add: demo_payload_def)
  from emergency_frame_brakes [OF demo_reach demo_sens_hw [of "\<lambda>_ _. True"] h(1) demo_stack_ok(1,2) h(3) demo_ring h(4)
      demo_frame_command h(2,5), of "[]"]
  obtain s' n m where p: "poll_receive ?stack [demo_desc] demo_stack (net (main0 demo_boot)) (mem demo_boot) = Some ([], s', n, m)"
    "\<And>ls sys'. rear_path demo_rear ?H (demo_boot\<lparr>main0 := (main0 demo_boot)\<lparr>net := n\<rparr>, mem := m\<rparr>) ls sys' \<Longrightarrow>
       Control \<in> set ls \<Longrightarrow> Receive \<notin> set ls \<Longrightarrow> braking (snd (mot sys'))" by blast
  have r: "udp_receive_acc_recv ?stack (Some [demo_payload]) (Some [192, 168, 10, 1]) (net (main0 demo_boot)) (mem demo_boot) = Some (n, m)"
    using poll_frame [OF demo_stack_ok(1,2) h(3) demo_ring h(4), of ?stack "[]" "net (main0 demo_boot)" "mem demo_boot"] p(1)
    by (cases "udp_receive_acc_recv ?stack (Some [demo_payload]) (Some [192, 168, 10, 1]) (net (main0 demo_boot)) (mem demo_boot)")
      (auto simp: obey_frame_def demo_frame_command)
  let ?sys = "demo_boot\<lparr>main0 := (main0 demo_boot)\<lparr>net := n\<rparr>, mem := m\<rparr>"
  have "rear_sys_inv ?sys" by (rule rear_step_inv [OF demo_sens_hw rear_step.receive [OF h(1) r] rear_boot_inv [OF demo_boot]])
  then have i: "cpu1_inv (ctl ?sys)" "lmu_inv (mem ?sys)" unfolding rear_sys_inv_def by blast+
  obtain c mo m' where "cpu1_ctrl_ISR demo_rear (ctl ?sys) (mot ?sys) (mem ?sys) = Some (c, mo, m')"
    by (rule ctrl_ISR [OF i, of demo_rear "mot ?sys"]) blast
  from rear_path.more [OF rear_step.control [OF this] rear_path.stop]
  obtain sys' where "rear_path demo_rear ?H ?sys [Control] sys'" by blast
  with p show ?thesis by fastforce
qed

section \<open>Corruption\<close>

lemma be_change_shows:
  assumes "i < length bs" "b \<noteq> bs ! i" "(c + be_sum bs) mod 65535 = 0"
  shows "(c + be_sum (bs[i := b])) mod 65535 \<noteq> 0"
proof -
  have e: "(c + be_sum xs) mod 65535 = 0 \<longleftrightarrow> (256 * c + le_sum xs) mod 65535 = 0" for xs
  proof -
    have "(256 * c + le_sum xs) mod 65535 = (256 * c + 256 * be_sum xs) mod 65535"
      by (rule mod_add_cong [OF refl le_be_mod [symmetric]])
    also have "\<dots> = 256 * (c + be_sum xs) mod 65535" by (simp only: distrib_left)
    finally show ?thesis by (simp only: mod_256_cancel)
  qed
  have "(256 * c + le_sum bs) mod 65535 = 0" using assms(3) by (simp only: e)
  from byte_change_shows [OF assms(1,2) this] show ?thesis by (simp only: e not_False_eq_True)
qed

lemma be16_update: "i \<noteq> j \<Longrightarrow> i \<noteq> j + 1 \<Longrightarrow> be16 (bs[i := b]) j = be16 bs j"
  by (simp add: be16_def)

lemma addr4_update: "j + 4 \<le> i \<Longrightarrow> addr4 (bs[i := b]) j = addr4 bs j"
  by (simp add: addr4_def)

lemma header_corrupted:
  assumes "ip_header_ok bs" "0 < i" "i < ip_hlen bs" "b \<noteq> bs ! i"
  shows "\<not> ip_header_ok (bs[i := b])"
proof
  assume bad: "ip_header_ok (bs[i := b])"
  have h: "ip_hlen (bs[i := b]) = ip_hlen bs" using assms(2) by (simp add: ip_hlen_def)
  have l: "ip_hlen bs \<le> length bs" using assms(1) by (simp add: ip_header_ok_def)
  have "(0 + be_sum ((take (ip_hlen bs) bs)[i := b])) mod 65535 \<noteq> 0"
    by (rule be_change_shows) (use assms l in \<open>simp_all add: ip_header_ok_def\<close>)
  then show False using bad by (simp add: ip_header_ok_def h take_update_swap)
qed

lemma datagram_corrupted:
  assumes "udp_command src dest u" "i < length u" "b \<noteq> u ! i" "be16 u 6 \<noteq> 0" "be16 (u[i := b]) 6 \<noteq> 0"
  shows "\<not> udp_command src dest (u[i := b])"
proof -
  have "udp_sum src dest u mod 65535 = 0" using assms(1,4) by (simp add: udp_command_def)
  from be_change_shows [OF assms(2,3) this [unfolded udp_sum_def]] assms(5)
  show ?thesis by (simp add: udp_command_def udp_sum_def)
qed

text \<open>The datagram of a frame, and the value of its checksum field.\<close>

definition frame_udp :: "u8 list \<Rightarrow> u8 list" where "frame_udp f = ip_payload (drop 14 f)"

lemma frame_corrupted:
  assumes "frame_command f \<noteq> None" "14 < i" "i < 14 + ip_len (drop 14 f)" "b \<noteq> f ! i"
    "i < 14 + ip_hlen (drop 14 f) \<or> be16 (frame_udp f) 6 \<noteq> 0 \<and> be16 (frame_udp (f[i := b])) 6 \<noteq> 0"
  shows "frame_command (f[i := b]) = None"
proof -
  let ?bs = "drop 14 f" and ?j = "i - 14"
  have c: "14 < length f" "be16 f 12 = 0x0800" "ip_command ?bs"
    using assms(1) by (auto simp: frame_command_def Let_def split: if_splits)
  have d: "drop 14 (f[i := b]) = ?bs[?j := b]" using assms(2) by (simp add: drop_update_swap)
  have hdr: "ip_header_ok ?bs" using c(3) by (simp add: ip_command_def)
  then have l: "20 \<le> ip_hlen ?bs" "ip_hlen ?bs \<le> ip_len ?bs" "ip_len ?bs \<le> length ?bs" by (simp_all add: ip_header_ok_def)
  have nb: "b \<noteq> ?bs ! ?j" using assms(2,4) c(1) by simp
  have "\<not> ip_command (?bs[?j := b])"
  proof (cases "i < 14 + ip_hlen ?bs")
    case True
    then have "\<not> ip_header_ok (?bs[?j := b])" by (intro header_corrupted [OF hdr _ _ nb]) (use assms(2) in simp_all)
    then show ?thesis by (simp add: ip_command_def)
  next
    case False
    let ?u = "ip_payload ?bs" and ?k = "?j - ip_hlen ?bs"
    have len: "ip_hlen (?bs[?j := b]) = ip_hlen ?bs" "ip_len (?bs[?j := b]) = ip_len ?bs"
      using False l(1) by (simp_all add: ip_hlen_def ip_len_def be16_update)
    have u: "ip_payload (?bs[?j := b]) = ?u[?k := b]"
      using False by (simp add: ip_payload_def len take_update_swap drop_update_swap)
    have k: "?k < length ?u" "b \<noteq> ?u ! ?k" using False assms(3) l nb by (simp_all add: ip_payload_def)
    have a: "addr4 (?bs[?j := b]) 12 = addr4 ?bs 12" "addr4 (?bs[?j := b]) 16 = addr4 ?bs 16"
      using False l(1) by (simp_all add: addr4_update)
    have "be16 ?u 6 \<noteq> 0" "be16 (?u[?k := b]) 6 \<noteq> 0"
      using assms(5) False u by (simp_all add: frame_udp_def d)
    moreover have "udp_command (addr4 ?bs 12) (addr4 ?bs 16) ?u" using c(3) by (simp add: ip_command_def)
    ultimately have "\<not> udp_command (addr4 ?bs 12) (addr4 ?bs 16) (?u[?k := b])"
      using datagram_corrupted k by blast
    then show ?thesis by (simp add: ip_command_def a u)
  qed
  then show ?thesis by (simp add: frame_command_def d)
qed

text \<open>
  C9: No corrupted byte is obeyed. If one byte of a command frame changes on its way, in the IP
  header behind its first byte, or in the datagram (ports, length and data included) when
  it carries a checksum before and after the change, the board does not obey it: the drive
  command and the commander stay, and the frame is gone.
\<close>
theorem corrupted_frame_ignored:
  assumes "frame_command f \<noteq> None" "14 < i" "i < 14 + ip_len (drop 14 f)" "b \<noteq> f ! i"
    "i < 14 + ip_hlen (drop 14 f) \<or> be16 (frame_udp f) 6 \<noteq> 0 \<and> be16 (frame_udp (f[i := b])) 6 \<noteq> 0"
    "stack_ok s" "pool_ok (lw_pool s)" "3 \<le> length (lw_pool s)" "ring_frame d (f[i := b])" "length f \<le> 1518"
  shows "\<exists>s'. poll_receive stack (d # ring) s n m = Some (ring, s', n, m) \<and> stack_ok s'"
proof -
  have c: "frame_command (f[i := b]) = None" by (rule frame_corrupted [OF assms(1-5)])
  have "length (f[i := b]) \<le> 1518" using assms(10) by simp
  from poll_frame [OF assms(6-9) this, of stack ring n m] show ?thesis by (auto simp: obey_frame_def c)
qed

text \<open>The last byte of the stop is lost.\<close>

theorem corrupted_frame_ignored_witness:
  "\<exists>s'. poll_receive demo_buf [demo_desc\<lparr>rx_buf := demo_frame[70 := 0]\<rparr>] demo_stack net_state_0 lmu_0 = Some ([], s', net_state_0, lmu_0) \<and> stack_ok s'"
proof (rule corrupted_frame_ignored)
  show "frame_command demo_frame \<noteq> None" by (simp add: demo_frame_command)
  show "0 \<noteq> demo_frame ! 70" by (simp add: demo_frame_def demo_payload_def)
  have "drop 14 (demo_frame[70 := 0]) = (drop 14 demo_frame)[56 := 0]" by (simp add: drop_update_swap)
  moreover have "ip_payload ((drop 14 demo_frame)[56 := 0]) = (ip_payload (drop 14 demo_frame))[36 := 0]"
    unfolding demo_drop by (simp add: ip_payload_def ip_hlen_def ip_len_def be16_def demo_payload_def)
  ultimately show "70 < 14 + ip_hlen (drop 14 demo_frame) \<or>
      be16 (frame_udp demo_frame) 6 \<noteq> 0 \<and> be16 (frame_udp (demo_frame[70 := 0])) 6 \<noteq> 0"
    unfolding frame_udp_def by (simp only: demo_ip) (simp add: be16_def)
  have "GetRxFrameSize (demo_desc\<lparr>rx_buf := demo_frame[70 := 0]\<rparr>) = GetRxFrameSize demo_desc"
    by (simp add: GetRxFrameSize_def)
  then show "ring_frame (demo_desc\<lparr>rx_buf := demo_frame[70 := 0]\<rparr>) (demo_frame[70 := 0])"
    using demo_ring by (simp add: ring_frame_def)
qed (simp_all add: demo_ip demo_stack_ok demo_bytes)

section \<open>Frames that cannot be taken\<close>

text \<open>The driver adds the padding to the length 0xFFFF of a bad frame, so the length wraps to 1.\<close>

lemma bad_frame_input:
  assumes "GetRxFrameSize d = 0xFFFF" "rx_buf d \<noteq> []" "pool_ok pool" "1 \<le> length pool"
  shows "\<exists>p. low_level_input (d # ring) pool = Some (Some p, ring, drop 1 pool) \<and> p_len p = 1 \<and>
    map fst (chain_elems p) = map fst (take 1 pool) \<and> pool_ok (chain_elems p) \<and> 592 \<le> length (seg_from (p_head p))"
proof -
  have c: "chunks 1 = 1" by (simp add: chunks_def)
  obtain q qs where a: "pool_chain 0 1 pool = Some (q # qs, drop 1 pool)" "map seg_elem (q # qs) = take 1 pool"
    "\<forall>r \<in> set (q # qs). sound_seg r" "seg_front q = []" "seg_len q = min 1 592"
    using pool_chain_raw [OF assms(3), of 1] assms(4) unfolding c by blast
  have qs: "qs = []" using arg_cong [OF a(2), of length] assms(4) by simp
  let ?p = "\<lparr>p_head = q, p_next = [], p_flags = 0, p_if_idx = 0\<rparr>"
  have l: "length (seg_data q) = 1" "seg_type q = PBUF_POOL" "length (seg_mem q) = 592"
    using a(3,5) by (simp_all add: seg_len_def sound_seg_def)
  obtain b bs where b: "rx_buf d = b # bs" using assms(2) by (cases "rx_buf d") auto
  have fill: "fill_segs [q] (rx_buf d) = Some [q\<lparr>seg_data := [b]\<rparr>]" using l(1) by (simp add: b seg_len_def)
  have h1: "pbuf_header ?p (- int ETH_PAD_SIZE) = (1, ?p)"
    using l(1) by (simp add: pbuf_header_def pbuf_header_impl_def pbuf_remove_header_def ETH_PAD_SIZE_def p_len_def seg_len_def)
  let ?p' = "\<lparr>p_head = q\<lparr>seg_data := [b]\<rparr>, p_next = [], p_flags = 0, p_if_idx = 0\<rparr>"
  have h2: "pbuf_header ?p' (int ETH_PAD_SIZE) = (1, ?p')"
    using l(2) a(4) by (simp add: pbuf_header_def pbuf_header_impl_def pbuf_add_header_impl_def ETH_PAD_SIZE_def
        contiguous_def p_tot_len_def p_segs_def seg_len_def)
  have u: "unat ((0xFFFF :: u16) + of_nat ETH_PAD_SIZE) = 1" "(0xFFFF :: u16) \<noteq> 0" by (simp_all add: ETH_PAD_SIZE_def)
  have al: "pbuf_alloc_pool PBUF_RAW 1 pool = (Some ?p, drop 1 pool)" using a(1) qs by (simp add: pbuf_alloc_pool_def)
  have "low_level_input (d # ring) pool = Some (Some ?p', ring, drop 1 pool)"
    unfolding low_level_input_def Let_def list.case assms(1) u(1) al prod.case option.case h1
    using fill h2 u(2) by (simp add: p_segs_def del: fill_segs.simps)
  moreover
  have el: "[seg_elem q] = take 1 pool" using a(2) qs by simp
  have "map fst (chain_elems ?p') = map fst (take 1 pool)"
    unfolding el [symmetric] by (simp add: chain_elems_def p_segs_def seg_elem_def)
  moreover have "pool_ok [seg_elem q]" unfolding el by (rule pool_ok_take [OF assms(3)])
  then have "pool_ok (chain_elems ?p')" using l by (simp add: chain_elems_def p_segs_def pool_ok_def seg_elem_def seg_mem_def)
  moreover have "592 \<le> length (seg_from (p_head ?p'))" using l(1,3) a(4) by (simp add: seg_from_def seg_mem_def)
  ultimately show ?thesis by (intro exI [of _ ?p']) (simp add: p_len_def seg_len_def)
qed

text \<open>
  A frame with errors is dropped. When the MAC marks a frame as erroneous, incomplete or descriptive
  (a length of 0xFFFF), the driver's length wraps around to one byte, both moves of the payload
  fail and the type is read from an old buffer; whatever is there, the poll takes the frame off the
  ring, changes neither command nor commander, and gives the buffer back.
\<close>
theorem faulty_frame_dropped:
  assumes "GetRxFrameSize d = 0xFFFF" "rx_buf d \<noteq> []" "stack_ok s" "pool_ok (lw_pool s)" "1 \<le> length (lw_pool s)"
  shows "\<exists>s'. poll_receive stack (d # ring) s n m = Some (ring, s', n, m) \<and> stack_ok s' \<and> pool_ok (lw_pool s') \<and>
    pool_addrs (lw_pool s') = pool_addrs (lw_pool s)"
proof -
  obtain nif where nif: "lw_netifs s = [nif]" using assms(3) by (auto simp: stack_ok_def)
  from bad_frame_input [OF assms(1,2,4,5), of ring] obtain p where
    p: "low_level_input (d # ring) (lw_pool s) = Some (Some p, ring, drop 1 (lw_pool s))" "p_len p = 1"
    "map fst (chain_elems p) = map fst (take 1 (lw_pool s))" "pool_ok (chain_elems p)" "592 \<le> length (seg_from (p_head p))"
    by blast
  let ?s = "s\<lparr>lw_pool := drop 1 (lw_pool s)\<rparr>" and ?pool = "pbuf_free p (drop 1 (lw_pool s))"
  have e: "ethernet_input p nif ?s = Some (EthDrop, ?s\<lparr>lw_pool := ?pool\<rparr>)"
    using p(2) by (simp add: ethernet_input_def eth_drop_def SIZEOF_ETH_HDR_def)
  have l: "\<not> length (seg_from (p_head p)) < SIZEOF_ETH_HDR" using p(5) by (simp add: SIZEOF_ETH_HDR_def ETH_PAD_SIZE_def)
  have i: "ifx_netif_input nif (d # ring) s = Some (Some EthDrop, ring, ?s\<lparr>lw_pool := ?pool\<rparr>)"
    unfolding ifx_netif_input_def Let_def p(1) using l e by simp
  have "pool_addrs ?pool = mset (map fst (take 1 (lw_pool s) @ drop 1 (lw_pool s)))"
    unfolding pool_addrs_def pbuf_free_elems map_append mset_append using p(3) by (simp flip: rev_map)
  then have a: "pool_addrs ?pool = pool_addrs (lw_pool s)" by (simp add: pool_addrs_def)
  have "pool_ok ?pool" unfolding pbuf_free_elems pool_ok_append pool_ok_rev using p(4) pool_ok_drop [OF assms(4)] by simp
  with a i nif assms(3) show ?thesis by (simp add: poll_receive_def run_fate_def stack_ok_def)
qed

theorem faulty_frame_dropped_witness:
  "\<exists>s'. poll_receive demo_buf [demo_desc\<lparr>RDES3 := 0x10008040\<rparr>] demo_stack net_state_0 lmu_0 = Some ([], s', net_state_0, lmu_0) \<and> stack_ok s' \<and>
     pool_ok (lw_pool s') \<and> pool_addrs (lw_pool s') = pool_addrs (lw_pool demo_stack)"
proof (rule faulty_frame_dropped)
  have "(0x10008040 :: u32) AND push_bit 15 1 \<noteq> 0" by (simp add: push_bit_eq_mult)
  then show "GetRxFrameSize (demo_desc\<lparr>RDES3 := 0x10008040\<rparr>) = 0xFFFF" by (simp add: GetRxFrameSize_def)
  show "rx_buf (demo_desc\<lparr>RDES3 := 0x10008040\<rparr>) \<noteq> []" by (simp add: demo_desc_def demo_frame_def)
  show "1 \<le> length (lw_pool demo_stack)" unfolding demo_stack_ok(3) by simp
qed (rule demo_stack_ok)+

lemma pool_chain_short: "pool_ok pool \<Longrightarrow> length pool < chunks n \<Longrightarrow> pool_chain 0 n pool = None"
proof (induction pool arbitrary: n)
  case (Cons e pool)
  obtain a m where e: "e = (a, m)" by fastforce
  have "592 < n" using Cons.prems(2) chunks_le [of n] by (cases "n \<le> 592") auto
  moreover from this have "pool_chain 0 (n - 592) pool = None" using Cons chunks_step [of n] e by simp
  ultimately show ?case by (simp add: e Let_def)
qed simp

text \<open>
  A frame waits for buffers. When the pool has too few elements for the frame of the current descriptor,
  the poll leaves the frame on the ring and changes nothing but the order of the pool; the next
  poll that finds enough takes it. So the receiver does not lose a frame for want of buffers,
  but no frame behind it is seen before, either.
\<close>
theorem frame_waits:
  assumes "GetRxFrameSize d = of_nat (length f)" "f \<noteq> []" "length f + 2 < 65536" "stack_ok s" "pool_ok (lw_pool s)"
    "length (lw_pool s) < chunks (length f + 2)"
  shows "poll_receive stack (d # ring) s n m = Some (d # ring, s\<lparr>lw_pool := rev (lw_pool s)\<rparr>, n, m)"
proof -
  obtain nif where nif: "lw_netifs s = [nif]" using assms(4) by (auto simp: stack_ok_def)
  have u: "unat (of_nat (length f) + of_nat ETH_PAD_SIZE :: u16) = length f + 2"
    using assms(3) by (simp add: ETH_PAD_SIZE_def unat_word_ariths unat_of_nat take_bit_nat_eq_self)
  have nz: "(of_nat (length f) :: u16) \<noteq> 0"
    using assms(2,3) by (simp add: word_unat_eq_iff unat_of_nat take_bit_nat_eq_self)
  have "pbuf_alloc_pool PBUF_RAW (length f + 2) (lw_pool s) = (None, rev (lw_pool s))"
    using pool_chain_short [OF assms(5,6)] by (simp add: pbuf_alloc_pool_def)
  then have "low_level_input (d # ring) (lw_pool s) = Some (None, d # ring, rev (lw_pool s))"
    unfolding low_level_input_def Let_def list.case assms(1) u using nz by simp
  then show ?thesis by (simp add: poll_receive_def nif ifx_netif_input_def run_fate_def Let_def)
qed

theorem frame_waits_witness:
  "poll_receive demo_buf [demo_desc] (demo_stack\<lparr>lw_pool := []\<rparr>) net_state_0 lmu_0 = Some ([demo_desc], demo_stack\<lparr>lw_pool := []\<rparr>, net_state_0, lmu_0)"
proof -
  have "poll_receive demo_buf [demo_desc] (demo_stack\<lparr>lw_pool := []\<rparr>) net_state_0 lmu_0 =
      Some ([demo_desc], demo_stack\<lparr>lw_pool := []\<rparr>\<lparr>lw_pool := rev (lw_pool (demo_stack\<lparr>lw_pool := []\<rparr>))\<rparr>, net_state_0, lmu_0)"
  proof (rule frame_waits)
    show "GetRxFrameSize demo_desc = of_nat (length demo_frame)" "demo_frame \<noteq> []" "length demo_frame + 2 < 65536"
      using demo_ring by (simp_all add: ring_frame_def)
    show "stack_ok (demo_stack\<lparr>lw_pool := []\<rparr>)" using demo_stack_ok(1) by (simp add: stack_ok_def)
  qed (simp_all add: pool_ok_def chunks_def demo_bytes)
  then show ?thesis by simp
qed

section \<open>Start and checksums\<close>

text \<open>
  What the start opens. \<open>UdpInit\<close> asks for five control blocks but the pool holds four: the sending block
  and the ports 5000, 5110 and 13400 exist afterwards, the SOME/IP port 30492 does not.
\<close>
theorem udp_ports_opened:
  "map_prod (\<lambda>n. (udp_ctr_pcb n, udp_hpvcrear_pcb n, udp_doip_pcb n, udp_someip_pcb n))
     (\<lambda>u. (map (\<lambda>pcb. (pcb_local_port pcb, pcb_recv pcb)) (udp_pcbs u), udp_free u)) (UdpInit_stack n udp_stack_0) =
   ((Some (Some (5000, AccRecv)), Some (Some (5110, AccRecv)), Some (Some (13400, DropRecv)), None),
    ([(13400, Some DropRecv), (5110, Some AccRecv), (5000, Some AccRecv)], 0))"
  unfolding UdpInit_board by (simp add: board_udp_def bound_pcb_def port_defs)

text \<open>
  C36: The three checksum algorithms of the stack agree, for every buffer of up to 131070 bytes: the bytewise one, the
  one that takes 16 bits at a time and the unrolled one with 32 bits, wherever in memory the
  buffer starts.
\<close>
theorem checksum_algorithms_agree:
  assumes "length bs \<le> 0x1FFFE"
  shows "lwip_standard_chksum_1 bs = lwip_standard_chksum a bs \<and> lwip_standard_chksum_3 a' bs = lwip_standard_chksum a bs"
  using chksum_alternatives [OF assms] by simp

theorem checksum_algorithms_agree_witness:
  "lwip_standard_chksum_1 demo_frame = lwip_standard_chksum 1 demo_frame \<and>
   lwip_standard_chksum_3 3 demo_frame = lwip_standard_chksum 1 demo_frame"
  by (rule checksum_algorithms_agree) (simp add: demo_bytes)

end
