(* ===== verification/LwipIgmp_Props.thy ===== *)
theory LwipIgmp_Props
  imports LwipBoot
begin

text \<open>
  Multicast membership over time: a query is answered before its response time is over when the
  timer of IGMP runs every 100 ms.
\<close>

section \<open>Ticks\<close>

definition always_memory :: "lwip_env \<Rightarrow> bool" where
  "always_memory L \<longleftrightarrow> (\<forall>w k. mem_ok L w k)"

definition igmp_report :: "netif \<Rightarrow> u32 \<Rightarrow> lwip_event" where
  "igmp_report n addr =
     IpOutput (igmp_msg IGMP_V2_MEMB_REPORT addr) (nif_ip n) addr IGMP_TTL IP_PROTO_IGMP [0x94, 0x04, 0x00, 0x00]"

lemma tmr_group_grows: "set w \<subseteq> set (snd (igmp_tmr_group L n g w))"
  by (auto simp: igmp_tmr_group_def igmp_timeout_def igmp_send_def igmp_ip_output_if_def Let_def)

lemma tmr_groups_grows: "set w \<subseteq> set (snd (igmp_tmr_groups L n gs w))"
proof (induction gs arbitrary: w)
  case (Cons g gs)
  from Cons [of "snd (igmp_tmr_group L n g w)"] tmr_group_grows [of w L n g] show ?case
    by (auto simp: split_beta Let_def)
qed simp

lemma tmr_fires:
  assumes "always_memory L" "group_timer g = 1" "group_state g = IGMP_GROUP_DELAYING_MEMBER" "group_address g \<noteq> allsystems"
  shows "igmp_report n (group_address g) \<in> set (snd (igmp_tmr_group L n g w))"
  using assms
  by (simp add: igmp_tmr_group_def igmp_timeout_def igmp_send_def igmp_ip_output_if_def igmp_report_def always_memory_def Let_def)

lemma tmr_counts: "1 < group_timer g \<Longrightarrow> igmp_tmr_group L n g w = (g\<lparr>group_timer := group_timer g - 1\<rparr>, w)"
proof -
  assume "1 < group_timer g"
  then have u: "1 < unat (group_timer g)" by (simp add: word_less_nat_alt)
  then have "0 < group_timer g" by (simp add: word_less_nat_alt)
  moreover have "group_timer g \<noteq> 1" using u by auto
  then have "group_timer g - 1 \<noteq> 0" by simp
  ultimately show ?thesis by (simp add: igmp_tmr_group_def Let_def)
qed

lemma groups_fire:
  assumes "always_memory L" "g \<in> set gs" "group_timer g = 1" "group_state g = IGMP_GROUP_DELAYING_MEMBER"
    "group_address g \<noteq> allsystems"
  shows "igmp_report n (group_address g) \<in> set (snd (igmp_tmr_groups L n gs w))"
  using assms(2)
proof (induction gs arbitrary: w)
  case (Cons h gs)
  let ?w = "snd (igmp_tmr_group L n h w)"
  show ?case
  proof (cases "h = g")
    case True
    then have "igmp_report n (group_address g) \<in> set ?w" using tmr_fires [OF assms(1,3,4,5)] by simp
    then show ?thesis using tmr_groups_grows [of ?w L n gs] by (auto simp: split_beta Let_def)
  next
    case False
    then show ?thesis using Cons by (simp add: split_beta Let_def)
  qed
qed simp

lemma groups_count:
  "g \<in> set gs \<Longrightarrow> 1 < group_timer g \<Longrightarrow> g\<lparr>group_timer := group_timer g - 1\<rparr> \<in> set (fst (igmp_tmr_groups L n gs w))"
proof (induction gs arbitrary: w)
  case (Cons h gs)
  show ?case
  proof (cases "h = g")
    case True
    then show ?thesis using Cons.prems(2) by (simp add: tmr_counts split_beta Let_def)
  next
    case False
    then show ?thesis using Cons by (simp add: split_beta Let_def)
  qed
qed simp

text \<open>The timer function, as often as it is called every 100 ms.\<close>

fun igmp_ticks :: "nat \<Rightarrow> lwip_env \<Rightarrow> netif list \<Rightarrow> ltrace \<Rightarrow> netif list \<times> ltrace" where
  "igmp_ticks 0 L ns w = (ns, w)"
| "igmp_ticks (Suc k) L ns w = (let (ns, w) = igmp_tmr L ns w in igmp_ticks k L ns w)"

lemma igmp_tmr_one: "igmp_tmr L [n] w = ([n\<lparr>nif_igmp := fst (igmp_tmr_groups L n (nif_igmp n) w)\<rparr>], snd (igmp_tmr_groups L n (nif_igmp n) w))"
  by (simp add: split_beta Let_def)

lemma ticks_grow: "set w \<subseteq> set (snd (igmp_ticks k L [n] w))"
proof (induction k arbitrary: n w)
  case (Suc k)
  have "igmp_ticks (Suc k) L [n] w = igmp_ticks k L [n\<lparr>nif_igmp := fst (igmp_tmr_groups L n (nif_igmp n) w)\<rparr>]
      (snd (igmp_tmr_groups L n (nif_igmp n) w))" by (simp only: igmp_ticks.simps igmp_tmr_one Let_def prod.case)
  then show ?case using Suc tmr_groups_grows [of w L n "nif_igmp n"] by (metis subset_trans)
qed simp

lemma ticks_fire:
  assumes "always_memory L" "g \<in> set (nif_igmp n)" "0 < group_timer g" "unat (group_timer g) \<le> k"
    "group_state g = IGMP_GROUP_DELAYING_MEMBER" "group_address g \<noteq> allsystems"
  shows "igmp_report n (group_address g) \<in> set (snd (igmp_ticks k L [n] w))"
  using assms(2-6)
proof (induction k arbitrary: n g w)
  case 0
  then show ?case by (simp add: word_less_nat_alt)
next
  case (Suc k)
  let ?r = "igmp_tmr_groups L n (nif_igmp n) w"
  have e: "igmp_ticks (Suc k) L [n] w = igmp_ticks k L [n\<lparr>nif_igmp := fst ?r\<rparr>] (snd ?r)"
    by (simp only: igmp_ticks.simps igmp_tmr_one Let_def prod.case)
  show ?case
  proof (cases "group_timer g = 1")
    case True
    from groups_fire [OF assms(1) Suc.prems(1) True Suc.prems(4,5), of n w] show ?thesis
      unfolding e using ticks_grow [of "snd ?r" k L "n\<lparr>nif_igmp := fst ?r\<rparr>"] by blast
  next
    case False
    then have t: "1 < group_timer g" using Suc.prems(2) by (auto simp: word_less_nat_alt word_unat_eq_iff)
    let ?g = "g\<lparr>group_timer := group_timer g - 1\<rparr>"
    have g: "?g \<in> set (fst ?r)" by (rule groups_count [OF Suc.prems(1) t])
    have u: "unat (group_timer g - 1) = unat (group_timer g) - 1" using t by (intro unat_minus_one) auto
    have "1 < unat (group_timer g)" using t by (simp add: word_less_nat_alt)
    then have "0 < group_timer ?g" "unat (group_timer ?g) \<le> k" using u Suc.prems(3) by (simp_all add: word_less_nat_alt)
    from Suc.IH [of ?g "n\<lparr>nif_igmp := fst ?r\<rparr>", OF _ this] g Suc.prems(4,5)
    show ?thesis unfolding e by (simp add: igmp_report_def)
  qed
qed

section \<open>Queries\<close>

text \<open>A group that is no non-member, after a query.\<close>

lemma delayed_group:
  assumes "group_state g = IGMP_GROUP_IDLE_MEMBER \<or> group_state g = IGMP_GROUP_DELAYING_MEMBER" "0 < m"
  shows "group_state (igmp_delaying_member m g) = IGMP_GROUP_DELAYING_MEMBER"
    "0 < group_timer (igmp_delaying_member m g)" "unat (group_timer (igmp_delaying_member m g)) \<le> unat m"
proof -
  have uc: "unat (ucast x :: u16) = unat x" for x :: u8
    using u8_less_256 [of x] by (simp add: unsigned_ucast_eq take_bit_nat_eq_self del: u8_less_256)
  then have um: "unat (ucast m :: u16) = unat m" .
  show "group_state (igmp_delaying_member m g) = IGMP_GROUP_DELAYING_MEMBER"
    using assms(1) by (auto simp: igmp_delaying_member_def)
  have p: "0 < unat m" using assms(2) by (simp add: word_less_nat_alt)
  have h: "0 < (if t = 0 then 1 else t)" "unat (if t = 0 then 1 else t) \<le> unat m"
    if "t = (ucast (m div 2) :: u16)" for t
  proof -
    have "unat t = unat m div 2" unfolding that uc by (simp add: unat_div)
    then show "0 < (if t = 0 then 1 else t)" "unat (if t = 0 then 1 else t) \<le> unat m" using p by (auto simp: word_neq_0_conv)
  qed
  have o: "group_timer g \<noteq> 0 \<Longrightarrow> \<not> ucast m < group_timer g \<Longrightarrow> 0 < group_timer g \<and> unat (group_timer g) \<le> unat m"
    using um by (simp add: word_less_nat_alt word_neq_0_conv not_less)
  show "0 < group_timer (igmp_delaying_member m g)" "unat (group_timer (igmp_delaying_member m g)) \<le> unat m"
    using h [OF refl] o assms(1) by (auto simp: igmp_delaying_member_def igmp_start_timer_def Let_def split: if_splits)
qed

text \<open>
  C37: A query is answered in time. When a general membership query of the all-systems group arrives with a correct
  checksum and the timer of IGMP runs every 100 ms, every other group the board has joined is
  reported before the response time of the query (in tenths of a second, one second for a query of
  version 1) is over, however the groups' timers stood.
\<close>
theorem igmp_query_answered:
  assumes "always_memory L" "nif_igmp n = h # gs" "group_address h = allsystems" "g \<in> set gs" "group_address g \<noteq> allsystems"
    "group_state g = IGMP_GROUP_IDLE_MEMBER \<or> group_state g = IGMP_GROUP_DELAYING_MEMBER"
    "8 \<le> p_len p" "inet_chksum (seg_payload (p_head p)) (seg_data (p_head p)) = 0"
    "seg_data (p_head p) ! 0 = IGMP_MEMB_QUERY" "at32 (seg_data (p_head p)) 4 = IPADDR_ANY"
    "m = (let b = seg_data (p_head p) ! 1 in if b = 0 then 10 else b)"
  shows "igmp_report n (group_address g) \<in> set (snd (igmp_ticks (unat m) L [fst (igmp_input p n allsystems pool)] w))"
proof -
  let ?n = "n\<lparr>nif_igmp := delay_groups m (nif_igmp n)\<rparr>" and ?g = "igmp_delaying_member m g"
  have m: "0 < m" by (simp add: assms(11) Let_def word_neq_0_conv)
  have "igmp_lookfor_group (nif_igmp n) allsystems = Some h" using assms(2,3) by simp
  then have i: "fst (igmp_input p n allsystems pool) = ?n"
    using assms(7-11) by (simp add: igmp_input_def igmp_message_def igmp_query_def ip4_addr_isany_val_def IGMP_MINLEN_def
        IGMP_V1_DELAYING_MEMBER_TMR_def Let_def)
  note d = delayed_group [OF assms(6) m]
  have "igmp_report ?n (group_address ?g) \<in> set (snd (igmp_ticks (unat m) L [?n] w))"
    by (rule ticks_fire [OF assms(1)]) (use assms(2,4,5) d in \<open>simp_all add: delay_groups_def\<close>)
  then show ?thesis unfolding i by (simp add: igmp_report_def)
qed

definition demo_query :: pbuf where
  "demo_query = \<lparr>p_head = \<lparr>seg_type = PBUF_POOL, seg_addr = 0, seg_front = [], seg_data = [0x11, 20, 0xee, 0xeb, 0, 0, 0, 0],
     seg_tail = []\<rparr>, p_next = [], p_flags = 0, p_if_idx = 0\<rparr>"

definition demo_member :: netif where
  "demo_member = (board_netif [] True)\<lparr>nif_igmp := [new_group allsystems,
     (new_group (IP4_ADDR 224 224 224 245))\<lparr>group_state := IGMP_GROUP_IDLE_MEMBER\<rparr>]\<rparr>"

theorem igmp_query_answered_witness:
  "igmp_report demo_member (IP4_ADDR 224 224 224 245) \<in>
     set (snd (igmp_ticks 20 \<lparr>mem_ok = \<lambda>_ _. True\<rparr> [fst (igmp_input demo_query demo_member allsystems [])] []))"
proof -
  let ?g = "(new_group (IP4_ADDR 224 224 224 245))\<lparr>group_state := IGMP_GROUP_IDLE_MEMBER\<rparr>"
  have "inet_chksum (seg_payload (p_head demo_query)) (seg_data (p_head demo_query)) = 0"
    using inet_chksum_be [of "seg_data (p_head demo_query)"] by (simp add: demo_query_def)
  moreover have "at32 (seg_data (p_head demo_query)) 4 = IPADDR_ANY"
    by (simp add: demo_query_def at32_def load32_def IPADDR_ANY_def)
  ultimately have "igmp_report demo_member (group_address ?g) \<in>
      set (snd (igmp_ticks (unat (20 :: u8)) \<lparr>mem_ok = \<lambda>_ _. True\<rparr> [fst (igmp_input demo_query demo_member allsystems [])] []))"
    by (intro igmp_query_answered [where h = "new_group allsystems" and gs = "[?g]"])
      (simp_all add: always_memory_def demo_member_def new_group_def allsystems_def addr_neq demo_query_def p_len_def
        seg_len_def IGMP_MEMB_QUERY_def)
  then show ?thesis by (simp add: new_group_def)
qed

end
