(* ===== verification/LwipArp.thy ===== *)
theory LwipArp
  imports LwipPort
begin

text \<open>
  Address resolution of lwIP (core/ipv4/etharp.c) with the options of the REAR board: one packet
  waits per entry, no static entries, entries belong to an interface, no hints from control
  blocks, debugging on (so that a freed entry is cleared). Sending goes through
  \<open>ethernet_output\<close> to the driver.
\<close>

section \<open>State\<close>

definition ARP_TABLE_SIZE :: nat where "ARP_TABLE_SIZE = 10"
definition ARP_MAXAGE :: u16 where "ARP_MAXAGE = 300"
definition ARP_AGE_REREQUEST_USED_UNICAST :: u16 where "ARP_AGE_REREQUEST_USED_UNICAST = ARP_MAXAGE - 30"
definition ARP_AGE_REREQUEST_USED_BROADCAST :: u16 where "ARP_AGE_REREQUEST_USED_BROADCAST = ARP_MAXAGE - 15"
definition ARP_MAXPENDING :: u16 where "ARP_MAXPENDING = 5"
definition ETHARP_FLAG_TRY_HARD :: u8 where "ETHARP_FLAG_TRY_HARD = 1"
definition ETHARP_FLAG_FIND_ONLY :: u8 where "ETHARP_FLAG_FIND_ONLY = 2"
definition ethzero :: "u8 list" where "ethzero = [0, 0, 0, 0, 0, 0]"

datatype etharp_state =
    ETHARP_STATE_EMPTY
  | ETHARP_STATE_PENDING
  | ETHARP_STATE_STABLE
  | ETHARP_STATE_STABLE_REREQUESTING_1
  | ETHARP_STATE_STABLE_REREQUESTING_2

text \<open>The comparison \<open>state >= ETHARP_STATE_STABLE\<close>.\<close>

fun is_stable :: "etharp_state \<Rightarrow> bool" where
  "is_stable ETHARP_STATE_EMPTY = False"
| "is_stable ETHARP_STATE_PENDING = False"
| "is_stable _ = True"

text \<open>An entry; its interface is known by number, \<open>None\<close> is the null pointer.\<close>

record etharp_entry =
  ae_q :: "pbuf option"
  ae_ipaddr :: u32
  ae_netif :: "u8 option"
  ae_ethaddr :: "u8 list"
  ae_ctime :: u16
  ae_state :: etharp_state

definition arp_empty :: etharp_entry where
  "arp_empty = \<lparr>ae_q = None, ae_ipaddr = 0, ae_netif = None, ae_ethaddr = ethzero, ae_ctime = 0,
     ae_state = ETHARP_STATE_EMPTY\<rparr>"

text \<open>What the sending side does, newest first: a frame was handed to the MAC, or the heap had no
  room for a buffer.\<close>

datatype tx_event = SentFrame "u8 list" | NoHeap nat

type_synonym txtrace = "tx_event list"

text \<open>The surroundings: \<open>mem_malloc\<close> for a buffer of the given length (the address behind its
  \<open>struct pbuf\<close>, and what lies there), and the contents of the next transmit buffer.\<close>

record tx_env =
  heap :: "txtrace \<Rightarrow> nat \<Rightarrow> (u32 \<times> u8 list) option"
  tx_buf :: "txtrace \<Rightarrow> u8 list"

text \<open>The sending half of the stack: the table, the entry used last, the identification of the next IP
  packet, the pool of receive buffers (a received buffer can be sent again), the trace.\<close>

record tx_state =
  arp_table :: "etharp_entry list"
  etharp_cached_entry :: nat
  ip_id :: u16
  tx_pool :: pool
  tx_trace :: txtrace

definition tx_state_0 :: "pool \<Rightarrow> tx_state" where
  "tx_state_0 pool = \<lparr>arp_table = replicate ARP_TABLE_SIZE arp_empty, etharp_cached_entry = 0, ip_id = 0,
     tx_pool = pool, tx_trace = []\<rparr>"

datatype lwip_err = LwOk | LwMem | LwBuf | LwRte | LwVal | LwUse | LwArg

section \<open>Buffers from the heap\<close>

definition SIZEOF_STRUCT_PBUF :: nat where "SIZEOF_STRUCT_PBUF = 16"

text \<open>The type PBUF_RAM of \<open>pbuf_alloc\<close>; the lengths are computed in 16 bits.\<close>

definition pbuf_alloc_ram :: "tx_env \<Rightarrow> pbuf_layer \<Rightarrow> nat \<Rightarrow> tx_state \<Rightarrow> pbuf option \<times> tx_state" where
  "pbuf_alloc_ram E layer n s =
     (let start = LWIP_MEM_ALIGN_SIZE (layer_offset layer);
          payload_len = (start + LWIP_MEM_ALIGN_SIZE n) mod 2 ^ 16;
          alloc_len = (SIZEOF_STRUCT_PBUF + payload_len) mod 2 ^ 16
      in if payload_len < LWIP_MEM_ALIGN_SIZE n \<or> alloc_len < LWIP_MEM_ALIGN_SIZE n then (None, s)
         else case heap E (tx_trace s) alloc_len of
           None \<Rightarrow> (None, s\<lparr>tx_trace := NoHeap alloc_len # tx_trace s\<rparr>)
         | Some (a, m) \<Rightarrow>
             (Some \<lparr>p_head = \<lparr>seg_type = PBUF_RAM, seg_addr = a, seg_front = take start m,
                seg_data = take n (drop start m), seg_tail = drop (start + n) m\<rparr>, p_next = [], p_flags = 0, p_if_idx = 0\<rparr>, s))"

text \<open>Letting go of a chain: what came from the pool goes back there.\<close>

definition from_pool :: "seg \<Rightarrow> bool" where "from_pool q \<longleftrightarrow> seg_type q = PBUF_POOL"

definition pbuf_release :: "pbuf \<Rightarrow> tx_state \<Rightarrow> tx_state" where
  "pbuf_release p s =
     s\<lparr>tx_pool := rev (map (\<lambda>q. (seg_addr q, seg_mem q)) (filter from_pool (p_segs p))) @ tx_pool s\<rparr>"

text \<open>\<open>pbuf_clone\<close> with PBUF_RAM.\<close>

definition pbuf_clone_ram :: "tx_env \<Rightarrow> pbuf_layer \<Rightarrow> pbuf \<Rightarrow> tx_state \<Rightarrow> pbuf option \<times> tx_state" where
  "pbuf_clone_ram E layer p s =
     (case pbuf_alloc_ram E layer (p_tot_len p) s of
        (None, s) \<Rightarrow> (None, s)
      | (Some q, s) \<Rightarrow> (let h = p_head q in (Some (q\<lparr>p_head := h\<lparr>seg_data := p_bytes p\<rparr>\<rparr>), s)))"

section \<open>Sending on the link\<close>

text \<open>\<open>ethernet_output\<close> with the driver behind it. The chain is the caller's to free; that the room in
  front of its payload holds the Ethernet header afterwards is not recorded. \<open>low_level_output\<close> reports success in
  every case, as in the code; its wait for a transmit buffer of the MAC (\<open>IfxGeth_Eth_waitTransmitBuffer\<close>), which has no limit, is
  taken to return.\<close>

definition link_output :: "tx_env \<Rightarrow> pbuf \<Rightarrow> u8 list \<Rightarrow> u8 list \<Rightarrow> u16 \<Rightarrow> tx_state \<Rightarrow> lwip_err \<times> tx_state" where
  "link_output E p src dst ethtype s =
     (case ethernet_output p src dst ethtype of
        None \<Rightarrow> (LwBuf, s)
      | Some p \<Rightarrow>
          (let (frame, _) = low_level_output p (tx_buf E (tx_trace s))
           in (LwOk, s\<lparr>tx_trace := SentFrame frame # tx_trace s\<rparr>)))"

section \<open>ARP packets\<close>

definition SIZEOF_ETHARP_HDR :: nat where "SIZEOF_ETHARP_HDR = 28"
definition ARP_REQUEST :: u16 where "ARP_REQUEST = 1"
definition ARP_REPLY :: u16 where "ARP_REPLY = 2"
definition LWIP_IANA_HWTYPE_ETHERNET :: u16 where "LWIP_IANA_HWTYPE_ETHERNET = 1"

text \<open>The fields of \<open>struct etharp_hdr\<close> in order, all of them written by \<open>etharp_raw\<close>.\<close>

definition etharp_hdr :: "u8 list \<Rightarrow> u32 \<Rightarrow> u8 list \<Rightarrow> u32 \<Rightarrow> u16 \<Rightarrow> u8 list" where
  "etharp_hdr hwsrc_addr ipsrc_addr hwdst_addr ipdst_addr opcode =
     store16 (lwip_htons LWIP_IANA_HWTYPE_ETHERNET) @ store16 (lwip_htons ETHTYPE_IP) @ [of_nat ETH_HWADDR_LEN, 4] @
     store16 (lwip_htons opcode) @ take ETH_HWADDR_LEN hwsrc_addr @ store32 ipsrc_addr @
     take ETH_HWADDR_LEN hwdst_addr @ store32 ipdst_addr"

definition etharp_raw ::
    "tx_env \<Rightarrow> u8 list \<Rightarrow> u8 list \<Rightarrow> u8 list \<Rightarrow> u32 \<Rightarrow> u8 list \<Rightarrow> u32 \<Rightarrow> u16 \<Rightarrow> tx_state \<Rightarrow> lwip_err \<times> tx_state" where
  "etharp_raw E ethsrc_addr ethdst_addr hwsrc_addr ipsrc_addr hwdst_addr ipdst_addr opcode s =
     (case pbuf_alloc_ram E PBUF_LINK SIZEOF_ETHARP_HDR s of
        (None, s) \<Rightarrow> (LwMem, s)
      | (Some p, s) \<Rightarrow>
          (let h = p_head p;
               p = p\<lparr>p_head := h\<lparr>seg_data := etharp_hdr hwsrc_addr ipsrc_addr hwdst_addr ipdst_addr opcode\<rparr>\<rparr>;
               (_, s) = link_output E p ethsrc_addr ethdst_addr ETHTYPE_ARP s
           in (LwOk, pbuf_release p s)))"

definition etharp_request_dst :: "tx_env \<Rightarrow> netif \<Rightarrow> u32 \<Rightarrow> u8 list \<Rightarrow> tx_state \<Rightarrow> lwip_err \<times> tx_state" where
  "etharp_request_dst E n ipaddr hw_dst_addr s =
     etharp_raw E (nif_hwaddr n) hw_dst_addr (nif_hwaddr n) (nif_ip n) ethzero ipaddr ARP_REQUEST s"

definition etharp_request :: "tx_env \<Rightarrow> netif \<Rightarrow> u32 \<Rightarrow> tx_state \<Rightarrow> lwip_err \<times> tx_state" where
  "etharp_request E n ipaddr s = etharp_request_dst E n ipaddr ethbroadcast s"

definition etharp_gratuitous :: "tx_env \<Rightarrow> netif \<Rightarrow> tx_state \<Rightarrow> lwip_err \<times> tx_state" where
  "etharp_gratuitous E n s = etharp_request E n (nif_ip n) s"

section \<open>The table\<close>

definition arp_at :: "tx_state \<Rightarrow> nat \<Rightarrow> etharp_entry" where "arp_at s i = arp_table s ! i"

definition arp_set :: "nat \<Rightarrow> etharp_entry \<Rightarrow> tx_state \<Rightarrow> tx_state" where
  "arp_set i e s = s\<lparr>arp_table := (arp_table s)[i := e]\<rparr>"

definition etharp_free_entry :: "nat \<Rightarrow> tx_state \<Rightarrow> tx_state" where
  "etharp_free_entry i s =
     (let s = (case ae_q (arp_at s i) of Some q \<Rightarrow> pbuf_release q s | None \<Rightarrow> s) in arp_set i arp_empty s)"

text \<open>One sweep of the timer over the entries from \<open>i\<close> on. \<open>None\<close> stands for the use of a pointer to
  no interface.\<close>

definition netif_of :: "u8 option \<Rightarrow> netif list \<Rightarrow> netif option" where
  "netif_of i netifs = find (\<lambda>n. Some (nif_num n) = i) netifs"

definition etharp_tmr_entry :: "tx_env \<Rightarrow> netif list \<Rightarrow> nat \<Rightarrow> tx_state \<Rightarrow> tx_state option" where
  "etharp_tmr_entry E netifs i s =
     (let e = arp_at s i; state = ae_state e
      in if state = ETHARP_STATE_EMPTY then Some s
         else (let e = e\<lparr>ae_ctime := ae_ctime e + 1\<rparr>; s = arp_set i e s
               in if ARP_MAXAGE \<le> ae_ctime e \<or> ae_state e = ETHARP_STATE_PENDING \<and> ARP_MAXPENDING \<le> ae_ctime e
                  then Some (etharp_free_entry i s)
                  else if ae_state e = ETHARP_STATE_STABLE_REREQUESTING_1
                  then Some (arp_set i (e\<lparr>ae_state := ETHARP_STATE_STABLE_REREQUESTING_2\<rparr>) s)
                  else if ae_state e = ETHARP_STATE_STABLE_REREQUESTING_2
                  then Some (arp_set i (e\<lparr>ae_state := ETHARP_STATE_STABLE\<rparr>) s)
                  else if ae_state e = ETHARP_STATE_PENDING
                  then map_option (\<lambda>n. snd (etharp_request E n (ae_ipaddr e) s)) (netif_of (ae_netif e) netifs)
                  else Some s))"

fun etharp_tmr_loop :: "tx_env \<Rightarrow> netif list \<Rightarrow> nat \<Rightarrow> nat \<Rightarrow> tx_state \<Rightarrow> tx_state option" where
  "etharp_tmr_loop E netifs i 0 s = Some s"
| "etharp_tmr_loop E netifs i (Suc k) s = do {
     s \<leftarrow> etharp_tmr_entry E netifs i s;
     etharp_tmr_loop E netifs (i + 1) k s }"

definition etharp_tmr :: "tx_env \<Rightarrow> netif list \<Rightarrow> tx_state \<Rightarrow> tx_state option" where
  "etharp_tmr E netifs s = etharp_tmr_loop E netifs 0 ARP_TABLE_SIZE s"

text \<open>The candidates that the sweep of \<open>etharp_find_entry\<close> remembers; \<open>None\<close> is the initial value
  \<open>ARP_TABLE_SIZE\<close> of the code.\<close>

record arp_cand =
  c_empty :: "nat option"
  old_stable :: "nat option"
  old_pending :: "nat option"
  old_queue :: "nat option"
  age_stable :: u16
  age_pending :: u16
  age_queue :: u16

definition arp_cand_0 :: arp_cand where
  "arp_cand_0 = \<lparr>c_empty = None, old_stable = None, old_pending = None, old_queue = None,
     age_stable = 0, age_pending = 0, age_queue = 0\<rparr>"

text \<open>An entry that is not empty and does not match.\<close>

definition remember :: "nat \<Rightarrow> etharp_entry \<Rightarrow> arp_cand \<Rightarrow> arp_cand" where
  "remember i e c =
     (if ae_state e = ETHARP_STATE_PENDING then
        (if ae_q e \<noteq> None then
           (if age_queue c \<le> ae_ctime e then c\<lparr>old_queue := Some i, age_queue := ae_ctime e\<rparr> else c)
         else (if age_pending c \<le> ae_ctime e then c\<lparr>old_pending := Some i, age_pending := ae_ctime e\<rparr> else c))
      else if is_stable (ae_state e) then
        (if age_stable c \<le> ae_ctime e then c\<lparr>old_stable := Some i, age_stable := ae_ctime e\<rparr> else c)
      else c)"

definition arp_match :: "u32 option \<Rightarrow> u8 option \<Rightarrow> etharp_entry \<Rightarrow> bool" where
  "arp_match ipaddr nif e \<longleftrightarrow> ipaddr = Some (ae_ipaddr e) \<and> (nif = None \<or> nif = ae_netif e)"

text \<open>The sweep from entry \<open>i\<close> on: the matching entry, or the candidates.\<close>

fun find_scan :: "u32 option \<Rightarrow> u8 option \<Rightarrow> etharp_entry list \<Rightarrow> nat \<Rightarrow> arp_cand \<Rightarrow> nat + arp_cand" where
  "find_scan ipaddr nif [] i c = Inr c"
| "find_scan ipaddr nif (e # es) i c =
     (if c_empty c = None \<and> ae_state e = ETHARP_STATE_EMPTY
      then find_scan ipaddr nif es (i + 1) (c\<lparr>c_empty := Some i\<rparr>)
      else if ae_state e \<noteq> ETHARP_STATE_EMPTY then
        (if arp_match ipaddr nif e then Inl i else find_scan ipaddr nif es (i + 1) (remember i e c))
      else find_scan ipaddr nif es (i + 1) c)"

text \<open>The least destructive entry to recycle, and whether it must be freed first.\<close>

definition to_recycle :: "arp_cand \<Rightarrow> nat option" where
  "to_recycle c =
     (case old_stable c of Some i \<Rightarrow> Some i
      | None \<Rightarrow> (case old_pending c of Some i \<Rightarrow> Some i | None \<Rightarrow> old_queue c))"

text \<open>A result \<open>None\<close> is ERR_MEM.\<close>

definition claim_entry :: "u32 option \<Rightarrow> u8 option \<Rightarrow> nat \<Rightarrow> tx_state \<Rightarrow> tx_state" where
  "claim_entry ipaddr nif i s =
     (let e = arp_at s i;
          e = (case ipaddr of Some a \<Rightarrow> e\<lparr>ae_ipaddr := a\<rparr> | None \<Rightarrow> e)
      in arp_set i (e\<lparr>ae_ctime := 0, ae_netif := nif\<rparr>) s)"

definition etharp_find_entry :: "u32 option \<Rightarrow> u8 \<Rightarrow> u8 option \<Rightarrow> tx_state \<Rightarrow> nat option \<times> tx_state" where
  "etharp_find_entry ipaddr flags nif s =
     (case find_scan ipaddr nif (arp_table s) 0 arp_cand_0 of
        Inl i \<Rightarrow> (Some i, s)
      | Inr c \<Rightarrow>
          if flags AND ETHARP_FLAG_FIND_ONLY \<noteq> 0 \<or> c_empty c = None \<and> flags AND ETHARP_FLAG_TRY_HARD = 0 then (None, s)
          else case c_empty c of
            Some i \<Rightarrow> (Some i, claim_entry ipaddr nif i s)
          | None \<Rightarrow>
              (case to_recycle c of
                 None \<Rightarrow> (None, s)
               | Some i \<Rightarrow> (Some i, claim_entry ipaddr nif i (etharp_free_entry i s))))"

text \<open>Entering a pair of addresses; a packet that waited for it is sent.\<close>

definition etharp_update_arp_entry ::
    "tx_env \<Rightarrow> netif \<Rightarrow> u32 \<Rightarrow> u8 list \<Rightarrow> u8 \<Rightarrow> tx_state \<Rightarrow> lwip_err \<times> tx_state" where
  "etharp_update_arp_entry E n ipaddr ethaddr flags s =
     (if ip4_addr_isany_val ipaddr \<or> ip4_addr_isbroadcast_u32 ipaddr n \<or> ip4_addr_ismulticast ipaddr then (LwArg, s)
      else case etharp_find_entry (Some ipaddr) flags (Some (nif_num n)) s of
        (None, s) \<Rightarrow> (LwMem, s)
      | (Some i, s) \<Rightarrow>
          (let e = (arp_at s i)\<lparr>ae_state := ETHARP_STATE_STABLE, ae_netif := Some (nif_num n),
                 ae_ethaddr := take ETH_HWADDR_LEN ethaddr, ae_ctime := 0\<rparr>
           in case ae_q e of
                None \<Rightarrow> (LwOk, arp_set i e s)
              | Some p \<Rightarrow>
                  (let s = arp_set i (e\<lparr>ae_q := None\<rparr>) s;
                       (_, s) = link_output E p (nif_hwaddr n) ethaddr ETHTYPE_IP s
                   in (LwOk, pbuf_release p s))))"

fun etharp_cleanup_loop :: "u8 option \<Rightarrow> nat \<Rightarrow> nat \<Rightarrow> tx_state \<Rightarrow> tx_state" where
  "etharp_cleanup_loop nif i 0 s = s"
| "etharp_cleanup_loop nif i (Suc k) s =
     (let e = arp_at s i;
          s = (if ae_state e \<noteq> ETHARP_STATE_EMPTY \<and> ae_netif e = nif then etharp_free_entry i s else s)
      in etharp_cleanup_loop nif (i + 1) k s)"

definition etharp_cleanup_netif :: "netif \<Rightarrow> tx_state \<Rightarrow> tx_state" where
  "etharp_cleanup_netif n s = etharp_cleanup_loop (Some (nif_num n)) 0 ARP_TABLE_SIZE s"

definition etharp_find_addr :: "u8 option \<Rightarrow> u32 \<Rightarrow> tx_state \<Rightarrow> (nat \<times> u8 list \<times> u32) option" where
  "etharp_find_addr nif ipaddr s =
     (case fst (etharp_find_entry (Some ipaddr) ETHARP_FLAG_FIND_ONLY nif s) of
        Some i \<Rightarrow> (let e = arp_at s i in if is_stable (ae_state e) then Some (i, ae_ethaddr e, ae_ipaddr e) else None)
      | None \<Rightarrow> None)"

definition etharp_get_entry :: "nat \<Rightarrow> tx_state \<Rightarrow> (u32 \<times> u8 option \<times> u8 list) option" where
  "etharp_get_entry i s =
     (let e = arp_at s i
      in if i < ARP_TABLE_SIZE \<and> is_stable (ae_state e) then Some (ae_ipaddr e, ae_netif e, ae_ethaddr e) else None)"

section \<open>Receiving ARP packets\<close>

text \<open>The header is read from the memory of the buffer: the length of the packet is not tested.
  \<open>None\<close> stands for a read outside of the buffer.\<close>

definition etharp_reply :: "tx_env \<Rightarrow> netif \<Rightarrow> u8 list \<Rightarrow> u32 \<Rightarrow> tx_state \<Rightarrow> tx_state" where
  "etharp_reply E n shwaddr sipaddr s =
     snd (etharp_raw E (nif_hwaddr n) shwaddr (nif_hwaddr n) (nif_ip n) shwaddr sipaddr ARP_REPLY s)"

definition etharp_input :: "tx_env \<Rightarrow> pbuf \<Rightarrow> netif \<Rightarrow> tx_state \<Rightarrow> tx_state option" where
  "etharp_input E p n s =
     (let hdr = seg_from (p_head p)
      in if length hdr < SIZEOF_ETHARP_HDR then None
         else if at16 hdr 0 \<noteq> lwip_htons LWIP_IANA_HWTYPE_ETHERNET \<or> hdr ! 4 \<noteq> of_nat ETH_HWADDR_LEN \<or> hdr ! 5 \<noteq> 4 \<or>
           at16 hdr 2 \<noteq> lwip_htons ETHTYPE_IP
         then Some (pbuf_release p s)
         else (let shwaddr = take 6 (drop 8 hdr);
                   sipaddr = at32 hdr 14;
                   dipaddr = at32 hdr 24;
                   for_us = \<not> ip4_addr_isany_val (nif_ip n) \<and> dipaddr = nif_ip n;
                   (_, s) = etharp_update_arp_entry E n sipaddr shwaddr
                     (if for_us then ETHARP_FLAG_TRY_HARD else ETHARP_FLAG_FIND_ONLY) s;
                   s = (if at16 hdr 6 = lwip_htons ARP_REQUEST \<and> for_us then etharp_reply E n shwaddr sipaddr s else s)
               in Some (pbuf_release p s)))"

section \<open>Sending IP packets\<close>

definition etharp_output_to_arp_index :: "tx_env \<Rightarrow> netif \<Rightarrow> pbuf \<Rightarrow> nat \<Rightarrow> tx_state \<Rightarrow> lwip_err \<times> tx_state" where
  "etharp_output_to_arp_index E n q i s =
     (let e = arp_at s i;
          s = (if ae_state e = ETHARP_STATE_STABLE then
                 (let (r, s) = (if ARP_AGE_REREQUEST_USED_BROADCAST \<le> ae_ctime e then etharp_request E n (ae_ipaddr e) s
                        else if ARP_AGE_REREQUEST_USED_UNICAST \<le> ae_ctime e
                        then etharp_request_dst E n (ae_ipaddr e) (ae_ethaddr e) s
                        else (LwMem, s))
                  in if r = LwOk then arp_set i (e\<lparr>ae_state := ETHARP_STATE_STABLE_REREQUESTING_1\<rparr>) s else s)
               else s)
      in link_output E q (nif_hwaddr n) (ae_ethaddr e) ETHTYPE_IP s)"

text \<open>Without a packet a request is sent; with one it is sent, or waits for the answer. The
  packet that waited before is dropped. A chain with referenced memory is copied.\<close>

definition queue_packet :: "nat \<Rightarrow> pbuf \<Rightarrow> tx_state \<Rightarrow> tx_state" where
  "queue_packet i p s =
     (let s = (case ae_q (arp_at s i) of Some old \<Rightarrow> pbuf_release old s | None \<Rightarrow> s)
      in arp_set i ((arp_at s i)\<lparr>ae_q := Some p\<rparr>) s)"

definition PBUF_NEEDS_COPY :: "seg \<Rightarrow> bool" where "PBUF_NEEDS_COPY q \<longleftrightarrow> seg_type q = PBUF_REF"

definition etharp_query :: "tx_env \<Rightarrow> netif \<Rightarrow> u32 \<Rightarrow> pbuf option \<Rightarrow> tx_state \<Rightarrow> lwip_err \<times> tx_state" where
  "etharp_query E n ipaddr q s =
     (if ip4_addr_isbroadcast_u32 ipaddr n \<or> ip4_addr_ismulticast ipaddr \<or> ip4_addr_isany_val ipaddr then (LwArg, s)
      else case etharp_find_entry (Some ipaddr) ETHARP_FLAG_TRY_HARD (Some (nif_num n)) s of
        (None, s) \<Rightarrow> (LwMem, s)
      | (Some i, s) \<Rightarrow>
          (let is_new_entry = ae_state (arp_at s i) = ETHARP_STATE_EMPTY;
               s = (if is_new_entry
                    then arp_set i ((arp_at s i)\<lparr>ae_state := ETHARP_STATE_PENDING, ae_netif := Some (nif_num n)\<rparr>) s else s);
               (result, s) = (if is_new_entry \<or> q = None then etharp_request E n ipaddr s else (LwMem, s))
           in case q of
                None \<Rightarrow> (result, s)
              | Some q \<Rightarrow>
                  if is_stable (ae_state (arp_at s i)) then
                    link_output E q (nif_hwaddr n) (ae_ethaddr (arp_at s i)) ETHTYPE_IP (s\<lparr>etharp_cached_entry := i\<rparr>)
                  else if ae_state (arp_at s i) = ETHARP_STATE_PENDING then
                    (let (p, s) = (if \<exists>b \<in> set (p_segs q). PBUF_NEEDS_COPY b then pbuf_clone_ram E PBUF_LINK q s
                            else (Some q, s))
                     in case p of
                          Some p \<Rightarrow> (LwOk, queue_packet i p s)
                        | None \<Rightarrow> (LwMem, s))
                  else (result, s)))"

definition ip4_addr_islinklocal :: "u32 \<Rightarrow> bool" where
  "ip4_addr_islinklocal a \<longleftrightarrow> a AND lwip_htonl 0xffff0000 = lwip_htonl 0xa9fe0000"

definition mcast_mac :: "u32 \<Rightarrow> u8 list" where
  "mcast_mac ipaddr =
     (let b = store32 ipaddr
      in [LL_IP4_MULTICAST_ADDR_0, LL_IP4_MULTICAST_ADDR_1, LL_IP4_MULTICAST_ADDR_2, b ! 1 AND 0x7f, b ! 2, b ! 3])"

definition stable_for :: "netif \<Rightarrow> u32 \<Rightarrow> etharp_entry \<Rightarrow> bool" where
  "stable_for n dst e \<longleftrightarrow> is_stable (ae_state e) \<and> ae_netif e = Some (nif_num n) \<and> dst = ae_ipaddr e"

text \<open>The next hop: the destination on the local network, or else the gateway; \<open>None\<close> is ERR_RTE.\<close>

definition arp_next_hop :: "netif \<Rightarrow> u32 \<Rightarrow> u32 option" where
  "arp_next_hop n ipaddr =
     (if \<not> ip4_addr_netcmp ipaddr (nif_ip n) (nif_netmask n) \<and> \<not> ip4_addr_islinklocal ipaddr then
        (if \<not> ip4_addr_isany_val (nif_gw n) then Some (nif_gw n) else None)
      else Some ipaddr)"

definition etharp_output :: "tx_env \<Rightarrow> netif \<Rightarrow> pbuf \<Rightarrow> u32 \<Rightarrow> tx_state \<Rightarrow> lwip_err \<times> tx_state" where
  "etharp_output E n q ipaddr s =
     (if ip4_addr_isbroadcast_u32 ipaddr n then link_output E q (nif_hwaddr n) ethbroadcast ETHTYPE_IP s
      else if ip4_addr_ismulticast ipaddr then link_output E q (nif_hwaddr n) (mcast_mac ipaddr) ETHTYPE_IP s
      else case arp_next_hop n ipaddr of
        None \<Rightarrow> (LwRte, s)
      | Some dst_addr \<Rightarrow>
          if stable_for n dst_addr (arp_at s (etharp_cached_entry s))
          then etharp_output_to_arp_index E n q (etharp_cached_entry s) s
          else case find (\<lambda>i. stable_for n dst_addr (arp_at s i)) [0..<ARP_TABLE_SIZE] of
            Some i \<Rightarrow> etharp_output_to_arp_index E n q i (s\<lparr>etharp_cached_entry := i\<rparr>)
          | None \<Rightarrow> etharp_query E n dst_addr (Some q) s)"

end
