(* ===== verification/LwipArp_Facts.thy ===== *)
theory LwipArp_Facts
  imports LwipArp
begin

text \<open>
  The address table: which entry \<open>etharp_find_entry\<close> returns, and the invariant of the table.
\<close>

section \<open>What sending leaves alone\<close>

lemma alloc_frame [frame_simps]:
  assumes "pbuf_alloc_ram E layer n s = (r, s')"
  shows "arp_table s' = arp_table s" "etharp_cached_entry s' = etharp_cached_entry s" "tx_pool s' = tx_pool s"
    "ip_id s' = ip_id s"
  using assms by (auto simp: pbuf_alloc_ram_def Let_def split: if_splits option.splits prod.splits)

lemma release_frame [simp]:
  "arp_table (pbuf_release p s) = arp_table s" "etharp_cached_entry (pbuf_release p s) = etharp_cached_entry s"
  "ip_id (pbuf_release p s) = ip_id s" "tx_trace (pbuf_release p s) = tx_trace s"
  by (simp_all add: pbuf_release_def)

lemma clone_frame:
  assumes "pbuf_clone_ram E layer p s = (r, s')"
  shows "arp_table s' = arp_table s" "etharp_cached_entry s' = etharp_cached_entry s" "tx_pool s' = tx_pool s"
proof -
  obtain q s1 where a: "pbuf_alloc_ram E layer (p_tot_len p) s = (q, s1)" by fastforce
  with assms have "s' = s1" by (auto simp: pbuf_clone_ram_def Let_def split: option.splits)
  with alloc_frame [OF a] show "arp_table s' = arp_table s" "etharp_cached_entry s' = etharp_cached_entry s"
    "tx_pool s' = tx_pool s" by simp_all
qed

lemma link_frame [simp]:
  "arp_table (snd (link_output E p src dst t s)) = arp_table s"
  "etharp_cached_entry (snd (link_output E p src dst t s)) = etharp_cached_entry s"
  "tx_pool (snd (link_output E p src dst t s)) = tx_pool s"
  "ip_id (snd (link_output E p src dst t s)) = ip_id s"
  by (simp_all add: link_output_def split: option.split prod.split)

lemma raw_frame [simp]:
  "arp_table (snd (etharp_raw E es ed hs is hda ida opc s)) = arp_table s"
  "etharp_cached_entry (snd (etharp_raw E es ed hs is hda ida opc s)) = etharp_cached_entry s"
  "ip_id (snd (etharp_raw E es ed hs is hda ida opc s)) = ip_id s"
proof -
  obtain r s1 where a: "pbuf_alloc_ram E PBUF_LINK SIZEOF_ETHARP_HDR s = (r, s1)" by fastforce
  note f = alloc_frame [OF a]
  show "arp_table (snd (etharp_raw E es ed hs is hda ida opc s)) = arp_table s"
    "etharp_cached_entry (snd (etharp_raw E es ed hs is hda ida opc s)) = etharp_cached_entry s"
    "ip_id (snd (etharp_raw E es ed hs is hda ida opc s)) = ip_id s"
    by (simp_all add: etharp_raw_def a f split_beta Let_def split: option.split)
qed

lemma request_keeps [simp]:
  "arp_table (snd (etharp_request_dst E n a h s)) = arp_table s"
  "etharp_cached_entry (snd (etharp_request_dst E n a h s)) = etharp_cached_entry s"
  "ip_id (snd (etharp_request_dst E n a h s)) = ip_id s"
  "arp_table (snd (etharp_request E n a s)) = arp_table s"
  "etharp_cached_entry (snd (etharp_request E n a s)) = etharp_cached_entry s"
  "ip_id (snd (etharp_request E n a s)) = ip_id s"
  by (simp_all add: etharp_request_dst_def etharp_request_def)

lemma arp_set_frame [simp]:
  "arp_table (arp_set i e s) = (arp_table s)[i := e]" "etharp_cached_entry (arp_set i e s) = etharp_cached_entry s"
  "tx_trace (arp_set i e s) = tx_trace s" "tx_pool (arp_set i e s) = tx_pool s" "ip_id (arp_set i e s) = ip_id s"
  by (simp_all add: arp_set_def)

lemma free_entry_frame [simp]:
  "arp_table (etharp_free_entry i s) = (arp_table s)[i := arp_empty]"
  "etharp_cached_entry (etharp_free_entry i s) = etharp_cached_entry s"
  "tx_trace (etharp_free_entry i s) = tx_trace s" "ip_id (etharp_free_entry i s) = ip_id s"
  by (simp_all add: etharp_free_entry_def Let_def split: option.split)

lemma arp_empty_fields [simp]:
  "ae_q arp_empty = None" "ae_state arp_empty = ETHARP_STATE_EMPTY" "ae_ctime arp_empty = 0" "ae_netif arp_empty = None"
  by (simp_all add: arp_empty_def)

section \<open>The sweep over the table\<close>

text \<open>The oldest of the entries below \<open>k\<close> that satisfy \<open>P\<close>.\<close>

definition oldest :: "(etharp_entry \<Rightarrow> bool) \<Rightarrow> etharp_entry list \<Rightarrow> nat \<Rightarrow> nat option \<Rightarrow> u16 \<Rightarrow> bool" where
  "oldest P t k found age \<longleftrightarrow>
     (case found of
        None \<Rightarrow> age = 0 \<and> (\<forall>j<k. \<not> P (t ! j))
      | Some i \<Rightarrow> i < k \<and> P (t ! i) \<and> age = ae_ctime (t ! i) \<and> (\<forall>j<k. P (t ! j) \<longrightarrow> ae_ctime (t ! j) \<le> age))"

lemma oldest_0: "oldest P t 0 None 0"
  by (simp add: oldest_def)

lemma oldest_skip: "oldest P t k f a \<Longrightarrow> \<not> P (t ! k) \<Longrightarrow> oldest P t (Suc k) f a"
  by (auto simp: oldest_def less_Suc_eq split: option.splits)

lemma oldest_take: "oldest P t k f a \<Longrightarrow> P (t ! k) \<Longrightarrow> a \<le> ae_ctime (t ! k) \<Longrightarrow> oldest P t (Suc k) (Some k) (ae_ctime (t ! k))"
  by (fastforce simp: oldest_def less_Suc_eq split: option.splits)

lemma oldest_keep: "oldest P t k f a \<Longrightarrow> \<not> a \<le> ae_ctime (t ! k) \<Longrightarrow> oldest P t (Suc k) f a"
  by (auto simp: oldest_def less_Suc_eq split: option.splits)

lemma oldest_Some:
  "oldest P t k (Some i) a \<Longrightarrow> i < k \<and> P (t ! i) \<and> (\<forall>j<k. P (t ! j) \<longrightarrow> ae_ctime (t ! j) \<le> ae_ctime (t ! i))"
  by (auto simp: oldest_def)

lemma oldest_None: "oldest P t k None a \<Longrightarrow> j < k \<Longrightarrow> \<not> P (t ! j)"
  by (simp add: oldest_def)

definition no_queue :: "etharp_entry \<Rightarrow> bool" where
  "no_queue e \<longleftrightarrow> ae_state e = ETHARP_STATE_PENDING \<and> ae_q e = None"

definition queued :: "etharp_entry \<Rightarrow> bool" where
  "queued e \<longleftrightarrow> ae_state e = ETHARP_STATE_PENDING \<and> ae_q e \<noteq> None"

definition stable_entry :: "etharp_entry \<Rightarrow> bool" where "stable_entry e \<longleftrightarrow> is_stable (ae_state e)"

definition first_empty :: "etharp_entry list \<Rightarrow> nat \<Rightarrow> nat option \<Rightarrow> bool" where
  "first_empty t k f \<longleftrightarrow>
     (case f of
        None \<Rightarrow> \<forall>j<k. ae_state (t ! j) \<noteq> ETHARP_STATE_EMPTY
      | Some i \<Rightarrow> i < k \<and> ae_state (t ! i) = ETHARP_STATE_EMPTY \<and> (\<forall>j<i. ae_state (t ! j) \<noteq> ETHARP_STATE_EMPTY))"

definition cand_ok :: "etharp_entry list \<Rightarrow> nat \<Rightarrow> arp_cand \<Rightarrow> bool" where
  "cand_ok t k c \<longleftrightarrow> first_empty t k (c_empty c) \<and> oldest stable_entry t k (old_stable c) (age_stable c) \<and>
     oldest no_queue t k (old_pending c) (age_pending c) \<and> oldest queued t k (old_queue c) (age_queue c)"

lemma cand_0: "cand_ok t 0 arp_cand_0"
  by (simp add: cand_ok_def arp_cand_0_def oldest_0 first_empty_def)

lemma not_stable [simp]: "is_stable st \<longleftrightarrow> st \<noteq> ETHARP_STATE_EMPTY \<and> st \<noteq> ETHARP_STATE_PENDING"
  by (cases st) simp_all

lemma first_empty_skip: "first_empty t k f \<Longrightarrow> ae_state (t ! k) \<noteq> ETHARP_STATE_EMPTY \<or> f \<noteq> None \<Longrightarrow> first_empty t (Suc k) f"
  by (auto simp: first_empty_def less_Suc_eq split: option.splits)

lemma remember_ok:
  assumes "cand_ok t k c" "ae_state (t ! k) \<noteq> ETHARP_STATE_EMPTY"
  shows "cand_ok t (Suc k) (remember k (t ! k) c)"
proof -
  let ?e = "t ! k"
  have h: "first_empty t k (c_empty c)" "oldest stable_entry t k (old_stable c) (age_stable c)"
    "oldest no_queue t k (old_pending c) (age_pending c)" "oldest queued t k (old_queue c) (age_queue c)"
    using assms(1) by (simp_all add: cand_ok_def)
  have e: "first_empty t (Suc k) (c_empty c)" using first_empty_skip [OF h(1)] assms(2) by blast
  consider "queued ?e" "\<not> no_queue ?e" "\<not> stable_entry ?e" | "no_queue ?e" "\<not> queued ?e" "\<not> stable_entry ?e"
    | "stable_entry ?e" "\<not> queued ?e" "\<not> no_queue ?e"
    using assms(2) unfolding queued_def no_queue_def stable_entry_def not_stable
    by (metis etharp_state.distinct(1))
  then show ?thesis
  proof cases
    case 1
    then have r: "remember k ?e c = (if age_queue c \<le> ae_ctime ?e then c\<lparr>old_queue := Some k, age_queue := ae_ctime ?e\<rparr> else c)"
      by (simp add: remember_def queued_def)
    show ?thesis unfolding r
      using e oldest_skip [OF h(2) 1(3)] oldest_skip [OF h(3) 1(2)] oldest_take [OF h(4) 1(1)] oldest_keep [OF h(4)]
      by (simp add: cand_ok_def)
  next
    case 2
    then have r: "remember k ?e c = (if age_pending c \<le> ae_ctime ?e then c\<lparr>old_pending := Some k, age_pending := ae_ctime ?e\<rparr> else c)"
      by (simp add: remember_def no_queue_def)
    show ?thesis unfolding r
      using e oldest_skip [OF h(2) 2(3)] oldest_skip [OF h(4) 2(2)] oldest_take [OF h(3) 2(1)] oldest_keep [OF h(3)]
      by (simp add: cand_ok_def)
  next
    case 3
    then have r: "remember k ?e c = (if age_stable c \<le> ae_ctime ?e then c\<lparr>old_stable := Some k, age_stable := ae_ctime ?e\<rparr> else c)"
      by (simp add: remember_def stable_entry_def)
    show ?thesis unfolding r
      using e oldest_skip [OF h(3) 3(3)] oldest_skip [OF h(4) 3(2)] oldest_take [OF h(2) 3(1)] oldest_keep [OF h(2)]
      by (simp add: cand_ok_def)
  qed
qed

definition hit :: "u32 option \<Rightarrow> u8 option \<Rightarrow> etharp_entry \<Rightarrow> bool" where
  "hit ip nif e \<longleftrightarrow> ae_state e \<noteq> ETHARP_STATE_EMPTY \<and> arp_match ip nif e"

lemma find_scan_ok:
  assumes "es = drop k t" "k \<le> length t" "cand_ok t k c" "\<forall>j<k. \<not> hit ip nif (t ! j)"
  shows "case find_scan ip nif es k c of
      Inl i \<Rightarrow> i < length t \<and> hit ip nif (t ! i)
    | Inr c \<Rightarrow> cand_ok t (length t) c \<and> (\<forall>j<length t. \<not> hit ip nif (t ! j))"
  using assms
proof (induction es arbitrary: k c)
  case Nil
  then show ?case by simp
next
  case (Cons e es)
  then have k: "k < length t" "e = t ! k" "es = drop (Suc k) t"
    by (metis drop_all linorder_not_le list.distinct(1), metis Cons.prems(1) drop_all linorder_not_le list.distinct(1) nth_via_drop,
        metis Cons.prems(1) drop_Suc list.sel(3) tl_drop)
  have step: "case find_scan ip nif es (Suc k) c' of
      Inl i \<Rightarrow> i < length t \<and> hit ip nif (t ! i)
    | Inr c \<Rightarrow> cand_ok t (length t) c \<and> (\<forall>j<length t. \<not> hit ip nif (t ! j))"
    if "cand_ok t (Suc k) c'" "\<not> hit ip nif e" for c'
    using Cons.IH [OF k(3) _ that(1)] k Cons.prems(4) that(2) by (auto simp: less_Suc_eq)
  have skips: "oldest stable_entry t (Suc k) (old_stable c) (age_stable c)"
    "oldest no_queue t (Suc k) (old_pending c) (age_pending c)" "oldest queued t (Suc k) (old_queue c) (age_queue c)"
    if "ae_state e = ETHARP_STATE_EMPTY"
    using Cons.prems(3) that k(2)
    by (auto simp: cand_ok_def stable_entry_def no_queue_def queued_def intro!: oldest_skip)
  consider "ae_state e = ETHARP_STATE_EMPTY" "c_empty c = None" | "ae_state e = ETHARP_STATE_EMPTY" "c_empty c \<noteq> None"
    | "ae_state e \<noteq> ETHARP_STATE_EMPTY" "arp_match ip nif e" | "ae_state e \<noteq> ETHARP_STATE_EMPTY" "\<not> arp_match ip nif e"
    by blast
  then show ?case
  proof cases
    case 1
    have "first_empty t (Suc k) (Some k)"
      using Cons.prems(3) 1 k(2) by (simp add: cand_ok_def first_empty_def)
    then have "cand_ok t (Suc k) (c\<lparr>c_empty := Some k\<rparr>)" using skips [OF 1(1)] by (simp add: cand_ok_def)
    from step [OF this] 1 show ?thesis by (simp add: hit_def)
  next
    case 2
    have "first_empty t (Suc k) (c_empty c)" using Cons.prems(3) 2 by (simp add: cand_ok_def first_empty_skip)
    then have "cand_ok t (Suc k) c" using skips [OF 2(1)] by (simp add: cand_ok_def)
    from step [OF this] 2 show ?thesis by (auto simp: hit_def)
  next
    case 3
    then show ?thesis using k by (simp add: hit_def)
  next
    case 4
    have "cand_ok t (Suc k) (remember k e c)" using remember_ok [OF Cons.prems(3)] 4(1) k(2) by simp
    from step [OF this] 4 show ?thesis by (simp add: hit_def)
  qed
qed


lemma find_scan_table:
  "case find_scan ip nif t 0 arp_cand_0 of
      Inl i \<Rightarrow> i < length t \<and> hit ip nif (t ! i)
    | Inr c \<Rightarrow> cand_ok t (length t) c \<and> (\<forall>j<length t. \<not> hit ip nif (t ! j))"
  by (rule find_scan_ok) (simp_all add: cand_0)

section \<open>Which entry is found\<close>

text \<open>The entry that is given up for a new one in a full table.\<close>

definition victim :: "etharp_entry list \<Rightarrow> nat \<Rightarrow> bool" where
  "victim t i \<longleftrightarrow> i < length t \<and> (\<forall>e \<in> set t. ae_state e \<noteq> ETHARP_STATE_EMPTY) \<and>
     (if \<exists>e \<in> set t. stable_entry e then stable_entry (t ! i) \<and> (\<forall>e \<in> set t. stable_entry e \<longrightarrow> ae_ctime e \<le> ae_ctime (t ! i))
      else if \<exists>e \<in> set t. no_queue e then no_queue (t ! i) \<and> (\<forall>e \<in> set t. no_queue e \<longrightarrow> ae_ctime e \<le> ae_ctime (t ! i))
      else \<forall>e \<in> set t. ae_ctime e \<le> ae_ctime (t ! i))"

lemma to_recycle_ok:
  assumes "cand_ok t (length t) c" "c_empty c = None"
  shows "case to_recycle c of Some i \<Rightarrow> victim t i | None \<Rightarrow> t = []"
proof -
  have h: "oldest stable_entry t (length t) (old_stable c) (age_stable c)"
    "oldest no_queue t (length t) (old_pending c) (age_pending c)" "oldest queued t (length t) (old_queue c) (age_queue c)"
    and ne: "\<forall>e \<in> set t. ae_state e \<noteq> ETHARP_STATE_EMPTY"
    using assms by (auto simp: cand_ok_def first_empty_def in_set_conv_nth)
  have one: "i < length t \<and> (\<exists>e \<in> set t. P e) \<and> P (t ! i) \<and> (\<forall>e \<in> set t. P e \<longrightarrow> ae_ctime e \<le> ae_ctime (t ! i))"
    if "oldest P t (length t) (Some i) a" for P i a
    using oldest_Some [OF that] by (metis in_set_conv_nth)
  have none: "\<not> (\<exists>e \<in> set t. P e)" if "oldest P t (length t) None a" for P a
    using oldest_None [OF that] by (auto simp: in_set_conv_nth)
  show ?thesis
  proof (cases "old_stable c")
    case (Some i)
    with one [OF h(1) [unfolded Some]] ne show ?thesis by (simp add: to_recycle_def victim_def)
  next
    case s: None
    have ns: "\<not> (\<exists>e \<in> set t. stable_entry e)" using none [of stable_entry] h(1) s by simp
    show ?thesis
    proof (cases "old_pending c")
      case (Some i)
      with one [OF h(2) [unfolded Some]] ne s ns show ?thesis by (simp add: to_recycle_def victim_def)
    next
      case p: None
      have np: "\<not> (\<exists>e \<in> set t. no_queue e)" using none [of no_queue] h(2) p by simp
      have all: "queued e" if "e \<in> set t" for e
        using ns np ne that by (auto simp: queued_def no_queue_def stable_entry_def)
      show ?thesis
      proof (cases "old_queue c")
        case (Some i)
        with one [OF h(3) [unfolded Some]] ne ns np all s p show ?thesis by (simp add: to_recycle_def victim_def)
      next
        case None
        then have "\<not> (\<exists>e \<in> set t. queued e)" using none [of queued] h(3) by simp
        with all s p None show ?thesis by (cases t) (auto simp: to_recycle_def)
      qed
    qed
  qed
qed

lemma find_entry_cases:
  assumes "etharp_find_entry (Some ip) flags (Some nif) s = (r, s')"
  obtains (found) i where "r = Some i" "s' = s" "i < length (arp_table s)" "hit (Some ip) (Some nif) (arp_table s ! i)"
  | (fails) "r = None" "s' = s" "\<forall>e \<in> set (arp_table s). \<not> hit (Some ip) (Some nif) e"
      "flags AND ETHARP_FLAG_FIND_ONLY \<noteq> 0 \<or> arp_table s = [] \<or>
        (\<forall>e \<in> set (arp_table s). ae_state e \<noteq> ETHARP_STATE_EMPTY) \<and> flags AND ETHARP_FLAG_TRY_HARD = 0"
  | (fresh) i where "r = Some i" "s' = claim_entry (Some ip) (Some nif) i s" "i < length (arp_table s)"
      "ae_state (arp_table s ! i) = ETHARP_STATE_EMPTY" "\<forall>e \<in> set (arp_table s). \<not> hit (Some ip) (Some nif) e"
      "flags AND ETHARP_FLAG_FIND_ONLY = 0"
  | (recycled) i where "r = Some i" "s' = claim_entry (Some ip) (Some nif) i (etharp_free_entry i s)" "victim (arp_table s) i"
      "\<forall>e \<in> set (arp_table s). \<not> hit (Some ip) (Some nif) e"
      "flags AND ETHARP_FLAG_FIND_ONLY = 0" "flags AND ETHARP_FLAG_TRY_HARD \<noteq> 0"
proof -
  let ?t = "arp_table s"
  note sc = find_scan_table [where t = ?t and ip = "Some ip" and nif = "Some nif"]
  show thesis
  proof (cases "find_scan (Some ip) (Some nif) ?t 0 arp_cand_0")
    case (Inl i)
    with assms have e: "r = Some i" "s' = s" by (simp_all add: etharp_find_entry_def)
    from found [OF e] Inl sc show thesis by simp
  next
    case (Inr c)
    with sc have c: "cand_ok ?t (length ?t) c" and nh: "\<forall>e \<in> set ?t. \<not> hit (Some ip) (Some nif) e"
      by (auto simp: in_set_conv_nth)
    have fe: "first_empty ?t (length ?t) (c_empty c)" using c by (simp add: cand_ok_def)
    show thesis
    proof (cases "flags AND ETHARP_FLAG_FIND_ONLY \<noteq> 0 \<or> c_empty c = None \<and> flags AND ETHARP_FLAG_TRY_HARD = 0")
      case True
      then have e: "r = None" "s' = s" using assms Inr by (simp_all add: etharp_find_entry_def)
      have "c_empty c = None \<Longrightarrow> \<forall>e \<in> set ?t. ae_state e \<noteq> ETHARP_STATE_EMPTY"
        using fe by (auto simp: first_empty_def in_set_conv_nth)
      with True fails [OF e nh] show thesis by blast
    next
      case False
      show thesis
      proof (cases "c_empty c")
        case (Some i)
        then have e: "r = Some i" "s' = claim_entry (Some ip) (Some nif) i s"
          using assms Inr False by (simp_all add: etharp_find_entry_def)
        have "i < length ?t" "ae_state (?t ! i) = ETHARP_STATE_EMPTY" using fe Some by (simp_all add: first_empty_def)
        from fresh [OF e this nh] False show thesis by blast
      next
        case None
        note v = to_recycle_ok [OF c None]
        show thesis
        proof (cases "to_recycle c")
          case tr: None
          then have e: "r = None" "s' = s" using assms Inr False None by (auto simp: etharp_find_entry_def)
          from fails [OF e nh] v tr show thesis by simp
        next
          case tr: (Some i)
          then have e: "r = Some i" "s' = claim_entry (Some ip) (Some nif) i (etharp_free_entry i s)"
            using assms Inr False None by (auto simp: etharp_find_entry_def)
          from recycled [OF e _ nh] v tr False None show thesis by auto
        qed
      qed
    qed
  qed
qed

section \<open>The invariant of the table\<close>

text \<open>What the table has to know of an interface: its number and which addresses are broadcasts there.\<close>

type_synonym link = "u8 \<times> (u32 \<Rightarrow> bool)"

definition link_of :: "netif \<Rightarrow> link" where
  "link_of n = (nif_num n, \<lambda>ip. ip4_addr_isbroadcast_u32 ip n)"

text \<open>An empty entry is cleared; a packet waits only where an answer is awaited; an entry in use belongs to
  one of the interfaces \<open>N\<close>, is for a single host (neither 0.0.0.0 nor a multicast address nor a broadcast of
  that interface) and not older than the timer allows.\<close>

definition entry_ok :: "link set \<Rightarrow> etharp_entry \<Rightarrow> bool" where
  "entry_ok N e \<longleftrightarrow>
     (if ae_state e = ETHARP_STATE_EMPTY then e = arp_empty
      else (ae_q e \<noteq> None \<longrightarrow> ae_state e = ETHARP_STATE_PENDING) \<and> (\<exists>(i, bcast) \<in> N. ae_netif e = Some i \<and> \<not> bcast (ae_ipaddr e)) \<and>
        \<not> ip4_addr_isany_val (ae_ipaddr e) \<and> \<not> ip4_addr_ismulticast (ae_ipaddr e) \<and>
        ae_ctime e < (if ae_state e = ETHARP_STATE_PENDING then ARP_MAXPENDING else ARP_MAXAGE))"

definition arp_key :: "etharp_entry \<Rightarrow> u32 \<times> u8 option" where "arp_key e = (ae_ipaddr e, ae_netif e)"

definition in_use :: "etharp_entry \<Rightarrow> bool" where "in_use e \<longleftrightarrow> ae_state e \<noteq> ETHARP_STATE_EMPTY"

text \<open>No two entries in use are for the same address on the same interface.\<close>

definition arp_wf :: "link set \<Rightarrow> etharp_entry list \<Rightarrow> bool" where
  "arp_wf N t \<longleftrightarrow> length t = ARP_TABLE_SIZE \<and> (\<forall>e \<in> set t. entry_ok N e) \<and>
     (\<forall>i<length t. \<forall>j<length t. i \<noteq> j \<and> in_use (t ! i) \<and> in_use (t ! j) \<longrightarrow> arp_key (t ! i) \<noteq> arp_key (t ! j))"

lemma arp_wf_length: "arp_wf N t \<Longrightarrow> length t = 10"
  by (simp add: arp_wf_def ARP_TABLE_SIZE_def)

lemma arp_wf_entry: "arp_wf N t \<Longrightarrow> i < 10 \<Longrightarrow> entry_ok N (t ! i)"
  by (simp add: arp_wf_def ARP_TABLE_SIZE_def)

lemma entry_ok_empty [simp]: "entry_ok N arp_empty"
  by (simp add: entry_ok_def)

lemma in_use_empty [simp]: "\<not> in_use arp_empty"
  by (simp add: in_use_def)

lemma wf_update:
  assumes "arp_wf N t" "entry_ok N e" "\<And>j. j < 10 \<Longrightarrow> j \<noteq> i \<Longrightarrow> in_use (t ! j) \<Longrightarrow> in_use e \<Longrightarrow> arp_key (t ! j) \<noteq> arp_key e"
  shows "arp_wf N (t[i := e])"
proof -
  have l: "length t = 10" using assms(1) by (rule arp_wf_length)
  have "entry_ok N x" if "x \<in> set (t[i := e])" for x
    using set_update_subset_insert [of t i e] that assms(1,2) by (auto simp: arp_wf_def)
  moreover have "arp_key (t[i := e] ! a) \<noteq> arp_key (t[i := e] ! b)"
    if "a < 10" "b < 10" "a \<noteq> b" "in_use (t[i := e] ! a)" "in_use (t[i := e] ! b)" for a b
  proof -
    have u: "arp_key (t ! a) \<noteq> arp_key (t ! b)" if "in_use (t ! a)" "in_use (t ! b)"
      using assms(1) that \<open>a < 10\<close> \<open>b < 10\<close> \<open>a \<noteq> b\<close> l by (simp add: arp_wf_def)
    show ?thesis
    proof (cases "i < 10")
      case True
      then show ?thesis using that assms(3) [of a] assms(3) [of b] u l by (auto simp: nth_list_update split: if_splits)
    next
      case False
      then show ?thesis using that u l by (simp add: list_update_beyond)
    qed
  qed
  ultimately show ?thesis using l by (simp add: arp_wf_def ARP_TABLE_SIZE_def)
qed

lemma wf_free: "arp_wf N t \<Longrightarrow> arp_wf N (t[i := arp_empty])"
  by (rule wf_update) simp_all

lemma wf_key:
  assumes "arp_wf N t" "i < 10" "in_use (t ! i)" "entry_ok N e" "arp_key e = arp_key (t ! i)"
  shows "arp_wf N (t[i := e])"
proof (rule wf_update [OF assms(1,4)])
  fix j assume "j < 10" "j \<noteq> i" "in_use (t ! j)"
  then show "arp_key (t ! j) \<noteq> arp_key e" using assms arp_wf_length [OF assms(1)] by (simp add: arp_wf_def)
qed

lemma wf_new:
  assumes "arp_wf N t" "entry_ok N e" "\<forall>x \<in> set t. \<not> hit (Some ip) (Some nif) x" "arp_key e = (ip, Some nif)"
  shows "arp_wf N (t[i := e])"
proof (rule wf_update [OF assms(1,2)])
  fix j assume j: "j < 10" "in_use (t ! j)"
  then have "t ! j \<in> set t" using arp_wf_length [OF assms(1)] by simp
  with assms(3,4) j(2) show "arp_key (t ! j) \<noteq> arp_key e" by (auto simp: hit_def arp_match_def arp_key_def in_use_def)
qed

text \<open>What an entry is when it has been found or made.\<close>

definition claimed :: "u32 \<Rightarrow> u8 \<Rightarrow> etharp_entry" where
  "claimed ip nif = arp_empty\<lparr>ae_ipaddr := ip, ae_netif := Some nif\<rparr>"

lemma claimed_eq:
  "ae_state e = ETHARP_STATE_EMPTY \<Longrightarrow> entry_ok N e \<Longrightarrow> e\<lparr>ae_ipaddr := ip, ae_ctime := 0, ae_netif := Some nif\<rparr> = claimed ip nif"
  by (simp add: entry_ok_def claimed_def)

lemma find_entry_ok:
  assumes "arp_wf N (arp_table s)" "etharp_find_entry (Some ip) flags (Some nif) s = (Some i, s')"
  shows "i < 10" "length (arp_table s') = 10" "etharp_cached_entry s' = etharp_cached_entry s" "tx_trace s' = tx_trace s"
    "ip_id s' = ip_id s"
    "\<And>e. entry_ok N e \<Longrightarrow> arp_key e = (ip, Some nif) \<Longrightarrow> arp_wf N ((arp_table s')[i := e])"
    "in_use (arp_table s' ! i) \<Longrightarrow> s' = s \<and> entry_ok N (arp_table s ! i) \<and> arp_key (arp_table s ! i) = (ip, Some nif)"
    "\<not> in_use (arp_table s' ! i) \<Longrightarrow> arp_table s' ! i = claimed ip nif \<and>
       (\<forall>e \<in> set (arp_table s). \<not> hit (Some ip) (Some nif) e)"
proof -
  note l = arp_wf_length [OF assms(1)]
  have "i < 10 \<and> length (arp_table s') = 10 \<and> etharp_cached_entry s' = etharp_cached_entry s \<and> tx_trace s' = tx_trace s \<and>
    ip_id s' = ip_id s \<and>
    (\<forall>e. entry_ok N e \<and> arp_key e = (ip, Some nif) \<longrightarrow> arp_wf N ((arp_table s')[i := e])) \<and>
    (in_use (arp_table s' ! i) \<longrightarrow> s' = s \<and> entry_ok N (arp_table s ! i) \<and> arp_key (arp_table s ! i) = (ip, Some nif)) \<and>
    (\<not> in_use (arp_table s' ! i) \<longrightarrow> arp_table s' ! i = claimed ip nif \<and> (\<forall>e \<in> set (arp_table s). \<not> hit (Some ip) (Some nif) e))"
    using assms(2)
  proof (cases rule: find_entry_cases)
    case (found k)
    then have k: "k = i" "i < 10" "in_use (arp_table s ! i)" "arp_key (arp_table s ! i) = (ip, Some nif)"
      using l by (auto simp: hit_def arp_match_def arp_key_def in_use_def)
    with found(2) l show ?thesis using wf_key [OF assms(1) k(2,3)] arp_wf_entry [OF assms(1)] by auto
  next
    case fails
    then show ?thesis by simp
  next
    case (fresh k)
    then have k: "k = i" "i < 10" using l by simp_all
    have ok: "entry_ok N (arp_table s ! i)" by (rule arp_wf_entry [OF assms(1) k(2)])
    have t: "arp_table s' = (arp_table s)[i := claimed ip nif]"
      using fresh(2,4) k claimed_eq [OF _ ok] by (simp add: claim_entry_def arp_at_def)
    have w: "arp_wf N ((arp_table s)[i := e])" if "entry_ok N e" "arp_key e = (ip, Some nif)" for e
      by (rule wf_new [OF assms(1) that(1) fresh(5) that(2)])
    show ?thesis using t w l k fresh(2,5) by (simp add: claim_entry_def in_use_def claimed_def)
  next
    case (recycled k)
    then have k: "k = i" "i < 10" using l by (simp_all add: victim_def)
    have t: "arp_table s' = (arp_table s)[i := claimed ip nif]"
      using recycled(2) k l claimed_eq [of arp_empty] by (simp add: claim_entry_def arp_at_def)
    have w: "arp_wf N ((arp_table s)[i := e])" if "entry_ok N e" "arp_key e = (ip, Some nif)" for e
      by (rule wf_new [OF assms(1) that(1) recycled(4) that(2)])
    show ?thesis using t w l k recycled(2,4) by (simp add: claim_entry_def in_use_def claimed_def)
  qed
  then show "i < 10" "length (arp_table s') = 10" "etharp_cached_entry s' = etharp_cached_entry s" "tx_trace s' = tx_trace s"
    "ip_id s' = ip_id s"
    "\<And>e. entry_ok N e \<Longrightarrow> arp_key e = (ip, Some nif) \<Longrightarrow> arp_wf N ((arp_table s')[i := e])"
    "in_use (arp_table s' ! i) \<Longrightarrow> s' = s \<and> entry_ok N (arp_table s ! i) \<and> arp_key (arp_table s ! i) = (ip, Some nif)"
    "\<not> in_use (arp_table s' ! i) \<Longrightarrow> arp_table s' ! i = claimed ip nif \<and>
       (\<forall>e \<in> set (arp_table s). \<not> hit (Some ip) (Some nif) e)"
    by blast+
qed

lemma find_entry_None:
  "etharp_find_entry (Some ip) flags (Some nif) s = (None, s') \<Longrightarrow> s' = s"
  by (erule find_entry_cases) simp_all

section \<open>The operations keep the invariant\<close>

definition arp_ok :: "link set \<Rightarrow> tx_state \<Rightarrow> bool" where
  "arp_ok N s \<longleftrightarrow> arp_wf N (arp_table s) \<and> etharp_cached_entry s < ARP_TABLE_SIZE"

lemma arp_ok_cong: "arp_table s' = arp_table s \<Longrightarrow> etharp_cached_entry s' = etharp_cached_entry s \<Longrightarrow> arp_ok N s' = arp_ok N s"
  by (simp add: arp_ok_def)

lemma arp_ok_frame [simp]:
  "arp_ok N (pbuf_release p s) = arp_ok N s" "arp_ok N (snd (link_output E p src dst t s)) = arp_ok N s"
  "arp_ok N (snd (etharp_raw E es ed hs is hda ida opc s)) = arp_ok N s"
  "arp_ok N (snd (etharp_request_dst E n a h s)) = arp_ok N s" "arp_ok N (snd (etharp_request E n a s)) = arp_ok N s"
  "arp_ok N (s\<lparr>tx_pool := pool\<rparr>) = arp_ok N s" "arp_ok N (s\<lparr>ip_id := k\<rparr>) = arp_ok N s"
  by (rule arp_ok_cong; simp)+

lemma arp_ok_0: "arp_ok N (tx_state_0 pool)"
  by (simp add: arp_ok_def tx_state_0_def arp_wf_def ARP_TABLE_SIZE_def)

lemma arp_ok_free: "arp_ok N s \<Longrightarrow> arp_ok N (etharp_free_entry i s)"
  by (simp add: arp_ok_def wf_free)

lemma arp_ok_at: "arp_ok N s \<Longrightarrow> i < 10 \<Longrightarrow> entry_ok N (arp_at s i)"
  by (simp add: arp_ok_def arp_at_def arp_wf_entry)

lemma arp_ok_set:
  "arp_ok N s \<Longrightarrow> i < 10 \<Longrightarrow> in_use (arp_at s i) \<Longrightarrow> entry_ok N e \<Longrightarrow> arp_key e = arp_key (arp_at s i) \<Longrightarrow> arp_ok N (arp_set i e s)"
  by (simp add: arp_ok_def arp_at_def wf_key)

lemma find_entry_arp_ok:
  assumes "arp_ok N s" "etharp_find_entry (Some ip) flags (Some nif) s = (Some i, s')"
  shows "i < 10" "arp_at (arp_set i e s') i = e" "etharp_cached_entry s' < ARP_TABLE_SIZE"
    "entry_ok N e \<Longrightarrow> arp_key e = (ip, Some nif) \<Longrightarrow> arp_ok N (arp_set i e s')"
    "in_use (arp_at s' i) \<Longrightarrow> s' = s \<and> entry_ok N (arp_at s i) \<and> arp_key (arp_at s i) = (ip, Some nif)"
    "\<not> in_use (arp_at s' i) \<Longrightarrow> arp_at s' i = claimed ip nif"
  using assms find_entry_ok [of N s ip flags nif i s'] by (simp_all add: arp_ok_def arp_at_def)

lemma claimed_fields [simp]:
  "ae_state (claimed ip nif) = ETHARP_STATE_EMPTY" "ae_q (claimed ip nif) = None" "ae_ipaddr (claimed ip nif) = ip"
  "ae_netif (claimed ip nif) = Some nif" "ae_ctime (claimed ip nif) = 0"
  by (simp_all add: claimed_def)

lemma found_key:
  assumes "arp_ok N s" "etharp_find_entry (Some ip) flags (Some nif) s = (Some i, s')"
  shows "ae_ipaddr (arp_at s' i) = ip" "ae_netif (arp_at s' i) = Some nif"
  using find_entry_arp_ok(5,6) [OF assms] by (cases "in_use (arp_at s' i)"; auto simp: arp_key_def)+

lemma q_same: "ae_q e = None \<Longrightarrow> e\<lparr>ae_q := None\<rparr> = e"
  by (cases e) simp

lemma link_host:
  "link_of n \<in> N \<Longrightarrow> \<not> ip4_addr_isbroadcast_u32 ip n \<Longrightarrow> \<exists>(i, bcast) \<in> N. nif_num n = i \<and> \<not> bcast ip"
  by (rule bexI [of _ "link_of n"]) (simp_all add: link_of_def)

lemma update_arp_ok:
  assumes "arp_ok N s" "link_of n \<in> N"
  shows "arp_ok N (snd (etharp_update_arp_entry E n ip mac flags s))"
proof (cases "ip4_addr_isany_val ip \<or> ip4_addr_isbroadcast_u32 ip n \<or> ip4_addr_ismulticast ip")
  case True
  then show ?thesis using assms by (simp add: etharp_update_arp_entry_def)
next
  case False
  obtain r s1 where f: "etharp_find_entry (Some ip) flags (Some (nif_num n)) s = (r, s1)" by fastforce
  show ?thesis
  proof (cases r)
    case None
    with f False find_entry_None [of ip flags "nif_num n" s s1] assms show ?thesis
      by (simp add: etharp_update_arp_entry_def)
  next
    case (Some i)
    note g = find_entry_arp_ok [OF assms(1) f [unfolded Some]]
    let ?e = "(arp_at s1 i)\<lparr>ae_state := ETHARP_STATE_STABLE, ae_netif := Some (nif_num n),
                 ae_ethaddr := take ETH_HWADDR_LEN mac, ae_ctime := 0\<rparr>"
    have ok: "entry_ok N (?e\<lparr>ae_q := None\<rparr>)" "arp_key (?e\<lparr>ae_q := None\<rparr>) = (ip, Some (nif_num n))"
      using False link_host [OF assms(2), of ip] found_key [OF assms(1) f [unfolded Some]] by (simp_all add: entry_ok_def arp_key_def ARP_MAXAGE_def)
    have "arp_ok N (arp_set i (?e\<lparr>ae_q := None\<rparr>) s1)" by (rule g(4) [OF ok])
    moreover have "?e\<lparr>ae_q := None\<rparr> = ?e" if "ae_q (arp_at s1 i) = None" by (rule q_same) (use that in simp)
    ultimately show ?thesis using False f Some
      by (cases "ae_q (arp_at s1 i)") (simp_all add: etharp_update_arp_entry_def Let_def split_beta)
  qed
qed

lemma input_arp_ok:
  assumes "arp_ok N s" "link_of n \<in> N" "etharp_input E p n s = Some s'"
  shows "arp_ok N s'"
  using assms(3) update_arp_ok [OF assms(1,2)] assms(1)
  by (auto simp: etharp_input_def etharp_reply_def Let_def split_beta split: if_splits)

lemma st_same: "ae_state e = st \<Longrightarrow> e\<lparr>ae_ctime := c, ae_state := st\<rparr> = e\<lparr>ae_ctime := c\<rparr>"
  by (cases e) simp

lemma tmr_entry_ok:
  assumes "arp_ok N s" "i < 10" "fst ` N \<subseteq> nif_num ` set netifs"
  obtains s' where "etharp_tmr_entry E netifs i s = Some s'" "arp_ok N s'"
    "arp_table s' ! i = arp_empty \<or> in_use (arp_at s i) \<and> ae_ctime (arp_table s' ! i) = ae_ctime (arp_at s i) + 1 \<and>
       (ae_state (arp_table s' ! i) = ETHARP_STATE_PENDING \<longrightarrow> ae_state (arp_at s i) = ETHARP_STATE_PENDING)"
    "\<And>j. j \<noteq> i \<Longrightarrow> arp_table s' ! j = arp_table s ! j"
proof (cases "ae_state (arp_at s i) = ETHARP_STATE_EMPTY")
  case True
  with arp_ok_at [OF assms(1,2)] have "arp_table s ! i = arp_empty" by (simp add: entry_ok_def arp_at_def)
  with that [of s] assms(1) True show thesis by (simp add: etharp_tmr_entry_def)
next
  case False
  let ?e = "(arp_at s i)\<lparr>ae_ctime := ae_ctime (arp_at s i) + 1\<rparr>"
  have ok: "entry_ok N (arp_at s i)" by (rule arp_ok_at [OF assms(1,2)])
  have use: "in_use (arp_at s i)" using False by (simp add: in_use_def)
  have l: "length (arp_table s) = 10" using assms(1) by (auto simp: arp_ok_def dest: arp_wf_length)
  show thesis
  proof (cases "ARP_MAXAGE \<le> ae_ctime ?e \<or> ae_state ?e = ETHARP_STATE_PENDING \<and> ARP_MAXPENDING \<le> ae_ctime ?e")
    case True
    have ok': "arp_ok N (etharp_free_entry i (arp_set i ?e s))" using assms(1) by (simp add: arp_ok_def wf_free)
    show thesis by (rule that [of "etharp_free_entry i (arp_set i ?e s)"])
      (use True False ok' l assms(2) in \<open>simp_all add: etharp_tmr_entry_def Let_def\<close>)
  next
    case young: False
    define st where "st = (if ae_state ?e = ETHARP_STATE_STABLE_REREQUESTING_1 then ETHARP_STATE_STABLE_REREQUESTING_2
      else if ae_state ?e = ETHARP_STATE_STABLE_REREQUESTING_2 then ETHARP_STATE_STABLE else ae_state ?e)"
    have st: "st \<noteq> ETHARP_STATE_EMPTY" "st = ETHARP_STATE_PENDING \<longleftrightarrow> ae_state (arp_at s i) = ETHARP_STATE_PENDING"
      using False by (auto simp: st_def)
    let ?e' = "?e\<lparr>ae_state := st\<rparr>"
    have ok': "entry_ok N ?e'" using ok young st False by (simp add: entry_ok_def split: if_splits)
    then have set: "arp_ok N (arp_set i ?e' s)"
      by (rule arp_ok_set [OF assms(1,2) use]) (simp add: arp_key_def)
    have "ae_netif (arp_at s i) \<in> Some ` fst ` N" using ok False by (force simp: entry_ok_def)
    then obtain n where n: "netif_of (ae_netif (arp_at s i)) netifs = Some n"
      using assms(3) by (fastforce simp: netif_of_def find_None_iff dest: subsetD)
    have "\<exists>s'. etharp_tmr_entry E netifs i s = Some s' \<and> arp_table s' = (arp_table s)[i := ?e'] \<and>
      etharp_cached_entry s' = etharp_cached_entry s"
      using False young n by (cases "ae_state (arp_at s i)") (auto simp: etharp_tmr_entry_def st_def Let_def st_same)
    then obtain s' where s': "etharp_tmr_entry E netifs i s = Some s'" "arp_table s' = (arp_table s)[i := ?e']"
      "etharp_cached_entry s' = etharp_cached_entry s" by blast
    show thesis by (rule that [OF s'(1)]) (use s'(2,3) set st l assms(2) use in \<open>simp_all add: arp_ok_def\<close>)
  qed
qed

text \<open>An entry one tick later.\<close>

definition aged :: "etharp_entry \<Rightarrow> etharp_entry \<Rightarrow> bool" where
  "aged e e' \<longleftrightarrow> e' = arp_empty \<or> in_use e \<and> ae_ctime e' = ae_ctime e + 1 \<and>
     (ae_state e' = ETHARP_STATE_PENDING \<longrightarrow> ae_state e = ETHARP_STATE_PENDING)"

lemma tmr_loop_ok:
  assumes "arp_ok N s" "i + k \<le> 10" "fst ` N \<subseteq> nif_num ` set netifs"
  shows "\<exists>s'. etharp_tmr_loop E netifs i k s = Some s' \<and> arp_ok N s' \<and>
    (\<forall>j. if i \<le> j \<and> j < i + k then aged (arp_table s ! j) (arp_table s' ! j) else arp_table s' ! j = arp_table s ! j)"
  using assms(1,2)
proof (induction k arbitrary: i s)
  case 0
  then show ?case by auto
next
  case (Suc k)
  have i: "i < 10" using Suc.prems by simp
  obtain s1 where s1: "etharp_tmr_entry E netifs i s = Some s1" "arp_ok N s1"
    "aged (arp_table s ! i) (arp_table s1 ! i)" "\<And>j. j \<noteq> i \<Longrightarrow> arp_table s1 ! j = arp_table s ! j"
    using tmr_entry_ok [OF Suc.prems(1) i assms(3), of E] by (auto simp: aged_def arp_at_def)
  obtain s2 where s2: "etharp_tmr_loop E netifs (i + 1) k s1 = Some s2" "arp_ok N s2"
    "\<And>j. if i + 1 \<le> j \<and> j < i + 1 + k then aged (arp_table s1 ! j) (arp_table s2 ! j) else arp_table s2 ! j = arp_table s1 ! j"
    using Suc.IH [OF s1(2), of "i + 1"] Suc.prems(2) by auto
  have "if i \<le> j \<and> j < i + Suc k then aged (arp_table s ! j) (arp_table s2 ! j) else arp_table s2 ! j = arp_table s ! j" for j
    using s1(3) s1(4) [of j] s2(3) [of j] by (cases "j = i") (auto split: if_splits)
  with s1(1) s2(1,2) show ?case by simp
qed

lemma tmr_ok:
  assumes "arp_ok N s" "fst ` N \<subseteq> nif_num ` set netifs"
  obtains s' where "etharp_tmr E netifs s = Some s'" "arp_ok N s'" "\<And>j. j < 10 \<Longrightarrow> aged (arp_table s ! j) (arp_table s' ! j)"
  using tmr_loop_ok [OF assms(1) _ assms(2), where i = 0 and k = 10 and E = E] by (auto simp: etharp_tmr_def ARP_TABLE_SIZE_def)

text \<open>Several ticks with nothing in between.\<close>

fun arp_ticks :: "tx_env \<Rightarrow> netif list \<Rightarrow> nat \<Rightarrow> tx_state \<Rightarrow> tx_state option" where
  "arp_ticks E netifs 0 s = Some s"
| "arp_ticks E netifs (Suc k) s = Option.bind (etharp_tmr E netifs s) (arp_ticks E netifs k)"

lemma ctime_bound: "entry_ok N e \<Longrightarrow> unat (ae_ctime e) < 300 \<and> (ae_state e = ETHARP_STATE_PENDING \<longrightarrow> unat (ae_ctime e) < 5)"
  by (auto simp: entry_ok_def word_less_nat_alt ARP_MAXAGE_def ARP_MAXPENDING_def split: if_splits)

lemma aged_unat: "entry_ok N e \<Longrightarrow> aged e e' \<Longrightarrow> e' \<noteq> arp_empty \<Longrightarrow> unat (ae_ctime e') = unat (ae_ctime e) + 1"
  using ctime_bound [of N e] by (simp add: aged_def unat_word_ariths)

lemma ticks_ok:
  assumes "arp_ok N s" "fst ` N \<subseteq> nif_num ` set netifs"
  shows "\<exists>s'. arp_ticks E netifs k s = Some s' \<and> arp_ok N s' \<and>
    (\<forall>j<10. arp_table s' ! j = arp_empty \<or> k \<le> unat (ae_ctime (arp_table s' ! j)))"
proof -
  have "\<exists>s'. arp_ticks E netifs k s = Some s' \<and> arp_ok N s' \<and>
    (\<forall>j<10. arp_table s' ! j = arp_empty \<or> in_use (arp_table s ! j) \<and>
       unat (ae_ctime (arp_table s' ! j)) = unat (ae_ctime (arp_table s ! j)) + k)"
    using assms(1)
  proof (induction k arbitrary: s)
    case 0
    have "arp_table s ! j = arp_empty \<or> in_use (arp_table s ! j)" if "j < 10" for j
      using arp_ok_at [OF 0 that] by (auto simp: entry_ok_def in_use_def arp_at_def split: if_splits)
    with 0 show ?case by simp
  next
    case (Suc k)
    obtain s1 where s1: "etharp_tmr E netifs s = Some s1" "arp_ok N s1" "\<And>j. j < 10 \<Longrightarrow> aged (arp_table s ! j) (arp_table s1 ! j)"
      using tmr_ok [OF Suc.prems assms(2)] by metis
    obtain s2 where s2: "arp_ticks E netifs k s1 = Some s2" "arp_ok N s2"
      "\<And>j. j < 10 \<Longrightarrow> arp_table s2 ! j = arp_empty \<or> in_use (arp_table s1 ! j) \<and>
        unat (ae_ctime (arp_table s2 ! j)) = unat (ae_ctime (arp_table s1 ! j)) + k"
      using Suc.IH [OF s1(2)] by blast
    have "arp_table s2 ! j = arp_empty \<or> in_use (arp_table s ! j) \<and>
        unat (ae_ctime (arp_table s2 ! j)) = unat (ae_ctime (arp_table s ! j)) + Suc k" if "j < 10" for j
    proof (cases "arp_table s1 ! j = arp_empty")
      case True
      with s2(3) [OF that] show ?thesis by auto
    next
      case False
      with aged_unat [OF arp_ok_at [OF Suc.prems that, unfolded arp_at_def] s1(3) [OF that]] s2(3) [OF that]
        s1(3) [OF that] False
      show ?thesis by (auto simp: aged_def)
    qed
    with s1(1) s2(1,2) show ?case by auto
  qed
  then show ?thesis by fastforce
qed

lemma cleanup_loop_ok: "arp_ok N s \<Longrightarrow> arp_ok N (etharp_cleanup_loop nif i k s)"
  by (induction k arbitrary: i s) (simp_all add: Let_def arp_ok_free)

lemma cleanup_arp_ok: "arp_ok N s \<Longrightarrow> arp_ok N (etharp_cleanup_netif n s)"
  by (simp add: etharp_cleanup_netif_def cleanup_loop_ok)

lemma to_index_arp_ok:
  assumes "arp_ok N s" "i < 10"
  shows "arp_ok N (snd (etharp_output_to_arp_index E n q i s))"
proof -
  let ?e = "arp_at s i"
  have set: "arp_ok N (arp_set i (?e\<lparr>ae_state := ETHARP_STATE_STABLE_REREQUESTING_1\<rparr>) s')"
    if "ae_state ?e = ETHARP_STATE_STABLE" "arp_ok N s'" "arp_table s' = arp_table s" for s'
  proof (rule arp_ok_set [OF that(2) assms(2)])
    show "in_use (arp_at s' i)" using that by (simp add: in_use_def arp_at_def)
    show "entry_ok N (?e\<lparr>ae_state := ETHARP_STATE_STABLE_REREQUESTING_1\<rparr>)"
      using arp_ok_at [OF assms] that(1) by (simp add: entry_ok_def)
  qed (simp add: arp_key_def arp_at_def that(3))
  show ?thesis
    using assms set by (auto simp: etharp_output_to_arp_index_def Let_def split_beta)
qed

lemma set_q_ok:
  assumes "arp_ok N s" "i < 10" "ae_state (arp_at s i) = ETHARP_STATE_PENDING"
  shows "arp_ok N (arp_set i ((arp_at s i)\<lparr>ae_q := q\<rparr>) s)"
proof (rule arp_ok_set [OF assms(1,2)])
  show "in_use (arp_at s i)" using assms(3) by (simp add: in_use_def)
  show "entry_ok N ((arp_at s i)\<lparr>ae_q := q\<rparr>)" using arp_ok_at [OF assms(1,2)] assms(3) by (simp add: entry_ok_def)
qed (simp add: arp_key_def)

lemma release_at [simp]: "arp_at (pbuf_release p s) i = arp_at s i"
  by (simp add: arp_at_def)

lemma queue_arp_ok:
  "arp_ok N s \<Longrightarrow> i < 10 \<Longrightarrow> ae_state (arp_at s i) = ETHARP_STATE_PENDING \<Longrightarrow> arp_ok N (queue_packet i p s)"
  using set_q_ok [of N "pbuf_release q s" i "Some p" for q] set_q_ok [of N s i "Some p"]
  by (simp add: queue_packet_def Let_def split: option.split)

lemma query_arp_ok:
  assumes "arp_ok N s" "link_of n \<in> N"
  shows "arp_ok N (snd (etharp_query E n ip q s))"
proof (cases "ip4_addr_isbroadcast_u32 ip n \<or> ip4_addr_ismulticast ip \<or> ip4_addr_isany_val ip")
  case True
  then show ?thesis using assms by (simp add: etharp_query_def)
next
  case False
  obtain r s1 where f: "etharp_find_entry (Some ip) ETHARP_FLAG_TRY_HARD (Some (nif_num n)) s = (r, s1)" by fastforce
  show ?thesis
  proof (cases r)
    case None
    with f False find_entry_None [OF f [unfolded None]] assms show ?thesis by (simp add: etharp_query_def)
  next
    case (Some i)
    note g = find_entry_arp_ok [OF assms(1) f [unfolded Some]]
    define s2 where "s2 = (if ae_state (arp_at s1 i) = ETHARP_STATE_EMPTY
      then arp_set i ((arp_at s1 i)\<lparr>ae_state := ETHARP_STATE_PENDING, ae_netif := Some (nif_num n)\<rparr>) s1 else s1)"
    have ok2: "arp_ok N s2"
    proof (cases "in_use (arp_at s1 i)")
      case True
      with g(5) assms(1) show ?thesis by (simp add: s2_def in_use_def)
    next
      case nu: False
      note c = g(6) [OF nu]
      have "entry_ok N ((claimed ip (nif_num n))\<lparr>ae_state := ETHARP_STATE_PENDING, ae_netif := Some (nif_num n)\<rparr>)"
        using False link_host [OF assms(2), of ip] by (simp add: entry_ok_def ARP_MAXPENDING_def)
      from g(4) [OF this] c show ?thesis by (simp add: s2_def arp_key_def)
    qed
    define rs where "rs = (if ae_state (arp_at s1 i) = ETHARP_STATE_EMPTY \<or> q = None then etharp_request E n ip s2 else (LwMem, s2))"
    have t3: "arp_table (snd rs) = arp_table s2" "etharp_cached_entry (snd rs) = etharp_cached_entry s2" by (simp_all add: rs_def)
    then have ok3: "arp_ok N (snd rs)" using ok2 arp_ok_cong by metis
    define pr where "pr = (\<lambda>q'. if \<exists>b \<in> set (p_segs q'). PBUF_NEEDS_COPY b then pbuf_clone_ram E PBUF_LINK q' (snd rs)
        else (Some q', snd rs))"
    define p s4 where "p = fst \<circ> pr" and "s4 = snd \<circ> pr"
    have pc: "(if \<exists>b \<in> set (p_segs q'). PBUF_NEEDS_COPY b then pbuf_clone_ram E PBUF_LINK q' (snd rs)
        else (Some q', snd rs)) = (p q', s4 q')" for q' by (simp add: p_def s4_def pr_def)
    have t4: "arp_table (s4 q') = arp_table (snd rs)" "etharp_cached_entry (s4 q') = etharp_cached_entry (snd rs)" for q'
      using pc [of q'] clone_frame by (auto split: if_splits)
    then have ok4: "arp_ok N (s4 q')" for q' using ok3 arp_ok_cong by metis
    have e: "etharp_query E n ip q s = (case q of None \<Rightarrow> rs
      | Some q \<Rightarrow>
          if is_stable (ae_state (arp_at (snd rs) i)) then
            link_output E q (nif_hwaddr n) (ae_ethaddr (arp_at (snd rs) i)) ETHTYPE_IP ((snd rs)\<lparr>etharp_cached_entry := i\<rparr>)
          else if ae_state (arp_at (snd rs) i) = ETHARP_STATE_PENDING then
            (case p q of Some b \<Rightarrow> (LwOk, queue_packet i b (s4 q)) | None \<Rightarrow> (LwMem, s4 q))
          else (fst rs, snd rs))"
      unfolding etharp_query_def if_not_P [OF False] f Some option.case prod.case Let_def s2_def [symmetric] split_beta
        rs_def [symmetric] pc prod.sel prod.collapse by (rule refl)
    have cached: "arp_ok N ((snd rs)\<lparr>etharp_cached_entry := i\<rparr>)" using ok3 g(1) by (simp add: arp_ok_def ARP_TABLE_SIZE_def)
    have at4: "arp_at (s4 q') i = arp_at (snd rs) i" for q' by (simp add: arp_at_def t4)
    show ?thesis
      unfolding e using ok3 cached ok4 queue_arp_ok [OF ok4 g(1)] at4
      by (auto split: option.split)
  qed
qed

lemma output_arp_ok:
  assumes "arp_ok N s" "link_of n \<in> N"
  shows "arp_ok N (snd (etharp_output E n q ip s))"
proof -
  have c: "etharp_cached_entry s < 10" using assms(1) by (simp add: arp_ok_def ARP_TABLE_SIZE_def)
  have "arp_ok N (s\<lparr>etharp_cached_entry := i\<rparr>)" if "i < 10" for i
    using assms(1) that by (simp add: arp_ok_def ARP_TABLE_SIZE_def)
  moreover have "i < 10" if "find P [0..<ARP_TABLE_SIZE] = Some i" for P i
    using that by (auto simp: find_Some_iff ARP_TABLE_SIZE_def)
  ultimately show ?thesis
    using assms to_index_arp_ok query_arp_ok c by (auto simp: etharp_output_def split: option.split)
qed

end
