(* ===== verification/LwipOutput.thy ===== *)
theory LwipOutput
  imports LwipArp
begin

text \<open>
  Sending of IPv4 packets (core/ipv4/ip4.c) and of UDP datagrams (core/udp.c), and the cutting of
  packets that are too long for the link (core/ipv4/ip4_frag.c), with the options of the REAR
  board: options in a sent header allowed, the checksum of the header computed on the way, no
  loopback.
\<close>

section \<open>Choosing the interface\<close>

definition default_netif :: "lwip \<Rightarrow> netif option" where
  "default_netif w = (case lw_default w of None \<Rightarrow> None | Some i \<Rightarrow> find (\<lambda>n. nif_num n = i) (lw_netifs w))"

definition netif_get_by_index :: "u8 \<Rightarrow> lwip \<Rightarrow> netif option" where
  "netif_get_by_index i w =
     (if i \<noteq> NETIF_NO_INDEX then find (\<lambda>n. i = netif_get_index n) (lw_netifs w) else None)"

definition route_match :: "u32 \<Rightarrow> netif \<Rightarrow> bool" where
  "route_match dest n \<longleftrightarrow> netif_is_up n \<and> netif_is_link_up n \<and> \<not> ip4_addr_isany_val (nif_ip n) \<and>
     (ip4_addr_netcmp dest (nif_ip n) (nif_netmask n) \<or> \<not> has_flag n NETIF_FLAG_BROADCAST \<and> dest = nif_gw n)"

text \<open>No interface is ever set aside for multicast (\<open>ip4_set_default_multicast_netif\<close> has no caller).\<close>

definition ip4_route :: "u32 \<Rightarrow> lwip \<Rightarrow> netif option" where
  "ip4_route dest w =
     (case find (route_match dest) (lw_netifs w) of
        Some n \<Rightarrow> Some n
      | None \<Rightarrow>
          (case default_netif w of
             None \<Rightarrow> None
           | Some n \<Rightarrow>
               if \<not> netif_is_up n \<or> \<not> netif_is_link_up n \<or> ip4_addr_isany_val (nif_ip n) \<or> ip4_addr_isloopback dest
               then None else Some n))"

section \<open>Cutting a packet into fragments\<close>

definition MEMP_NUM_FRAG_PBUF :: nat where "MEMP_NUM_FRAG_PBUF = 15"

text \<open>References to the next \<open>n\<close> bytes of the chain \<open>qs\<close>, the first of which were used up to
  \<open>poff\<close>. The second component says where the following fragment starts. An empty buffer is passed
  over; \<open>None\<close> stands for running past the end of the chain.\<close>

definition mirror :: "seg \<Rightarrow> nat \<Rightarrow> nat \<Rightarrow> seg" where
  "mirror q poff n = \<lparr>seg_type = PBUF_REF, seg_addr = seg_payload q + of_nat poff, seg_front = [],
     seg_data = take n (drop poff (seg_data q)), seg_tail = []\<rparr>"

fun frag_refs :: "seg list \<Rightarrow> nat \<Rightarrow> nat \<Rightarrow> (seg list \<times> seg list \<times> nat) option" where
  "frag_refs [] poff n = (if n = 0 then Some ([], [], poff) else None)"
| "frag_refs (q # qs) poff n =
     (if n = 0 then Some ([], q # qs, poff)
      else (let newpbuflen = min n (seg_len q - poff)
            in if newpbuflen = 0 then frag_refs qs 0 n
               else if newpbuflen = n then Some ([mirror q poff n], q # qs, poff + n)
               else map_option (\<lambda>(rs, rest). (mirror q poff newpbuflen # rs, rest)) (frag_refs qs 0 (n - newpbuflen))))"

text \<open>The corrected copy of the header: total length, flags and offset, checksum.\<close>

definition frag_hdr :: "u32 \<Rightarrow> u8 list \<Rightarrow> nat \<Rightarrow> u16 \<Rightarrow> u8 list" where
  "frag_hdr a hdr fragsize off =
     (let h = put_at 6 (store16 (lwip_htons off)) (take IP_HLEN hdr);
          h = put_at 2 (store16 (lwip_htons (of_nat (fragsize + IP_HLEN)))) h;
          h = put_at 10 (store16 0) h
      in put_at 10 (store16 (inet_chksum a h)) h)"

text \<open>The loop over the fragments; \<open>left\<close> bytes are left, the next one has the offset \<open>ofo\<close>.\<close>

function frag_loop ::
    "tx_env \<Rightarrow> netif \<Rightarrow> u32 \<Rightarrow> u8 list \<Rightarrow> bool \<Rightarrow> nat \<Rightarrow> nat \<Rightarrow> u16 \<Rightarrow> seg list \<Rightarrow> nat \<Rightarrow> tx_state \<Rightarrow>
     (lwip_err \<times> tx_state) option" where
  "frag_loop E n dest hdr mf_set nfb left ofo qs poff s =
     (if left = 0 then Some (LwOk, s)
      else (let fragsize = min left (nfb * 8 mod 2 ^ 16)
            in case pbuf_alloc_ram E PBUF_LINK IP_HLEN s of
                 (None, s) \<Rightarrow> Some (LwMem, s)
               | (Some r, s) \<Rightarrow>
                   if fragsize = 0 then None
                   else case frag_refs qs poff fragsize of
                     None \<Rightarrow> None
                   | Some (rs, qs, poff) \<Rightarrow>
                       if MEMP_NUM_FRAG_PBUF < length rs then Some (LwMem, pbuf_release r s)
                       else (let is_last = int left \<le> int (unat (nif_mtu n)) - int IP_HLEN;
                                 off = (IP_OFFMASK AND ofo) OR (if \<not> is_last \<or> mf_set then IP_MF else 0);
                                 h = p_head r;
                                 r = r\<lparr>p_head := h\<lparr>seg_data := frag_hdr (seg_payload h) hdr fragsize off\<rparr>, p_next := rs\<rparr>;
                                 (_, s) = etharp_output E n r dest s
                             in frag_loop E n dest hdr mf_set nfb (left - fragsize) (ofo + of_nat nfb) qs poff
                                  (pbuf_release r s))))"
  by pat_completeness auto
termination
  by (relation "measure (\<lambda>(E, n, dest, hdr, mf_set, nfb, left, ofo, qs, poff, s). left)") auto

text \<open>The number of 8-byte blocks in a fragment: a quotient of signed numbers, kept in 16 bits.\<close>

definition frag_blocks :: "nat \<Rightarrow> nat" where
  "frag_blocks mtu = (if IP_HLEN \<le> mtu then (mtu - IP_HLEN) div 8 else (2 ^ 16 - (IP_HLEN - mtu) div 8) mod 2 ^ 16)"

text \<open>\<open>None\<close> stands for an endless loop (a link whose MTU has no room for eight bytes) or a
  chain shorter than its length.\<close>

definition ip4_frag :: "tx_env \<Rightarrow> pbuf \<Rightarrow> netif \<Rightarrow> u32 \<Rightarrow> tx_state \<Rightarrow> (lwip_err \<times> tx_state) option" where
  "ip4_frag E p n dest s =
     (let hdr = seg_data (p_head p);
          nfb = frag_blocks (unat (nif_mtu n))
      in if IPH_HL_BYTES (hdr ! 0) \<noteq> IP_HLEN then Some (LwVal, s)
         else if p_len p < IP_HLEN then Some (LwVal, s)
         else (let tmp = lwip_ntohs (IPH_OFFSET hdr)
               in frag_loop E n dest hdr (tmp AND IP_MF \<noteq> 0) nfb (p_tot_len p - IP_HLEN) (tmp AND IP_OFFMASK)
                    (p_segs p) IP_HLEN s))"

section \<open>IP output\<close>

definition IP_HLEN_MAX :: nat where "IP_HLEN_MAX = 60"

text \<open>The sum over the 16-bit words of a block.\<close>

definition words_sum :: "u8 list \<Rightarrow> u32" where
  "words_sum bs = fold (\<lambda>i acc. acc + ucast (at16 bs (2 * i))) [0..<length bs div 2] 0"

definition two_bytes :: "u8 \<Rightarrow> u8 \<Rightarrow> u16" where "two_bytes lo hi = ucast lo OR push_bit 8 (ucast hi)"

text \<open>The checksum that is gathered while the header is written.\<close>

definition inline_chksum :: "u8 list \<Rightarrow> u8 \<Rightarrow> u8 \<Rightarrow> u32 \<Rightarrow> u8 \<Rightarrow> u8 \<Rightarrow> u16 \<Rightarrow> u16 \<Rightarrow> u32 \<Rightarrow> u16" where
  "inline_chksum options proto ttl dest v_hl tos len ident src =
     (let chk_sum = words_sum options;
          chk_sum = chk_sum + ucast (lwip_ntohs (two_bytes proto ttl));
          chk_sum = chk_sum + (dest AND 0xFFFF);
          chk_sum = chk_sum + drop_bit 16 dest;
          chk_sum = chk_sum + ucast (lwip_ntohs (two_bytes tos v_hl));
          chk_sum = chk_sum + ucast len;
          chk_sum = chk_sum + ucast ident;
          chk_sum = chk_sum + (src AND 0xFFFF);
          chk_sum = chk_sum + drop_bit 16 src;
          chk_sum = drop_bit 16 chk_sum + (chk_sum AND 0xFFFF);
          chk_sum = drop_bit 16 chk_sum + chk_sum;
          chk_sum = NOT chk_sum
      in ucast chk_sum)"

text \<open>The fields of \<open>struct ip_hdr\<close> in order.\<close>

definition ip_hdr :: "u8 \<Rightarrow> u8 \<Rightarrow> u16 \<Rightarrow> u16 \<Rightarrow> u8 \<Rightarrow> u8 \<Rightarrow> u16 \<Rightarrow> u32 \<Rightarrow> u32 \<Rightarrow> u8 list" where
  "ip_hdr v_hl tos len ident ttl proto chksum src dest =
     [v_hl, tos] @ store16 len @ store16 ident @ store16 0 @ [ttl, proto] @ store16 chksum @ store32 src @ store32 dest"

definition seg_write :: "u8 list \<Rightarrow> pbuf \<Rightarrow> pbuf" where
  "seg_write bs p = (let h = p_head p in p\<lparr>p_head := h\<lparr>seg_data := bs @ drop (length bs) (seg_data h)\<rparr>\<rparr>)"

definition ip4_send :: "tx_env \<Rightarrow> pbuf \<Rightarrow> u32 \<Rightarrow> netif \<Rightarrow> tx_state \<Rightarrow> (lwip_err \<times> tx_state) option" where
  "ip4_send E p dest n s =
     (if nif_mtu n \<noteq> 0 \<and> unat (nif_mtu n) < p_tot_len p then ip4_frag E p n dest s
      else Some (etharp_output E n p dest s))"

text \<open>A destination \<open>None\<close> (LWIP\_IP\_HDRINCL) says that the header is there already; a source
  that is a null pointer in the code is the address 0 here.\<close>

definition pad4 :: "u8 list \<Rightarrow> u8 list" where
  "pad4 bs = bs @ replicate ((length bs + 3) div 4 * 4 - length bs) 0"

definition ip4_output_if_opt_src ::
    "tx_env \<Rightarrow> pbuf \<Rightarrow> u32 \<Rightarrow> u32 option \<Rightarrow> u8 \<Rightarrow> u8 \<Rightarrow> u8 \<Rightarrow> netif \<Rightarrow> u8 list \<Rightarrow> tx_state \<Rightarrow> (lwip_err \<times> tx_state) option" where
  "ip4_output_if_opt_src E p src dest ttl tos proto n ip_options s =
     (case dest of
        None \<Rightarrow>
          if p_len p < IP_HLEN then Some (LwBuf, s) else ip4_send E p (at32 (seg_data (p_head p)) 16) n s
      | Some dest \<Rightarrow>
          if IP_HLEN_MAX - IP_HLEN < length ip_options then Some (LwVal, s)
          else (let options = pad4 ip_options;
                    (failed, p) = pbuf_add_header p (length options)
                in if failed \<noteq> 0 then Some (LwBuf, s)
                   else (let p = seg_write options p;
                             (failed, p) = pbuf_add_header p IP_HLEN
                         in if failed \<noteq> 0 then Some (LwBuf, s)
                            else (let v_hl = push_bit 4 4 OR of_nat ((IP_HLEN + length options) div 4);
                                      len = lwip_htons (of_nat (p_tot_len p));
                                      ident = lwip_htons (ip_id s);
                                      chk = inline_chksum options proto ttl dest v_hl tos len ident src;
                                      p = seg_write (ip_hdr v_hl tos len ident ttl proto chk src dest) p
                                  in ip4_send E p dest n (s\<lparr>ip_id := ip_id s + 1\<rparr>)))))"

definition ip4_output_if_opt ::
    "tx_env \<Rightarrow> pbuf \<Rightarrow> u32 \<Rightarrow> u32 option \<Rightarrow> u8 \<Rightarrow> u8 \<Rightarrow> u8 \<Rightarrow> netif \<Rightarrow> u8 list \<Rightarrow> tx_state \<Rightarrow> (lwip_err \<times> tx_state) option" where
  "ip4_output_if_opt E p src dest ttl tos proto n ip_options s =
     (let src_used = (if dest \<noteq> None \<and> ip4_addr_isany_val src then nif_ip n else src)
      in ip4_output_if_opt_src E p src_used dest ttl tos proto n ip_options s)"

definition ip4_output_if ::
    "tx_env \<Rightarrow> pbuf \<Rightarrow> u32 \<Rightarrow> u32 option \<Rightarrow> u8 \<Rightarrow> u8 \<Rightarrow> u8 \<Rightarrow> netif \<Rightarrow> tx_state \<Rightarrow> (lwip_err \<times> tx_state) option" where
  "ip4_output_if E p src dest ttl tos proto n s = ip4_output_if_opt E p src dest ttl tos proto n [] s"

definition ip4_output_if_src ::
    "tx_env \<Rightarrow> pbuf \<Rightarrow> u32 \<Rightarrow> u32 option \<Rightarrow> u8 \<Rightarrow> u8 \<Rightarrow> u8 \<Rightarrow> netif \<Rightarrow> tx_state \<Rightarrow> (lwip_err \<times> tx_state) option" where
  "ip4_output_if_src E p src dest ttl tos proto n s = ip4_output_if_opt_src E p src dest ttl tos proto n [] s"

definition ip4_output ::
    "tx_env \<Rightarrow> pbuf \<Rightarrow> u32 \<Rightarrow> u32 \<Rightarrow> u8 \<Rightarrow> u8 \<Rightarrow> u8 \<Rightarrow> lwip \<Rightarrow> tx_state \<Rightarrow> (lwip_err \<times> tx_state) option" where
  "ip4_output E p src dest ttl tos proto w s =
     (case ip4_route dest w of
        None \<Rightarrow> Some (LwRte, s)
      | Some n \<Rightarrow> ip4_output_if E p src (Some dest) ttl tos proto n s)"

section \<open>UDP output\<close>

definition UDP_FLAGS_NOCHKSUM :: u8 where "UDP_FLAGS_NOCHKSUM = 0x01"
definition UDP_FLAGS_MULTICAST_LOOP :: u8 where "UDP_FLAGS_MULTICAST_LOOP = 0x08"
definition PBUF_FLAG_MCASTLOOP :: u8 where "PBUF_FLAG_MCASTLOOP = 0x04"

definition udp_hdr :: "u16 \<Rightarrow> u16 \<Rightarrow> u16 \<Rightarrow> u16 \<Rightarrow> u8 list" where
  "udp_hdr src dest len chksum =
     store16 (lwip_htons src) @ store16 (lwip_htons dest) @ store16 (lwip_htons len) @ store16 chksum"

text \<open>The buffer the header goes into: the given one, or a new one in front of it.\<close>

definition udp_room :: "tx_env \<Rightarrow> pbuf \<Rightarrow> tx_state \<Rightarrow> pbuf option \<times> tx_state" where
  "udp_room E p s =
     (let (failed, q) = pbuf_add_header p UDP_HLEN
      in if failed = 0 then (Some q, s)
         else case pbuf_alloc_ram E PBUF_IP UDP_HLEN s of
           (None, s) \<Rightarrow> (None, s)
         | (Some q, s) \<Rightarrow> (Some (if p_tot_len p \<noteq> 0 then q\<lparr>p_next := p_segs p\<rparr> else q), s))"

text \<open>The checksum, which is never 0 where one is sent.\<close>

definition udp_chksum :: "upcb \<Rightarrow> pbuf \<Rightarrow> u32 \<Rightarrow> u32 \<Rightarrow> u16" where
  "udp_chksum pcb q src_ip dst_ip =
     (if pcb_flags pcb AND UDP_FLAGS_NOCHKSUM = 0 then
        (let chk = ip_chksum_pseudo q IP_PROTO_UDP (of_nat (p_tot_len q)) src_ip dst_ip in if chk = 0 then 0xffff else chk)
      else 0)"

definition udp_ttl :: "upcb \<Rightarrow> u32 \<Rightarrow> u8" where
  "udp_ttl pcb dst_ip = (if ip4_addr_ismulticast dst_ip then pcb_mcast_ttl pcb else pcb_ttl pcb)"

definition udp_sendto_if_src ::
    "tx_env \<Rightarrow> upcb \<Rightarrow> pbuf \<Rightarrow> u32 \<Rightarrow> u16 \<Rightarrow> netif \<Rightarrow> u32 \<Rightarrow> lwip \<Rightarrow> tx_state \<Rightarrow> (lwip_err \<times> lwip \<times> tx_state) option" where
  "udp_sendto_if_src E pcb p dst_ip dst_port n src_ip w s =
     (let (e, pcb, u) = (if pcb_local_port pcb = 0 then udp_bind pcb (pcb_local_ip pcb) (pcb_local_port pcb) (lw_udp w)
             else (UdpOk, pcb, lw_udp w));
          w = w\<lparr>lw_udp := u\<rparr>
      in if e \<noteq> UdpOk then Some (LwUse, w, s)
         else if 2 ^ 16 \<le> p_tot_len p + UDP_HLEN then Some (LwMem, w, s)
         else case udp_room E p s of
           (None, s) \<Rightarrow> Some (LwMem, w, s)
         | (Some q, s) \<Rightarrow>
             (let len = of_nat (p_tot_len q);
                  flags = (if pcb_flags pcb AND UDP_FLAGS_MULTICAST_LOOP \<noteq> 0 \<and> ip4_addr_ismulticast dst_ip
                    then p_flags q OR PBUF_FLAG_MCASTLOOP else p_flags q);
                  q = seg_write (udp_hdr (pcb_local_port pcb) dst_port len 0) (q\<lparr>p_flags := flags\<rparr>);
                  q = seg_write (udp_hdr (pcb_local_port pcb) dst_port len (udp_chksum pcb q src_ip dst_ip)) q
              in map_option (\<lambda>(e, s). (e, w, s))
                   (ip4_output_if_src E q src_ip (Some dst_ip) (udp_ttl pcb dst_ip) (pcb_tos pcb) IP_PROTO_UDP n s)))"

definition udp_sendto_if ::
    "tx_env \<Rightarrow> upcb \<Rightarrow> pbuf \<Rightarrow> u32 \<Rightarrow> u16 \<Rightarrow> netif \<Rightarrow> lwip \<Rightarrow> tx_state \<Rightarrow> (lwip_err \<times> lwip \<times> tx_state) option" where
  "udp_sendto_if E pcb p dst_ip dst_port n w s =
     (if ip4_addr_isany_val (pcb_local_ip pcb) \<or> ip4_addr_ismulticast (pcb_local_ip pcb)
      then udp_sendto_if_src E pcb p dst_ip dst_port n (nif_ip n) w s
      else if pcb_local_ip pcb \<noteq> nif_ip n then Some (LwRte, w, s)
      else udp_sendto_if_src E pcb p dst_ip dst_port n (pcb_local_ip pcb) w s)"

definition udp_route :: "upcb \<Rightarrow> u32 \<Rightarrow> lwip \<Rightarrow> netif option" where
  "udp_route pcb dst_ip w =
     (if pcb_netif_idx pcb \<noteq> NETIF_NO_INDEX then netif_get_by_index (pcb_netif_idx pcb) w
      else (let n = (if ip4_addr_ismulticast dst_ip then
                (if pcb_mcast_ifindex pcb \<noteq> NETIF_NO_INDEX then netif_get_by_index (pcb_mcast_ifindex pcb) w
                 else if \<not> ip4_addr_isany_val (pcb_mcast_ip4 pcb) \<and> pcb_mcast_ip4 pcb \<noteq> IPADDR_BROADCAST
                 then ip4_route (pcb_mcast_ip4 pcb) w else None)
              else None)
            in case n of Some n \<Rightarrow> Some n | None \<Rightarrow> ip4_route dst_ip w))"

definition udp_sendto ::
    "tx_env \<Rightarrow> upcb \<Rightarrow> pbuf \<Rightarrow> u32 \<Rightarrow> u16 \<Rightarrow> lwip \<Rightarrow> tx_state \<Rightarrow> (lwip_err \<times> lwip \<times> tx_state) option" where
  "udp_sendto E pcb p dst_ip dst_port w s =
     (case udp_route pcb dst_ip w of
        None \<Rightarrow> Some (LwRte, w, s)
      | Some n \<Rightarrow> udp_sendto_if E pcb p dst_ip dst_port n w s)"

definition udp_send :: "tx_env \<Rightarrow> upcb \<Rightarrow> pbuf \<Rightarrow> lwip \<Rightarrow> tx_state \<Rightarrow> (lwip_err \<times> lwip \<times> tx_state) option" where
  "udp_send E pcb p w s = udp_sendto E pcb p (pcb_remote_ip pcb) (pcb_remote_port pcb) w s"

section \<open>The sending routine of the application\<close>

text \<open>\<open>UdpSend_WithPcb\<close> (udp\_txrx.c) on the modelled stack: a buffer from the heap, the data
  copied, sent and freed. A result \<open>LwArg\<close> stands for missing arguments or no data.\<close>

definition UdpSend_stack ::
    "tx_env \<Rightarrow> upcb option \<Rightarrow> u32 option \<Rightarrow> u16 \<Rightarrow> u8 list option \<Rightarrow> lwip \<Rightarrow> tx_state \<Rightarrow>
     (lwip_err \<times> lwip \<times> tx_state) option" where
  "UdpSend_stack E pcb dst_addr dst_port data w s =
     (case (pcb, dst_addr, data) of
        (Some pcb, Some a, Some d) \<Rightarrow>
          if length d = 0 then Some (LwArg, w, s)
          else (case pbuf_alloc_ram E PBUF_TRANSPORT (length d) s of
             (None, s) \<Rightarrow> Some (LwMem, w, s)
           | (Some p, s) \<Rightarrow>
               (let p = seg_write d p
                in map_option (\<lambda>(e, w, s). (e, w, pbuf_release p s)) (udp_sendto E pcb p a dst_port w s)))
      | _ \<Rightarrow> Some (LwArg, w, s))"

end
