(* ===== verification/LwipReass.thy ===== *)
theory LwipReass
  imports LwipOutput
begin

text \<open>
  Answers of ICMP (core/ipv4/icmp.c) and the putting together of fragments
  (core/ipv4/ip4_frag.c) with the options of the REAR board: no answer to a ping at a broadcast or
  multicast address, overlapping fragments thrown away, the oldest datagram given up when there
  are too many buffers.
\<close>

section \<open>ICMP\<close>

definition ICMP_ER :: u8 where "ICMP_ER = 0"
definition ICMP_DUR :: u8 where "ICMP_DUR = 3"
definition ICMP_ECHO :: u8 where "ICMP_ECHO = 8"
definition ICMP_TE :: u8 where "ICMP_TE = 11"
definition ICMP_DUR_PROTO :: u8 where "ICMP_DUR_PROTO = 2"
definition ICMP_DUR_PORT :: u8 where "ICMP_DUR_PORT = 3"
definition ICMP_TE_FRAG :: u8 where "ICMP_TE_FRAG = 1"
definition ICMP_TTL :: u8 where "ICMP_TTL = 255"
definition ICMP_HLEN :: nat where "ICMP_HLEN = 8"
definition ICMP_DEST_UNREACH_DATASIZE :: nat where "ICMP_DEST_UNREACH_DATASIZE = 8"

text \<open>The adjusted checksum of the answer to an echo request.\<close>

definition echo_chksum :: "u16 \<Rightarrow> u16" where
  "echo_chksum chk =
     (if lwip_htons (0xffff - push_bit 8 (ucast ICMP_ECHO)) < chk then chk + lwip_htons (push_bit 8 (ucast ICMP_ECHO)) + 1
      else chk + lwip_htons (push_bit 8 (ucast ICMP_ECHO)))"

text \<open>Room for the headers in front of the request: the buffer itself if it has it, or else a copy.
  The first component is \<open>None\<close> when the request is dropped.\<close>

definition icmp_room :: "tx_env \<Rightarrow> pbuf \<Rightarrow> nat \<Rightarrow> u8 list \<Rightarrow> tx_state \<Rightarrow> pbuf option \<times> tx_state" where
  "icmp_room E p hlen iphdr_in s =
     (let (failed, _) = pbuf_add_header p (hlen + PBUF_LINK_HLEN + PBUF_LINK_ENCAPSULATION_HLEN)
      in if failed \<noteq> 0 then
           (let alloc_len = p_tot_len p + hlen
            in if 2 ^ 16 \<le> alloc_len then (None, pbuf_release p s)
               else case pbuf_alloc_ram E PBUF_LINK alloc_len s of
                 (None, s) \<Rightarrow> (None, pbuf_release p s)
               | (Some r, s) \<Rightarrow>
                   if p_len r < hlen + ICMP_HLEN then (None, pbuf_release p (pbuf_release r s))
                   else (let (_, r) = pbuf_remove_header (seg_write (take hlen iphdr_in) r) hlen
                         in (Some (seg_write (p_bytes p) r), pbuf_release p s)))
         else (Some p, s))"

text \<open>The request with the addresses exchanged, as it goes out.\<close>

definition echo_reply :: "pbuf \<Rightarrow> nat \<Rightarrow> u32 \<Rightarrow> u32 \<Rightarrow> pbuf" where
  "echo_reply p hlen src dest =
     (let p = p\<lparr>p_head := (p_head p)\<lparr>seg_data := put_at hlen [ICMP_ER]
                (put_at (hlen + 2) (store16 (echo_chksum (at16 (seg_data (p_head p)) (hlen + 2)))) (seg_data (p_head p)))\<rparr>\<rparr>;
          h = put_at 8 [ICMP_TTL] (put_at 12 (store32 src) (put_at 16 (store32 dest) (take hlen (seg_data (p_head p)))));
          h = put_at 10 (store16 0) h
      in seg_write (put_at 10 (store16 (inet_chksum (seg_payload (p_head p)) h)) h) p)"

text \<open>The end of a received buffer. When it waits in the address table for its transmission, the
  table keeps it.\<close>

definition waits_in_table :: "pbuf \<Rightarrow> tx_state \<Rightarrow> bool" where
  "waits_in_table p s \<longleftrightarrow> (\<exists>e \<in> set (arp_table s). case ae_q e of Some q \<Rightarrow> seg_addr (p_head q) = seg_addr (p_head p) | None \<Rightarrow> False)"

definition pbuf_free_rx :: "pbuf \<Rightarrow> tx_state \<Rightarrow> tx_state" where
  "pbuf_free_rx p s = (if waits_in_table p s then s else pbuf_release p s)"

definition icmp_echo :: "tx_env \<Rightarrow> pbuf \<Rightarrow> ip_current \<Rightarrow> u8 list \<Rightarrow> tx_state \<Rightarrow> tx_state option" where
  "icmp_echo E p c iphdr_in s =
     (let hlen = IPH_HL_BYTES (iphdr_in ! 0); src = cur_dest c
      in if ip4_addr_ismulticast (cur_dest c) then Some (pbuf_release p s)
         else if ip4_addr_isbroadcast_u32 (cur_dest c) (cur_netif c) then Some (pbuf_release p s)
         else if p_tot_len p < ICMP_HLEN then Some (pbuf_release p s)
         else if inet_chksum_pbuf p \<noteq> 0 then Some (pbuf_release p s)
         else case icmp_room E p hlen iphdr_in s of
           (None, s) \<Rightarrow> Some s
         | (Some p, s) \<Rightarrow>
             (let (failed, p) = pbuf_add_header p hlen
              in if failed \<noteq> 0 then Some (pbuf_release p s)
                 else if p_len p < hlen + 4 then None
                 else (let p = echo_reply p hlen src (cur_src c)
                       in map_option (\<lambda>(_, s). pbuf_free_rx p s)
                            (ip4_output_if E p src None ICMP_TTL 0 IP_PROTO_ICMP (cur_inp c) s))))"

text \<open>\<open>iphdr_in\<close> is the IP header of the packet, which lies in front of the payload.\<close>

definition icmp_input :: "tx_env \<Rightarrow> pbuf \<Rightarrow> ip_current \<Rightarrow> u8 list \<Rightarrow> tx_state \<Rightarrow> tx_state option" where
  "icmp_input E p c iphdr_in s =
     (if IPH_HL_BYTES (iphdr_in ! 0) < IP_HLEN then Some (pbuf_release p s)
      else if p_len p < 4 then Some (pbuf_release p s)
      else if seg_data (p_head p) ! 0 = ICMP_ECHO then icmp_echo E p c iphdr_in s
      else Some (pbuf_release p s))"

text \<open>The message about an error quotes the header and eight bytes of the packet, read from the
  memory of its buffer; \<open>None\<close> stands for a read outside of it.\<close>

definition icmp_msg :: "u32 \<Rightarrow> u8 \<Rightarrow> u8 \<Rightarrow> u8 list \<Rightarrow> u8 list" where
  "icmp_msg a type code quoted =
     (let m = [type, code] @ store16 0 @ store16 0 @ store16 0 @ quoted
      in put_at 2 (store16 (inet_chksum a m)) m)"

definition icmp_send_response :: "tx_env \<Rightarrow> pbuf \<Rightarrow> u8 \<Rightarrow> u8 \<Rightarrow> lwip \<Rightarrow> tx_state \<Rightarrow> tx_state option" where
  "icmp_send_response E p type code w s =
     (case pbuf_alloc_ram E PBUF_IP (ICMP_HLEN + IP_HLEN + ICMP_DEST_UNREACH_DATASIZE) s of
        (None, s) \<Rightarrow> Some s
      | (Some q, s) \<Rightarrow>
          (let mem = seg_from (p_head p)
           in if length mem < IP_HLEN + ICMP_DEST_UNREACH_DATASIZE then None
              else (let iphdr_src = at32 mem 12
                    in case ip4_route iphdr_src w of
                         None \<Rightarrow> Some (pbuf_release q s)
                       | Some n \<Rightarrow>
                           (let q = seg_write (icmp_msg (seg_payload (p_head q)) type code
                                  (take (IP_HLEN + ICMP_DEST_UNREACH_DATASIZE) mem)) q
                            in map_option (\<lambda>(_, s). pbuf_release q s)
                                 (ip4_output_if E q 0 (Some iphdr_src) ICMP_TTL 0 IP_PROTO_ICMP n s)))))"

definition icmp_dest_unreach :: "tx_env \<Rightarrow> pbuf \<Rightarrow> u8 \<Rightarrow> lwip \<Rightarrow> tx_state \<Rightarrow> tx_state option" where
  "icmp_dest_unreach E p t w s = icmp_send_response E p ICMP_DUR t w s"

definition icmp_time_exceeded :: "tx_env \<Rightarrow> pbuf \<Rightarrow> u8 \<Rightarrow> lwip \<Rightarrow> tx_state \<Rightarrow> tx_state option" where
  "icmp_time_exceeded E p t w s = icmp_send_response E p ICMP_TE t w s"

section \<open>Fragments\<close>

definition IP_REASS_MAXAGE :: u8 where "IP_REASS_MAXAGE = 15"
definition IP_REASS_MAX_PBUFS :: nat where "IP_REASS_MAX_PBUFS = 10"
definition MEMP_NUM_REASSDATA :: nat where "MEMP_NUM_REASSDATA = 5"

text \<open>A queued fragment with the helper structure that takes the place of its header: the interval
  \<open>start\<close> to \<open>end\<close>; the pointer to the next one is the order of the list.\<close>

record frag =
  fr_pbuf :: pbuf
  fr_start :: u16
  fr_end :: u16

record reassdata =
  rd_frags :: "frag list"
  rd_iphdr :: "u8 list"
  rd_datagram_len :: u16
  rd_last :: bool
  rd_timer :: u8

text \<open>The incomplete datagrams, the newest first, and the number of buffers they hold.\<close>

record reass_state =
  reassdatagrams :: "reassdata list"
  ip_reass_pbufcount :: u16

definition reass_0 :: reass_state where "reass_0 = \<lparr>reassdatagrams = [], ip_reass_pbufcount = 0\<rparr>"

text \<open>The bytes of a queued fragment: its first eight hold the helper.\<close>

definition with_helper :: "u32 \<Rightarrow> frag \<Rightarrow> pbuf" where
  "with_helper next_pbuf f = seg_write (store32 next_pbuf @ store16 (fr_start f) @ store16 (fr_end f)) (fr_pbuf f)"

definition pbuf_addr :: "pbuf \<Rightarrow> u32" where "pbuf_addr p = seg_addr (p_head p) - of_nat SIZEOF_STRUCT_PBUF"

fun frag_pbufs :: "frag list \<Rightarrow> pbuf list" where
  "frag_pbufs [] = []"
| "frag_pbufs [f] = [with_helper 0 f]"
| "frag_pbufs (f # g # fs) = with_helper (pbuf_addr (fr_pbuf g)) f # frag_pbufs (g # fs)"

definition pbuf_clen :: "pbuf \<Rightarrow> nat" where "pbuf_clen p = length (p_segs p)"

definition IP_ADDRESSES_AND_ID_MATCH :: "u8 list \<Rightarrow> u8 list \<Rightarrow> bool" where
  "IP_ADDRESSES_AND_ID_MATCH a b \<longleftrightarrow> at32 a 12 = at32 b 12 \<and> at32 a 16 = at32 b 16 \<and> at16 a 4 = at16 b 4"

definition IPH_OFFSET_BYTES :: "u8 list \<Rightarrow> u16" where
  "IPH_OFFSET_BYTES hdr = (lwip_ntohs (IPH_OFFSET hdr) AND IP_OFFMASK) * 8"

text \<open>Freeing datagram number \<open>k\<close> of the list: its first fragment is answered with an ICMP message
  when it is the beginning of the datagram. The result holds the number of buffers.\<close>

definition ip_reass_free_complete_datagram ::
    "tx_env \<Rightarrow> nat \<Rightarrow> lwip \<Rightarrow> reass_state \<Rightarrow> tx_state \<Rightarrow> (nat \<times> reass_state \<times> tx_state) option" where
  "ip_reass_free_complete_datagram E k w r s =
     (let ipr = reassdatagrams r ! k; fs = rd_frags ipr; ps = frag_pbufs fs
      in case fs of
           [] \<Rightarrow> None
         | f # _ \<Rightarrow> do {
             (ps, s) \<leftarrow> (if fr_start f = 0 then
                 (let p = seg_write (take IP_HLEN (rd_iphdr ipr)) (hd ps)
                  in map_option (\<lambda>s. (tl ps, pbuf_release p s)) (icmp_time_exceeded E p ICMP_TE_FRAG w s))
               else Some (ps, s));
             let s = fold pbuf_release ps s;
             let pbufs_freed = sum_list (map (pbuf_clen \<circ> fr_pbuf) fs);
             Some (pbufs_freed, r\<lparr>reassdatagrams := take k (reassdatagrams r) @ drop (k + 1) (reassdatagrams r),
               ip_reass_pbufcount := ip_reass_pbufcount r - of_nat pbufs_freed\<rparr>, s) })"

text \<open>The timer: datagrams whose time is up are freed.\<close>

fun reass_tmr_loop :: "tx_env \<Rightarrow> lwip \<Rightarrow> nat \<Rightarrow> nat \<Rightarrow> reass_state \<Rightarrow> tx_state \<Rightarrow> (reass_state \<times> tx_state) option" where
  "reass_tmr_loop E w 0 k r s = Some (r, s)"
| "reass_tmr_loop E w (Suc n) k r s =
     (let ipr = reassdatagrams r ! k
      in if 0 < rd_timer ipr then
           reass_tmr_loop E w n (k + 1)
             (r\<lparr>reassdatagrams := (reassdatagrams r)[k := ipr\<lparr>rd_timer := rd_timer ipr - 1\<rparr>]\<rparr>) s
         else do {
           (_, r, s) \<leftarrow> ip_reass_free_complete_datagram E k w r s;
           reass_tmr_loop E w n k r s })"

definition ip_reass_tmr :: "tx_env \<Rightarrow> lwip \<Rightarrow> reass_state \<Rightarrow> tx_state \<Rightarrow> (reass_state \<times> tx_state) option" where
  "ip_reass_tmr E w r s = reass_tmr_loop E w (length (reassdatagrams r)) 0 r s"

text \<open>The search for the oldest datagram that the fragment does not belong to: its number, and how many
  there are.\<close>

fun find_oldest :: "u8 list \<Rightarrow> reassdata list \<Rightarrow> nat \<Rightarrow> (nat \<times> u8) option \<Rightarrow> nat \<Rightarrow> nat option \<times> nat" where
  "find_oldest hdr [] k oldest others = (map_option fst oldest, others)"
| "find_oldest hdr (r # rs) k oldest others =
     (if \<not> IP_ADDRESSES_AND_ID_MATCH (rd_iphdr r) hdr then
        find_oldest hdr rs (k + 1)
          (case oldest of None \<Rightarrow> Some (k, rd_timer r) | Some (j, t) \<Rightarrow> if rd_timer r \<le> t then Some (k, rd_timer r) else Some (j, t))
          (others + 1)
      else find_oldest hdr rs (k + 1) oldest others)"

text \<open>Each round but the last frees a datagram, so the number of datagrams bounds the rounds.\<close>

fun remove_oldest_loop ::
    "tx_env \<Rightarrow> u8 list \<Rightarrow> nat \<Rightarrow> lwip \<Rightarrow> nat \<Rightarrow> nat \<Rightarrow> reass_state \<Rightarrow> tx_state \<Rightarrow> (nat \<times> reass_state \<times> tx_state) option" where
  "remove_oldest_loop E hdr pbufs_needed w 0 freed r s = None"
| "remove_oldest_loop E hdr pbufs_needed w (Suc fuel) freed r s =
     (let (oldest, other_datagrams) = find_oldest hdr (reassdatagrams r) 0 None 0
      in do {
        (freed, r, s) \<leftarrow> (case oldest of
            None \<Rightarrow> Some (freed, r, s)
          | Some k \<Rightarrow> map_option (\<lambda>(n, r, s). (freed + n, r, s)) (ip_reass_free_complete_datagram E k w r s));
        (if freed < pbufs_needed \<and> 1 < other_datagrams then remove_oldest_loop E hdr pbufs_needed w fuel freed r s
         else Some (freed, r, s)) })"

definition ip_reass_remove_oldest_datagram ::
    "tx_env \<Rightarrow> u8 list \<Rightarrow> nat \<Rightarrow> lwip \<Rightarrow> reass_state \<Rightarrow> tx_state \<Rightarrow> (nat \<times> reass_state \<times> tx_state) option" where
  "ip_reass_remove_oldest_datagram E hdr pbufs_needed w r s =
     remove_oldest_loop E hdr pbufs_needed w (length (reassdatagrams r) + 1) 0 r s"

text \<open>A new datagram at the front of the list; the first component says whether there was room.\<close>

definition ip_reass_enqueue_new_datagram ::
    "tx_env \<Rightarrow> u8 list \<Rightarrow> nat \<Rightarrow> lwip \<Rightarrow> reass_state \<Rightarrow> tx_state \<Rightarrow> (bool \<times> reass_state \<times> tx_state) option" where
  "ip_reass_enqueue_new_datagram E hdr clen w r s = do {
     (ok, r, s) \<leftarrow> (if length (reassdatagrams r) < MEMP_NUM_REASSDATA then Some (True, r, s)
        else map_option (\<lambda>(n, r, s). (clen \<le> n \<and> length (reassdatagrams r) < MEMP_NUM_REASSDATA, r, s))
          (ip_reass_remove_oldest_datagram E hdr clen w r s));
     let ipr = \<lparr>rd_frags = [], rd_iphdr = take IP_HLEN hdr, rd_datagram_len = 0, rd_last = False, rd_timer = IP_REASS_MAXAGE\<rparr>;
     Some (ok, if ok then r\<lparr>reassdatagrams := ipr # reassdatagrams r\<rparr> else r, s) }"

text \<open>Putting a fragment into the list, which is kept in the order of the offsets; \<open>None\<close> means it is
  dropped because it overlaps with another (that the helper already lies over its header then is not recorded). \<open>prev\<close> is the end of the fragment before, if there is one; the
  second component of the result says whether the fragments up to the new one have no hole.\<close>

fun insert_frag :: "frag \<Rightarrow> u16 option \<Rightarrow> frag list \<Rightarrow> bool \<Rightarrow> (frag list \<times> bool) option" where
  "insert_frag f prev [] valid = Some ([f], valid \<and> (case prev of Some e \<Rightarrow> e = fr_start f | None \<Rightarrow> True))"
| "insert_frag f prev (g # gs) valid =
     (if fr_start f < fr_start g then
        (case prev of
           Some e \<Rightarrow>
             if fr_start f < e \<or> fr_start g < fr_end f then None
             else Some (f # g # gs, valid \<and> e = fr_start f)
         | None \<Rightarrow> if fr_start g < fr_end f then None else Some (f # g # gs, valid))
      else if fr_start f = fr_start g then None
      else if fr_start f < fr_end g then None
      else map_option (\<lambda>(fs, v). (g # fs, v))
        (insert_frag f (Some (fr_end g)) gs (valid \<and> (case prev of Some e \<Rightarrow> e = fr_start g | None \<Rightarrow> True))))"

text \<open>No hole between a fragment that ends at \<open>e\<close> and those that follow.\<close>

fun no_holes :: "u16 \<Rightarrow> frag list \<Rightarrow> bool" where
  "no_holes e [] = True"
| "no_holes e (f # fs) = (e = fr_start f \<and> no_holes (fr_end f) fs)"

text \<open>The fragments behind the new one, which is known by its offset.\<close>

definition behind :: "frag \<Rightarrow> frag list \<Rightarrow> frag list" where
  "behind f fs = tl (dropWhile (\<lambda>g. fr_start g \<noteq> fr_start f) fs)"

datatype reass_valid = TelegramFinished | PbufQueued | PbufDropped

definition ip_reass_chain_frag_into_datagram_and_validate ::
    "reassdata \<Rightarrow> pbuf \<Rightarrow> bool \<Rightarrow> reass_valid \<times> reassdata" where
  "ip_reass_chain_frag_into_datagram_and_validate ipr new_p is_last =
     (let hdr = seg_data (p_head new_p);
          len = lwip_ntohs (IPH_LEN hdr);
          hlen = of_nat (IPH_HL_BYTES (hdr ! 0));
          offset = IPH_OFFSET_BYTES hdr;
          f = \<lparr>fr_pbuf = new_p, fr_start = offset, fr_end = offset + (len - hlen)\<rparr>
      in if len < hlen then (PbufDropped, ipr)
         else if fr_end f < offset then (PbufDropped, ipr)
         else case insert_frag f None (rd_frags ipr) True of
           None \<Rightarrow> (PbufDropped, ipr)
         | Some (fs, valid) \<Rightarrow>
             (if (is_last \<or> rd_last ipr) \<and> valid \<and> fr_start (hd fs) = 0 \<and> no_holes (fr_end f) (behind f fs)
              then TelegramFinished else PbufQueued, ipr\<lparr>rd_frags := fs\<rparr>))"

text \<open>The chain of a whole datagram: the header comes back in front of the first fragment, those of the
  others are hidden.\<close>

definition join_frags :: "reassdata \<Rightarrow> pbuf option" where
  "join_frags ipr =
     (case frag_pbufs (rd_frags ipr) of
        [] \<Rightarrow> None
      | p # ps \<Rightarrow>
          (let datagram_len = rd_datagram_len ipr + of_nat IP_HLEN;
               hdr = put_at 10 (store16 0) (put_at 6 (store16 0)
                 (put_at 2 (store16 (lwip_htons datagram_len)) (take IP_HLEN (rd_iphdr ipr))));
               hdr = put_at 10 (store16 (inet_chksum (seg_payload (p_head p)) hdr)) hdr;
               p = seg_write hdr p
           in Some (p\<lparr>p_next := p_next p @ concat (map (\<lambda>q. p_segs (snd (pbuf_remove_header q IP_HLEN))) ps)\<rparr>)))"

definition find_datagram :: "u8 list \<Rightarrow> reassdata list \<Rightarrow> nat option" where
  "find_datagram hdr rs = find (\<lambda>k. IP_ADDRESSES_AND_ID_MATCH (rd_iphdr (rs ! k)) hdr) [0..<length rs]"

definition drop_datagram :: "nat \<Rightarrow> reass_state \<Rightarrow> reass_state" where
  "drop_datagram k r = r\<lparr>reassdatagrams := take k (reassdatagrams r) @ drop (k + 1) (reassdatagrams r)\<rparr>"

text \<open>The fragment is taken in: number \<open>k\<close> of the list is its datagram.\<close>

definition reass_take :: "pbuf \<Rightarrow> nat \<Rightarrow> reass_state \<Rightarrow> tx_state \<Rightarrow> (pbuf option \<times> reass_state \<times> tx_state) option" where
  "reass_take p k r s =
     (let hdr = seg_data (p_head p);
          offset = IPH_OFFSET_BYTES hdr;
          len = lwip_ntohs (IPH_LEN hdr) - of_nat (IPH_HL_BYTES (hdr ! 0));
          clen = of_nat (pbuf_clen p);
          is_last = (IPH_OFFSET hdr AND lwip_ntohs IP_MF = 0);
          ipr = reassdatagrams r ! k;
          ipr = (if lwip_ntohs (IPH_OFFSET hdr) AND IP_OFFMASK = 0 \<and>
              lwip_ntohs (IPH_OFFSET (rd_iphdr ipr)) AND IP_OFFMASK \<noteq> 0
            then ipr\<lparr>rd_iphdr := take IP_HLEN hdr\<rparr> else ipr);
          r = r\<lparr>reassdatagrams := (reassdatagrams r)[k := ipr]\<rparr>;
          datagram_len = offset + len;
          (valid, ipr) = (if is_last \<and> (datagram_len < offset \<or> 0xFFFF - of_nat IP_HLEN < datagram_len) then (PbufDropped, ipr)
            else ip_reass_chain_frag_into_datagram_and_validate ipr p is_last)
      in if valid = PbufDropped then
           Some (None, if rd_frags ipr = [] then drop_datagram k r else r, pbuf_release p s)
         else (let ipr = (if is_last then ipr\<lparr>rd_datagram_len := datagram_len, rd_last := True\<rparr> else ipr);
                   r = r\<lparr>reassdatagrams := (reassdatagrams r)[k := ipr], ip_reass_pbufcount := ip_reass_pbufcount r + clen\<rparr>
               in if valid = TelegramFinished then
                    map_option (\<lambda>q. (Some q, (drop_datagram k r)\<lparr>ip_reass_pbufcount :=
                      ip_reass_pbufcount r - of_nat (pbuf_clen q)\<rparr>, s)) (join_frags ipr)
                  else Some (None, r, s)))"

definition ip4_reass ::
    "tx_env \<Rightarrow> pbuf \<Rightarrow> lwip \<Rightarrow> reass_state \<Rightarrow> tx_state \<Rightarrow> (pbuf option \<times> reass_state \<times> tx_state) option" where
  "ip4_reass E p w r s =
     (let hdr = seg_data (p_head p);
          len = lwip_ntohs (IPH_LEN hdr);
          clen = pbuf_clen p
      in if IPH_HL_BYTES (hdr ! 0) \<noteq> IP_HLEN then Some (None, r, pbuf_release p s)
         else if unat len < IPH_HL_BYTES (hdr ! 0) then Some (None, r, pbuf_release p s)
         else do {
           (room, r, s) \<leftarrow> (if IP_REASS_MAX_PBUFS < unat (ip_reass_pbufcount r) + clen then
               map_option (\<lambda>(n, r, s). (n \<noteq> 0 \<and> unat (ip_reass_pbufcount r) + clen \<le> IP_REASS_MAX_PBUFS, r, s))
                 (ip_reass_remove_oldest_datagram E hdr clen w r s)
             else Some (True, r, s));
           (if \<not> room then Some (None, r, pbuf_release p s)
            else case find_datagram hdr (reassdatagrams r) of
              Some k \<Rightarrow> reass_take p k r s
            | None \<Rightarrow> do {
                (ok, r, s) \<leftarrow> ip_reass_enqueue_new_datagram E hdr clen w r s;
                (if ok then reass_take p 0 r s else Some (None, r, pbuf_release p s)) }) })"

end
