(* ===== verification/LwipStack.thy ===== *)
theory LwipStack
  imports LwipReass
begin

text \<open>
  The stack of the REAR board as a whole: a received frame with all its consequences (the end of
  \<open>ip4_input\<close> and of \<open>ethernet_input\<close>, where reassembly, ICMP and ARP take over), the sending
  routine of the application, and the timer of the address table (Ifx\_Lwip.c).
\<close>

text \<open>The receiving half, the sending half, the incomplete datagrams. The pool is the one of the
  receiving half; it is lent to the others.\<close>

record stack =
  st_lw :: lwip
  st_tx :: tx_state
  st_re :: reass_state

definition tx_of :: "stack \<Rightarrow> tx_state" where
  "tx_of st = (st_tx st)\<lparr>tx_pool := lw_pool (st_lw st)\<rparr>"

definition put_tx :: "tx_state \<Rightarrow> stack \<Rightarrow> stack" where
  "put_tx s st = st\<lparr>st_tx := s, st_lw := (st_lw st)\<lparr>lw_pool := tx_pool s\<rparr>\<rparr>"

definition with_tx :: "(tx_state \<Rightarrow> tx_state option) \<Rightarrow> stack \<Rightarrow> stack option" where
  "with_tx f st = map_option (\<lambda>s. put_tx s st) (f (tx_of st))"

section \<open>Reception\<close>

text \<open>What is handed to code behind the stack: a datagram for a callback, or a TCP segment.\<close>

datatype handed = HandNothing | HandUdp udp_handler pbuf u32 u16 | HandTcp pbuf ip_current

text \<open>The IP header in front of the payload.\<close>

definition ip_header_before :: "pbuf \<Rightarrow> nat \<Rightarrow> u8 list" where
  "ip_header_before p n = (let front = seg_front (p_head p) in drop (length front - n) front)"

text \<open>A whole packet that is on its way.\<close>

definition ip_finish :: "tx_env \<Rightarrow> ip_fate \<Rightarrow> stack \<Rightarrow> (handed \<times> stack) option" where
  "ip_finish E fate st =
     (case fate of
        IpUdp (UdpDeliver pcb h p src port) \<Rightarrow> Some (HandUdp h p src port, st)
      | IpUdp (UdpUnreach p) \<Rightarrow>
          map_option (Pair HandNothing) (with_tx (icmp_dest_unreach E p ICMP_DUR_PORT (st_lw st)) st)
      | IpTcp p c \<Rightarrow> Some (HandTcp p c, st)
      | IpIcmp p c \<Rightarrow> map_option (Pair HandNothing) (with_tx (icmp_input E p c (ip_header_before p (cur_hlen c))) st)
      | IpProtoUnreach (Some p) \<Rightarrow>
          map_option (Pair HandNothing) (with_tx (icmp_dest_unreach E p ICMP_DUR_PROTO (st_lw st)) st)
      | _ \<Rightarrow> Some (HandNothing, st))"

text \<open>A fragment; the datagram that it completes goes on with the addresses of the fragment.\<close>

definition ip_fragment :: "tx_env \<Rightarrow> pbuf \<Rightarrow> netif \<Rightarrow> stack \<Rightarrow> (handed \<times> stack) option" where
  "ip_fragment E p inp st =
     (let hdr = seg_data (p_head p); src = IPH_SRC hdr; dest = IPH_DEST hdr in do {
        (r, re, s) \<leftarrow> ip4_reass E p (st_lw st) (st_re st) (tx_of st);
        let st = (put_tx s st)\<lparr>st_re := re\<rparr>;
        (case (r, ip4_match_netif dest inp (lw_netifs (st_lw st))) of
           (Some p, Some n) \<Rightarrow>
             (let (fate, lw) = ip4_deliver p IP_HLEN n inp src dest (st_lw st) in ip_finish E fate (st\<lparr>st_lw := lw\<rparr>))
         | _ \<Rightarrow> Some (HandNothing, st)) })"

definition eth_finish :: "tx_env \<Rightarrow> netif \<Rightarrow> eth_fate \<Rightarrow> stack \<Rightarrow> (handed \<times> stack) option" where
  "eth_finish E inp fate st =
     (case fate of
        EthDrop \<Rightarrow> Some (HandNothing, st)
      | EthArp p \<Rightarrow> map_option (Pair HandNothing) (with_tx (etharp_input E p inp) st)
      | EthIp (IpReass p) \<Rightarrow> ip_fragment E p inp st
      | EthIp fate \<Rightarrow> ip_finish E fate st)"

text \<open>\<open>Ifx_Lwip_pollReceiveFlags\<close>: one frame of the ring through the stack.\<close>

definition stack_receive :: "tx_env \<Rightarrow> rx_desc list \<Rightarrow> stack \<Rightarrow> (handed \<times> rx_desc list \<times> stack) option" where
  "stack_receive E ring st =
     (case lw_netifs (st_lw st) of
        [] \<Rightarrow> None
      | inp # _ \<Rightarrow> do {
          (fate, ring, lw) \<leftarrow> ifx_netif_input inp ring (st_lw st);
          let st = st\<lparr>st_lw := lw\<rparr>;
          (h, st) \<leftarrow> (case fate of Some fate \<Rightarrow> eth_finish E inp fate st | None \<Rightarrow> Some (HandNothing, st));
          Some (h, ring, st) })"

section \<open>Sending and time\<close>

definition stack_send ::
    "tx_env \<Rightarrow> upcb option \<Rightarrow> u32 option \<Rightarrow> u16 \<Rightarrow> u8 list option \<Rightarrow> stack \<Rightarrow> (lwip_err \<times> stack) option" where
  "stack_send E pcb dst_addr dst_port data st =
     map_option (\<lambda>(e, lw, s). (e, put_tx s (st\<lparr>st_lw := lw\<rparr>)))
       (UdpSend_stack E pcb dst_addr dst_port data (st_lw st) (tx_of st))"

text \<open>The part of \<open>Ifx_Lwip_pollTimerFlags\<close> for the address table, with the flags that were taken.\<close>

definition stack_timer :: "tx_env \<Rightarrow> u16 \<Rightarrow> stack \<Rightarrow> stack option" where
  "stack_timer E flags st =
     (case lw_netifs (st_lw st) of
        [] \<Rightarrow> None
      | n # _ \<Rightarrow>
          if flags AND IFX_LWIP_FLAG_ARP \<noteq> 0 \<and> has_flag n NETIF_FLAG_LINK_UP
          then with_tx (etharp_tmr E (lw_netifs (st_lw st))) st else Some st)"

definition stack_0 :: "lwip \<Rightarrow> stack" where
  "stack_0 w = \<lparr>st_lw = w, st_tx = tx_state_0 [], st_re = reass_0\<rparr>"

end
