(* ===== verification/LwipStack_Facts.thy ===== *)
theory LwipStack_Facts
  imports LwipArp_Facts LwipStack LwipAccept
begin

text \<open>
  What every way through the stack keeps. A property of the sending half that the elementary
  operations keep (getting and letting go of buffers, counting packets, handing a packet to
  \<open>etharp_output\<close>) is kept by fragmentation, UDP, ICMP and reassembly.
\<close>

declare frag_loop.simps [simp del]

text \<open>The interfaces of the stack, and that those of a run are among \<open>N\<close>, each number of \<open>N\<close> being still there.\<close>

definition links :: "lwip \<Rightarrow> link set" where "links w = link_of ` set (lw_netifs w)"

definition lw_ok :: "link set \<Rightarrow> lwip \<Rightarrow> bool" where
  "lw_ok N w \<longleftrightarrow> links w \<subseteq> N \<and> nif_num ` set (lw_netifs w) = fst ` N"

lemma lw_ok_links: "lw_ok (links w) w"
  by (simp add: lw_ok_def links_def image_image link_of_def)

lemma lw_ok_cong: "lw_netifs w' = lw_netifs w \<Longrightarrow> lw_ok N w' = lw_ok N w"
  by (simp add: lw_ok_def links_def)

lemma lw_ok_sub: "lw_ok N w \<Longrightarrow> links w \<subseteq> N"
  by (simp add: lw_ok_def)

lemma find_in: "find P xs = Some x \<Longrightarrow> x \<in> set xs"
  by (auto simp: find_Some_iff)

lemma route_in: "ip4_route dest w = Some n \<Longrightarrow> link_of n \<in> links w"
  by (auto simp: ip4_route_def default_netif_def links_def dest: find_in split: option.splits if_splits)

lemma by_index_in: "netif_get_by_index i w = Some n \<Longrightarrow> link_of n \<in> links w"
  by (auto simp: netif_get_by_index_def links_def dest: find_in split: if_splits)

lemma udp_route_in: "udp_route pcb dest w = Some n \<Longrightarrow> link_of n \<in> links w"
  by (auto simp: udp_route_def Let_def dest: by_index_in route_in split: if_splits option.splits)

locale tx_invariant =
  fixes I :: "tx_state \<Rightarrow> bool" and E :: tx_env and N :: "link set"
  assumes release: "I s \<Longrightarrow> I (pbuf_release p s)"
    and alloc: "I s \<Longrightarrow> I (snd (pbuf_alloc_ram E layer k s))"
    and ident: "I s \<Longrightarrow> I (s\<lparr>ip_id := ip_id s + 1\<rparr>)"
    and send: "I s \<Longrightarrow> link_of n \<in> N \<Longrightarrow> I (snd (etharp_output E n q ip s))"
begin

lemma alloc_case: "pbuf_alloc_ram E layer k s = (r, s') \<Longrightarrow> I s \<Longrightarrow> I s'"
  using alloc [of s layer k] by simp

lemma frag_keeps:
  assumes "link_of n \<in> N"
  shows "frag_loop E n dest hdr mf nfb left ofo qs poff s = Some (e, s') \<Longrightarrow> I s \<Longrightarrow> I s'"
proof (induction left arbitrary: ofo qs poff s rule: less_induct)
  case (less left)
  let ?m = "min left (nfb * 8 mod 2 ^ 16)"
  obtain r s1 where a: "pbuf_alloc_ram E PBUF_LINK IP_HLEN s = (r, s1)" by fastforce
  have s1: "I s1" by (rule alloc_case [OF a less.prems(2)])
  show ?case
  proof (cases "left = 0 \<or> r = None")
    case True
    with less.prems s1 a show ?thesis by (subst (asm) frag_loop.simps) (auto simp: Let_def split: if_splits)
  next
    case False
    then obtain b where b: "left \<noteq> 0" "r = Some b" by auto
    note simps = less.prems(1) [unfolded frag_loop.simps [of E n dest hdr mf nfb left] if_not_P [OF b(1)] Let_def a b(2)
        option.case prod.case]
    have m: "?m \<noteq> 0" "frag_refs qs poff ?m \<noteq> None"
      using simps by (auto split: if_splits option.splits)
    then obtain rs qs' poff' where f: "frag_refs qs poff ?m = Some (rs, qs', poff')" by (cases "frag_refs qs poff ?m") auto
    note simps' = simps [unfolded if_not_P [OF m(1)] f option.case prod.case]
    show ?thesis
    proof (cases "MEMP_NUM_FRAG_PBUF < length rs")
      case True
      with simps' release [OF s1] show ?thesis by auto
    next
      case fit: False
      have "I (pbuf_release q (snd (etharp_output E n q dest s1)))" for q
        by (rule release [OF send [OF s1 assms]])
      moreover have "left - ?m < left" using b(1) m(1) by simp
      ultimately show ?thesis using simps' fit less.IH by (auto simp: split_beta)
    qed
  qed
qed

lemma ip4_frag_keeps: "ip4_frag E p n dest s = Some (e, s') \<Longrightarrow> link_of n \<in> N \<Longrightarrow> I s \<Longrightarrow> I s'"
  using frag_keeps by (auto simp: ip4_frag_def Let_def split: if_splits)

lemma ip4_send_keeps: "ip4_send E p dest n s = Some (e, s') \<Longrightarrow> link_of n \<in> N \<Longrightarrow> I s \<Longrightarrow> I s'"
  using ip4_frag_keeps send [of s n p dest] by (auto simp: ip4_send_def split: if_splits)

lemma ip4_out_keeps:
  assumes "ip4_output_if_opt_src E p src dest ttl tos proto n opts s = Some (e, s')" "link_of n \<in> N" "I s"
  shows "I s'"
  using assms ip4_send_keeps [OF _ assms(2,3)] ip4_send_keeps [OF _ assms(2) ident [OF assms(3)]]
  by (auto simp: ip4_output_if_opt_src_def Let_def split_beta split: option.splits if_splits)

lemma ip4_output_if_keeps: "ip4_output_if E p src dest ttl tos proto n s = Some (e, s') \<Longrightarrow> link_of n \<in> N \<Longrightarrow> I s \<Longrightarrow> I s'"
  by (simp add: ip4_output_if_def ip4_output_if_opt_def Let_def ip4_out_keeps)

lemma room_keeps: "I s \<Longrightarrow> I (snd (udp_room E p s))"
  using alloc [of s PBUF_IP UDP_HLEN] by (auto simp: udp_room_def split_beta split: option.splits prod.splits)

lemma udp_if_src_keeps:
  assumes "udp_sendto_if_src E pcb p dst port n src w s = Some (e, w', s')" "link_of n \<in> N" "I s"
  shows "I s'"
proof -
  obtain r s1 where a: "udp_room E p s = (r, s1)" by fastforce
  then have "I s1" using room_keeps [OF assms(3), of p] by simp
  then show ?thesis using assms a ip4_out_keeps [OF _ assms(2)]
    by (auto simp: udp_sendto_if_src_def ip4_output_if_src_def Let_def split: if_splits prod.splits option.splits)
qed

lemma udp_sendto_keeps:
  assumes "udp_sendto E pcb p dst port w s = Some (e, w', s')" "links w \<subseteq> N" "I s"
  shows "I s'"
  using assms udp_if_src_keeps [OF _ _ assms(3)] udp_route_in [of pcb dst w]
  by (fastforce simp: udp_sendto_def udp_sendto_if_def split: option.splits if_splits)

lemma app_send_keeps:
  assumes "UdpSend_stack E pcb dst port data w s = Some (e, w', s')" "links w \<subseteq> N" "I s"
  shows "I s'"
proof (cases "pcb = None \<or> dst = None \<or> data = None \<or> data = Some []")
  case True
  then show ?thesis using assms by (auto simp: UdpSend_stack_def split: option.splits)
next
  case False
  then obtain c a d where h: "pcb = Some c" "dst = Some a" "data = Some d" "d \<noteq> []" by auto
  obtain r s1 where al: "pbuf_alloc_ram E PBUF_TRANSPORT (length d) s = (r, s1)" by fastforce
  note s1 = alloc_case [OF al assms(3)]
  show ?thesis using assms(1) h al s1 udp_sendto_keeps [OF _ assms(2) s1]
    by (auto simp: UdpSend_stack_def Let_def intro!: release split: option.splits)
qed

lemma fold_release: "I s \<Longrightarrow> I (fold pbuf_release ps s)"
  by (induction ps arbitrary: s) (simp_all add: release)

lemma response_keeps:
  assumes "icmp_send_response E p type code w s = Some s'" "links w \<subseteq> N" "I s"
  shows "I s'"
proof -
  obtain r s1 where al: "pbuf_alloc_ram E PBUF_IP (ICMP_HLEN + IP_HLEN + ICMP_DEST_UNREACH_DATASIZE) s = (r, s1)" by fastforce
  note s1 = alloc_case [OF al assms(3)]
  show ?thesis using assms(1,2) al s1 ip4_output_if_keeps [OF _ _ s1] route_in [of _ w]
    by (fastforce simp: icmp_send_response_def Let_def intro!: release split: option.splits if_splits)
qed

lemma echo_room_keeps: "icmp_room E p hlen h s = (r, s') \<Longrightarrow> I s \<Longrightarrow> I s'"
  using alloc [of s PBUF_LINK "p_tot_len p + hlen"]
  by (auto simp: icmp_room_def Let_def split_beta intro!: release split: if_splits option.splits prod.splits)

lemma free_rx_keeps: "I s \<Longrightarrow> I (pbuf_free_rx p s)"
  by (simp add: pbuf_free_rx_def release)

lemma icmp_input_keeps:
  assumes "icmp_input E p c h s = Some s'" "link_of (cur_inp c) \<in> N" "I s"
  shows "I s'"
proof -
  have "I s'" if e: "icmp_echo E p c h s = Some s'"
  proof -
    obtain r s1 where a: "icmp_room E p (IPH_HL_BYTES (h ! 0)) h s = (r, s1)" by fastforce
    note s1 = echo_room_keeps [OF a assms(3)]
    show ?thesis using e a s1 release [OF assms(3)] release [OF s1] ip4_output_if_keeps [OF _ assms(2) s1]
      by (auto simp: icmp_echo_def Let_def split_beta intro!: free_rx_keeps split: if_splits option.splits)
  qed
  then show ?thesis using assms release [OF assms(3)] by (auto simp: icmp_input_def split: if_splits)
qed

lemma free_datagram_keeps:
  assumes "ip_reass_free_complete_datagram E k w r s = Some (n, r', s')" "links w \<subseteq> N" "I s"
  shows "I s'"
  using assms response_keeps [OF _ assms(2,3)]
  by (auto simp: ip_reass_free_complete_datagram_def Let_def icmp_time_exceeded_def intro!: fold_release release
      split: list.splits if_splits bind_splits)

lemma remove_oldest_keeps:
  "remove_oldest_loop E hdr need w fuel freed r s = Some (n, r', s') \<Longrightarrow> links w \<subseteq> N \<Longrightarrow> I s \<Longrightarrow> I s'"
proof (induction fuel arbitrary: freed r s)
  case (Suc fuel)
  note free = free_datagram_keeps [OF _ Suc.prems(2,3)]
  show ?case using Suc.prems(1,3) Suc.IH [OF _ Suc.prems(2)] free
    by (auto simp: Let_def split_beta bind_eq_Some_conv split: option.splits if_splits)
qed simp

lemma reass_take_keeps: "reass_take p k r s = Some (q, r', s') \<Longrightarrow> I s \<Longrightarrow> I s'"
  by (auto simp: reass_take_def Let_def split_beta intro!: release split: if_splits)

lemma ip4_reass_keeps:
  assumes "ip4_reass E p w r s = Some (q, r', s')" "links w \<subseteq> N" "I s"
  shows "I s'"
proof -
  have rm: "I s2" if "ip_reass_remove_oldest_datagram E hdr need w r1 s1 = Some (n, r2, s2)" "I s1" for hdr need r1 s1 n r2 s2
    using remove_oldest_keeps [OF that(1) [unfolded ip_reass_remove_oldest_datagram_def] assms(2) that(2)] .
  have en: "I s2" if "ip_reass_enqueue_new_datagram E hdr cl w r1 s1 = Some (ok, r2, s2)" "I s1" for hdr cl r1 s1 ok r2 s2
    using that rm by (auto simp: ip_reass_enqueue_new_datagram_def Let_def bind_eq_Some_conv split: if_splits)
  show ?thesis using assms rm en reass_take_keeps
    by (auto simp: ip4_reass_def Let_def bind_eq_Some_conv intro!: release split: if_splits option.splits)
qed

lemma ip_reass_tmr_keeps: "reass_tmr_loop E w n k r s = Some (r', s') \<Longrightarrow> links w \<subseteq> N \<Longrightarrow> I s \<Longrightarrow> I s'"
proof (induction n arbitrary: k r s)
  case (Suc n)
  then show ?case using free_datagram_keeps by (auto simp: Let_def bind_eq_Some_conv split: if_splits)
qed simp

end

section \<open>The stack\<close>

lemma same_link: "same_nif n n' \<Longrightarrow> link_of n' = link_of n"
proof -
  assume "same_nif n n'"
  note f = same_nif_fields [OF this]
  have "ip4_addr_isbroadcast_u32 a n' = ip4_addr_isbroadcast_u32 a n" for a
    using f by (simp add: ip4_addr_isbroadcast_u32_def has_flag_def)
  with f show ?thesis by (simp add: link_of_def)
qed

lemma set_netif_ok:
  assumes "lw_ok N w" "link_of n \<in> N" "lw_netifs w' = set_netif n (lw_netifs w)"
  shows "lw_ok N w'"
proof -
  have "map nif_num (lw_netifs w') = map nif_num (lw_netifs w)" by (simp add: set_netif_def assms(3))
  then have "nif_num ` set (lw_netifs w') = nif_num ` set (lw_netifs w)" by (metis set_map)
  moreover have "links w' \<subseteq> links w \<union> {link_of n}" by (auto simp: set_netif_def links_def assms(3))
  ultimately show ?thesis using assms(1,2) by (auto simp: lw_ok_def)
qed

text \<open>A received packet leaves the interfaces as they are, or changes the groups of one.\<close>

definition nets_step :: "netif \<Rightarrow> lwip \<Rightarrow> lwip \<Rightarrow> bool" where
  "nets_step inp s s' \<longleftrightarrow> lw_netifs s' = lw_netifs s \<or> (\<exists>n. same_nif inp n \<and> lw_netifs s' = set_netif n (lw_netifs s))"

lemma nets_step_frame [simp]:
  "nets_step inp (s\<lparr>lw_pool := p\<rparr>) s' = nets_step inp s s'" "nets_step inp s (s'\<lparr>lw_pool := p\<rparr>) = nets_step inp s s'"
  "nets_step inp (s\<lparr>lw_udp := u\<rparr>) s' = nets_step inp s s'" "nets_step inp s (s'\<lparr>lw_udp := u\<rparr>) = nets_step inp s s'"
  "nets_step inp s s"
  by (simp_all add: nets_step_def)

lemma nets_step_ok:
  assumes "nets_step inp s s'" "lw_ok N s" "link_of inp \<in> N"
  shows "lw_ok N s'"
  using assms(1) unfolding nets_step_def
proof
  assume "\<exists>n. same_nif inp n \<and> lw_netifs s' = set_netif n (lw_netifs s)"
  then obtain n where "link_of n = link_of inp" "lw_netifs s' = set_netif n (lw_netifs s)" using same_link by blast
  with assms(3) show ?thesis using set_netif_ok [OF assms(2), of n s'] by simp
qed (use lw_ok_cong assms(2) in blast)

lemma deliver_links:
  assumes "ip4_deliver p h n inp src dest s = (fate, s')"
  shows "nets_step inp s s'" "fate = IpIcmp q c \<Longrightarrow> cur_inp c = inp" "fate \<noteq> IpReass q"
proof -
  have "same_nif inp (fst (igmp_input q inp dest pool))" for q pool by (rule igmp_input_same)
  then have g: "nets_step inp s (s\<lparr>lw_netifs := set_netif (fst (igmp_input q inp dest pool)) (lw_netifs s), lw_pool := ps\<rparr>)" for q pool ps
    unfolding nets_step_def by (intro disjI2 exI conjI) simp_all
  show "nets_step inp s s'"
    using assms g by (auto simp: ip4_deliver_def Let_def split_beta split: if_splits)
  show "fate = IpIcmp q c \<Longrightarrow> cur_inp c = inp" "fate \<noteq> IpReass q"
    using assms by (auto simp: ip4_deliver_def Let_def split_beta split: if_splits)
qed

lemma deliver_later: "ip4_deliver p h n inp src dest (s\<lparr>lw_pool := q\<rparr>) = (fate, s') \<Longrightarrow> nets_step inp s s'"
  by (drule deliver_links(1)) simp

lemma ip4_input_links:
  assumes "ip4_input p inp s = Some (fate, s')"
  shows "nets_step inp s s'" "fate = IpIcmp q c \<Longrightarrow> cur_inp c = inp"
proof -
  show "nets_step inp s s'"
    using assms by (auto simp: ip4_input_def Let_def ip4_drop_def split_beta dest: deliver_later deliver_links(1) split: if_splits option.splits)
  show "fate = IpIcmp q c \<Longrightarrow> cur_inp c = inp"
    using assms deliver_links(2) by (auto simp: ip4_input_def Let_def ip4_drop_def split_beta split: if_splits option.splits)
qed

lemma ethernet_input_links:
  assumes "ethernet_input p inp s = Some (fate, s')"
  shows "nets_step inp s s'" "fate = EthIp (IpIcmp q c) \<Longrightarrow> cur_inp c = inp"
  using assms ip4_input_links by (auto simp: ethernet_input_def Let_def eth_drop_def split_beta split: if_splits)

lemma ethernet_later: "ethernet_input p inp (s\<lparr>lw_pool := q\<rparr>) = Some (fate, s') \<Longrightarrow> nets_step inp s s'"
  by (drule ethernet_input_links(1)) simp

lemma netif_input_links:
  assumes "ifx_netif_input inp ring s = Some (fate, ring', s')"
  shows "nets_step inp s s'" "fate = Some (EthIp (IpIcmp q c)) \<Longrightarrow> cur_inp c = inp"
proof -
  show "nets_step inp s s'"
    using assms
    by (auto simp: ifx_netif_input_def Let_def bind_eq_Some_conv dest: ethernet_later ethernet_input_links(1) split: if_splits option.splits)
  show "fate = Some (EthIp (IpIcmp q c)) \<Longrightarrow> cur_inp c = inp"
    using assms ethernet_input_links(2)
    by (auto simp: ifx_netif_input_def Let_def bind_eq_Some_conv split: if_splits option.splits)
qed

lemma udp_sendto_links: "udp_sendto E pcb p dst port w s = Some (e, w', s') \<Longrightarrow> lw_netifs w' = lw_netifs w"
  by (auto simp: udp_sendto_def udp_sendto_if_def udp_sendto_if_src_def Let_def split_beta
      split: option.splits if_splits prod.splits)

lemma app_send_links: "UdpSend_stack E pcb dst port data w s = Some (e, w', s') \<Longrightarrow> lw_netifs w' = lw_netifs w"
  using udp_sendto_links by (auto simp: UdpSend_stack_def Let_def split: option.splits if_splits prod.splits)

lemma put_tx_fields [simp]: "st_tx (put_tx s st) = s" "lw_ok N (st_lw (put_tx s st)) = lw_ok N (st_lw st)"
  "lw_netifs (st_lw (put_tx s st)) = lw_netifs (st_lw st)" "st_re (put_tx s st) = st_re st"
  by (simp_all add: put_tx_def lw_ok_def links_def)

text \<open>The same for a whole stack, whose pool is lent: \<open>I\<close> must not depend on the pool.\<close>

locale stack_invariant = tx_invariant +
  assumes pool: "I (s\<lparr>tx_pool := ps\<rparr>) = I s"
    and arp: "I s \<Longrightarrow> link_of n \<in> N \<Longrightarrow> etharp_input E p n s = Some s' \<Longrightarrow> I s'"
    and tick: "I s \<Longrightarrow> etharp_tmr E netifs s = Some s' \<Longrightarrow> nif_num ` set netifs = fst ` N \<Longrightarrow> I s'"
begin

lemma tx_of_I: "I (tx_of st) = I (st_tx st)"
  by (simp add: tx_of_def pool)

lemma with_tx_keeps:
  assumes "with_tx f st = Some st'" "I (st_tx st)" "\<And>s s'. f s = Some s' \<Longrightarrow> I s \<Longrightarrow> I s'"
  shows "I (st_tx st') \<and> lw_ok N (st_lw st') = lw_ok N (st_lw st)"
  using assms(1,2) assms(3) [of "tx_of st"] by (auto simp: with_tx_def tx_of_I)

lemma finish_keeps:
  assumes "ip_finish E fate st = Some (h, st')" "I (st_tx st)" "lw_ok N (st_lw st)"
    "\<And>p c. fate = IpIcmp p c \<Longrightarrow> link_of (cur_inp c) \<in> N"
  shows "I (st_tx st') \<and> lw_ok N (st_lw st')"
proof -
  have u: "I (st_tx st') \<and> lw_ok N (st_lw st')"
    if "with_tx (icmp_dest_unreach E p t (st_lw st)) st = Some st'" for p t
    using with_tx_keeps [OF that assms(2)] response_keeps lw_ok_sub [OF assms(3)] by (simp add: icmp_dest_unreach_def assms(3))
  have i: "I (st_tx st') \<and> lw_ok N (st_lw st')"
    if "with_tx (icmp_input E p c hdr) st = Some st'" "fate = IpIcmp p c" for p c hdr
    using with_tx_keeps [OF that(1) assms(2)] icmp_input_keeps [OF _ assms(4) [OF that(2)]] assms(3) by simp
  show ?thesis using assms(1-3) u i
    by (auto simp: ip_finish_def split: ip_fate.splits udp_fate.splits option.splits)
qed

lemma fragment_keeps:
  assumes "ip_fragment E p inp st = Some (h, st')" "I (st_tx st)" "lw_ok N (st_lw st)" "link_of inp \<in> N"
  shows "I (st_tx st') \<and> lw_ok N (st_lw st')"
proof -
  let ?hdr = "seg_data (p_head p)"
  obtain r re s where r: "ip4_reass E p (st_lw st) (st_re st) (tx_of st) = Some (r, re, s)"
    using assms(1) by (auto simp: ip_fragment_def Let_def bind_eq_Some_conv)
  have s: "I s" using ip4_reass_keeps [OF r] assms(2) lw_ok_sub [OF assms(3)] by (simp add: tx_of_I)
  let ?st = "(put_tx s st)\<lparr>st_re := re\<rparr>"
  have st: "I (st_tx ?st)" "lw_ok N (st_lw ?st)" using s assms(3) by simp_all
  show ?thesis
  proof (cases "r = None \<or> ip4_match_netif (IPH_DEST ?hdr) inp (lw_netifs (st_lw ?st)) = None")
    case True
    with assms(1) r st show ?thesis by (auto simp: ip_fragment_def Let_def split: option.splits)
  next
    case False
    then obtain q n where q: "r = Some q" "ip4_match_netif (IPH_DEST ?hdr) inp (lw_netifs (st_lw ?st)) = Some n" by auto
    obtain fate lw where d: "ip4_deliver q IP_HLEN n inp (IPH_SRC ?hdr) (IPH_DEST ?hdr) (st_lw ?st) = (fate, lw)" by fastforce
    have f: "ip_finish E fate (?st\<lparr>st_lw := lw\<rparr>) = Some (h, st')"
      using assms(1) r q d by (simp add: ip_fragment_def Let_def)
    show ?thesis by (rule finish_keeps [OF f]) (use st nets_step_ok [OF deliver_links(1) [OF d] st(2) assms(4)] deliver_links(2) [OF d] assms(4) in simp_all)
  qed
qed

lemma receive_keeps:
  assumes "stack_receive E ring st = Some (h, ring', st')" "I (st_tx st)" "lw_ok N (st_lw st)"
  shows "I (st_tx st') \<and> lw_ok N (st_lw st')"
proof -
  obtain inp rest where n: "lw_netifs (st_lw st) = inp # rest"
    using assms(1) by (auto simp: stack_receive_def split: list.splits)
  then have inp: "link_of inp \<in> N" using assms(3) by (auto simp: lw_ok_def links_def)
  obtain fate r1 lw where i: "ifx_netif_input inp ring (st_lw st) = Some (fate, r1, lw)"
    using assms(1) n by (auto simp: stack_receive_def bind_eq_Some_conv)
  let ?st = "st\<lparr>st_lw := lw\<rparr>"
  have st: "I (st_tx ?st)" "lw_ok N (st_lw ?st)" using assms(2) nets_step_ok [OF netif_input_links(1) [OF i] assms(3) inp] by simp_all
  have e: "(case fate of Some fate \<Rightarrow> eth_finish E inp fate ?st | None \<Rightarrow> Some (HandNothing, ?st)) = Some (h, st')"
    using assms(1) n i by (auto simp: stack_receive_def Let_def bind_eq_Some_conv)
  have arp': "I (st_tx st'') \<and> lw_ok N (st_lw st'')" if "with_tx (etharp_input E p inp) ?st = Some st''" for p st''
    using with_tx_keeps [OF that st(1)] arp [OF _ inp] st(2) by simp
  have fin: "I (st_tx st') \<and> lw_ok N (st_lw st')" if "fate = Some (EthIp f)" "ip_finish E f ?st = Some (h, st')" for f
    by (rule finish_keeps [OF that(2) st]) (use netif_input_links(2) [OF i] that(1) inp in auto)
  show ?thesis using e st arp' fin fragment_keeps [OF _ st inp]
    by (auto simp: eth_finish_def split: option.splits eth_fate.splits ip_fate.splits)
qed

lemma send_keeps:
  assumes "stack_send E pcb dst port data st = Some (e, st')" "I (st_tx st)" "lw_ok N (st_lw st)"
  shows "I (st_tx st') \<and> lw_ok N (st_lw st')"
proof -
  have l: "lw_ok N w" if "lw_netifs w = lw_netifs (st_lw st)" for w using lw_ok_cong [OF that] assms(3) by simp
  show ?thesis
    using assms(1,2) app_send_keeps [of pcb dst port data "st_lw st" "tx_of st"] app_send_links [of E pcb dst port data "st_lw st" "tx_of st"]
      lw_ok_sub [OF assms(3)] l by (auto simp: stack_send_def tx_of_I)
qed

lemma timer_keeps:
  assumes "stack_timer E flags st = Some st'" "I (st_tx st)" "lw_ok N (st_lw st)"
  shows "I (st_tx st') \<and> lw_ok N (st_lw st')"
  using assms with_tx_keeps [OF _ assms(2)] tick
  by (auto simp: stack_timer_def lw_ok_def split: list.splits if_splits)

end

text \<open>The runs of the stack: frames come in, the application sends, time passes.\<close>

inductive stack_reach :: "tx_env \<Rightarrow> stack \<Rightarrow> stack \<Rightarrow> bool" for E st0 where
  start: "stack_reach E st0 st0"
| receive: "stack_reach E st0 st \<Longrightarrow> stack_receive E ring st = Some (h, ring', st') \<Longrightarrow> stack_reach E st0 st'"
| send: "stack_reach E st0 st \<Longrightarrow> stack_send E pcb dst port data st = Some (e, st') \<Longrightarrow> stack_reach E st0 st'"
| timer: "stack_reach E st0 st \<Longrightarrow> stack_timer E flags st = Some st' \<Longrightarrow> stack_reach E st0 st'"

context stack_invariant
begin

lemma reach_keeps: "stack_reach E st0 st \<Longrightarrow> I (st_tx st0) \<Longrightarrow> lw_ok N (st_lw st0) \<Longrightarrow> I (st_tx st) \<and> lw_ok N (st_lw st)"
  by (induction rule: stack_reach.induct) (use receive_keeps send_keeps timer_keeps in blast)+

end

section \<open>The invariants\<close>

interpretation arp_inv: stack_invariant "arp_ok N" E N for E N
proof
  fix s ip n netifs s' p
  show "arp_ok N (snd (pbuf_alloc_ram E layer k s))" if "arp_ok N s" for layer k
    using that alloc_frame [of E layer k s "fst (pbuf_alloc_ram E layer k s)" "snd (pbuf_alloc_ram E layer k s)"]
      arp_ok_cong [of "snd (pbuf_alloc_ram E layer k s)" s] by simp
  show "arp_ok N s'" if "arp_ok N s" "etharp_tmr E netifs s = Some s'" "nif_num ` set netifs = fst ` N"
    using tmr_ok [OF that(1), of netifs E] that(2,3) by auto
qed (auto simp: output_arp_ok input_arp_ok)

end
