(* ===== verification/LwipSend_Facts.thy ===== *)
theory LwipSend_Facts
  imports LwipArp_Facts LwipOutput LwipFrames
begin

text \<open>
  What goes out: the frame that \<open>link_output\<close> makes of a packet, the buffers of the heap, the
  checksums of the headers.
\<close>

section \<open>Frames\<close>

definition eth_frame :: "u8 list \<Rightarrow> u8 list \<Rightarrow> u16 \<Rightarrow> u8 list \<Rightarrow> u8 list" where
  "eth_frame dst src ethtype bytes = dst @ src @ [ucast (drop_bit 8 ethtype), ucast ethtype] @ bytes"

lemma store16_htons: "store16 (lwip_htons t) = [ucast (drop_bit 8 t), ucast t]"
proof -
  have m: "(0x00ff :: u16) = mask 8" "(0xff00 :: u16) = push_bit 8 (mask 8)"
    by (simp_all add: mask_eq_exp_minus_1 push_bit_eq_mult)
  have "ucast (lwip_htons t) = (ucast (drop_bit 8 t) :: u8)"
    unfolding lwip_htons_def m by (rule bit_word_eqI) (auto simp: bit_simps)
  moreover have "ucast (drop_bit 8 (lwip_htons t)) = (ucast t :: u8)"
    unfolding lwip_htons_def m by (rule bit_word_eqI) (auto simp: bit_simps)
  ultimately show ?thesis by (simp add: store16_def)
qed

lemma length_store [simp]: "length (store16 x) = 2" "length (store32 y) = 4"
  by (simp_all add: store16_def store32_def)

text \<open>A packet with room for the Ethernet header in front of it.\<close>

definition sendable :: "pbuf \<Rightarrow> bool" where
  "sendable p \<longleftrightarrow> contiguous (seg_type (p_head p)) \<and> 16 \<le> length (seg_front (p_head p)) \<and> p_tot_len p + 16 < 65536"

lemma p_bytes_segs: "p_bytes p = seg_data (p_head p) @ concat (map seg_data (p_next p))"
  by (simp add: p_bytes_def p_payloads_def p_segs_def)

lemma link_output_ok:
  assumes "sendable p" "length src = 6" "length dst = 6"
  shows "link_output E p src dst t s = (LwOk, s\<lparr>tx_trace := SentFrame (eth_frame dst src t (p_bytes p)) # tx_trace s\<rparr>)"
proof -
  let ?h = "p_head p"
  have c: "seg_type ?h = PBUF_RAM \<or> seg_type ?h = PBUF_POOL" and f: "16 \<le> length (seg_front ?h)"
    using assms(1) by (auto simp: sendable_def contiguous_def)
  have add: "pbuf_add_header p SIZEOF_ETH_HDR = (0, p\<lparr>p_head := seg_add 16 ?h\<rparr>)"
    using assms(1) by (simp add: pbuf_add_header_def pbuf_add_header_impl_def sendable_def SIZEOF_ETH_HDR_def ETH_PAD_SIZE_def)
  define k where "k = length (seg_front ?h) - 16"
  have d: "seg_data (seg_add 16 ?h) = drop k (seg_front ?h) @ seg_data ?h" by (simp add: seg_add_def k_def Let_def)
  have lk: "length (drop k (seg_front ?h)) = 16" using f by (simp add: k_def)
  have put: "put_eth_hdr src dst t (drop k (seg_front ?h) @ seg_data ?h) =
      take 2 (drop k (seg_front ?h)) @ dst @ src @ store16 (lwip_htons t) @ seg_data ?h"
    using lk assms(2,3) by (simp add: put_eth_hdr_def ETH_PAD_SIZE_def ETH_HWADDR_LEN_def SIZEOF_ETH_HDR_def)
  define q where "q = p\<lparr>p_head := (seg_add 16 ?h)\<lparr>seg_data := take 2 (drop k (seg_front ?h)) @ dst @ src @ store16 (lwip_htons t) @ seg_data ?h\<rparr>\<rparr>"
  have out: "ethernet_output p src dst t = Some q"
    by (simp add: ethernet_output_def add Let_def d put q_def)
  let ?r = "q\<lparr>p_head := seg_remove 2 (p_head q)\<rparr>"
  have rm: "pbuf_header q (- int ETH_PAD_SIZE) = (0, ?r)"
    using lk by (simp add: pbuf_header_def pbuf_header_impl_def ETH_PAD_SIZE_def pbuf_remove_header_def p_len_def seg_len_def q_def)
  have ty: "seg_type (seg_remove 2 (p_head q)) = seg_type ?h" by (simp add: q_def seg_remove_def seg_add_def Let_def)
  have "p_bytes ?r = eth_frame dst src t (p_bytes p)"
    using lk by (simp add: p_bytes_segs q_def seg_remove_def eth_frame_def store16_htons)
  then have "fst (low_level_output q b) = eth_frame dst src t (p_bytes p)" for b
    using c by (auto simp: low_level_output_def rm Let_def ty split_beta)
  then show ?thesis by (simp add: link_output_def out split_beta Let_def)
qed

section \<open>Buffers of the heap\<close>

text \<open>\<open>mem_malloc\<close> gives blocks of the length asked for; it may run out, or never do so.\<close>

definition heap_ok :: "tx_env \<Rightarrow> bool" where
  "heap_ok E \<longleftrightarrow> (\<forall>w n a m. heap E w n = Some (a, m) \<longrightarrow> length m = n - SIZEOF_STRUCT_PBUF)"

definition heap_never_full :: "tx_env \<Rightarrow> bool" where
  "heap_never_full E \<longleftrightarrow> (\<forall>w n. heap E w n \<noteq> None)"

definition align4 :: "nat \<Rightarrow> nat" where "align4 n = (n + 3) div 4 * 4"

lemma align_size: "LWIP_MEM_ALIGN_SIZE n = align4 n"
  by (simp add: LWIP_MEM_ALIGN_SIZE_def align4_def MEM_ALIGNMENT_def)

lemma align4_bounds: "n \<le> align4 n" "align4 n \<le> n + 3"
  by (simp_all add: align4_def)

lemma layer_values: "align4 (layer_offset PBUF_LINK) = 16" "align4 (layer_offset PBUF_IP) = 36" "align4 (layer_offset PBUF_TRANSPORT) = 56"
  by (simp_all add: align4_def PBUF_LINK_ENCAPSULATION_HLEN_def PBUF_LINK_HLEN_def ETH_PAD_SIZE_def PBUF_IP_HLEN_def PBUF_TRANSPORT_HLEN_def)

text \<open>A fresh buffer: one segment with the room of its layer in front.\<close>

definition fresh_ram :: "nat \<Rightarrow> nat \<Rightarrow> pbuf \<Rightarrow> bool" where
  "fresh_ram room n p \<longleftrightarrow> p_next p = [] \<and> seg_type (p_head p) = PBUF_RAM \<and> length (seg_front (p_head p)) = room \<and>
     length (seg_data (p_head p)) = n \<and> p_flags p = 0"

lemma alloc_ram_ok:
  assumes "heap_ok E" "heap_never_full E" "n \<le> 65000" "align4 (layer_offset layer) \<le> 100"
  obtains p where "pbuf_alloc_ram E layer n s = (Some p, s)" "fresh_ram (align4 (layer_offset layer)) n p"
proof -
  let ?st = "align4 (layer_offset layer)"
  note b = align4_bounds [of n]
  have m: "(?st + align4 n) mod 65536 = ?st + align4 n" "(16 + (?st + align4 n)) mod 65536 = 16 + (?st + align4 n)"
    using b assms(3,4) by simp_all
  obtain a mm where h: "heap E (tx_trace s) (16 + (?st + align4 n)) = Some (a, mm)"
    using assms(2) by (fastforce simp: heap_never_full_def)
  then have l: "length mm = ?st + align4 n" using assms(1) by (fastforce simp: heap_ok_def SIZEOF_STRUCT_PBUF_def)
  show thesis
    by (rule that [of "\<lparr>p_head = \<lparr>seg_type = PBUF_RAM, seg_addr = a, seg_front = take ?st mm,
                seg_data = take n (drop ?st mm), seg_tail = drop (?st + n) mm\<rparr>, p_next = [], p_flags = 0, p_if_idx = 0\<rparr>"])
      (use h l b m in \<open>simp_all add: pbuf_alloc_ram_def Let_def align_size SIZEOF_STRUCT_PBUF_def fresh_ram_def\<close>)
qed

section \<open>ARP packets\<close>

definition request_frame :: "netif \<Rightarrow> u32 \<Rightarrow> u8 list" where
  "request_frame n ip =
     eth_frame ethbroadcast (nif_hwaddr n) ETHTYPE_ARP (etharp_hdr (nif_hwaddr n) (nif_ip n) ethzero ip ARP_REQUEST)"

lemma length_etharp_hdr: "length a = 6 \<Longrightarrow> length b = 6 \<Longrightarrow> length (etharp_hdr a i b j opc) = 28"
  by (simp add: etharp_hdr_def ETH_HWADDR_LEN_def)

lemma fresh_sendable: "fresh_ram room n p \<Longrightarrow> 16 \<le> room \<Longrightarrow> n < 65000 \<Longrightarrow> sendable p"
  by (simp add: fresh_ram_def sendable_def contiguous_def p_tot_len_def p_segs_def seg_len_def)

lemma release_ram: "\<forall>q \<in> set (p_segs p). seg_type q \<noteq> PBUF_POOL \<Longrightarrow> pbuf_release p s = s"
  by (simp add: pbuf_release_def from_pool_def)

lemma etharp_raw_ok:
  assumes "heap_ok E" "heap_never_full E" "length es = 6" "length ed = 6" "length a = 6" "length b = 6"
  shows "etharp_raw E es ed a i b j opc s =
    (LwOk, s\<lparr>tx_trace := SentFrame (eth_frame ed es ETHTYPE_ARP (etharp_hdr a i b j opc)) # tx_trace s\<rparr>)"
proof -
  obtain p where p: "pbuf_alloc_ram E PBUF_LINK SIZEOF_ETHARP_HDR s = (Some p, s)" "fresh_ram 16 SIZEOF_ETHARP_HDR p"
    using alloc_ram_ok [OF assms(1,2), of SIZEOF_ETHARP_HDR PBUF_LINK s] by (auto simp: layer_values SIZEOF_ETHARP_HDR_def simp del: layer_offset.simps)
  let ?h = "etharp_hdr a i b j opc"
  let ?q = "p\<lparr>p_head := (p_head p)\<lparr>seg_data := ?h\<rparr>\<rparr>"
  have q: "fresh_ram 16 28 ?q" using p(2) length_etharp_hdr [OF assms(5,6)] by (simp add: fresh_ram_def)
  have b: "p_bytes ?q = ?h" using p(2) by (simp add: p_bytes_segs fresh_ram_def)
  have "pbuf_release ?q t = t" for t by (rule release_ram) (use p(2) in \<open>simp add: fresh_ram_def p_segs_def\<close>)
  then show ?thesis
    using link_output_ok [OF fresh_sendable [OF q] assms(3,4)] p(1) b by (simp add: etharp_raw_def Let_def)
qed

lemma etharp_request_ok:
  assumes "heap_ok E" "heap_never_full E" "length (nif_hwaddr n) = 6"
  shows "etharp_request E n ip s = (LwOk, s\<lparr>tx_trace := SentFrame (request_frame n ip) # tx_trace s\<rparr>)"
  using assms by (simp add: etharp_request_def etharp_request_dst_def etharp_raw_ok ethbroadcast_def ethzero_def request_frame_def)

text \<open>The fields as the receiver reads them.\<close>

lemma load_store16: "load16 (ucast x) (ucast (drop_bit 8 x)) = x"
  unfolding load16_def by (rule bit_word_eqI) (auto simp: bit_simps not_less)

lemma load_store32: "load32 (ucast x) (ucast (drop_bit 8 x)) (ucast (drop_bit 16 x)) (ucast (drop_bit 24 x)) = x"
  by (rule bit_word_eqI) (auto simp: bit_load32 bit_simps not_less)

lemma at16_store: "length a = k \<Longrightarrow> at16 (a @ store16 x @ b) k = x"
  by (simp add: at16_def store16_def nth_append load_store16)

lemma at32_store: "length a = k \<Longrightarrow> at32 (a @ store32 x @ b) k = x"
  by (simp add: at32_def store32_def nth_append load_store32)

lemma etharp_hdr_fields:
  assumes "length a = 6" "length b = 6" "h = etharp_hdr a i b j opc @ rest"
  shows "at16 h 0 = lwip_htons LWIP_IANA_HWTYPE_ETHERNET" "at16 h 2 = lwip_htons ETHTYPE_IP" "h ! 4 = of_nat ETH_HWADDR_LEN"
    "h ! 5 = 4" "at16 h 6 = lwip_htons opc" "take 6 (drop 8 h) = a" "at32 h 14 = i" "at32 h 24 = j"
proof -
  let ?t = "store16 (lwip_htons LWIP_IANA_HWTYPE_ETHERNET)" and ?p = "store16 (lwip_htons ETHTYPE_IP)"
  let ?l = "[of_nat ETH_HWADDR_LEN, 4 :: u8]" and ?o = "store16 (lwip_htons opc)"
  have h: "h = ?t @ ?p @ ?l @ ?o @ a @ store32 i @ b @ store32 j @ rest"
    using assms by (simp add: etharp_hdr_def ETH_HWADDR_LEN_def)
  show "at16 h 0 = lwip_htons LWIP_IANA_HWTYPE_ETHERNET"
    unfolding h using at16_store [of "[]" 0] by simp
  show "at16 h 2 = lwip_htons ETHTYPE_IP" unfolding h by (rule at16_store) simp
  show "h ! 4 = of_nat ETH_HWADDR_LEN" "h ! 5 = 4" unfolding h by (simp_all add: nth_append)
  have "at16 ((?t @ ?p @ ?l) @ ?o @ a @ store32 i @ b @ store32 j @ rest) 6 = lwip_htons opc" by (rule at16_store) simp
  then show "at16 h 6 = lwip_htons opc" unfolding h by simp
  show "take 6 (drop 8 h) = a" unfolding h using assms(1) by simp
  have "at32 ((?t @ ?p @ ?l @ ?o @ a) @ store32 i @ b @ store32 j @ rest) 14 = i" by (rule at32_store) (simp add: assms(1))
  then show "at32 h 14 = i" unfolding h by simp
  have "at32 ((?t @ ?p @ ?l @ ?o @ a @ store32 i @ b) @ store32 j @ rest) 24 = j" by (rule at32_store) (simp add: assms)
  then show "at32 h 24 = j" unfolding h by simp
qed

section \<open>Resolution of an address\<close>

definition unicast :: "netif \<Rightarrow> u32 \<Rightarrow> bool" where
  "unicast n ip \<longleftrightarrow> \<not> ip4_addr_isany_val ip \<and> \<not> ip4_addr_isbroadcast_u32 ip n \<and> \<not> ip4_addr_ismulticast ip"

definition known :: "netif \<Rightarrow> u32 \<Rightarrow> tx_state \<Rightarrow> bool" where
  "known n ip s \<longleftrightarrow> (\<exists>e \<in> set (arp_table s). in_use e \<and> arp_key e = (ip, Some (nif_num n)))"

lemma known_hit: "known n ip s \<longleftrightarrow> (\<exists>e \<in> set (arp_table s). hit (Some ip) (Some (nif_num n)) e)"
  by (auto simp: known_def hit_def arp_match_def arp_key_def in_use_def)

lemma hit_unique:
  assumes "arp_wf N t" "i < 10" "j < 10" "hit (Some ip) (Some nif) (t ! i)" "hit (Some ip) (Some nif) (t ! j)"
  shows "i = j"
proof (rule ccontr)
  assume "i \<noteq> j"
  moreover have "length t = 10" by (rule arp_wf_length [OF assms(1)])
  ultimately show False using assms by (auto simp: arp_wf_def hit_def arp_match_def arp_key_def in_use_def)
qed

lemma find_known:
  assumes "arp_ok N s" "i < 10" "hit (Some ip) (Some nif) (arp_at s i)"
  shows "etharp_find_entry (Some ip) fl (Some nif) s = (Some i, s)"
proof -
  have w: "arp_wf N (arp_table s)" using assms(1) by (simp add: arp_ok_def)
  have l: "length (arp_table s) = 10" by (rule arp_wf_length [OF w])
  then have h: "\<exists>e \<in> set (arp_table s). hit (Some ip) (Some nif) e" using assms(2,3) by (metis arp_at_def nth_mem)
  obtain r s' where f: "etharp_find_entry (Some ip) fl (Some nif) s = (r, s')" by fastforce
  from f show ?thesis
  proof (cases rule: find_entry_cases)
    case (found j)
    then have "j < 10" "hit (Some ip) (Some nif) (arp_table s ! j)" using l by simp_all
    then have "j = i" using hit_unique [OF w assms(2)] assms(3) unfolding arp_at_def by metis
    with found f show ?thesis by simp
  qed (use h in auto)
qed

lemma find_unknown:
  assumes "arp_ok N s" "\<not> known n ip s"
  obtains i s' where "etharp_find_entry (Some ip) ETHARP_FLAG_TRY_HARD (Some (nif_num n)) s = (Some i, s')"
    "i < 10" "arp_at s' i = claimed ip (nif_num n)"
proof -
  have w: "arp_wf N (arp_table s)" using assms(1) by (simp add: arp_ok_def)
  have l: "length (arp_table s) = 10" by (rule arp_wf_length [OF w])
  obtain r s' where f: "etharp_find_entry (Some ip) ETHARP_FLAG_TRY_HARD (Some (nif_num n)) s = (r, s')" by fastforce
  have "\<exists>i. r = Some i"
    using f
  proof (cases rule: find_entry_cases)
    case fails
    then show ?thesis using l by (auto simp: ETHARP_FLAG_TRY_HARD_def ETHARP_FLAG_FIND_ONLY_def)
  qed auto
  then obtain i where i: "r = Some i" by blast
  note g = find_entry_arp_ok [OF assms(1) f [unfolded i]]
  have "\<not> in_use (arp_at s' i)"
  proof
    assume u: "in_use (arp_at s' i)"
    with g(5) have "s' = s" "arp_key (arp_at s i) = (ip, Some (nif_num n))" by auto
    moreover have "arp_at s i \<in> set (arp_table s)" using g(1) l by (simp add: arp_at_def)
    ultimately show False using assms(2) u by (auto simp: known_def)
  qed
  with that f i g(1,6) show thesis by blast
qed

text \<open>A packet for an unknown host: a request goes out, the packet waits.\<close>

lemma claimed_same: "(claimed ip nif)\<lparr>ae_state := st, ae_netif := Some nif\<rparr> = (claimed ip nif)\<lparr>ae_state := st\<rparr>"
  by (simp add: claimed_def)

lemma query_unknown:
  assumes "arp_ok N s" "link_of n \<in> N" "unicast n ip" "\<not> known n ip s" "\<forall>b \<in> set (p_segs q). seg_type b \<noteq> PBUF_REF"
    "heap_ok E" "heap_never_full E" "length (nif_hwaddr n) = 6"
  obtains i s' where "etharp_query E n ip (Some q) s = (LwOk, s')" "arp_ok N s'" "i < 10"
    "arp_at s' i = (claimed ip (nif_num n))\<lparr>ae_state := ETHARP_STATE_PENDING, ae_q := Some q\<rparr>"
    "tx_trace s' = SentFrame (request_frame n ip) # tx_trace s"
proof -
  obtain i s1 where f: "etharp_find_entry (Some ip) ETHARP_FLAG_TRY_HARD (Some (nif_num n)) s = (Some i, s1)"
    and i: "i < 10" "arp_at s1 i = claimed ip (nif_num n)" using find_unknown [OF assms(1,4)] by blast
  have w: "arp_wf N (arp_table s)" using assms(1) by (simp add: arp_ok_def)
  note fo = find_entry_ok(2,4) [OF w f]
  define s2 where "s2 = arp_set i ((claimed ip (nif_num n))\<lparr>ae_state := ETHARP_STATE_PENDING\<rparr>) s1"
  have at2: "arp_at s2 i = (claimed ip (nif_num n))\<lparr>ae_state := ETHARP_STATE_PENDING\<rparr>"
    using fo(1) i(1) by (simp add: s2_def arp_at_def)
  define s3 where "s3 = s2\<lparr>tx_trace := SentFrame (request_frame n ip) # tx_trace s2\<rparr>"
  have at3: "arp_at s3 i = arp_at s2 i" by (simp add: s3_def arp_at_def)
  have rq: "etharp_request E n ip s2 = (LwOk, s3)" using etharp_request_ok [OF assms(6-8)] by (simp add: s3_def)
  have nc: "\<not> (\<exists>b \<in> set (p_segs q). PBUF_NEEDS_COPY b)" using assms(5) by (simp add: PBUF_NEEDS_COPY_def)
  have u: "\<not> (ip4_addr_isbroadcast_u32 ip n \<or> ip4_addr_ismulticast ip \<or> ip4_addr_isany_val ip)"
    using assms(3) by (simp add: unicast_def)
  have e: "etharp_query E n ip (Some q) s = (LwOk, queue_packet i q s3)"
    unfolding etharp_query_def if_not_P [OF u] f option.case prod.case Let_def i(2) claimed_fields simp_thms if_True
      claimed_same s2_def [symmetric] rq at3 at2 using nc by simp
  have at4: "arp_at (queue_packet i q s3) i = (claimed ip (nif_num n))\<lparr>ae_state := ETHARP_STATE_PENDING, ae_q := Some q\<rparr>"
    using at3 at2 fo(1) i(1) by (simp add: queue_packet_def Let_def arp_at_def s3_def s2_def)
  have tr: "tx_trace (queue_packet i q s3) = SentFrame (request_frame n ip) # tx_trace s"
    using at3 at2 fo(2) by (simp add: queue_packet_def Let_def s3_def s2_def)
  have ok: "arp_ok N (queue_packet i q s3)" using query_arp_ok [OF assms(1,2), of E ip "Some q"] e by simp
  show thesis by (rule that [OF e ok i(1) at4 tr])
qed

text \<open>The answer arrives: the packet goes out to the address that was learned.\<close>

lemma update_known:
  assumes "arp_ok N s" "link_of n \<in> N" "unicast n ip" "i < 10" "in_use (arp_at s i)" "arp_key (arp_at s i) = (ip, Some (nif_num n))"
    "length (nif_hwaddr n) = 6" "length mac = 6" "\<forall>q. ae_q (arp_at s i) = Some q \<longrightarrow> sendable q"
  obtains s' where "etharp_update_arp_entry E n ip mac fl s = (LwOk, s')" "arp_ok N s'"
    "arp_at s' i = (arp_at s i)\<lparr>ae_q := None, ae_ethaddr := mac, ae_ctime := 0, ae_state := ETHARP_STATE_STABLE\<rparr>"
    "tx_trace s' = (case ae_q (arp_at s i) of Some q \<Rightarrow> [SentFrame (eth_frame mac (nif_hwaddr n) ETHTYPE_IP (p_bytes q))] | None \<Rightarrow> []) @
       tx_trace s"
proof -
  have h: "hit (Some ip) (Some (nif_num n)) (arp_at s i)"
    using assms(5,6) by (auto simp: hit_def arp_match_def arp_key_def in_use_def)
  note f = find_known [OF assms(1,4) h]
  have l: "length (arp_table s) = 10" using assms(1) by (auto simp: arp_ok_def dest: arp_wf_length)
  have nf: "ae_netif (arp_at s i) = Some (nif_num n)" using assms(6) by (simp add: arp_key_def)
  have rec: "(arp_at s i)\<lparr>ae_state := ETHARP_STATE_STABLE, ae_netif := Some (nif_num n), ae_ethaddr := mac, ae_ctime := 0, ae_q := None\<rparr> =
      (arp_at s i)\<lparr>ae_q := None, ae_ethaddr := mac, ae_ctime := 0, ae_state := ETHARP_STATE_STABLE\<rparr>"
    using nf by (cases "arp_at s i") simp
  let ?s = "snd (etharp_update_arp_entry E n ip mac fl s)"
  have u: "\<not> (ip4_addr_isany_val ip \<or> ip4_addr_isbroadcast_u32 ip n \<or> ip4_addr_ismulticast ip)"
    using assms(3) by (simp add: unicast_def)
  have mac: "take ETH_HWADDR_LEN mac = mac" using assms(8) by (simp add: ETH_HWADDR_LEN_def)
  have ok: "arp_ok N ?s" by (rule update_arp_ok [OF assms(1,2)])
  have "fst (etharp_update_arp_entry E n ip mac fl s) = LwOk \<and>
    arp_at ?s i = (arp_at s i)\<lparr>ae_q := None, ae_ethaddr := mac, ae_ctime := 0, ae_state := ETHARP_STATE_STABLE\<rparr> \<and>
    tx_trace ?s = (case ae_q (arp_at s i) of Some q \<Rightarrow> [SentFrame (eth_frame mac (nif_hwaddr n) ETHTYPE_IP (p_bytes q))] | None \<Rightarrow> []) @
       tx_trace s"
  proof (cases "ae_q (arp_at s i)")
    case None
    have "(arp_at s i)\<lparr>ae_state := ETHARP_STATE_STABLE, ae_netif := Some (nif_num n), ae_ethaddr := mac, ae_ctime := 0\<rparr> =
      (arp_at s i)\<lparr>ae_q := None, ae_ethaddr := mac, ae_ctime := 0, ae_state := ETHARP_STATE_STABLE\<rparr>"
      using nf None by (cases "arp_at s i") simp
    then show ?thesis
      using None u l assms(4) mac by (simp add: etharp_update_arp_entry_def f Let_def) (simp add: arp_at_def)
  next
    case (Some q)
    then have q: "sendable q" using assms(9) by blast
    show ?thesis
      using Some u l assms(4) mac link_output_ok [OF q assms(7,8)] rec
      by (simp add: etharp_update_arp_entry_def f Let_def) (simp add: arp_at_def)
  qed
  with that [of ?s] ok show thesis by (metis prod.collapse)
qed

lemma stable_send:
  assumes "arp_ok N s" "i < 10" "stable_for n hop (arp_at s i)" "ae_ctime (arp_at s i) < ARP_AGE_REREQUEST_USED_UNICAST"
    "\<not> ip4_addr_isbroadcast_u32 ip n" "\<not> ip4_addr_ismulticast ip" "arp_next_hop n ip = Some hop"
    "sendable q" "length (nif_hwaddr n) = 6" "length (ae_ethaddr (arp_at s i)) = 6"
  shows "fst (etharp_output E n q ip s) = LwOk \<and> tx_trace (snd (etharp_output E n q ip s)) =
    SentFrame (eth_frame (ae_ethaddr (arp_at s i)) (nif_hwaddr n) ETHTYPE_IP (p_bytes q)) # tx_trace s \<and>
    arp_table (snd (etharp_output E n q ip s)) = arp_table s"
proof -
  have w: "arp_wf N (arp_table s)" "etharp_cached_entry s < 10" using assms(1) by (simp_all add: arp_ok_def ARP_TABLE_SIZE_def)
  have hitj: "stable_for n hop (arp_at s j) \<Longrightarrow> hit (Some hop) (Some (nif_num n)) (arp_table s ! j)" for j
    by (auto simp: stable_for_def hit_def arp_match_def arp_at_def)
  have only: "j = i" if "j < 10" "stable_for n hop (arp_at s j)" for j
    using hit_unique [OF w(1) that(1) assms(2) hitj [OF that(2)] hitj [OF assms(3)]] .
  have young: "\<not> ARP_AGE_REREQUEST_USED_BROADCAST \<le> ae_ctime (arp_at s i)" "\<not> ARP_AGE_REREQUEST_USED_UNICAST \<le> ae_ctime (arp_at s i)"
    using assms(4) by (auto simp: ARP_AGE_REREQUEST_USED_BROADCAST_def ARP_AGE_REREQUEST_USED_UNICAST_def ARP_MAXAGE_def word_less_nat_alt word_le_nat_alt)
  have to: "etharp_output_to_arp_index E n q i t =
      (LwOk, t\<lparr>tx_trace := SentFrame (eth_frame (ae_ethaddr (arp_at s i)) (nif_hwaddr n) ETHTYPE_IP (p_bytes q)) # tx_trace t\<rparr>)"
    if "arp_table t = arp_table s" for t
  proof -
    have "arp_at t i = arp_at s i" using that by (simp add: arp_at_def)
    then show ?thesis
      using young link_output_ok [OF assms(8-10)] by (simp add: etharp_output_to_arp_index_def Let_def)
  qed
  have fnd: "find (\<lambda>i. stable_for n hop (arp_at s i)) [0..<ARP_TABLE_SIZE] = Some i"
  proof -
    have "find (\<lambda>i. stable_for n hop (arp_at s i)) [0..<ARP_TABLE_SIZE] \<noteq> None"
      using assms(2,3) by (auto simp: find_None_iff ARP_TABLE_SIZE_def)
    then obtain j where j: "find (\<lambda>i. stable_for n hop (arp_at s i)) [0..<ARP_TABLE_SIZE] = Some j" by blast
    then have "j < 10" "stable_for n hop (arp_at s j)" by (auto simp: find_Some_iff ARP_TABLE_SIZE_def)
    with only j show ?thesis by blast
  qed
  show ?thesis
  proof (cases "stable_for n hop (arp_at s (etharp_cached_entry s))")
    case True
    then have "etharp_cached_entry s = i" using only w(2) by blast
    with True to [of s] assms(5-7) show ?thesis by (simp add: etharp_output_def)
  next
    case False
    with to [of "s\<lparr>etharp_cached_entry := i\<rparr>"] fnd assms(5-7) show ?thesis by (simp add: etharp_output_def)
  qed
qed

end
