(* ===== verification/LwipSum_Facts.thy ===== *)
theory LwipSum_Facts
  imports LwipSend_Facts
begin

text \<open>
  The checksums of what goes out: the one that is gathered while the IP header is written, the
  one of a UDP datagram, and the adjusted one of an echo reply.
\<close>

section \<open>Closing a sum\<close>

lemma unat_not_u16: "unat (NOT (x :: u16)) = 65535 - unat x"
proof -
  have p: "unat (x + y) = (unat x + unat y) mod 65536" for y by (simp add: unat_word_ariths)
  have "unat (- 1 :: u16) = 65535" by (simp add: unsigned_minus_1_eq_mask mask_eq_exp_minus_1)
  then have "(unat x + unat (NOT x)) mod 65536 = 65535"
    unfolding p [symmetric] word_add_not .
  moreover have "unat x < 65536" "unat (NOT x) < 65536" by simp_all
  ultimately show ?thesis by (simp add: mod_if split: if_splits del: u16_less_65536)
qed

lemma closes:
  assumes "unat (NOT c :: u16) mod 65535 = k mod 65535"
  shows "(k + unat c) mod 65535 = 0"
proof -
  have "unat (NOT c) + unat c = 65535" using unat_not_u16 [of c] u16_less_65536 [of c] by linarith
  moreover have "(k + unat c) mod 65535 = (unat (NOT c) + unat c) mod 65535"
    by (rule mod_add_cong [OF assms [symmetric] refl])
  ultimately show ?thesis by simp
qed

lemma le_sum_append: "even (length a) \<Longrightarrow> le_sum (a @ b) = le_sum a + le_sum b"
  by (induction a rule: le_sum.induct) auto

lemma be_sum_append: "even (length a) \<Longrightarrow> be_sum (a @ b) = be_sum a + be_sum b"
  by (induction a rule: be_sum.induct) auto

lemma le_sum_store16 [simp]: "le_sum (store16 x) = unat x"
proof -
  have "unat x = unat (load16 (ucast x) (ucast (drop_bit 8 x)))" by (simp add: load_store16)
  then show ?thesis by (simp only: unat_load16 store16_def le_sum.simps)
qed

lemma le_sum_store32 [simp]: "le_sum (store32 x) = addr_sum x"
  using addr_sum_load32 [of "ucast x" "ucast (drop_bit 8 x)" "ucast (drop_bit 16 x)" "ucast (drop_bit 24 x)"]
  by (simp add: load_store32 store32_def)

lemma le_sum_put16:
  assumes "even i" "i + 2 \<le> length bs" "bs ! i = 0" "bs ! (i + 1) = 0"
  shows "le_sum (put_at i (store16 c) bs) = le_sum bs + unat c"
proof -
  have d: "drop i bs = 0 # 0 # drop (i + 2) bs"
    using assms(2-4) by (metis Cons_nth_drop_Suc Suc_eq_plus1 add_2_eq_Suc' add_lessD1 less_eq_Suc_le Suc_le_lessD)
  have "even (length (take i bs))" using assms(1,2) by simp
  then have t: "le_sum (take i bs @ r) = le_sum (take i bs) + le_sum r" for r by (rule le_sum_append)
  have "le_sum (take i bs @ drop i bs) = le_sum (take i bs) + le_sum (drop (i + 2) bs)"
    unfolding t d by simp
  then have "le_sum bs = le_sum (take i bs) + le_sum (drop (i + 2) bs)" by simp
  moreover have "le_sum (put_at i (store16 c) bs) = le_sum (take i bs) + (unat c + le_sum (drop (i + 2) bs))"
    unfolding put_at_def t by (simp add: le_sum_append)
  ultimately show ?thesis by simp
qed

section \<open>The IP header\<close>

lemma words_sum_take: "2 * k \<le> length bs \<Longrightarrow> k \<le> 60 \<Longrightarrow>
  unat (fold (\<lambda>i acc. acc + ucast (at16 bs (2 * i))) [0..<k] (0 :: u32)) = le_sum (take (2 * k) bs)"
proof (induction k)
  case (Suc k)
  have l: "2 * k + 1 < length bs" using Suc.prems by simp
  have t: "take (2 * Suc k) bs = take (2 * k) bs @ [bs ! (2 * k), bs ! (2 * k + 1)]"
    using l by (simp add: take_Suc_conv_app_nth)
  have e: "even (length (take (2 * k) bs))" using l by simp
  have s: "le_sum (take (2 * Suc k) bs) = le_sum (take (2 * k) bs) + unat (at16 bs (2 * k))"
    unfolding t le_sum_append [OF e] by (simp add: at16_def unat_load16)
  have "le_sum (take (2 * k) bs) \<le> 65535 * ((length (take (2 * k) bs) + 1) div 2)" by (rule le_sum_le)
  also have "\<dots> \<le> 65535 * 60" using Suc.prems by simp
  finally have b: "le_sum (take (2 * k) bs) \<le> 65535 * 60" .
  have "unat (at16 bs (2 * k)) < 65536" by simp
  then show ?case using Suc s b by (simp add: unat_plus_small del: u16_less_65536)
qed simp

lemma words_sum_le_sum: "even (length bs) \<Longrightarrow> length bs \<le> 120 \<Longrightarrow> unat (words_sum bs) = le_sum bs"
  using words_sum_take [of "length bs div 2" bs] by (simp add: words_sum_def)

lemma two_bytes_swapped: "unat (lwip_ntohs (two_bytes b0 b1)) = unat b1 + 256 * unat b0"
proof -
  have "lwip_ntohs (two_bytes b0 b1) = load16 b1 b0"
    unfolding lwip_ntohs_def lwip_htons_def two_bytes_def load16_def byte_masks
    by (rule bit_word_eqI) (auto simp: bit_simps dest: bit_imp_le_length)
  then show ?thesis by (simp add: unat_load16)
qed

text \<open>The second folding leaves a carry out of the low half in place; the truncation drops it.\<close>

lemma fold_truncate:
  assumes "unat (x :: u32) < 60 * 65536"
  defines "y \<equiv> drop_bit 16 x + (x AND 0xFFFF)"
  shows "unat (ucast (drop_bit 16 y + y) :: u16) mod 65535 = unat x mod 65535"
proof -
  have fy: "unat y = unat x div 65536 + unat x mod 65536"
    using unat_FOLD [of x] by (simp add: y_def FOLD_U32T_def)
  have d: "unat x div 65536 < 60" using assms(1) by (simp add: div_less_iff_less_mult)
  have yb: "unat y < 65536 + 60" using fy d by linarith
  have u: "unat (drop_bit 16 y + y) = unat y div 65536 + unat y"
    using yb by (simp add: unat_plus_small unat_high16 div_less_iff_less_mult)
  have c: "unat (ucast (drop_bit 16 y + y) :: u16) = (unat y div 65536 + unat y) mod 65536"
    by (simp add: unsigned_ucast_eq u take_bit_eq_mod)
  have "(unat y div 65536 + unat y) mod 65536 = (if unat y < 65536 then unat y else unat y - 65535)"
  proof (cases "unat y < 65536")
    case False
    then have "unat y div 65536 = 1" using yb by (intro div_nat_eqI) simp_all
    moreover have "(1 + unat y) mod 65536 = 1 + unat y - 65536" using False yb by (simp add: mod_if)
    ultimately show ?thesis using False by simp
  qed simp
  moreover have "(if unat y < 65536 then unat y else unat y - 65535) mod 65535 = unat y mod 65535"
    using yb by (auto simp: le_mod_geq not_less)
  ultimately show ?thesis unfolding c using fold_mod [of "unat x"] fy by simp
qed

lemma ip_hdr_sum:
  "le_sum (ip_hdr v_hl tos len ident ttl proto chk src dest) =
     unat v_hl + 256 * unat tos + unat len + unat ident + (unat ttl + 256 * unat proto) + unat chk + addr_sum src + addr_sum dest"
  by (simp add: ip_hdr_def le_sum_append)

theorem inline_chksum_verifies:
  assumes "even (length opts)" "length opts \<le> 40"
  shows "(le_sum (ip_hdr v_hl tos len ident ttl proto (inline_chksum opts proto ttl dest v_hl tos len ident src) src dest) +
    le_sum opts) mod 65535 = 0"
proof -
  let ?S = "le_sum opts + (unat ttl + 256 * unat proto) + addr_sum dest + (unat v_hl + 256 * unat tos) + unat len + unat ident + addr_sum src"
  let ?x = "words_sum opts + ucast (lwip_ntohs (two_bytes proto ttl)) + (dest AND 0xFFFF) + drop_bit 16 dest +
     ucast (lwip_ntohs (two_bytes tos v_hl)) + ucast len + ucast ident + (src AND 0xFFFF) + drop_bit 16 src"
  have b: "unat (words_sum opts) = le_sum opts" "le_sum opts \<le> 65535 * 20"
    using assms words_sum_le_sum [of opts] le_sum_le [of opts] by auto
  have parts: "unat (ucast (z :: u16) :: u32) < 65536" "unat (a AND 0xFFFF :: u32) < 65536" "unat (drop_bit 16 a :: u32) < 65536" for z a
    using u16_less_65536 [of z] div_16_bound [OF u32_less_2p32, of a] by (simp_all add: unat_low16 unat_high16 del: u16_less_65536)
  have ad: "unat (a AND 0xFFFF) + unat (drop_bit 16 a) = addr_sum a" for a :: u32
    by (simp add: addr_sum_def unat_low16 unat_high16)
  have x: "unat ?x = le_sum opts + (unat ttl + 256 * unat proto) + (unat (dest AND 0xFFFF) + unat (drop_bit 16 dest)) +
      (unat v_hl + 256 * unat tos) + unat len + unat ident + (unat (src AND 0xFFFF) + unat (drop_bit 16 src))"
    and xb: "unat ?x < 60 * 65536"
    using b parts(1) [of "lwip_ntohs (two_bytes proto ttl)"] parts(1) [of "lwip_ntohs (two_bytes tos v_hl)"] parts(1) [of len]
      parts(1) [of ident] parts(2) [of dest] parts(3) [of dest] parts(2) [of src] parts(3) [of src]
    by (simp_all add: unat_plus_small two_bytes_swapped del: u16_less_65536 u8_less_256)
  let ?c = "inline_chksum opts proto ttl dest v_hl tos len ident src"
  define y where "y = drop_bit 16 ?x + (?x AND 0xFFFF)"
  have nc: "NOT (ucast (NOT z) :: u16) = ucast z" for z :: u32
    by (rule bit_word_eqI) (auto simp: bit_simps)
  have "NOT ?c = ucast (drop_bit 16 y + y)"
    by (simp only: inline_chksum_def Let_def nc y_def)
  then have "unat (NOT ?c) mod 65535 = unat ?x mod 65535" using fold_truncate [OF xb] by (simp only: y_def)
  then have "unat (NOT ?c) mod 65535 = ?S mod 65535" using x ad by simp
  from closes [OF this] show ?thesis by (simp add: ip_hdr_sum ac_simps)
qed

end
