(* ===== verification/LwipUdpSend_Facts.thy ===== *)
theory LwipUdpSend_Facts
  imports LwipSum_Facts LwipAccept
begin

text \<open>
  A UDP datagram from the application to the wire: the buffer that gets header after header, and
  what a receiver reads from the frame.
\<close>

section \<open>A buffer that grows to the front\<close>

definition ram_buf :: "nat \<Rightarrow> u8 list \<Rightarrow> pbuf \<Rightarrow> bool" where
  "ram_buf room bs p \<longleftrightarrow> p_next p = [] \<and> seg_type (p_head p) = PBUF_RAM \<and> length (seg_front (p_head p)) = room \<and>
     seg_data (p_head p) = bs"

lemma ram_buf_bytes: "ram_buf room bs p \<Longrightarrow> p_bytes p = bs \<and> p_tot_len p = length bs \<and> p_len p = length bs"
  by (simp add: ram_buf_def p_bytes_segs p_tot_len_bytes p_len_def seg_len_def)

lemma ram_buf_sendable: "ram_buf room bs p \<Longrightarrow> 16 \<le> room \<Longrightarrow> length bs < 65000 \<Longrightarrow> sendable p"
  using ram_buf_bytes [of room bs p] by (simp add: ram_buf_def sendable_def contiguous_def)

lemma ram_buf_release: "ram_buf room bs p \<Longrightarrow> pbuf_release p s = s"
  by (rule release_ram) (simp add: ram_buf_def p_segs_def)

lemma ram_buf_alloc:
  assumes "heap_ok E" "heap_never_full E" "length d \<le> 65000"
  obtains p where "pbuf_alloc_ram E PBUF_TRANSPORT (length d) s = (Some p, s)" "ram_buf 56 d (seg_write d p)"
proof -
  obtain p where p: "pbuf_alloc_ram E PBUF_TRANSPORT (length d) s = (Some p, s)" "fresh_ram 56 (length d) p"
    using alloc_ram_ok [OF assms, of PBUF_TRANSPORT s] by (auto simp: layer_values simp del: layer_offset.simps)
  have "ram_buf 56 d (seg_write d p)" using p(2) by (simp add: ram_buf_def fresh_ram_def seg_write_def Let_def)
  with p(1) that show thesis by blast
qed

lemma ram_buf_add:
  assumes "ram_buf room bs p" "room = r + k" "0 < k" "k \<le> 100" "length bs < 65000"
  obtains q junk where "pbuf_add_header p k = (0, q)" "ram_buf r (junk @ bs) q" "length junk = k"
proof
  let ?f = "seg_front (p_head p)" and ?q = "p\<lparr>p_head := seg_add k (p_head p)\<rparr>"
  show "pbuf_add_header p k = (0, ?q)"
    using assms ram_buf_bytes [OF assms(1)] by (simp add: pbuf_add_header_def pbuf_add_header_impl_def ram_buf_def contiguous_def)
  show "ram_buf r (drop r ?f @ bs) ?q"
    using assms by (simp add: ram_buf_def seg_add_def Let_def)
  show "length (drop r ?f) = k" using assms by (simp add: ram_buf_def)
qed

lemma ram_buf_write:
  "ram_buf room (junk @ bs) p \<Longrightarrow> length hdr = length junk \<Longrightarrow> ram_buf room (hdr @ bs) (seg_write hdr p)"
  by (simp add: ram_buf_def seg_write_def Let_def)

lemma ram_buf_flags [simp]: "ram_buf room bs (p\<lparr>p_flags := f\<rparr>) = ram_buf room bs p"
  by (simp add: ram_buf_def)

section \<open>The datagram\<close>

lemma length_udp_hdr [simp]: "length (udp_hdr sp dp len c) = 8"
  by (simp add: udp_hdr_def)

lemma length_ip_hdr [simp]: "length (ip_hdr v tos len i ttl proto c src dst) = 20"
  by (simp add: ip_hdr_def)

lemma le_sum_udp_hdr: "le_sum (udp_hdr sp dp len c @ d) = le_sum (udp_hdr sp dp len 0 @ d) + unat c"
  by (simp add: udp_hdr_def le_sum_append)

text \<open>The checksum closes the sum, and is never 0.\<close>

lemma udp_chksum_closes:
  assumes "pcb_flags pcb AND UDP_FLAGS_NOCHKSUM = 0" "p_bytes q = udp_hdr sp dp len 0 @ d" "p_next q = []"
    "length (p_bytes q) < 65536" "c = udp_chksum pcb q src dst"
  shows "c \<noteq> 0" "(pseudo_sum IP_PROTO_UDP (of_nat (8 + length d)) src dst + le_sum (udp_hdr sp dp len c @ d)) mod 65535 = 0"
proof -
  let ?l = "of_nat (8 + length d) :: u16"
  let ?chk = "inet_chksum_pseudo q IP_PROTO_UDP ?l src dst"
  have c: "c = (if ?chk = 0 then 0xffff else ?chk)"
    using assms(1,2,5) by (simp add: udp_chksum_def Let_def ip_chksum_pseudo_def p_tot_len_bytes)
  show "c \<noteq> 0" by (simp add: c)
  let ?S = "pseudo_sum IP_PROTO_UDP ?l src dst + le_sum (p_bytes q)"
  have small: "\<forall>b \<in> set (p_segs q). seg_len b \<le> 0x1FFFE"
    using assms(3,4) by (simp add: p_segs_def p_bytes_segs seg_len_def)
  have "IP_PROTO_UDP \<noteq> 0" by (simp add: IP_PROTO_UDP_def)
  from pseudo_ones [OF small this] obtain k where
    k: "unat (NOT ?chk) = ones k" "0 < k" "k mod 65535 = ?S mod 65535" by metis
  have n: "unat (NOT ?chk) mod 65535 = ?S mod 65535" using k ones_mod [of k] by simp
  have "(?S + unat c) mod 65535 = 0"
  proof (cases "?chk = 0")
    case True
    have "unat (NOT ?chk) mod 65535 = 0" unfolding unat_not_u16 True by simp
    then have "?S mod 65535 = 0" using n by (simp only:)
    moreover have "unat c = 65535" using True by (simp add: c)
    ultimately show ?thesis by (simp add: mod_eq_0_iff_dvd dvd_add)
  next
    case False
    then show ?thesis using closes [OF n] by (simp add: c)
  qed
  then show "(pseudo_sum IP_PROTO_UDP ?l src dst + le_sum (udp_hdr sp dp len c @ d)) mod 65535 = 0"
    unfolding le_sum_udp_hdr [of sp dp len c] assms(2) by (simp add: ac_simps)
qed

lemma pseudo_closed_be:
  assumes "length u < 65536" "(pseudo_sum IP_PROTO_UDP (of_nat (length u)) (at32 bs i) (at32 bs j) + le_sum u) mod 65535 = 0"
  shows "udp_sum (addr4 bs i) (addr4 bs j) u mod 65535 = 0"
proof -
  have "256 * udp_sum (addr4 bs i) (addr4 bs j) u mod 65535 = 0"
    using assms(2) pseudo_udp_sum [OF assms(1), of "bs ! i" "bs ! (i + 1)" "bs ! (i + 2)" "bs ! (i + 3)"]
    by (simp only: at32_addr4 addr4_def)
  then show ?thesis by (simp only: mod_256_cancel)
qed

section \<open>The packet\<close>

definition udp_packet :: "u8 \<Rightarrow> u16 \<Rightarrow> u8 \<Rightarrow> u16 \<Rightarrow> u32 \<Rightarrow> u32 \<Rightarrow> u8 list \<Rightarrow> u8 list" where
  "udp_packet tos ident ttl chk src dst u =
     ip_hdr 0x45 tos (lwip_htons (of_nat (20 + length u))) (lwip_htons ident) ttl IP_PROTO_UDP chk src dst @ u"

lemma be16_at16: "be16 bs i = unat (lwip_ntohs (at16 bs i))"
  by (rule unat_ntohs_at16 [symmetric])

lemma ntohs_htons [simp]: "lwip_ntohs (lwip_htons x) = x"
  by (rule ntohs_twice)

lemma udp_packet_fields:
  assumes "bs = udp_packet tos ident ttl chk src dst u"
  shows "at16 bs 2 = lwip_htons (of_nat (20 + length u))" "at16 bs 6 = 0" "bs ! 0 = 0x45" "bs ! 9 = IP_PROTO_UDP"
    "at32 bs 12 = src" "at32 bs 16 = dst" "drop 20 bs = u" "length bs = 20 + length u"
proof -
  let ?l = "lwip_htons (of_nat (20 + length u))"
  let ?a = "[0x45, tos] @ store16 ?l @ store16 (lwip_htons ident)"
  have h: "bs = ?a @ store16 0 @ [ttl, IP_PROTO_UDP] @ store16 chk @ store32 src @ store32 dst @ u"
    using assms by (simp add: udp_packet_def ip_hdr_def)
  have "at16 ([0x45, tos] @ store16 ?l @ store16 (lwip_htons ident) @ store16 0 @ [ttl, IP_PROTO_UDP] @ store16 chk @ store32 src @ store32 dst @ u) 2 = ?l"
    by (rule at16_store) simp
  then show "at16 bs 2 = ?l" unfolding h by simp
  show "at16 bs 6 = 0" unfolding h by (rule at16_store) simp
  show "bs ! 0 = 0x45" "bs ! 9 = IP_PROTO_UDP" "drop 20 bs = u" "length bs = 20 + length u"
    unfolding h by (simp_all add: nth_append store16_def)
  have "at32 ((?a @ store16 0 @ [ttl, IP_PROTO_UDP] @ store16 chk) @ store32 src @ store32 dst @ u) 12 = src"
    by (rule at32_store) simp
  then show "at32 bs 12 = src" unfolding h by simp
  have "at32 ((?a @ store16 0 @ [ttl, IP_PROTO_UDP] @ store16 chk @ store32 src) @ store32 dst @ u) 16 = dst"
    by (rule at32_store) simp
  then show "at32 bs 16 = dst" unfolding h by simp
qed

lemma udp_packet_ok:
  assumes "length u < 65000" "bs = udp_packet tos ident ttl (inline_chksum [] IP_PROTO_UDP ttl dst 0x45 tos
     (lwip_htons (of_nat (20 + length u))) (lwip_htons ident) src) src dst u"
  shows "ip_header_ok bs" "ip_payload bs = u" "be16 bs 6 = 0"
proof -
  note f = udp_packet_fields [OF assms(2)]
  have len: "ip_len bs = 20 + length u"
    using assms(1) by (simp add: ip_len_def be16_at16 f(1) unat_of_nat take_bit_nat_eq_self del: of_nat_add)
  have hl: "ip_hlen bs = 20" by (simp add: ip_hlen_def f(3))
  have tk: "take 20 bs = ip_hdr 0x45 tos (lwip_htons (of_nat (20 + length u))) (lwip_htons ident) ttl IP_PROTO_UDP
     (inline_chksum [] IP_PROTO_UDP ttl dst 0x45 tos (lwip_htons (of_nat (20 + length u))) (lwip_htons ident) src) src dst"
    by (simp add: assms(2) udp_packet_def)
  have "le_sum (take 20 bs) mod 65535 = 0"
    using inline_chksum_verifies [of "[]"] by (simp add: tk del: of_nat_add)
  then have "be_sum (take 20 bs) mod 65535 = 0" by (simp only: le_be_0)
  then show "ip_header_ok bs" by (simp add: ip_header_ok_def hl len f(3,8))
  show "ip_payload bs = u" by (simp add: ip_payload_def hl len f(7,8))
  show "be16 bs 6 = 0" using f(2) by (simp only: at16_0_iff)
qed

section \<open>From the application to the wire\<close>

text \<open>The address table knows a young entry \<open>i\<close> for the next hop to \<open>dst\<close>.\<close>

definition reachable_by :: "link set \<Rightarrow> netif \<Rightarrow> u32 \<Rightarrow> nat \<Rightarrow> tx_state \<Rightarrow> bool" where
  "reachable_by N n dst i s \<longleftrightarrow> arp_ok N s \<and> i < 10 \<and> \<not> ip4_addr_isbroadcast_u32 dst n \<and> \<not> ip4_addr_ismulticast dst \<and>
     (\<exists>hop. arp_next_hop n dst = Some hop \<and> stable_for n hop (arp_at s i)) \<and>
     ae_ctime (arp_at s i) < ARP_AGE_REREQUEST_USED_UNICAST \<and> length (nif_hwaddr n) = 6 \<and> length (ae_ethaddr (arp_at s i)) = 6"

lemma reachable_ident [simp]: "reachable_by N n dst i (s\<lparr>ip_id := j\<rparr>) = reachable_by N n dst i s"
  by (simp add: reachable_by_def arp_ok_def arp_at_def)

lemma reachable_send:
  assumes "reachable_by N n dst i s" "sendable q"
  shows "fst (etharp_output E n q dst s) = LwOk"
    "tx_trace (snd (etharp_output E n q dst s)) =
      SentFrame (eth_frame (ae_ethaddr (arp_at s i)) (nif_hwaddr n) ETHTYPE_IP (p_bytes q)) # tx_trace s"
    "arp_table (snd (etharp_output E n q dst s)) = arp_table s"
  using stable_send [of N s i n _ dst q E] assms by (auto simp: reachable_by_def)

lemma pad4_Nil [simp]: "pad4 [] = []"
  by (simp add: pad4_def)

lemma seg_write_Nil [simp]: "seg_write [] p = p"
  by (simp add: seg_write_def Let_def)

lemma add_header_0 [simp]: "pbuf_add_header p 0 = (0, p)"
  by (simp add: pbuf_add_header_def pbuf_add_header_impl_def)

lemma v_hl_plain: "push_bit 4 (4 :: u8) OR of_nat ((IP_HLEN + length ([] :: u8 list)) div 4) = 0x45"
  by (simp add: IP_HLEN_def push_bit_eq_mult)

text \<open>\<open>ip4_output_if_src\<close> on a buffer with room for the header.\<close>

lemma ip_output_ok:
  assumes "ram_buf 48 u p" "length u < 60000" "20 + length u \<le> unat (nif_mtu n)" "reachable_by N n dst i s"
  obtains s' where "ip4_output_if_src E p src (Some dst) ttl tos IP_PROTO_UDP n s = Some (LwOk, s')"
    "tx_trace s' = SentFrame (eth_frame (ae_ethaddr (arp_at s i)) (nif_hwaddr n) ETHTYPE_IP
       (udp_packet tos (ip_id s) ttl (inline_chksum [] IP_PROTO_UDP ttl dst 0x45 tos (lwip_htons (of_nat (20 + length u)))
          (lwip_htons (ip_id s)) src) src dst u)) # tx_trace s"
    "arp_table s' = arp_table s"
proof -
  obtain q junk where q: "pbuf_add_header p 20 = (0, q)" "ram_buf 28 (junk @ u) q" "length junk = 20"
    by (rule ram_buf_add [OF assms(1), of 28 20]) (use assms(2) in \<open>simp, simp, simp, simp, blast\<close>)
  note qb = ram_buf_bytes [OF q(2)]
  let ?c = "inline_chksum [] IP_PROTO_UDP ttl dst 0x45 tos (lwip_htons (of_nat (20 + length u))) (lwip_htons (ip_id s)) src"
  let ?h = "ip_hdr 0x45 tos (lwip_htons (of_nat (20 + length u))) (lwip_htons (ip_id s)) ttl IP_PROTO_UDP ?c src dst"
  let ?r = "seg_write ?h q" and ?s = "s\<lparr>ip_id := ip_id s + 1\<rparr>"
  have r: "ram_buf 28 (?h @ u) ?r" by (rule ram_buf_write [OF q(2)]) (simp add: q(3))
  note rb = ram_buf_bytes [OF r]
  have rs: "reachable_by N n dst i ?s" using assms(4) by simp
  have se: "sendable ?r" by (rule ram_buf_sendable [OF r]) (use assms(2) in simp_all)
  note out = reachable_send [OF rs se, of E]
  have tl: "p_tot_len q = 20 + length u" using qb q(3) by simp
  have "ip4_output_if_src E p src (Some dst) ttl tos IP_PROTO_UDP n s = ip4_send E ?r dst n ?s"
    using q(1) tl by (simp add: ip4_output_if_src_def ip4_output_if_opt_src_def Let_def IP_HLEN_def push_bit_eq_mult del: of_nat_add)
  moreover have "ip4_send E ?r dst n ?s = Some (etharp_output E n ?r dst ?s)"
    using rb assms(3) by (simp add: ip4_send_def)
  ultimately have e: "ip4_output_if_src E p src (Some dst) ttl tos IP_PROTO_UDP n s = Some (LwOk, snd (etharp_output E n ?r dst ?s))"
    using out(1) by (metis prod.collapse)
  show thesis
    by (rule that [OF e]) (use out(2,3) rb in \<open>simp_all add: udp_packet_def arp_at_def\<close>)
qed

text \<open>The port a datagram is sent from, and the stack then: a control block without a port is bound to a free one first.\<close>

definition source_port :: "upcb \<Rightarrow> lwip \<Rightarrow> (u16 \<times> lwip) option" where
  "source_port pcb w =
     (if pcb_local_port pcb \<noteq> 0 then Some (pcb_local_port pcb, w)
      else case udp_bind pcb (pcb_local_ip pcb) (pcb_local_port pcb) (lw_udp w) of
        (UdpOk, pcb', u) \<Rightarrow> Some (pcb_local_port pcb', w\<lparr>lw_udp := u\<rparr>)
      | (UdpErrUse, _) \<Rightarrow> None)"

lemma source_portD:
  assumes "source_port pcb w = Some (sp, w')"
  shows "(if pcb_local_port pcb = 0 then udp_bind pcb (pcb_local_ip pcb) (pcb_local_port pcb) (lw_udp w)
     else (UdpOk, pcb, lw_udp w)) = (UdpOk, pcb\<lparr>pcb_local_port := sp\<rparr>, lw_udp w')" "w\<lparr>lw_udp := lw_udp w'\<rparr> = w'"
  using assms by (auto simp: source_port_def udp_bind_def Let_def split: if_splits option.splits prod.splits udp_err.splits)

text \<open>\<open>UdpSend_WithPcb\<close>.\<close>

lemma app_send_ok:
  assumes "heap_ok E" "heap_never_full E" "reachable_by N n dst i s" "udp_route pcb dst w = Some n"
    "ip4_addr_isany_val (pcb_local_ip pcb)" "source_port pcb w = Some (sp, w')" "pcb_flags pcb AND UDP_FLAGS_NOCHKSUM = 0"
    "d \<noteq> []" "length d < 50000" "28 + length d \<le> unat (nif_mtu n)"
  obtains s' u c where "UdpSend_stack E (Some pcb) (Some dst) port (Some d) w s = Some (LwOk, w', s')"
    "tx_trace s' = SentFrame (eth_frame (ae_ethaddr (arp_at s i)) (nif_hwaddr n) ETHTYPE_IP
       (udp_packet (pcb_tos pcb) (ip_id s) (udp_ttl pcb dst) (inline_chksum [] IP_PROTO_UDP (udp_ttl pcb dst) dst 0x45 (pcb_tos pcb)
          (lwip_htons (of_nat (20 + length u))) (lwip_htons (ip_id s)) (nif_ip n)) (nif_ip n) dst u)) # tx_trace s"
    "arp_table s' = arp_table s" "u = udp_hdr sp port (of_nat (8 + length d)) c @ d" "c \<noteq> 0"
    "(pseudo_sum IP_PROTO_UDP (of_nat (length u)) (nif_ip n) dst + le_sum u) mod 65535 = 0"
proof -
  let ?pcb = "pcb\<lparr>pcb_local_port := sp\<rparr>"
  note b = source_portD [OF assms(6)]
  have nc: "pcb_flags ?pcb AND UDP_FLAGS_NOCHKSUM = 0" using assms(7) by simp
  have ttl: "udp_ttl ?pcb dst = udp_ttl pcb dst" by (simp add: udp_ttl_def)
  obtain p where p: "pbuf_alloc_ram E PBUF_TRANSPORT (length d) s = (Some p, s)" "ram_buf 56 d (seg_write d p)"
    by (rule ram_buf_alloc [OF assms(1,2), of d s]) (use assms(9) in auto)
  obtain q junk where q: "pbuf_add_header (seg_write d p) 8 = (0, q)" "ram_buf 48 (junk @ d) q" "length junk = 8"
    by (rule ram_buf_add [OF p(2), of 48 8]) (use assms(9) in \<open>simp, simp, simp, simp, blast\<close>)
  have wl: "p_tot_len (seg_write d p) = length d" using ram_buf_bytes [OF p(2)] by simp
  let ?len = "of_nat (8 + length d) :: u16"
  have ql: "p_tot_len q = 8 + length d" using ram_buf_bytes [OF q(2)] q(3) by simp
  define fl where "fl = (if pcb_flags pcb AND UDP_FLAGS_MULTICAST_LOOP \<noteq> 0 \<and> ip4_addr_ismulticast dst
      then p_flags q OR PBUF_FLAG_MCASTLOOP else p_flags q)"
  define q0 where "q0 = seg_write (udp_hdr sp port ?len 0) (q\<lparr>p_flags := fl\<rparr>)"
  have q0: "ram_buf 48 (udp_hdr sp port ?len 0 @ d) q0"
    unfolding q0_def by (rule ram_buf_write [of _ junk]) (simp_all add: q)
  define c where "c = udp_chksum ?pcb q0 (nif_ip n) dst"
  define q1 where "q1 = seg_write (udp_hdr sp port ?len c) q0"
  let ?u = "udp_hdr sp port ?len c @ d"
  have q1: "ram_buf 48 ?u q1" unfolding q1_def by (rule ram_buf_write [OF q0]) simp
  have closed: "c \<noteq> 0" "(pseudo_sum IP_PROTO_UDP (of_nat (length ?u)) (nif_ip n) dst + le_sum ?u) mod 65535 = 0"
    using udp_chksum_closes [OF nc _ _ _ c_def] ram_buf_bytes [OF q0] q0 assms(9)
    by (simp_all add: ram_buf_def del: of_nat_add)
  obtain s' where o: "ip4_output_if_src E q1 (nif_ip n) (Some dst) (udp_ttl pcb dst) (pcb_tos pcb) IP_PROTO_UDP n s = Some (LwOk, s')"
    "tx_trace s' = SentFrame (eth_frame (ae_ethaddr (arp_at s i)) (nif_hwaddr n) ETHTYPE_IP
       (udp_packet (pcb_tos pcb) (ip_id s) (udp_ttl pcb dst) (inline_chksum [] IP_PROTO_UDP (udp_ttl pcb dst) dst 0x45 (pcb_tos pcb)
          (lwip_htons (of_nat (20 + length ?u))) (lwip_htons (ip_id s)) (nif_ip n)) (nif_ip n) dst ?u)) # tx_trace s"
    "arp_table s' = arp_table s"
    by (rule ip_output_ok [OF q1 _ _ assms(3)]) (use assms(9,10) in \<open>simp, simp, blast\<close>)
  have src: "udp_sendto_if_src E pcb (seg_write d p) dst port n (nif_ip n) w s = Some (LwOk, w', s')"
    using assms(9) q(1) wl o(1) unfolding c_def q1_def q0_def udp_sendto_if_src_def b(1) Let_def prod.case b(2)
    by (simp add: udp_room_def UDP_HLEN_def ql fl_def ttl Let_def del: of_nat_add)
  have "udp_sendto E pcb (seg_write d p) dst port w s = Some (LwOk, w', s')"
    using assms(4,5) src by (simp add: udp_sendto_def udp_sendto_if_def)
  then have e: "UdpSend_stack E (Some pcb) (Some dst) port (Some d) w s = Some (LwOk, w', s')"
    using assms(8) p ram_buf_release [OF p(2)] by (simp add: UdpSend_stack_def)
  show thesis by (rule that [OF e o(2,3) refl closed])
qed

end
