(* ===== verification/LwipStack_Props.thy ===== *)
theory LwipStack_Props
  imports LwipStack_Facts LwipUdpSend_Facts LwipNet_Props
begin

text \<open>
  The properties of the sending half of the stack and of address resolution: the invariant of the
  address table in every run, how long an entry lives, which one is given up, how a packet finds
  its way to a host that was not known.
\<close>

section \<open>A board for demonstrations\<close>

definition demo_tx_env :: tx_env where
  "demo_tx_env = \<lparr>heap = \<lambda>_ n. Some (4096, replicate (n - 16) 0), tx_buf = \<lambda>_. []\<rparr>"

definition demo_hw :: "u8 list" where "demo_hw = [2, 0, 0, 0, 0, 2]"

definition demo_nif :: netif where
  "demo_nif = \<lparr>nif_ip = IP4_ADDR 192 168 10 12, nif_netmask = IP4_ADDR 255 255 255 0, nif_gw = IP4_ADDR 192 168 10 1,
     nif_mtu = 1500, nif_flags = 0x2f, nif_hwaddr = demo_hw, nif_num = 0,
     nif_igmp = [new_group allsystems, new_group (IP4_ADDR 224 224 224 245)], nif_mac_filter = False\<rparr>"

definition demo_lwip :: lwip where
  "demo_lwip = \<lparr>lw_pool = demo_pool, lw_netifs = [demo_nif], lw_default = Some 0, lw_udp = board_udp\<rparr>"

definition demo_seg :: "u8 list \<Rightarrow> pbuf" where
  "demo_seg bs = \<lparr>p_head = \<lparr>seg_type = PBUF_RAM, seg_addr = 4096, seg_front = replicate 16 0, seg_data = bs, seg_tail = []\<rparr>,
     p_next = [], p_flags = 0, p_if_idx = 0\<rparr>"

lemma demo_nif_ok: "nif_ok demo_nif"
  by (simp add: nif_ok_def demo_nif_def has_flag_def new_group_def NETIF_FLAG_UP_def
      NETIF_FLAG_BROADCAST_def NETIF_FLAG_ETHARP_def NETIF_FLAG_IGMP_def)

lemma demo_nif_fields: "nif_num demo_nif = 0" "nif_hwaddr demo_nif = demo_hw" "nif_ip demo_nif = load32 192 168 10 12"
    "nif_netmask demo_nif = load32 255 255 255 0" "nif_mtu demo_nif = 1500" "length demo_hw = 6"
  by (simp_all add: demo_nif_def IP4_ADDR_load32 demo_hw_def)

lemma demo_tx [simp]: "heap_ok demo_tx_env" "heap_never_full demo_tx_env"
  by (simp_all add: demo_tx_env_def heap_never_full_def) (auto simp: heap_ok_def SIZEOF_STRUCT_PBUF_def)

lemma links_0: "st_lw (stack_0 w) = w" "st_tx (stack_0 w) = tx_state_0 []"
  by (simp_all add: stack_0_def)

lemma demo_links: "links demo_lwip = {link_of demo_nif}"
  by (simp add: links_def demo_lwip_def)

section \<open>The address table\<close>

lemma reach_arp_ok: "stack_reach E (stack_0 w) st \<Longrightarrow> arp_ok (links w) (st_tx st) \<and> lw_ok (links w) (st_lw st)"
  by (rule arp_inv.reach_keeps [where ?st0.0 = "stack_0 w"]) (simp_all add: links_0 arp_ok_0 lw_ok_links)

text \<open>
  C12: The address table stays well-formed in every run of the stack, in whatever order frames arrive, the
  application sends and the timer of the table runs, and whatever the memory of the heap does: the
  table has its ten entries; an empty entry is cleared; a packet waits only in an entry whose answer is
  awaited; an entry in use belongs to one of the interfaces of the stack and is for one host (its address is neither
  0.0.0.0 nor multicast nor a broadcast address of that interface), is younger than 5
  ticks while pending and than 300 when stable; no two entries in use are for the same address and interface;
  the number of the entry used last is one of the table.
\<close>
theorem arp_table_invariant:
  assumes "stack_reach E (stack_0 w) st"
  shows "arp_ok (links w) (st_tx st)"
  using reach_arp_ok [OF assms] by simp

theorem arp_table_invariant_witness:
  "\<exists>st. stack_timer demo_tx_env IFX_LWIP_FLAG_ARP (stack_0 demo_lwip) = Some st \<and> arp_ok {link_of demo_nif} (st_tx st)"
proof -
  have n: "lw_netifs (st_lw (stack_0 demo_lwip)) = [demo_nif]" "has_flag demo_nif NETIF_FLAG_LINK_UP"
    by (simp_all add: stack_0_def demo_lwip_def demo_nif_def has_flag_def NETIF_FLAG_LINK_UP_def)
  have ok: "arp_ok {link_of demo_nif} (tx_of (stack_0 demo_lwip))" by (simp add: tx_of_def links_0 arp_ok_0)
  have "fst ` {link_of demo_nif} \<subseteq> nif_num ` set [demo_nif]" by (simp add: link_of_def)
  then obtain s where s: "etharp_tmr demo_tx_env [demo_nif] (tx_of (stack_0 demo_lwip)) = Some s" using tmr_ok [OF ok] by metis
  let ?st = "put_tx s (stack_0 demo_lwip)"
  have t: "stack_timer demo_tx_env IFX_LWIP_FLAG_ARP (stack_0 demo_lwip) = Some ?st"
    using n s by (simp add: stack_timer_def with_tx_def IFX_LWIP_FLAG_ARP_def)
  have "arp_ok {link_of demo_nif} (st_tx ?st)"
    using arp_table_invariant [OF stack_reach.timer [OF stack_reach.start t]] by (simp add: demo_links)
  with t show ?thesis by blast
qed

text \<open>
  C38: No entry outlives its time. From every state the stack can reach, the timer of the table never gets stuck
  (no entry in use has lost its interface), and after \<open>k\<close> ticks with no use in between every entry is empty
  or at least \<open>k\<close> ticks old; so after 5 ticks no request is pending and no packet waits any
  more, and after 300 ticks the table is empty.
\<close>
theorem arp_entries_expire:
  assumes "stack_reach E (stack_0 w) st"
  shows "\<exists>s. arp_ticks E (lw_netifs (st_lw st)) k (st_tx st) = Some s \<and>
    (\<forall>e \<in> set (arp_table s). (e = arp_empty \<or> k \<le> unat (ae_ctime e)) \<and>
       (5 \<le> k \<longrightarrow> ae_state e \<noteq> ETHARP_STATE_PENDING \<and> ae_q e = None) \<and> (300 \<le> k \<longrightarrow> e = arp_empty))"
proof -
  note r = reach_arp_ok [OF assms]
  have "fst ` links w \<subseteq> nif_num ` set (lw_netifs (st_lw st))" using r by (simp add: lw_ok_def)
  then obtain s where s: "arp_ticks E (lw_netifs (st_lw st)) k (st_tx st) = Some s" "arp_ok (links w) s"
    "\<And>j. j < 10 \<Longrightarrow> arp_table s ! j = arp_empty \<or> k \<le> unat (ae_ctime (arp_table s ! j))"
    using ticks_ok [of "links w" "st_tx st" _ E k] r by blast
  have w: "arp_wf (links w) (arp_table s)" using s(2) by (simp add: arp_ok_def)
  have "(e = arp_empty \<or> k \<le> unat (ae_ctime e)) \<and>
       (5 \<le> k \<longrightarrow> ae_state e \<noteq> ETHARP_STATE_PENDING \<and> ae_q e = None) \<and> (300 \<le> k \<longrightarrow> e = arp_empty)"
    if m: "e \<in> set (arp_table s)" for e
  proof -
    obtain j where j: "j < 10" "e = arp_table s ! j" using m unfolding in_set_conv_nth arp_wf_length [OF w] by blast
    have eo: "entry_ok (links w) e" using arp_wf_entry [OF w j(1)] j(2) by simp
    have q: "ae_state e \<noteq> ETHARP_STATE_PENDING \<Longrightarrow> ae_q e = None" using eo by (auto simp: entry_ok_def split: if_splits)
    show ?thesis using s(3) [OF j(1)] j(2) ctime_bound [OF eo] q by fastforce
  qed
  with s(1) show ?thesis by blast
qed

theorem arp_entries_expire_witness:
  "\<exists>s. arp_ticks demo_tx_env [demo_nif] 300 (tx_state_0 []) = Some s \<and> (\<forall>e \<in> set (arp_table s). e = arp_empty)"
proof -
  have "lw_netifs (st_lw (stack_0 demo_lwip)) = [demo_nif]" by (simp add: stack_0_def demo_lwip_def)
  then show ?thesis using arp_entries_expire [OF stack_reach.start, of demo_tx_env demo_lwip 300] by (auto simp: links_0)
qed

lemma find_hit_unique:
  assumes "arp_ok N s" "e \<in> set (arp_table s)" "hit (Some ip) (Some nif) e"
  obtains i where "i < 10" "arp_at s i = e" "etharp_find_entry (Some ip) fl (Some nif) s = (Some i, s)"
proof -
  have "length (arp_table s) = 10" using assms(1) by (auto simp: arp_ok_def dest: arp_wf_length)
  then obtain i where i: "i < 10" "arp_at s i = e" using assms(2) by (auto simp: in_set_conv_nth arp_at_def)
  from that [OF i] find_known [OF assms(1) i(1)] assms(3) i(2) show thesis by simp
qed

text \<open>
  C39: Which entry an address gets. In a well-formed table, looking for an address with the right to make room
  never fails. An entry in use for the address on that interface is returned and nothing changes. Otherwise the
  address gets an empty entry if there is one; in a full table it gets the entry whose loss costs least:
  the oldest stable one, when there is none the oldest pending one without a waiting packet, and only then
  the oldest with a packet, whose buffers go back to the pool. The entry is then cleared for the new address,
  and all the others are as before.
\<close>
theorem address_gets_entry:
  assumes "arp_ok N s" "etharp_find_entry (Some ip) ETHARP_FLAG_TRY_HARD (Some nif) s = (r, s')"
  shows "\<exists>i. r = Some i \<and> i < 10 \<and>
    (if \<exists>e \<in> set (arp_table s). in_use e \<and> arp_key e = (ip, Some nif)
     then s' = s \<and> in_use (arp_at s i) \<and> arp_key (arp_at s i) = (ip, Some nif)
     else (if \<exists>e \<in> set (arp_table s). \<not> in_use e then \<not> in_use (arp_at s i) else victim (arp_table s) i) \<and>
       arp_table s' = (arp_table s)[i := claimed ip nif] \<and>
       tx_pool s' = tx_pool (case ae_q (arp_at s i) of Some q \<Rightarrow> pbuf_release q s | None \<Rightarrow> s))"
proof -
  have w: "arp_wf N (arp_table s)" using assms(1) by (simp add: arp_ok_def)
  have l: "length (arp_table s) = 10" by (rule arp_wf_length [OF w])
  have h: "hit (Some ip) (Some nif) e \<longleftrightarrow> in_use e \<and> arp_key e = (ip, Some nif)" for e
    by (auto simp: hit_def arp_match_def arp_key_def in_use_def)
  have empty: "e = arp_empty" if "e \<in> set (arp_table s)" "\<not> in_use e" for e
    using w that by (auto simp: arp_wf_def entry_ok_def in_use_def)
  have cl: "e\<lparr>ae_ipaddr := ip, ae_ctime := 0, ae_netif := Some nif\<rparr> = claimed ip nif" if "e = arp_empty" for e
    using that by (simp add: claimed_def)
  from assms(2) show ?thesis
  proof (cases rule: find_entry_cases)
    case (found i)
    with l have "arp_at s i \<in> set (arp_table s)" by (simp add: arp_at_def)
    with found l show ?thesis by (auto simp: h arp_at_def)
  next
    case fails
    with l show ?thesis by (auto simp: ETHARP_FLAG_TRY_HARD_def ETHARP_FLAG_FIND_ONLY_def)
  next
    case (fresh i)
    then have e: "arp_at s i = arp_empty" "arp_at s i \<in> set (arp_table s)" "\<not> in_use (arp_at s i)"
      using empty l by (auto simp: arp_at_def in_use_def)
    with fresh l show ?thesis
      by (auto simp: h claim_entry_def cl Let_def)
  next
    case (recycled i)
    then have i: "i < 10" "\<forall>e \<in> set (arp_table s). in_use e" using l by (auto simp: victim_def in_use_def)
    have "arp_at (etharp_free_entry i s) i = arp_empty" using i(1) l by (simp add: arp_at_def)
    moreover have "tx_pool (etharp_free_entry i s) = tx_pool (case ae_q (arp_at s i) of Some q \<Rightarrow> pbuf_release q s | None \<Rightarrow> s)"
      by (simp add: etharp_free_entry_def Let_def)
    ultimately show ?thesis using recycled i
      by (auto simp: h claim_entry_def cl Let_def)
  qed
qed

text \<open>A full table of stable entries, number 9 the oldest.\<close>

definition demo_entry :: "nat \<Rightarrow> etharp_entry" where
  "demo_entry i = \<lparr>ae_q = None, ae_ipaddr = load32 192 168 10 (of_nat i + 100), ae_netif = Some 0, ae_ethaddr = ethzero,
     ae_ctime = of_nat i, ae_state = ETHARP_STATE_STABLE\<rparr>"

definition demo_full :: tx_state where
  "demo_full = (tx_state_0 [])\<lparr>arp_table := map demo_entry [0..<10]\<rparr>"

lemma demo_full_at: "i < 10 \<Longrightarrow> arp_table demo_full ! i = demo_entry i" "length (arp_table demo_full) = 10"
  "set (arp_table demo_full) = demo_entry ` {..<10}"
  by (auto simp: demo_full_def lessThan_atLeast0)

lemma demo_entry_ok:
  assumes "i < 10"
  shows "entry_ok {link_of demo_nif} (demo_entry i)"
proof -
  have b: "(word_of_nat i :: u8) \<noteq> 155" using assms by (simp add: word_unat_eq_iff unat_of_nat take_bit_nat_eq_self)
  show ?thesis using assms b
    by (simp add: entry_ok_def demo_entry_def link_of_def demo_nif_fields isbroadcast_load32 [OF demo_nif_ok] is_bcast_def
        ismulticast_load32 is_mcast_def ip4_addr_isany_val_def addr_consts load32_eq_iff
        ARP_MAXAGE_def word_less_nat_alt unat_of_nat take_bit_nat_eq_self)
qed

lemma demo_key: "i < 10 \<Longrightarrow> j < 10 \<Longrightarrow> arp_key (demo_entry i) = arp_key (demo_entry j) \<Longrightarrow> i = j"
  by (simp add: arp_key_def demo_entry_def load32_eq_iff) (simp add: word_unat_eq_iff unat_of_nat take_bit_nat_eq_self)

lemma demo_full_ok: "arp_ok {link_of demo_nif} demo_full"
proof -
  have "etharp_cached_entry demo_full = 0" by (simp add: demo_full_def tx_state_0_def)
  then show ?thesis using demo_entry_ok demo_key
    by (auto simp: arp_ok_def arp_wf_def demo_full_at ARP_TABLE_SIZE_def)
qed

theorem address_gets_entry_witness:
  "\<exists>s'. etharp_find_entry (Some (load32 192 168 10 1)) ETHARP_FLAG_TRY_HARD (Some 0) demo_full = (Some 9, s') \<and>
    arp_table s' = (arp_table demo_full)[9 := claimed (load32 192 168 10 1) 0]"
proof -
  let ?ip = "load32 192 168 10 1"
  obtain r s' where f: "etharp_find_entry (Some ?ip) ETHARP_FLAG_TRY_HARD (Some 0) demo_full = (r, s')" by fastforce
  have "(of_nat i + 100 :: u8) \<noteq> 1" if "i < 10" for i :: nat
    using that by (simp add: word_unat_eq_iff unat_word_ariths unat_of_nat take_bit_nat_eq_self)
  then have "\<not> (\<exists>e \<in> set (arp_table demo_full). in_use e \<and> arp_key e = (?ip, Some 0))" "\<not> (\<exists>e \<in> set (arp_table demo_full). \<not> in_use e)"
    by (auto simp: demo_full_at arp_key_def demo_entry_def load32_eq_iff in_use_def)
  with address_gets_entry [OF demo_full_ok f] obtain i where i: "r = Some i" "i < 10" "victim (arp_table demo_full) i"
    "arp_table s' = (arp_table demo_full)[i := claimed ?ip 0]" by auto
  have "stable_entry (demo_entry 9)" by (simp add: stable_entry_def demo_entry_def)
  then have "\<exists>e \<in> set (arp_table demo_full). stable_entry e"
    unfolding demo_full_at(3) by (intro bexI [of _ "demo_entry 9"]) simp_all
  then have "ae_ctime (demo_entry 9) \<le> ae_ctime (demo_entry i)"
    using i(2,3) \<open>stable_entry (demo_entry 9)\<close> by (auto simp: victim_def demo_full_at)
  then have "i = 9" using i(2) by (simp add: demo_entry_def word_le_nat_alt unat_of_nat take_bit_nat_eq_self)
  with f i show ?thesis by simp
qed

section \<open>Resolution\<close>

lemma unknown_find:
  assumes "arp_ok N s" "\<not> known n hop s"
  shows "\<not> stable_for n hop (arp_at s (etharp_cached_entry s))"
    "find (\<lambda>i. stable_for n hop (arp_at s i)) [0..<ARP_TABLE_SIZE] = None"
proof -
  have w: "length (arp_table s) = 10" "etharp_cached_entry s < 10"
    using assms(1) by (auto simp: arp_ok_def ARP_TABLE_SIZE_def dest: arp_wf_length)
  have n: "\<not> stable_for n hop (arp_at s i)" if "i < 10" for i
  proof
    assume "stable_for n hop (arp_at s i)"
    moreover have "arp_at s i \<in> set (arp_table s)" using that w(1) by (simp add: arp_at_def)
    ultimately show False using assms(2) by (auto simp: known_def stable_for_def in_use_def arp_key_def)
  qed
  show "\<not> stable_for n hop (arp_at s (etharp_cached_entry s))" by (rule n [OF w(2)])
  show "find (\<lambda>i. stable_for n hop (arp_at s i)) [0..<ARP_TABLE_SIZE] = None"
    using n by (auto simp: find_None_iff ARP_TABLE_SIZE_def)
qed

text \<open>An answer to the board, in a buffer of any kind.\<close>

lemma reply_input:
  assumes "seg_from (p_head p) = etharp_hdr mac hop mac' (nif_ip n) ARP_REPLY @ rest" "length mac = 6" "length mac' = 6"
    "\<not> ip4_addr_isany_val (nif_ip n)"
  shows "etharp_input E p n s =
    Some (pbuf_release p (snd (etharp_update_arp_entry E n hop mac ETHARP_FLAG_TRY_HARD s)))"
proof -
  let ?h = "seg_from (p_head p)"
  note f = etharp_hdr_fields [OF assms(2,3) assms(1)]
  have l: "\<not> length ?h < SIZEOF_ETHARP_HDR"
    using length_etharp_hdr [OF assms(2,3)] by (simp add: assms(1) SIZEOF_ETHARP_HDR_def)
  have r: "lwip_htons ARP_REPLY \<noteq> lwip_htons ARP_REQUEST" by (simp add: ARP_REPLY_def ARP_REQUEST_def lwip_htons_def push_bit_eq_mult)
  show ?thesis
    unfolding etharp_input_def Let_def f using l r assms(4) by (simp add: split_beta)
qed

text \<open>The packet \<open>q\<close> waits in entry \<open>i\<close> for the hardware address of \<open>hop\<close>.\<close>

definition holds_packet :: "netif \<Rightarrow> u32 \<Rightarrow> pbuf \<Rightarrow> nat \<Rightarrow> tx_state \<Rightarrow> bool" where
  "holds_packet n hop q i s \<longleftrightarrow> i < 10 \<and> in_use (arp_at s i) \<and> arp_key (arp_at s i) = (hop, Some (nif_num n)) \<and> ae_q (arp_at s i) = Some q"

lemma answer_sends:
  assumes "arp_ok N t" "link_of n \<in> N" "length (nif_hwaddr n) = 6"
    "\<not> ip4_addr_isbroadcast_u32 ip n" "\<not> ip4_addr_ismulticast ip" "arp_next_hop n ip = Some hop" "unicast n hop"
    "sendable q" "\<not> ip4_addr_isany_val (nif_ip n)" "holds_packet n hop q i t" "length mac = 6" "length mac' = 6" "sendable q2"
    "seg_from (p_head p) = etharp_hdr mac hop mac' (nif_ip n) ARP_REPLY @ rest"
  shows "\<exists>t2 t3. etharp_input E p n t = Some t2 \<and>
    tx_trace t2 = SentFrame (eth_frame mac (nif_hwaddr n) ETHTYPE_IP (p_bytes q)) # tx_trace t \<and>
    etharp_output E n q2 ip t2 = (LwOk, t3) \<and>
    tx_trace t3 = SentFrame (eth_frame mac (nif_hwaddr n) ETHTYPE_IP (p_bytes q2)) # tx_trace t2"
proof -
  have c: "i < 10" "in_use (arp_at t i)" "arp_key (arp_at t i) = (hop, Some (nif_num n))" "ae_q (arp_at t i) = Some q"
    using assms(10) by (simp_all add: holds_packet_def)
  obtain s2 where s2: "etharp_update_arp_entry E n hop mac ETHARP_FLAG_TRY_HARD t = (LwOk, s2)" "arp_ok N s2"
    "arp_at s2 i = (arp_at t i)\<lparr>ae_q := None, ae_ethaddr := mac, ae_ctime := 0, ae_state := ETHARP_STATE_STABLE\<rparr>"
    "tx_trace s2 = (case ae_q (arp_at t i) of Some q \<Rightarrow> [SentFrame (eth_frame mac (nif_hwaddr n) ETHTYPE_IP (p_bytes q))] | None \<Rightarrow> []) @
       tx_trace t"
    by (rule update_known [OF assms(1,2,7) c(1-3) assms(3,11)]) (use c(4) assms(8) in auto)
  let ?s2 = "pbuf_release p s2"
  have i2: "etharp_input E p n t = Some ?s2" using reply_input [OF assms(14,11,12,9)] s2(1) by simp
  have e2: "arp_at ?s2 i = arp_at s2 i" by (simp add: arp_at_def)
  have st: "stable_for n hop (arp_at ?s2 i)" "ae_ctime (arp_at ?s2 i) < ARP_AGE_REREQUEST_USED_UNICAST"
    "ae_ethaddr (arp_at ?s2 i) = mac"
    unfolding e2 s2(3) using c(3) by (simp_all add: stable_for_def arp_key_def ARP_AGE_REREQUEST_USED_UNICAST_def ARP_MAXAGE_def)
  have ok: "arp_ok N ?s2" using s2(2) by simp
  note send = stable_send [OF ok c(1) st(1,2) assms(4-6,13,3), of E]
  have "etharp_output E n q2 ip ?s2 = (LwOk, snd (etharp_output E n q2 ip ?s2))"
    using send st(3) assms(11) by (metis prod.collapse)
  then show ?thesis using i2 s2(4) c(4) send st(3) assms(11) by auto
qed

text \<open>
  C13: Address resolution. Suppose that the heap gives a buffer whenever it is asked and that the interface has an IP address
  and a hardware address of six bytes. A packet of the stack's own buffers (no
  references, room for the Ethernet header) for a unicast host with a next hop that the table does not know makes
  the stack broadcast a request for the address of the next hop; the packet is not sent but put into an entry of the
  table, a full one included. From then on the stack may do anything: in every later well-formed state in which the entry still holds the
  packet (it does not when another packet for the address has taken its place, when the entry was given up
  for another address, or after five ticks), an answer for the board sends the packet, byte for byte, to the hardware
  address of the answer, and the next packet with room for the header goes there at once, without a request.
\<close>
theorem address_resolved:
  assumes "arp_ok N s" "link_of n \<in> N" "heap_ok E" "heap_never_full E" "length (nif_hwaddr n) = 6"
    "\<not> ip4_addr_isbroadcast_u32 ip n" "\<not> ip4_addr_ismulticast ip" "arp_next_hop n ip = Some hop" "unicast n hop"
    "\<not> known n hop s" "sendable q" "\<forall>b \<in> set (p_segs q). seg_type b \<noteq> PBUF_REF" "\<not> ip4_addr_isany_val (nif_ip n)"
  shows "\<exists>s1 i. etharp_output E n q ip s = (LwOk, s1) \<and> tx_trace s1 = SentFrame (request_frame n hop) # tx_trace s \<and>
    arp_ok N s1 \<and> holds_packet n hop q i s1 \<and>
    (\<forall>t p mac mac' rest q2. arp_ok N t \<and> holds_packet n hop q i t \<and> length mac = 6 \<and> length mac' = 6 \<and> sendable q2 \<and>
       seg_from (p_head p) = etharp_hdr mac hop mac' (nif_ip n) ARP_REPLY @ rest \<longrightarrow>
       (\<exists>t2 t3. etharp_input E p n t = Some t2 \<and>
          tx_trace t2 = SentFrame (eth_frame mac (nif_hwaddr n) ETHTYPE_IP (p_bytes q)) # tx_trace t \<and>
          etharp_output E n q2 ip t2 = (LwOk, t3) \<and>
          tx_trace t3 = SentFrame (eth_frame mac (nif_hwaddr n) ETHTYPE_IP (p_bytes q2)) # tx_trace t2))"
proof -
  obtain i s1 where s1: "etharp_query E n hop (Some q) s = (LwOk, s1)" "arp_ok N s1" "i < 10"
    "arp_at s1 i = (claimed hop (nif_num n))\<lparr>ae_state := ETHARP_STATE_PENDING, ae_q := Some q\<rparr>"
    "tx_trace s1 = SentFrame (request_frame n hop) # tx_trace s"
    by (rule query_unknown [OF assms(1,2,9,10,12,3,4,5)])
  have o1: "etharp_output E n q ip s = (LwOk, s1)"
    using unknown_find [OF assms(1,10)] assms(6-8) s1(1) by (simp add: etharp_output_def)
  have h: "holds_packet n hop q i s1"
    by (simp add: holds_packet_def s1(3,4) in_use_def arp_key_def claimed_def)
  have a: "\<exists>t2 t3. etharp_input E p n t = Some t2 \<and>
      tx_trace t2 = SentFrame (eth_frame mac (nif_hwaddr n) ETHTYPE_IP (p_bytes q)) # tx_trace t \<and>
      etharp_output E n q2 ip t2 = (LwOk, t3) \<and>
      tx_trace t3 = SentFrame (eth_frame mac (nif_hwaddr n) ETHTYPE_IP (p_bytes q2)) # tx_trace t2"
    if "arp_ok N t \<and> holds_packet n hop q i t \<and> length mac = 6 \<and> length mac' = 6 \<and> sendable q2 \<and>
      seg_from (p_head p) = etharp_hdr mac hop mac' (nif_ip n) ARP_REPLY @ rest" for t p mac mac' rest q2
    using that by (elim conjE) (rule answer_sends [OF _ assms(2,5-9,11,13)])
  show ?thesis by (intro exI [of _ s1] exI [of _ i]) (use o1 s1(2,5) h a in blast)
qed

abbreviation demo_host :: u32 where "demo_host \<equiv> load32 192 168 10 1"

lemma demo_host_unicast: "\<not> ip4_addr_isbroadcast_u32 demo_host demo_nif" "\<not> ip4_addr_ismulticast demo_host"
    "\<not> ip4_addr_isany_val demo_host" "\<not> ip4_addr_isany_val (nif_ip demo_nif)" "arp_next_hop demo_nif demo_host = Some demo_host"
  by (simp_all add: isbroadcast_load32 [OF demo_nif_ok] ismulticast_load32 is_bcast_def is_mcast_def ip4_addr_isany_val_def
      addr_consts load32_eq_iff demo_nif_fields arp_next_hop_def ip4_addr_netcmp_def load32_and)

lemma demo_seg_sendable: "length bs < 1000 \<Longrightarrow> sendable (demo_seg bs)" "p_bytes (demo_seg bs) = bs"
    "\<forall>b \<in> set (p_segs (demo_seg bs)). seg_type b \<noteq> PBUF_REF" "seg_from (p_head (demo_seg bs)) = bs"
  by (simp_all add: demo_seg_def sendable_def contiguous_def p_tot_len_bytes p_bytes_segs p_segs_def seg_from_def)

definition demo_peer :: "u8 list" where "demo_peer = [2, 0, 0, 0, 0, 1]"

definition demo_reply :: pbuf where
  "demo_reply = demo_seg (etharp_hdr demo_peer demo_host demo_hw (nif_ip demo_nif) ARP_REPLY)"

theorem address_resolved_witness:
  "\<exists>s1 s2 s3. etharp_output demo_tx_env demo_nif (demo_seg [1, 2, 3]) demo_host (tx_state_0 []) = (LwOk, s1) \<and>
    etharp_input demo_tx_env demo_reply demo_nif s1 = Some s2 \<and>
    etharp_output demo_tx_env demo_nif (demo_seg [4]) demo_host s2 = (LwOk, s3) \<and>
    tx_trace s3 = [SentFrame (eth_frame demo_peer demo_hw ETHTYPE_IP [4]), SentFrame (eth_frame demo_peer demo_hw ETHTYPE_IP [1, 2, 3]),
      SentFrame (request_frame demo_nif demo_host)]"
proof -
  have uc: "unicast demo_nif demo_host" using demo_host_unicast by (simp add: unicast_def)
  have uk: "\<not> known demo_nif demo_host (tx_state_0 [])" by (simp add: known_def tx_state_0_def)
  have tr: "tx_trace (tx_state_0 []) = []" by (simp add: tx_state_0_def)
  have l: "length demo_peer = 6" by (simp add: demo_peer_def)
  have se: "sendable (demo_seg [1, 2, 3])" "sendable (demo_seg [4])" by (simp_all add: demo_seg_sendable)
  have rp: "seg_from (p_head demo_reply) = etharp_hdr demo_peer demo_host demo_hw (nif_ip demo_nif) ARP_REPLY @ []"
    by (simp add: demo_reply_def demo_seg_sendable)
  have ok: "arp_ok {link_of demo_nif} (tx_state_0 [])" by (rule arp_ok_0)
  have n0: "link_of demo_nif \<in> {link_of demo_nif}" "length (nif_hwaddr demo_nif) = 6" "length demo_hw = 6" by (simp_all add: demo_nif_fields)
  obtain s1 i where s1: "etharp_output demo_tx_env demo_nif (demo_seg [1, 2, 3]) demo_host (tx_state_0 []) = (LwOk, s1)"
    "tx_trace s1 = SentFrame (request_frame demo_nif demo_host) # tx_trace (tx_state_0 [])"
    "arp_ok {link_of demo_nif} s1" "holds_packet demo_nif demo_host (demo_seg [1, 2, 3]) i s1"
    "\<forall>t p mac mac' rest q2. arp_ok {link_of demo_nif} t \<and> holds_packet demo_nif demo_host (demo_seg [1, 2, 3]) i t \<and>
       length mac = 6 \<and> length mac' = 6 \<and> sendable q2 \<and>
       seg_from (p_head p) = etharp_hdr mac demo_host mac' (nif_ip demo_nif) ARP_REPLY @ rest \<longrightarrow>
       (\<exists>t2 t3. etharp_input demo_tx_env p demo_nif t = Some t2 \<and>
          tx_trace t2 = SentFrame (eth_frame mac (nif_hwaddr demo_nif) ETHTYPE_IP (p_bytes (demo_seg [1, 2, 3]))) # tx_trace t \<and>
          etharp_output demo_tx_env demo_nif q2 demo_host t2 = (LwOk, t3) \<and>
          tx_trace t3 = SentFrame (eth_frame mac (nif_hwaddr demo_nif) ETHTYPE_IP (p_bytes q2)) # tx_trace t2)"
    using address_resolved [OF ok n0(1) demo_tx n0(2) demo_host_unicast(1,2,5) uc uk se(1) demo_seg_sendable(3) demo_host_unicast(4)] by blast
  from s1(5) [rule_format, OF conjI [OF s1(3) conjI [OF s1(4) conjI [OF l conjI [OF n0(3) conjI [OF se(2) rp]]]]]] s1(1,2)
  show ?thesis by (auto simp: tr demo_seg_sendable demo_nif_fields)
qed

section \<open>What is sent\<close>

lemma udp_hdr_fields:
  assumes "u = udp_hdr sp dp len c @ d"
  shows "be16 u 0 = unat sp" "be16 u 2 = unat dp" "be16 u 4 = unat len" "be16 u 6 = unat (lwip_ntohs c)" "drop 8 u = d" "length u = 8 + length d"
proof -
  have h: "u = store16 (lwip_htons sp) @ store16 (lwip_htons dp) @ store16 (lwip_htons len) @ store16 c @ d"
    using assms by (simp add: udp_hdr_def)
  have "at16 u 0 = lwip_htons sp" unfolding h using at16_store [of "[]" 0] by simp
  then show "be16 u 0 = unat sp" by (simp add: be16_at16)
  have "at16 u 2 = lwip_htons dp" unfolding h by (rule at16_store) simp
  then show "be16 u 2 = unat dp" by (simp add: be16_at16)
  have "at16 ((store16 (lwip_htons sp) @ store16 (lwip_htons dp)) @ store16 (lwip_htons len) @ store16 c @ d) 4 = lwip_htons len"
    by (rule at16_store) simp
  then show "be16 u 4 = unat len" unfolding h by (simp add: be16_at16)
  have "at16 ((store16 (lwip_htons sp) @ store16 (lwip_htons dp) @ store16 (lwip_htons len)) @ store16 c @ d) 6 = c"
    by (rule at16_store) simp
  then show "be16 u 6 = unat (lwip_ntohs c)" unfolding h by (simp add: be16_at16)
  show "drop 8 u = d" "length u = 8 + length d" by (simp_all add: assms)
qed

text \<open>What the packet that leaves says to its receiver.\<close>

abbreviation sent_packet :: "upcb \<Rightarrow> u16 \<Rightarrow> u32 \<Rightarrow> u32 \<Rightarrow> u8 list \<Rightarrow> u8 list" where
  "sent_packet pcb ident src dst u \<equiv>
     udp_packet (pcb_tos pcb) ident (udp_ttl pcb dst) (inline_chksum [] IP_PROTO_UDP (udp_ttl pcb dst) dst 0x45
       (pcb_tos pcb) (lwip_htons (of_nat (20 + length u))) (lwip_htons ident) src) src dst u"

lemma sent_packet_read:
  assumes "u = udp_hdr sp port (of_nat (8 + length d)) c @ d" "c \<noteq> 0" "length d < 50000"
    "(pseudo_sum IP_PROTO_UDP (of_nat (length u)) src dst + le_sum u) mod 65535 = 0" "bs = sent_packet pcb ident src dst u"
  shows "length bs = 28 + length d \<and>
    ip_header_ok bs \<and> be16 bs 6 = 0 \<and> bs ! 9 = IP_PROTO_UDP \<and> at32 bs 12 = src \<and> at32 bs 16 = dst \<and>
    (let u = ip_payload bs in be16 u 0 = unat sp \<and> be16 u 2 = unat port \<and> be16 u 4 = length u \<and>
       be16 u 6 \<noteq> 0 \<and> udp_sum (addr4 bs 12) (addr4 bs 16) u mod 65535 = 0 \<and> length u = 8 + length d \<and> drop 8 u = d)"
proof -
  note f = udp_packet_fields [OF assms(5)] and h = udp_hdr_fields [OF assms(1)]
  have lu: "length u < 65000" using h(6) assms(3) by simp
  note o = udp_packet_ok [OF lu assms(5)]
  have len: "unat (of_nat (8 + length d) :: u16) = length u"
    using assms(3) h(6) by (simp add: unat_of_nat take_bit_nat_eq_self del: of_nat_add)
  have "c = lwip_ntohs (lwip_ntohs c)" using ntohs_htons [of c] by (simp add: lwip_ntohs_def)
  moreover have "lwip_ntohs 0 = 0" by (simp add: lwip_ntohs_def lwip_htons_def)
  ultimately have "lwip_ntohs c \<noteq> 0" using assms(2) by metis
  then have c: "be16 u 6 \<noteq> 0" by (simp add: h(4) unat_eq_0)
  have "udp_sum (addr4 bs 12) (addr4 bs 16) u mod 65535 = 0"
    by (rule pseudo_closed_be) (use lu assms(4) f(5,6) in simp_all)
  then have u: "let u = ip_payload bs in be16 u 0 = unat sp \<and> be16 u 2 = unat port \<and> be16 u 4 = length u \<and>
       be16 u 6 \<noteq> 0 \<and> udp_sum (addr4 bs 12) (addr4 bs 16) u mod 65535 = 0 \<and> length u = 8 + length d \<and> drop 8 u = d"
    using c h(1-3,5,6) len unfolding Let_def o(2) by simp
  have "length bs = 28 + length d" using f(8) h(6) by simp
  with o(1,3) f(4-6) u show ?thesis by blast
qed

text \<open>
  C40: What the application sends is what a receiver reads. Suppose that the heap gives a buffer whenever it is asked, that the stack routes the
  destination over the interface, that the address table has a stable entry for the next hop to a unicast destination, younger than the 270 ticks after which its use would
  also send a new request, that the control block is bound to no single address and has its checksum
  on, and that the data, not empty, fit the MTU of the interface with the 28 bytes of headers and are fewer than 50000 bytes (the MTU of the board is 1500). Then
  \<open>UdpSend_WithPcb\<close> sends one Ethernet frame, to the hardware address of the next hop, and nothing
  else. It holds an IPv4 packet whose header checksum is correct, which is not a fragment, from the address of
  the interface to the destination, and in it a UDP datagram with the ports, the
  length and exactly the data given, whose checksum is there and correct. A control block that has no port yet, as that of
  the board at first, is bound to a free one and sends from it (\<open>source_port\<close>). The
  address table is unchanged.
\<close>
theorem datagram_sent:
  assumes "heap_ok E" "heap_never_full E" "reachable_by N n dst i s" "udp_route pcb dst w = Some n"
    "ip4_addr_isany_val (pcb_local_ip pcb)" "source_port pcb w = Some (sp, w')" "pcb_flags pcb AND UDP_FLAGS_NOCHKSUM = 0"
    "d \<noteq> []" "length d < 50000" "28 + length d \<le> unat (nif_mtu n)"
  shows "\<exists>s' bs. UdpSend_stack E (Some pcb) (Some dst) port (Some d) w s = Some (LwOk, w', s') \<and>
    tx_trace s' = SentFrame (eth_frame (ae_ethaddr (arp_at s i)) (nif_hwaddr n) ETHTYPE_IP bs) # tx_trace s \<and>
    arp_table s' = arp_table s \<and> length bs = 28 + length d \<and>
    ip_header_ok bs \<and> be16 bs 6 = 0 \<and> bs ! 9 = IP_PROTO_UDP \<and> at32 bs 12 = nif_ip n \<and> at32 bs 16 = dst \<and>
    (let u = ip_payload bs in be16 u 0 = unat sp \<and> be16 u 2 = unat port \<and> be16 u 4 = length u \<and>
       be16 u 6 \<noteq> 0 \<and> udp_sum (addr4 bs 12) (addr4 bs 16) u mod 65535 = 0 \<and> length u = 8 + length d \<and> drop 8 u = d)"
proof -
  obtain s' u c where s: "UdpSend_stack E (Some pcb) (Some dst) port (Some d) w s = Some (LwOk, w', s')"
    "tx_trace s' = SentFrame (eth_frame (ae_ethaddr (arp_at s i)) (nif_hwaddr n) ETHTYPE_IP (sent_packet pcb (ip_id s) (nif_ip n) dst u)) #
       tx_trace s"
    "arp_table s' = arp_table s" "u = udp_hdr sp port (of_nat (8 + length d)) c @ d" "c \<noteq> 0"
    "(pseudo_sum IP_PROTO_UDP (of_nat (length u)) (nif_ip n) dst + le_sum u) mod 65535 = 0"
    by (rule app_send_ok [OF assms])
  from sent_packet_read [OF s(4,5) assms(9) s(6) refl] s(1-3) show ?thesis by blast
qed

definition demo_known :: tx_state where
  "demo_known = (tx_state_0 [])\<lparr>arp_table := (replicate 10 arp_empty)[0 := (claimed demo_host 0)\<lparr>ae_ethaddr := demo_peer,
     ae_state := ETHARP_STATE_STABLE\<rparr>]\<rparr>"

definition demo_pcb :: upcb where "demo_pcb = (new_pcb 9)\<lparr>pcb_local_port := 5001\<rparr>"

lemma demo_known_at: "arp_at demo_known 0 = (claimed demo_host 0)\<lparr>ae_ethaddr := demo_peer, ae_state := ETHARP_STATE_STABLE\<rparr>"
  by (simp add: demo_known_def arp_at_def)

lemma demo_known_reachable: "reachable_by {link_of demo_nif} demo_nif demo_host 0 demo_known"
proof -
  let ?e = "(claimed demo_host 0)\<lparr>ae_ethaddr := demo_peer, ae_state := ETHARP_STATE_STABLE\<rparr>"
  have e: "entry_ok {link_of demo_nif} ?e"
    using demo_host_unicast by (simp add: entry_ok_def claimed_def ARP_MAXAGE_def link_of_def demo_nif_fields)
  have "arp_wf {link_of demo_nif} (replicate 10 arp_empty)" by (simp add: arp_wf_def ARP_TABLE_SIZE_def)
  then have "arp_wf {link_of demo_nif} ((replicate 10 arp_empty)[0 := ?e])" by (rule wf_update [OF _ e]) simp
  then have "arp_ok {link_of demo_nif} demo_known" by (simp add: arp_ok_def demo_known_def tx_state_0_def ARP_TABLE_SIZE_def)
  then show ?thesis
    using demo_host_unicast
    by (simp add: reachable_by_def demo_known_at stable_for_def claimed_def demo_nif_fields demo_peer_def
        ARP_AGE_REREQUEST_USED_UNICAST_def ARP_MAXAGE_def)
qed

lemma demo_pcb_fields: "ip4_addr_isany_val (pcb_local_ip demo_pcb)" "pcb_local_port demo_pcb = 5001"
    "pcb_flags demo_pcb AND UDP_FLAGS_NOCHKSUM = 0"
  by (simp_all add: demo_pcb_def new_pcb_def ip4_addr_isany_val_def IPADDR_ANY_def)

lemma demo_route: "udp_route demo_pcb demo_host demo_lwip = Some demo_nif"
proof -
  have "route_match demo_host demo_nif"
    using demo_host_unicast(4)
    by (simp add: route_match_def netif_is_up_def netif_is_link_up_def ip4_addr_netcmp_def demo_nif_fields load32_and)
       (simp add: demo_nif_def has_flag_def NETIF_FLAG_UP_def NETIF_FLAG_LINK_UP_def)
  then show ?thesis
    using demo_host_unicast(2)
    by (simp add: udp_route_def demo_pcb_def new_pcb_def NETIF_NO_INDEX_def ip4_route_def demo_lwip_def)
qed

theorem datagram_sent_witness:
  "\<exists>s' bs. UdpSend_stack demo_tx_env (Some demo_pcb) (Some demo_host) 5001 (Some [1, 2, 3]) demo_lwip demo_known = Some (LwOk, demo_lwip, s') \<and>
    tx_trace s' = [SentFrame (eth_frame demo_peer demo_hw ETHTYPE_IP bs)] \<and> ip_header_ok bs \<and> drop 8 (ip_payload bs) = [1, 2, 3]"
proof -
  have t: "tx_trace demo_known = []" by (simp add: demo_known_def tx_state_0_def)
  have sp: "source_port demo_pcb demo_lwip = Some (5001, demo_lwip)" by (simp add: source_port_def demo_pcb_fields)
  have d: "[1, 2, 3 :: u8] \<noteq> []" "length [1, 2, 3 :: u8] < 50000" "28 + length [1, 2, 3 :: u8] \<le> unat (nif_mtu demo_nif)"
    by (simp_all add: demo_nif_fields)
  show ?thesis
    using datagram_sent [OF demo_tx demo_known_reachable demo_route demo_pcb_fields(1) sp demo_pcb_fields(3) d, of 5001]
    by (auto simp: t demo_known_at demo_nif_fields Let_def)
qed

text \<open>A short frame is padded by the MAC.\<close>

lemma padded_command:
  assumes "length a = 6" "length c = 6" "ip_header_ok bs"
  shows "frame_command (eth_frame a c t bs @ pad) = frame_command (eth_frame a c t bs)"
proof -
  have l: "20 \<le> length bs" "ip_hlen bs \<le> length bs" "ip_len bs \<le> length bs" "20 \<le> ip_hlen bs"
    using assms(3) by (auto simp: ip_header_ok_def)
  have be: "be16 (bs @ pad) i = be16 bs i" if "i < 19" for i using that l(1) by (simp add: be16_def nth_append)
  have h: "ip_hlen (bs @ pad) = ip_hlen bs" "ip_len (bs @ pad) = ip_len bs" "(bs @ pad) ! 9 = bs ! 9" "(bs @ pad) ! 0 = bs ! 0"
    using l(1) be by (cases bs; simp add: ip_hlen_def ip_len_def nth_append)+
  have p: "ip_payload (bs @ pad) = ip_payload bs" using h l by (simp add: ip_payload_def)
  have ok: "ip_header_ok (bs @ pad)" using assms(3) h l by (simp add: ip_header_ok_def)
  have ad: "addr4 (bs @ pad) 12 = addr4 bs 12" "addr4 (bs @ pad) 16 = addr4 bs 16" using l(1) by (simp_all add: addr4_def nth_append)
  have "ip_command (bs @ pad) = ip_command bs" using ok assms(3) by (simp add: ip_command_def ad p h be)
  moreover have "drop 14 (eth_frame a c t bs @ pad) = bs @ pad" "drop 14 (eth_frame a c t bs) = bs"
    "be16 (eth_frame a c t bs @ pad) 12 = be16 (eth_frame a c t bs) 12" "14 < length (eth_frame a c t bs)"
    using assms(1,2) l(1) by (cases bs; simp add: eth_frame_def be16_def nth_append)+
  ultimately show ?thesis by (simp add: frame_command_def Let_def p ad)
qed

text \<open>
  C8: A command that one stack sends is obeyed by the board. Take a sender with this stack, at any unicast address, that
  sends a datagram to port 5000 or 5110 of 192.168.10.12. When the frame it sends comes in on the board, padded or not, in
  any state the start leads to and with buffers in the pool, one poll hands exactly the
  data that were sent, and the sender's address, to the command receiver.
\<close>
theorem sent_command_obeyed:
  assumes "heap_ok E" "heap_never_full E" "reachable_by N n dst i s" "udp_route pcb dst w = Some n"
    "ip4_addr_isany_val (pcb_local_ip pcb)" "pcb_local_port pcb \<noteq> 0" "pcb_flags pcb AND UDP_FLAGS_NOCHKSUM = 0"
    "d \<noteq> []" "length d < 1400" "28 + length d \<le> unat (nif_mtu n)"
    "dst = IP4_ADDR 192 168 10 12" "port = 5000 \<or> port = 5110" "nif_ip n = IP4_ADDR a0 a1 a2 a3" "rear_src [a0, a1, a2, a3] [192, 168, 10, 12]"
    "stack_ok b" "pool_ok (lw_pool b)" "3 \<le> length (lw_pool b)"
  shows "\<exists>s' f. UdpSend_stack E (Some pcb) (Some dst) port (Some d) w s = Some (LwOk, w, s') \<and>
    tx_trace s' = SentFrame f # tx_trace s \<and>
    (\<forall>desc pad. length pad \<le> 46 \<and> ring_frame desc (f @ pad) \<longrightarrow> (\<exists>b'. poll_receive stk (desc # ring) b nt m =
       map_option (\<lambda>(nt, m). (ring, b', nt, m)) (udp_receive_acc_recv stk (Some [d]) (Some [a0, a1, a2, a3]) nt m) \<and> stack_ok b'))"
proof -
  have ld: "length d < 50000" using assms(9) by simp
  have sp: "source_port pcb w = Some (pcb_local_port pcb, w)" using assms(6) by (simp add: source_port_def)
  obtain s' u c where s: "UdpSend_stack E (Some pcb) (Some dst) port (Some d) w s = Some (LwOk, w, s')"
    "tx_trace s' = SentFrame (eth_frame (ae_ethaddr (arp_at s i)) (nif_hwaddr n) ETHTYPE_IP (sent_packet pcb (ip_id s) (nif_ip n) dst u)) #
       tx_trace s"
    "arp_table s' = arp_table s" "u = udp_hdr (pcb_local_port pcb) port (of_nat (8 + length d)) c @ d" "c \<noteq> 0"
    "(pseudo_sum IP_PROTO_UDP (of_nat (length u)) (nif_ip n) dst + le_sum u) mod 65535 = 0"
    by (rule app_send_ok [OF assms(1-5) sp assms(7,8) ld assms(10)])
  define bs where "bs = sent_packet pcb (ip_id s) (nif_ip n) dst u"
  from sent_packet_read [OF s(4,5) ld s(6) bs_def]
  have o: "length bs = 28 + length d" "ip_header_ok bs" "be16 bs 6 = 0" "bs ! 9 = IP_PROTO_UDP" "at32 bs 12 = nif_ip n" "at32 bs 16 = dst"
    and u: "let u = ip_payload bs in be16 u 0 = unat (pcb_local_port pcb) \<and> be16 u 2 = unat port \<and> be16 u 4 = length u \<and>
       be16 u 6 \<noteq> 0 \<and> udp_sum (addr4 bs 12) (addr4 bs 16) u mod 65535 = 0 \<and> length u = 8 + length d \<and> drop 8 u = d" by blast+
  let ?f = "eth_frame (ae_ethaddr (arp_at s i)) (nif_hwaddr n) ETHTYPE_IP bs"
  have l6: "length (ae_ethaddr (arp_at s i)) = 6" "length (nif_hwaddr n) = 6" using assms(3) by (simp_all add: reachable_by_def)
  have ad: "addr4 bs 12 = [a0, a1, a2, a3]" "addr4 bs 16 = [192, 168, 10, 12]"
    using o(5,6) assms(11,13) by (simp_all add: at32_addr4 addr4_def IP4_ADDR_load32 load32_eq_iff)
  have fr: "drop 14 ?f = bs" "be16 ?f 12 = 0x0800"
    using l6 by (simp_all add: eth_frame_def be16_def nth_append ETHTYPE_IP_def)
  have "20 \<le> length bs" using o(1) by simp
  then have fl: "14 < length ?f" using l6 by (cases bs; simp add: eth_frame_def)
  have "rear_dest [192, 168, 10, 12]" by (simp add: rear_dest_def)
  moreover have "udp_command (addr4 bs 12) (addr4 bs 16) (ip_payload bs)"
    using u assms(12) unfolding Let_def udp_command_def by (elim conjE disjE) simp_all
  ultimately have "ip_command bs"
    using o(2-4) assms(14) ad by (simp add: ip_command_def IP_PROTO_UDP_def)
  then have fc: "frame_command ?f = Some (d, [a0, a1, a2, a3])"
    using fr fl u ad by (simp add: frame_command_def Let_def)
  have fl2: "length (?f @ pad) \<le> 1518" if "length pad \<le> 46" for pad
    using that o(1) assms(9) l6 by (simp add: eth_frame_def)
  have "\<exists>b'. poll_receive stk (desc # ring) b nt m =
       map_option (\<lambda>(nt, m). (ring, b', nt, m)) (udp_receive_acc_recv stk (Some [d]) (Some [a0, a1, a2, a3]) nt m) \<and> stack_ok b'"
    if r: "length pad \<le> 46" "ring_frame desc (?f @ pad)" for desc pad
  proof -
    have fc: "frame_command (?f @ pad) = Some (d, [a0, a1, a2, a3])"
      using padded_command [OF l6, of bs ETHTYPE_IP pad] fc o(2) by simp
    show ?thesis
      using poll_frame [OF assms(15-17) r(2) fl2 [OF r(1)], of stk ring nt m] fc by (auto simp: obey_frame_def)
  qed
  then show ?thesis using s(1,2) unfolding bs_def by blast
qed

text \<open>The commander of the demonstrations as a sender.\<close>

abbreviation demo_board :: u32 where "demo_board \<equiv> load32 192 168 10 12"

definition peer_nif :: netif where "peer_nif = demo_nif\<lparr>nif_ip := demo_host, nif_hwaddr := demo_peer\<rparr>"

definition peer_lwip :: lwip where "peer_lwip = demo_lwip\<lparr>lw_netifs := [peer_nif]\<rparr>"

definition peer_known :: tx_state where
  "peer_known = (tx_state_0 [])\<lparr>arp_table := (replicate 10 arp_empty)[0 := (claimed demo_board 0)\<lparr>ae_ethaddr := demo_hw,
     ae_state := ETHARP_STATE_STABLE\<rparr>]\<rparr>"

lemma peer_facts: "\<not> ip4_addr_isbroadcast_u32 demo_board peer_nif" "\<not> ip4_addr_ismulticast demo_board" "\<not> ip4_addr_isany_val demo_board"
    "arp_next_hop peer_nif demo_board = Some demo_board" "nif_ip peer_nif = demo_host" "\<not> ip4_addr_isany_val demo_host"
    "unat (nif_mtu peer_nif) = 1500" "nif_num peer_nif = 0" "nif_hwaddr peer_nif = demo_peer"
  by (simp_all add: peer_nif_def ip4_addr_isbroadcast_u32_def ismulticast_load32 is_mcast_def ip4_addr_isany_val_def addr_consts load32_eq_iff
      demo_nif_fields arp_next_hop_def ip4_addr_netcmp_def load32_and load32_not)

lemma peer_reachable: "reachable_by {link_of peer_nif} peer_nif demo_board 0 peer_known"
proof -
  let ?e = "(claimed demo_board 0)\<lparr>ae_ethaddr := demo_hw, ae_state := ETHARP_STATE_STABLE\<rparr>"
  have e: "entry_ok {link_of peer_nif} ?e" using peer_facts by (simp add: entry_ok_def claimed_def ARP_MAXAGE_def link_of_def demo_nif_fields)
  have "arp_wf {link_of peer_nif} (replicate 10 arp_empty)" by (simp add: arp_wf_def ARP_TABLE_SIZE_def)
  then have "arp_wf {link_of peer_nif} ((replicate 10 arp_empty)[0 := ?e])" by (rule wf_update [OF _ e]) simp
  then have "arp_ok {link_of peer_nif} peer_known" by (simp add: arp_ok_def peer_known_def tx_state_0_def ARP_TABLE_SIZE_def)
  moreover have "arp_at peer_known 0 = ?e" by (simp add: peer_known_def arp_at_def)
  ultimately show ?thesis
    using peer_facts by (simp add: reachable_by_def stable_for_def claimed_def demo_nif_fields demo_peer_def
        ARP_AGE_REREQUEST_USED_UNICAST_def ARP_MAXAGE_def)
qed

lemma peer_route: "udp_route demo_pcb demo_board peer_lwip = Some peer_nif"
proof -
  have "route_match demo_board peer_nif"
    using peer_facts(5,6)
    by (simp add: route_match_def netif_is_up_def netif_is_link_up_def ip4_addr_netcmp_def load32_and)
       (simp add: peer_nif_def demo_nif_def has_flag_def NETIF_FLAG_UP_def NETIF_FLAG_LINK_UP_def load32_and IP4_ADDR_load32)
  then show ?thesis
    using peer_facts(2)
    by (simp add: udp_route_def demo_pcb_def new_pcb_def NETIF_NO_INDEX_def ip4_route_def peer_lwip_def)
qed

theorem sent_command_obeyed_witness:
  "\<exists>s' f. UdpSend_stack demo_tx_env (Some demo_pcb) (Some demo_board) 5000 (Some demo_payload) peer_lwip peer_known = Some (LwOk, peer_lwip, s') \<and>
    tx_trace s' = [SentFrame f] \<and>
    (\<forall>desc. ring_frame desc f \<longrightarrow> (\<exists>b'. poll_receive demo_buf [desc] demo_stack net_state_0 lmu_0 =
       map_option (\<lambda>(nt, m). ([], b', nt, m))
         (udp_receive_acc_recv demo_buf (Some [demo_payload]) (Some [192, 168, 10, 1]) net_state_0 lmu_0) \<and> stack_ok b'))"
proof -
  have t: "tx_trace peer_known = []" by (simp add: peer_known_def tx_state_0_def)
  have p: "pcb_local_port demo_pcb \<noteq> 0" by (simp add: demo_pcb_fields)
  have d: "demo_payload \<noteq> []" "length demo_payload < 1400" "28 + length demo_payload \<le> unat (nif_mtu peer_nif)"
    using demo_bytes(2) by (auto simp: peer_facts)
  have a: "demo_board = IP4_ADDR 192 168 10 12" "nif_ip peer_nif = IP4_ADDR 192 168 10 1"
    "rear_src [192, 168, 10, 1] [192, 168, 10, 12]" "3 \<le> length (lw_pool demo_stack)"
    using demo_stack_ok(3) by (simp_all add: IP4_ADDR_load32 peer_facts rear_src_def is_bcast_def is_mcast_def)
  obtain s' f where o: "UdpSend_stack demo_tx_env (Some demo_pcb) (Some demo_board) 5000 (Some demo_payload) peer_lwip peer_known = Some (LwOk, peer_lwip, s')"
    "tx_trace s' = SentFrame f # tx_trace peer_known"
    "\<forall>desc pad. length pad \<le> 46 \<and> ring_frame desc (f @ pad) \<longrightarrow> (\<exists>b'. poll_receive demo_buf (desc # []) demo_stack net_state_0 lmu_0 =
       map_option (\<lambda>(nt, m). ([], b', nt, m)) (udp_receive_acc_recv demo_buf (Some [demo_payload]) (Some [192, 168, 10, 1]) net_state_0 lmu_0) \<and> stack_ok b')"
    using sent_command_obeyed [OF demo_tx peer_reachable peer_route demo_pcb_fields(1) p demo_pcb_fields(3) d a(1) disjI1 [OF refl] a(2,3)
      demo_stack_ok(1,2) a(4), of demo_buf "[]" net_state_0 lmu_0] by blast
  show ?thesis
    by (intro exI [of _ s'] exI [of _ f]) (use o(1,2) o(3) [rule_format, of "[]"] t in simp)
qed

end
