(* ===== verification/LwipReass_Facts.thy ===== *)
theory LwipReass_Facts
  imports LwipReass LwipSum_Facts
begin

text \<open>
  Reassembly: the list of queued fragments and the test whether a datagram is complete, and that
  the fragments of a datagram give it back in whatever order they come.
\<close>

section \<open>The list of queued fragments\<close>

definition before :: "frag \<Rightarrow> frag \<Rightarrow> bool" where
  "before f g \<longleftrightarrow> fr_start f < fr_start g \<and> fr_end f \<le> fr_start g"

definition frags_wf :: "frag list \<Rightarrow> bool" where
  "frags_wf fs \<longleftrightarrow> sorted_wrt before fs \<and> (\<forall>f \<in> set fs. fr_start f \<le> fr_end f)"

lemma frags_wf_Nil [simp]: "frags_wf []"
  by (simp add: frags_wf_def)

lemma frags_wf_Cons: "frags_wf (g # gs) \<longleftrightarrow> frags_wf gs \<and> (\<forall>f \<in> set gs. before g f) \<and> fr_start g \<le> fr_end g"
  by (auto simp: frags_wf_def)

text \<open>A fragment is taken in exactly when it does not touch another, and the list stays in order.\<close>

lemma insert_frag_ok:
  assumes "insert_frag f prev gs v = Some (fs, v')" "frags_wf gs" "fr_start f \<le> fr_end f" "\<And>e. prev = Some e \<Longrightarrow> e \<le> fr_start f"
  shows "frags_wf fs \<and> mset fs = add_mset f (mset gs)"
  using assms
proof (induction f prev gs v arbitrary: fs v' rule: insert_frag.induct)
  case (1 f prev v)
  then show ?case by (auto simp: frags_wf_Cons)
next
  case (2 f prev g gs v)
  show ?case
  proof (cases "fr_start f < fr_start g")
    case True
    then have fs: "fs = f # g # gs" "fr_end f \<le> fr_start g"
      using 2(2) by (auto split: option.splits if_splits)
    have "before f h" if "h \<in> set (g # gs)" for h
    proof (cases "h = g")
      case False
      then have "before g h" using 2(3) that by (auto simp: frags_wf_Cons)
      with True fs(2) show ?thesis by (auto simp: before_def)
    qed (use True fs(2) in \<open>simp add: before_def\<close>)
    with fs 2(3,4) show ?thesis by (auto simp: frags_wf_Cons)
  next
    case False
    then obtain fs1 v1 where r: "insert_frag f (Some (fr_end g)) gs (v \<and> (case prev of Some e \<Rightarrow> e = fr_start g | None \<Rightarrow> True)) = Some (fs1, v1)"
      "fs = g # fs1" and c: "fr_start f \<noteq> fr_start g" "\<not> fr_start f < fr_end g"
      using 2(2) by (auto split: if_splits)
    have gf: "before g f" using False c by (auto simp: before_def)
    have "frags_wf fs1 \<and> mset fs1 = add_mset f (mset gs)"
      using 2(1) [OF False c(1,2) r(1)] 2(3,4) c(2) by (auto simp: frags_wf_Cons)
    moreover from this have "set fs1 = insert f (set gs)" by (metis set_mset_add_mset_insert set_mset_mset)
    ultimately show ?thesis using 2(3) gf r(2) by (auto simp: frags_wf_Cons)
  qed
qed

lemma insert_frag_takes:
  assumes "\<And>g. g \<in> set gs \<Longrightarrow> before f g \<or> before g f" "\<And>e. prev = Some e \<Longrightarrow> e \<le> fr_start f"
  shows "insert_frag f prev gs v \<noteq> None"
  using assms
proof (induction f prev gs v rule: insert_frag.induct)
  case (2 f prev g gs v)
  have g: "before f g \<or> before g f" using 2(2) by simp
  show ?case
  proof (cases "fr_start f < fr_start g")
    case True
    then have "fr_end f \<le> fr_start g" using g by (auto simp: before_def)
    with True 2(3) show ?thesis by (auto split: option.splits simp: not_less)
  next
    case False
    then have b: "fr_start f \<noteq> fr_start g" "\<not> fr_start f < fr_end g" using g by (auto simp: before_def)
    then show ?thesis using False 2(1) [OF False b] 2(2) by auto
  qed
qed simp

text \<open>The flag that is gathered on the way and the look behind the new fragment together say that
  the whole list has no hole.\<close>

definition tight :: "frag list \<Rightarrow> bool" where
  "tight fs \<longleftrightarrow> (case fs of [] \<Rightarrow> True | f # gs \<Rightarrow> no_holes (fr_end f) gs)"

lemma insert_frag_valid:
  assumes "insert_frag f prev gs v = Some (fs, v')"
  shows "v' \<and> no_holes (fr_end f) (behind f fs) \<longleftrightarrow> v \<and> (case prev of Some e \<Rightarrow> no_holes e fs | None \<Rightarrow> tight fs)"
  using assms
proof (induction f prev gs v arbitrary: fs v' rule: insert_frag.induct)
  case (1 f prev v)
  then show ?case by (auto simp: behind_def tight_def split: option.splits)
next
  case (2 f prev g gs v)
  show ?case
  proof (cases "fr_start f < fr_start g")
    case True
    then have "fs = f # g # gs" "v' = (v \<and> (case prev of Some e \<Rightarrow> e = fr_start f | None \<Rightarrow> True))"
      using 2(2) by (auto split: option.splits if_splits)
    then show ?thesis by (auto simp: behind_def tight_def split: option.splits)
  next
    case False
    then obtain fs1 where r: "insert_frag f (Some (fr_end g)) gs (v \<and> (case prev of Some e \<Rightarrow> e = fr_start g | None \<Rightarrow> True)) = Some (fs1, v')"
      "fs = g # fs1" and c: "fr_start f \<noteq> fr_start g" "\<not> fr_start f < fr_end g"
      using 2(2) by (auto split: if_splits)
    have "behind f fs = behind f fs1" using c(1) r(2) by (simp add: behind_def)
    then show ?thesis using 2(1) [OF False c r(1)] r(2) by (auto simp: tight_def split: option.splits)
  qed
qed

lemma no_holes_tight: "fs \<noteq> [] \<Longrightarrow> fr_start (hd fs) = 0 \<and> tight fs \<longleftrightarrow> no_holes 0 fs"
  by (cases fs) (auto simp: tight_def)

text \<open>So the check is what it should be.\<close>

text \<open>The bytes a list without holes covers.\<close>

definition covered :: "frag list \<Rightarrow> nat" where
  "covered fs = sum_list (map (\<lambda>f. unat (fr_end f) - unat (fr_start f)) fs)"

lemma no_holes_covered:
  assumes "no_holes e fs" "\<forall>f \<in> set fs. fr_start f \<le> fr_end f"
  shows "\<forall>f \<in> set fs. unat (fr_end f) \<le> unat e + covered fs"
  using assms
proof (induction e fs rule: no_holes.induct)
  case (2 e f fs)
  then have h: "e = fr_start f" "unat (fr_start f) \<le> unat (fr_end f)" "\<forall>g \<in> set fs. unat (fr_end g) \<le> unat (fr_end f) + covered fs"
    by (simp_all add: word_le_nat_alt)
  then have "unat e + covered (f # fs) = unat (fr_end f) + covered fs" by (simp add: covered_def)
  with h show ?case by auto
qed simp

text \<open>The check that ends a reassembly.\<close>

definition new_frag :: "pbuf \<Rightarrow> frag" where
  "new_frag p =
     (let hdr = seg_data (p_head p); offset = IPH_OFFSET_BYTES hdr
      in \<lparr>fr_pbuf = p, fr_start = offset, fr_end = offset + (lwip_ntohs (IPH_LEN hdr) - of_nat (IPH_HL_BYTES (hdr ! 0)))\<rparr>)"

lemma validate_takes:
  assumes "of_nat (IPH_HL_BYTES (seg_data (p_head p) ! 0)) \<le> lwip_ntohs (IPH_LEN (seg_data (p_head p)))"
    "fr_start (new_frag p) \<le> fr_end (new_frag p)" "frags_wf (rd_frags ipr)"
    "\<And>g. g \<in> set (rd_frags ipr) \<Longrightarrow> before (new_frag p) g \<or> before g (new_frag p)"
  obtains fs where "frags_wf fs" "mset fs = add_mset (new_frag p) (mset (rd_frags ipr))"
    "ip_reass_chain_frag_into_datagram_and_validate ipr p is_last =
       (if (is_last \<or> rd_last ipr) \<and> no_holes 0 fs then TelegramFinished else PbufQueued, ipr\<lparr>rd_frags := fs\<rparr>)"
proof -
  let ?f = "new_frag p"
  obtain fs v where i: "insert_frag ?f None (rd_frags ipr) True = Some (fs, v)"
    using insert_frag_takes [of "rd_frags ipr" ?f None True] assms(4) by auto
  have w: "frags_wf fs" "mset fs = add_mset ?f (mset (rd_frags ipr))"
    using insert_frag_ok [OF i assms(3,2)] by simp_all
  then have ne: "fs \<noteq> []" by auto
  have c: "v \<and> fr_start (hd fs) = 0 \<and> no_holes (fr_end ?f) (behind ?f fs) \<longleftrightarrow> no_holes 0 fs"
    using insert_frag_valid [OF i] no_holes_tight [OF ne] by auto
  have "ip_reass_chain_frag_into_datagram_and_validate ipr p is_last =
       (if (is_last \<or> rd_last ipr) \<and> no_holes 0 fs then TelegramFinished else PbufQueued, ipr\<lparr>rd_frags := fs\<rparr>)"
    using assms(1,2) i c
    by (simp add: ip_reass_chain_frag_into_datagram_and_validate_def Let_def new_frag_def [symmetric, unfolded Let_def] not_less [symmetric])
       (auto simp: new_frag_def Let_def)
  with w that show thesis by blast
qed

section \<open>The fragments of a datagram\<close>

definition fhdr :: "pbuf \<Rightarrow> u8 list" where "fhdr p = seg_data (p_head p)"

definition frag_start :: "pbuf \<Rightarrow> nat" where "frag_start p = unat (IPH_OFFSET_BYTES (fhdr p))"

definition frag_size :: "pbuf \<Rightarrow> nat" where "frag_size p = unat (lwip_ntohs (IPH_LEN (fhdr p))) - 20"

definition frag_end :: "pbuf \<Rightarrow> nat" where "frag_end p = frag_start p + frag_size p"

definition more_frags :: "pbuf \<Rightarrow> bool" where "more_frags p \<longleftrightarrow> IPH_OFFSET (fhdr p) AND lwip_ntohs IP_MF \<noteq> 0"

text \<open>A fragment of the payload \<open>bs\<close>: a plain header in the first buffer, addresses and identification of
  \<open>key\<close>, and behind the header the bytes that the header says.\<close>

definition fragment_of :: "u8 list \<Rightarrow> u8 list \<Rightarrow> pbuf \<Rightarrow> bool" where
  "fragment_of key bs p \<longleftrightarrow> 20 \<le> p_len p \<and> fhdr p ! 0 = 0x45 \<and> IP_ADDRESSES_AND_ID_MATCH (fhdr p) key \<and>
     0 < frag_size p \<and> frag_end p \<le> length bs \<and> drop 20 (p_bytes p) = drop (frag_start p) (take (frag_end p) bs) \<and>
     (more_frags p \<longleftrightarrow> frag_end p < length bs)"

fun chain_from :: "nat \<Rightarrow> nat \<Rightarrow> pbuf list \<Rightarrow> bool" where
  "chain_from a n [] = (a = n)"
| "chain_from a n (p # ps) = (frag_start p = a \<and> chain_from (frag_end p) n ps)"

text \<open>All fragments of a datagram, in any order.\<close>

definition fragments_of :: "u8 list \<Rightarrow> u8 list \<Rightarrow> pbuf list \<Rightarrow> bool" where
  "fragments_of key bs ps \<longleftrightarrow> (\<forall>p \<in> set ps. fragment_of key bs p) \<and> (\<exists>qs. mset qs = mset ps \<and> chain_from 0 (length bs) qs)"

lemma chain_bytes:
  assumes "chain_from a n qs" "\<forall>p \<in> set qs. fragment_of key bs p" "n = length bs"
  shows "a \<le> n \<and> concat (map (\<lambda>p. drop 20 (p_bytes p)) qs) = drop a bs"
  using assms
proof (induction qs arbitrary: a)
  case (Cons p qs)
  have f: "frag_start p = a" "frag_end p \<le> n" "drop 20 (p_bytes p) = drop a (take (frag_end p) bs)" "a \<le> frag_end p"
    using Cons.prems by (auto simp: fragment_of_def frag_end_def)
  have r: "concat (map (\<lambda>p. drop 20 (p_bytes p)) qs) = drop (frag_end p) bs" using Cons by auto
  have "drop a (take (frag_end p) bs @ drop (frag_end p) bs) = drop a (take (frag_end p) bs) @ drop (frag_end p) bs"
    using f(2,4) Cons.prems(3) unfolding drop_append by simp
  then have "drop a bs = drop a (take (frag_end p) bs) @ drop (frag_end p) bs" by (simp only: append_take_drop_id)
  then show ?case using f r by simp
qed simp

lemma chain_sizes: "chain_from a n qs \<Longrightarrow> a + sum_list (map frag_size qs) = n"
proof (induction qs arbitrary: a)
  case (Cons p qs)
  then have "frag_end p + sum_list (map frag_size qs) = n" by simp
  with Cons.prems show ?case by (simp add: frag_end_def)
qed simp

lemma chain_sorted:
  assumes "chain_from a n qs" "\<forall>p \<in> set qs. 0 < frag_size p"
  shows "sorted_wrt (\<lambda>p q. frag_end p \<le> frag_start q \<and> frag_start p < frag_start q) qs \<and> (\<forall>q \<in> set qs. a \<le> frag_start q)"
  using assms
proof (induction qs arbitrary: a)
  case (Cons p qs)
  have "frag_start p < frag_end p" using Cons.prems(2) by (simp add: frag_end_def)
  with Cons show ?case by fastforce
qed simp

text \<open>The helper structure says the same as the header it lies on.\<close>

lemma new_frag_ok:
  assumes "fragment_of key bs p" "length bs \<le> 65515"
  shows "fr_pbuf (new_frag p) = p" "unat (fr_start (new_frag p)) = frag_start p" "unat (fr_end (new_frag p)) = frag_end p"
    "(20 :: u16) \<le> lwip_ntohs (IPH_LEN (fhdr p))"
    "unat (lwip_ntohs (IPH_LEN (fhdr p)) - 20) = frag_size p"
proof -
  let ?l = "lwip_ntohs (IPH_LEN (fhdr p))"
  have h: "IPH_HL_BYTES (fhdr p ! 0) = 20" "0 < frag_size p" "frag_end p \<le> length bs"
    using assms(1) by (simp_all add: fragment_of_def IPH_HL_BYTES_def)
  then show l: "(20 :: u16) \<le> ?l" by (simp add: frag_size_def word_le_nat_alt)
  then show sz: "unat (?l - 20) = frag_size p" by (simp add: frag_size_def unat_sub)
  show "fr_pbuf (new_frag p) = p" "unat (fr_start (new_frag p)) = frag_start p"
    by (simp_all add: new_frag_def Let_def frag_start_def fhdr_def)
  have "fr_end (new_frag p) = IPH_OFFSET_BYTES (fhdr p) + (?l - 20)"
    using h(1) by (simp add: new_frag_def Let_def fhdr_def)
  then show "unat (fr_end (new_frag p)) = frag_end p"
    using sz h(3) assms(2) by (simp add: unat_word_ariths frag_end_def frag_start_def)
qed

lemma new_frag_before:
  assumes "fragment_of key bs p" "fragment_of key bs q" "length bs \<le> 65515"
    "frag_end p \<le> frag_start q \<and> frag_start p < frag_start q"
  shows "before (new_frag p) (new_frag q)"
  using assms(4) new_frag_ok [OF assms(1,3)] new_frag_ok [OF assms(2,3)]
  by (simp add: before_def word_less_nat_alt word_le_nat_alt)

text \<open>Two of the fragments do not touch.\<close>

lemma apart:
  assumes "chain_from 0 n qs" "\<forall>p \<in> set qs. fragment_of key bs p" "length bs \<le> 65515" "add_mset p (add_mset q X) = mset qs"
  shows "before (new_frag p) (new_frag q) \<or> before (new_frag q) (new_frag p)"
proof -
  have s: "sorted_wrt (\<lambda>p q. frag_end p \<le> frag_start q \<and> frag_start p < frag_start q) qs"
    using chain_sorted [OF assms(1)] assms(2) by (simp add: fragment_of_def)
  have "p \<in> set qs" using assms(4) by (metis set_mset_mset union_single_eq_member)
  then obtain as bs' where q: "qs = as @ p # bs'" by (meson split_list)
  then have "add_mset q X = mset as + mset bs'" using assms(4) by simp
  then have "q \<in> set as \<or> q \<in> set bs'" by (metis UnE set_mset_mset set_mset_union union_single_eq_member)
  then have "(frag_end q \<le> frag_start p \<and> frag_start q < frag_start p) \<or> (frag_end p \<le> frag_start q \<and> frag_start p < frag_start q)"
    using s q by (auto simp: sorted_wrt_append)
  moreover have "q \<in> set qs" using \<open>q \<in> set as \<or> q \<in> set bs'\<close> q by auto
  ultimately show ?thesis using new_frag_before assms(2,3) \<open>p \<in> set qs\<close> by blast
qed

section \<open>Joining\<close>

lemma seg_write_bytes:
  assumes "length b \<le> p_len p"
  shows "p_bytes (seg_write b p) = b @ drop (length b) (p_bytes p)" "p_len (seg_write b p) = p_len p"
    "p_next (seg_write b p) = p_next p" "pbuf_clen (seg_write b p) = pbuf_clen p"
  using assms by (simp_all add: seg_write_def Let_def p_bytes_segs p_len_def seg_len_def pbuf_clen_def p_segs_def)

lemma helper_bytes:
  assumes "20 \<le> p_len (fr_pbuf f)"
  shows "drop 20 (p_bytes (with_helper x f)) = drop 20 (p_bytes (fr_pbuf f))" "20 \<le> p_len (with_helper x f)"
    "pbuf_clen (with_helper x f) = pbuf_clen (fr_pbuf f)"
proof -
  have l: "length (store32 x @ store16 (fr_start f) @ store16 (fr_end f)) = 8" by simp
  then have "length (store32 x @ store16 (fr_start f) @ store16 (fr_end f)) \<le> p_len (fr_pbuf f)" using assms by linarith
  note w = seg_write_bytes [OF this]
  show "drop 20 (p_bytes (with_helper x f)) = drop 20 (p_bytes (fr_pbuf f))"
    unfolding with_helper_def w(1) l by (simp add: drop_append)
  show "20 \<le> p_len (with_helper x f)" using assms by (simp only: with_helper_def w)
  show "pbuf_clen (with_helper x f) = pbuf_clen (fr_pbuf f)" by (simp only: with_helper_def w)
qed

lemma frag_pbufs_helpers: "list_all2 (\<lambda>p f. \<exists>x. p = with_helper x f) (frag_pbufs fs) fs"
  by (induction fs rule: frag_pbufs.induct) auto

lemma hidden_bytes:
  assumes "20 \<le> p_len p"
  shows "p_bytes (snd (pbuf_remove_header p 20)) = drop 20 (p_bytes p)" "pbuf_clen (snd (pbuf_remove_header p 20)) = pbuf_clen p"
  using assms by (simp_all add: pbuf_remove_header_def p_bytes_segs seg_remove_def p_len_def seg_len_def pbuf_clen_def p_segs_def)

lemma chain_more:
  "p_bytes (p\<lparr>p_next := p_next p @ concat (map p_segs qs)\<rparr>) = p_bytes p @ concat (map p_bytes qs)"
  "pbuf_clen (p\<lparr>p_next := p_next p @ concat (map p_segs qs)\<rparr>) = pbuf_clen p + sum_list (map pbuf_clen qs)"
proof -
  have "concat (map seg_data (concat (map p_segs qs))) = concat (map p_bytes qs)"
    by (induction qs) (auto simp: p_bytes_def p_payloads_def)
  then show "p_bytes (p\<lparr>p_next := p_next p @ concat (map p_segs qs)\<rparr>) = p_bytes p @ concat (map p_bytes qs)"
    by (simp add: p_bytes_segs)
  show "pbuf_clen (p\<lparr>p_next := p_next p @ concat (map p_segs qs)\<rparr>) = pbuf_clen p + sum_list (map pbuf_clen qs)"
    unfolding pbuf_clen_def [abs_def] by (simp add: p_segs_def [of "p\<lparr>p_next := x\<rparr>" for x] p_segs_def [of p] length_concat comp_def)
qed

text \<open>The header that comes back in front of the first fragment.\<close>

definition whole_hdr :: "u32 \<Rightarrow> u16 \<Rightarrow> u16 \<Rightarrow> u8 list \<Rightarrow> u8 list" where
  "whole_hdr a len off hdr =
     (let h = put_at 10 (store16 0) (put_at 6 (store16 off) (put_at 2 (store16 (lwip_htons len)) hdr))
      in put_at 10 (store16 (inet_chksum a h)) h)"

lemma length_whole_hdr [simp]: "length hdr = 20 \<Longrightarrow> length (whole_hdr a len off hdr) = 20"
  by (simp add: whole_hdr_def put_at_def Let_def)

lemma join_frags_ok:
  assumes "rd_frags ipr \<noteq> []" "\<forall>f \<in> set (rd_frags ipr). 20 \<le> p_len (fr_pbuf f)" "length (rd_iphdr ipr) = 20"
  obtains q a where "join_frags ipr = Some q"
    "p_bytes q = whole_hdr a (rd_datagram_len ipr + 20) 0 (rd_iphdr ipr) @ concat (map (\<lambda>f. drop 20 (p_bytes (fr_pbuf f))) (rd_frags ipr))"
    "pbuf_clen q = sum_list (map (pbuf_clen \<circ> fr_pbuf) (rd_frags ipr))"
proof -
  obtain f fs where fs: "rd_frags ipr = f # fs" using assms(1) by (cases "rd_frags ipr") auto
  obtain p ps where ps: "frag_pbufs (rd_frags ipr) = p # ps" "\<exists>x. p = with_helper x f" "list_all2 (\<lambda>p f. \<exists>x. p = with_helper x f) ps fs"
    using frag_pbufs_helpers [of "rd_frags ipr"] unfolding fs list_all2_Cons2 by blast
  let ?h = "whole_hdr (seg_payload (p_head p)) (rd_datagram_len ipr + 20) 0 (rd_iphdr ipr)"
  let ?qs = "map (\<lambda>q. snd (pbuf_remove_header q 20)) ps"
  let ?q = "(seg_write ?h p)\<lparr>p_next := p_next (seg_write ?h p) @ concat (map p_segs ?qs)\<rparr>"
  have tk: "take IP_HLEN (rd_iphdr ipr) = rd_iphdr ipr" using assms(3) by (simp add: IP_HLEN_def)
  have j: "join_frags ipr = Some ?q"
    unfolding join_frags_def ps(1) list.case Let_def tk by (simp add: whole_hdr_def Let_def IP_HLEN_def comp_def)
  have l: "length ?h = 20" by (rule length_whole_hdr [OF assms(3)])
  have lf: "20 \<le> p_len (fr_pbuf f)" "\<forall>g \<in> set fs. 20 \<le> p_len (fr_pbuf g)" using assms(2) by (simp_all add: fs)
  have p: "20 \<le> p_len p" "drop 20 (p_bytes p) = drop 20 (p_bytes (fr_pbuf f))" "pbuf_clen p = pbuf_clen (fr_pbuf f)"
    using ps(2) helper_bytes [OF lf(1)] by auto
  have w: "length ?h \<le> p_len p" using l p(1) by linarith
  have r: "concat (map p_bytes ?qs) = concat (map (\<lambda>g. drop 20 (p_bytes (fr_pbuf g))) fs) \<and>
      sum_list (map pbuf_clen ?qs) = sum_list (map (pbuf_clen \<circ> fr_pbuf) fs)"
    using ps(3) lf(2)
  proof (induction rule: list_all2_induct)
    case (Cons q qs g gs)
    then obtain x where "q = with_helper x g" by blast
    with Cons show ?case using helper_bytes [of g x] hidden_bytes [of q] by simp
  qed simp
  have "p_bytes ?q = ?h @ concat (map (\<lambda>f. drop 20 (p_bytes (fr_pbuf f))) (rd_frags ipr))"
    unfolding chain_more(1) seg_write_bytes(1) [OF w] l using p(2) r by (simp add: fs)
  moreover have "pbuf_clen ?q = sum_list (map (pbuf_clen \<circ> fr_pbuf) (rd_frags ipr))"
    unfolding chain_more(2) seg_write_bytes(4) [OF w] using p(3) r by (simp add: fs)
  ultimately show thesis using that j by blast
qed

section \<open>When the datagram is complete\<close>

lemma ordered_unique:
  assumes "frags_wf fs" "frags_wf gs" "mset fs = mset gs"
  shows "fs = gs"
proof -
  have st: "sorted_wrt (<) (map fr_start hs)" if "frags_wf hs" for hs
    unfolding sorted_wrt_map using that by (auto simp: frags_wf_def before_def intro: sorted_wrt_mono_rel [rotated])
  have s: "sorted (map fr_start fs)" "sorted (map fr_start gs)" "distinct (map fr_start fs)"
    using st [OF assms(1)] st [OF assms(2)] by (auto simp: strict_sorted_iff)
  have i: "inj_on fr_start (set fs)" using s(3) by (simp add: distinct_map)
  have "sort_key fr_start fs = gs" "sort_key fr_start fs = fs"
    using sort_key_inj_key_eq [OF assms(3) i s(2)] sort_key_inj_key_eq [OF refl i s(1)] by simp_all
  then show ?thesis by simp
qed

lemma ordered_map:
  assumes "chain_from a n qs" "\<forall>p \<in> set qs. fragment_of key bs p" "length bs \<le> 65515"
  shows "frags_wf (map new_frag qs)" "unat e = a \<Longrightarrow> no_holes e (map new_frag qs)"
proof -
  have s: "sorted_wrt (\<lambda>p q. frag_end p \<le> frag_start q \<and> frag_start p < frag_start q) qs"
    using chain_sorted [OF assms(1)] assms(2) by (simp add: fragment_of_def)
  have "sorted_wrt (\<lambda>p q. before (new_frag p) (new_frag q)) qs"
    using s by (rule sorted_wrt_mono_rel [rotated]) (use new_frag_before assms(2,3) in blast)
  moreover have "fr_start (new_frag p) \<le> fr_end (new_frag p)" if "p \<in> set qs" for p
    using new_frag_ok [of key bs p] assms(2,3) that by (simp add: word_le_nat_alt frag_end_def)
  ultimately show "frags_wf (map new_frag qs)" by (auto simp: frags_wf_def sorted_wrt_map)
  show "unat e = a \<Longrightarrow> no_holes e (map new_frag qs)"
    using assms(1,2)
  proof (induction qs arbitrary: a e)
    case (Cons p qs)
    note o = new_frag_ok [of key bs p]
    have "e = fr_start (new_frag p)" using Cons.prems o assms(3) by (simp add: word_unat_eq_iff)
    moreover have "no_holes (fr_end (new_frag p)) (map new_frag qs)"
      using Cons.IH [of "fr_end (new_frag p)" "frag_end p"] Cons.prems o assms(3) by simp
    ultimately show ?case by simp
  qed simp
qed

lemma chain_last: "chain_from a n qs \<Longrightarrow> qs \<noteq> [] \<Longrightarrow> frag_end (last qs) = n"
  by (induction qs arbitrary: a) (auto split: if_splits)

lemma complete_iff:
  assumes "chain_from 0 (length bs) qs" "\<forall>p \<in> set qs. fragment_of key bs p" "length bs \<le> 65515" "mset fed \<subseteq># mset qs" "fed \<noteq> []"
    "frags_wf fs" "mset fs = mset (map new_frag fed)"
  shows "(\<exists>p \<in> set fed. \<not> more_frags p) \<and> no_holes 0 fs \<longleftrightarrow> mset fed = mset qs"
proof
  have sub: "fragment_of key bs p" if "p \<in> set fed" for p
    using assms(2,4) that by (metis mset_subset_eqD set_mset_mset)
  assume h: "(\<exists>p \<in> set fed. \<not> more_frags p) \<and> no_holes 0 fs"
  then obtain p where p: "p \<in> set fed" "\<not> more_frags p" by blast
  have pe: "frag_end p = length bs" using sub [OF p(1)] p(2) by (auto simp: fragment_of_def)
  have "new_frag p \<in> set fs" using p(1) assms(7) by (metis imageI set_map set_mset_mset)
  then have "length bs \<le> covered fs"
    using no_holes_covered [of 0 fs] h assms(6) new_frag_ok(3) [OF sub [OF p(1)] assms(3)] pe
    by (auto simp: frags_wf_def)
  moreover have "covered fs = sum_list (map frag_size fed)"
  proof -
    have "covered fs = (\<Sum>f \<in># mset fs. unat (fr_end f) - unat (fr_start f))" by (simp add: covered_def sum_mset_sum_list [symmetric])
    also have "\<dots> = (\<Sum>f \<in># mset (map new_frag fed). unat (fr_end f) - unat (fr_start f))" by (simp only: assms(7))
    also have "\<dots> = sum_list (map (\<lambda>p. unat (fr_end (new_frag p)) - unat (fr_start (new_frag p))) fed)"
      by (simp add: sum_mset_sum_list [symmetric] comp_def image_mset.compositionality)
    also have "\<dots> = sum_list (map frag_size fed)"
    proof (rule arg_cong [where f = sum_list], rule map_cong [OF refl])
      show "unat (fr_end (new_frag p)) - unat (fr_start (new_frag p)) = frag_size p" if "p \<in> set fed" for p
        using new_frag_ok [OF sub [OF that] assms(3)] by (simp add: frag_end_def)
    qed
    finally show ?thesis .
  qed
  moreover have "sum_list (map frag_size qs) = length bs" using chain_sizes [OF assms(1)] by simp
  moreover obtain X where X: "mset qs = mset fed + X" using assms(4) by (metis mset_subset_eq_exists_conv)
  moreover have "sum_list (map frag_size qs) = sum_list (map frag_size fed) + (\<Sum>p \<in># X. frag_size p)"
    using X by (simp add: sum_mset_sum_list [symmetric])
  ultimately have "(\<Sum>p \<in># X. frag_size p) = 0" by linarith
  moreover have "\<forall>p \<in># X. 0 < frag_size p"
  proof
    fix p assume "p \<in># X"
    then have "p \<in> set qs" using X by (metis set_mset_mset union_iff)
    then show "0 < frag_size p" using assms(2) by (simp add: fragment_of_def)
  qed
  ultimately have "X = {#}" by (cases X) auto
  with X show "mset fed = mset qs" by simp
next
  assume e: "mset fed = mset qs"
  then have s: "set fed = set qs" "qs \<noteq> []" using assms(5) by (auto dest: mset_eq_setD)
  have "mset fs = mset (map new_frag qs)" using e assms(7) by simp
  then have fs: "fs = map new_frag qs" using ordered_unique [OF assms(6) ordered_map(1) [OF assms(1-3)]] by blast
  have "frag_end (last qs) = length bs" by (rule chain_last [OF assms(1) s(2)])
  then have "\<not> more_frags (last qs)" using assms(2) s(2) by (simp add: fragment_of_def)
  then have "\<exists>p \<in> set fed. \<not> more_frags p" using s by auto
  moreover have "no_holes 0 fs" unfolding fs by (rule ordered_map(2) [OF assms(1-3)]) simp
  ultimately show "(\<exists>p \<in> set fed. \<not> more_frags p) \<and> no_holes 0 fs" by blast
qed

section \<open>Taking in a fragment\<close>

definition off_field :: "u8 list \<Rightarrow> u16" where "off_field hdr = lwip_ntohs (IPH_OFFSET hdr) AND IP_OFFMASK"

lemma frag_start_0: "frag_start p = 0 \<longleftrightarrow> off_field (fhdr p) = 0"
proof -
  let ?x = "lwip_ntohs (IPH_OFFSET (fhdr p))"
  have m: "IP_OFFMASK = mask 13" by (simp add: IP_OFFMASK_def mask_eq_exp_minus_1)
  have "unat (?x AND IP_OFFMASK) < 8192"
    unfolding m take_bit_eq_mask [symmetric] unsigned_take_bit_eq by (simp add: take_bit_eq_mod)
  then have "frag_start p = 8 * unat (?x AND IP_OFFMASK)"
    by (simp add: frag_start_def IPH_OFFSET_BYTES_def unat_word_ariths)
  then show ?thesis by (simp add: off_field_def unat_eq_0)
qed

lemma off_field_take: "20 \<le> length h \<Longrightarrow> off_field (take 20 h) = off_field h"
  by (simp add: off_field_def IPH_OFFSET_def at16_def)

lemma match_take: "20 \<le> length h \<Longrightarrow> IP_ADDRESSES_AND_ID_MATCH (take 20 h) k = IP_ADDRESSES_AND_ID_MATCH h k"
  by (simp add: IP_ADDRESSES_AND_ID_MATCH_def at32_def at16_def)

lemma fragment_hdr: "fragment_of key bs p \<Longrightarrow> 20 \<le> length (fhdr p)"
  by (simp add: fragment_of_def p_len_def seg_len_def fhdr_def)

text \<open>The state of a datagram of which the fragments \<open>fed\<close> are there and \<open>p\<close> comes next.\<close>

definition reassembling :: "u8 list \<Rightarrow> pbuf list \<Rightarrow> pbuf set \<Rightarrow> reassdata \<Rightarrow> bool" where
  "reassembling bs fed P ipr \<longleftrightarrow>
     frags_wf (rd_frags ipr) \<and> mset (rd_frags ipr) = mset (map new_frag fed) \<and>
     (\<exists>p0 \<in> P. rd_iphdr ipr = take 20 (fhdr p0)) \<and>
     (\<forall>p0 \<in> set fed. frag_start p0 = 0 \<longrightarrow> rd_iphdr ipr = take 20 (fhdr p0)) \<and>
     (rd_last ipr \<longleftrightarrow> (\<exists>p0 \<in> set fed. \<not> more_frags p0)) \<and>
     (rd_last ipr \<longrightarrow> rd_datagram_len ipr = of_nat (length bs))"

lemma take_step:
  assumes "chain_from 0 (length bs) qs" "\<forall>p \<in> set qs. fragment_of key bs p" "length bs \<le> 65515"
    "mset (p # fed) \<subseteq># mset qs" "reassembling bs fed (insert p (set fed)) ipr" "reassdatagrams r = ipr # rest"
  obtains ipr' where "reassembling bs (p # fed) (set (p # fed)) ipr'"
    "reass_take p 0 r s =
      (let r' = r\<lparr>reassdatagrams := ipr' # rest, ip_reass_pbufcount := ip_reass_pbufcount r + of_nat (pbuf_clen p)\<rparr>
       in if mset (p # fed) = mset qs then
            map_option (\<lambda>q. (Some q, r'\<lparr>reassdatagrams := rest, ip_reass_pbufcount := ip_reass_pbufcount r' - of_nat (pbuf_clen q)\<rparr>, s))
              (join_frags ipr')
          else Some (None, r', s))"
proof -
  have sub: "fragment_of key bs q" if "q \<in> set (p # fed)" for q
    using assms(2,4) that by (metis mset_subset_eqD set_mset_mset)
  then have fp: "fragment_of key bs p" by simp
  note o = new_frag_ok [OF fp assms(3)] and lp = fragment_hdr [OF fp]
  have hl: "IPH_HL_BYTES (fhdr p ! 0) = 20" using fp by (simp add: fragment_of_def IPH_HL_BYTES_def)
  let ?last = "IPH_OFFSET (fhdr p) AND lwip_ntohs IP_MF = 0"
  have last: "?last = (\<not> more_frags p)" by (simp add: more_frags_def)
  define ipr1 where "ipr1 = (if off_field (fhdr p) = 0 \<and> off_field (rd_iphdr ipr) \<noteq> 0 then ipr\<lparr>rd_iphdr := take 20 (fhdr p)\<rparr> else ipr)"
  have f1: "rd_frags ipr1 = rd_frags ipr" "rd_last ipr1 = rd_last ipr" "rd_datagram_len ipr1 = rd_datagram_len ipr"
    by (simp_all add: ipr1_def)
  have wf: "frags_wf (rd_frags ipr)" "mset (rd_frags ipr) = mset (map new_frag fed)" using assms(5) by (simp_all add: reassembling_def)
  have ap: "before (new_frag p) (new_frag q) \<or> before (new_frag q) (new_frag p)" if q: "q \<in> set fed" for q
  proof -
    obtain X where X: "mset fed = add_mset q X" using q by (metis mset_add set_mset_mset)
    obtain Y where "mset qs = mset (p # fed) + Y" using assms(4) by (metis mset_subset_eq_exists_conv)
    then have "add_mset p (add_mset q (X + Y)) = mset qs" using X by simp
    from apart [OF assms(1-3) this] show ?thesis .
  qed
  have gs: "before (new_frag p) g \<or> before g (new_frag p)" if "g \<in> set (rd_frags ipr1)" for g
  proof -
    have "g \<in> new_frag ` set fed" using that wf(2) unfolding f1 by (metis set_map set_mset_mset)
    with ap show ?thesis by blast
  qed
  have le: "fr_start (new_frag p) \<le> fr_end (new_frag p)" using o by (simp add: word_le_nat_alt frag_end_def)
  obtain fs where fs: "frags_wf fs" "mset fs = add_mset (new_frag p) (mset (rd_frags ipr1))"
    "ip_reass_chain_frag_into_datagram_and_validate ipr1 p ?last =
       (if (?last \<or> rd_last ipr1) \<and> no_holes 0 fs then TelegramFinished else PbufQueued, ipr1\<lparr>rd_frags := fs\<rparr>)"
    by (rule validate_takes [of p ipr1 ?last]) (use o(4) hl le gs wf(1) in \<open>auto simp: f1 fhdr_def\<close>)
  have ms: "mset fs = mset (map new_frag (p # fed))" using fs(2) wf(2) by (simp add: f1)
  have compl: "(?last \<or> rd_last ipr1) \<and> no_holes 0 fs \<longleftrightarrow> mset (p # fed) = mset qs"
  proof -
    have "rd_last ipr1 = (\<exists>p0 \<in> set fed. \<not> more_frags p0)" using assms(5) by (simp add: reassembling_def f1)
    then have "(?last \<or> rd_last ipr1) \<longleftrightarrow> (\<exists>p0 \<in> set (p # fed). \<not> more_frags p0)" using last by simp
    then show ?thesis using complete_iff [OF assms(1-4) _ fs(1) ms] by blast
  qed
  let ?dl = "IPH_OFFSET_BYTES (fhdr p) + (lwip_ntohs (IPH_LEN (fhdr p)) - 20)"
  have dl: "unat ?dl = frag_end p" using o(3) hl by (simp add: new_frag_def Let_def fhdr_def)
  have fe: "frag_end p \<le> length bs" "?last \<Longrightarrow> frag_end p = length bs" using fp last by (auto simp: fragment_of_def)
  have nb: "\<not> (?last \<and> (?dl < IPH_OFFSET_BYTES (fhdr p) \<or> 0xFFFF - of_nat IP_HLEN < ?dl))"
    using dl fe(1) assms(3) by (auto simp: word_less_nat_alt frag_start_def [symmetric] frag_end_def IP_HLEN_def)
  define ipr' where "ipr' = (if ?last then (ipr1\<lparr>rd_frags := fs\<rparr>)\<lparr>rd_datagram_len := ?dl, rd_last := True\<rparr> else ipr1\<lparr>rd_frags := fs\<rparr>)"
  have re: "reassembling bs (p # fed) (set (p # fed)) ipr'"
    unfolding reassembling_def
  proof (intro conjI)
    show "frags_wf (rd_frags ipr')" "mset (rd_frags ipr') = mset (map new_frag (p # fed))" using fs(1) ms by (simp_all add: ipr'_def)
    have h': "rd_iphdr ipr' = rd_iphdr ipr1" by (simp add: ipr'_def)
    obtain p0 where p0: "p0 \<in> insert p (set fed)" "rd_iphdr ipr = take 20 (fhdr p0)" using assms(5) by (auto simp: reassembling_def)
    then show "\<exists>p0 \<in> set (p # fed). rd_iphdr ipr' = take 20 (fhdr p0)" unfolding h' ipr1_def by auto
    have f0: "20 \<le> length (fhdr q)" if "q \<in> set (p # fed)" for q using fragment_hdr [OF sub [OF that]] .
    have old: "rd_iphdr ipr = take 20 (fhdr q)" if "q \<in> set fed" "frag_start q = 0" for q
      using assms(5) that by (simp add: reassembling_def)
    have "rd_iphdr ipr1 = take 20 (fhdr q)" if q: "q \<in> set (p # fed)" "frag_start q = 0" for q
    proof (cases "q = p")
      case True
      show ?thesis
      proof (cases "off_field (rd_iphdr ipr) = 0")
        case z: True
        then have "frag_start p0 = 0" using p0 f0 [of p0] by (simp add: off_field_take frag_start_0)
        moreover have "p0 = p"
        proof (rule ccontr)
          assume "p0 \<noteq> p"
          then have "p0 \<in> set fed" using p0(1) by simp
          from ap [OF this] \<open>frag_start p0 = 0\<close> q(2) True new_frag_ok(2) [OF sub assms(3)] \<open>p0 \<in> set fed\<close> o(2)
          show False by (auto simp: before_def word_less_nat_alt)
        qed
        ultimately show ?thesis using p0(2) True z by (simp add: ipr1_def)
      next
        case False
        then show ?thesis using q(2) True by (simp add: ipr1_def frag_start_0)
      qed
    next
      case False
      then have "rd_iphdr ipr = take 20 (fhdr q)" using old q by simp
      moreover from this have "off_field (rd_iphdr ipr) = 0" using q f0 [OF q(1)] by (simp add: off_field_take frag_start_0)
      ultimately show ?thesis by (simp add: ipr1_def)
    qed
    then show "\<forall>p0 \<in> set (p # fed). frag_start p0 = 0 \<longrightarrow> rd_iphdr ipr' = take 20 (fhdr p0)" unfolding h' by blast
    have ol: "rd_last ipr = (\<exists>p0 \<in> set fed. \<not> more_frags p0)" "rd_last ipr \<longrightarrow> rd_datagram_len ipr = of_nat (length bs)"
      using assms(5) by (simp_all add: reassembling_def)
    then show "rd_last ipr' \<longleftrightarrow> (\<exists>p0 \<in> set (p # fed). \<not> more_frags p0)" using last by (simp add: ipr'_def f1)
    have "?last \<Longrightarrow> ?dl = of_nat (length bs)" using dl fe(2) assms(3) by (simp add: word_unat_eq_iff unat_of_nat take_bit_nat_eq_self)
    then show "rd_last ipr' \<longrightarrow> rd_datagram_len ipr' = of_nat (length bs)" using ol(2) by (simp add: ipr'_def f1)
  qed
  have h1: "(if lwip_ntohs (IPH_OFFSET (fhdr p)) AND IP_OFFMASK = 0 \<and> lwip_ntohs (IPH_OFFSET (rd_iphdr ipr)) AND IP_OFFMASK \<noteq> 0
      then ipr\<lparr>rd_iphdr := take IP_HLEN (fhdr p)\<rparr> else ipr) = ipr1"
    by (simp add: ipr1_def off_field_def IP_HLEN_def)
  have h2: "(if ?last \<and> (?dl < IPH_OFFSET_BYTES (fhdr p) \<or> 0xFFFF - of_nat IP_HLEN < ?dl) then (PbufDropped, ipr1)
      else ip_reass_chain_frag_into_datagram_and_validate ipr1 p ?last) =
      (if mset (p # fed) = mset qs then TelegramFinished else PbufQueued, ipr1\<lparr>rd_frags := fs\<rparr>)"
    unfolding if_not_P [OF nb] fs(3) compl ..
  have tw: "of_nat 20 = (20 :: u16)" by simp
  have "reass_take p 0 r s =
      (let r' = r\<lparr>reassdatagrams := ipr' # rest, ip_reass_pbufcount := ip_reass_pbufcount r + of_nat (pbuf_clen p)\<rparr>
       in if mset (p # fed) = mset qs then
            map_option (\<lambda>q. (Some q, r'\<lparr>reassdatagrams := rest, ip_reass_pbufcount := ip_reass_pbufcount r' - of_nat (pbuf_clen q)\<rparr>, s))
              (join_frags ipr')
          else Some (None, r', s))"
    unfolding reass_take_def Let_def fhdr_def [symmetric] assms(6) nth_Cons_0 hl tw h1 h2 prod.case list_update.simps ipr'_def [symmetric]
    by (simp add: ipr'_def drop_datagram_def)
  with re that show thesis by blast
qed

section \<open>The header of the whole\<close>

text \<open>The bytes that stay: all but the length, the place of the fragment and the checksum.\<close>

definition kept_bytes :: "u8 list \<Rightarrow> u8 list \<Rightarrow> bool" where
  "kept_bytes a b \<longleftrightarrow> (\<forall>j < 20. j \<notin> {2, 3, 6, 7, 10, 11} \<longrightarrow> a ! j = b ! j)"

lemma kept_take: "kept_bytes a (take 20 b) = kept_bytes a b"
  by (simp add: kept_bytes_def)

lemma kept_append: "length a = 20 \<Longrightarrow> kept_bytes (a @ c) b = kept_bytes a b"
  by (simp add: kept_bytes_def nth_append)

lemma kept_match: "kept_bytes a b \<Longrightarrow> IP_ADDRESSES_AND_ID_MATCH a key = IP_ADDRESSES_AND_ID_MATCH b key"
  by (simp add: kept_bytes_def IP_ADDRESSES_AND_ID_MATCH_def at32_def at16_def)

lemma put16_other:
  assumes "j < i \<or> i + 1 < j" "i + 2 \<le> length h"
  shows "put_at i (store16 x) h ! j = h ! j"
proof (cases "j < i")
  case False
  then have "Suc (Suc i) \<le> j" using assms(1) by simp
  then obtain k where "j = Suc (Suc (i + k))" by (auto dest: le_Suc_ex)
  then show ?thesis using assms(2) by (simp add: put_at_def nth_append)
qed (use assms in \<open>simp add: put_at_def nth_append\<close>)

lemma put16_same: "i + 2 \<le> length h \<Longrightarrow> at16 (put_at i (store16 x) h) i = x"
  unfolding put_at_def by (rule at16_store) simp

lemma length_put16 [simp]: "i + 2 \<le> length h \<Longrightarrow> length (put_at i (store16 x) h) = length h"
  by (simp add: put_at_def)

lemma whole_hdr_ok:
  assumes "length hdr = 20" and h_def: "h = whole_hdr a len off hdr"
  shows "at16 h 2 = lwip_htons len" "at16 h 6 = off" "kept_bytes h hdr" "le_sum h mod 65535 = 0"
proof -
  let ?h2 = "put_at 2 (store16 (lwip_htons len)) hdr"
  let ?h6 = "put_at 6 (store16 off) ?h2"
  let ?h = "put_at 10 (store16 0) ?h6"
  let ?c = "inet_chksum a ?h"
  have l: "length ?h2 = 20" "length ?h6 = 20" "length ?h = 20" using assms(1) by simp_all
  have h: "h = put_at 10 (store16 ?c) ?h" by (simp add: h_def whole_hdr_def Let_def)
  have far: "h ! j = ?h6 ! j" if "j < 10 \<or> 11 < j" for j
    unfolding h using that l put16_other [of j 10] by simp
  have "at16 h 2 = at16 ?h2 2" by (simp only: at16_def far put16_other l) (simp add: far put16_other l)
  then show "at16 h 2 = lwip_htons len" using put16_same [of 2 hdr] assms(1) by simp
  have "at16 h 6 = at16 ?h6 6" by (simp add: at16_def far)
  then show "at16 h 6 = off" using put16_same [of 6 ?h2 off] l by simp
  have "h ! j = hdr ! j" if j: "j \<notin> {2, 3, 6, 7, 10, 11}" for j
  proof -
    have "j < 2 \<or> 2 + 1 < j" "j < 6 \<or> 6 + 1 < j" "j < 10 \<or> 11 < j" using j by auto
    then show ?thesis using far [of j] put16_other [of j 6 ?h2 off] put16_other [of j 2 hdr] l assms(1) by simp
  qed
  then show "kept_bytes h hdr" by (simp add: kept_bytes_def)
  have z: "?h ! 10 = 0" "?h ! (10 + 1) = 0" using l by (simp_all add: put_at_def nth_append store16_def)
  have ten: "even (10 :: nat)" "10 + 2 \<le> length ?h" using l by simp_all
  have s: "le_sum h = le_sum ?h + unat ?c" unfolding h by (rule le_sum_put16 [OF ten z])
  have "NOT ?c = lwip_standard_chksum a ?h" by (simp add: inet_chksum_def)
  then have "unat (NOT ?c) = ones (le_sum ?h)" using chksum_ones [of ?h a] l by simp
  then have "unat (NOT ?c) mod 65535 = le_sum ?h mod 65535" by (simp only: ones_mod)
  from closes [OF this] show "le_sum h mod 65535 = 0" by (simp only: s)
qed

lemma whole_packet:
  assumes "length hdr = 20" "hdr ! 0 = 0x45" "length bs \<le> 65515"
    and h_def: "h = whole_hdr a (of_nat (length bs) + 20) 0 hdr"
  shows "ip_header_ok (h @ bs)" "ip_payload (h @ bs) = bs" "be16 (h @ bs) 6 = 0" "kept_bytes (h @ bs) hdr"
proof -
  note w = whole_hdr_ok [OF assms(1) h_def]
  have l: "length h = 20" by (simp add: h_def assms(1))
  have "at16 (h @ bs) 2 = at16 h 2" "at16 (h @ bs) 6 = at16 h 6" using l by (simp_all add: at16_def nth_append)
  then have b: "be16 (h @ bs) 2 = 20 + length bs" "be16 (h @ bs) 6 = 0"
    using w(1,2) assms(3) by (simp_all add: at16_htons_eq at16_0_iff unat_word_ariths unat_of_nat)
  show "be16 (h @ bs) 6 = 0" by (rule b(2))
  show kb: "kept_bytes (h @ bs) hdr" using w(3) by (simp add: kept_append [OF l])
  then have h0: "(h @ bs) ! 0 = 0x45" using assms(2) by (simp add: kept_bytes_def)
  have hl: "ip_hlen (h @ bs) = 20" "ip_len (h @ bs) = 20 + length bs" using h0 b by (simp_all add: ip_hlen_def ip_len_def)
  have "be_sum h mod 65535 = 0" using w(4) by (simp only: le_be_0)
  then show "ip_header_ok (h @ bs)" using h0 hl l by (simp add: ip_header_ok_def)
  show "ip_payload (h @ bs) = bs" using hl l by (simp add: ip_payload_def)
qed

section \<open>All fragments, one after the other\<close>

fun reass_all :: "tx_env \<Rightarrow> lwip \<Rightarrow> pbuf list \<Rightarrow> reass_state \<Rightarrow> tx_state \<Rightarrow> (pbuf option list \<times> reass_state \<times> tx_state) option" where
  "reass_all E w [] r s = Some ([], r, s)"
| "reass_all E w (p # ps) r s = do {
     (q, r, s) \<leftarrow> ip4_reass E p w r s;
     (qs, r, s) \<leftarrow> reass_all E w ps r s;
     Some (q # qs, r, s) }"

text \<open>The datagram that the fragments \<open>ps\<close> of \<open>bs\<close> are of: a correct packet with the addresses and the
  identification of the fragments and all else that is in the header of the first, not a fragment itself, and nothing behind it.\<close>

definition whole_of :: "u8 list \<Rightarrow> u8 list \<Rightarrow> pbuf list \<Rightarrow> u8 list \<Rightarrow> bool" where
  "whole_of key bs ps m \<longleftrightarrow> ip_header_ok m \<and> ip_payload m = bs \<and> length m = 20 + length bs \<and> be16 m 6 = 0 \<and>
     IP_ADDRESSES_AND_ID_MATCH m key \<and> (\<forall>p \<in> set ps. frag_start p = 0 \<longrightarrow> kept_bytes m (fhdr p))"

lemma joined:
  assumes "chain_from 0 (length bs) qs" "\<forall>p \<in> set qs. fragment_of key bs p" "length bs \<le> 65515" "qs \<noteq> []"
    "mset fed = mset qs" "reassembling bs fed (set fed) ipr"
  obtains q where "join_frags ipr = Some q" "whole_of key bs qs (p_bytes q)" "pbuf_clen q = sum_list (map pbuf_clen qs)"
proof -
  have sf: "set fed = set qs" using assms(5) by (rule mset_eq_setD)
  have re: "frags_wf (rd_frags ipr)" "mset (rd_frags ipr) = mset (map new_frag fed)"
    using assms(6) by (simp_all add: reassembling_def)
  have "mset (rd_frags ipr) = mset (map new_frag qs)" using re(2) assms(5) by simp
  then have fs: "rd_frags ipr = map new_frag qs"
    using ordered_unique [OF re(1) ordered_map(1) [OF assms(1-3)]] by blast
  have pb: "fr_pbuf (new_frag p) = p" "20 \<le> p_len p" "20 \<le> length (fhdr p)" if "p \<in> set qs" for p
    using assms(2) that new_frag_ok(1) [of key bs p] fragment_hdr [of key bs p] assms(3) by (auto simp: fragment_of_def)
  obtain p0 qs' where q0: "qs = p0 # qs'" using assms(4) by (cases qs) auto
  have p0: "p0 \<in> set qs" "frag_start p0 = 0" "fragment_of key bs p0" using assms(1,2) q0 by simp_all
  have hdr: "rd_iphdr ipr = take 20 (fhdr p)" if "p \<in> set qs" "frag_start p = 0" for p
    using assms(6) that sf by (simp add: reassembling_def)
  have hl: "length (rd_iphdr ipr) = 20" using hdr [OF p0(1,2)] pb(3) [OF p0(1)] by simp
  have h: "rd_iphdr ipr ! 0 = 0x45" "IP_ADDRESSES_AND_ID_MATCH (rd_iphdr ipr) key"
    using hdr [OF p0(1,2)] p0(3) pb(3) [OF p0(1)] by (simp_all add: fragment_of_def match_take)
  have "frag_end (last qs) = length bs" by (rule chain_last [OF assms(1,4)])
  then have "\<not> more_frags (last qs)" using assms(2,4) by (simp add: fragment_of_def)
  then have "rd_last ipr" using assms(6) sf last_in_set [OF assms(4)] by (auto simp: reassembling_def)
  then have dl: "rd_datagram_len ipr = of_nat (length bs)" using assms(6) by (simp add: reassembling_def)
  obtain q a where q: "join_frags ipr = Some q"
    "p_bytes q = whole_hdr a (rd_datagram_len ipr + 20) 0 (rd_iphdr ipr) @ concat (map (\<lambda>f. drop 20 (p_bytes (fr_pbuf f))) (rd_frags ipr))"
    "pbuf_clen q = sum_list (map (pbuf_clen \<circ> fr_pbuf) (rd_frags ipr))"
    by (rule join_frags_ok [OF _ _ hl]) (use assms(4) pb in \<open>auto simp: fs\<close>)
  have "map (\<lambda>f. drop 20 (p_bytes (fr_pbuf f))) (rd_frags ipr) = map (\<lambda>p. drop 20 (p_bytes p)) qs"
    using pb(1) by (simp add: fs)
  then have b: "p_bytes q = whole_hdr a (of_nat (length bs) + 20) 0 (rd_iphdr ipr) @ bs"
    using q(2) chain_bytes [OF assms(1,2) refl] by (simp add: dl)
  have n: "pbuf_clen q = sum_list (map pbuf_clen qs)"
    unfolding q(3) fs map_map by (rule arg_cong [where f = sum_list], rule map_cong [OF refl]) (simp add: pb(1))
  note w = whole_packet [OF hl h(1) assms(3) refl, of a]
  have "kept_bytes m (rd_iphdr ipr) = kept_bytes m (fhdr p)" if "p \<in> set qs" "frag_start p = 0" for p m
    unfolding hdr [OF that] by (rule kept_take)
  then have "whole_of key bs qs (p_bytes q)"
    unfolding whole_of_def b using w h(2) length_whole_hdr [OF hl] kept_match [OF w(4)] by auto
  with q(1) n that show thesis by blast
qed

lemma match_sym: "IP_ADDRESSES_AND_ID_MATCH a b \<Longrightarrow> IP_ADDRESSES_AND_ID_MATCH c b \<longleftrightarrow> IP_ADDRESSES_AND_ID_MATCH c a"
  by (simp add: IP_ADDRESSES_AND_ID_MATCH_def)

lemma find_here: "IP_ADDRESSES_AND_ID_MATCH (rd_iphdr ipr) h \<Longrightarrow> find_datagram h (ipr # rest) = Some 0"
  by (simp add: find_datagram_def upt_conv_Cons del: upt_Suc)

lemma find_nowhere: "\<forall>ipr \<in> set rs. \<not> IP_ADDRESSES_AND_ID_MATCH (rd_iphdr ipr) h \<Longrightarrow> find_datagram h rs = None"
  by (simp add: find_datagram_def find_None_iff)

text \<open>Which datagram a fragment goes to when there is room.\<close>

lemma reass_enters:
  assumes "fragment_of key bs p" "unat (ip_reass_pbufcount r) + pbuf_clen p \<le> IP_REASS_MAX_PBUFS"
  shows "reassdatagrams r = ipr # rest \<Longrightarrow> IP_ADDRESSES_AND_ID_MATCH (rd_iphdr ipr) key \<Longrightarrow> ip4_reass E p w r s = reass_take p 0 r s"
    "\<forall>ipr \<in> set (reassdatagrams r). \<not> IP_ADDRESSES_AND_ID_MATCH (rd_iphdr ipr) key \<Longrightarrow>
     length (reassdatagrams r) < MEMP_NUM_REASSDATA \<Longrightarrow>
     ip4_reass E p w r s = reass_take p 0 (r\<lparr>reassdatagrams := \<lparr>rd_frags = [], rd_iphdr = take 20 (fhdr p), rd_datagram_len = 0,
       rd_last = False, rd_timer = IP_REASS_MAXAGE\<rparr> # reassdatagrams r\<rparr>) s"
proof -
  have h: "IPH_HL_BYTES (fhdr p ! 0) = 20" "0 < frag_size p" "IP_ADDRESSES_AND_ID_MATCH (fhdr p) key"
    using assms(1) by (simp_all add: fragment_of_def IPH_HL_BYTES_def)
  have l: "\<not> unat (lwip_ntohs (IPH_LEN (fhdr p))) < 20" using h(2) by (simp add: frag_size_def)
  have n: "\<not> IP_REASS_MAX_PBUFS < unat (ip_reass_pbufcount r) + pbuf_clen p" using assms(2) by simp
  have e: "ip4_reass E p w r s = (case find_datagram (fhdr p) (reassdatagrams r) of
      Some k \<Rightarrow> reass_take p k r s
    | None \<Rightarrow> do {
        (ok, r, s) \<leftarrow> ip_reass_enqueue_new_datagram E (fhdr p) (pbuf_clen p) w r s;
        (if ok then reass_take p 0 r s else Some (None, r, pbuf_release p s)) })"
    unfolding ip4_reass_def Let_def fhdr_def [symmetric] h(1) using l n by (simp add: IP_HLEN_def)
  show "ip4_reass E p w r s = reass_take p 0 r s" if "reassdatagrams r = ipr # rest" "IP_ADDRESSES_AND_ID_MATCH (rd_iphdr ipr) key"
    unfolding e that(1) using find_here [of ipr "fhdr p" rest] that(2) match_sym [OF h(3)] by simp
  assume a: "\<forall>ipr \<in> set (reassdatagrams r). \<not> IP_ADDRESSES_AND_ID_MATCH (rd_iphdr ipr) key" "length (reassdatagrams r) < MEMP_NUM_REASSDATA"
  then have "find_datagram (fhdr p) (reassdatagrams r) = None" using find_nowhere match_sym [OF h(3)] by blast
  then show "ip4_reass E p w r s = reass_take p 0 (r\<lparr>reassdatagrams := \<lparr>rd_frags = [], rd_iphdr = take 20 (fhdr p), rd_datagram_len = 0,
       rd_last = False, rd_timer = IP_REASS_MAXAGE\<rparr> # reassdatagrams r\<rparr>) s"
    unfolding e using a(2) by (simp add: ip_reass_enqueue_new_datagram_def IP_HLEN_def)
qed

text \<open>What comes out of the fragments \<open>ps\<close>, after \<open>fed\<close> have been taken in: nothing, until the last one brings
  the whole datagram.\<close>

definition comes_out :: "u8 list \<Rightarrow> u8 list \<Rightarrow> pbuf list \<Rightarrow> nat \<Rightarrow> reassdata list \<Rightarrow> u16 \<Rightarrow> tx_state \<Rightarrow>
    (pbuf option list \<times> reass_state \<times> tx_state) option \<Rightarrow> bool" where
  "comes_out key bs qs n rest c s x \<longleftrightarrow> (\<exists>q. whole_of key bs qs (p_bytes q) \<and>
     x = Some (replicate (n - 1) None @ [Some q], \<lparr>reassdatagrams = rest, ip_reass_pbufcount = c\<rparr>, s))"

lemma comes_later:
  "comes_out key bs qs n rest c s x \<Longrightarrow> 0 < n \<Longrightarrow>
   comes_out key bs qs (Suc n) rest c s (do { (qs, r, s) \<leftarrow> x; Some (None # qs, r, s) })"
  by (cases n) (auto simp: comes_out_def)

lemma fed_header:
  assumes "reassembling bs fed P ipr" "\<forall>p \<in> P. fragment_of key bs p"
  shows "IP_ADDRESSES_AND_ID_MATCH (rd_iphdr ipr) key"
proof -
  obtain p where "p \<in> P" "rd_iphdr ipr = take 20 (fhdr p)" using assms(1) by (auto simp: reassembling_def)
  then show ?thesis using assms(2) fragment_hdr [of key bs p] match_take [of "fhdr p" key] by (simp add: fragment_of_def)
qed

lemma fed_or_done:
  assumes "chain_from 0 (length bs) qs" "\<forall>p \<in> set qs. fragment_of key bs p" "length bs \<le> 65515"
    "mset fed + mset ps = mset qs" "ps \<noteq> []" "reassembling bs fed (insert (hd ps) (set fed)) ipr" "reassdatagrams r = ipr # rest"
    "ip_reass_pbufcount r = c + of_nat (sum_list (map pbuf_clen fed))"
    "unat c + sum_list (map pbuf_clen qs) \<le> IP_REASS_MAX_PBUFS"
  shows "comes_out key bs qs (length ps) rest c s
    (do { (q, r, s) \<leftarrow> reass_take (hd ps) 0 r s; (qs, r, s) \<leftarrow> reass_all E w (tl ps) r s; Some (q # qs, r, s) })"
  using assms(4-8)
proof (induction ps arbitrary: fed ipr r)
  case (Cons p ps)
  note a = Cons.prems [simplified list.sel]
  have sub: "mset (p # fed) \<subseteq># mset qs" using a(1) by (metis mset_subset_eq_add_left union_mset_add_mset_left union_mset_add_mset_right mset.simps(2))
  have qn: "qs \<noteq> []" using a(1) by auto
  let ?n = "sum_list (map pbuf_clen (p # fed))"
  obtain ipr' where i: "reassembling bs (p # fed) (set (p # fed)) ipr'"
    "reass_take p 0 r s =
      (let r' = r\<lparr>reassdatagrams := ipr' # rest, ip_reass_pbufcount := ip_reass_pbufcount r + of_nat (pbuf_clen p)\<rparr>
       in if mset (p # fed) = mset qs then
            map_option (\<lambda>q. (Some q, r'\<lparr>reassdatagrams := rest, ip_reass_pbufcount := ip_reass_pbufcount r' - of_nat (pbuf_clen q)\<rparr>, s))
              (join_frags ipr')
          else Some (None, r', s))"
    by (rule take_step [OF assms(1-3) sub a(3,4), where s = s])
  have c: "ip_reass_pbufcount r + of_nat (pbuf_clen p) = c + of_nat ?n" using a(5) by (simp add: algebra_simps)
  show ?case
  proof (cases ps)
    case Nil
    then have e: "mset (p # fed) = mset qs" using a(1) by simp
    obtain q where q: "join_frags ipr' = Some q" "whole_of key bs qs (p_bytes q)" "pbuf_clen q = sum_list (map pbuf_clen qs)"
      by (rule joined [OF assms(1-3) qn e i(1)])
    have "sum_list (map pbuf_clen qs) = ?n" by (metis e mset_map sum_mset_sum_list)
    then show ?thesis unfolding list.sel i(2) Let_def if_P [OF e] using q by (simp add: comes_out_def Nil c)
  next
    case (Cons p' ps')
    have ne: "mset (p # fed) \<noteq> mset qs" using a(1) by (metis Cons add_cancel_right_right mset.simps(2) union_mset_add_mset_left union_mset_add_mset_right mset_zero_iff list.distinct(1))
    let ?r = "r\<lparr>reassdatagrams := ipr' # rest, ip_reass_pbufcount := c + of_nat ?n\<rparr>"
    have all: "\<forall>q \<in> set (p # fed). fragment_of key bs q" using sub assms(2) by (metis mset_subset_eqD set_mset_mset)
    have "p' \<in># mset qs" unfolding a(1) [symmetric] Cons by simp
    then have p': "fragment_of key bs p'" using assms(2) by simp
    have "reassembling bs (p # fed) (insert (hd ps) (set (p # fed))) ipr'" using i(1) by (auto simp: reassembling_def Cons)
    moreover have "mset (p # fed) + mset ps = mset qs" using a(1) by simp
    ultimately have ih: "comes_out key bs qs (length ps) rest c s
        (do { (q, r, s) \<leftarrow> reass_take (hd ps) 0 ?r s; (qs, r, s) \<leftarrow> reass_all E w (tl ps) r s; Some (q # qs, r, s) })"
      by - (rule Cons.IH [of "p # fed"], simp_all add: Cons)
    have "sum_list (map pbuf_clen qs) = ?n + sum_list (map pbuf_clen ps)"
      using arg_cong [OF a(1), where f = "\<lambda>M. \<Sum>p \<in># M. pbuf_clen p"] by (simp add: sum_mset_sum_list [symmetric])
    then have "unat c + (?n + pbuf_clen p') \<le> IP_REASS_MAX_PBUFS" using assms(9) by (simp add: Cons)
    moreover from this have "unat (c + of_nat ?n) = unat c + ?n" by (simp add: unat_word_ariths unat_of_nat IP_REASS_MAX_PBUFS_def)
    ultimately have room: "unat (ip_reass_pbufcount ?r) + pbuf_clen p' \<le> IP_REASS_MAX_PBUFS" by simp
    have "ip4_reass E p' w ?r s = reass_take p' 0 ?r s"
      by (rule reass_enters(1) [OF p' room]) (use fed_header [OF i(1) all] in simp_all)
    then have "comes_out key bs qs (length ps) rest c s (reass_all E w ps ?r s)" using ih unfolding Cons list.sel reass_all.simps by simp
    moreover have "0 < length ps" by (simp add: Cons)
    ultimately have "comes_out key bs qs (Suc (length ps)) rest c s (do { (qs, r, s) \<leftarrow> reass_all E w ps ?r s; Some (None # qs, r, s) })"
      by (rule comes_later)
    then show ?thesis unfolding list.sel i(2) c Let_def if_not_P [OF ne] Option.bind.simps prod.case length_Cons .
  qed
qed simp

text \<open>The fragments in any order, to a board that has none of them.\<close>

lemma whole_comes_out:
  assumes "fragments_of key bs ps" "ps \<noteq> []" "length bs \<le> 65515" "length (reassdatagrams r) < MEMP_NUM_REASSDATA"
    "\<forall>ipr \<in> set (reassdatagrams r). \<not> IP_ADDRESSES_AND_ID_MATCH (rd_iphdr ipr) key"
    "unat (ip_reass_pbufcount r) + sum_list (map pbuf_clen ps) \<le> IP_REASS_MAX_PBUFS"
  shows "comes_out key bs ps (length ps) (reassdatagrams r) (ip_reass_pbufcount r) s (reass_all E w ps r s)"
proof -
  obtain qs where qs: "mset qs = mset ps" "chain_from 0 (length bs) qs" using assms(1) by (auto simp: fragments_of_def)
  have s: "set qs = set ps" using qs(1) by (rule mset_eq_setD)
  have f: "\<forall>p \<in> set ps. fragment_of key bs p" using assms(1) by (simp add: fragments_of_def)
  obtain p ps' where ps: "ps = p # ps'" using assms(2) by (cases ps) auto
  have p: "fragment_of key bs p" using f by (simp add: ps)
  let ?ipr = "\<lparr>rd_frags = [], rd_iphdr = take 20 (fhdr p), rd_datagram_len = 0, rd_last = False, rd_timer = IP_REASS_MAXAGE\<rparr>"
  let ?r = "r\<lparr>reassdatagrams := ?ipr # reassdatagrams r\<rparr>"
  have "unat (ip_reass_pbufcount r) + pbuf_clen p \<le> IP_REASS_MAX_PBUFS" using assms(6) by (simp add: ps)
  from reass_enters(2) [OF p this assms(5,4)] have e: "ip4_reass E p w r s = reass_take p 0 ?r s" .
  have "sum_list (map pbuf_clen qs) = sum_list (map pbuf_clen ps)" by (metis qs(1) mset_map sum_mset_sum_list)
  then have n: "unat (ip_reass_pbufcount r) + sum_list (map pbuf_clen qs) \<le> IP_REASS_MAX_PBUFS" using assms(6) by simp
  have "comes_out key bs qs (length ps) (reassdatagrams r) (ip_reass_pbufcount r) s
    (do { (q, r, s) \<leftarrow> reass_take (hd ps) 0 ?r s; (qs, r, s) \<leftarrow> reass_all E w (tl ps) r s; Some (q # qs, r, s) })"
    by (rule fed_or_done [OF qs(2) _ assms(3) _ assms(2) _ _ _ n, where fed = "[]" and ipr = ?ipr])
      (use f s qs(1) in \<open>simp_all add: reassembling_def ps\<close>)
  then show ?thesis unfolding ps list.sel reass_all.simps e comes_out_def whole_of_def s [unfolded ps] .
qed

lemma fragments_whole:
  assumes "fragments_of key bs ps" "ps \<noteq> []" "length bs \<le> 65515" "length (reassdatagrams r) < MEMP_NUM_REASSDATA"
    "\<forall>ipr \<in> set (reassdatagrams r). \<not> IP_ADDRESSES_AND_ID_MATCH (rd_iphdr ipr) key"
    "unat (ip_reass_pbufcount r) + sum_list (map pbuf_clen ps) \<le> IP_REASS_MAX_PBUFS"
  shows "\<exists>q. whole_of key bs ps (p_bytes q) \<and> reass_all E w ps r s = Some (replicate (length ps - 1) None @ [Some q], r, s)"
proof -
  obtain q where "whole_of key bs ps (p_bytes q)" "reass_all E w ps r s = Some (replicate (length ps - 1) None @ [Some q],
      \<lparr>reassdatagrams = reassdatagrams r, ip_reass_pbufcount = ip_reass_pbufcount r\<rparr>, s)"
    using whole_comes_out [OF assms, of s E w] unfolding comes_out_def by blast
  then show ?thesis by auto
qed

end
