(* ===== verification/LwipFrag_Facts.thy ===== *)
theory LwipFrag_Facts
  imports LwipReass_Facts LwipUdpSend_Facts
begin

text \<open>
  Cutting a packet: what \<open>ip4_frag\<close> puts on the wire are the fragments of the packet, each a
  correct packet that fits the link.
\<close>

section \<open>References into a chain\<close>

abbreviation chain_data :: "seg list \<Rightarrow> u8 list" where "chain_data qs \<equiv> concat (map seg_data qs)"

lemma frag_refs_ok:
  assumes "n \<le> length (drop poff (chain_data qs))" "qs \<noteq> [] \<Longrightarrow> poff \<le> seg_len (hd qs)"
  obtains rs qs' poff' where "frag_refs qs poff n = Some (rs, qs', poff')" "chain_data rs = take n (drop poff (chain_data qs))"
    "drop poff' (chain_data qs') = drop n (drop poff (chain_data qs))" "qs' \<noteq> [] \<longrightarrow> poff' \<le> seg_len (hd qs')"
    "length rs \<le> length qs" "length qs' \<le> length qs" "\<forall>r \<in> set rs. seg_type r = PBUF_REF"
  using assms
proof (induction qs arbitrary: poff n thesis)
  case (Cons q qs)
  let ?k = "seg_len q - poff"
  have po: "poff \<le> length (seg_data q)" using Cons.prems(3) by (simp add: seg_len_def)
  then have d: "drop poff (chain_data (q # qs)) = drop poff (seg_data q) @ chain_data qs" by simp
  show ?case
  proof (cases "n \<le> ?k")
    case True
    let ?rs = "if n = 0 then [] else [mirror q poff n]"
    show ?thesis
    proof (rule Cons.prems(1))
      show "frag_refs (q # qs) poff n = Some (?rs, q # qs, poff + n)"
        using True by (simp add: min_def)
      show "chain_data ?rs = take n (drop poff (chain_data (q # qs)))"
        unfolding d using True by (simp add: mirror_def seg_len_def)
      show "drop (poff + n) (chain_data (q # qs)) = drop n (drop poff (chain_data (q # qs)))" by (simp only: drop_drop add.commute)
      show "q # qs \<noteq> [] \<longrightarrow> poff + n \<le> seg_len (hd (q # qs))" using True po by (simp add: seg_len_def)
    qed (simp_all add: mirror_def)
  next
    case False
    then have k: "min n ?k = ?k" "0 < n" "?k \<noteq> n" by simp_all
    have lk: "length (drop poff (seg_data q)) = ?k" by (simp add: seg_len_def)
    have "n - ?k \<le> length (drop 0 (chain_data qs))" using Cons.prems(2) False lk unfolding d by simp
    then obtain rs qs' poff' where r: "frag_refs qs 0 (n - ?k) = Some (rs, qs', poff')" "chain_data rs = take (n - ?k) (chain_data qs)"
      "drop poff' (chain_data qs') = drop (n - ?k) (chain_data qs)" "qs' \<noteq> [] \<longrightarrow> poff' \<le> seg_len (hd qs')"
      "length rs \<le> length qs" "length qs' \<le> length qs" "\<forall>r \<in> set rs. seg_type r = PBUF_REF"
      using Cons.IH [of 0 "n - ?k"] by auto
    let ?rs = "(if ?k = 0 then [] else [mirror q poff ?k]) @ rs"
    have m: "take ?k (drop poff (seg_data q)) = drop poff (seg_data q)" by (simp add: seg_len_def)
    have t: "take n (drop poff (chain_data (q # qs))) = drop poff (seg_data q) @ take (n - ?k) (chain_data qs)"
      unfolding d using False lk by (simp add: take_append)
    have e: "drop n (drop poff (chain_data (q # qs))) = drop (n - ?k) (chain_data qs)"
      unfolding d using False lk by (simp add: drop_append)
    show ?thesis
    proof (rule Cons.prems(1))
      have "n \<noteq> 0" using k(2) by simp
      then show "frag_refs (q # qs) poff n = Some (?rs, qs', poff')"
        using k r(1) by (cases "?k = 0") (simp_all only: frag_refs.simps Let_def if_False if_True k option.map prod.case append_Cons append_Nil refl diff_zero)
      show "chain_data ?rs = take n (drop poff (chain_data (q # qs)))"
        unfolding t using r(2) m lk by (auto simp: mirror_def)
      show "drop poff' (chain_data qs') = drop n (drop poff (chain_data (q # qs)))" unfolding e by (rule r(3))
    qed (use r in \<open>auto simp: mirror_def\<close>)
  qed
qed simp

section \<open>The header of a fragment\<close>

lemma put_at_swap:
  assumes "i + length a \<le> j" "j + length b \<le> length h"
  shows "put_at i a (put_at j b h) = put_at j b (put_at i a h)"
  using assms by (intro nth_equalityI) (auto simp: nth_put_at)

lemma frag_hdr_whole:
  assumes "20 \<le> length hdr"
  shows "frag_hdr a hdr n off = whole_hdr a (of_nat (n + 20)) (lwip_htons off) (take 20 hdr)"
proof -
  have "put_at 2 (store16 x) (put_at 6 (store16 y) (take 20 hdr)) = put_at 6 (store16 y) (put_at 2 (store16 x) (take 20 hdr))" for x y
    by (rule put_at_swap) (use assms in simp_all)
  then show ?thesis by (simp add: frag_hdr_def whole_hdr_def IP_HLEN_def Let_def)
qed

text \<open>A buffer with the bytes \<open>m\<close>. Whether a buffer holds a fragment depends on its bytes alone, when the header
  is in its first segment.\<close>

definition plain :: "u8 list \<Rightarrow> pbuf" where
  "plain m = \<lparr>p_head = \<lparr>seg_type = PBUF_RAM, seg_addr = 0, seg_front = [], seg_data = m, seg_tail = []\<rparr>, p_next = [], p_flags = 0, p_if_idx = 0\<rparr>"

lemma plain_simps [simp]: "fhdr (plain m) = m" "p_bytes (plain m) = m" "p_len (plain m) = length m"
  by (simp_all add: plain_def fhdr_def p_bytes_segs p_len_def seg_len_def)

lemma plain_same:
  assumes "20 \<le> p_len p"
  shows "frag_start p = frag_start (plain (p_bytes p))" "frag_end p = frag_end (plain (p_bytes p))"
    "fragment_of key bs p = fragment_of key bs (plain (p_bytes p))"
proof -
  have l: "20 \<le> length (fhdr p)" using assms by (simp add: fhdr_def p_len_def seg_len_def)
  have n: "p_bytes p ! i = fhdr p ! i" if "i < 20" for i
    using that l by (simp add: p_bytes_segs fhdr_def nth_append)
  have "20 \<le> length (p_bytes p)" using l by (simp add: p_bytes_segs fhdr_def)
  then show "frag_start p = frag_start (plain (p_bytes p))" "frag_end p = frag_end (plain (p_bytes p))"
    "fragment_of key bs p = fragment_of key bs (plain (p_bytes p))"
    using assms by (simp_all add: frag_start_def frag_end_def frag_size_def more_frags_def fragment_of_def IPH_OFFSET_BYTES_def
        IPH_OFFSET_def IPH_LEN_def IP_ADDRESSES_AND_ID_MATCH_def at16_def at32_def n)
qed

lemma htons_and: "lwip_htons a AND lwip_htons b = lwip_htons (a AND b)"
proof -
  have m: "(0x00ff :: u16) = mask 8" "(0xff00 :: u16) = push_bit 8 (mask 8)"
    by (simp_all add: mask_eq_exp_minus_1 push_bit_eq_mult)
  show ?thesis unfolding lwip_htons_def m by (rule bit_word_eqI) (auto simp: bit_simps)
qed

lemma htons_0_iff: "lwip_htons a = 0 \<longleftrightarrow> a = 0"
proof
  assume "lwip_htons a = 0"
  then have "lwip_ntohs (lwip_htons a) = lwip_ntohs 0" by simp
  moreover have "lwip_ntohs 0 = 0" by (simp add: lwip_ntohs_def lwip_htons_def)
  ultimately show "a = 0" by simp
qed (simp add: lwip_htons_def)

text \<open>The offset and the flag of a fragment.\<close>

definition frag_off :: "u16 \<Rightarrow> bool \<Rightarrow> u16" where
  "frag_off ofo mf = (IP_OFFMASK AND ofo) OR (if mf then IP_MF else 0)"

lemma frag_off_ok:
  assumes "unat ofo < 8192"
  shows "unat ((frag_off ofo mf AND IP_OFFMASK) * 8) = 8 * unat ofo" "frag_off ofo mf AND IP_MF \<noteq> 0 \<longleftrightarrow> mf"
proof -
  have m: "IP_OFFMASK = mask 13" by (simp add: IP_OFFMASK_def mask_eq_exp_minus_1)
  have mf: "IP_MF = push_bit 13 1" by (simp add: IP_MF_def push_bit_eq_mult)
  have b: "bit IP_MF k \<longleftrightarrow> k = 13" for k unfolding mf bit_push_bit_iff bit_1_iff by auto
  have "frag_off ofo mf AND IP_OFFMASK = take_bit 13 ofo"
    unfolding frag_off_def m by (rule bit_word_eqI) (auto simp: bit_simps b)
  moreover have "take_bit 13 ofo = ofo" using assms by (simp add: word_unat_eq_iff unsigned_take_bit_eq take_bit_nat_eq_self)
  ultimately show "unat ((frag_off ofo mf AND IP_OFFMASK) * 8) = 8 * unat ofo" using assms by (simp add: unat_word_ariths)
  have "frag_off ofo mf AND IP_MF = (if mf then IP_MF else 0)"
    unfolding frag_off_def m by (rule bit_word_eqI) (auto simp: bit_simps b)
  then show "frag_off ofo mf AND IP_MF \<noteq> 0 \<longleftrightarrow> mf" by (simp add: IP_MF_def)
qed

lemma cut_fragment:
  assumes "20 \<le> length hdr" "hdr ! 0 = 0x45" "start = 8 * unat ofo" "0 < n" "start + n \<le> length bs" "length bs \<le> 65515"
    "mf \<longleftrightarrow> start + n < length bs" "m = frag_hdr a hdr n (frag_off ofo mf) @ take n (drop start bs)"
  shows "fragment_of hdr bs (plain m)" "frag_start (plain m) = start" "frag_end (plain m) = start + n" "ip_header_ok m" "length m = 20 + n" "kept_bytes m hdr"
proof -
  define h where "h = frag_hdr a hdr n (frag_off ofo mf)"
  have t: "length (take 20 hdr) = 20" "take 20 hdr ! 0 = 0x45" using assms(1,2) by simp_all
  have hw: "h = whole_hdr a (of_nat (n + 20)) (lwip_htons (frag_off ofo mf)) (take 20 hdr)"
    unfolding h_def by (rule frag_hdr_whole [OF assms(1)])
  note w = whole_hdr_ok [OF t(1) hw]
  have l: "length h = 20" using hw t(1) by simp
  have m: "m = h @ take n (drop start bs)" using assms(8) by (simp add: h_def)
  have lm: "length (take n (drop start bs)) = n" using assms(5) by simp
  then show lm': "length m = 20 + n" using l by (simp add: m)
  have at: "at16 m i = at16 h i" "m ! i = h ! i" if "i < 19" for i using that l by (simp_all add: m at16_def nth_append)
  have len: "unat (lwip_ntohs (IPH_LEN m)) = 20 + n"
    using at(1) [of 2] w(1) assms(5,6) by (simp add: IPH_LEN_def unat_word_ariths unat_of_nat)
  have off: "IPH_OFFSET m = lwip_htons (frag_off ofo mf)" using at(1) [of 6] w(2) by (simp add: IPH_OFFSET_def)
  have "unat ofo < 8192" using assms(3,5,6) by linarith
  note fo = frag_off_ok [OF this, of mf]
  show fs: "frag_start (plain m) = start" using fo(1) assms(3) by (simp add: frag_start_def IPH_OFFSET_BYTES_def off)
  show fe: "frag_end (plain m) = start + n" using fs len by (simp add: frag_end_def frag_size_def)
  have sz: "frag_size (plain m) = n" using len by (simp add: frag_size_def)
  have mf: "more_frags (plain m) \<longleftrightarrow> mf"
    using fo(2) by (simp add: more_frags_def off lwip_ntohs_def htons_and htons_0_iff)
  show kb: "kept_bytes m hdr" using w(3) by (simp add: m kept_append [OF l] kept_take)
  then have key: "IP_ADDRESSES_AND_ID_MATCH m hdr"
    using kept_match [OF kb, of hdr] by (simp add: IP_ADDRESSES_AND_ID_MATCH_def)
  have m0: "m ! 0 = 0x45" using kb assms(2) by (simp add: kept_bytes_def)
  have db: "drop 20 m = drop start (take (start + n) bs)" using l by (simp add: m drop_take)
  show "fragment_of hdr bs (plain m)"
    unfolding fragment_of_def fs fe sz mf using m0 key db assms(4,5,7) lm' by simp
  have hl: "ip_hlen m = 20" by (simp add: ip_hlen_def m0)
  have il: "ip_len m = 20 + n" using len by (simp add: ip_len_def be16_at16 IPH_LEN_def)
  have "le_sum (take 20 m) mod 65535 = 0" using w(4) l by (simp add: m)
  then have "be_sum (take 20 m) mod 65535 = 0" by (simp only: le_be_0)
  then show "ip_header_ok m" using m0 lm' by (simp add: ip_header_ok_def hl il)
qed

section \<open>The loop\<close>

lemma reachable_cong:
  assumes "reachable_by N n dst i s" "arp_table s' = arp_table s" "arp_ok N s'"
  shows "reachable_by N n dst i s'"
  using assms by (simp add: reachable_by_def arp_at_def)

text \<open>The frames that carry the packets \<open>ms\<close>, the last one first as in the trace.\<close>

definition frames_of :: "netif \<Rightarrow> etharp_entry \<Rightarrow> u8 list list \<Rightarrow> tx_event list" where
  "frames_of n e ms = rev (map (\<lambda>m. SentFrame (eth_frame (ae_ethaddr e) (nif_hwaddr n) ETHTYPE_IP m)) ms)"

text \<open>One round: a fragment goes out.\<close>

lemma frag_round:
  assumes "heap_ok E" "heap_never_full E" "reachable_by N n dst i s" "link_of n \<in> N" "unat (nif_mtu n) = 20 + 8 * b" "0 < b" "b < 8180"
    "20 \<le> length hdr" "0 < left" "fragsize = min left (8 * b)" "frag_refs qs poff fragsize = Some (rs, qs', poff')" "length rs \<le> 15"
    "\<forall>r \<in> set rs. seg_type r = PBUF_REF" "length (chain_data rs) = fragsize"
  obtains a s' where "frag_loop E n dst hdr False b left ofo qs poff s = frag_loop E n dst hdr False b (left - fragsize) (ofo + of_nat b) qs' poff' s'"
    "tx_trace s' = SentFrame (eth_frame (ae_ethaddr (arp_at s i)) (nif_hwaddr n) ETHTYPE_IP
       (frag_hdr a hdr fragsize (frag_off ofo (fragsize < left)) @ chain_data rs)) # tx_trace s"
    "arp_table s' = arp_table s" "reachable_by N n dst i s'"
proof -
  obtain p where p: "pbuf_alloc_ram E PBUF_LINK IP_HLEN s = (Some p, s)" "fresh_ram 16 IP_HLEN p"
    using alloc_ram_ok [OF assms(1,2), of IP_HLEN PBUF_LINK s] by (auto simp: layer_values IP_HLEN_def simp del: layer_offset.simps)
  have m: "b * 8 mod 2 ^ 16 = 8 * b" using assms(7) by simp
  have la: "(int left \<le> int (unat (nif_mtu n)) - int IP_HLEN) = (\<not> fragsize < left)" using assms(5,10) by (auto simp: IP_HLEN_def min_def)
  let ?h = "frag_hdr (seg_payload (p_head p)) hdr fragsize (frag_off ofo (fragsize < left))"
  have lh: "length ?h = 20" using assms(8) by (simp add: frag_hdr_whole)
  define r where "r = p\<lparr>p_head := (p_head p)\<lparr>seg_data := ?h\<rparr>, p_next := rs\<rparr>"
  have rb: "p_bytes r = ?h @ chain_data rs" by (simp add: r_def p_bytes_segs)
  have "p_tot_len r = 20 + fragsize" using lh assms(14) by (simp add: p_tot_len_bytes rb)
  then have se: "sendable r" using p(2) assms(7,10) by (simp add: sendable_def r_def fresh_ram_def contiguous_def)
  let ?s = "snd (etharp_output E n r dst s)"
  note o = reachable_send [OF assms(3) se, of E]
  have ok: "arp_ok N ?s" by (rule output_arp_ok [OF _ assms(4)]) (use assms(3) in \<open>simp add: reachable_by_def\<close>)
  have rel: "pbuf_release r t = t" for t
    by (rule release_ram) (use p(2) assms(13) in \<open>auto simp: r_def fresh_ram_def p_segs_def\<close>)
  have c: "0 < fragsize" "\<not> MEMP_NUM_FRAG_PBUF < length rs" using assms(6,9,10,12) by (simp_all add: MEMP_NUM_FRAG_PBUF_def)
  have "frag_loop E n dst hdr False b left ofo qs poff s =
      (let (_, s') = etharp_output E n r dst s
       in frag_loop E n dst hdr False b (left - fragsize) (ofo + of_nat b) qs' poff' (pbuf_release r s'))"
    unfolding frag_loop.simps [of E n dst hdr False b left ofo qs poff s] m assms(10) [symmetric] p(1) Let_def prod.case option.case assms(11) la
    using assms(9) c by (simp add: frag_off_def r_def del: frag_loop.simps)
  then have "frag_loop E n dst hdr False b left ofo qs poff s = frag_loop E n dst hdr False b (left - fragsize) (ofo + of_nat b) qs' poff' ?s"
    by (simp add: split_beta Let_def rel del: frag_loop.simps)
  moreover have "tx_trace ?s = SentFrame (eth_frame (ae_ethaddr (arp_at s i)) (nif_hwaddr n) ETHTYPE_IP (?h @ chain_data rs)) # tx_trace s"
    using o(2) by (simp add: rb)
  ultimately show thesis using that o(3) reachable_cong [OF assms(3) o(3) ok] by blast
qed

lemma rounds_one_more:
  assumes "0 < (c :: nat)" "0 < l" "k = min l c"
  shows "(l + (c - 1)) div c = Suc ((l - k + (c - 1)) div c)"
proof -
  have c: "c \<noteq> 0" using assms(1) by simp
  show ?thesis
  proof (cases "l \<le> c")
    case True
    have "l + (c - 1) = (l - 1) + c" using assms(1,2) by simp
    then have "(l + (c - 1)) div c = (l - 1) div c + 1" by (simp only: div_add_self2 [OF c])
    moreover have "(l - 1) div c = 0" "(c - 1) div c = 0" using True assms(1,2) by simp_all
    ultimately show ?thesis using True assms(3) by simp
  next
    case False
    then have "l + (c - 1) = (l - k + (c - 1)) + c" using assms(3) by simp
    then show ?thesis by (simp only: div_add_self2 [OF c] Suc_eq_plus1)
  qed
qed

lemma frag_loop_ok:
  assumes "heap_ok E" "heap_never_full E" "link_of n \<in> N" "unat (nif_mtu n) = 20 + 8 * b" "0 < b" "b < 8180"
    "20 \<le> length hdr" "hdr ! 0 = 0x45" "length bs \<le> 65515"
    "reachable_by N n dst i s" "length qs \<le> 15" "qs \<noteq> [] \<Longrightarrow> poff \<le> seg_len (hd qs)"
    "start + left = length bs" "left \<noteq> 0 \<Longrightarrow> start = 8 * unat ofo" "drop poff (chain_data qs) = drop start bs"
  obtains ms s' where "frag_loop E n dst hdr False b left ofo qs poff s = Some (LwOk, s')"
    "tx_trace s' = frames_of n (arp_at s i) ms @ tx_trace s" "arp_table s' = arp_table s" "chain_from start (length bs) (map plain ms)"
    "length ms = (left + (8 * b - 1)) div (8 * b)"
    "\<forall>m \<in> set ms. fragment_of hdr bs (plain m) \<and> ip_header_ok m \<and> length m \<le> unat (nif_mtu n) \<and> kept_bytes m hdr"
  using assms(10-15)
proof (induction left arbitrary: ofo qs poff s start thesis rule: less_induct)
  case (less left)
  note IH = less.IH and prem = less.prems
  show ?case
  proof (cases "left = 0")
    case True
    show ?thesis by (rule prem(1) [of s "[]"]) (use True prem(5) assms(5) in \<open>simp_all add: frames_of_def\<close>)
  next
    case False
    define k where "k = min left (8 * b)"
    have k: "0 < k" "k \<le> left" "start + k \<le> length bs" using False assms(5) prem(5) by (auto simp: k_def)
    have st: "start = 8 * unat ofo" using prem(6) False by blast
    obtain rs qs' poff' where r: "frag_refs qs poff k = Some (rs, qs', poff')" "chain_data rs = take k (drop poff (chain_data qs))"
      "drop poff' (chain_data qs') = drop k (drop poff (chain_data qs))" "qs' \<noteq> [] \<longrightarrow> poff' \<le> seg_len (hd qs')"
      "length rs \<le> length qs" "length qs' \<le> length qs" "\<forall>r \<in> set rs. seg_type r = PBUF_REF"
      by (rule frag_refs_ok [of k poff qs]) (use prem(4,7) k(3) in auto)
    have rd: "chain_data rs = take k (drop start bs)" "length (chain_data rs) = k" using r(2) prem(7) k(3) by simp_all
    obtain a s1 where s1: "frag_loop E n dst hdr False b left ofo qs poff s = frag_loop E n dst hdr False b (left - k) (ofo + of_nat b) qs' poff' s1"
      "tx_trace s1 = SentFrame (eth_frame (ae_ethaddr (arp_at s i)) (nif_hwaddr n) ETHTYPE_IP
         (frag_hdr a hdr k (frag_off ofo (k < left)) @ chain_data rs)) # tx_trace s"
      "arp_table s1 = arp_table s" "reachable_by N n dst i s1"
      by (rule frag_round [OF assms(1,2) prem(2) assms(3-7) _ k_def r(1) _ r(7) rd(2)]) (use False r(5) prem(3) in auto)
    define m where "m = frag_hdr a hdr k (frag_off ofo (k < left)) @ take k (drop start bs)"
    have mf: "(k < left) = (start + k < length bs)" using prem(5) by linarith
    note f = cut_fragment [OF assms(7,8) st k(1,3) assms(9) mf m_def]
    have nx: "unat (ofo + of_nat b) = unat ofo + b" if "left - k \<noteq> 0"
    proof -
      have "k = 8 * b" using that by (auto simp: k_def)
      then have "8 * unat ofo + 8 * b \<le> 65515" using k(3) assms(9) unfolding st by (rule_tac order_trans) simp_all
      then have "unat ofo + b < 65536" by simp
      then show ?thesis using assms(6) by (simp add: unat_word_ariths unat_of_nat)
    qed
    obtain ms s' where ms: "frag_loop E n dst hdr False b (left - k) (ofo + of_nat b) qs' poff' s1 = Some (LwOk, s')"
      "tx_trace s' = frames_of n (arp_at s1 i) ms @ tx_trace s1" "arp_table s' = arp_table s1"
      "chain_from (start + k) (length bs) (map plain ms)" "length ms = (left - k + (8 * b - 1)) div (8 * b)"
      "\<forall>m \<in> set ms. fragment_of hdr bs (plain m) \<and> ip_header_ok m \<and> length m \<le> unat (nif_mtu n) \<and> kept_bytes m hdr"
    proof (rule IH [where y = "left - k" and start = "start + k" and ofo = "ofo + of_nat b" and qs = qs' and poff = poff' and s = s1])
      show "left - k < left" using False k(1) by simp
      show "start + k = 8 * unat (ofo + of_nat b)" if "left - k \<noteq> 0"
        using nx [OF that] st that by (auto simp: k_def)
      show "drop poff' (chain_data qs') = drop (start + k) bs" using r(3) prem(7) by (simp add: add.commute)
    qed (use s1(4) r(4,6) prem(3,5) k(2) in auto)
    show ?thesis
    proof (rule prem(1) [of s' "m # ms"])
      show "frag_loop E n dst hdr False b left ofo qs poff s = Some (LwOk, s')" using s1(1) ms(1) by simp
      show "tx_trace s' = frames_of n (arp_at s i) (m # ms) @ tx_trace s"
        using ms(2) s1(2,3) rd(1) by (simp add: frames_of_def m_def arp_at_def)
      show "arp_table s' = arp_table s" using ms(3) s1(3) by simp
      show "chain_from start (length bs) (map plain (m # ms))" using f(2,3) ms(4) by simp
      have "(left + (8 * b - 1)) div (8 * b) = Suc ((left - k + (8 * b - 1)) div (8 * b))"
        using False assms(5) by (intro rounds_one_more) (simp_all add: k_def)
      then show "length (m # ms) = (left + (8 * b - 1)) div (8 * b)" using ms(5) by simp
      have "length m \<le> unat (nif_mtu n) \<and> kept_bytes m hdr" using f(5,6) assms(4) by (simp add: k_def)
      then show "\<forall>m \<in> set (m # ms). fragment_of hdr bs (plain m) \<and> ip_header_ok m \<and> length m \<le> unat (nif_mtu n) \<and> kept_bytes m hdr"
        using f(1,4) ms(6) by simp
    qed
  qed
qed

section \<open>To the receiver\<close>

text \<open>The buffers in which the packets \<open>ms\<close> have arrived, in any order.\<close>

definition arrived :: "u8 list list \<Rightarrow> pbuf list \<Rightarrow> bool" where
  "arrived ms ps \<longleftrightarrow> mset (map p_bytes ps) = mset ms \<and> (\<forall>p \<in> set ps. 20 \<le> p_len p)"

lemma map_reordered: "mset (map f xs) = mset ys \<Longrightarrow> \<exists>zs. mset zs = mset xs \<and> map f zs = ys"
proof (induction ys arbitrary: xs)
  case (Cons y ys)
  have "f ` set xs = set (y # ys)" using mset_eq_setD [OF Cons.prems] by (simp only: set_map)
  moreover have "y \<in> set (y # ys)" by simp
  ultimately have "y \<in> f ` set xs" by (simp only:)
  then obtain x where x: "x \<in> set xs" "f x = y" by (elim imageE) (rule that, simp_all)
  then obtain as bs where xs: "xs = as @ x # bs" by (meson split_list)
  have "add_mset y (mset (map f (as @ bs))) = add_mset y (mset ys)" using Cons.prems x(2) by (simp add: xs)
  then have "mset (map f (as @ bs)) = mset ys" by (simp only: add_mset_add_mset_same_iff)
  from Cons.IH [OF this] obtain zs where "mset zs = mset (as @ bs)" "map f zs = ys" by blast
  then have "mset (x # zs) = mset xs" "map f (x # zs) = y # ys" using x(2) by (simp_all add: xs)
  then show ?case by (intro exI [of _ "x # zs"] conjI)
qed simp

lemma chain_plain:
  "\<forall>p \<in> set zs. 20 \<le> p_len p \<Longrightarrow> chain_from a n (map plain (map p_bytes zs)) = chain_from a n zs"
proof (induction zs arbitrary: a)
  case (Cons p zs)
  then have "20 \<le> p_len p" by simp
  with Cons show ?case using plain_same(1,2) [of p] by simp
qed simp

lemma arrived_fragments:
  assumes "arrived ms ps" "chain_from 0 (length bs) (map plain ms)" "\<forall>m \<in> set ms. fragment_of key bs (plain m)"
  shows "fragments_of key bs ps"
proof -
  obtain zs where z: "mset zs = mset ps" "map p_bytes zs = ms"
    using map_reordered [of p_bytes ps ms] assms(1) unfolding arrived_def by blast
  then have s: "set zs = set ps" by (metis mset_eq_setD)
  then have "chain_from 0 (length bs) zs" using assms(1,2) chain_plain [of zs 0 "length bs"] z(2) by (simp add: arrived_def)
  moreover have "fragment_of key bs p" if "p \<in> set ps" for p
    using assms(1,3) that plain_same(3) [of p key bs] z(2) s by (auto simp: arrived_def)
  ultimately show ?thesis using z(1) by (auto simp: fragments_of_def)
qed

text \<open>Equal but for the checksum of the header.\<close>

definition same_packet :: "u8 list \<Rightarrow> u8 list \<Rightarrow> bool" where
  "same_packet m m' \<longleftrightarrow> length m = length m' \<and> (\<forall>j < length m. j \<noteq> 10 \<and> j \<noteq> 11 \<longrightarrow> m ! j = m' ! j)"

lemma byte_pair: "(y :: nat) < 256 \<Longrightarrow> w < 256 \<Longrightarrow> 256 * x + y = 256 * v + w \<Longrightarrow> x = v \<and> y = w"
proof -
  assume h: "y < 256" "w < 256" "256 * x + y = 256 * v + w"
  then have "(256 * x + y) div 256 = x" "(256 * v + w) div 256 = v" by simp_all
  with h(3) have "x = v" by (simp only:)
  with h(3) show "x = v \<and> y = w" by simp
qed

lemma be16_same: "be16 a i = be16 b i \<Longrightarrow> a ! i = b ! i \<and> a ! (i + 1) = b ! (i + 1)"
proof -
  assume h: "be16 a i = be16 b i"
  let ?b = "\<lambda>x j. unat (x ! (i + j) :: u8)"
  have l: "?b a 1 < 256" "?b b 1 < 256" by (rule u8_less_256)+
  have e: "256 * ?b a 0 + ?b a 1 = 256 * ?b b 0 + ?b b 1" using h by (simp add: be16_def)
  have "?b a 0 = ?b b 0 \<and> ?b a 1 = ?b b 1" using byte_pair [OF l e] .
  then show ?thesis by (simp add: word_unat_eq_iff)
qed

lemma same_packetI:
  assumes "kept_bytes m' m" "be16 m 2 = length m" "be16 m 6 = 0" "m ! 0 = 0x45" "20 \<le> length m"
    "ip_header_ok m'" "ip_payload m' = drop 20 m" "length m' = length m" "be16 m' 6 = 0"
  shows "same_packet m' m"
proof -
  have m0: "m' ! 0 = 0x45" using assms(1,4) by (simp add: kept_bytes_def)
  then have hl: "ip_hlen m' = 20" by (simp add: ip_hlen_def)
  then have "20 \<le> ip_len m'" "ip_len m' \<le> length m'" using assms(6) by (simp_all add: ip_header_ok_def)
  moreover have pl: "take (ip_len m' - 20) (drop 20 m') = drop 20 m" using assms(7) unfolding ip_payload_def hl by (simp only: drop_take)
  moreover have "min (length m' - 20) (ip_len m' - 20) = length m - 20"
    using arg_cong [OF pl, where f = length] by (simp only: length_take length_drop)
  ultimately have "min (length m' - 20) (ip_len m' - 20) = length m - 20" "20 \<le> ip_len m'" "ip_len m' \<le> length m'" by simp_all
  then have il: "ip_len m' = length m" using assms(5,8) by linarith
  then have d: "drop 20 m' = drop 20 m" using pl assms(8) by simp
  have b: "m' ! 2 = m ! 2" "m' ! 3 = m ! 3" "m' ! 6 = m ! 6" "m' ! 7 = m ! 7"
    using be16_same [of m' 2 m] be16_same [of m' 6 m] il assms(2,3,9) by (simp_all add: ip_len_def)
  have "m' ! j = m ! j" if "j < length m'" "j \<noteq> 10 \<and> j \<noteq> 11" for j
  proof (cases "j < 20")
    case True
    with assms(1) that(2) b show ?thesis by (cases "j \<in> {2, 3, 6, 7}") (auto simp: kept_bytes_def)
  next
    case False
    then have "drop 20 m' ! (j - 20) = m' ! j" "drop 20 m ! (j - 20) = m ! j" using that(1) assms(8) by simp_all
    then show ?thesis by (simp only: d)
  qed
  with assms(8) show ?thesis by (simp add: same_packet_def)
qed

lemma header_bytes: "20 \<le> p_len p \<Longrightarrow> j < 20 \<Longrightarrow> seg_data (p_head p) ! j = p_bytes p ! j"
  by (simp add: p_len_def seg_len_def p_bytes_segs nth_append)

lemma arrived_rejoins:
  assumes "arrived ms ps" "ms \<noteq> []"
    "\<forall>m \<in> set ms. fragment_of (seg_data (p_head p)) (drop 20 (p_bytes p)) (plain m) \<and> kept_bytes m (seg_data (p_head p))"
    "chain_from 0 (length (drop 20 (p_bytes p))) (map plain ms)"
    "20 \<le> p_len p" "p_bytes p ! 0 = 0x45" "be16 (p_bytes p) 2 = length (p_bytes p)" "be16 (p_bytes p) 6 = 0"
    "length (reassdatagrams r) < MEMP_NUM_REASSDATA"
    "\<forall>ipr \<in> set (reassdatagrams r). \<not> IP_ADDRESSES_AND_ID_MATCH (rd_iphdr ipr) (p_bytes p)"
    "unat (ip_reass_pbufcount r) + sum_list (map pbuf_clen ps) \<le> IP_REASS_MAX_PBUFS"
  shows "\<exists>q. reass_all E w ps r t = Some (replicate (length ps - 1) None @ [Some q], r, t) \<and>
    ip_header_ok (p_bytes q) \<and> same_packet (p_bytes q) (p_bytes p)"
proof -
  let ?hdr = "seg_data (p_head p)" and ?bs = "drop 20 (p_bytes p)"
  note hb = header_bytes [OF assms(5)]
  have tot: "20 \<le> length (p_bytes p)" using assms(5) by (simp add: p_len_def seg_len_def p_bytes_segs)
  have "be16 (p_bytes p) 2 < 65536" using unat_ntohs_at16 [of "p_bytes p" 2] u16_less_65536 [of "lwip_ntohs (at16 (p_bytes p) 2)"] by simp
  then have lb: "length ?bs \<le> 65515" using assms(7) by simp
  have key: "IP_ADDRESSES_AND_ID_MATCH x ?hdr = IP_ADDRESSES_AND_ID_MATCH x (p_bytes p)" for x
    by (simp add: IP_ADDRESSES_AND_ID_MATCH_def at32_def at16_def hb)
  obtain m ms' where m: "ms = m # ms'" "frag_start (plain m) = 0" using assms(2,4) by (cases ms) auto
  have fr: "fragments_of ?hdr ?bs ps" using arrived_fragments [OF assms(1,4)] assms(3) by blast
  have "m \<in># mset (map p_bytes ps)" using assms(1) m(1) by (simp add: arrived_def)
  then obtain p1 where p1: "p1 \<in> set ps" "p_bytes p1 = m" by auto
  then have l1: "20 \<le> p_len p1" using assms(1) by (simp add: arrived_def)
  have ne: "ps \<noteq> []" using p1(1) by auto
  obtain q where q: "whole_of ?hdr ?bs ps (p_bytes q)" "reass_all E w ps r t = Some (replicate (length ps - 1) None @ [Some q], r, t)"
    using fragments_whole [OF fr ne lb assms(9) _ assms(11), of E w t] assms(10) by (auto simp: key)
  have "frag_start p1 = 0" using plain_same(1) [OF l1] m(2) p1(2) by simp
  then have "kept_bytes (p_bytes q) (fhdr p1)" using q(1) p1(1) by (simp add: whole_of_def)
  moreover have "fhdr p1 ! j = m ! j" if "j < 20" for j using header_bytes [OF l1 that] p1(2) by (simp add: fhdr_def)
  moreover have "kept_bytes m ?hdr" using assms(3) m(1) by simp
  ultimately have kb: "kept_bytes (p_bytes q) (p_bytes p)" by (simp add: kept_bytes_def hb)
  have "same_packet (p_bytes q) (p_bytes p)"
    by (rule same_packetI [OF kb assms(7,8,6) tot]) (use q(1) tot in \<open>simp_all add: whole_of_def\<close>)
  with q show ?thesis by (auto simp: whole_of_def)
qed

end
