(* ===== verification/LwipReass_Props.thy ===== *)
theory LwipReass_Props
  imports LwipFrag_Facts LwipStack_Props
begin

text \<open>
  The properties of cutting and reassembly: whatever the order in which the fragments of a datagram
  arrive, the last one gives the datagram, and what one stack cuts another puts together.
\<close>

text \<open>
  C15: Fragments of a datagram, in any order, give it back. When there is room for them and the board
  has none of the datagram yet, all fragments but the one that comes last give nothing and stay
  queued, and the last one gives one packet: its header is correct and that of a whole packet, with the addresses and the identification
  of the fragments and all other fields as in the fragment with offset 0, and its payload is exactly the payload that was cut up, however
  the fragments cut it. Nothing is sent, freed or lost: the other incomplete datagrams are as they
  were, and so is the count of buffers.
\<close>
theorem fragments_reassembled:
  assumes "fragments_of key bs ps" "ps \<noteq> []" "length bs \<le> 65515" "length (reassdatagrams r) < MEMP_NUM_REASSDATA"
    "\<forall>ipr \<in> set (reassdatagrams r). \<not> IP_ADDRESSES_AND_ID_MATCH (rd_iphdr ipr) key"
    "unat (ip_reass_pbufcount r) + sum_list (map pbuf_clen ps) \<le> IP_REASS_MAX_PBUFS"
  shows "\<exists>q. whole_of key bs ps (p_bytes q) \<and> reass_all E w ps r s = Some (replicate (length ps - 1) None @ [Some q], r, s)"
  using assms by (rule fragments_whole)

definition demo_frag :: "u8 list \<Rightarrow> u8 list \<Rightarrow> pbuf" where
  "demo_frag off d = \<lparr>p_head = \<lparr>seg_type = PBUF_POOL, seg_addr = 0, seg_front = replicate 14 0,
     seg_data = [0x45, 0, 0, 20 + of_nat (length d), 0, 7] @ off @ [64, 17, 0, 0, 192, 168, 10, 1, 192, 168, 10, 12] @ d, seg_tail = []\<rparr>,
     p_next = [], p_flags = 0, p_if_idx = 0\<rparr>"

definition demo_frag_1 :: pbuf where "demo_frag_1 = demo_frag [0x20, 0] [1, 2, 3, 4, 5, 6, 7, 8]"
definition demo_frag_2 :: pbuf where "demo_frag_2 = demo_frag [0, 1] [9, 10, 11]"

lemma demo_fragments: "fragments_of (fhdr demo_frag_1) [1, 2, 3, 4, 5, 6, 7, 8, 9, 10, 11] [demo_frag_2, demo_frag_1]"
proof -
  have "fragment_of (fhdr demo_frag_1) [1, 2, 3, 4, 5, 6, 7, 8, 9, 10, 11] demo_frag_1"
    "fragment_of (fhdr demo_frag_1) [1, 2, 3, 4, 5, 6, 7, 8, 9, 10, 11] demo_frag_2" by code_simp+
  moreover have "chain_from 0 11 [demo_frag_1, demo_frag_2]" by code_simp
  moreover have "mset [demo_frag_1, demo_frag_2] = mset [demo_frag_2, demo_frag_1]" by simp
  ultimately show ?thesis unfolding fragments_of_def by fastforce
qed

theorem fragments_reassembled_witness:
  "\<forall>E w s. \<exists>q. ip_payload (p_bytes q) = [1, 2, 3, 4, 5, 6, 7, 8, 9, 10, 11] \<and>
     reass_all E w [demo_frag_2, demo_frag_1] reass_0 s = Some ([None, Some q], reass_0, s)"
proof -
  have "\<forall>ipr \<in> set (reassdatagrams reass_0). \<not> IP_ADDRESSES_AND_ID_MATCH (rd_iphdr ipr) (fhdr demo_frag_1)"
    "length (reassdatagrams reass_0) < MEMP_NUM_REASSDATA" by (simp_all add: reass_0_def MEMP_NUM_REASSDATA_def)
  moreover have "unat (ip_reass_pbufcount reass_0) + sum_list (map pbuf_clen [demo_frag_2, demo_frag_1]) \<le> IP_REASS_MAX_PBUFS"
    by (simp add: reass_0_def pbuf_clen_def p_segs_def demo_frag_1_def demo_frag_2_def demo_frag_def IP_REASS_MAX_PBUFS_def)
  ultimately have "\<exists>q. whole_of (fhdr demo_frag_1) [1, 2, 3, 4, 5, 6, 7, 8, 9, 10, 11] [demo_frag_2, demo_frag_1] (p_bytes q) \<and>
     reass_all E w [demo_frag_2, demo_frag_1] reass_0 s = Some (replicate (length [demo_frag_2, demo_frag_1] - 1) None @ [Some q], reass_0, s)" for E w s
    by (intro fragments_reassembled [OF demo_fragments]) simp_all
  moreover have "replicate (length [demo_frag_2, demo_frag_1] - 1) None @ [Some q] = [None, Some q]" for q :: pbuf by simp
  ultimately show ?thesis unfolding whole_of_def by metis
qed

text \<open>
  C14: A packet that is too long for the link arrives all the same. When the address table knows the next hop and the MTU
  less 20 is a multiple of 8, as the board's 1500 is, a correct packet of up to 65535 bytes that is longer than the MTU leaves
  as a sequence of frames to the next hop, as few as the MTU allows. Each holds a correct IPv4 packet that fits the link. Whatever the
  order in which they arrive at a host with this stack that has room for them and nothing else queued under
  the same addresses and identification, all but the last come to rest there, and the last
  one brings one packet with a correct header, equal to the packet that was sent in every byte but
  the two of the header checksum.
\<close>
theorem cut_packet_rejoined:
  assumes "heap_ok E" "heap_never_full E" "reachable_by N n dst i s" "link_of n \<in> N" "unat (nif_mtu n) = 20 + 8 * b" "0 < b" "b < 8180"
    "20 \<le> p_len p" "length (p_segs p) \<le> 15" "p_bytes p ! 0 = 0x45" "be16 (p_bytes p) 2 = length (p_bytes p)" "be16 (p_bytes p) 6 = 0"
    "unat (nif_mtu n) < p_tot_len p"
  shows "\<exists>ms s'. ip4_send E p dst n s = Some (LwOk, s') \<and> tx_trace s' = frames_of n (arp_at s i) ms @ tx_trace s \<and>
    length ms = (p_tot_len p - 20 + (8 * b - 1)) div (8 * b) \<and> (\<forall>m \<in> set ms. ip_header_ok m \<and> length m \<le> unat (nif_mtu n)) \<and>
    (\<forall>ps r E' w t. arrived ms ps \<and> length (reassdatagrams r) < MEMP_NUM_REASSDATA \<and>
       (\<forall>ipr \<in> set (reassdatagrams r). \<not> IP_ADDRESSES_AND_ID_MATCH (rd_iphdr ipr) (p_bytes p)) \<and>
       unat (ip_reass_pbufcount r) + sum_list (map pbuf_clen ps) \<le> IP_REASS_MAX_PBUFS \<longrightarrow>
       (\<exists>q. reass_all E' w ps r t = Some (replicate (length ps - 1) None @ [Some q], r, t) \<and>
          ip_header_ok (p_bytes q) \<and> same_packet (p_bytes q) (p_bytes p)))"
proof -
  let ?hdr = "seg_data (p_head p)" and ?bs = "drop 20 (p_bytes p)"
  have lh: "20 \<le> length ?hdr" using assms(8) by (simp add: p_len_def seg_len_def)
  have hb: "?hdr ! j = p_bytes p ! j" if "j < 20" for j using that lh by (simp add: p_bytes_segs nth_append)
  have tot: "p_tot_len p = length (p_bytes p)" "20 \<le> length (p_bytes p)" using lh by (simp_all add: p_tot_len_bytes p_bytes_segs)
  have "be16 (p_bytes p) 2 < 65536" using unat_ntohs_at16 [of "p_bytes p" 2] u16_less_65536 [of "lwip_ntohs (at16 (p_bytes p) 2)"] by simp
  then have lb: "length ?bs \<le> 65515" using assms(11) by simp
  have h0: "?hdr ! 0 = 0x45" using hb [of 0] assms(10) by simp
  have off: "IPH_OFFSET ?hdr = 0" using assms(12) hb by (simp add: IPH_OFFSET_def at16_def at16_0_iff [symmetric])
  have hl: "IPH_HL_BYTES 0x45 = 20" by (simp add: IPH_HL_BYTES_def)
  have nfb: "frag_blocks (unat (nif_mtu n)) = b" by (simp add: frag_blocks_def assms(5) IP_HLEN_def)
  obtain ms s' where ms: "frag_loop E n dst ?hdr False b (length ?bs) 0 (p_segs p) 20 s = Some (LwOk, s')"
    "tx_trace s' = frames_of n (arp_at s i) ms @ tx_trace s" "arp_table s' = arp_table s" "chain_from 0 (length ?bs) (map plain ms)" "length ms = (length ?bs + (8 * b - 1)) div (8 * b)"
    "\<forall>m \<in> set ms. fragment_of ?hdr ?bs (plain m) \<and> ip_header_ok m \<and> length m \<le> unat (nif_mtu n) \<and> kept_bytes m ?hdr"
    by (rule frag_loop_ok [OF assms(1,2,4-7) lh h0 lb assms(3,9), of 20 0 "length ?bs" 0])
      (use assms(8) in \<open>simp_all add: p_segs_def p_bytes_segs p_len_def\<close>)
  have "ip4_frag E p n dst s = frag_loop E n dst ?hdr False b (length ?bs) 0 (p_segs p) 20 s"
    using assms(8) tot
    by (simp add: ip4_frag_def Let_def h0 hl nfb off IP_HLEN_def lwip_ntohs_def lwip_htons_def del: frag_loop.simps)
  moreover have mtu: "nif_mtu n \<noteq> 0" using assms(5) by auto
  ultimately have snd: "ip4_send E p dst n s = Some (LwOk, s')"
    using assms(13) ms(1) mtu by (simp add: ip4_send_def del: frag_loop.simps)
  have "ms \<noteq> []" using ms(4) tot assms(5,13) by auto
  then have "\<exists>q. reass_all E' w ps r t = Some (replicate (length ps - 1) None @ [Some q], r, t) \<and>
      ip_header_ok (p_bytes q) \<and> same_packet (p_bytes q) (p_bytes p)"
    if "arrived ms ps" "length (reassdatagrams r) < MEMP_NUM_REASSDATA"
      "\<forall>ipr \<in> set (reassdatagrams r). \<not> IP_ADDRESSES_AND_ID_MATCH (rd_iphdr ipr) (p_bytes p)"
      "unat (ip_reass_pbufcount r) + sum_list (map pbuf_clen ps) \<le> IP_REASS_MAX_PBUFS" for ps r E' w t
    by (rule arrived_rejoins [OF that(1) _ _ ms(4) assms(8,10-12) that(2-4)]) (use ms(6) in auto)
  moreover have "length ms = (p_tot_len p - 20 + (8 * b - 1)) div (8 * b)" using ms(5) tot(1) by simp
  ultimately show ?thesis using snd ms(2,6) by blast
qed

text \<open>Sixty bytes over a link with an MTU of 36: three frames, which arrive in the reverse order.\<close>

definition demo_small :: netif where "demo_small = demo_nif\<lparr>nif_mtu := 36\<rparr>"

definition demo_long :: pbuf where
  "demo_long = demo_seg ([0x45, 0, 0, 60, 0, 7, 0, 0, 64, 17, 0, 0, 192, 168, 10, 12, 192, 168, 10, 1] @ map of_nat [0..<40])"

lemma demo_small_bcast: "ip4_addr_isbroadcast_u32 a demo_small = ip4_addr_isbroadcast_u32 a demo_nif"
proof -
  have f: "has_flag demo_small g = has_flag demo_nif g" for g by (simp add: demo_small_def has_flag_def)
  show ?thesis unfolding ip4_addr_isbroadcast_u32_def f by (simp add: demo_small_def)
qed

lemma demo_small_link: "link_of demo_small = link_of demo_nif"
  by (simp add: link_of_def demo_small_bcast) (simp add: demo_small_def)

lemma demo_small_reachable: "reachable_by {link_of demo_nif} demo_small demo_host 0 demo_known"
proof -
  have h: "arp_next_hop demo_small a = arp_next_hop demo_nif a" "stable_for demo_small a e = stable_for demo_nif a e" for a e
    by (simp_all add: arp_next_hop_def stable_for_def demo_small_def)
  have w: "nif_hwaddr demo_small = nif_hwaddr demo_nif" by (simp add: demo_small_def)
  show ?thesis using demo_known_reachable unfolding reachable_by_def demo_small_bcast h w .
qed

lemma demo_long_bytes: "20 \<le> p_len demo_long" "length (p_segs demo_long) \<le> 15" "p_bytes demo_long ! 0 = 0x45"
    "be16 (p_bytes demo_long) 2 = length (p_bytes demo_long)" "be16 (p_bytes demo_long) 6 = 0" "p_tot_len demo_long = 60"
  by (simp_all add: demo_long_def demo_seg_def p_len_def p_segs_def p_bytes_segs p_tot_len_def seg_len_def be16_def)

theorem cut_packet_rejoined_witness:
  "\<exists>ms s'. ip4_send demo_tx_env demo_long demo_host demo_small demo_known = Some (LwOk, s') \<and> length ms = 3 \<and>
     tx_trace s' = frames_of demo_small (arp_at demo_known 0) ms \<and>
     (\<exists>q. reass_all demo_tx_env demo_lwip (map plain (rev ms)) reass_0 demo_known = Some ([None, None, Some q], reass_0, demo_known) \<and>
        same_packet (p_bytes q) (p_bytes demo_long))"
proof -
  have n: "link_of demo_small \<in> {link_of demo_nif}" "unat (nif_mtu demo_small) = 20 + 8 * 2"
    by (simp_all add: demo_small_link) (simp add: demo_small_def)
  have t: "tx_trace demo_known = []" by (simp add: demo_known_def tx_state_0_def)
  have m: "unat (nif_mtu demo_small) < p_tot_len demo_long" using n(2) demo_long_bytes(6) by simp
  obtain ms s' where ms: "ip4_send demo_tx_env demo_long demo_host demo_small demo_known = Some (LwOk, s')"
    "tx_trace s' = frames_of demo_small (arp_at demo_known 0) ms @ tx_trace demo_known" "length ms = (p_tot_len demo_long - 20 + (8 * 2 - 1)) div (8 * 2)"
    "\<forall>m \<in> set ms. ip_header_ok m \<and> length m \<le> unat (nif_mtu demo_small)"
    "\<forall>ps r E w t. arrived ms ps \<and> length (reassdatagrams r) < MEMP_NUM_REASSDATA \<and>
       (\<forall>ipr \<in> set (reassdatagrams r). \<not> IP_ADDRESSES_AND_ID_MATCH (rd_iphdr ipr) (p_bytes demo_long)) \<and>
       unat (ip_reass_pbufcount r) + sum_list (map pbuf_clen ps) \<le> IP_REASS_MAX_PBUFS \<longrightarrow>
       (\<exists>q. reass_all E w ps r t = Some (replicate (length ps - 1) None @ [Some q], r, t) \<and>
          ip_header_ok (p_bytes q) \<and> same_packet (p_bytes q) (p_bytes demo_long))"
    using cut_packet_rejoined [OF demo_tx demo_small_reachable n _ _ demo_long_bytes(1-5) m] by auto
  have l: "length ms = 3" using ms(3) demo_long_bytes(6) by simp
  let ?ps = "map plain (rev ms)"
  have "\<forall>m \<in> set ms. 20 \<le> length m" using ms(4) by (auto simp: ip_header_ok_def)
  then have "arrived ms ?ps" by (auto simp: arrived_def rev_map [symmetric] comp_def)
  moreover have "sum_list (map pbuf_clen ?ps) = 3"
    using l by (simp add: comp_def pbuf_clen_def p_segs_def plain_def sum_list_triv)
  moreover have "length (reassdatagrams reass_0) < MEMP_NUM_REASSDATA"
    "\<forall>ipr \<in> set (reassdatagrams reass_0). \<not> IP_ADDRESSES_AND_ID_MATCH (rd_iphdr ipr) (p_bytes demo_long)"
    "unat (ip_reass_pbufcount reass_0) + 3 \<le> IP_REASS_MAX_PBUFS"
    by (simp_all add: reass_0_def MEMP_NUM_REASSDATA_def IP_REASS_MAX_PBUFS_def)
  ultimately obtain q where q: "reass_all demo_tx_env demo_lwip ?ps reass_0 demo_known = Some (replicate (length ?ps - 1) None @ [Some q], reass_0, demo_known)"
    "same_packet (p_bytes q) (p_bytes demo_long)"
    using ms(5) [rule_format, of ?ps reass_0 demo_tx_env demo_lwip demo_known] by auto
  have "replicate (length ?ps - 1) None @ [Some q] = [None, None, Some q]" using l by (simp add: numeral_2_eq_2)
  with q ms(1,2) l t show ?thesis by auto
qed

end
