(* ===== verification/Spec2Isabelle.thy ===== *)
theory Spec2Isabelle
  imports FrontSteering_Props FrontNode_Props RearSystem_Props RearControl_Props RearNet_Props RearIo_Props RearCan_Props LwipNet_Props LwipIgmp_Props LwipStack_Props LwipReass_Props
begin

text \<open>
  Verification library for the two TC375 controllers of the self-driving car: the FRONT board
  (src/FRONT: steering servo, two ultrasonic sensors, a time-of-flight sensor) and the REAR board
  (src/REAR: drive motors, two ultrasonic sensors, three cores). Both talk to a high-performance
  computer over Ethernet. What is modelled is the C code the project wrote itself, and the part of the
  TCP/IP stack in the repository (lwIP) that a drive command passes through.

  The ground. Prelude holds the integer types, the collections of rewrite rules and generic facts.
  Float32 is IEEE binary32: a finite value is the real it denotes, every operation rounds once (to
  nearest, ties to even), and a conversion to an integer type that cannot hold the value, which C
  leaves undefined, is None. Fused multiply-add, which a compiler may introduce, is not modelled.
  Hw and RearHw are the boundary: a call into the low-level drivers, a write to a register or a
  reading of the clock is an event of a trace, newest first, and what comes back is a function of
  the trace so far, so a result may depend on everything done before. Exec bounds the time of a
  computation and what it does to the pins; every polling loop of the code is \<open>poll_loop\<close>, a
  partial function, of one of its rounds (None: it never ends), and the locale
  \<open>deadline_loop\<close> gives the end of those that look at a deadline. Out-of-bounds reads,
  undefined conversions and endless loops are None throughout, so \<open>\<exists>r. f x = Some r\<close> says that the
  code returns.

  FRONT. FrontSteering is FrontSteeringNode.c: the HPSC receiver (search in a frame, CRC,
  sequence number, command checks), watchdog, rate limit, servo pulses. FrontSteering_Facts,
  FrontCrc, FrontPacket_Facts and FrontSteering_Reach carry its properties, which FrontSteering_Props
  states: an invariant of all reachable states, the exact acceptance rule and what it refuses
  (corruption within four bytes, replay), the watchdog, the return to the centre within 501
  periods, rate limit, in-bounds reads with the buffer length they need. FrontSensors, FrontI2c,
  FrontTof and FrontNode are AebSensorNode.c and Cpu0_Main.c: time, ultrasonic sensors, bit-banged
  I2C, VL53L0X, AEB1 packet, the cycle. FrontLoops, FrontRuns, FrontNode_Facts and FrontCycle
  show that every loop and the whole cycle end within a number of timer ticks, counted exactly (\<open>took\<close>; the code itself
  reads the count modulo \<open>2 ^ 32\<close>), and that a cycle hands exactly one frame to the Ethernet driver, for timers of 10
  MHz and more and accesses to the hardware that take at most 10000 ticks besides the waits asked for. The one wait of FRONT that the code does not
  limit itself, for a transmit buffer, makes \<open>aeb_sendFrame\<close> None when the driver never returns (\<open>tx_free\<close>); \<open>node_hw\<close> supposes
  that it does. FrontNode_Reach has an environment with an echo, in which the first frame of the node declares its distances valid;
  FrontAeb1, FrontSpads and FrontBus_Facts are about single routines; FrontNode_Props
  states the properties.

  REAR. RearShared is the shared memory: four double buffers, each a mailbox between two cores (the
  locale \<open>mailbox\<close>, interpreted for each of them). RearMotor (gtm_atom_pwm.c, Motor.c) and
  RearControl (Cpu1_Main.c, gpt12_enc.c) are CPU1: emergency, MANUAL and ACC branches, output
  stage, encoder, timer interrupt. RearNet is CPU0: udp_txrx.c, geth_lwip.c, the timers of
  Ifx_Lwip.c, \<open>pbuf_copy_partial\<close> of lwIP, and the main loop of Cpu0_Main.c. RearUltra is CPU2:
  AebSensorNode.c and Cpu2_Main.c. RearSerial (asclin.c, Bluetooth.c, my_stdio.c, etc.c), RearCan
  (can.c, canfd.c, ToF.c) and RearIo (GPIO.c, Buzzer.c, Ultrasonic.c, stm.c, gpt12.c, eru.c, evadc.c)
  are the peripherals. RearControl_Facts and RearAcc_Facts hold the ranges and rounding-error bounds
  of the controller, RearUltra_Facts relates the sensor code to FRONT's, RearNet_Facts is about
  buffers and timers.

  RearSystem composes the board: the steps of the cores (reception of any datagram, millisecond
  tick, a round of the main loop, a run of the controller, a measurement cycle) are an inductive
  relation, interleaved in any order, and its invariant holds in every reachable state. A step
  accesses the shared memory without interruption there; RearRace takes the accesses apart,
  field by field, and shows that the double buffer still refines a register as long as no write
  begins during a read that has already seen another one published, and what a reader gets that is overtaken twice. RearSystem_Props, RearControl_Props, RearNet_Props, RearIo_Props and RearCan_Props
  state the properties: an emergency datagram brakes from every state, no core gets stuck (every
  kind of step is possible in every reachable state; the calls of the main loop into the stack are single events in RearNet), the
  integrator and the reference speed stay within their bounds, what MANUAL and ACC make of a command,
  what reception and the reports carry, and that no period of the stack's timers is lost.

  lwIP. LwipPbuf is pbuf.c: buffers with the memory in front of and behind the payload, and the pool.
  LwipChksum is inet_chksum.c and def.c, LwipNetif the addresses, interfaces (netif.c) and groups (igmp.c),
  LwipUdp udp.c, LwipIp4 ip4_input and ethernet.c, LwipPort the driver and the set-up of the board
  (port/src/netif.c, Ifx_Lwip.c, udp_txrx.c). A chain owns its elements: freeing puts them on top of the pool
  in the order of the code, and what a function hands on is part of its result (\<open>udp_fate\<close>,
  \<open>ip_fate\<close>, \<open>eth_fate\<close>). LwipChksum_Facts shows that the three checksum algorithms compute the same
  number and that one changed byte always shows; LwipPbuf_Facts that no operation on chains loses memory;
  LwipRx_Facts, LwipAccept and LwipFrames carry the bytes of a frame from the DMA ring to the
  callback and end in the rule \<open>frame_command\<close>; LwipBoot is the state after the start.
  LwipNet_Props and LwipIgmp_Props state the properties: one poll of the receiver does what the rule
  says and gives the buffers back, from the start on a sequence of frames is a sequence of commands,
  an emergency frame on the wire brakes the car, a corrupted byte is not obeyed, what faulty frames and a
  shortage of buffers do, and that membership queries are answered when their timer runs.

  The way out, and what the stack does by itself. LwipArp is etharp.c (the address table) with the buffers of the
  heap, LwipOutput the sending halves of ip4.c and udp.c and the cutting into fragments, LwipReass
  icmp.c and the putting together of fragments, LwipStack the composition: a received frame with all it
  causes, the sending routine of the application, the timer of the table. The state of the sending
  half (\<open>tx_state\<close>) is the table and the trace of frames given to the MAC; the heap (\<open>mem_malloc\<close>) and the old
  contents of the transmit buffers are functions of that trace. The loops over the table and over the
  fragments are recursions on what is left; the loop that gives up old datagrams has the number
  of datagrams plus one as fuel, as every round but the last frees one. LwipArp_Facts holds the invariant of
  the table for a set of links (\<open>link_of\<close>: the number of an interface and its broadcast addresses, since what is a broadcast address depends on
  the interface), which entry is found or given up and what a tick does; LwipStack_Facts lifts an
  invariant of the sending half through every path of the stack to all runs (the locales
  \<open>tx_invariant\<close> and \<open>stack_invariant\<close>, interpreted for the address table); LwipSend_Facts, LwipSum_Facts
  and LwipUdpSend_Facts follow a packet to the wire: frames, checksums that close, headers as a
  receiver reads them. LwipStack_Props states the properties: the invariant in every run, when entries
  expire, which entry an address gets, that a packet for an unknown host waits in the table and that an answer sends it as long as it is
  there, what a sent datagram looks like, and that a command sent by one stack is obeyed by the other.
  LwipReass_Facts takes the reassembly apart (the list of queued fragments stays in order, the test whether
  a datagram is complete is exact, the chain that is handed up), LwipFrag_Facts the cutting (the references
  into the chain, the headers of the fragments, the loop). LwipReass_Props states that the fragments of a
  datagram give it back in every order, and that a packet which one stack cuts is put together by the other.

  Correspondence. A definition has the name of the C function, type or macro it translates; where
  both boards define the same name REAR's carries \<open>rear_\<close> or \<open>REAR_\<close> (its file is
  the same, without \<open>aeb_\<close>). Parts of a long function that the proofs name are definitions of
  their own, composed in the order of the code. Static variables are records, passed and
  returned. Variables of C's \<open>int\<close> that only count or hold duty cycles are integers.

  Not modelled. The low-level drivers of the vendor (iLLD) are not in the repository; they are
  parameters. The wait of lwIP's driver for a transmit buffer is taken to return (\<open>link_output\<close>). The PHY driver, start-up code and configuration files are third-party or
  generated. lwIP is translated with the options of the board. In LwipPort a frame ends where TCP, ARP, ICMP or
  the reassembly take it over (\<open>frame_taken\<close> says which), and in RearNet sending is an event; LwipStack goes
  on from there, except for TCP, for which the board opens no connection and no listener. DHCP,
  DNS, IPv6, PPP and the socket layer, which the board does not use, are left out. Reference
  counts of buffers are not modelled: a chain is a value, and where two places refer to it (a packet that waits in
  the address table) the second release is left out. The Python and MATLAB
  nodes are outside this development. Of my_scanf, which nothing calls, the line editor is
  modelled and the conversions are not. The calls of core2_main that concern only the core itself
  (interrupts, watchdog, start-up event) are left out. Caches, memory barriers and the duration of
  single instructions have no counterpart; the time of a computation is that of its waits and
  clock readings.
\<close>

end
